(* ===== verification/Emu_Prelude.thy ===== *)
theory Emu_Prelude
  imports Main "HOL-Library.Word" "HOL-Library.Monad_Syntax"
begin

text \<open>
  Shared vocabulary of the development: the C integer types as words, the value of a byte
  sequence in little-endian order, the truncations and sign extensions the C casts perform,
  and the generic facts on bits, lists and options the component theories rely on.

  Outcomes. A C function that may stop the program (\<open>abort\<close>, a failed \<open>assert\<close>) or
  leave defined behaviour (an access outside an allocated buffer) returns an \<open>option\<close>:
  \<open>None\<close> is that outcome. A C function that returns an error code returns a value of
  \<open>'a res\<close> in addition.
\<close>

unbundle bit_operations_syntax

section \<open>Types\<close>

type_synonym u8 = "8 word"
type_synonym u16 = "16 word"
type_synonym u32 = "32 word"
type_synonym u64 = "64 word"

datatype 'a res = ERR | OK 'a

named_theorems cdefs "definitions unfolded to evaluate the model on a concrete input"
named_theorems masks "numeric values of the masks and constants of the C headers"
named_theorems frame "fields an operation leaves unchanged"

section \<open>C casts\<close>

text \<open>\<open>sext n x\<close> is the C idiom \<open>(val << (32 - n)) >> (32 - n)\<close> on a signed 32-bit value.\<close>

definition sext :: "u32 \<Rightarrow> nat \<Rightarrow> u32" where
  "sext x n = signed_drop_bit (32 - n) (push_bit (32 - n) x)"

definition of_bool_u32 :: "bool \<Rightarrow> u32" where
  "of_bool_u32 b = (if b then 1 else 0)"

lemma of_bool_u32_simps [simp]: "of_bool_u32 True = 1" "of_bool_u32 False = 0"
  by (simp_all add: of_bool_u32_def)

section \<open>Little-endian byte sequences\<close>

fun le_val :: "u8 list \<Rightarrow> nat" where
  "le_val [] = 0"
| "le_val (b # bs) = unat b + 256 * le_val bs"

fun le_bytes :: "nat \<Rightarrow> nat \<Rightarrow> u8 list" where
  "le_bytes 0 v = []"
| "le_bytes (Suc n) v = of_nat v # le_bytes n (v div 256)"

lemma length_le_bytes [simp]: "length (le_bytes n v) = n"
  by (induction n arbitrary: v) auto

lemma le_val_bound: "le_val bs < 256 ^ length bs"
proof (induction bs)
  case Nil
  show ?case by simp
next
  case (Cons b bs)
  have "unat b < 256" using unsigned_less [of b] by simp
  with Cons.IH show ?case by simp
qed

lemma le_val_le_bytes: "le_val (le_bytes n v) = v mod 256 ^ n"
proof (induction n arbitrary: v)
  case 0
  show ?case by simp
next
  case (Suc n)
  have "v mod (256 * 256 ^ n) = v mod 256 + 256 * (v div 256 mod 256 ^ n)"
    by (simp add: mod_mult2_eq)
  then show ?case by (simp add: Suc.IH unat_of_nat)
qed

lemma le_bytes_le_val: "le_bytes (length bs) (le_val bs) = bs"
proof (induction bs)
  case Nil
  show ?case by simp
next
  case (Cons b bs)
  have b: "unat b < 256" using unsigned_less [of b] by simp
  have "(unat b + 256 * le_val bs) div 256 = le_val bs" using b by simp
  moreover have "(of_nat (unat b + 256 * le_val bs) :: u8) = b"
    by (rule word_unat_eq_iff [THEN iffD2]) (use b in \<open>simp only: unat_of_nat, simp\<close>)
  ultimately show ?case by (simp add: Cons.IH del: of_nat_add of_nat_mult)
qed

lemma le_val_append: "le_val (xs @ ys) = le_val xs + 256 ^ length xs * le_val ys"
  by (induction xs) (auto simp: algebra_simps)

section \<open>Option monad\<close>

lemma bind_Some_conv: "(m \<bind> f = Some y) \<longleftrightarrow> (\<exists>x. m = Some x \<and> f x = Some y)"
  by (cases m) auto

lemma bind_not_NoneI:
  assumes "m \<noteq> None" and "\<And>x. m = Some x \<Longrightarrow> f x \<noteq> None"
  shows "m \<bind> f \<noteq> None"
  using assms by (cases m) auto

section \<open>Words\<close>

lemma word_and_mask_mod: "unat (x AND mask n) = unat x mod 2 ^ n" for x :: "'a::len word"
proof -
  have "unat (take_bit n x) = take_bit n (unat x)" by (rule unsigned_take_bit_eq)
  then show ?thesis by (metis take_bit_eq_mask take_bit_eq_mod)
qed

section \<open>Pages\<close>

lemma page_div_less: "off < n \<Longrightarrow> n mod 4096 = 0 \<Longrightarrow> off div 4096 < n div 4096" for n :: nat
  by (auto simp: mod_eq_0_iff_dvd elim!: dvdE intro: less_mult_imp_div_less)

lemma page_end_le:
  fixes n :: nat
  assumes "off < n" and "n mod 4096 = 0"
  shows "off - off mod 4096 + 4096 \<le> n"
proof -
  have "off div 4096 < n div 4096" using assms by (rule page_div_less)
  moreover have "n = 4096 * (n div 4096)" using assms(2) by (simp add: mod_eq_0_iff_dvd)
  moreover have "off - off mod 4096 = 4096 * (off div 4096)" by (simp add: minus_mod_eq_mult_div)
  ultimately show ?thesis by linarith
qed

lemma page_offset_diff:
  fixes p :: nat
  assumes "a mod 4096 = 0" and "a \<le> p"
  shows "(p - a) mod 4096 = p mod 4096"
proof -
  from assms(2) obtain d where d: "p = a + d" by (auto simp: le_iff_add)
  have "(a mod 4096 + d) mod 4096 = (a + d) mod 4096" by (rule mod_add_left_eq)
  with assms(1) d show ?thesis by simp
qed

lemma and_not_mask_push_drop: "x AND NOT (mask n) = push_bit n (drop_bit n x)" for x :: "'a::len word"
  by (rule bit_word_eqI) (auto simp: bit_simps)

lemma and_mask_eq_0_iff: "x AND mask n = 0 \<longleftrightarrow> unat x mod 2 ^ n = 0" for x :: "'a::len word"
  by (metis word_and_mask_mod unat_eq_0)

lemma unat_drop_bit: "unat (drop_bit n x) = unat x div 2 ^ n" for x :: "'a::len word"
proof -
  have "unat (drop_bit n x) = drop_bit n (unat x)"
    by (simp only: unsigned_drop_bit_eq take_bit_nat_eq_self [OF unsigned_less])
  then show ?thesis by (simp only: drop_bit_eq_div)
qed

lemma unat_and_not_mask: "unat (x AND NOT (mask n)) = unat x - unat x mod 2 ^ n" for x :: "'a::len word"
proof -
  have "unat x div 2 ^ n * 2 ^ n \<le> unat x" by (rule div_times_less_eq_dividend)
  also have "\<dots> < 2 ^ LENGTH('a)" by (rule unsigned_less)
  finally have lt: "unat x div 2 ^ n * 2 ^ n < 2 ^ LENGTH('a)" .
  have "unat (push_bit n (drop_bit n x)) = take_bit LENGTH('a) (push_bit n (unat (drop_bit n x)))"
    by (rule unsigned_push_bit_eq)
  also have "\<dots> = unat x div 2 ^ n * 2 ^ n"
    using lt by (simp only: unat_drop_bit push_bit_eq_mult take_bit_nat_eq_self)
  finally show ?thesis by (simp only: and_not_mask_push_drop minus_mod_eq_div_mult)
qed

lemma mod_4096_mod_4: "n mod 4096 = 0 \<Longrightarrow> n mod 4 = 0" for n :: nat
  using dvd_trans [of 4 4096 n] by (simp add: mod_eq_0_iff_dvd)

end
