(* ===== verification/Iomem.thy ===== *)
theory Iomem
  imports Emu_Prelude
begin

text \<open>
  \<open>iomem.c\<close> and \<open>iomem.h\<close>: the physical memory map of the machine, its RAM and device
  ranges, and the dirty bits of the RAM pages.

  A host pointer into RAM is the index of its range in the map and a byte offset into the
  buffer of that range. The buffer of a range has \<open>pr_org_size\<close> bytes; an access outside
  it is undefined behaviour of the C code and has the outcome \<open>None\<close> here.
  The read and write callbacks of a device range are named by the number \<open>pr_dev\<close>; the
  machine's table of callbacks is a parameter of the functions that call them.
\<close>

section \<open>Constants\<close>

definition DEVIO_SIZE8 :: u32 where "DEVIO_SIZE8 = 1"
definition DEVIO_SIZE16 :: u32 where "DEVIO_SIZE16 = 2"
definition DEVIO_SIZE32 :: u32 where "DEVIO_SIZE32 = 4"
definition DEVIO_DISABLED :: u32 where "DEVIO_DISABLED = 16"
definition DEVRAM_FLAG_ROM :: u32 where "DEVRAM_FLAG_ROM = 1"
definition DEVRAM_FLAG_DIRTY_BITS :: u32 where "DEVRAM_FLAG_DIRTY_BITS = 2"
definition DEVRAM_FLAG_DISABLED :: u32 where "DEVRAM_FLAG_DISABLED = 4"
definition DEVRAM_PAGE_SIZE_LOG2 :: nat where "DEVRAM_PAGE_SIZE_LOG2 = 12"
definition DEVRAM_PAGE_SIZE :: u64 where "DEVRAM_PAGE_SIZE = 4096"
definition PHYS_MEM_RANGE_MAX :: nat where "PHYS_MEM_RANGE_MAX = 32"

lemmas iomem_consts [masks] =
  DEVIO_SIZE8_def DEVIO_SIZE16_def DEVIO_SIZE32_def DEVIO_DISABLED_def DEVRAM_FLAG_ROM_def
  DEVRAM_FLAG_DIRTY_BITS_def DEVRAM_FLAG_DISABLED_def DEVRAM_PAGE_SIZE_LOG2_def
  DEVRAM_PAGE_SIZE_def PHYS_MEM_RANGE_MAX_def

section \<open>Ranges and the map\<close>

record phys_range =
  pr_addr :: u64
  pr_org_size :: u64
  pr_size :: u64
  pr_is_ram :: bool
  pr_devram_flags :: u32
  pr_phys_mem :: "nat \<Rightarrow> u8"
  pr_dirty_bits_size :: nat
  pr_dirty_bits :: "nat option"        \<comment> \<open>which of the two tables, \<open>None\<close> is NULL\<close>
  pr_dirty_bits_tab :: "u32 list list"
  pr_dirty_bits_index :: nat
  pr_dev :: nat                        \<comment> \<open>opaque, read_func and write_func\<close>
  pr_devio_flags :: u32

type_synonym mem_map_t = "phys_range list"

record mem_state =
  mem_map :: mem_map_t

type_synonym hostptr = "nat \<times> int"

definition in_range :: "phys_range \<Rightarrow> u64 \<Rightarrow> bool" where
  "in_range pr paddr \<longleftrightarrow> pr_addr pr \<le> paddr \<and> paddr < pr_addr pr + pr_size pr"

fun find_range :: "nat \<Rightarrow> mem_map_t \<Rightarrow> u64 \<Rightarrow> nat option" where
  "find_range i [] paddr = None"
| "find_range i (pr # prs) paddr =
     (if in_range pr paddr then Some i else find_range (Suc i) prs paddr)"

definition get_phys_mem_range :: "mem_map_t \<Rightarrow> u64 \<Rightarrow> nat option" where
  "get_phys_mem_range mm paddr = find_range 0 mm paddr"

section \<open>Accesses through host pointers\<close>

definition host_ok :: "mem_map_t \<Rightarrow> hostptr \<Rightarrow> nat \<Rightarrow> bool" where
  "host_ok mm p n \<longleftrightarrow> fst p < length mm \<and> pr_is_ram (mm ! fst p) \<and>
     0 \<le> snd p \<and> snd p + int n \<le> uint (pr_org_size (mm ! fst p))"

definition read_bytes :: "(nat \<Rightarrow> u8) \<Rightarrow> nat \<Rightarrow> nat \<Rightarrow> u8 list" where
  "read_bytes mem off n = map (\<lambda>i. mem (off + i)) [0..<n]"

definition write_bytes :: "(nat \<Rightarrow> u8) \<Rightarrow> nat \<Rightarrow> u8 list \<Rightarrow> (nat \<Rightarrow> u8)" where
  "write_bytes mem off bs =
     (\<lambda>i. if off \<le> i \<and> i < off + length bs then bs ! (i - off) else mem i)"

definition host_read :: "mem_map_t \<Rightarrow> hostptr \<Rightarrow> nat \<Rightarrow> nat option" where
  "host_read mm p n =
     (if host_ok mm p n
      then Some (le_val (read_bytes (pr_phys_mem (mm ! fst p)) (nat (snd p)) n)) else None)"

definition host_write_bytes :: "mem_map_t \<Rightarrow> hostptr \<Rightarrow> u8 list \<Rightarrow> mem_map_t option" where
  "host_write_bytes mm p bs =
     (if host_ok mm p (length bs)
      then Some (mm[fst p := (mm ! fst p)
        \<lparr>pr_phys_mem := write_bytes (pr_phys_mem (mm ! fst p)) (nat (snd p)) bs\<rparr>])
      else None)"

definition host_write :: "mem_map_t \<Rightarrow> hostptr \<Rightarrow> nat \<Rightarrow> nat \<Rightarrow> mem_map_t option" where
  "host_write mm p n v = host_write_bytes mm p (le_bytes n v)"

section \<open>Dirty bits\<close>

definition phys_mem_set_dirty_bit :: "phys_range \<Rightarrow> nat \<Rightarrow> phys_range option" where
  "phys_mem_set_dirty_bit pr offset =
     (case pr_dirty_bits pr of
        None \<Rightarrow> Some pr
      | Some k \<Rightarrow>
          (let page_index = drop_bit DEVRAM_PAGE_SIZE_LOG2 offset;
               m = push_bit (page_index mod 32) (1 :: u32);
               w = page_index div 32
           in if k < length (pr_dirty_bits_tab pr) \<and> w < length (pr_dirty_bits_tab pr ! k)
              then Some (pr\<lparr>pr_dirty_bits_tab := (pr_dirty_bits_tab pr)
                     [k := (pr_dirty_bits_tab pr ! k)
                        [w := (pr_dirty_bits_tab pr ! k ! w) OR m]]\<rparr>)
              else None))"

definition phys_mem_is_dirty_bit :: "phys_range \<Rightarrow> nat \<Rightarrow> bool option" where
  "phys_mem_is_dirty_bit pr offset =
     (case pr_dirty_bits pr of
        None \<Rightarrow> Some True
      | Some k \<Rightarrow>
          (let page_index = drop_bit DEVRAM_PAGE_SIZE_LOG2 offset; w = page_index div 32
           in if k < length (pr_dirty_bits_tab pr) \<and> w < length (pr_dirty_bits_tab pr ! k)
              then Some (bit (pr_dirty_bits_tab pr ! k ! w) (page_index mod 32))
              else None))"

text \<open>
  \<open>flush\<close> is the map's \<open>flush_tlb_write_range\<close> callback (in this machine,
  \<open>riscv_flush_tlb_write_range\<close>), a parameter here because the CPU is above the map.
\<close>

type_synonym 'a flush_fn =
  "hostptr \<Rightarrow> u64 \<Rightarrow> 'a mem_state_scheme \<Rightarrow> 'a mem_state_scheme"

definition set_range :: "nat \<Rightarrow> phys_range \<Rightarrow> 'a mem_state_scheme \<Rightarrow> 'a mem_state_scheme" where
  "set_range r pr s = s\<lparr>mem_map := (mem_map s)[r := pr]\<rparr>"

definition phys_mem_reset_dirty_bit ::
    "'a flush_fn \<Rightarrow> nat \<Rightarrow> nat \<Rightarrow> 'a mem_state_scheme \<Rightarrow> 'a mem_state_scheme option" where
  "phys_mem_reset_dirty_bit flush r offset s =
     (let pr = mem_map s ! r in
      case pr_dirty_bits pr of
        None \<Rightarrow> Some s
      | Some k \<Rightarrow>
          (let page_index = drop_bit DEVRAM_PAGE_SIZE_LOG2 offset;
               m = push_bit (page_index mod 32) (1 :: u32);
               w = page_index div 32
           in if k < length (pr_dirty_bits_tab pr) \<and> w < length (pr_dirty_bits_tab pr ! k)
              then (if pr_dirty_bits_tab pr ! k ! w AND m \<noteq> 0
                    then Some (flush (r, int (offset - offset mod 4096)) DEVRAM_PAGE_SIZE
                           (set_range r (pr\<lparr>pr_dirty_bits_tab := (pr_dirty_bits_tab pr)
                             [k := (pr_dirty_bits_tab pr ! k)
                                [w := (pr_dirty_bits_tab pr ! k ! w) AND NOT m]]\<rparr>) s))
                    else Some s)
              else None))"

text \<open>
  \<open>default_get_dirty_bits\<close>: swaps the two tables, clears the new one and returns the old one.
  It is called only for ranges registered with \<open>DEVRAM_FLAG_DIRTY_BITS\<close>; for others the C
  code would clear through a NULL pointer.
\<close>

definition default_get_dirty_bits ::
    "'a flush_fn \<Rightarrow> nat \<Rightarrow> 'a mem_state_scheme \<Rightarrow> (u32 list \<times> 'a mem_state_scheme) option" where
  "default_get_dirty_bits flush r s =
     (let pr = mem_map s ! r in
      case pr_dirty_bits pr of
        None \<Rightarrow> None
      | Some k \<Rightarrow>
          (let old = pr_dirty_bits_tab pr ! k;
               n = pr_dirty_bits_size pr div 4;
               has_dirty_bits = (\<exists>w \<in> set (take n old). w \<noteq> 0);
               s1 = (if has_dirty_bits \<and> pr_size pr \<noteq> 0
                     then flush (r, 0) (pr_org_size pr) s else s);
               pr1 = mem_map s1 ! r;
               idx = 1 - pr_dirty_bits_index pr1
           in if k < length (pr_dirty_bits_tab pr) \<and> idx < length (pr_dirty_bits_tab pr1)
              then Some (old, set_range r
                     (pr1\<lparr>pr_dirty_bits_index := idx, pr_dirty_bits := Some idx,
                          pr_dirty_bits_tab :=
                            (pr_dirty_bits_tab pr1)[idx := replicate n 0]\<rparr>) s1)
              else None))"

section \<open>Registering and moving ranges\<close>

text \<open>
  The failed assertions (too many ranges, a RAM size that is zero or no multiple of the page
  size) stop the program. \<open>mallocz\<close> is taken to succeed: its buffer is all zero.
\<close>

definition register_ram_entry :: "mem_map_t \<Rightarrow> u64 \<Rightarrow> u64 \<Rightarrow> u32 \<Rightarrow> (nat \<times> mem_map_t) option" where
  "register_ram_entry mm addr sz devram_flags =
     (if \<not> length mm < PHYS_MEM_RANGE_MAX then None
      else if \<not> (sz AND (DEVRAM_PAGE_SIZE - 1) = 0 \<and> sz \<noteq> 0) then None
      else Some (length mm, mm @
        [\<lparr>pr_addr = addr, pr_org_size = sz,
          pr_size = (if devram_flags AND DEVRAM_FLAG_DISABLED \<noteq> 0 then 0 else sz),
          pr_is_ram = True,
          pr_devram_flags = devram_flags AND NOT DEVRAM_FLAG_DISABLED,
          pr_phys_mem = (\<lambda>_. 0), pr_dirty_bits_size = 0, pr_dirty_bits = None,
          pr_dirty_bits_tab = [], pr_dirty_bits_index = 0, pr_dev = 0,
          pr_devio_flags = 0\<rparr>]))"

definition default_register_ram :: "mem_map_t \<Rightarrow> u64 \<Rightarrow> u64 \<Rightarrow> u32 \<Rightarrow> (nat \<times> mem_map_t) option" where
  "default_register_ram mm addr sz devram_flags =
     do { (r, mm1) \<leftarrow> register_ram_entry mm addr sz devram_flags;
          let pr = (mm1 ! r);
          if devram_flags AND DEVRAM_FLAG_DIRTY_BITS \<noteq> 0
          then let nb_pages = drop_bit DEVRAM_PAGE_SIZE_LOG2 (unat sz);
                   n = (nb_pages + 31) div 32
               in Some (r, mm1[r := pr\<lparr>pr_dirty_bits_size := n * 4, pr_dirty_bits_index := 0,
                            pr_dirty_bits_tab := [replicate n 0, replicate n 0],
                            pr_dirty_bits := Some 0\<rparr>])
          else Some (r, mm1) }"

definition cpu_register_device ::
    "mem_map_t \<Rightarrow> u64 \<Rightarrow> u64 \<Rightarrow> nat \<Rightarrow> u32 \<Rightarrow> (nat \<times> mem_map_t) option" where
  "cpu_register_device mm addr sz dev devio_flags =
     (if \<not> length mm < PHYS_MEM_RANGE_MAX then None
      else if \<not> sz \<le> 0xffffffff then None
      else Some (length mm, mm @
        [\<lparr>pr_addr = addr, pr_org_size = sz,
          pr_size = (if devio_flags AND DEVIO_DISABLED \<noteq> 0 then 0 else sz),
          pr_is_ram = False, pr_devram_flags = 0, pr_phys_mem = (\<lambda>_. 0),
          pr_dirty_bits_size = 0, pr_dirty_bits = None, pr_dirty_bits_tab = [],
          pr_dirty_bits_index = 0, pr_dev = dev, pr_devio_flags = devio_flags\<rparr>]))"

definition default_set_addr ::
    "'a flush_fn \<Rightarrow> nat \<Rightarrow> u64 \<Rightarrow> bool \<Rightarrow> 'a mem_state_scheme \<Rightarrow> 'a mem_state_scheme" where
  "default_set_addr flush r addr enabled s =
     (let pr = mem_map s ! r;
          flushed = (if pr_is_ram pr then flush (r, 0) (pr_org_size pr) s else s)
      in if enabled
         then (if pr_size pr = 0 \<or> pr_addr pr \<noteq> addr
               then set_range r ((mem_map flushed ! r)
                      \<lparr>pr_addr := addr, pr_size := pr_org_size pr\<rparr>) flushed
               else s)
         else (if pr_size pr \<noteq> 0
               then set_range r ((mem_map flushed ! r)\<lparr>pr_addr := 0, pr_size := 0\<rparr>) flushed
               else s))"

text \<open>
  \<open>phys_mem_set_addr\<close>: for RAM the map's \<open>set_ram_addr\<close> callback is called, which
  \<open>phys_mem_map_init\<close> sets to \<open>default_set_addr\<close> and this program never changes.
\<close>

definition phys_mem_set_addr ::
    "'a flush_fn \<Rightarrow> nat \<Rightarrow> u64 \<Rightarrow> bool \<Rightarrow> 'a mem_state_scheme \<Rightarrow> 'a mem_state_scheme" where
  "phys_mem_set_addr flush r addr enabled s = default_set_addr flush r addr enabled s"

definition phys_mem_get_ram_ptr ::
    "mem_map_t \<Rightarrow> u64 \<Rightarrow> bool \<Rightarrow> (hostptr option \<times> mem_map_t) option" where
  "phys_mem_get_ram_ptr mm paddr is_rw =
     (case get_phys_mem_range mm paddr of
        None \<Rightarrow> Some (None, mm)
      | Some r \<Rightarrow>
          (let pr = mm ! r in
           if \<not> pr_is_ram pr then Some (None, mm)
           else let offset = unat (paddr - pr_addr pr) in
                if is_rw
                then do { pr1 \<leftarrow> phys_mem_set_dirty_bit pr offset;
                          Some (Some (r, int offset), mm[r := pr1]) }
                else Some (Some (r, int offset), mm)))"

section \<open>Lookup\<close>

lemma in_range_offset: "in_range pr p \<Longrightarrow> unat (p - pr_addr pr) < unat (pr_size pr)"
proof -
  assume "in_range pr p"
  then have le: "pr_addr pr \<le> p" and lt: "p < pr_addr pr + pr_size pr"
    by (simp_all add: in_range_def)
  have "p - pr_addr pr < pr_size pr"
    using le lt by unat_arith
  then show ?thesis by (simp add: word_less_nat_alt)
qed

lemma find_range_SomeD:
  "find_range i mm p = Some r \<Longrightarrow>
     i \<le> r \<and> r < i + length mm \<and> in_range (mm ! (r - i)) p \<and> (\<forall>j < r - i. \<not> in_range (mm ! j) p)"
proof (induction mm arbitrary: i)
  case Nil
  then show ?case by simp
next
  case (Cons pr prs)
  show ?case
  proof (cases "in_range pr p")
    case True
    with Cons.prems show ?thesis by simp
  next
    case False
    with Cons.prems have "find_range (Suc i) prs p = Some r" by simp
    from Cons.IH [OF this] False show ?thesis
      by (auto simp: nth_Cons' Suc_diff_le)
  qed
qed

lemma find_range_NoneD: "find_range i mm p = None \<Longrightarrow> \<forall>pr \<in> set mm. \<not> in_range pr p"
  by (induction mm arbitrary: i) (auto split: if_splits)

lemma get_phys_mem_range_SomeD:
  assumes "get_phys_mem_range mm p = Some r"
  shows "r < length mm" and "in_range (mm ! r) p" and "\<forall>j < r. \<not> in_range (mm ! j) p"
  using find_range_SomeD [OF assms [unfolded get_phys_mem_range_def]] by auto

section \<open>Layout\<close>

text \<open>
  What reads and writes through the map do not change: everything except the bytes of the RAM
  buffers and the contents of the dirty tables. Where pointers may point, and which range an
  address is in, depends on the layout only.
\<close>

definition layout :: "phys_range \<Rightarrow> phys_range" where
  "layout pr = pr\<lparr>pr_phys_mem := (\<lambda>_. 0),
     pr_dirty_bits_tab := map (\<lambda>t. replicate (length t) 0) (pr_dirty_bits_tab pr)\<rparr>"

definition same_layout :: "mem_map_t \<Rightarrow> mem_map_t \<Rightarrow> bool" where
  "same_layout mm mm' \<longleftrightarrow> map layout mm' = map layout mm"

lemma same_layout_refl [simp]: "same_layout mm mm"
  by (simp add: same_layout_def)

lemma same_layout_trans [trans]:
  "same_layout a b \<Longrightarrow> same_layout b c \<Longrightarrow> same_layout a c"
  by (simp add: same_layout_def)

lemma same_layout_length: "same_layout mm mm' \<Longrightarrow> length mm' = length mm"
  unfolding same_layout_def by (metis length_map)

lemma same_layout_nth: "same_layout mm mm' \<Longrightarrow> i < length mm \<Longrightarrow> layout (mm' ! i) = layout (mm ! i)"
  unfolding same_layout_def by (metis length_map nth_map)

lemma layout_eqD:
  assumes "layout a = layout b"
  shows "pr_addr a = pr_addr b" "pr_org_size a = pr_org_size b" "pr_size a = pr_size b"
    "pr_is_ram a = pr_is_ram b" "pr_dirty_bits_size a = pr_dirty_bits_size b"
    "pr_dirty_bits a = pr_dirty_bits b" "pr_dirty_bits_index a = pr_dirty_bits_index b"
    "pr_dev a = pr_dev b" "pr_devio_flags a = pr_devio_flags b"
    "map length (pr_dirty_bits_tab a) = map length (pr_dirty_bits_tab b)"
proof -
  have eq: "map (\<lambda>t. replicate (length t) (0::u32)) (pr_dirty_bits_tab a)
      = map (\<lambda>t. replicate (length t) 0) (pr_dirty_bits_tab b)"
    using assms by (cases a, cases b) (simp add: layout_def)
  have "map length (map (\<lambda>t. replicate (length t) (0::u32)) (pr_dirty_bits_tab a))
      = map length (map (\<lambda>t. replicate (length t) (0::u32)) (pr_dirty_bits_tab b))"
    using eq by simp
  then show "map length (pr_dirty_bits_tab a) = map length (pr_dirty_bits_tab b)"
    by (simp add: comp_def)
qed (use assms in \<open>cases a, cases b, simp add: layout_def\<close>)+

lemma layout_phys_mem [simp]: "layout (pr\<lparr>pr_phys_mem := m\<rparr>) = layout pr"
  by (simp add: layout_def)

lemma layout_tab:
  "map length t = map length (pr_dirty_bits_tab pr) \<Longrightarrow> layout (pr\<lparr>pr_dirty_bits_tab := t\<rparr>) = layout pr"
proof -
  assume "map length t = map length (pr_dirty_bits_tab pr)"
  then have "map (\<lambda>n. replicate n (0::u32)) (map length t)
      = map (\<lambda>n. replicate n 0) (map length (pr_dirty_bits_tab pr))" by simp
  then show ?thesis by (cases pr) (simp add: layout_def comp_def)
qed

lemma same_layout_update:
  assumes "r < length mm \<Longrightarrow> layout pr = layout (mm ! r)"
  shows "same_layout mm (mm[r := pr])"
proof (cases "r < length mm")
  case True
  with assms show ?thesis
    by (simp add: same_layout_def map_update list_update_same_conv)
next
  case False
  then show ?thesis by (simp add: list_update_beyond)
qed

lemma same_layout_in_range:
  "same_layout mm mm' \<Longrightarrow> i < length mm \<Longrightarrow> in_range (mm' ! i) p = in_range (mm ! i) p"
  using layout_eqD(1,3) [OF same_layout_nth [of mm mm' i]] by (simp add: in_range_def)

lemma same_layout_find_range:
  "map layout mm' = map layout mm \<Longrightarrow> find_range i mm' p = find_range i mm p"
proof (induction mm arbitrary: mm' i)
  case Nil
  then show ?case by simp
next
  case (Cons a mm)
  then obtain b mm2 where mm': "mm' = b # mm2" and ab: "layout b = layout a"
    and rest: "map layout mm2 = map layout mm"
    by (cases mm') auto
  show ?case
    using Cons.IH [OF rest] layout_eqD(1,3) [OF ab] by (simp add: mm' in_range_def)
qed

lemma same_layout_get_range:
  "same_layout mm mm' \<Longrightarrow> get_phys_mem_range mm' p = get_phys_mem_range mm p"
  unfolding same_layout_def get_phys_mem_range_def by (rule same_layout_find_range)

lemma same_layout_host_ok:
  assumes "same_layout mm mm'"
  shows "host_ok mm' p n = host_ok mm p n"
proof (cases "fst p < length mm")
  case True
  then show ?thesis
    using same_layout_length [OF assms] layout_eqD(2,4) [OF same_layout_nth [OF assms True]]
    by (simp add: host_ok_def)
next
  case False
  then show ?thesis using same_layout_length [OF assms] by (simp add: host_ok_def)
qed

lemma host_write_bytes_layout: "host_write_bytes mm p bs = Some mm' \<Longrightarrow> same_layout mm mm'"
  by (auto simp: host_write_bytes_def split: if_splits intro: same_layout_update)

lemma host_write_layout: "host_write mm p n v = Some mm' \<Longrightarrow> same_layout mm mm'"
  by (auto simp: host_write_def dest: host_write_bytes_layout)

lemma map_length_update2:
  "length u = length (t ! k) \<Longrightarrow> map length (t[k := u]) = map length t"
  by (cases "k < length t") (simp_all add: map_update list_update_same_conv list_update_beyond)

lemma set_dirty_bit_layout: "phys_mem_set_dirty_bit pr off = Some pr' \<Longrightarrow> layout pr' = layout pr"
  by (auto simp: phys_mem_set_dirty_bit_def Let_def split: option.splits if_splits
      intro!: layout_tab map_length_update2)

section \<open>Well-formed maps\<close>

text \<open>
  What \<open>default_register_ram\<close> and \<open>cpu_register_device\<close> establish: a RAM range is a whole
  number of pages, mapped with its full size or not at all, and its dirty tables (when it has
  them) have a bit for every page. That RAM is mapped at page-aligned addresses is what the
  callers of \<open>cpu_register_ram\<close> do; the function itself does not check it.
\<close>

definition dirty_wf :: "phys_range \<Rightarrow> bool" where
  "dirty_wf pr \<longleftrightarrow> (case pr_dirty_bits pr of None \<Rightarrow> True
     | Some k \<Rightarrow> k = pr_dirty_bits_index pr \<and> k < 2 \<and>
         map length (pr_dirty_bits_tab pr)
           = [pr_dirty_bits_size pr div 4, pr_dirty_bits_size pr div 4] \<and>
         unat (pr_org_size pr) div 4096 \<le> 32 * (pr_dirty_bits_size pr div 4))"

definition range_wf :: "phys_range \<Rightarrow> bool" where
  "range_wf pr \<longleftrightarrow> (pr_is_ram pr \<longrightarrow>
     unat (pr_org_size pr) mod 4096 = 0 \<and> unat (pr_addr pr) mod 4096 = 0 \<and>
     (pr_size pr = 0 \<or> pr_size pr = pr_org_size pr) \<and> dirty_wf pr)"

definition map_wf :: "mem_map_t \<Rightarrow> bool" where
  "map_wf mm \<longleftrightarrow> (\<forall>pr \<in> set mm. range_wf pr)"

lemma range_wf_layout: "layout a = layout b \<Longrightarrow> range_wf a = range_wf b"
  using layout_eqD [of a b] by (simp add: range_wf_def dirty_wf_def split: option.split)

lemma map_wf_layout: "same_layout mm mm' \<Longrightarrow> map_wf mm' = map_wf mm"
  unfolding map_wf_def set_conv_nth
  using same_layout_length [of mm mm'] range_wf_layout [OF same_layout_nth [of mm mm']]
  by auto

lemma map_wf_nth: "map_wf mm \<Longrightarrow> i < length mm \<Longrightarrow> range_wf (mm ! i)"
  by (simp add: map_wf_def)

lemma map_wf_append: "map_wf mm \<Longrightarrow> range_wf pr \<Longrightarrow> map_wf (mm @ [pr])"
  by (simp add: map_wf_def)

lemma map_wf_update: "map_wf mm \<Longrightarrow> range_wf pr \<Longrightarrow> map_wf (mm[r := pr])"
  by (auto simp: map_wf_def dest!: set_update_subset_insert [THEN subsetD])

lemma page_size_and: "(sz :: u64) AND (DEVRAM_PAGE_SIZE - 1) = 0 \<longleftrightarrow> unat sz mod 4096 = 0"
proof -
  have "(DEVRAM_PAGE_SIZE - 1 :: u64) = mask 12" by (simp add: DEVRAM_PAGE_SIZE_def mask_eq_exp_minus_1)
  then have "unat (sz AND (DEVRAM_PAGE_SIZE - 1)) = unat sz mod 4096"
    by (simp add: word_and_mask_mod)
  then show ?thesis by (metis unat_eq_0)
qed

lemma default_register_ram_wf:
  assumes reg: "default_register_ram mm addr sz fl = Some (r, mm')"
    and wf: "map_wf mm" and al: "unat addr mod 4096 = 0"
  shows "map_wf mm'"
proof -
  from reg have sz: "unat sz mod 4096 = 0"
    by (auto simp: default_register_ram_def register_ram_entry_def page_size_and Let_def
        bind_Some_conv split: if_splits)
  have pages: "unat sz div 4096 \<le> 32 * ((unat sz div 4096 + 31) div 32)" by linarith
  from reg show ?thesis
    by (auto simp: default_register_ram_def register_ram_entry_def Let_def bind_Some_conv
        drop_bit_eq_div range_wf_def dirty_wf_def sz al pages masks
        split: if_splits intro!: map_wf_append wf)
qed

lemma cpu_register_device_wf:
  "cpu_register_device mm addr sz dev fl = Some (r, mm') \<Longrightarrow> map_wf mm \<Longrightarrow> map_wf mm'"
  by (auto simp: cpu_register_device_def range_wf_def split: if_splits intro!: map_wf_append)

text \<open>A RAM page the map resolves an address to lies wholly inside the buffer.\<close>

lemma ram_page_bounds:
  assumes wf: "range_wf pr" and ram: "pr_is_ram pr" and ir: "in_range pr p"
  shows "unat (p - pr_addr pr) < unat (pr_org_size pr)"
    and "unat (p - pr_addr pr) - unat (p - pr_addr pr) mod 4096 + 4096 \<le> unat (pr_org_size pr)"
    and "unat (p - pr_addr pr) mod 4096 = unat p mod 4096"
proof -
  from in_range_offset [OF ir] wf ram
  show lt: "unat (p - pr_addr pr) < unat (pr_org_size pr)"
    by (auto simp: range_wf_def)
  from wf ram have m: "unat (pr_org_size pr) mod 4096 = 0" and a: "unat (pr_addr pr) mod 4096 = 0"
    by (simp_all add: range_wf_def)
  show "unat (p - pr_addr pr) - unat (p - pr_addr pr) mod 4096 + 4096 \<le> unat (pr_org_size pr)"
    using lt m by (rule page_end_le)
  have "unat (p - pr_addr pr) = unat p - unat (pr_addr pr)" and "unat (pr_addr pr) \<le> unat p"
    using ir by (simp_all add: in_range_def word_le_nat_alt unat_sub)
  with a show "unat (p - pr_addr pr) mod 4096 = unat p mod 4096" by (simp add: page_offset_diff)
qed

lemma set_dirty_bit_total:
  assumes "range_wf pr" "pr_is_ram pr" "off < unat (pr_org_size pr)"
  shows "phys_mem_set_dirty_bit pr off \<noteq> None"
proof (cases "pr_dirty_bits pr")
  case None
  then show ?thesis by (simp add: phys_mem_set_dirty_bit_def)
next
  case (Some k)
  with assms have dw: "k < 2"
    "map length (pr_dirty_bits_tab pr) = [pr_dirty_bits_size pr div 4, pr_dirty_bits_size pr div 4]"
    "unat (pr_org_size pr) div 4096 \<le> 32 * (pr_dirty_bits_size pr div 4)"
    and m: "unat (pr_org_size pr) mod 4096 = 0"
    by (auto simp: range_wf_def dirty_wf_def)
  then obtain t u where t: "pr_dirty_bits_tab pr = [t, u]"
    and l: "length t = pr_dirty_bits_size pr div 4" "length u = pr_dirty_bits_size pr div 4"
    by (auto simp: map_eq_Cons_conv)
  have "off div 4096 < unat (pr_org_size pr) div 4096"
    using assms(3) m by (rule page_div_less)
  with dw(3) have "off div 4096 div 32 < pr_dirty_bits_size pr div 4" by linarith
  moreover from dw(1) have "k = 0 \<or> k = 1" by linarith
  ultimately show ?thesis
    using Some t l by (auto simp: phys_mem_set_dirty_bit_def Let_def drop_bit_eq_div masks)
qed

section \<open>RAM as a byte store\<close>

text \<open>
  The contract the CPU relies on when it reads and writes guest RAM through host pointers: a
  read after a write to the same place returns the value written, cut to its width; a write
  leaves disjoint places alone; reads and writes are defined at the same places.
\<close>

definition disjoint_ptr :: "hostptr \<Rightarrow> nat \<Rightarrow> hostptr \<Rightarrow> nat \<Rightarrow> bool" where
  "disjoint_ptr p n q k \<longleftrightarrow> fst p \<noteq> fst q \<or> snd p + int n \<le> snd q \<or> snd q + int k \<le> snd p"

locale byte_store =
  fixes rd :: "'m \<Rightarrow> hostptr \<Rightarrow> nat \<Rightarrow> nat option"
    and wr :: "'m \<Rightarrow> hostptr \<Rightarrow> nat \<Rightarrow> nat \<Rightarrow> 'm option"
  assumes rd_wr_same: "wr m p n v = Some m' \<Longrightarrow> rd m' p n = Some (v mod 256 ^ n)"
    and rd_wr_disjoint: "wr m p n v = Some m' \<Longrightarrow> disjoint_ptr p n q k \<Longrightarrow> rd m' q k = rd m q k"
    and wr_defined: "wr m p n v = None \<longleftrightarrow> rd m p n = None"
    and rd_bound: "rd m p n = Some v \<Longrightarrow> v < 256 ^ n"
begin

lemma last_write_wins:
  assumes "wr m p n v = Some m1" and "wr m1 p n w = Some m2"
  shows "rd m2 p n = Some (w mod 256 ^ n)"
  using assms(2) by (rule rd_wr_same)

lemma wr_same_defined: "wr m p n v = Some m1 \<Longrightarrow> \<exists>m2. wr m1 p n w = Some m2"
  using rd_wr_same wr_defined by (metis option.distinct(1) option.exhaust)

lemma write_back:
  assumes r: "rd m p n = Some v" and w: "wr m p n v = Some m'"
  shows "rd m' p n = rd m p n"
  using rd_wr_same [OF w] rd_bound [OF r] r by simp

lemma independent_writes:
  assumes "wr m p n v = Some m1" and "wr m1 q k w = Some m2" and "disjoint_ptr p n q k"
  shows "rd m2 p n = Some (v mod 256 ^ n)" and "rd m2 q k = Some (w mod 256 ^ k)"
proof -
  have "disjoint_ptr q k p n" using assms(3) by (auto simp: disjoint_ptr_def)
  from rd_wr_disjoint [OF assms(2) this] rd_wr_same [OF assms(1)]
  show "rd m2 p n = Some (v mod 256 ^ n)" by simp
  show "rd m2 q k = Some (w mod 256 ^ k)" using assms(2) by (rule rd_wr_same)
qed

end

lemma read_write_bytes_same: "read_bytes (write_bytes mem off bs) off (length bs) = bs"
  by (auto simp: read_bytes_def write_bytes_def intro: nth_equalityI)

lemma read_write_bytes_disjoint:
  "off + length bs \<le> q \<or> q + k \<le> off \<Longrightarrow>
     read_bytes (write_bytes mem off bs) q k = read_bytes mem q k"
  by (auto simp: read_bytes_def write_bytes_def)

lemma length_read_bytes [simp]: "length (read_bytes mem off n) = n"
  by (simp add: read_bytes_def)

lemma host_write_SomeD:
  assumes "host_write mm p n v = Some mm'"
  shows "host_ok mm p n" and "mm' = mm[fst p := (mm ! fst p)
     \<lparr>pr_phys_mem := write_bytes (pr_phys_mem (mm ! fst p)) (nat (snd p)) (le_bytes n v)\<rparr>]"
  using assms by (auto simp: host_write_def host_write_bytes_def split: if_splits)

lemma host_read_write_disjoint:
  assumes w: "host_write mm p n v = Some mm'" and d: "disjoint_ptr p n q k"
  shows "host_read mm' q k = host_read mm q k"
proof -
  note eqs = host_write_SomeD [OF w]
  have ok: "host_ok mm' q k = host_ok mm q k"
    by (rule same_layout_host_ok [OF host_write_layout [OF w]])
  show ?thesis
  proof (cases "host_ok mm q k \<and> fst q = fst p")
    case True
    then have "nat (snd p) + n \<le> nat (snd q) \<or> nat (snd q) + k \<le> nat (snd p)"
      using d eqs(1) by (auto simp: disjoint_ptr_def host_ok_def)
    with True ok eqs(1) show ?thesis
      by (simp add: eqs(2) host_read_def host_ok_def read_write_bytes_disjoint)
  next
    case False
    then show ?thesis using ok by (auto simp: eqs(2) host_read_def)
  qed
qed

interpretation ram: byte_store host_read host_write
proof unfold_locales
  fix m p n v m'
  assume w: "host_write m p n v = Some m'"
  note eqs = host_write_SomeD [OF w]
  have "host_ok m' p n" using same_layout_host_ok [OF host_write_layout [OF w]] eqs(1) by simp
  then show "host_read m' p n = Some (v mod 256 ^ n)"
    using eqs read_write_bytes_same [of _ _ "le_bytes n v"]
    by (simp add: host_read_def host_ok_def le_val_le_bytes)
next
  fix m p n v m' q k
  assume "host_write m p n v = Some m'" and "disjoint_ptr p n q k"
  then show "host_read m' q k = host_read m q k" by (rule host_read_write_disjoint)
next
  fix m p n v
  show "host_write m p n v = None \<longleftrightarrow> host_read m p n = None"
    by (simp add: host_write_def host_write_bytes_def host_read_def)
next
  fix m p n v
  assume "host_read m p n = Some v"
  then show "v < 256 ^ n"
    using le_val_bound [of "read_bytes (pr_phys_mem (m ! fst p)) (nat (snd p)) n"]
    by (auto simp: host_read_def split: if_splits)
qed

end
