(* ===== verification/Riscv_State.thy ===== *)
theory Riscv_State
  imports Iomem
begin

text \<open>
  \<open>riscv_cpu_priv.h\<close> and \<open>riscv_cpu.h\<close>: the constants, the TLB entries and the state
  \<open>RISCVCPUState\<close> of the RISC-V CPU, for the 32-bit build of the emulator
  (\<open>MAX_XLEN = 32\<close>, \<open>FLEN = 64\<close>, so \<open>MLEN = 64\<close>), which is the one the PDF embeds.

  \<open>mem_addend\<close> of a TLB entry, added to a virtual address, is a host pointer: here a range
  and the offset that, added to the address, gives the byte offset into the buffer.
  The state ends with \<open>dev\<close>, the state of the devices behind the device ranges, of a type
  the machine chooses. The callbacks of the device ranges are the table \<open>dev_ops\<close>.
\<close>

section \<open>Constants\<close>

definition TLB_SIZE :: nat where "TLB_SIZE = 256"
definition PG_SHIFT :: nat where "PG_SHIFT = 12"
definition PG_MASK :: u32 where "PG_MASK = 0xfff"
definition MAX_XLEN :: nat where "MAX_XLEN = 32"

definition CAUSE_MISALIGNED_FETCH :: int where "CAUSE_MISALIGNED_FETCH = 0"
definition CAUSE_FAULT_FETCH :: int where "CAUSE_FAULT_FETCH = 1"
definition CAUSE_ILLEGAL_INSTRUCTION :: int where "CAUSE_ILLEGAL_INSTRUCTION = 2"
definition CAUSE_BREAKPOINT :: int where "CAUSE_BREAKPOINT = 3"
definition CAUSE_USER_ECALL :: int where "CAUSE_USER_ECALL = 8"
definition CAUSE_FETCH_PAGE_FAULT :: int where "CAUSE_FETCH_PAGE_FAULT = 12"
definition CAUSE_LOAD_PAGE_FAULT :: int where "CAUSE_LOAD_PAGE_FAULT = 13"
definition CAUSE_STORE_PAGE_FAULT :: int where "CAUSE_STORE_PAGE_FAULT = 15"
definition CAUSE_INTERRUPT :: u32 where "CAUSE_INTERRUPT = 0x80000000"

definition PRV_U :: nat where "PRV_U = 0"
definition PRV_S :: nat where "PRV_S = 1"
definition PRV_H :: nat where "PRV_H = 2"
definition PRV_M :: nat where "PRV_M = 3"

definition MSTATUS_SPIE_SHIFT :: nat where "MSTATUS_SPIE_SHIFT = 5"
definition MSTATUS_MPIE_SHIFT :: nat where "MSTATUS_MPIE_SHIFT = 7"
definition MSTATUS_SPP_SHIFT :: nat where "MSTATUS_SPP_SHIFT = 8"
definition MSTATUS_MPP_SHIFT :: nat where "MSTATUS_MPP_SHIFT = 11"
definition MSTATUS_FS_SHIFT :: nat where "MSTATUS_FS_SHIFT = 13"
definition MSTATUS_UIE :: u32 where "MSTATUS_UIE = 0x1"
definition MSTATUS_SIE :: u32 where "MSTATUS_SIE = 0x2"
definition MSTATUS_MIE :: u32 where "MSTATUS_MIE = 0x8"
definition MSTATUS_UPIE :: u32 where "MSTATUS_UPIE = 0x10"
definition MSTATUS_SPIE :: u32 where "MSTATUS_SPIE = 0x20"
definition MSTATUS_MPIE :: u32 where "MSTATUS_MPIE = 0x80"
definition MSTATUS_SPP :: u32 where "MSTATUS_SPP = 0x100"
definition MSTATUS_MPP :: u32 where "MSTATUS_MPP = 0x1800"
definition MSTATUS_FS :: u32 where "MSTATUS_FS = 0x6000"
definition MSTATUS_XS :: u32 where "MSTATUS_XS = 0x18000"
definition MSTATUS_MPRV :: u32 where "MSTATUS_MPRV = 0x20000"
definition MSTATUS_SUM :: u32 where "MSTATUS_SUM = 0x40000"
definition MSTATUS_MXR :: u32 where "MSTATUS_MXR = 0x80000"

definition MIP_SSIP :: u32 where "MIP_SSIP = 0x2"
definition MIP_MSIP :: u32 where "MIP_MSIP = 0x8"
definition MIP_STIP :: u32 where "MIP_STIP = 0x20"
definition MIP_MTIP :: u32 where "MIP_MTIP = 0x80"
definition MIP_SEIP :: u32 where "MIP_SEIP = 0x200"
definition MIP_MEIP :: u32 where "MIP_MEIP = 0x800"

definition F32_HIGH :: u64 where "F32_HIGH = 0xffffffff00000000"

lemmas state_consts [masks] =
  TLB_SIZE_def PG_SHIFT_def PG_MASK_def MAX_XLEN_def
  CAUSE_MISALIGNED_FETCH_def CAUSE_FAULT_FETCH_def CAUSE_ILLEGAL_INSTRUCTION_def
  CAUSE_BREAKPOINT_def CAUSE_USER_ECALL_def CAUSE_FETCH_PAGE_FAULT_def
  CAUSE_LOAD_PAGE_FAULT_def CAUSE_STORE_PAGE_FAULT_def CAUSE_INTERRUPT_def
  PRV_U_def PRV_S_def PRV_H_def PRV_M_def
  MSTATUS_SPIE_SHIFT_def MSTATUS_MPIE_SHIFT_def MSTATUS_SPP_SHIFT_def MSTATUS_MPP_SHIFT_def
  MSTATUS_FS_SHIFT_def MSTATUS_UIE_def MSTATUS_SIE_def MSTATUS_MIE_def MSTATUS_UPIE_def
  MSTATUS_SPIE_def MSTATUS_MPIE_def MSTATUS_SPP_def MSTATUS_MPP_def MSTATUS_FS_def
  MSTATUS_XS_def MSTATUS_MPRV_def MSTATUS_SUM_def MSTATUS_MXR_def
  MIP_SSIP_def MIP_MSIP_def MIP_STIP_def MIP_MTIP_def MIP_SEIP_def MIP_MEIP_def F32_HIGH_def

section \<open>State\<close>

record tlb_entry =
  te_vaddr :: u32
  te_addend :: "nat \<times> int"

record 'd cpu = mem_state +
  pc :: u32
  reg :: "nat \<Rightarrow> u32"
  fp_reg :: "nat \<Rightarrow> u64"
  fflags :: u32
  frm :: nat
  cur_xlen :: nat
  priv :: nat
  fs :: u32
  mxl :: nat
  n_cycles :: int
  insn_counter :: u64
  power_down_flag :: bool
  pending_exception :: int
  pending_tval :: u32
  mstatus :: u32
  mtvec :: u32
  mscratch :: u32
  mepc :: u32
  mcause :: u32
  mtval :: u32
  mhartid :: u32
  misa :: u32
  mie :: u32
  mip :: u32
  medeleg :: u32
  mideleg :: u32
  mcounteren :: u32
  stvec :: u32
  sscratch :: u32
  sepc :: u32
  scause :: u32
  stval :: u32
  satp :: u32
  scounteren :: u32
  load_res :: u32
  tlb_read :: "nat \<Rightarrow> tlb_entry"
  tlb_write :: "nat \<Rightarrow> tlb_entry"
  tlb_code :: "nat \<Rightarrow> tlb_entry"
  dev :: 'd

text \<open>
  The device callbacks, by the number in the range. \<open>dv_uninit\<close> is no callback: it is the
  content of the uninitialised local variable that \<open>target_read_u\<close> returns when the address
  is in no range (\<open>target_read_slow\<close> then returns 0 without storing a value).
\<close>

record 'd dev_ops =
  dv_read :: "nat \<Rightarrow> u32 \<Rightarrow> nat \<Rightarrow> 'd cpu \<Rightarrow> (u32 \<times> 'd cpu) option"
  dv_write :: "nat \<Rightarrow> u32 \<Rightarrow> u32 \<Rightarrow> nat \<Rightarrow> 'd cpu \<Rightarrow> 'd cpu option"
  dv_uninit :: "'d cpu \<Rightarrow> u32 \<Rightarrow> u64"

end
