(* ===== verification/Riscv_Mmu.thy ===== *)
theory Riscv_Mmu
  imports Riscv_State
begin

text \<open>
  The memory accesses of the CPU (\<open>riscv_cpu.c\<close>, \<open>riscv_cpu_priv.h\<close>): physical accesses,
  the Sv32 page-table walk \<open>get_phys_addr\<close>, the read, write and code TLBs, their fast paths
  \<open>target_read_u\<close>/\<open>target_write_u\<close> and slow paths.

  An access returns a value or \<open>ERR\<close> (the C functions' non-zero return, with the pending
  exception in the state) and the new state, and the outcome \<open>None\<close> when it would leave a
  RAM buffer. Sizes are given by \<open>size_log2\<close>, as the macro \<open>TARGET_READ_WRITE\<close> takes them.
\<close>

section \<open>Definitions\<close>

subsection \<open>Physical accesses\<close>

definition phys_read :: "nat \<Rightarrow> 'd cpu \<Rightarrow> u32 \<Rightarrow> nat option" where
  "phys_read n s addr =
     (case get_phys_mem_range (mem_map s) (ucast addr) of
        None \<Rightarrow> Some 0
      | Some r \<Rightarrow>
          (if \<not> pr_is_ram (mem_map s ! r) then Some 0
           else host_read (mem_map s) (r, int (unat (ucast addr - pr_addr (mem_map s ! r)))) n))"

definition phys_write :: "nat \<Rightarrow> 'd cpu \<Rightarrow> u32 \<Rightarrow> nat \<Rightarrow> 'd cpu option" where
  "phys_write n s addr v =
     (case get_phys_mem_range (mem_map s) (ucast addr) of
        None \<Rightarrow> Some s
      | Some r \<Rightarrow>
          (if \<not> pr_is_ram (mem_map s ! r) then Some s
           else do { mm \<leftarrow> host_write (mem_map s)
                       (r, int (unat (ucast addr - pr_addr (mem_map s ! r)))) n v;
                     Some (s\<lparr>mem_map := mm\<rparr>) }))"

definition phys_read_u32 :: "'d cpu \<Rightarrow> u32 \<Rightarrow> u32 option" where
  "phys_read_u32 s addr = map_option of_nat (phys_read 4 s addr)"

definition phys_write_u32 :: "'d cpu \<Rightarrow> u32 \<Rightarrow> u32 \<Rightarrow> 'd cpu option" where
  "phys_write_u32 s addr v = phys_write 4 s addr (unat v)"

subsection \<open>Address translation\<close>

definition PTE_V_MASK :: u32 where "PTE_V_MASK = 0x1"
definition PTE_U_MASK :: u32 where "PTE_U_MASK = 0x10"
definition PTE_A_MASK :: u32 where "PTE_A_MASK = 0x40"
definition PTE_D_MASK :: u32 where "PTE_D_MASK = 0x80"
definition ACCESS_READ :: nat where "ACCESS_READ = 0"
definition ACCESS_WRITE :: nat where "ACCESS_WRITE = 1"
definition ACCESS_CODE :: nat where "ACCESS_CODE = 2"

lemmas mmu_consts [masks] = PTE_V_MASK_def PTE_U_MASK_def PTE_A_MASK_def PTE_D_MASK_def
  ACCESS_READ_def ACCESS_WRITE_def ACCESS_CODE_def

text \<open>
  The checks and the update of a leaf entry (\<open>xwr \<noteq> 0\<close>), \<open>prv\<close> being the effective privilege.
\<close>

definition pt_leaf ::
    "'d cpu \<Rightarrow> u32 \<Rightarrow> nat \<Rightarrow> nat \<Rightarrow> u32 \<Rightarrow> u32 \<Rightarrow> nat \<Rightarrow> (u32 res \<times> 'd cpu) option" where
  "pt_leaf s vaddr access prv pte_addr pte vaddr_shift =
     (let paddr = push_bit PG_SHIFT (drop_bit 10 pte);
          xwr0 = drop_bit 1 pte AND 7
      in if xwr0 = 2 \<or> xwr0 = 6 then Some (ERR, s)
         else if prv = PRV_S \<and> pte AND PTE_U_MASK \<noteq> 0 \<and> mstatus s AND MSTATUS_SUM = 0
         then Some (ERR, s)
         else if prv \<noteq> PRV_S \<and> pte AND PTE_U_MASK = 0 then Some (ERR, s)
         else let xwr = (if mstatus s AND MSTATUS_MXR \<noteq> 0
                         then xwr0 OR drop_bit 2 xwr0 else xwr0)
           in if drop_bit access xwr AND 1 = 0 then Some (ERR, s)
              else let need_write = (pte AND PTE_A_MASK = 0 \<or>
                         (pte AND PTE_D_MASK = 0 \<and> access = ACCESS_WRITE));
                       pte1 = pte OR PTE_A_MASK;
                       pte2 = (if access = ACCESS_WRITE then pte1 OR PTE_D_MASK else pte1);
                       vaddr_mask = mask vaddr_shift
                in do { s1 \<leftarrow> (if need_write then phys_write_u32 s pte_addr pte2 else Some s);
                        Some (OK ((vaddr AND vaddr_mask) OR (paddr AND NOT vaddr_mask)), s1) })"

text \<open>
  One round of the loop over the levels; \<open>k\<close> is \<open>levels - 1 - i\<close>. Sv32 has
  \<open>pte_size_log2 = 2\<close>, \<open>pte_bits = 10\<close> and \<open>levels = 2\<close>.
\<close>

definition pte_slot :: "u32 \<Rightarrow> u32 \<Rightarrow> nat \<Rightarrow> u32" where
  "pte_slot pte_addr vaddr vaddr_shift =
     pte_addr + push_bit 2 (drop_bit vaddr_shift vaddr AND mask 10)"

fun pt_walk :: "nat \<Rightarrow> 'd cpu \<Rightarrow> u32 \<Rightarrow> nat \<Rightarrow> nat \<Rightarrow> u32 \<Rightarrow> (u32 res \<times> 'd cpu) option" where
  "pt_walk 0 s vaddr access prv pte_addr = Some (ERR, s)"
| "pt_walk (Suc k) s vaddr access prv pte_addr =
     (let vaddr_shift = PG_SHIFT + 10 * k;
          pte_addr1 = pte_slot pte_addr vaddr vaddr_shift
      in do { pte \<leftarrow> phys_read_u32 s pte_addr1;
              if pte AND PTE_V_MASK = 0 then Some (ERR, s)
              else if drop_bit 1 pte AND 7 \<noteq> 0
              then pt_leaf s vaddr access prv pte_addr1 pte vaddr_shift
              else pt_walk k s vaddr access prv (push_bit PG_SHIFT (drop_bit 10 pte)) })"

definition effective_priv :: "'d cpu \<Rightarrow> nat \<Rightarrow> nat" where
  "effective_priv s access =
     (if mstatus s AND MSTATUS_MPRV \<noteq> 0 \<and> access \<noteq> ACCESS_CODE
      then unat (drop_bit MSTATUS_MPP_SHIFT (mstatus s) AND 3) else priv s)"

definition get_phys_addr :: "'d cpu \<Rightarrow> u32 \<Rightarrow> nat \<Rightarrow> (u32 res \<times> 'd cpu) option" where
  "get_phys_addr s vaddr access =
     (let prv = effective_priv s access in
      if prv = PRV_M
      then (if cur_xlen s < MAX_XLEN then Some (OK (vaddr AND mask (cur_xlen s)), s)
            else Some (OK vaddr, s))
      else if drop_bit 31 (satp s) = 0 then Some (OK vaddr, s)
      else pt_walk 2 s vaddr access prv (push_bit PG_SHIFT (satp s AND mask 22)))"

subsection \<open>TLB\<close>

definition tlb_index :: "u32 \<Rightarrow> nat" where
  "tlb_index addr = unat (drop_bit PG_SHIFT addr AND mask 8)"

definition tlb_tag :: "nat \<Rightarrow> u32 \<Rightarrow> u32" where
  "tlb_tag size_log2 addr = addr AND NOT (PG_MASK AND NOT (mask size_log2))"

definition te_ptr :: "tlb_entry \<Rightarrow> u32 \<Rightarrow> hostptr" where
  "te_ptr e addr = (fst (te_addend e), snd (te_addend e) + uint addr)"

definition mk_entry :: "u32 \<Rightarrow> hostptr \<Rightarrow> tlb_entry" where
  "mk_entry addr p = \<lparr>te_vaddr = addr AND NOT PG_MASK, te_addend = (fst p, snd p - uint addr)\<rparr>"

definition tlb_init :: "'d cpu \<Rightarrow> 'd cpu" where
  "tlb_init s =
     s\<lparr>tlb_read := (\<lambda>i. if i < TLB_SIZE then (tlb_read s i)\<lparr>te_vaddr := - 1\<rparr> else tlb_read s i),
       tlb_write := (\<lambda>i. if i < TLB_SIZE then (tlb_write s i)\<lparr>te_vaddr := - 1\<rparr> else tlb_write s i),
       tlb_code := (\<lambda>i. if i < TLB_SIZE then (tlb_code s i)\<lparr>te_vaddr := - 1\<rparr> else tlb_code s i)\<rparr>"

definition tlb_flush_all :: "'d cpu \<Rightarrow> 'd cpu" where
  "tlb_flush_all s = tlb_init s"

definition tlb_flush_vaddr :: "'d cpu \<Rightarrow> u32 \<Rightarrow> 'd cpu" where
  "tlb_flush_vaddr s vaddr = tlb_flush_all s"

definition riscv_cpu_flush_tlb_write_range_ram :: "hostptr \<Rightarrow> u64 \<Rightarrow> 'd cpu \<Rightarrow> 'd cpu" where
  "riscv_cpu_flush_tlb_write_range_ram ram_ptr ram_size s =
     s\<lparr>tlb_write := (\<lambda>i.
        if i < TLB_SIZE \<and> te_vaddr (tlb_write s i) \<noteq> - 1 \<and>
           (let p = te_ptr (tlb_write s i) (te_vaddr (tlb_write s i))
            in fst p = fst ram_ptr \<and> snd ram_ptr \<le> snd p \<and> snd p < snd ram_ptr + uint ram_size)
        then (tlb_write s i)\<lparr>te_vaddr := - 1\<rparr> else tlb_write s i)\<rparr>"

subsection \<open>Reads\<close>

definition read_aligned_slow ::
    "'d dev_ops \<Rightarrow> nat \<Rightarrow> u32 \<Rightarrow> 'd cpu \<Rightarrow> (u64 res \<times> 'd cpu) option" where
  "read_aligned_slow D size_log2 addr s =
     do { (r, s1) \<leftarrow> get_phys_addr s addr ACCESS_READ;
       case r of
         ERR \<Rightarrow> Some (ERR, s1\<lparr>pending_tval := addr, pending_exception := CAUSE_LOAD_PAGE_FAULT\<rparr>)
       | OK paddr \<Rightarrow>
         (case get_phys_mem_range (mem_map s1) (ucast paddr) of
            None \<Rightarrow> Some (OK (dv_uninit D s1 addr), s1)
          | Some i \<Rightarrow>
            (let pr = mem_map s1 ! i; off = ucast paddr - pr_addr pr
             in if pr_is_ram pr
                then let ptr = (i, int (unat off));
                         s2 = s1\<lparr>tlb_read := (tlb_read s1)(tlb_index addr := mk_entry addr ptr)\<rparr>
                  in do { v \<leftarrow> host_read (mem_map s2) ptr (2 ^ size_log2);
                          Some (OK (of_nat v), s2) }
                else let offset = (ucast off :: u32)
                  in if bit (pr_devio_flags pr) size_log2
                     then do { (v, s2) \<leftarrow> dv_read D (pr_dev pr) offset size_log2 s1;
                               Some (OK (ucast v), s2) }
                     else if pr_devio_flags pr AND DEVIO_SIZE32 \<noteq> 0 \<and> size_log2 = 3
                     then do { (v0, s2) \<leftarrow> dv_read D (pr_dev pr) offset 2 s1;
                               (v1, s3) \<leftarrow> dv_read D (pr_dev pr) (offset + 4) 2 s2;
                               Some (OK (ucast v0 OR push_bit 32 (ucast v1)), s3) }
                     else Some (OK 0, s1))) }"

text \<open>
  \<open>target_read_slow\<close> calls \<open>target_read_u\<close> again for the parts of an unaligned access.
  Those parts are aligned, so the recursion is one level deep: \<open>read_part\<close> is
  \<open>target_read_u\<close> at an aligned address, whose slow path is the aligned one.
\<close>

definition read_fast ::
    "(nat \<Rightarrow> u32 \<Rightarrow> 'd cpu \<Rightarrow> (u64 res \<times> 'd cpu) option) \<Rightarrow>
     nat \<Rightarrow> u32 \<Rightarrow> 'd cpu \<Rightarrow> (u64 res \<times> 'd cpu) option" where
  "read_fast slow size_log2 addr s =
     (let e = tlb_read s (tlb_index addr) in
      if te_vaddr e = tlb_tag size_log2 addr
      then do { v \<leftarrow> host_read (mem_map s) (te_ptr e addr) (2 ^ size_log2);
                Some (OK (of_nat v), s) }
      else do { (r, s1) \<leftarrow> slow size_log2 addr s;
                Some (map_res (take_bit (8 * 2 ^ size_log2)) r, s1) })"

definition read_part :: "'d dev_ops \<Rightarrow> nat \<Rightarrow> u32 \<Rightarrow> 'd cpu \<Rightarrow> (u64 res \<times> 'd cpu) option" where
  "read_part D = read_fast (read_aligned_slow D)"

definition read_two ::
    "'d dev_ops \<Rightarrow> nat \<Rightarrow> u32 \<Rightarrow> u32 \<Rightarrow> 'd cpu \<Rightarrow> ((u64 \<times> u64) res \<times> 'd cpu) option" where
  "read_two D size_log2 a0 a1 s =
     do { (r0, s1) \<leftarrow> read_part D size_log2 a0 s;
       case r0 of ERR \<Rightarrow> Some (ERR, s1)
       | OK v0 \<Rightarrow> do { (r1, s2) \<leftarrow> read_part D size_log2 a1 s1;
           case r1 of ERR \<Rightarrow> Some (ERR, s2) | OK v1 \<Rightarrow> Some (OK (v0, v1), s2) } }"

definition target_read_slow ::
    "'d dev_ops \<Rightarrow> nat \<Rightarrow> u32 \<Rightarrow> 'd cpu \<Rightarrow> (u64 res \<times> 'd cpu) option" where
  "target_read_slow D size_log2 addr s =
     (let al = unat (addr AND mask size_log2) in
      if al \<noteq> 0
      then (if size_log2 = 1
            then do { (r, s1) \<leftarrow> read_two D 0 addr (addr + 1) s;
                      Some (map_res (\<lambda>(v0, v1). v0 OR push_bit 8 v1) r, s1) }
            else if size_log2 = 2
            then do { (r, s1) \<leftarrow> read_two D 2 (addr - of_nat al) (addr - of_nat al + 4) s;
                      Some (map_res (\<lambda>(v0, v1). take_bit 32
                              (drop_bit (al * 8) v0 OR push_bit (32 - al * 8) v1)) r, s1) }
            else if size_log2 = 3
            then do { (r, s1) \<leftarrow> read_two D 3 (addr - of_nat al) (addr - of_nat al + 8) s;
                      Some (map_res (\<lambda>(v0, v1).
                              drop_bit (al * 8) v0 OR push_bit (64 - al * 8) v1) r, s1) }
            else None)
      else read_aligned_slow D size_log2 addr s)"

definition target_read :: "'d dev_ops \<Rightarrow> nat \<Rightarrow> u32 \<Rightarrow> 'd cpu \<Rightarrow> (u64 res \<times> 'd cpu) option" where
  "target_read D = read_fast (target_read_slow D)"

subsection \<open>Writes\<close>

definition write_aligned_slow ::
    "'d dev_ops \<Rightarrow> nat \<Rightarrow> u32 \<Rightarrow> u64 \<Rightarrow> 'd cpu \<Rightarrow> (unit res \<times> 'd cpu) option" where
  "write_aligned_slow D size_log2 addr v s =
     do { (r, s1) \<leftarrow> get_phys_addr s addr ACCESS_WRITE;
       case r of
         ERR \<Rightarrow> Some (ERR, s1\<lparr>pending_tval := addr, pending_exception := CAUSE_STORE_PAGE_FAULT\<rparr>)
       | OK paddr \<Rightarrow>
         (case get_phys_mem_range (mem_map s1) (ucast paddr) of
            None \<Rightarrow> Some (OK (), s1)
          | Some i \<Rightarrow>
            (let pr = mem_map s1 ! i; off = ucast paddr - pr_addr pr
             in if pr_is_ram pr
                then do { pr1 \<leftarrow> phys_mem_set_dirty_bit pr (unat off);
                       let ptr = (i, int (unat off));
                       let s2 = s1\<lparr>mem_map := (mem_map s1)[i := pr1],
                         tlb_write := (tlb_write s1)(tlb_index addr := mk_entry addr ptr)\<rparr>;
                       mm \<leftarrow> host_write (mem_map s2) ptr (2 ^ size_log2) (unat v);
                       Some (OK (), s2\<lparr>mem_map := mm\<rparr>) }
                else let offset = (ucast off :: u32)
                  in if bit (pr_devio_flags pr) size_log2
                     then do { s2 \<leftarrow> dv_write D (pr_dev pr) offset (ucast v) size_log2 s1;
                               Some (OK (), s2) }
                     else if pr_devio_flags pr AND DEVIO_SIZE32 \<noteq> 0 \<and> size_log2 = 3
                     then do { s2 \<leftarrow> dv_write D (pr_dev pr) offset (ucast (v AND mask 32)) 2 s1;
                               s3 \<leftarrow> dv_write D (pr_dev pr) (offset + 4)
                                      (ucast (drop_bit 32 v AND mask 32)) 2 s2;
                               Some (OK (), s3) }
                     else Some (OK (), s1))) }"

definition write_fast ::
    "(nat \<Rightarrow> u32 \<Rightarrow> u64 \<Rightarrow> 'd cpu \<Rightarrow> (unit res \<times> 'd cpu) option) \<Rightarrow>
     nat \<Rightarrow> u32 \<Rightarrow> u64 \<Rightarrow> 'd cpu \<Rightarrow> (unit res \<times> 'd cpu) option" where
  "write_fast slow size_log2 addr v s =
     (let e = tlb_write s (tlb_index addr) in
      if te_vaddr e = tlb_tag size_log2 addr
      then do { mm \<leftarrow> host_write (mem_map s) (te_ptr e addr) (2 ^ size_log2) (unat v);
                Some (OK (), s\<lparr>mem_map := mm\<rparr>) }
      else slow size_log2 addr (take_bit (8 * 2 ^ size_log2) v) s)"

definition write_part ::
    "'d dev_ops \<Rightarrow> u32 \<Rightarrow> u64 \<Rightarrow> 'd cpu \<Rightarrow> (unit res \<times> 'd cpu) option" where
  "write_part D = write_fast (write_aligned_slow D) 0"

text \<open>The byte loop of an unaligned write: \<open>n\<close> bytes left, starting at byte \<open>i\<close>.\<close>

fun write_bytes_loop ::
    "'d dev_ops \<Rightarrow> nat \<Rightarrow> nat \<Rightarrow> u32 \<Rightarrow> u64 \<Rightarrow> 'd cpu \<Rightarrow> (unit res \<times> 'd cpu) option" where
  "write_bytes_loop D 0 i addr v s = Some (OK (), s)"
| "write_bytes_loop D (Suc n) i addr v s =
     do { (r, s1) \<leftarrow> write_part D (addr + of_nat i) (drop_bit (8 * i) v AND 0xff) s;
       case r of ERR \<Rightarrow> Some (ERR, s1) | OK _ \<Rightarrow> write_bytes_loop D n (Suc i) addr v s1 }"

definition target_write_slow ::
    "'d dev_ops \<Rightarrow> nat \<Rightarrow> u32 \<Rightarrow> u64 \<Rightarrow> 'd cpu \<Rightarrow> (unit res \<times> 'd cpu) option" where
  "target_write_slow D size_log2 addr v s =
     (if addr AND mask size_log2 \<noteq> 0 then write_bytes_loop D (2 ^ size_log2) 0 addr v s
      else write_aligned_slow D size_log2 addr v s)"

definition target_write ::
    "'d dev_ops \<Rightarrow> nat \<Rightarrow> u32 \<Rightarrow> u64 \<Rightarrow> 'd cpu \<Rightarrow> (unit res \<times> 'd cpu) option" where
  "target_write D = write_fast (target_write_slow D)"

subsection \<open>Instruction fetch\<close>

definition target_read_insn_slow :: "u32 \<Rightarrow> 'd cpu \<Rightarrow> (hostptr res \<times> 'd cpu) option" where
  "target_read_insn_slow addr s =
     do { (r, s1) \<leftarrow> get_phys_addr s addr ACCESS_CODE;
       case r of
         ERR \<Rightarrow> Some (ERR, s1\<lparr>pending_tval := addr, pending_exception := CAUSE_FETCH_PAGE_FAULT\<rparr>)
       | OK paddr \<Rightarrow>
         (case get_phys_mem_range (mem_map s1) (ucast paddr) of
            None \<Rightarrow> Some (ERR, s1\<lparr>pending_tval := addr, pending_exception := CAUSE_FAULT_FETCH\<rparr>)
          | Some i \<Rightarrow>
            (if \<not> pr_is_ram (mem_map s1 ! i)
             then Some (ERR, s1\<lparr>pending_tval := addr, pending_exception := CAUSE_FAULT_FETCH\<rparr>)
             else let ptr = (i, int (unat (ucast paddr - pr_addr (mem_map s1 ! i))))
               in Some (OK ptr, s1\<lparr>tlb_code :=
                         (tlb_code s1)(tlb_index addr := mk_entry addr ptr)\<rparr>))) }"

definition target_read_insn_ptr :: "u32 \<Rightarrow> 'd cpu \<Rightarrow> (hostptr res \<times> 'd cpu) option" where
  "target_read_insn_ptr addr s =
     (let e = tlb_code s (tlb_index addr) in
      if te_vaddr e = addr AND NOT PG_MASK then Some (OK (te_ptr e addr), s)
      else target_read_insn_slow addr s)"

definition target_read_insn_u16 :: "u32 \<Rightarrow> 'd cpu \<Rightarrow> (u16 res \<times> 'd cpu) option" where
  "target_read_insn_u16 addr s =
     do { (r, s1) \<leftarrow> target_read_insn_ptr addr s;
       case r of ERR \<Rightarrow> Some (ERR, s1)
       | OK ptr \<Rightarrow> do { v \<leftarrow> host_read (mem_map s1) ptr 2; Some (OK (of_nat v), s1) } }"

definition get_insn32 :: "mem_map_t \<Rightarrow> hostptr \<Rightarrow> u32 option" where
  "get_insn32 mm ptr = map_option of_nat (host_read mm ptr 4)"

end
