(* ===== verification/Cutils.thy ===== *)
theory Cutils
  imports Emu_Prelude
begin

text \<open>
  The helpers of \<open>cutils.h\<close> and \<open>cutils.c\<close> the emulator is written with: the count of trailing
  zeros, the accessors of little- and big-endian integers in a byte buffer, the bounded string
  copy and the prefix test. A buffer is a list of bytes and a pointer into it an index; an access
  past the end is the outcome \<open>None\<close>.
\<close>

section \<open>Definitions\<close>

text \<open>The loop of \<open>ctz32\<close>: \<open>n\<close> rounds are left and \<open>i\<close> is the counter.\<close>

fun ctz32_loop :: "nat \<Rightarrow> nat \<Rightarrow> u32 \<Rightarrow> nat" where
  "ctz32_loop 0 i a = 32"
| "ctz32_loop (Suc n) i a = (if drop_bit i a AND 1 \<noteq> 0 then i else ctz32_loop n (Suc i) a)"

definition ctz32 :: "u32 \<Rightarrow> nat" where
  "ctz32 a = (if a = 0 then 32 else ctz32_loop 32 0 a)"

subsection \<open>Integers in byte buffers\<close>

definition buf_get :: "u8 list \<Rightarrow> nat \<Rightarrow> u8 option" where
  "buf_get buf p = (if p < length buf then Some (buf ! p) else None)"

definition buf_put :: "u8 list \<Rightarrow> nat \<Rightarrow> u8 \<Rightarrow> u8 list option" where
  "buf_put buf p v = (if p < length buf then Some (buf[p := v]) else None)"

definition get_le16 :: "u8 list \<Rightarrow> nat \<Rightarrow> u16 option" where
  "get_le16 buf p = do { b0 \<leftarrow> buf_get buf p; b1 \<leftarrow> buf_get buf (p + 1);
     Some (ucast b0 OR push_bit 8 (ucast b1)) }"

definition get_le32 :: "u8 list \<Rightarrow> nat \<Rightarrow> u32 option" where
  "get_le32 buf p = do { b0 \<leftarrow> buf_get buf p; b1 \<leftarrow> buf_get buf (p + 1);
     b2 \<leftarrow> buf_get buf (p + 2); b3 \<leftarrow> buf_get buf (p + 3);
     Some (((ucast b0 OR push_bit 8 (ucast b1)) OR push_bit 16 (ucast b2)) OR push_bit 24 (ucast b3)) }"

definition get_le64 :: "u8 list \<Rightarrow> nat \<Rightarrow> u64 option" where
  "get_le64 buf p = do { lo \<leftarrow> get_le32 buf p; hi \<leftarrow> get_le32 buf (p + 4);
     Some (ucast lo OR push_bit 32 (ucast hi)) }"

definition put_le16 :: "u8 list \<Rightarrow> nat \<Rightarrow> u16 \<Rightarrow> u8 list option" where
  "put_le16 buf p v = do { buf \<leftarrow> buf_put buf p (ucast v);
     buf_put buf (p + 1) (ucast (drop_bit 8 v)) }"

definition put_le32 :: "u8 list \<Rightarrow> nat \<Rightarrow> u32 \<Rightarrow> u8 list option" where
  "put_le32 buf p v = do { buf \<leftarrow> buf_put buf p (ucast v);
     buf \<leftarrow> buf_put buf (p + 1) (ucast (drop_bit 8 v));
     buf \<leftarrow> buf_put buf (p + 2) (ucast (drop_bit 16 v));
     buf_put buf (p + 3) (ucast (drop_bit 24 v)) }"

definition put_le64 :: "u8 list \<Rightarrow> nat \<Rightarrow> u64 \<Rightarrow> u8 list option" where
  "put_le64 buf p v = do { buf \<leftarrow> put_le32 buf p (ucast v);
     put_le32 buf (p + 4) (ucast (drop_bit 32 v)) }"

definition get_be32 :: "u8 list \<Rightarrow> nat \<Rightarrow> u32 option" where
  "get_be32 buf p = do { b0 \<leftarrow> buf_get buf p; b1 \<leftarrow> buf_get buf (p + 1);
     b2 \<leftarrow> buf_get buf (p + 2); b3 \<leftarrow> buf_get buf (p + 3);
     Some (((push_bit 24 (ucast b0) OR push_bit 16 (ucast b1)) OR push_bit 8 (ucast b2)) OR ucast b3) }"

definition put_be32 :: "u8 list \<Rightarrow> nat \<Rightarrow> u32 \<Rightarrow> u8 list option" where
  "put_be32 buf p v = do { buf \<leftarrow> buf_put buf p (ucast (drop_bit 24 v));
     buf \<leftarrow> buf_put buf (p + 1) (ucast (drop_bit 16 v));
     buf \<leftarrow> buf_put buf (p + 2) (ucast (drop_bit 8 v));
     buf_put buf (p + 3) (ucast v) }"

definition put_be64 :: "u8 list \<Rightarrow> nat \<Rightarrow> u64 \<Rightarrow> u8 list option" where
  "put_be64 buf p v = do { buf \<leftarrow> put_be32 buf p (ucast (drop_bit 32 v));
     put_be32 buf (p + 4) (ucast v) }"

subsection \<open>Strings\<close>

text \<open>
  \<open>str\<close> is a C string without its final NUL (and without any other); the result is what
  \<open>buf\<close> holds up to the NUL \<open>pstrcpy\<close> writes, or \<open>None\<close> when it writes nothing.
\<close>

fun pstrcpy_loop :: "nat \<Rightarrow> string \<Rightarrow> string" where
  "pstrcpy_loop room [] = []"
| "pstrcpy_loop 0 (c # cs) = []"
| "pstrcpy_loop (Suc room) (c # cs) = c # pstrcpy_loop room cs"

definition pstrcpy :: "int \<Rightarrow> string \<Rightarrow> string option" where
  "pstrcpy buf_size str =
     (if buf_size \<le> 0 then None else Some (pstrcpy_loop (nat (buf_size - 1)) str))"

text \<open>\<open>strstart\<close> returns the rest of the string, as the C function does through \<open>ptr\<close>.\<close>

fun strstart :: "string \<Rightarrow> string \<Rightarrow> string option" where
  "strstart p [] = Some p"
| "strstart [] (q # qs) = None"
| "strstart (p # ps) (q # qs) = (if p \<noteq> q then None else strstart ps qs)"

section \<open>Properties\<close>

lemma ctz32_loop_spec:
  assumes "\<forall>j < i. \<not> bit a j" and "\<exists>j < i + n. bit a j"
  shows "ctz32_loop n i a < i + n \<and> bit a (ctz32_loop n i a) \<and> (\<forall>j < ctz32_loop n i a. \<not> bit a j)"
  using assms
proof (induction n arbitrary: i)
  case 0
  then show ?case by auto
next
  case (Suc n)
  have b: "(drop_bit i a AND 1 \<noteq> 0) = bit a i"
    by (simp add: bit_iff_odd_drop_bit and_one_eq odd_iff_mod_2_eq_one)
  show ?case
  proof (cases "bit a i")
    case True
    with Suc.prems(1) b show ?thesis by simp
  next
    case False
    then have "\<forall>j < Suc i. \<not> bit a j" using Suc.prems(1) by (auto simp: less_Suc_eq)
    with Suc.IH [of "Suc i"] Suc.prems(2) False b show ?thesis by simp
  qed
qed

lemma ctz32_nonzero:
  assumes "a \<noteq> 0"
  shows "ctz32 a < 32 \<and> bit a (ctz32 a) \<and> (\<forall>j < ctz32 a. \<not> bit a j)"
proof -
  have "\<exists>j < 32. bit a j"
  proof (rule ccontr)
    assume "\<not> ?thesis"
    then have "a = 0" by (intro bit_word_eqI) auto
    with assms show False by simp
  qed
  then have ex: "\<exists>j < 0 + 32. bit a j" unfolding add_0 .
  have e: "ctz32 a = ctz32_loop 32 0 a" using assms unfolding ctz32_def by (rule if_not_P)
  have "\<forall>j < 0. \<not> bit a j" by simp
  from ctz32_loop_spec [OF this ex] show ?thesis unfolding e add_0 .
qed

lemma buf_put_get:
  "buf_put buf p v = Some buf' \<Longrightarrow> buf_get buf' q = (if q = p then Some v else buf_get buf q)"
  by (auto simp: buf_put_def buf_get_def nth_list_update split: if_splits)

lemma buf_put_length: "buf_put buf p v = Some buf' \<Longrightarrow> length buf' = length buf"
  by (auto simp: buf_put_def split: if_splits)

lemma buf_put_total: "p < length buf \<Longrightarrow> \<exists>buf'. buf_put buf p v = Some buf'"
  by (simp add: buf_put_def)

lemma put_le32_get:
  assumes "put_le32 buf p v = Some buf'"
  shows "length buf' = length buf"
    and "buf_get buf' q = (if q = p then Some (ucast v) else if q = p + 1 then Some (ucast (drop_bit 8 v))
      else if q = p + 2 then Some (ucast (drop_bit 16 v)) else if q = p + 3 then Some (ucast (drop_bit 24 v))
      else buf_get buf q)"
proof -
  from assms obtain b1 b2 b3 where b: "buf_put buf p (ucast v) = Some b1"
    "buf_put b1 (p + 1) (ucast (drop_bit 8 v)) = Some b2"
    "buf_put b2 (p + 2) (ucast (drop_bit 16 v)) = Some b3"
    "buf_put b3 (p + 3) (ucast (drop_bit 24 v)) = Some buf'"
    by (auto simp: put_le32_def bind_Some_conv)
  show "length buf' = length buf"
    using b [THEN buf_put_length] by simp
  show "buf_get buf' q = (if q = p then Some (ucast v) else if q = p + 1 then Some (ucast (drop_bit 8 v))
      else if q = p + 2 then Some (ucast (drop_bit 16 v)) else if q = p + 3 then Some (ucast (drop_bit 24 v))
      else buf_get buf q)"
    by (simp add: b [THEN buf_put_get])
qed

lemma bytes_join32:
  "((ucast (ucast v :: u8) OR push_bit 8 (ucast (ucast (drop_bit 8 v) :: u8)))
     OR push_bit 16 (ucast (ucast (drop_bit 16 v) :: u8)))
     OR push_bit 24 (ucast (ucast (drop_bit 24 v) :: u8)) = (v :: u32)"
proof (rule bit_word_eqI)
  fix n
  assume n: "n < LENGTH(32)"
  then consider "n < 8" | "8 \<le> n \<and> n < 16" | "16 \<le> n \<and> n < 24" | "24 \<le> n \<and> n < 32"
    by fastforce
  then show "bit (((ucast (ucast v :: u8) OR push_bit 8 (ucast (ucast (drop_bit 8 v) :: u8)))
     OR push_bit 16 (ucast (ucast (drop_bit 16 v) :: u8)))
     OR push_bit 24 (ucast (ucast (drop_bit 24 v) :: u8)) :: u32) n = bit v n"
    by cases (auto simp: bit_simps)
qed

lemma put_get_le32: "put_le32 buf p v = Some buf' \<Longrightarrow> get_le32 buf' p = Some v"
  using bytes_join32 [of v] by (simp add: get_le32_def put_le32_get(2))

lemma put_le32_total: "p + 4 \<le> length buf \<Longrightarrow> \<exists>buf'. put_le32 buf p v = Some buf'"
  by (simp add: put_le32_def buf_put_def)

lemma words_join64: "ucast (ucast v :: u32) OR push_bit 32 (ucast (ucast (drop_bit 32 v) :: u32)) = (v :: u64)"
proof (rule bit_word_eqI)
  fix n
  assume "n < LENGTH(64)"
  then consider "n < 32" | "32 \<le> n \<and> n < 64" by fastforce
  then show "bit (ucast (ucast v :: u32) OR push_bit 32 (ucast (ucast (drop_bit 32 v) :: u32)) :: u64) n = bit v n"
    by cases (auto simp: bit_simps)
qed

lemma get_le32_cong: "(\<And>q. p \<le> q \<Longrightarrow> q < p + 4 \<Longrightarrow> buf_get buf' q = buf_get buf q) \<Longrightarrow>
    get_le32 buf' p = get_le32 buf p"
  by (simp add: get_le32_def)

lemma put_get_le64: 
  assumes "put_le64 buf p v = Some buf'"
  shows "get_le64 buf' p = Some v"
proof -
  from assms obtain b where b: "put_le32 buf p (ucast v) = Some b"
    "put_le32 b (p + 4) (ucast (drop_bit 32 v)) = Some buf'"
    by (auto simp: put_le64_def bind_Some_conv)
  have "get_le32 buf' p = get_le32 b p"
    by (rule get_le32_cong) (simp add: put_le32_get(2) [OF b(2)])
  then show ?thesis
    using put_get_le32 [OF b(1)] put_get_le32 [OF b(2)] words_join64 [of v] by (simp add: get_le64_def)
qed

lemma pstrcpy_loop_take: "pstrcpy_loop n s = take n s"
  by (induction n s rule: pstrcpy_loop.induct) auto

lemma strstart_prefix: "strstart s pre = Some rest \<longleftrightarrow> s = pre @ rest"
  by (induction s pre rule: strstart.induct) auto

end
