(* ===== verification/Riscv_Csr.thy ===== *)
theory Riscv_Csr
  imports Riscv_Mmu Cutils
begin

text \<open>
  The control and status registers of the CPU (\<open>riscv_cpu.c\<close>): reads and writes of the CSRs,
  changes of privilege, traps and trap returns, and the interrupts. Writes follow the 32-bit
  build: \<open>csr_write\<close> returns -1 (invalid), 0, or 2 (the TLBs have been flushed); its result 1
  (the width changed) belongs to the wider builds.
\<close>

section \<open>Definitions\<close>

definition SSTATUS_MASK :: u32 where
  "SSTATUS_MASK = (((((((MSTATUS_UIE OR MSTATUS_SIE) OR MSTATUS_UPIE) OR MSTATUS_SPIE) OR
     MSTATUS_SPP) OR MSTATUS_FS) OR MSTATUS_XS) OR MSTATUS_SUM) OR MSTATUS_MXR"

definition MSTATUS_MASK :: u32 where
  "MSTATUS_MASK = (((((((((((MSTATUS_UIE OR MSTATUS_SIE) OR MSTATUS_MIE) OR MSTATUS_UPIE) OR
     MSTATUS_SPIE) OR MSTATUS_MPIE) OR MSTATUS_SPP) OR MSTATUS_MPP) OR MSTATUS_FS) OR
     MSTATUS_MPRV) OR MSTATUS_SUM) OR MSTATUS_MXR)"

definition COUNTEREN_MASK :: u32 where "COUNTEREN_MASK = 0x5"

lemma SSTATUS_MASK_value [masks]: "SSTATUS_MASK = 0xde133"
  by (simp add: SSTATUS_MASK_def masks)

lemma MSTATUS_MASK_value [masks]: "MSTATUS_MASK = 0xe79bb"
  by (simp add: MSTATUS_MASK_def masks)

lemmas [masks] = COUNTEREN_MASK_def

subsection \<open>The status register\<close>

definition get_mstatus :: "'d cpu \<Rightarrow> u32 \<Rightarrow> u32" where
  "get_mstatus s msk =
     (let val = (mstatus s OR push_bit MSTATUS_FS_SHIFT (fs s)) AND msk
      in if val AND MSTATUS_FS = MSTATUS_FS \<or> val AND MSTATUS_XS = MSTATUS_XS
         then val OR push_bit (cur_xlen s - 1) 1 else val)"

definition set_mstatus :: "'d cpu \<Rightarrow> u32 \<Rightarrow> 'd cpu" where
  "set_mstatus s val =
     (let md = mstatus s XOR val;
          s1 = (if md AND ((MSTATUS_MPRV OR MSTATUS_SUM) OR MSTATUS_MXR) \<noteq> 0 \<or>
                   (mstatus s AND MSTATUS_MPRV \<noteq> 0 \<and> md AND MSTATUS_MPP \<noteq> 0)
                then tlb_flush_all s else s);
          msk = MSTATUS_MASK AND NOT MSTATUS_FS
      in s1\<lparr>fs := drop_bit MSTATUS_FS_SHIFT val AND 3,
            mstatus := (mstatus s1 AND NOT msk) OR (val AND msk)\<rparr>)"

subsection \<open>Reads\<close>

text \<open>The access check of the user counters, by \<open>scounteren\<close> or \<open>mcounteren\<close>.\<close>

definition counter_ok :: "'d cpu \<Rightarrow> u32 \<Rightarrow> bool" where
  "counter_ok s csr = (if priv s < PRV_M
     then bit (if priv s < PRV_S then scounteren s else mcounteren s) (unat (csr AND 0x1f))
     else True)"

definition csr_value :: "'d cpu \<Rightarrow> u32 \<Rightarrow> u32 res" where
  "csr_value s csr =
     (if csr = 0x001 then (if fs s = 0 then ERR else OK (fflags s))
      else if csr = 0x002 then (if fs s = 0 then ERR else OK (of_nat (frm s)))
      else if csr = 0x003 then (if fs s = 0 then ERR else OK (fflags s OR push_bit 5 (of_nat (frm s))))
      else if csr = 0xc00 \<or> csr = 0xc02
      then (if counter_ok s csr then OK (ucast (insn_counter s)) else ERR)
      else if csr = 0xc80 \<or> csr = 0xc82
      then (if cur_xlen s \<noteq> 32 then ERR
            else if counter_ok s csr then OK (ucast (drop_bit 32 (insn_counter s))) else ERR)
      else if csr = 0x100 then OK (get_mstatus s SSTATUS_MASK)
      else if csr = 0x104 then OK (mie s AND mideleg s)
      else if csr = 0x105 then OK (stvec s)
      else if csr = 0x106 then OK (scounteren s)
      else if csr = 0x140 then OK (sscratch s)
      else if csr = 0x141 then OK (sepc s)
      else if csr = 0x142 then OK (scause s)
      else if csr = 0x143 then OK (stval s)
      else if csr = 0x144 then OK (mip s AND mideleg s)
      else if csr = 0x180 then OK (satp s)
      else if csr = 0x300 then OK (get_mstatus s (- 1))
      else if csr = 0x301 then OK (misa s OR push_bit (cur_xlen s - 2) (of_nat (mxl s)))
      else if csr = 0x302 then OK (medeleg s)
      else if csr = 0x303 then OK (mideleg s)
      else if csr = 0x304 then OK (mie s)
      else if csr = 0x305 then OK (mtvec s)
      else if csr = 0x306 then OK (mcounteren s)
      else if csr = 0x340 then OK (mscratch s)
      else if csr = 0x341 then OK (mepc s)
      else if csr = 0x342 then OK (mcause s)
      else if csr = 0x343 then OK (mtval s)
      else if csr = 0x344 then OK (mip s)
      else if csr = 0xb00 \<or> csr = 0xb02 then OK (ucast (insn_counter s))
      else if csr = 0xb80 \<or> csr = 0xb82
      then (if cur_xlen s \<noteq> 32 then ERR else OK (ucast (drop_bit 32 (insn_counter s))))
      else if csr = 0xf14 then OK (mhartid s)
      else ERR)"

definition csr_read :: "'d cpu \<Rightarrow> u32 \<Rightarrow> bool \<Rightarrow> u32 res" where
  "csr_read s csr will_write =
     (if csr AND 0xc00 = 0xc00 \<and> will_write then ERR
      else if priv s < unat (drop_bit 8 csr AND 3) then ERR
      else csr_value s csr)"

definition set_frm :: "'d cpu \<Rightarrow> nat \<Rightarrow> 'd cpu" where
  "set_frm s val = s\<lparr>frm := (if 5 \<le> val then 0 else val)\<rparr>"

definition get_insn_rm :: "'d cpu \<Rightarrow> nat \<Rightarrow> nat option" where
  "get_insn_rm s rm = (if rm = 7 then Some (frm s) else if 5 \<le> rm then None else Some rm)"

subsection \<open>Writes\<close>

definition ins_bits :: "u32 \<Rightarrow> u32 \<Rightarrow> u32 \<Rightarrow> u32" where
  "ins_bits old msk val = (old AND NOT msk) OR (val AND msk)"

definition csr_write :: "'d cpu \<Rightarrow> u32 \<Rightarrow> u32 \<Rightarrow> int \<times> 'd cpu" where
  "csr_write s csr val =
     (if csr = 0x001 then (0, s\<lparr>fflags := val AND 0x1f, fs := 3\<rparr>)
      else if csr = 0x002 then (0, (set_frm s (unat (val AND 7)))\<lparr>fs := 3\<rparr>)
      else if csr = 0x003
      then (0, (set_frm s (unat (drop_bit 5 val AND 7)))\<lparr>fflags := val AND 0x1f, fs := 3\<rparr>)
      else if csr = 0x100
      then (0, set_mstatus s ((mstatus s AND NOT SSTATUS_MASK) OR (val AND SSTATUS_MASK)))
      else if csr = 0x104 then (0, s\<lparr>mie := ins_bits (mie s) (mideleg s) val\<rparr>)
      else if csr = 0x105 then (0, s\<lparr>stvec := val AND NOT 3\<rparr>)
      else if csr = 0x106 then (0, s\<lparr>scounteren := val AND COUNTEREN_MASK\<rparr>)
      else if csr = 0x140 then (0, s\<lparr>sscratch := val\<rparr>)
      else if csr = 0x141 then (0, s\<lparr>sepc := val AND NOT 1\<rparr>)
      else if csr = 0x142 then (0, s\<lparr>scause := val\<rparr>)
      else if csr = 0x143 then (0, s\<lparr>stval := val\<rparr>)
      else if csr = 0x144 then (0, s\<lparr>mip := ins_bits (mip s) (mideleg s) val\<rparr>)
      else if csr = 0x180
      then (2, tlb_flush_all (s\<lparr>satp := (val AND mask 22) OR push_bit 31 (drop_bit 31 val AND 1)\<rparr>))
      else if csr = 0x300 then (0, set_mstatus s val)
      else if csr = 0x301 then (0, s)
      else if csr = 0x302 then (0, s\<lparr>medeleg := ins_bits (medeleg s) (mask 16) val\<rparr>)
      else if csr = 0x303
      then (0, s\<lparr>mideleg := ins_bits (mideleg s) ((MIP_SSIP OR MIP_STIP) OR MIP_SEIP) val\<rparr>)
      else if csr = 0x304
      then (0, s\<lparr>mie := ins_bits (mie s)
              ((((MIP_MSIP OR MIP_MTIP) OR MIP_SSIP) OR MIP_STIP) OR MIP_SEIP) val\<rparr>)
      else if csr = 0x305 then (0, s\<lparr>mtvec := val AND NOT 3\<rparr>)
      else if csr = 0x306 then (0, s\<lparr>mcounteren := val AND COUNTEREN_MASK\<rparr>)
      else if csr = 0x340 then (0, s\<lparr>mscratch := val\<rparr>)
      else if csr = 0x341 then (0, s\<lparr>mepc := val AND NOT 1\<rparr>)
      else if csr = 0x342 then (0, s\<lparr>mcause := val\<rparr>)
      else if csr = 0x343 then (0, s\<lparr>mtval := val\<rparr>)
      else if csr = 0x344 then (0, s\<lparr>mip := ins_bits (mip s) (MIP_SSIP OR MIP_STIP) val\<rparr>)
      else (- 1, s))"

subsection \<open>Traps\<close>

definition set_priv :: "'d cpu \<Rightarrow> nat \<Rightarrow> 'd cpu" where
  "set_priv s prv = (if priv s \<noteq> prv then (tlb_flush_all s)\<lparr>priv := prv\<rparr> else s)"

definition trap_delegated :: "'d cpu \<Rightarrow> u32 \<Rightarrow> bool" where
  "trap_delegated s cause =
     (if priv s \<le> PRV_S
      then (if cause AND CAUSE_INTERRUPT \<noteq> 0 then bit (mideleg s) (unat (cause AND 31))
            else bit (medeleg s) (unat cause))
      else False)"

definition raise_exception2 :: "'d cpu \<Rightarrow> u32 \<Rightarrow> u32 \<Rightarrow> 'd cpu" where
  "raise_exception2 s cause tval =
     (let causel = (cause AND 0x7fffffff) OR
            (if cause AND CAUSE_INTERRUPT \<noteq> 0 then push_bit (cur_xlen s - 1) 1 else 0);
          ie = drop_bit (priv s) (mstatus s) AND 1
      in if trap_delegated s cause
         then let m1 = (mstatus s AND NOT MSTATUS_SPIE) OR push_bit MSTATUS_SPIE_SHIFT ie;
                  m2 = (m1 AND NOT MSTATUS_SPP) OR push_bit MSTATUS_SPP_SHIFT (of_nat (priv s));
                  s1 = set_priv (s\<lparr>scause := causel, sepc := pc s, stval := tval,
                         mstatus := m2 AND NOT MSTATUS_SIE\<rparr>) PRV_S
              in s1\<lparr>pc := stvec s1\<rparr>
         else let m1 = (mstatus s AND NOT MSTATUS_MPIE) OR push_bit MSTATUS_MPIE_SHIFT ie;
                  m2 = (m1 AND NOT MSTATUS_MPP) OR push_bit MSTATUS_MPP_SHIFT (of_nat (priv s));
                  s1 = set_priv (s\<lparr>mcause := causel, mepc := pc s, mtval := tval,
                         mstatus := m2 AND NOT MSTATUS_MIE\<rparr>) PRV_M
              in s1\<lparr>pc := mtvec s1\<rparr>)"

definition raise_exception :: "'d cpu \<Rightarrow> u32 \<Rightarrow> 'd cpu" where
  "raise_exception s cause = raise_exception2 s cause 0"

definition handle_sret :: "'d cpu \<Rightarrow> 'd cpu" where
  "handle_sret s =
     (let spp = unat (drop_bit MSTATUS_SPP_SHIFT (mstatus s) AND 1);
          spie = drop_bit MSTATUS_SPIE_SHIFT (mstatus s) AND 1;
          m1 = (mstatus s AND NOT (push_bit spp 1)) OR push_bit spp spie;
          m2 = (m1 OR MSTATUS_SPIE) AND NOT MSTATUS_SPP;
          s1 = set_priv (s\<lparr>mstatus := m2\<rparr>) spp
      in s1\<lparr>pc := sepc s1\<rparr>)"

definition handle_mret :: "'d cpu \<Rightarrow> 'd cpu" where
  "handle_mret s =
     (let mpp = unat (drop_bit MSTATUS_MPP_SHIFT (mstatus s) AND 3);
          mpie = drop_bit MSTATUS_MPIE_SHIFT (mstatus s) AND 1;
          m1 = (mstatus s AND NOT (push_bit mpp 1)) OR push_bit mpp mpie;
          m2 = (m1 OR MSTATUS_MPIE) AND NOT MSTATUS_MPP;
          s1 = set_priv (s\<lparr>mstatus := m2\<rparr>) mpp
      in s1\<lparr>pc := mepc s1\<rparr>)"

subsection \<open>Interrupts\<close>

definition get_pending_irq_mask :: "'d cpu \<Rightarrow> u32" where
  "get_pending_irq_mask s =
     (let pending_ints = mip s AND mie s in
      if pending_ints = 0 then 0
      else pending_ints AND
        (if priv s = PRV_M then (if mstatus s AND MSTATUS_MIE \<noteq> 0 then NOT (mideleg s) else 0)
         else if priv s = PRV_S
         then (if mstatus s AND MSTATUS_SIE \<noteq> 0 then NOT (mideleg s) OR mideleg s else NOT (mideleg s))
         else - 1))"

text \<open>\<open>Some\<close> is the C function's result -1: an interrupt was taken.\<close>

definition raise_interrupt :: "'d cpu \<Rightarrow> 'd cpu option" where
  "raise_interrupt s =
     (let m = get_pending_irq_mask s in
      if m = 0 then None else Some (raise_exception s (of_nat (ctz32 m) OR CAUSE_INTERRUPT)))"

definition riscv_cpu_set_mip :: "'d cpu \<Rightarrow> u32 \<Rightarrow> 'd cpu" where
  "riscv_cpu_set_mip s m =
     (let s1 = s\<lparr>mip := mip s OR m\<rparr>
      in if power_down_flag s1 \<and> mip s1 AND mie s1 \<noteq> 0 then s1\<lparr>power_down_flag := False\<rparr> else s1)"

definition riscv_cpu_reset_mip :: "'d cpu \<Rightarrow> u32 \<Rightarrow> 'd cpu" where
  "riscv_cpu_reset_mip s m = s\<lparr>mip := mip s AND NOT m\<rparr>"

definition riscv_cpu_get_mip :: "'d cpu \<Rightarrow> u32" where
  "riscv_cpu_get_mip s = mip s"

definition riscv_cpu_get_power_down :: "'d cpu \<Rightarrow> bool" where
  "riscv_cpu_get_power_down s = power_down_flag s"

definition riscv_cpu_get_cycles :: "'d cpu \<Rightarrow> u64" where
  "riscv_cpu_get_cycles s = insn_counter s"

subsection \<open>Fields of an instruction\<close>

definition get_field1 :: "u32 \<Rightarrow> nat \<Rightarrow> nat \<Rightarrow> nat \<Rightarrow> u32" where
  "get_field1 val src_pos dst_pos dst_pos_max =
     (let msk = push_bit dst_pos (mask (dst_pos_max - dst_pos + 1)) :: u32
      in if src_pos \<le> dst_pos then push_bit (dst_pos - src_pos) val AND msk
         else drop_bit (src_pos - dst_pos) val AND msk)"

subsection \<open>Initial state\<close>

definition MCPUID_SUPER :: u32 where "MCPUID_SUPER = 0x40000"
definition MCPUID_USER :: u32 where "MCPUID_USER = 0x100000"
definition MCPUID_I :: u32 where "MCPUID_I = 0x100"
definition MCPUID_M :: u32 where "MCPUID_M = 0x1000"
definition MCPUID_A :: u32 where "MCPUID_A = 0x1"
definition MCPUID_F :: u32 where "MCPUID_F = 0x20"
definition MCPUID_D :: u32 where "MCPUID_D = 0x8"
definition MCPUID_C :: u32 where "MCPUID_C = 0x4"

lemmas misa_consts [masks] = MCPUID_SUPER_def MCPUID_USER_def MCPUID_I_def MCPUID_M_def
  MCPUID_A_def MCPUID_F_def MCPUID_D_def MCPUID_C_def

definition zero_cpu :: "mem_map_t \<Rightarrow> 'd \<Rightarrow> 'd cpu" where
  "zero_cpu mm d = \<lparr>mem_map = mm, pc = 0, reg = (\<lambda>_. 0), fp_reg = (\<lambda>_. 0), fflags = 0, frm = 0,
     cur_xlen = 0, priv = 0, fs = 0, mxl = 0, n_cycles = 0, insn_counter = 0,
     power_down_flag = False, pending_exception = 0, pending_tval = 0, mstatus = 0, mtvec = 0,
     mscratch = 0, mepc = 0, mcause = 0, mtval = 0, mhartid = 0, misa = 0, mie = 0, mip = 0,
     medeleg = 0, mideleg = 0, mcounteren = 0, stvec = 0, sscratch = 0, sepc = 0, scause = 0,
     stval = 0, satp = 0, scounteren = 0, load_res = 0,
     tlb_read = (\<lambda>_. \<lparr>te_vaddr = 0, te_addend = (0, 0)\<rparr>),
     tlb_write = (\<lambda>_. \<lparr>te_vaddr = 0, te_addend = (0, 0)\<rparr>),
     tlb_code = (\<lambda>_. \<lparr>te_vaddr = 0, te_addend = (0, 0)\<rparr>), dev = d\<rparr>"

text \<open>\<open>mxl << MSTATUS_UXL_SHIFT\<close> (32) and \<open><< MSTATUS_SXL_SHIFT\<close> (34) leave the 32-bit \<open>mstatus\<close> at 0.\<close>

definition riscv_cpu_init :: "mem_map_t \<Rightarrow> 'd \<Rightarrow> 'd cpu" where
  "riscv_cpu_init mm d =
     (let s = zero_cpu mm d;
          l = 1 :: nat
      in tlb_init (s\<lparr>pc := 0x1000, priv := PRV_M, cur_xlen := MAX_XLEN, mxl := l,
           mstatus := ucast (push_bit 32 (of_nat l :: u64) OR push_bit 34 (of_nat l :: u64)),
           misa := (((((((misa s OR MCPUID_SUPER) OR MCPUID_USER) OR MCPUID_I) OR MCPUID_M) OR
             MCPUID_A) OR MCPUID_F) OR MCPUID_D) OR MCPUID_C\<rparr>))"

end
