(* ===== verification/Riscv_Alu.thy ===== *)
theory Riscv_Alu
  imports Emu_Prelude "HOL-Library.Signed_Division"
begin

text \<open>
  Multiplication and division of \<open>riscv_cpu_template.h\<close> at \<open>XLEN = 32\<close>. A signed C value is
  read with \<open>sint\<close>; \<open>/\<close> and \<open>%\<close> on signed operands truncate towards zero (\<open>sdiv\<close>, \<open>smod\<close>).
  The 64-bit products are kept at 64 bits: in \<open>mulhu32\<close> the product of two operands above
  \<open>2 ^ 31\<close> exceeds the signed 64-bit range, and is taken to wrap around.
\<close>

section \<open>Definitions\<close>

definition div32 :: "u32 \<Rightarrow> u32 \<Rightarrow> u32" where
  "div32 a b = (if b = 0 then - 1
     else if a = push_bit 31 1 \<and> b = - 1 then a
     else word_of_int (sint a sdiv sint b))"

definition divu32 :: "u32 \<Rightarrow> u32 \<Rightarrow> u32" where
  "divu32 a b = (if b = 0 then - 1 else a div b)"

definition rem32 :: "u32 \<Rightarrow> u32 \<Rightarrow> u32" where
  "rem32 a b = (if b = 0 then a
     else if a = push_bit 31 1 \<and> b = - 1 then 0
     else word_of_int (sint a smod sint b))"

definition remu32 :: "u32 \<Rightarrow> u32 \<Rightarrow> u32" where
  "remu32 a b = (if b = 0 then a else a mod b)"

definition mulh32 :: "u32 \<Rightarrow> u32 \<Rightarrow> u32" where
  "mulh32 a b = ucast (signed_drop_bit 32 (scast a * scast b :: u64))"

definition mulhsu32 :: "u32 \<Rightarrow> u32 \<Rightarrow> u32" where
  "mulhsu32 a b = ucast (signed_drop_bit 32 (scast a * ucast b :: u64))"

definition mulhu32 :: "u32 \<Rightarrow> u32 \<Rightarrow> u32" where
  "mulhu32 a b = ucast (signed_drop_bit 32 (ucast a * ucast b :: u64))"

section \<open>Properties\<close>

lemma div_rem_word: "div32 a b * b + rem32 a b = a"
proof (cases "b = 0 \<or> (a = push_bit 31 1 \<and> b = - 1)")
  case True
  then show ?thesis by (auto simp: div32_def rem32_def)
next
  case False
  have "word_of_int (sint a sdiv sint b * sint b + sint a smod sint b) = (word_of_int (sint a) :: u32)"
    by (simp only: sdiv_mult_smod_eq)
  then have "word_of_int (sint a sdiv sint b) * b + word_of_int (sint a smod sint b) = a"
    by (simp only: of_int_add of_int_mult of_int_sint scast_id)
  with False show ?thesis by (auto simp: div32_def rem32_def)
qed

lemma signed_high: "ucast (signed_drop_bit 32 (w :: u64)) = (ucast (drop_bit 32 w) :: u32)"
  by (rule bit_word_eqI) (auto simp: bit_simps)

lemma high_of_int:
  assumes "w = (word_of_int p :: u64)"
  shows "(ucast (drop_bit 32 w) :: u32) = word_of_int (p div 2 ^ 32)"
proof -
  have e: "p div 2 ^ 32 = drop_bit 32 p" by (rule drop_bit_eq_div [symmetric])
  show ?thesis unfolding e assms
    by (rule bit_word_eqI) (auto simp: bit_unsigned_iff bit_drop_bit_eq bit_word_of_int_iff)
qed

lemma mulh32_eq: "mulh32 a b = word_of_int (sint a * sint b div 2 ^ 32)"
  unfolding mulh32_def signed_high
  by (rule high_of_int) (simp only: scast_eq of_int_mult)

lemma mulhsu32_eq: "mulhsu32 a b = word_of_int (sint a * uint b div 2 ^ 32)"
  unfolding mulhsu32_def signed_high
  by (rule high_of_int) (simp only: scast_eq ucast_eq of_int_mult)

lemma mulhu32_eq: "mulhu32 a b = word_of_int (uint a * uint b div 2 ^ 32)"
  unfolding mulhu32_def signed_high
  by (rule high_of_int) (simp only: ucast_eq of_int_mult)

lemma rem32_bounds:
  assumes "b \<noteq> 0"
  shows "\<bar>sint (rem32 a b)\<bar> < \<bar>sint b\<bar> \<and> (sint (rem32 a b) \<noteq> 0 \<longrightarrow> (sint (rem32 a b) < 0) = (sint a < 0))"
proof -
  have sb: "sint b \<noteq> 0" using assms by (simp only: signed_eq_0_iff) simp
  have b31: "- (2 ^ 31) \<le> sint b" "sint b < 2 ^ 31"
    using sint_ge [of b] sint_less [of b] by simp_all
  have ab: "\<bar>sint a smod sint b\<bar> < \<bar>sint b\<bar>"
    using sb by (simp add: signed_modulo_int_def abs_mult sgn_if)
  then have r: "- (2 ^ 31) \<le> sint a smod sint b" "sint a smod sint b < 2 ^ 31"
    using b31 by linarith+
  then have e: "sint (word_of_int (sint a smod sint b) :: u32) = sint a smod sint b"
    using r by (simp add: int_word_sint mod_pos_pos_trivial)
  have s: "sint a smod sint b \<noteq> 0 \<Longrightarrow> (sint a smod sint b < 0) = (sint a < 0)"
    by (auto simp: signed_modulo_int_def sgn_if mult_less_0_iff split: if_splits)
      (metis abs_ge_zero abs_of_nonneg mod_int_pos_iff not_less zero_less_abs_iff sb)+
  show ?thesis
  proof (cases "a = push_bit 31 1 \<and> b = - 1")
    case True
    then show ?thesis by (simp add: rem32_def)
  next
    case False
    then have "sint (rem32 a b) = sint a smod sint b" using assms e by (auto simp: rem32_def)
    then show ?thesis using ab s by simp
  qed
qed

text \<open>
  C21. Signed division and remainder always satisfy \<open>a = (a / b) * b + a % b\<close> at 32 bits, by zero and
  on overflow included; and for a non-zero divisor the remainder is smaller than it and has
  the sign of the dividend.
\<close>

theorem div_rem_correct:
  "div32 a b * b + rem32 a b = a \<and>
   (b \<noteq> 0 \<longrightarrow> \<bar>sint (rem32 a b)\<bar> < \<bar>sint b\<bar> \<and>
     (sint (rem32 a b) \<noteq> 0 \<longrightarrow> (sint (rem32 a b) < 0) = (sint a < 0)))"
  using div_rem_word rem32_bounds by blast

theorem div_rem_correct_witness:
  "\<bar>sint (rem32 (- 7) 2)\<bar> < \<bar>sint (2 :: u32)\<bar> \<and> div32 (- 7) 2 = - 3"
  using div_rem_correct [of "- 7" 2] by (simp add: div32_def)

text \<open>
  The high-word products are the upper 32 bits of the exact 64-bit products: signed, signed by
  unsigned, and unsigned, the last one although the C product overflows the signed 64-bit type.
\<close>

theorem mulh_correct:
  "mulh32 a b = word_of_int (sint a * sint b div 2 ^ 32) \<and>
   mulhsu32 a b = word_of_int (sint a * uint b div 2 ^ 32) \<and>
   mulhu32 a b = word_of_int (uint a * uint b div 2 ^ 32)"
  using mulh32_eq mulhsu32_eq mulhu32_eq by blast

end
