(* ===== verification/Riscv_Insn.thy ===== *)
theory Riscv_Insn
  imports Riscv_Csr Riscv_Alu
begin

text \<open>
  The integer, memory, system and atomic instructions of \<open>riscv_cpu_template.h\<close> at
  \<open>XLEN = 32\<close>: one definition per case of the main \<open>switch\<close>. A case gets the instruction word,
  the address \<open>GET_PC()\<close> of the instruction and the state, and returns how the loop goes on (the
  \<open>goto\<close> the C code takes) with the new state.
\<close>

section \<open>Definitions\<close>

text \<open>
  \<open>NEXT_INSN\<close> and \<open>C_NEXT_INSN\<close> advance by 4 and 2 bytes; \<open>JUMP_INSN\<close> continues at \<open>s->pc\<close>;
  the others are the labels \<open>illegal_insn\<close>, \<open>mmu_exception\<close>/\<open>exception\<close> and \<open>done_interp\<close>.
\<close>

datatype flow = NEXT_INSN | C_NEXT_INSN | JUMP_INSN | ILLEGAL_INSN | EXCEPTION_INSN | DONE_INTERP

type_synonym 'd outcome = "(flow \<times> 'd cpu) option"

definition set_reg :: "'d cpu \<Rightarrow> nat \<Rightarrow> u32 \<Rightarrow> 'd cpu" where
  "set_reg s r v = s\<lparr>reg := (reg s)(r := v)\<rparr>"

definition set_rd :: "'d cpu \<Rightarrow> nat \<Rightarrow> u32 \<Rightarrow> 'd cpu" where
  "set_rd s rd v = (if rd \<noteq> 0 then set_reg s rd v else s)"

definition set_fp :: "'d cpu \<Rightarrow> nat \<Rightarrow> u64 \<Rightarrow> 'd cpu" where
  "set_fp s r v = s\<lparr>fp_reg := (fp_reg s)(r := v)\<rparr>"

definition insn_rd :: "u32 \<Rightarrow> nat" where "insn_rd insn = unat (drop_bit 7 insn AND 0x1f)"
definition insn_rs1 :: "u32 \<Rightarrow> nat" where "insn_rs1 insn = unat (drop_bit 15 insn AND 0x1f)"
definition insn_rs2 :: "u32 \<Rightarrow> nat" where "insn_rs2 insn = unat (drop_bit 20 insn AND 0x1f)"
definition insn_funct3 :: "u32 \<Rightarrow> nat" where "insn_funct3 insn = unat (drop_bit 12 insn AND 7)"
definition c_funct3 :: "u32 \<Rightarrow> nat" where "c_funct3 insn = unat (drop_bit 13 insn AND 7)"
definition c_reg :: "nat \<Rightarrow> u32 \<Rightarrow> nat" where "c_reg pos insn = unat ((drop_bit pos insn AND 7) OR 8)"
definition imm_i :: "u32 \<Rightarrow> u32" where "imm_i insn = signed_drop_bit 20 insn"

definition imm_s :: "u32 \<Rightarrow> u32" where
  "imm_s insn = sext ((drop_bit 7 insn AND 0x1f) OR (drop_bit (25 - 5) insn AND 0xfe0)) 12"

definition F64_HIGH :: u64 where "F64_HIGH = 0"

lemmas insn_fields [cdefs] = insn_rd_def insn_rs1_def insn_rs2_def insn_funct3_def c_funct3_def
  c_reg_def imm_i_def imm_s_def sext_def

text \<open>A load and what is done with its value; a store and where the loop goes on.\<close>

definition load_then ::
    "'d dev_ops \<Rightarrow> nat \<Rightarrow> u32 \<Rightarrow> 'd cpu \<Rightarrow> (u64 \<Rightarrow> 'd cpu \<Rightarrow> 'd outcome) \<Rightarrow> 'd outcome" where
  "load_then D size_log2 addr s k =
     do { (r, s1) \<leftarrow> target_read D size_log2 addr s;
          case r of ERR \<Rightarrow> Some (EXCEPTION_INSN, s1) | OK v \<Rightarrow> k v s1 }"

definition store_then ::
    "'d dev_ops \<Rightarrow> nat \<Rightarrow> u32 \<Rightarrow> u64 \<Rightarrow> 'd cpu \<Rightarrow> ('d cpu \<Rightarrow> 'd outcome) \<Rightarrow> 'd outcome" where
  "store_then D size_log2 addr v s k =
     do { (r, s1) \<leftarrow> target_write D size_log2 addr v s;
          case r of ERR \<Rightarrow> Some (EXCEPTION_INSN, s1) | OK _ \<Rightarrow> k s1 }"

subsection \<open>Compressed instructions, quadrant 0\<close>

definition imm_cw :: "u32 \<Rightarrow> u32" where
  "imm_cw insn = get_field1 insn 10 3 5 OR get_field1 insn 6 2 2 OR get_field1 insn 5 6 6"

definition imm_cd :: "u32 \<Rightarrow> u32" where
  "imm_cd insn = get_field1 insn 10 3 5 OR get_field1 insn 5 6 7"

definition exec_c0 :: "'d dev_ops \<Rightarrow> u32 \<Rightarrow> u32 \<Rightarrow> 'd cpu \<Rightarrow> 'd outcome" where
  "exec_c0 D insn gpc s =
     (let funct3 = c_funct3 insn;
          rd = c_reg 2 insn;
          rs1 = c_reg 7 insn
      in if funct3 = 0
         then let imm = get_field1 insn 11 4 5 OR get_field1 insn 7 6 9 OR get_field1 insn 6 2 2 OR
                        get_field1 insn 5 3 3
              in if imm = 0 then Some (ILLEGAL_INSN, s)
                 else Some (C_NEXT_INSN, set_reg s rd (reg s 2 + imm))
         else if funct3 = 1
         then (if fs s = 0 then Some (ILLEGAL_INSN, s)
               else load_then D 3 (reg s rs1 + imm_cd insn) s (\<lambda>rval s1.
                 Some (C_NEXT_INSN, (set_fp s1 rd (rval OR F64_HIGH))\<lparr>fs := 3\<rparr>)))
         else if funct3 = 2
         then load_then D 2 (reg s rs1 + imm_cw insn) s (\<lambda>rval s1.
                Some (C_NEXT_INSN, set_reg s1 rd (ucast rval)))
         else if funct3 = 3
         then (if fs s = 0 then Some (ILLEGAL_INSN, s)
               else load_then D 2 (reg s rs1 + imm_cw insn) s (\<lambda>rval s1.
                 Some (C_NEXT_INSN, (set_fp s1 rd (rval OR F32_HIGH))\<lparr>fs := 3\<rparr>)))
         else if funct3 = 5
         then (if fs s = 0 then Some (ILLEGAL_INSN, s)
               else store_then D 3 (reg s rs1 + imm_cd insn) (fp_reg s rd) s
                 (\<lambda>s1. Some (C_NEXT_INSN, s1)))
         else if funct3 = 6
         then store_then D 2 (reg s rs1 + imm_cw insn) (ucast (reg s rd)) s
                (\<lambda>s1. Some (C_NEXT_INSN, s1))
         else if funct3 = 7
         then (if fs s = 0 then Some (ILLEGAL_INSN, s)
               else store_then D 2 (reg s rs1 + imm_cw insn) (take_bit 32 (fp_reg s rd)) s
                 (\<lambda>s1. Some (C_NEXT_INSN, s1)))
         else Some (ILLEGAL_INSN, s))"

subsection \<open>Compressed instructions, quadrant 1\<close>

definition imm_ci :: "u32 \<Rightarrow> u32" where
  "imm_ci insn = sext (get_field1 insn 12 5 5 OR get_field1 insn 2 0 4) 6"

definition imm_cj :: "u32 \<Rightarrow> u32" where
  "imm_cj insn = sext (get_field1 insn 12 11 11 OR get_field1 insn 11 4 4 OR
     get_field1 insn 9 8 9 OR get_field1 insn 8 10 10 OR get_field1 insn 7 6 6 OR
     get_field1 insn 6 7 7 OR get_field1 insn 3 1 3 OR get_field1 insn 2 5 5) 12"

definition imm_cb :: "u32 \<Rightarrow> u32" where
  "imm_cb insn = sext (get_field1 insn 12 8 8 OR get_field1 insn 10 3 4 OR
     get_field1 insn 5 6 7 OR get_field1 insn 3 1 2 OR get_field1 insn 2 5 5) 9"

definition exec_c1_alu :: "u32 \<Rightarrow> 'd cpu \<Rightarrow> 'd outcome" where
  "exec_c1_alu insn s =
     (let funct3 = unat (drop_bit 10 insn AND 3);
          rd = c_reg 7 insn
      in if funct3 = 0 \<or> funct3 = 1
         then let imm = get_field1 insn 12 5 5 OR get_field1 insn 2 0 4
              in if imm AND 0x20 \<noteq> 0 then Some (ILLEGAL_INSN, s)
                 else if funct3 = 0
                 then Some (C_NEXT_INSN, set_reg s rd (drop_bit (unat imm) (reg s rd)))
                 else Some (C_NEXT_INSN, set_reg s rd (signed_drop_bit (unat imm) (reg s rd)))
         else if funct3 = 2
         then Some (C_NEXT_INSN, set_reg s rd (reg s rd AND imm_ci insn))
         else let rs2 = c_reg 2 insn;
                  funct3 = unat ((drop_bit 5 insn AND 3) OR (drop_bit (12 - 2) insn AND 4))
              in if funct3 = 0 then Some (C_NEXT_INSN, set_reg s rd (reg s rd - reg s rs2))
                 else if funct3 = 1 then Some (C_NEXT_INSN, set_reg s rd (reg s rd XOR reg s rs2))
                 else if funct3 = 2 then Some (C_NEXT_INSN, set_reg s rd (reg s rd OR reg s rs2))
                 else if funct3 = 3 then Some (C_NEXT_INSN, set_reg s rd (reg s rd AND reg s rs2))
                 else Some (ILLEGAL_INSN, s))"

definition exec_c1 :: "u32 \<Rightarrow> u32 \<Rightarrow> 'd cpu \<Rightarrow> 'd outcome" where
  "exec_c1 insn gpc s =
     (let funct3 = c_funct3 insn;
          rd = insn_rd insn
      in if funct3 = 0 then Some (C_NEXT_INSN, set_rd s rd (reg s rd + imm_ci insn))
         else if funct3 = 1
         then Some (JUMP_INSN, (set_reg s 1 (gpc + 2))\<lparr>pc := gpc + imm_cj insn\<rparr>)
         else if funct3 = 2 then Some (C_NEXT_INSN, set_rd s rd (imm_ci insn))
         else if funct3 = 3
         then (if rd = 2
               then let imm = sext (get_field1 insn 12 9 9 OR get_field1 insn 6 4 4 OR
                                get_field1 insn 5 6 6 OR get_field1 insn 3 7 8 OR
                                get_field1 insn 2 5 5) 10
                    in if imm = 0 then Some (ILLEGAL_INSN, s)
                       else Some (C_NEXT_INSN, set_reg s 2 (reg s 2 + imm))
               else Some (C_NEXT_INSN, set_rd s rd
                      (sext (get_field1 insn 12 17 17 OR get_field1 insn 2 12 16) 18)))
         else if funct3 = 4 then exec_c1_alu insn s
         else if funct3 = 5 then Some (JUMP_INSN, s\<lparr>pc := gpc + imm_cj insn\<rparr>)
         else if funct3 = 6
         then (if reg s (c_reg 7 insn) = 0 then Some (JUMP_INSN, s\<lparr>pc := gpc + imm_cb insn\<rparr>)
               else Some (C_NEXT_INSN, s))
         else (if reg s (c_reg 7 insn) \<noteq> 0 then Some (JUMP_INSN, s\<lparr>pc := gpc + imm_cb insn\<rparr>)
               else Some (C_NEXT_INSN, s)))"

subsection \<open>Compressed instructions, quadrant 2\<close>

definition exec_c2_mem :: "'d dev_ops \<Rightarrow> u32 \<Rightarrow> 'd cpu \<Rightarrow> 'd outcome" where
  "exec_c2_mem D insn s =
     (let funct3 = c_funct3 insn;
          rd = insn_rd insn;
          rs2 = drop_bit 2 insn AND 0x1f;
          imm_lw = get_field1 insn 12 5 5 OR (rs2 AND push_bit 2 7) OR get_field1 insn 2 6 7;
          imm_ld = get_field1 insn 12 5 5 OR (rs2 AND push_bit 3 3) OR get_field1 insn 2 6 8;
          imm_sd = get_field1 insn 10 3 5 OR get_field1 insn 7 6 8;
          imm_sw = get_field1 insn 9 2 5 OR get_field1 insn 7 6 7
      in if funct3 = 1
         then (if fs s = 0 then Some (ILLEGAL_INSN, s)
               else load_then D 3 (reg s 2 + imm_ld) s (\<lambda>rval s1.
                 Some (C_NEXT_INSN, (set_fp s1 rd (rval OR F64_HIGH))\<lparr>fs := 3\<rparr>)))
         else if funct3 = 2
         then load_then D 2 (reg s 2 + imm_lw) s (\<lambda>rval s1.
                Some (C_NEXT_INSN, set_rd s1 rd (ucast rval)))
         else if funct3 = 3
         then (if fs s = 0 then Some (ILLEGAL_INSN, s)
               else load_then D 2 (reg s 2 + imm_lw) s (\<lambda>rval s1.
                 Some (C_NEXT_INSN, (set_fp s1 rd (rval OR F32_HIGH))\<lparr>fs := 3\<rparr>)))
         else if funct3 = 5
         then (if fs s = 0 then Some (ILLEGAL_INSN, s)
               else store_then D 3 (reg s 2 + imm_sd) (fp_reg s (unat rs2)) s
                 (\<lambda>s1. Some (C_NEXT_INSN, s1)))
         else if funct3 = 6
         then store_then D 2 (reg s 2 + imm_sw) (ucast (reg s (unat rs2))) s
                (\<lambda>s1. Some (C_NEXT_INSN, s1))
         else (if fs s = 0 then Some (ILLEGAL_INSN, s)
               else store_then D 2 (reg s 2 + imm_sw) (take_bit 32 (fp_reg s (unat rs2))) s
                 (\<lambda>s1. Some (C_NEXT_INSN, s1))))"

definition exec_c2 :: "'d dev_ops \<Rightarrow> u32 \<Rightarrow> u32 \<Rightarrow> 'd cpu \<Rightarrow> 'd outcome" where
  "exec_c2 D insn gpc s =
     (let funct3 = c_funct3 insn;
          rd = insn_rd insn;
          rs2 = unat (drop_bit 2 insn AND 0x1f)
      in if funct3 = 0
         then let imm = get_field1 insn 12 5 5 OR of_nat rs2
              in if imm AND 0x20 \<noteq> 0 then Some (ILLEGAL_INSN, s)
                 else Some (C_NEXT_INSN, set_rd s rd (push_bit (unat imm) (reg s rd)))
         else if funct3 = 4
         then (if drop_bit 12 insn AND 1 = 0
               then (if rs2 = 0
                     then (if rd = 0 then Some (ILLEGAL_INSN, s)
                           else Some (JUMP_INSN, s\<lparr>pc := reg s rd AND NOT 1\<rparr>))
                     else Some (C_NEXT_INSN, set_rd s rd (reg s rs2)))
               else (if rs2 = 0
                     then (if rd = 0
                           then Some (EXCEPTION_INSN, s\<lparr>pending_exception := CAUSE_BREAKPOINT\<rparr>)
                           else Some (JUMP_INSN, set_reg (s\<lparr>pc := reg s rd AND NOT 1\<rparr>) 1 (gpc + 2)))
                     else Some (C_NEXT_INSN, set_rd s rd (reg s rd + reg s rs2))))
         else exec_c2_mem D insn s)"

subsection \<open>Jumps and branches\<close>

definition exec_lui :: "u32 \<Rightarrow> 'd cpu \<Rightarrow> 'd outcome" where
  "exec_lui insn s = Some (NEXT_INSN, set_rd s (insn_rd insn) (insn AND 0xfffff000))"

definition exec_auipc :: "u32 \<Rightarrow> u32 \<Rightarrow> 'd cpu \<Rightarrow> 'd outcome" where
  "exec_auipc insn gpc s = Some (NEXT_INSN, set_rd s (insn_rd insn) (gpc + (insn AND 0xfffff000)))"

definition imm_j :: "u32 \<Rightarrow> u32" where
  "imm_j insn = sext ((drop_bit (31 - 20) insn AND push_bit 20 1) OR (drop_bit (21 - 1) insn AND 0x7fe) OR
     (drop_bit (20 - 11) insn AND push_bit 11 1) OR (insn AND 0xff000)) 21"

definition exec_jal :: "u32 \<Rightarrow> u32 \<Rightarrow> 'd cpu \<Rightarrow> 'd outcome" where
  "exec_jal insn gpc s =
     Some (JUMP_INSN, (set_rd s (insn_rd insn) (gpc + 4))\<lparr>pc := gpc + imm_j insn\<rparr>)"

definition exec_jalr :: "u32 \<Rightarrow> u32 \<Rightarrow> 'd cpu \<Rightarrow> 'd outcome" where
  "exec_jalr insn gpc s =
     Some (JUMP_INSN, set_rd (s\<lparr>pc := (reg s (insn_rs1 insn) + imm_i insn) AND NOT 1\<rparr>)
       (insn_rd insn) (gpc + 4))"

definition imm_b :: "u32 \<Rightarrow> u32" where
  "imm_b insn = sext ((drop_bit (31 - 12) insn AND push_bit 12 1) OR (drop_bit (25 - 5) insn AND 0x7e0) OR
     (drop_bit (8 - 1) insn AND 0x1e) OR (push_bit (11 - 7) insn AND push_bit 11 1)) 13"

definition branch_cond :: "nat \<Rightarrow> u32 \<Rightarrow> u32 \<Rightarrow> bool option" where
  "branch_cond funct3 a b =
     (let k = funct3 div 2; neg = odd funct3
      in if k = 0 then Some ((a = b) \<noteq> neg)
         else if k = 2 then Some ((sint a < sint b) \<noteq> neg)
         else if k = 3 then Some ((a < b) \<noteq> neg)
         else None)"

definition exec_branch :: "u32 \<Rightarrow> u32 \<Rightarrow> 'd cpu \<Rightarrow> 'd outcome" where
  "exec_branch insn gpc s =
     (case branch_cond (insn_funct3 insn) (reg s (insn_rs1 insn)) (reg s (insn_rs2 insn)) of
        None \<Rightarrow> Some (ILLEGAL_INSN, s)
      | Some c \<Rightarrow> if c then Some (JUMP_INSN, s\<lparr>pc := gpc + imm_b insn\<rparr>) else Some (NEXT_INSN, s))"

subsection \<open>Loads and stores\<close>

definition exec_load :: "'d dev_ops \<Rightarrow> u32 \<Rightarrow> 'd cpu \<Rightarrow> 'd outcome" where
  "exec_load D insn s =
     (let funct3 = insn_funct3 insn;
          addr = reg s (insn_rs1 insn) + imm_i insn;
          fin = (\<lambda>v s1. Some (NEXT_INSN, set_rd s1 (insn_rd insn) v))
      in if funct3 = 0 then load_then D 0 addr s (\<lambda>v. fin (scast (ucast v :: u8)))
         else if funct3 = 1 then load_then D 1 addr s (\<lambda>v. fin (scast (ucast v :: u16)))
         else if funct3 = 2 then load_then D 2 addr s (\<lambda>v. fin (ucast v))
         else if funct3 = 4 then load_then D 0 addr s (\<lambda>v. fin (ucast v))
         else if funct3 = 5 then load_then D 1 addr s (\<lambda>v. fin (ucast v))
         else Some (ILLEGAL_INSN, s))"

definition exec_store :: "'d dev_ops \<Rightarrow> u32 \<Rightarrow> 'd cpu \<Rightarrow> 'd outcome" where
  "exec_store D insn s =
     (let funct3 = insn_funct3 insn;
          addr = reg s (insn_rs1 insn) + imm_s insn;
          val = reg s (insn_rs2 insn);
          fin = (\<lambda>s1. Some (NEXT_INSN, s1))
      in if funct3 = 0 then store_then D 0 addr (ucast (take_bit 8 val)) s fin
         else if funct3 = 1 then store_then D 1 addr (ucast (take_bit 16 val)) s fin
         else if funct3 = 2 then store_then D 2 addr (ucast val) s fin
         else Some (ILLEGAL_INSN, s))"

subsection \<open>Arithmetic\<close>

definition op_imm :: "nat \<Rightarrow> u32 \<Rightarrow> u32 \<Rightarrow> u32 res" where
  "op_imm funct3 a imm =
     (if funct3 = 0 then OK (a + imm)
      else if funct3 = 1
      then (if imm AND NOT 31 \<noteq> 0 then ERR else OK (push_bit (unat (imm AND 31)) a))
      else if funct3 = 2 then OK (of_bool_u32 (sint a < sint imm))
      else if funct3 = 3 then OK (of_bool_u32 (a < imm))
      else if funct3 = 4 then OK (a XOR imm)
      else if funct3 = 5
      then (if imm AND NOT (31 OR 0x400) \<noteq> 0 then ERR
            else if imm AND 0x400 \<noteq> 0 then OK (signed_drop_bit (unat (imm AND 31)) a)
            else OK (drop_bit (unat (imm AND 31)) a))
      else if funct3 = 6 then OK (a OR imm)
      else OK (a AND imm))"

definition exec_op_imm :: "u32 \<Rightarrow> 'd cpu \<Rightarrow> 'd outcome" where
  "exec_op_imm insn s =
     (case op_imm (insn_funct3 insn) (reg s (insn_rs1 insn)) (imm_i insn) of
        ERR \<Rightarrow> Some (ILLEGAL_INSN, s) | OK v \<Rightarrow> Some (NEXT_INSN, set_rd s (insn_rd insn) v))"

definition op_muldiv :: "nat \<Rightarrow> u32 \<Rightarrow> u32 \<Rightarrow> u32" where
  "op_muldiv funct3 a b =
     (if funct3 = 0 then a * b
      else if funct3 = 1 then mulh32 a b
      else if funct3 = 2 then mulhsu32 a b
      else if funct3 = 3 then mulhu32 a b
      else if funct3 = 4 then div32 a b
      else if funct3 = 5 then divu32 a b
      else if funct3 = 6 then rem32 a b
      else remu32 a b)"

definition op_reg :: "nat \<Rightarrow> u32 \<Rightarrow> u32 \<Rightarrow> u32 res" where
  "op_reg funct3 a b =
     (let sh = unat (b AND 31) in
      if funct3 = 0 then OK (a + b)
      else if funct3 = 8 then OK (a - b)
      else if funct3 = 1 then OK (push_bit sh a)
      else if funct3 = 2 then OK (of_bool_u32 (sint a < sint b))
      else if funct3 = 3 then OK (of_bool_u32 (a < b))
      else if funct3 = 4 then OK (a XOR b)
      else if funct3 = 5 then OK (drop_bit sh a)
      else if funct3 = 13 then OK (signed_drop_bit sh a)
      else if funct3 = 6 then OK (a OR b)
      else if funct3 = 7 then OK (a AND b)
      else ERR)"

definition exec_op :: "u32 \<Rightarrow> 'd cpu \<Rightarrow> 'd outcome" where
  "exec_op insn s =
     (let imm = drop_bit 25 insn;
          a = reg s (insn_rs1 insn);
          b = reg s (insn_rs2 insn)
      in if imm = 1 then Some (NEXT_INSN, set_rd s (insn_rd insn) (op_muldiv (insn_funct3 insn) a b))
         else if imm AND NOT 0x20 \<noteq> 0 then Some (ILLEGAL_INSN, s)
         else case op_reg (unat ((drop_bit 12 insn AND 7) OR (drop_bit (30 - 3) insn AND 8))) a b of
                ERR \<Rightarrow> Some (ILLEGAL_INSN, s)
              | OK v \<Rightarrow> Some (NEXT_INSN, set_rd s (insn_rd insn) v))"

subsection \<open>System instructions\<close>

text \<open>\<open>ica\<close> is \<open>insn_counter_addend\<close>.\<close>

definition GET_INSN_COUNTER :: "u64 \<Rightarrow> 'd cpu \<Rightarrow> u64" where
  "GET_INSN_COUNTER ica s = ica - word_of_int (n_cycles s)"

definition csr_operand :: "u32 \<Rightarrow> 'd cpu \<Rightarrow> u32" where
  "csr_operand insn s =
     (if insn_funct3 insn AND 4 \<noteq> 0 then of_nat (insn_rs1 insn) else reg s (insn_rs1 insn))"

text \<open>The end of a CSR instruction, after \<open>csr_write\<close> returned \<open>err\<close>.\<close>

definition csr_finish :: "u32 \<Rightarrow> u32 \<Rightarrow> u32 \<Rightarrow> int \<Rightarrow> 'd cpu \<Rightarrow> 'd outcome" where
  "csr_finish insn gpc val2 err s =
     (let s1 = set_rd s (insn_rd insn) val2
      in if err > 0
         then (if err = 2 then Some (JUMP_INSN, s1\<lparr>pc := gpc + 4\<rparr>)
               else Some (DONE_INTERP, s1\<lparr>pc := gpc + 4\<rparr>))
         else Some (NEXT_INSN, s1))"

definition exec_csrrw :: "u32 \<Rightarrow> u32 \<Rightarrow> u64 \<Rightarrow> 'd cpu \<Rightarrow> 'd outcome" where
  "exec_csrrw insn gpc ica s =
     (let csr = drop_bit 20 insn;
          val = csr_operand insn s;
          s1 = s\<lparr>insn_counter := GET_INSN_COUNTER ica s\<rparr>
      in case csr_read s1 csr True of
           ERR \<Rightarrow> Some (ILLEGAL_INSN, s1)
         | OK val2 \<Rightarrow>
             (let (err, s2) = csr_write s1 csr val
              in if err < 0 then Some (ILLEGAL_INSN, s2) else csr_finish insn gpc val2 err s2))"

definition exec_csrrsc :: "u32 \<Rightarrow> u32 \<Rightarrow> u64 \<Rightarrow> 'd cpu \<Rightarrow> 'd outcome" where
  "exec_csrrsc insn gpc ica s =
     (let csr = drop_bit 20 insn;
          val = csr_operand insn s;
          rs1 = insn_rs1 insn;
          s1 = s\<lparr>insn_counter := GET_INSN_COUNTER ica s\<rparr>
      in case csr_read s1 csr (rs1 \<noteq> 0) of
           ERR \<Rightarrow> Some (ILLEGAL_INSN, s1)
         | OK val2 \<Rightarrow>
             (if rs1 \<noteq> 0
              then (let (err, s2) = csr_write s1 csr
                          (if insn_funct3 insn AND 3 = 2 then val2 OR val else val2 AND NOT val)
                    in if err < 0 then Some (ILLEGAL_INSN, s2) else csr_finish insn gpc val2 err s2)
              else csr_finish insn gpc val2 0 s1))"

definition exec_priv :: "u32 \<Rightarrow> u32 \<Rightarrow> 'd cpu \<Rightarrow> 'd outcome" where
  "exec_priv insn gpc s =
     (let imm = drop_bit 20 insn in
      if imm = 0x000
      then (if insn AND 0x000fff80 \<noteq> 0 then Some (ILLEGAL_INSN, s)
            else Some (EXCEPTION_INSN, s\<lparr>pending_exception := CAUSE_USER_ECALL + int (priv s)\<rparr>))
      else if imm = 0x001
      then (if insn AND 0x000fff80 \<noteq> 0 then Some (ILLEGAL_INSN, s)
            else Some (EXCEPTION_INSN, s\<lparr>pending_exception := CAUSE_BREAKPOINT\<rparr>))
      else if imm = 0x102
      then (if insn AND 0x000fff80 \<noteq> 0 then Some (ILLEGAL_INSN, s)
            else if priv s < PRV_S then Some (ILLEGAL_INSN, s)
            else Some (DONE_INTERP, handle_sret (s\<lparr>pc := gpc\<rparr>)))
      else if imm = 0x302
      then (if insn AND 0x000fff80 \<noteq> 0 then Some (ILLEGAL_INSN, s)
            else if priv s < PRV_M then Some (ILLEGAL_INSN, s)
            else Some (DONE_INTERP, handle_mret (s\<lparr>pc := gpc\<rparr>)))
      else if imm = 0x105
      then (if insn AND 0x00007f80 \<noteq> 0 then Some (ILLEGAL_INSN, s)
            else if priv s = PRV_U then Some (ILLEGAL_INSN, s)
            else if mip s AND mie s = 0
            then Some (DONE_INTERP, s\<lparr>power_down_flag := True, pc := gpc + 4\<rparr>)
            else Some (NEXT_INSN, s))
      else if drop_bit 5 imm = 0x09
      then (if insn AND 0x00007f80 \<noteq> 0 then Some (ILLEGAL_INSN, s)
            else if priv s = PRV_U then Some (ILLEGAL_INSN, s)
            else let s1 = (if insn_rs1 insn = 0 then tlb_flush_all s
                           else tlb_flush_vaddr s (reg s (insn_rs1 insn)))
                 in Some (JUMP_INSN, s1\<lparr>pc := gpc + 4\<rparr>))
      else Some (ILLEGAL_INSN, s))"

definition exec_system :: "u32 \<Rightarrow> u32 \<Rightarrow> u64 \<Rightarrow> 'd cpu \<Rightarrow> 'd outcome" where
  "exec_system insn gpc ica s =
     (let funct3 = insn_funct3 insn AND 3 in
      if funct3 = 1 then exec_csrrw insn gpc ica s
      else if funct3 = 2 \<or> funct3 = 3 then exec_csrrsc insn gpc ica s
      else exec_priv insn gpc s)"

definition exec_fence :: "u32 \<Rightarrow> 'd cpu \<Rightarrow> 'd outcome" where
  "exec_fence insn s =
     (if insn_funct3 insn = 0
      then (if insn AND 0xf00fff80 \<noteq> 0 then Some (ILLEGAL_INSN, s) else Some (NEXT_INSN, s))
      else if insn_funct3 insn = 1
      then (if insn \<noteq> 0x0000100f then Some (ILLEGAL_INSN, s) else Some (NEXT_INSN, s))
      else Some (ILLEGAL_INSN, s))"

subsection \<open>Atomics\<close>

text \<open>The value an AMO stores, from the old value \<open>val\<close> and the operand \<open>val2\<close>.\<close>

definition amo_value :: "nat \<Rightarrow> u32 \<Rightarrow> u32 \<Rightarrow> u32 option" where
  "amo_value funct5 val val2 =
     (if funct5 = 1 then Some val2
      else if funct5 = 0 then Some (val + val2)
      else if funct5 = 4 then Some (val XOR val2)
      else if funct5 = 0xc then Some (val AND val2)
      else if funct5 = 0x8 then Some (val OR val2)
      else if funct5 = 0x10 then Some (if sint val < sint val2 then val else val2)
      else if funct5 = 0x14 then Some (if sint val > sint val2 then val else val2)
      else if funct5 = 0x18 then Some (if val < val2 then val else val2)
      else if funct5 = 0x1c then Some (if val > val2 then val else val2)
      else None)"

definition exec_amo :: "'d dev_ops \<Rightarrow> u32 \<Rightarrow> 'd cpu \<Rightarrow> 'd outcome" where
  "exec_amo D insn s =
     (if insn_funct3 insn \<noteq> 2 then Some (ILLEGAL_INSN, s)
      else let addr = reg s (insn_rs1 insn);
               funct5 = unat (drop_bit 27 insn);
               rd = insn_rd insn
        in if funct5 = 2
           then (if insn_rs2 insn \<noteq> 0 then Some (ILLEGAL_INSN, s)
                 else load_then D 2 addr s (\<lambda>rval s1.
                   Some (NEXT_INSN, set_rd (s1\<lparr>load_res := addr\<rparr>) rd (ucast rval))))
           else if funct5 = 3
           then (if load_res s = addr
                 then store_then D 2 addr (ucast (reg s (insn_rs2 insn))) s
                        (\<lambda>s1. Some (NEXT_INSN, set_rd s1 rd 0))
                 else Some (NEXT_INSN, set_rd s rd 1))
           else if amo_value funct5 0 0 \<noteq> None
           then load_then D 2 addr s (\<lambda>rval s1.
                  (case amo_value funct5 (ucast rval) (reg s1 (insn_rs2 insn)) of
                     None \<Rightarrow> Some (ILLEGAL_INSN, s1)
                   | Some v \<Rightarrow> store_then D 2 addr (ucast v) s1
                       (\<lambda>s2. Some (NEXT_INSN, set_rd s2 rd (ucast rval)))))
           else Some (ILLEGAL_INSN, s))"

subsection \<open>Floating-point loads and stores\<close>

definition exec_fp_load :: "'d dev_ops \<Rightarrow> u32 \<Rightarrow> 'd cpu \<Rightarrow> 'd outcome" where
  "exec_fp_load D insn s =
     (if fs s = 0 then Some (ILLEGAL_INSN, s)
      else let funct3 = insn_funct3 insn;
               addr = reg s (insn_rs1 insn) + imm_i insn;
               rd = insn_rd insn
        in if funct3 = 2
           then load_then D 2 addr s (\<lambda>rval s1.
                  Some (NEXT_INSN, (set_fp s1 rd (rval OR F32_HIGH))\<lparr>fs := 3\<rparr>))
           else if funct3 = 3
           then load_then D 3 addr s (\<lambda>rval s1.
                  Some (NEXT_INSN, (set_fp s1 rd (rval OR F64_HIGH))\<lparr>fs := 3\<rparr>))
           else Some (ILLEGAL_INSN, s))"

definition exec_fp_store :: "'d dev_ops \<Rightarrow> u32 \<Rightarrow> 'd cpu \<Rightarrow> 'd outcome" where
  "exec_fp_store D insn s =
     (if fs s = 0 then Some (ILLEGAL_INSN, s)
      else let funct3 = insn_funct3 insn;
               addr = reg s (insn_rs1 insn) + imm_s insn;
               v = fp_reg s (insn_rs2 insn)
        in if funct3 = 2
           then store_then D 2 addr (take_bit 32 v) s (\<lambda>s1. Some (NEXT_INSN, s1))
           else if funct3 = 3
           then store_then D 3 addr v s (\<lambda>s1. Some (NEXT_INSN, s1))
           else Some (ILLEGAL_INSN, s))"

end
