(* ===== verification/Softfp.thy ===== *)
theory Softfp
  imports Emu_Prelude
begin

text \<open>
  The software floating point of \<open>softfp.c\<close>, \<open>softfp_template.h\<close> and \<open>softfp_template_icvt.h\<close>.
  The template is one definition for all sizes here too: a float is an \<open>'a word\<close>, \<open>F_SIZE\<close> is
  \<open>LENGTH('a)\<close>, and the model is used at 32 and 64 (the \<open>F_SIZE = 128\<close> instance needs
  \<open>HAVE_INT128\<close>, which the build does not have). Where the template has two versions of a helper,
  32 bits takes the one with \<open>F_ULONG\<close> and 64 bits the one with half words.

  A sign (0 or 1 in C) is a \<open>bool\<close>, an exponent an \<open>int\<close>; the accrued flags \<open>*pfflags\<close> are
  passed and returned. A failed \<open>assert\<close> is the outcome \<open>None\<close>.
\<close>

section \<open>Definitions\<close>

definition RM_RNE :: nat where "RM_RNE = 0"
definition RM_RTZ :: nat where "RM_RTZ = 1"
definition RM_RDN :: nat where "RM_RDN = 2"
definition RM_RUP :: nat where "RM_RUP = 3"
definition RM_RMM :: nat where "RM_RMM = 4"

definition FFLAG_INVALID_OP :: u32 where "FFLAG_INVALID_OP = 16"
definition FFLAG_DIVIDE_ZERO :: u32 where "FFLAG_DIVIDE_ZERO = 8"
definition FFLAG_OVERFLOW :: u32 where "FFLAG_OVERFLOW = 4"
definition FFLAG_UNDERFLOW :: u32 where "FFLAG_UNDERFLOW = 2"
definition FFLAG_INEXACT :: u32 where "FFLAG_INEXACT = 1"

definition mant_size :: "nat \<Rightarrow> nat" where "mant_size f = (if f = 32 then 23 else 52)"
definition exp_size :: "nat \<Rightarrow> nat" where "exp_size f = (if f = 32 then 8 else 11)"
definition exp_mask :: "nat \<Rightarrow> int" where "exp_mask f = 2 ^ exp_size f - 1"
definition imant_size :: "nat \<Rightarrow> nat" where "imant_size f = f - 2"
definition rnd_size :: "nat \<Rightarrow> nat" where "rnd_size f = imant_size f - mant_size f"

lemmas fmt_defs [masks] = mant_size_def exp_size_def exp_mask_def imant_size_def rnd_size_def
lemmas fp_consts [masks] = RM_RNE_def RM_RTZ_def RM_RDN_def RM_RUP_def RM_RMM_def
  FFLAG_INVALID_OP_def FFLAG_DIVIDE_ZERO_def FFLAG_OVERFLOW_def FFLAG_UNDERFLOW_def FFLAG_INEXACT_def

definition sign_mask :: "'a::len word" where "sign_mask = push_bit (LENGTH('a) - 1) 1"
definition mant_mask :: "'a::len word" where "mant_mask = mask (mant_size LENGTH('a))"
definition qnan_mask :: "'a::len word" where "qnan_mask = push_bit (mant_size LENGTH('a) - 1) 1"
definition implicit_bit :: "'a::len word" where "implicit_bit = push_bit (mant_size LENGTH('a)) 1"

definition F_QNAN :: "'a::len word" where
  "F_QNAN = push_bit (mant_size LENGTH('a)) (word_of_int (exp_mask LENGTH('a))) OR qnan_mask"

subsection \<open>Fields\<close>

definition clz :: "'a::len word \<Rightarrow> nat" where
  "clz a = length (takeWhile Not (map (bit a) (rev [0..<LENGTH('a)])))"

definition sf_sign :: "'a::len word \<Rightarrow> bool" where
  "sf_sign a \<longleftrightarrow> drop_bit (LENGTH('a) - 1) a \<noteq> 0"

definition sf_exp :: "'a::len word \<Rightarrow> int" where
  "sf_exp a = uint (drop_bit (mant_size LENGTH('a)) a AND word_of_int (exp_mask LENGTH('a)))"

definition sf_mant :: "'a::len word \<Rightarrow> 'a word" where
  "sf_mant a = a AND mant_mask"

definition pack_sf :: "bool \<Rightarrow> int \<Rightarrow> 'a::len word \<Rightarrow> 'a word" where
  "pack_sf a_sign a_exp a_mant =
     (push_bit (LENGTH('a) - 1) (if a_sign then 1 else 0) OR
      push_bit (mant_size LENGTH('a)) (word_of_int a_exp)) OR (a_mant AND mant_mask)"

definition unpack_sf :: "'a::len word \<Rightarrow> bool \<times> int \<times> 'a word" where
  "unpack_sf a = (sf_sign a, sf_exp a, sf_mant a)"

definition issignan_sf :: "'a::len word \<Rightarrow> bool" where
  "issignan_sf a \<longleftrightarrow>
     uint (drop_bit (mant_size LENGTH('a) - 1) a AND mask (exp_size LENGTH('a) + 1)) = 2 * exp_mask LENGTH('a) \<and>
     sf_mant a \<noteq> 0"

definition isnan_sf :: "'a::len word \<Rightarrow> bool" where
  "isnan_sf a \<longleftrightarrow> sf_exp a = exp_mask LENGTH('a) \<and> sf_mant a \<noteq> 0"

subsection \<open>Rounding\<close>

definition rshift_rnd :: "'a::len word \<Rightarrow> nat \<Rightarrow> 'a word" where
  "rshift_rnd a d =
     (if d \<noteq> 0
      then (if d \<ge> LENGTH('a) then (if a \<noteq> 0 then 1 else 0)
            else drop_bit d a OR (if a AND mask d \<noteq> 0 then 1 else 0))
      else a)"

definition rnd_addend :: "nat \<Rightarrow> bool \<Rightarrow> nat \<Rightarrow> u32" where
  "rnd_addend rnd a_sign rm =
     (if rm = RM_RNE \<or> rm = RM_RMM then push_bit (rnd - 1) 1
      else if rm = RM_RTZ then 0
      else if a_sign \<noteq> odd rm then mask rnd
      else 0)"

definition round_pack_sf :: "bool \<Rightarrow> int \<Rightarrow> 'a::len word \<Rightarrow> nat \<Rightarrow> u32 \<Rightarrow> 'a word \<times> u32" where
  "round_pack_sf a_sign a_exp a_mant rm fl =
     (let R = rnd_size LENGTH('a);
          addend = ucast (rnd_addend R a_sign rm) :: 'a word;
          is_subnormal = (a_exp < 0 \<or> a_mant + addend < sign_mask);
          m1 = (if a_exp \<le> 0 then rshift_rnd a_mant (nat (1 - a_exp)) else a_mant);
          rnd_bits = m1 AND mask R;
          fl1 = (if a_exp \<le> 0 \<and> is_subnormal \<and> rnd_bits \<noteq> 0 then fl OR FFLAG_UNDERFLOW else fl);
          e1 = (if a_exp \<le> 0 then 1 else a_exp);
          fl2 = (if rnd_bits \<noteq> 0 then fl1 OR FFLAG_INEXACT else fl1);
          m2 = drop_bit R (m1 + addend);
          m3 = (if rm = RM_RNE \<and> rnd_bits = push_bit (R - 1) 1 then m2 AND NOT 1 else m2);
          e2 = e1 + uint (drop_bit (mant_size LENGTH('a) + 1) m3)
      in if m3 \<le> mant_mask then (pack_sf a_sign 0 m3, fl2)
         else if e2 \<ge> exp_mask LENGTH('a)
         then (if addend = 0 then pack_sf a_sign (exp_mask LENGTH('a) - 1) mant_mask
               else pack_sf a_sign (exp_mask LENGTH('a)) 0,
               fl2 OR (FFLAG_OVERFLOW OR FFLAG_INEXACT))
         else (pack_sf a_sign e2 m3, fl2))"

definition normalize_sf ::
    "bool \<Rightarrow> int \<Rightarrow> 'a::len word \<Rightarrow> nat \<Rightarrow> u32 \<Rightarrow> ('a word \<times> u32) option" where
  "normalize_sf a_sign a_exp a_mant rm fl =
     (let shift = int (clz a_mant) - int (LENGTH('a) - 1 - imant_size LENGTH('a))
      in if shift < 0 then None
         else Some (round_pack_sf a_sign (a_exp - shift) (push_bit (nat shift) a_mant) rm fl))"

definition normalize2_sf ::
    "bool \<Rightarrow> int \<Rightarrow> 'a::len word \<Rightarrow> 'a word \<Rightarrow> nat \<Rightarrow> u32 \<Rightarrow> ('a word \<times> u32) option" where
  "normalize2_sf a_sign a_exp a_mant1 a_mant0 rm fl =
     (let F = LENGTH('a);
          l = (if a_mant1 = 0 then F + clz a_mant0 else clz a_mant1);
          shift = int l - int (F - 1 - imant_size F);
          k = nat shift
      in if shift < 0 then None
         else Some (round_pack_sf a_sign (a_exp - shift)
           (if k = 0 then a_mant1 OR (if a_mant0 \<noteq> 0 then 1 else 0)
            else if k < F
            then (push_bit k a_mant1 OR drop_bit (F - k) a_mant0) OR (if push_bit k a_mant0 \<noteq> 0 then 1 else 0)
            else push_bit (k - F) a_mant0) rm fl))"

definition normalize_subnormal_sf :: "'a::len word \<Rightarrow> int \<times> 'a word" where
  "normalize_subnormal_sf a_mant =
     (let shift = int (mant_size LENGTH('a)) - (int LENGTH('a) - 1 - int (clz a_mant))
      in (1 - shift, push_bit (nat shift) a_mant))"

subsection \<open>Addition\<close>

definition add_sf :: "'a::len word \<Rightarrow> 'a word \<Rightarrow> nat \<Rightarrow> u32 \<Rightarrow> ('a word \<times> u32) option" where
  "add_sf a0 b0 rm fl =
     (let swap = (a0 AND NOT sign_mask) < (b0 AND NOT sign_mask);
          a = (if swap then b0 else a0);
          b = (if swap then a0 else b0);
          a_mant = push_bit 3 (sf_mant a);
          b_mant = push_bit 3 (sf_mant b)
      in if sf_exp a = exp_mask LENGTH('a)
         then (if a_mant \<noteq> 0
               then Some (F_QNAN, if a_mant AND push_bit 3 qnan_mask = 0 \<or> issignan_sf b
                                  then fl OR FFLAG_INVALID_OP else fl)
               else if sf_exp b = exp_mask LENGTH('a) \<and> sf_sign a \<noteq> sf_sign b
               then Some (F_QNAN, fl OR FFLAG_INVALID_OP)
               else Some (a, fl))
         else let hidden = push_bit (mant_size LENGTH('a) + 3) 1;
                  a_exp = (if sf_exp a = 0 then 1 else sf_exp a);
                  am = (if sf_exp a = 0 then a_mant else a_mant OR hidden);
                  b_exp = (if sf_exp b = 0 then 1 else sf_exp b);
                  bm = rshift_rnd (if sf_exp b = 0 then b_mant else b_mant OR hidden) (nat (a_exp - b_exp));
                  same = (sf_sign a = sf_sign b);
                  rmant = (if same then am + bm else am - bm);
                  rsign = (if same then sf_sign a else if rmant = 0 then rm = RM_RDN else sf_sign a)
           in normalize_sf rsign (a_exp + (int (rnd_size LENGTH('a)) - 3)) rmant rm fl)"

definition sub_sf :: "'a::len word \<Rightarrow> 'a word \<Rightarrow> nat \<Rightarrow> u32 \<Rightarrow> ('a word \<times> u32) option" where
  "sub_sf a b rm fl = add_sf a (b XOR sign_mask) rm fl"

subsection \<open>Multiplication\<close>

text \<open>The double-word product, high word first.\<close>

definition mul_u32 :: "u32 \<Rightarrow> u32 \<Rightarrow> u32 \<times> u32" where
  "mul_u32 a b = (let r = ucast a * ucast b :: u64 in (ucast (drop_bit 32 r), ucast r))"

definition mul_u64 :: "u64 \<Rightarrow> u64 \<Rightarrow> u64 \<times> u64" where
  "mul_u64 a b =
     (let half = (\<lambda>x :: u64. ucast (ucast x :: u32) :: u64);
          a0 = half a; a1 = half (drop_bit 32 a);
          b0 = half b; b1 = half (drop_bit 32 b);
          r00 = a0 * b0; r01 = a0 * b1; r10 = a1 * b0; r11 = a1 * b1;
          r0 = half r00;
          c1 = (drop_bit 32 r00 + half r01) + half r10;
          r1 = half c1;
          c2 = ((drop_bit 32 c1 + drop_bit 32 r01) + drop_bit 32 r10) + half r11;
          r2 = half c2;
          r3 = half (drop_bit 32 c2 + drop_bit 32 r11)
      in (push_bit 32 r3 OR r2, push_bit 32 r1 OR r0))"

definition mul_u :: "'a::len word \<Rightarrow> 'a word \<Rightarrow> 'a word \<times> 'a word" where
  "mul_u a b = (if LENGTH('a) = 32 then map_prod ucast ucast (mul_u32 (ucast a) (ucast b))
     else map_prod ucast ucast (mul_u64 (ucast a) (ucast b)))"

definition mul_sf :: "'a::len word \<Rightarrow> 'a word \<Rightarrow> nat \<Rightarrow> u32 \<Rightarrow> ('a word \<times> u32) option" where
  "mul_sf a b rm fl =
     (let E = exp_mask LENGTH('a);
          R = rnd_size LENGTH('a);
          r_sign = (sf_sign a \<noteq> sf_sign b);
          a_zero = (sf_exp a = 0 \<and> sf_mant a = 0);
          b_zero = (sf_exp b = 0 \<and> sf_mant b = 0)
      in if sf_exp a = E \<or> sf_exp b = E
         then (if isnan_sf a \<or> isnan_sf b
               then Some (F_QNAN, if issignan_sf a \<or> issignan_sf b then fl OR FFLAG_INVALID_OP else fl)
               else if (sf_exp a = E \<and> b_zero) \<or> (sf_exp b = E \<and> a_zero)
               then Some (F_QNAN, fl OR FFLAG_INVALID_OP)
               else Some (pack_sf r_sign E 0, fl))
         else if a_zero \<or> b_zero then Some (pack_sf r_sign 0 0, fl)
         else let (a_exp, a_mant) = (if sf_exp a = 0 then normalize_subnormal_sf (sf_mant a)
                                     else (sf_exp a, sf_mant a OR implicit_bit));
                  (b_exp, b_mant) = (if sf_exp b = 0 then normalize_subnormal_sf (sf_mant b)
                                     else (sf_exp b, sf_mant b OR implicit_bit));
                  r_exp = a_exp + b_exp - 2 ^ (exp_size LENGTH('a) - 1) + 2;
                  (r_mant, r_mant_low) = mul_u (push_bit R a_mant) (push_bit (R + 1) b_mant)
           in normalize_sf r_sign r_exp (r_mant OR (if r_mant_low \<noteq> 0 then 1 else 0)) rm fl)"

subsection \<open>Fused multiply and add\<close>

text \<open>The special operands of \<open>fma_sf\<close>: a NaN, an infinity, or a product that is zero.\<close>

definition fma_special ::
    "'a::len word \<Rightarrow> 'a word \<Rightarrow> 'a word \<Rightarrow> nat \<Rightarrow> u32 \<Rightarrow> ('a word \<times> u32) option" where
  "fma_special a b c rm fl =
     (let E = exp_mask LENGTH('a);
          r_sign = (sf_sign a \<noteq> sf_sign b);
          a_zero = (sf_exp a = 0 \<and> sf_mant a = 0);
          b_zero = (sf_exp b = 0 \<and> sf_mant b = 0);
          c_zero = (sf_exp c = 0 \<and> sf_mant c = 0)
      in if sf_exp a = E \<or> sf_exp b = E \<or> sf_exp c = E
         then (if isnan_sf a \<or> isnan_sf b \<or> isnan_sf c
               then Some (F_QNAN, if issignan_sf a \<or> issignan_sf b \<or> issignan_sf c
                                  then fl OR FFLAG_INVALID_OP else fl)
               else if (sf_exp a = E \<and> b_zero) \<or> (sf_exp b = E \<and> a_zero) \<or>
                       ((sf_exp a = E \<or> sf_exp b = E) \<and> (sf_exp c = E \<and> r_sign \<noteq> sf_sign c))
               then Some (F_QNAN, fl OR FFLAG_INVALID_OP)
               else if sf_exp c = E then Some (pack_sf (sf_sign c) E 0, fl)
               else Some (pack_sf r_sign E 0, fl))
         else if a_zero \<or> b_zero
         then (if c_zero
               then Some (pack_sf (if sf_sign c \<noteq> r_sign then rm = RM_RDN else r_sign) 0 0, fl)
               else Some (c, fl))
         else None)"

text \<open>The right shift of the smaller double-word mantissa \<open>(c_mant1, c_mant0)\<close>.\<close>

definition fma_shift :: "'a::len word \<Rightarrow> 'a word \<Rightarrow> nat \<Rightarrow> 'a word \<times> 'a word" where
  "fma_shift c1 c0 shift =
     (let F = LENGTH('a) in
      if shift \<ge> 2 * F then (0, if c0 OR c1 \<noteq> 0 then 1 else 0)
      else if shift \<ge> F + 1 then (0, rshift_rnd c1 (shift - F))
      else if shift = F then (0, c1 OR (if c0 \<noteq> 0 then 1 else 0))
      else if shift \<noteq> 0
      then (drop_bit shift c1,
            (push_bit (F - shift) c1 OR drop_bit shift c0) OR (if c0 AND mask shift \<noteq> 0 then 1 else 0))
      else (c1, c0))"

definition fma_sf ::
    "'a::len word \<Rightarrow> 'a word \<Rightarrow> 'a word \<Rightarrow> nat \<Rightarrow> u32 \<Rightarrow> ('a word \<times> u32) option" where
  "fma_sf a b c rm fl =
     (case fma_special a b c rm fl of Some r \<Rightarrow> Some r
      | None \<Rightarrow>
        let F = LENGTH('a); R = rnd_size F;
            sg = (sf_sign a \<noteq> sf_sign b);
            (a_exp, a_mant) = (if sf_exp a = 0 then normalize_subnormal_sf (sf_mant a)
                               else (sf_exp a, sf_mant a OR implicit_bit));
            (b_exp, b_mant) = (if sf_exp b = 0 then normalize_subnormal_sf (sf_mant b)
                               else (sf_exp b, sf_mant b OR implicit_bit));
            e0 = a_exp + b_exp - 2 ^ (exp_size F - 1) + 3;
            (h, l) = mul_u (push_bit R a_mant) (push_bit R b_mant);
            low = (h < push_bit (F - 3) 1);
            p1 = (if low then push_bit 1 h OR drop_bit (F - 1) l else h);
            p0 = (if low then push_bit 1 l else l);
            pe = (if low then e0 - 1 else e0)
        in if sf_exp c = 0 \<and> sf_mant c = 0
           then normalize_sf sg pe (p1 OR (if p0 \<noteq> 0 then 1 else 0)) rm fl
           else let (ce, c_mant) = (if sf_exp c = 0 then normalize_subnormal_sf (sf_mant c)
                                    else (sf_exp c, sf_mant c OR implicit_bit));
                    c_exp = ce + 1;
                    q1 = push_bit (R - 1) c_mant;
                    keep = (pe > c_exp \<or> (pe = c_exp \<and> p1 \<ge> q1));
                    (r_exp, r_sign, r1, r0) = (if keep then (pe, sg, p1, p0) else (c_exp, sf_sign c, q1, 0));
                    (s_exp, c_sign, d1, d0) = (if keep then (c_exp, sf_sign c, q1, 0) else (pe, sg, p1, p0));
                    (c1, c0) = fma_shift d1 d0 (nat (r_exp - s_exp))
                in if r_sign = c_sign
                   then let m0 = r0 + c0
                        in normalize2_sf r_sign r_exp (r1 + (c1 + (if m0 < c0 then 1 else 0))) m0 rm fl
                   else let m0 = r0 - c0;
                            m1 = (r1 - c1) - (if m0 > r0 then 1 else 0)
                        in normalize2_sf (if m0 OR m1 = 0 then rm = RM_RDN else r_sign) r_exp m1 m0 rm fl)"

subsection \<open>Division\<close>

definition divrem_u32 :: "u32 \<Rightarrow> u32 \<Rightarrow> u32 \<Rightarrow> (u32 \<times> u32) option" where
  "divrem_u32 ah al b =
     (let a = push_bit 32 (ucast ah) OR ucast al :: u64
      in if b = 0 then None else Some (ucast (a div ucast b), ucast (a mod ucast b)))"

text \<open>The bit-by-bit division: \<open>n\<close> rounds are left.\<close>

fun divrem_loop :: "nat \<Rightarrow> u64 \<Rightarrow> u64 \<Rightarrow> u64 \<Rightarrow> u64 \<times> u64" where
  "divrem_loop 0 a1 a0 b = (a0, a1)"
| "divrem_loop (Suc n) a1 a0 b =
     (let ab = drop_bit 63 a1;
          a1s = push_bit 1 a1 OR drop_bit 63 a0
      in if ab \<noteq> 0 \<or> a1s \<ge> b then divrem_loop n (a1s - b) (push_bit 1 a0 OR 1) b
         else divrem_loop n a1s (push_bit 1 a0) b)"

definition divrem_u64 :: "u64 \<Rightarrow> u64 \<Rightarrow> u64 \<Rightarrow> (u64 \<times> u64) option" where
  "divrem_u64 a1 a0 b = (if a1 < b then Some (divrem_loop 64 a1 a0 b) else None)"

definition divrem_u :: "'a::len word \<Rightarrow> 'a word \<Rightarrow> 'a word \<Rightarrow> ('a word \<times> 'a word) option" where
  "divrem_u ah al b =
     (if LENGTH('a) = 32
      then map_option (map_prod ucast ucast) (divrem_u32 (ucast ah) (ucast al) (ucast b))
      else map_option (map_prod ucast ucast) (divrem_u64 (ucast ah) (ucast al) (ucast b)))"

definition div_special :: "'a::len word \<Rightarrow> 'a word \<Rightarrow> u32 \<Rightarrow> ('a word \<times> u32) option" where
  "div_special a b fl =
     (let E = exp_mask LENGTH('a);
          r_sign = (sf_sign a \<noteq> sf_sign b);
          a_zero = (sf_exp a = 0 \<and> sf_mant a = 0);
          b_zero = (sf_exp b = 0 \<and> sf_mant b = 0);
          nan = (F_QNAN, if issignan_sf a \<or> issignan_sf b then fl OR FFLAG_INVALID_OP else fl)
      in if sf_exp a = E
         then (if sf_mant a \<noteq> 0 \<or> isnan_sf b then Some nan
               else if sf_exp b = E then Some (F_QNAN, fl OR FFLAG_INVALID_OP)
               else Some (pack_sf r_sign E 0, fl))
         else if sf_exp b = E
         then (if sf_mant b \<noteq> 0 then Some nan else Some (pack_sf r_sign 0 0, fl))
         else if b_zero
         then (if a_zero then Some (F_QNAN, fl OR FFLAG_INVALID_OP)
               else Some (pack_sf r_sign E 0, fl OR FFLAG_DIVIDE_ZERO))
         else if a_zero then Some (pack_sf r_sign 0 0, fl)
         else None)"

definition div_sf :: "'a::len word \<Rightarrow> 'a word \<Rightarrow> nat \<Rightarrow> u32 \<Rightarrow> ('a word \<times> u32) option" where
  "div_sf a b rm fl =
     (case div_special a b fl of Some r \<Rightarrow> Some r
      | None \<Rightarrow>
        let (b_exp, b_mant) = (if sf_exp b = 0 then normalize_subnormal_sf (sf_mant b)
                               else (sf_exp b, sf_mant b OR implicit_bit));
            (a_exp, a_mant) = (if sf_exp a = 0 then normalize_subnormal_sf (sf_mant a)
                               else (sf_exp a, sf_mant a OR implicit_bit));
            r_exp = a_exp - b_exp + 2 ^ (exp_size LENGTH('a) - 1) - 1
        in do { (r_mant, r) \<leftarrow> divrem_u a_mant 0 (push_bit 2 b_mant);
                normalize_sf (sf_sign a \<noteq> sf_sign b) r_exp (if r \<noteq> 0 then r_mant OR 1 else r_mant) rm fl })"

subsection \<open>Square root\<close>

text \<open>Newton's iteration; it stops because the estimate decreases.\<close>

function sqrt_loop32 :: "u64 \<Rightarrow> u64 \<Rightarrow> u64 option" where
  "sqrt_loop32 a u =
     (if u = 0 then None
      else let u' = (a div u + u) div 2 in if u' \<ge> u then Some u else sqrt_loop32 a u')"
  by pat_completeness auto
termination by (relation "measure (\<lambda>(a, u). unat u)") (auto simp: not_le simp flip: word_less_nat_alt)

definition sqrtrem_u32 :: "u32 \<Rightarrow> u32 \<Rightarrow> (u32 \<times> bool) option" where
  "sqrtrem_u32 ah al =
     (let l = (if ah \<noteq> 0 then 2 * 32 - clz (ah - 1) else 32 - clz (al - 1));
          a = push_bit 32 (ucast ah) OR ucast al :: u64
      in if ah = 0 \<and> al = 0 then Some (0, False)
         else do { s \<leftarrow> sqrt_loop32 a (push_bit ((l + 1) div 2) 1);
                   Some (ucast s, a - s * s \<noteq> 0) })"

function sqrt_loop64 :: "u64 \<Rightarrow> u64 \<Rightarrow> u64 \<Rightarrow> u64 option" where
  "sqrt_loop64 a1 a0 u =
     (case divrem_u64 a1 a0 u of None \<Rightarrow> None
      | Some (q, r) \<Rightarrow> let u' = (q + u) div 2 in if u' \<ge> u then Some u else sqrt_loop64 a1 a0 u')"
  by pat_completeness auto
termination by (relation "measure (\<lambda>(a1, a0, u). unat u)") (auto simp: not_le simp flip: word_less_nat_alt)

definition sqrtrem_u64 :: "u64 \<Rightarrow> u64 \<Rightarrow> (u64 \<times> bool) option" where
  "sqrtrem_u64 a1 a0 =
     (let l = (if a1 \<noteq> 0 then 2 * 64 - clz (a1 - 1) else 64 - clz (a0 - 1))
      in if a1 = 0 \<and> a0 = 0 then Some (0, False)
         else do { s \<leftarrow> sqrt_loop64 a1 a0 (push_bit ((l + 1) div 2) 1);
                   let (sq1, sq0) = mul_u64 s s;
                   Some (s, sq0 \<noteq> a0 \<or> sq1 \<noteq> a1) })"

definition sqrtrem_u :: "'a::len word \<Rightarrow> 'a word \<Rightarrow> ('a word \<times> bool) option" where
  "sqrtrem_u ah al =
     (if LENGTH('a) = 32 then map_option (map_prod ucast id) (sqrtrem_u32 (ucast ah) (ucast al))
      else map_option (map_prod ucast id) (sqrtrem_u64 (ucast ah) (ucast al)))"

definition sqrt_sf :: "'a::len word \<Rightarrow> nat \<Rightarrow> u32 \<Rightarrow> ('a word \<times> u32) option" where
  "sqrt_sf a rm fl =
     (let E = exp_mask LENGTH('a); F = LENGTH('a); neg_error = (F_QNAN, fl OR FFLAG_INVALID_OP)
      in if sf_exp a = E
         then (if sf_mant a \<noteq> 0
               then Some (F_QNAN, if issignan_sf a then fl OR FFLAG_INVALID_OP else fl)
               else if sf_sign a then Some neg_error
               else Some (a, fl))
         else if sf_sign a
         then (if sf_exp a = 0 \<and> sf_mant a = 0 then Some (a, fl) else Some neg_error)
         else if sf_exp a = 0 \<and> sf_mant a = 0 then Some (pack_sf False 0 0, fl)
         else let (e0, m0) = (if sf_exp a = 0 then normalize_subnormal_sf (sf_mant a)
                              else (sf_exp a, sf_mant a OR implicit_bit));
                  e1 = e0 - E div 2;
                  e2 = (if odd e1 then e1 - 1 else e1);
                  m1 = (if odd e1 then push_bit 1 m0 else m0);
                  e3 = e2 div 2 + E div 2
           in do { (r, inexact) \<leftarrow> sqrtrem_u (push_bit (F - 4 - mant_size F) m1) 0;
                   normalize_sf (sf_sign a) e3 (if inexact then r OR 1 else r) rm fl })"

declare sqrt_loop32.simps [simp del]
declare sqrt_loop64.simps [simp del]

subsection \<open>Comparisons\<close>

text \<open>\<open>FMINMAX_IEEE754_201X\<close> is the type the CPU uses: a signaling NaN only sets the flag.\<close>

datatype minmax_type = FMINMAX_PROP | FMINMAX_IEEE754_2008 | FMINMAX_IEEE754_201X

definition min_max_nan_sf :: "'a::len word \<Rightarrow> 'a word \<Rightarrow> u32 \<Rightarrow> minmax_type \<Rightarrow> 'a word \<times> u32" where
  "min_max_nan_sf a b fl minmax_type =
     (let snan = issignan_sf a \<or> issignan_sf b;
          fl1 = (if snan then fl OR FFLAG_INVALID_OP else fl)
      in if snan \<and> minmax_type = FMINMAX_IEEE754_2008 then (F_QNAN, fl1)
         else if minmax_type = FMINMAX_PROP then (F_QNAN, fl1)
         else if isnan_sf a then (if isnan_sf b then (F_QNAN, fl1) else (b, fl1))
         else (a, fl1))"

definition min_sf :: "'a::len word \<Rightarrow> 'a word \<Rightarrow> u32 \<Rightarrow> minmax_type \<Rightarrow> 'a word \<times> u32" where
  "min_sf a b fl mt =
     (if isnan_sf a \<or> isnan_sf b then min_max_nan_sf a b fl mt
      else if sf_sign a \<noteq> sf_sign b then (if sf_sign a then a else b, fl)
      else (if (a < b) \<noteq> sf_sign a then a else b, fl))"

definition max_sf :: "'a::len word \<Rightarrow> 'a word \<Rightarrow> u32 \<Rightarrow> minmax_type \<Rightarrow> 'a word \<times> u32" where
  "max_sf a b fl mt =
     (if isnan_sf a \<or> isnan_sf b then min_max_nan_sf a b fl mt
      else if sf_sign a \<noteq> sf_sign b then (if sf_sign a then b else a, fl)
      else (if (a < b) \<noteq> sf_sign a then b else a, fl))"

definition eq_quiet_sf :: "'a::len word \<Rightarrow> 'a word \<Rightarrow> u32 \<Rightarrow> bool \<times> u32" where
  "eq_quiet_sf a b fl =
     (if isnan_sf a \<or> isnan_sf b
      then (False, if issignan_sf a \<or> issignan_sf b then fl OR FFLAG_INVALID_OP else fl)
      else if push_bit 1 (a OR b) = 0 then (True, fl)
      else (a = b, fl))"

definition le_sf :: "'a::len word \<Rightarrow> 'a word \<Rightarrow> u32 \<Rightarrow> bool \<times> u32" where
  "le_sf a b fl =
     (if isnan_sf a \<or> isnan_sf b then (False, fl OR FFLAG_INVALID_OP)
      else if sf_sign a \<noteq> sf_sign b then (sf_sign a \<or> push_bit 1 (a OR b) = 0, fl)
      else if sf_sign a then (a \<ge> b, fl) else (a \<le> b, fl))"

definition lt_sf :: "'a::len word \<Rightarrow> 'a word \<Rightarrow> u32 \<Rightarrow> bool \<times> u32" where
  "lt_sf a b fl =
     (if isnan_sf a \<or> isnan_sf b then (False, fl OR FFLAG_INVALID_OP)
      else if sf_sign a \<noteq> sf_sign b then (sf_sign a \<and> push_bit 1 (a OR b) \<noteq> 0, fl)
      else if sf_sign a then (a > b, fl) else (a < b, fl))"

definition fclass_sf :: "'a::len word \<Rightarrow> u32" where
  "fclass_sf a =
     (let sel = (\<lambda>neg pos. push_bit (if sf_sign a then neg else pos) 1 :: u32)
      in if sf_exp a = exp_mask LENGTH('a)
         then (if sf_mant a \<noteq> 0
               then (if sf_mant a AND qnan_mask \<noteq> 0 then push_bit 9 1 else push_bit 8 1)
               else sel 0 7)
         else if sf_exp a = 0
         then (if sf_mant a = 0 then sel 3 4 else sel 2 5)
         else sel 1 6)"

subsection \<open>Conversions\<close>

definition cvt_sf32_sf64 :: "u32 \<Rightarrow> u32 \<Rightarrow> u64 \<times> u32" where
  "cvt_sf32_sf64 a fl =
     (let (a_sign, a_exp, a_mant) = unpack_sf a
      in if a_exp = 0xff
         then (if a_mant \<noteq> 0 then (F_QNAN, if issignan_sf a then fl OR FFLAG_INVALID_OP else fl)
               else (pack_sf a_sign (exp_mask 64) 0, fl))
         else if a_exp = 0 \<and> a_mant = 0 then (pack_sf a_sign 0 0, fl)
         else let (e, m) = (if a_exp = 0 then normalize_subnormal_sf a_mant else (a_exp, a_mant))
              in (pack_sf a_sign (e - 0x7f + exp_mask 64 div 2) (push_bit (52 - 23) (ucast m)), fl))"

text \<open>
  For a subnormal \<open>a\<close> the C function calls \<open>normalize_subnormal_sf\<close> for the exponent and drops
  the mantissa it returns.
\<close>

definition cvt_sf64_sf32 :: "u64 \<Rightarrow> nat \<Rightarrow> u32 \<Rightarrow> (u32 \<times> u32) option" where
  "cvt_sf64_sf32 a rm fl =
     (let (a_sign, a_exp, a_mant) = unpack_sf a
      in if a_exp = exp_mask 64
         then (if a_mant \<noteq> 0 then Some (F_QNAN, if issignan_sf a then fl OR FFLAG_INVALID_OP else fl)
               else Some (pack_sf a_sign 0xff 0, fl))
         else if a_exp = 0 \<and> a_mant = 0 then Some (pack_sf a_sign 0 0, fl)
         else let e = (if a_exp = 0 then fst (normalize_subnormal_sf a_mant) else a_exp);
                  m = (if a_exp = 0 then a_mant else a_mant OR implicit_bit)
              in normalize_sf a_sign (e - exp_mask 64 div 2 + 0x7f) (ucast (rshift_rnd m (52 - (32 - 2)))) rm fl)"

text \<open>Float to integer (\<open>internal_cvt_sf_i\<close>); \<open>'i\<close> is the integer size \<open>ICVT_SIZE\<close>.\<close>

definition internal_cvt_sf_i :: "'a::len word \<Rightarrow> nat \<Rightarrow> u32 \<Rightarrow> bool \<Rightarrow> 'i::len word \<times> u32" where
  "internal_cvt_sf_i a rm fl is_unsigned =
     (let F = LENGTH('a); R = rnd_size F; I = LENGTH('i);
          a_sign = (if sf_exp a = exp_mask F \<and> sf_mant a \<noteq> 0 then False else sf_sign a);
          m0 = push_bit R (if sf_exp a = 0 then sf_mant a else sf_mant a OR implicit_bit);
          a_exp = (if sf_exp a = 0 then 1 else sf_exp a) - exp_mask F div 2 - int (mant_size F);
          r_max = (if is_unsigned then (if a_sign then 1 else 0) - 1
                   else push_bit (I - 1) 1 - (if a_sign then 0 else 1)) :: 'i word;
          overflow = (r_max, fl OR FFLAG_INVALID_OP)
      in if a_exp \<ge> 0
         then (if a_exp \<le> int I - 1 - int (mant_size F)
               then let r = push_bit (nat a_exp) (ucast (drop_bit R m0)) :: 'i word
                    in if r > r_max then overflow else (if a_sign then - r else r, fl)
               else overflow)
         else let m1 = rshift_rnd m0 (nat (- a_exp));
                  addend = ucast (rnd_addend R a_sign rm) :: 'a word;
                  rnd_bits = m1 AND mask R;
                  m2 = drop_bit R (m1 + addend);
                  m3 = (if rm = RM_RNE \<and> rnd_bits = push_bit (R - 1) 1 then m2 AND NOT 1 else m2)
              in if uint m3 > uint r_max then overflow
                 else (if a_sign then - ucast m3 else ucast m3,
                       if rnd_bits \<noteq> 0 then fl OR FFLAG_INEXACT else fl))"

definition cvt_sf_i :: "'a::len word \<Rightarrow> nat \<Rightarrow> u32 \<Rightarrow> 'i::len word \<times> u32" where
  "cvt_sf_i a rm fl = internal_cvt_sf_i a rm fl False"

definition cvt_sf_u :: "'a::len word \<Rightarrow> nat \<Rightarrow> u32 \<Rightarrow> 'i::len word \<times> u32" where
  "cvt_sf_u a rm fl = internal_cvt_sf_i a rm fl True"

text \<open>Integer to float (\<open>internal_cvt_i_sf\<close>).\<close>

definition internal_cvt_i_sf ::
    "'i::len word \<Rightarrow> nat \<Rightarrow> u32 \<Rightarrow> bool \<Rightarrow> ('a::len word \<times> u32) option" where
  "internal_cvt_i_sf a rm fl is_unsigned =
     (let F = LENGTH('a);
          a_sign = (\<not> is_unsigned \<and> sint a < 0);
          r = (if a_sign then - a else a);
          e = exp_mask F div 2 + int F - 2;
          l = int LENGTH('i) - int (clz r) - (int F - 1);
          r1 = (if l > 0 then drop_bit (nat l) r OR (if r AND (r AND mask (nat l)) \<noteq> 0 then 1 else 0) else r)
      in normalize_sf a_sign (if l > 0 then e + l else e) (ucast r1) rm fl)"

definition cvt_i_sf :: "'i::len word \<Rightarrow> nat \<Rightarrow> u32 \<Rightarrow> ('a::len word \<times> u32) option" where
  "cvt_i_sf a rm fl = internal_cvt_i_sf a rm fl False"

definition cvt_u_sf :: "'i::len word \<Rightarrow> nat \<Rightarrow> u32 \<Rightarrow> ('a::len word \<times> u32) option" where
  "cvt_u_sf a rm fl = internal_cvt_i_sf a rm fl True"

end
