(* ===== verification/Riscv_Fp.thy ===== *)
theory Riscv_Fp
  imports Riscv_Insn Softfp
begin

text \<open>
  The floating-point instructions: the fused operations of \<open>riscv_cpu_template.h\<close> and the cases of
  \<open>riscv_cpu_fp_template.h\<close>. That template is included at \<open>F_SIZE\<close> 32 and 64; here the definitions
  take the size as a type, and \<open>fmt\<close> (0 or 1) is its \<open>OPID\<close>.

  \<open>FSIGN_MASK32\<close> is the C constant \<open>1 << 31\<close>, an \<open>int\<close>: converted to the 64-bit \<open>fp_uint\<close> it is
  sign-extended, and \<open>~FSIGN_MASK32\<close>, complemented at 32 bits, has its upper half clear.
\<close>

section \<open>Definitions\<close>

definition F_HIGH :: "'f::len itself \<Rightarrow> u64" where
  "F_HIGH t = (if LENGTH('f) = 32 then F32_HIGH else F64_HIGH)"

definition FSIGN_MASK :: "'f::len itself \<Rightarrow> u64" where
  "FSIGN_MASK t = (if LENGTH('f) = 32 then 0xffffffff80000000 else 0x8000000000000000)"

definition NOT_FSIGN_MASK :: "'f::len itself \<Rightarrow> u64" where
  "NOT_FSIGN_MASK t = 
     (if LENGTH('f) = 32 then 0x000000007fffffff else 0x7fffffffffffffff)"

text \<open>\<open>fp_get\<close> passes a register to a function on floats: the conversion keeps the low bits.\<close>

definition fp_get :: "'d cpu \<Rightarrow> nat \<Rightarrow> 'f::len word" where
  "fp_get s r = ucast (fp_reg s r)"

definition fp_finish :: "nat \<Rightarrow> 'd cpu \<Rightarrow> ('f::len word \<times> u32) option \<Rightarrow> 'd outcome" where
  "fp_finish rd s r = 
     do { (v, fl) \<leftarrow> r;
          Some (NEXT_INSN, (set_fp s rd (ucast v OR F_HIGH TYPE('f)))\<lparr>fflags := fl, fs := 3\<rparr>) }"

subsection \<open>Fused multiply and add\<close>

text \<open>
  \<open>fmadd\<close>, \<open>fmsub\<close>, \<open>fnmsub\<close> and \<open>fnmadd\<close> differ in the operands they negate: \<open>nega\<close> the first
  factor, \<open>negc\<close> the addend.
\<close>

definition fma_op :: "'f::len itself \<Rightarrow> bool \<Rightarrow> bool \<Rightarrow> u32 \<Rightarrow> nat \<Rightarrow> 'd cpu \<Rightarrow> 'd outcome" where
  "fma_op t nega negc insn rm s =
     (let neg = (\<lambda>b v. if b then v XOR FSIGN_MASK t else v);
          rs3 = unat (drop_bit 27 insn)
      in fp_finish (insn_rd insn) s
           (fma_sf (ucast (neg nega (fp_reg s (insn_rs1 insn))) :: 'f word)
              (fp_get s (insn_rs2 insn)) (ucast (neg negc (fp_reg s rs3))) rm (fflags s)))"

definition exec_fma :: "bool \<Rightarrow> bool \<Rightarrow> u32 \<Rightarrow> 'd cpu \<Rightarrow> 'd outcome" where
  "exec_fma nega negc insn s =
     (if fs s = 0 then Some (ILLEGAL_INSN, s)
      else case get_insn_rm s (insn_funct3 insn) of
             None \<Rightarrow> Some (ILLEGAL_INSN, s)
           | Some rm \<Rightarrow>
               (let fmt = unat (drop_bit 25 insn AND 3)
                in if fmt = 0 then fma_op TYPE(32) nega negc insn rm s
                   else if fmt = 1 then fma_op TYPE(64) nega negc insn rm s
                   else Some (ILLEGAL_INSN, s)))"

subsection \<open>Arithmetic\<close>

definition fp_arith :: "'f::len itself \<Rightarrow> nat \<Rightarrow> u32 \<Rightarrow> nat \<Rightarrow> 'd cpu \<Rightarrow> 'd outcome" where
  "fp_arith t op insn rm s =
     (let a = fp_get s (insn_rs1 insn) :: 'f word; b = fp_get s (insn_rs2 insn)
      in fp_finish (insn_rd insn) s
           (if op = 0 then add_sf a b rm (fflags s)
            else if op = 1 then sub_sf a b rm (fflags s)
            else if op = 2 then mul_sf a b rm (fflags s)
            else if op = 3 then div_sf a b rm (fflags s)
            else sqrt_sf a rm (fflags s)))"

definition fp_sgnj :: "'f::len itself \<Rightarrow> u32 \<Rightarrow> 'd cpu \<Rightarrow> 'd outcome" where
  "fp_sgnj t insn s =
     (let a = fp_reg s (insn_rs1 insn); b = fp_reg s (insn_rs2 insn); rm = insn_funct3 insn;
          fin = (\<lambda>v. Some (NEXT_INSN, (set_fp s (insn_rd insn) v)\<lparr>fs := 3\<rparr>))
      in if rm = 0 then fin ((a AND NOT_FSIGN_MASK t) OR (b AND FSIGN_MASK t))
         else if rm = 1 then fin ((a AND NOT_FSIGN_MASK t) OR ((b AND FSIGN_MASK t) XOR FSIGN_MASK t))
         else if rm = 2 then fin (a XOR (b AND FSIGN_MASK t))
         else Some (ILLEGAL_INSN, s))"

definition fp_minmax :: "'f::len itself \<Rightarrow> u32 \<Rightarrow> 'd cpu \<Rightarrow> 'd outcome" where
  "fp_minmax t insn s =
     (let a = fp_get s (insn_rs1 insn) :: 'f word; b = fp_get s (insn_rs2 insn); rm = insn_funct3 insn
      in if rm = 0 then fp_finish (insn_rd insn) s (Some (min_sf a b (fflags s) FMINMAX_IEEE754_201X))
         else if rm = 1 then fp_finish (insn_rd insn) s (Some (max_sf a b (fflags s) FMINMAX_IEEE754_201X))
         else Some (ILLEGAL_INSN, s))"

text \<open>Results that go to an integer register.\<close>

definition fp_to_reg :: "u32 \<Rightarrow> 'd cpu \<Rightarrow> u32 \<times> u32 \<Rightarrow> 'd outcome" where
  "fp_to_reg insn s r =
     (let (v, fl) = r in Some (NEXT_INSN, set_rd (s\<lparr>fflags := fl\<rparr>) (insn_rd insn) v))"

definition fp_compare :: "'f::len itself \<Rightarrow> u32 \<Rightarrow> 'd cpu \<Rightarrow> 'd outcome" where
  "fp_compare t insn s =
     (let a = fp_get s (insn_rs1 insn) :: 'f word; b = fp_get s (insn_rs2 insn); rm = insn_funct3 insn;
          fin = (\<lambda>r. fp_to_reg insn s (of_bool_u32 (fst r), snd r))
      in if rm = 0 then fin (le_sf a b (fflags s))
         else if rm = 1 then fin (lt_sf a b (fflags s))
         else if rm = 2 then fin (eq_quiet_sf a b (fflags s))
         else Some (ILLEGAL_INSN, s))"

definition fp_to_int :: "'f::len itself \<Rightarrow> u32 \<Rightarrow> nat \<Rightarrow> 'd cpu \<Rightarrow> 'd outcome" where
  "fp_to_int t insn rm s =
     (let a = fp_get s (insn_rs1 insn) :: 'f word
      in if insn_rs2 insn = 0 then fp_to_reg insn s (cvt_sf_i a rm (fflags s))
         else if insn_rs2 insn = 1 then fp_to_reg insn s (cvt_sf_u a rm (fflags s))
         else Some (ILLEGAL_INSN, s))"

definition int_to_fp :: "'f::len itself \<Rightarrow> u32 \<Rightarrow> nat \<Rightarrow> 'd cpu \<Rightarrow> 'd outcome" where
  "int_to_fp t insn rm s =
     (let a = reg s (insn_rs1 insn)
      in if insn_rs2 insn = 0
         then fp_finish (insn_rd insn) s (cvt_i_sf a rm (fflags s) :: ('f word \<times> u32) option)
         else if insn_rs2 insn = 1
         then fp_finish (insn_rd insn) s (cvt_u_sf a rm (fflags s) :: ('f word \<times> u32) option)
         else Some (ILLEGAL_INSN, s))"

definition fp_to_fp :: "'f::len itself \<Rightarrow> u32 \<Rightarrow> nat \<Rightarrow> 'd cpu \<Rightarrow> 'd outcome" where
  "fp_to_fp t insn rm s =
     (if LENGTH('f) = 32 \<and> insn_rs2 insn = 1
      then fp_finish (insn_rd insn) s (cvt_sf64_sf32 (fp_get s (insn_rs1 insn)) rm (fflags s))
      else if LENGTH('f) = 64 \<and> insn_rs2 insn = 0
      then fp_finish (insn_rd insn) s (Some (cvt_sf32_sf64 (fp_get s (insn_rs1 insn)) (fflags s)))
      else Some (ILLEGAL_INSN, s))"

definition fp_move_x :: "'f::len itself \<Rightarrow> u32 \<Rightarrow> 'd cpu \<Rightarrow> 'd outcome" where
  "fp_move_x t insn s =
     (let a = fp_get s (insn_rs1 insn) :: 'f word; rm = insn_funct3 insn
      in if insn_rs2 insn \<noteq> 0 then Some (ILLEGAL_INSN, s)
         else if rm = 0 \<and> LENGTH('f) = 32
         then Some (NEXT_INSN, set_rd s (insn_rd insn) (ucast (fp_reg s (insn_rs1 insn))))
         else if rm = 1 then Some (NEXT_INSN, set_rd s (insn_rd insn) (fclass_sf a))
         else Some (ILLEGAL_INSN, s))"

definition fp_move_f :: "'f::len itself \<Rightarrow> u32 \<Rightarrow> 'd cpu \<Rightarrow> 'd outcome" where
  "fp_move_f t insn s =
     (if LENGTH('f) \<noteq> 32 \<or> insn_rs2 insn \<noteq> 0 \<or> insn_funct3 insn \<noteq> 0 then Some (ILLEGAL_INSN, s)
      else Some (NEXT_INSN, (set_fp s (insn_rd insn) (scast (reg s (insn_rs1 insn))))\<lparr>fs := 3\<rparr>))"

text \<open>The switch on \<open>imm = insn >> 25\<close>: its upper five bits, the lower two being \<open>OPID\<close>.\<close>

definition exec_fp_op :: "'f::len itself \<Rightarrow> nat \<Rightarrow> u32 \<Rightarrow> 'd cpu \<Rightarrow> 'd outcome" where
  "exec_fp_op t op insn s =
     (let with_rm = (\<lambda>k. case get_insn_rm s (insn_funct3 insn) of
            None \<Rightarrow> Some (ILLEGAL_INSN, s) | Some rm \<Rightarrow> k rm)
      in if op \<le> 3 then with_rm (\<lambda>rm. fp_arith t op insn rm s)
         else if op = 0x0b
         then with_rm (\<lambda>rm. if insn_rs2 insn \<noteq> 0 then Some (ILLEGAL_INSN, s) else fp_arith t op insn rm s)
         else if op = 0x04 then fp_sgnj t insn s
         else if op = 0x05 then fp_minmax t insn s
         else if op = 0x18 then with_rm (\<lambda>rm. fp_to_int t insn rm s)
         else if op = 0x14 then fp_compare t insn s
         else if op = 0x1a then with_rm (\<lambda>rm. int_to_fp t insn rm s)
         else if op = 0x08 then with_rm (\<lambda>rm. fp_to_fp t insn rm s)
         else if op = 0x1c then fp_move_x t insn s
         else if op = 0x1e then fp_move_f t insn s
         else Some (ILLEGAL_INSN, s))"

definition exec_fp :: "u32 \<Rightarrow> 'd cpu \<Rightarrow> 'd outcome" where
  "exec_fp insn s =
     (if fs s = 0 then Some (ILLEGAL_INSN, s)
      else let imm = unat (drop_bit 25 insn)
        in if imm mod 4 = 0 then exec_fp_op TYPE(32) (imm div 4) insn s
           else if imm mod 4 = 1 then exec_fp_op TYPE(64) (imm div 4) insn s
           else Some (ILLEGAL_INSN, s))"

end
