(* ===== verification/Riscv_Mmu_Lemmas.thy ===== *)
theory Riscv_Mmu_Lemmas
  imports Riscv_Mmu
begin

text \<open>
  Memory safety of the address translation and of the TLBs: every valid entry of a TLB maps
  its page to a whole page inside the buffer of a RAM range, and every access keeps that
  invariant and stays inside the buffers.
\<close>

section \<open>TLB entries\<close>

definition entry_ok :: "mem_map_t \<Rightarrow> nat \<Rightarrow> tlb_entry \<Rightarrow> bool" where
  "entry_ok mm i e \<longleftrightarrow> te_vaddr e = - 1 \<or>
     (unat (te_vaddr e) mod 4096 = 0 \<and> tlb_index (te_vaddr e) = i \<and>
      fst (te_addend e) < length mm \<and> pr_is_ram (mm ! fst (te_addend e)) \<and>
      0 \<le> snd (te_addend e) + uint (te_vaddr e) \<and>
      (snd (te_addend e) + uint (te_vaddr e)) mod 4096 = 0 \<and>
      snd (te_addend e) + uint (te_vaddr e) + 4096 \<le> uint (pr_org_size (mm ! fst (te_addend e))))"

definition tlb_wf :: "'d cpu \<Rightarrow> bool" where
  "tlb_wf s \<longleftrightarrow> (\<forall>i < 256. entry_ok (mem_map s) i (tlb_read s i) \<and>
     entry_ok (mem_map s) i (tlb_write s i) \<and> entry_ok (mem_map s) i (tlb_code s i))"

lemma unat_and_not_PG_MASK: "unat (a AND NOT PG_MASK) = unat a - unat a mod 4096"
  using unat_and_not_mask [of a 12] by (simp add: PG_MASK_def mask_eq_exp_minus_1)

lemma tlb_index_less [simp]: "tlb_index a < 256"
  using unsigned_less [of "drop_bit PG_SHIFT a"]
  by (simp add: tlb_index_def word_and_mask_mod)

lemma tlb_index_page: "tlb_index (a AND NOT PG_MASK) = tlb_index a"
proof -
  have "drop_bit 12 (a AND NOT (mask 12)) = drop_bit 12 a"
    by (rule bit_word_eqI) (auto simp: bit_simps dest: bit_imp_le_length)
  then show ?thesis by (simp add: tlb_index_def PG_SHIFT_def PG_MASK_def mask_eq_exp_minus_1)
qed

lemma tlb_tag_bits: "tlb_tag n a = (a AND NOT PG_MASK) OR (a AND mask (min n 12))"
proof -
  have "a AND NOT (mask 12 AND NOT (mask n)) = (a AND NOT (mask 12)) OR (a AND mask (min n 12))"
    by (rule bit_word_eqI) (auto simp: bit_simps)
  then show ?thesis by (simp add: tlb_tag_def PG_MASK_def mask_eq_exp_minus_1)
qed

lemma tlb_tag_aligned_iff:
  assumes "n \<le> 12" and al: "unat v mod 4096 = 0"
  shows "v = tlb_tag n a \<longleftrightarrow> v = a AND NOT PG_MASK \<and> a AND mask n = 0"
proof -
  have m: "min n 12 = n" using assms by simp
  have hi: "v AND mask 12 = 0" using al by (simp add: and_mask_eq_0_iff)
  have P: "PG_MASK = mask 12" by (simp add: PG_MASK_def mask_eq_exp_minus_1)
  show ?thesis
  proof
    assume v: "v = tlb_tag n a"
    have "(a AND mask n) = (tlb_tag n a AND mask 12) AND mask n"
      using assms(1) by (intro bit_word_eqI) (auto simp: tlb_tag_bits m P bit_simps)
    then have z: "a AND mask n = 0" using hi v by simp
    with v show "v = a AND NOT PG_MASK \<and> a AND mask n = 0" by (simp add: tlb_tag_bits m)
  next
    assume "v = a AND NOT PG_MASK \<and> a AND mask n = 0"
    then show "v = tlb_tag n a" by (simp add: tlb_tag_bits m)
  qed
qed

lemma tlb_tag_not_invalid: "n \<le> 3 \<Longrightarrow> tlb_tag n a \<noteq> - 1"
proof
  assume n: "n \<le> 3" and "tlb_tag n a = - 1"
  then have "bit (tlb_tag n a) 11 = bit (- 1 :: u32) 11" by simp
  then show False using n by (simp add: tlb_tag_def PG_MASK_def bit_simps)
qed

lemma page_part: "uint a = uint (a AND NOT PG_MASK) + int (unat a mod 4096)"
proof -
  have "unat a = unat (a AND NOT PG_MASK) + unat a mod 4096"
    by (simp add: unat_and_not_PG_MASK)
  then show ?thesis by (metis of_nat_add uint_nat unat_eq_nat_uint of_nat_unat)
qed

text \<open>A hit gives a pointer that the access may use.\<close>

lemma aligned_in_page: "o1 mod (2 ^ n) = 0 \<Longrightarrow> o1 < 4096 \<Longrightarrow> n \<le> 12 \<Longrightarrow> o1 + 2 ^ n \<le> (4096 :: nat)"
proof -
  assume a: "o1 mod (2 ^ n) = 0" "o1 < 4096" "n \<le> 12"
  then obtain k where k: "o1 = 2 ^ n * k" by (auto simp: mod_eq_0_iff_dvd elim: dvdE)
  have e: "(4096 :: nat) = 2 ^ n * 2 ^ (12 - n)" using a(3) by (simp flip: power_add)
  with a(2) k have "k < 2 ^ (12 - n)" by simp
  then have "Suc k \<le> 2 ^ (12 - n)" by simp
  then have "2 ^ n * Suc k \<le> 2 ^ n * 2 ^ (12 - n)" by (rule mult_le_mono2)
  with e k show ?thesis by simp
qed

lemma hit_host_ok:
  assumes ok: "entry_ok mm i e" and n: "n \<le> 3" and hit: "te_vaddr e = tlb_tag n a"
  shows "host_ok mm (te_ptr e a) (2 ^ n)"
proof -
  from hit n tlb_tag_not_invalid have v: "te_vaddr e \<noteq> - 1" by simp
  with ok have al: "unat (te_vaddr e) mod 4096 = 0" and r: "fst (te_addend e) < length mm"
    "pr_is_ram (mm ! fst (te_addend e))" and lo: "0 \<le> snd (te_addend e) + uint (te_vaddr e)"
    and hi: "snd (te_addend e) + uint (te_vaddr e) + 4096 \<le> uint (pr_org_size (mm ! fst (te_addend e)))"
    by (auto simp: entry_ok_def)
  from n al hit have va: "te_vaddr e = a AND NOT PG_MASK" and z: "a AND mask n = 0"
    using tlb_tag_aligned_iff [of n "te_vaddr e" a] by auto
  from z have "unat a mod 2 ^ n = 0" by (simp add: and_mask_eq_0_iff)
  then have "unat a mod 4096 mod 2 ^ n = 0"
    using n by (simp add: mod_mod_cancel le_imp_power_dvd [of n 12 2, simplified])
  then have "unat a mod 4096 + 2 ^ n \<le> 4096"
    using n by (intro aligned_in_page) auto
  then obtain k where k: "k + 2 ^ n \<le> 4096" "uint a = uint (te_vaddr e) + int k"
    using page_part [of a] va by auto
  have "int (k + 2 ^ n) \<le> int 4096" using k(1) by (simp only: of_nat_le_iff)
  with r lo hi k(2) show ?thesis
    unfolding host_ok_def te_ptr_def fst_conv snd_conv by auto
qed

lemma hit_code_ok:
  assumes ok: "entry_ok mm i e" and hit: "te_vaddr e = a AND NOT PG_MASK"
    and fit: "unat a mod 4096 + k \<le> 4096"
  shows "host_ok mm (te_ptr e a) k"
proof -
  have "te_vaddr e \<noteq> - 1"
  proof
    assume "te_vaddr e = - 1"
    then have "bit (a AND NOT PG_MASK) 0 = bit (- 1 :: u32) 0" using hit by simp
    then show False by (simp add: PG_MASK_def bit_simps)
  qed
  with ok have r: "fst (te_addend e) < length mm" "pr_is_ram (mm ! fst (te_addend e))"
    and lo: "0 \<le> snd (te_addend e) + uint (te_vaddr e)"
    and hi: "snd (te_addend e) + uint (te_vaddr e) + 4096 \<le> uint (pr_org_size (mm ! fst (te_addend e)))"
    by (auto simp: entry_ok_def)
  obtain j where j: "j + k \<le> 4096" "uint a = uint (te_vaddr e) + int j"
    using page_part [of a] hit fit by auto
  then show ?thesis using r lo hi
    unfolding host_ok_def te_ptr_def fst_conv snd_conv by auto
qed

section \<open>Physical accesses and translation\<close>

text \<open>Only the bytes of RAM changed.\<close>

definition mem_step :: "'d cpu \<Rightarrow> 'd cpu \<Rightarrow> bool" where
  "mem_step s s' \<longleftrightarrow> (\<exists>mm. s' = s\<lparr>mem_map := mm\<rparr> \<and> same_layout (mem_map s) mm)"

lemma mem_step_refl [simp]: "mem_step s s"
proof -
  have "s = s\<lparr>mem_map := mem_map s\<rparr>" by simp
  then show ?thesis unfolding mem_step_def using same_layout_refl by blast
qed

lemma mem_stepI: "same_layout (mem_map s) mm \<Longrightarrow> mem_step s (s\<lparr>mem_map := mm\<rparr>)"
  unfolding mem_step_def by blast

lemma mem_stepE:
  assumes "mem_step s s'"
  obtains mm where "s' = s\<lparr>mem_map := mm\<rparr>" and "same_layout (mem_map s) mm"
  using assms unfolding mem_step_def by blast

lemma mem_step_trans: "mem_step a b \<Longrightarrow> mem_step b c \<Longrightarrow> mem_step a c"
proof (elim mem_stepE)
  fix mm mm'
  assume "b = a\<lparr>mem_map := mm\<rparr>" "same_layout (mem_map a) mm"
    "c = b\<lparr>mem_map := mm'\<rparr>" "same_layout (mem_map b) mm'"
  then show "mem_step a c"
    using mem_stepI [of a mm'] same_layout_trans [of "mem_map a" mm mm'] by simp
qed

lemma mem_step_layout: "mem_step s s' \<Longrightarrow> same_layout (mem_map s) (mem_map s')"
  by (auto simp: mem_step_def)

lemma entry_ok_layout:
  assumes "same_layout mm mm'"
  shows "entry_ok mm' i e = entry_ok mm i e"
proof (cases "fst (te_addend e) < length mm")
  case True
  then show ?thesis
    using same_layout_length [OF assms] layout_eqD(2,4) [OF same_layout_nth [OF assms True]]
    by (simp add: entry_ok_def)
next
  case False
  then show ?thesis using same_layout_length [OF assms] by (simp add: entry_ok_def)
qed

lemma unat_ucast_u64 [simp]: "unat (ucast (a :: u32) :: u64) = unat a"
  by (simp add: unsigned_ucast_eq take_bit_nat_eq_self unsigned_less [THEN order.strict_trans2])

lemma ram_ptr_ok:
  assumes wf: "map_wf mm" and r: "get_phys_mem_range mm (ucast (a :: u32)) = Some i"
    and ram: "pr_is_ram (mm ! i)" and al: "unat a mod 2 ^ n = 0" and n: "n \<le> 12"
  shows "host_ok mm (i, int (unat (ucast a - pr_addr (mm ! i)))) (2 ^ n)"
proof -
  note rd = get_phys_mem_range_SomeD [OF r]
  have rw: "range_wf (mm ! i)" using wf rd(1) by (rule map_wf_nth)
  define off where "off = unat (ucast a - pr_addr (mm ! i))"
  have b: "off - off mod 4096 + 4096 \<le> unat (pr_org_size (mm ! i))"
    and m: "off mod 4096 = unat a mod 4096"
    using ram_page_bounds(2,3) [OF rw ram rd(2)] by (simp_all add: off_def)
  have "unat a mod 4096 mod 2 ^ n = 0"
    using n al by (simp add: mod_mod_cancel le_imp_power_dvd [of n 12 2, simplified])
  then have "off mod 4096 + 2 ^ n \<le> 4096" using m n by (intro aligned_in_page) auto
  with b have "off + 2 ^ n \<le> unat (pr_org_size (mm ! i))" by linarith
  then have "int (off + 2 ^ n) \<le> int (unat (pr_org_size (mm ! i)))" by (simp only: of_nat_le_iff)
  with rd(1) ram show ?thesis by (simp add: host_ok_def off_def)
qed

lemma host_read_total: "host_ok mm p n \<Longrightarrow> host_read mm p n \<noteq> None"
  by (simp add: host_read_def)

lemma host_write_total: "host_ok mm p n \<Longrightarrow> host_write mm p n v \<noteq> None"
  by (simp add: host_write_def host_write_bytes_def)

lemma phys_read_u32_total:
  assumes "map_wf (mem_map s)" and "unat a mod 4 = 0"
  shows "phys_read_u32 s a \<noteq> None"
  using ram_ptr_ok [OF assms(1), of a _ 2] assms(2)
  by (auto simp: phys_read_u32_def phys_read_def host_read_def split: option.split)

lemma phys_write_u32_total:
  assumes "map_wf (mem_map s)" and "unat a mod 4 = 0"
  shows "phys_write_u32 s a v \<noteq> None"
  using ram_ptr_ok [OF assms(1), of a _ 2] assms(2)
  by (auto simp: phys_write_u32_def phys_write_def host_write_def host_write_bytes_def
      split: option.split)

lemma phys_write_u32_step: "phys_write_u32 s a v = Some s' \<Longrightarrow> mem_step s s'"
  by (auto simp: phys_write_u32_def phys_write_def bind_Some_conv
      split: option.splits if_splits dest: host_write_layout intro: mem_stepI)

lemma pte_slot_aligned:
  assumes "unat base mod 4096 = 0"
  shows "unat (pte_slot base v n) mod 4 = 0"
proof -
  define x where "x = push_bit 2 (drop_bit n v AND mask 10)"
  have b: "unat base mod 4 = 0"
    using assms by (rule mod_4096_mod_4)
  have "x AND mask 2 = 0" unfolding x_def by (rule bit_word_eqI) (auto simp: bit_simps)
  then have "unat x mod 2 ^ 2 = 0" by (simp only: and_mask_eq_0_iff)
  with b have "(unat base + unat x) mod 4 = 0" by (simp add: mod_add_eq [of _ 4, symmetric] mod_0_imp_dvd)
  moreover have "unat (base + x) mod 4 = (unat base + unat x) mod 4"
    by (simp add: unat_word_ariths mod_mod_cancel)
  ultimately show ?thesis unfolding pte_slot_def x_def by (simp only:)
qed

lemma push_page_aligned: "unat (push_bit 12 (x :: u32)) mod 4096 = 0"
proof -
  have "push_bit 12 x AND mask 12 = 0" by (rule bit_word_eqI) (auto simp: bit_simps)
  then have "unat (push_bit 12 x) mod 2 ^ 12 = 0" by (simp only: and_mask_eq_0_iff)
  then show ?thesis by simp
qed

lemma page_merge:
  assumes "12 \<le> n"
  shows "unat ((v AND mask n) OR (p AND NOT (mask n))) mod 4096 = unat (v :: u32) mod 4096"
proof -
  have "((v AND mask n) OR (p AND NOT (mask n))) AND mask 12 = v AND mask 12"
    using assms by (intro bit_word_eqI) (auto simp: bit_simps)
  then have "unat (((v AND mask n) OR (p AND NOT (mask n))) AND mask 12) = unat (v AND mask 12)"
    by (simp only:)
  then show ?thesis by (simp only: word_and_mask_mod) simp
qed

text \<open>
  The walk always returns, changes RAM bytes only (the A and D bits), and a translation keeps
  the offset in the page.
\<close>

lemma pt_leaf_safe:
  assumes "map_wf (mem_map s)" and al: "unat a mod 4 = 0" and n: "12 \<le> n"
  shows "\<exists>r s'. pt_leaf s vaddr access prv a pte n = Some (r, s') \<and> mem_step s s' \<and>
    (\<forall>pa. r = OK pa \<longrightarrow> unat pa mod 4096 = unat vaddr mod 4096)"
proof -
  have "\<forall>v. \<exists>s1. phys_write_u32 s a v = Some s1 \<and> mem_step s s1"
    using phys_write_u32_total [OF assms(1) al] phys_write_u32_step by blast
  then obtain W where W: "\<And>v. phys_write_u32 s a v = Some (W v)" "\<And>v. mem_step s (W v)"
    by metis
  show ?thesis
    using page_merge [OF n] by (simp add: pt_leaf_def Let_def W)
qed

lemma pt_walk_safe:
  assumes "map_wf (mem_map s)" and "unat pte_addr mod 4096 = 0"
  shows "\<exists>r s'. pt_walk k s vaddr access prv pte_addr = Some (r, s') \<and> mem_step s s' \<and>
    (\<forall>pa. r = OK pa \<longrightarrow> unat pa mod 4096 = unat vaddr mod 4096)"
  using assms(2)
proof (induction k arbitrary: pte_addr)
  case 0
  show ?case by simp
next
  case (Suc k)
  have al: "unat (pte_slot pte_addr vaddr (PG_SHIFT + 10 * k)) mod 4 = 0"
    using Suc.prems by (rule pte_slot_aligned)
  obtain pte where pte: "phys_read_u32 s (pte_slot pte_addr vaddr (PG_SHIFT + 10 * k)) = Some pte"
    using phys_read_u32_total [OF assms(1) al] by auto
  show ?case
    using pte pt_leaf_safe [OF assms(1) al, of "PG_SHIFT + 10 * k" vaddr access prv pte]
      Suc.IH [OF push_page_aligned [of "drop_bit 10 pte"]]
    by (simp add: Let_def PG_SHIFT_def)
qed

lemma get_phys_addr_safe:
  assumes "map_wf (mem_map s)" and "cur_xlen s = 32"
  shows "\<exists>r s'. get_phys_addr s vaddr access = Some (r, s') \<and> mem_step s s' \<and>
    (\<forall>pa. r = OK pa \<longrightarrow> unat pa mod 4096 = unat vaddr mod 4096)"
  using pt_walk_safe [OF assms(1) push_page_aligned [of "satp s AND mask 22"],
      of 2 vaddr access "effective_priv s access"] assms(2)
  by (auto simp: get_phys_addr_def Let_def MAX_XLEN_def PG_SHIFT_def)

section \<open>The invariant of the memory system\<close>

definition mem_wf :: "'d cpu \<Rightarrow> bool" where
  "mem_wf s \<longleftrightarrow> map_wf (mem_map s) \<and> tlb_wf s \<and> cur_xlen s = 32"

lemma mem_step_wf: "mem_step s s' \<Longrightarrow> mem_wf s \<Longrightarrow> mem_wf s'"
  by (auto elim!: mem_stepE simp: mem_wf_def tlb_wf_def map_wf_layout entry_ok_layout)

lemma mk_entry_ok:
  assumes wf: "map_wf mm" and r: "get_phys_mem_range mm (ucast (p :: u32)) = Some i"
    and ram: "pr_is_ram (mm ! i)" and pg: "unat p mod 4096 = unat a mod 4096"
  shows "entry_ok mm (tlb_index a) (mk_entry a (i, int (unat (ucast p - pr_addr (mm ! i)))))"
proof -
  note rd = get_phys_mem_range_SomeD [OF r]
  have rw: "range_wf (mm ! i)" using wf rd(1) by (rule map_wf_nth)
  define off where "off = unat (ucast p - pr_addr (mm ! i))"
  have b: "off - off mod 4096 + 4096 \<le> unat (pr_org_size (mm ! i))"
    and m: "off mod 4096 = unat a mod 4096"
    using ram_page_bounds(2,3) [OF rw ram rd(2)] pg by (simp_all add: off_def)
  obtain k where k: "k = unat a mod 4096" "uint a = uint (a AND NOT PG_MASK) + int k"
    using page_part [of a] by blast
  have k2: "k = off mod 4096" using k(1) m by simp
  define q where "q = off div 4096"
  have o1: "off = 4096 * q + k" unfolding q_def k2 by simp
  have e: "int off - uint a + uint (a AND NOT PG_MASK) = 4096 * int q"
  proof -
    have "int off = 4096 * int q + int k" using o1 by linarith
    with k(2) show ?thesis by linarith
  qed
  have "4096 * q + 4096 \<le> unat (pr_org_size (mm ! i))"
    using b o1 unfolding k2 [symmetric] by linarith
  then have "int (4096 * q + 4096) \<le> int (unat (pr_org_size (mm ! i)))" by (simp only: of_nat_le_iff)
  then have hi: "4096 * int q + 4096 \<le> uint (pr_org_size (mm ! i))" by simp
  have pg0: "unat (a AND NOT PG_MASK) mod 4096 = 0"
    by (simp add: unat_and_not_PG_MASK minus_mod_eq_mult_div)
  define ent where "ent = mk_entry a (i, int off)"
  have va: "te_vaddr ent = a AND NOT PG_MASK" and ix: "fst (te_addend ent) = i"
    and ad: "snd (te_addend ent) + uint (a AND NOT PG_MASK) = 4096 * int q"
    using e by (simp_all add: ent_def mk_entry_def)
  have "entry_ok mm (tlb_index a) ent"
    unfolding entry_ok_def va ad ix tlb_index_page using hi pg0 rd(1) ram by simp
  then show ?thesis by (simp only: ent_def off_def)
qed

section \<open>What an access may change\<close>

text \<open>
  A device callback may change RAM bytes, the interrupt lines, the power-down flag and its own
  state, and may drop write-TLB entries. A memory access of the CPU may do that and, besides,
  fill TLB entries and set the pending exception. \<open>core\<close> erases exactly these fields.
\<close>

definition core :: "'d cpu \<Rightarrow> 'd cpu" where
  "core s = s\<lparr>mem_map := [], mip := 0, power_down_flag := False, dev := undefined,
     tlb_read := (\<lambda>_. undefined), tlb_write := (\<lambda>_. undefined), tlb_code := (\<lambda>_. undefined),
     pending_exception := 0, pending_tval := 0\<rparr>"

definition dev_step :: "'d cpu \<Rightarrow> 'd cpu \<Rightarrow> bool" where
  "dev_step s s' \<longleftrightarrow> core s' = core s \<and> same_layout (mem_map s) (mem_map s') \<and>
     tlb_read s' = tlb_read s \<and> tlb_code s' = tlb_code s \<and>
     pending_exception s' = pending_exception s \<and> pending_tval s' = pending_tval s \<and>
     (\<forall>i. tlb_write s' i = tlb_write s i \<or> tlb_write s' i = (tlb_write s i)\<lparr>te_vaddr := - 1\<rparr>)"

definition acc_step :: "'d cpu \<Rightarrow> 'd cpu \<Rightarrow> bool" where
  "acc_step s s' \<longleftrightarrow> core s' = core s \<and> same_layout (mem_map s) (mem_map s') \<and> mem_wf s'"

lemma core_eqD:
  assumes "core s' = core s"
  shows "pc s' = pc s" "reg s' = reg s" "fp_reg s' = fp_reg s" "fflags s' = fflags s"
    "frm s' = frm s" "cur_xlen s' = cur_xlen s" "priv s' = priv s" "fs s' = fs s"
    "mxl s' = mxl s" "n_cycles s' = n_cycles s" "insn_counter s' = insn_counter s"
    "mstatus s' = mstatus s" "mtvec s' = mtvec s" "mepc s' = mepc s" "mie s' = mie s"
    "medeleg s' = medeleg s" "mideleg s' = mideleg s" "mcounteren s' = mcounteren s"
    "stvec s' = stvec s" "sepc s' = sepc s" "satp s' = satp s" "scounteren s' = scounteren s"
    "misa s' = misa s" "mhartid s' = mhartid s" "load_res s' = load_res s"
  using assms by (cases s, cases s', simp add: core_def)+

lemma core_updates [simp]:
  "core (s\<lparr>mem_map := mm\<rparr>) = core s" "core (s\<lparr>mip := m\<rparr>) = core s"
  "core (s\<lparr>power_down_flag := b\<rparr>) = core s" "core (s\<lparr>dev := d\<rparr>) = core s"
  "core (s\<lparr>tlb_read := t\<rparr>) = core s" "core (s\<lparr>tlb_write := t\<rparr>) = core s"
  "core (s\<lparr>tlb_code := t\<rparr>) = core s" "core (s\<lparr>pending_exception := e\<rparr>) = core s"
  "core (s\<lparr>pending_tval := tv\<rparr>) = core s"
  by (simp_all add: core_def)

lemma acc_step_trans: "acc_step a b \<Longrightarrow> acc_step b c \<Longrightarrow> acc_step a c"
  by (auto simp: acc_step_def intro: same_layout_trans)

lemma acc_step_refl: "mem_wf s \<Longrightarrow> acc_step s s"
  by (simp add: acc_step_def)

lemma mem_step_acc: "mem_wf s \<Longrightarrow> mem_step s s' \<Longrightarrow> acc_step s s'"
  using mem_step_wf [of s s'] by (auto simp: acc_step_def elim!: mem_stepE)

lemma dev_step_acc:
  assumes "mem_wf s" and "dev_step s s'"
  shows "acc_step s s'"
proof -
  have lay: "same_layout (mem_map s) (mem_map s')" and core: "core s' = core s"
    and tl: "tlb_read s' = tlb_read s" "tlb_code s' = tlb_code s"
    and tw: "\<And>i. tlb_write s' i = tlb_write s i \<or> tlb_write s' i = (tlb_write s i)\<lparr>te_vaddr := - 1\<rparr>"
    using assms(2) by (simp_all add: dev_step_def)
  have inval: "entry_ok mm i (e\<lparr>te_vaddr := - 1\<rparr>)" for mm i e
    by (simp add: entry_ok_def)
  from assms(1) have "map_wf (mem_map s)" and x: "cur_xlen s = 32"
    and old: "\<And>i. i < 256 \<Longrightarrow> entry_ok (mem_map s) i (tlb_read s i) \<and>
      entry_ok (mem_map s) i (tlb_write s i) \<and> entry_ok (mem_map s) i (tlb_code s i)"
    by (simp_all add: mem_wf_def tlb_wf_def)
  then have "map_wf (mem_map s')" using map_wf_layout [OF lay] by simp
  moreover have "entry_ok (mem_map s) i (tlb_write s' i)" if "i < 256" for i
    using tw [of i] old [OF that] inval by metis
  ultimately have "mem_wf s'"
    using old tl core_eqD(6) [OF core] x
    by (simp add: mem_wf_def tlb_wf_def entry_ok_layout [OF lay])
  with core lay show ?thesis by (simp add: acc_step_def)
qed

lemma fill_read_wf:
  "mem_wf s \<Longrightarrow> i < 256 \<Longrightarrow> entry_ok (mem_map s) i e \<Longrightarrow>
     mem_wf (s\<lparr>tlb_read := (tlb_read s)(i := e)\<rparr>)"
  by (simp add: mem_wf_def tlb_wf_def)

lemma fill_code_wf:
  "mem_wf s \<Longrightarrow> i < 256 \<Longrightarrow> entry_ok (mem_map s) i e \<Longrightarrow>
     mem_wf (s\<lparr>tlb_code := (tlb_code s)(i := e)\<rparr>)"
  by (simp add: mem_wf_def tlb_wf_def)

lemma fill_write_wf:
  "mem_wf s \<Longrightarrow> i < 256 \<Longrightarrow> entry_ok (mem_map s) i e \<Longrightarrow>
     mem_wf (s\<lparr>tlb_write := (tlb_write s)(i := e)\<rparr>)"
  by (simp add: mem_wf_def tlb_wf_def)

lemma pending_wf: "mem_wf s \<Longrightarrow> mem_wf (s\<lparr>pending_tval := a, pending_exception := e\<rparr>)"
  by (simp add: mem_wf_def tlb_wf_def)

lemma mem_wf_layout: "mem_wf s \<Longrightarrow> same_layout (mem_map s) mm \<Longrightarrow> mem_wf (s\<lparr>mem_map := mm\<rparr>)"
  by (rule mem_step_wf [OF mem_stepI])

lemma translate_safe:
  assumes "mem_wf s"
  obtains r s' where "get_phys_addr s a acc = Some (r, s')" and "acc_step s s'"
    and "dev s' = dev s" and "tlb_write s' = tlb_write s"
    and "\<And>pa. r = OK pa \<Longrightarrow> unat pa mod 4096 = unat a mod 4096"
proof -
  from assms get_phys_addr_safe [of s a acc] obtain r s' where
    "get_phys_addr s a acc = Some (r, s')" and st: "mem_step s s'"
    and "\<forall>pa. r = OK pa \<longrightarrow> unat pa mod 4096 = unat a mod 4096"
    by (auto simp: mem_wf_def)
  moreover from st have "dev s' = dev s" "tlb_write s' = tlb_write s" by (auto elim!: mem_stepE)
  moreover have "acc_step s s'" using assms st by (rule mem_step_acc)
  ultimately show ?thesis using that by blast
qed

end
