(* ===== verification/Riscv_Bus.thy ===== *)
theory Riscv_Bus
  imports Riscv_Mmu_Lemmas
begin

text \<open>
  The interface between the CPU and the device ranges, as a locale: what \<open>riscv_cpu.c\<close> relies on
  when it calls the \<open>read_func\<close> and \<open>write_func\<close> of a range. Inside it, every read, write and
  instruction fetch of the CPU returns, stays inside the RAM buffers and keeps the invariant.
\<close>

section \<open>The contract of the devices\<close>

text \<open>
  What the CPU relies on when it calls the callbacks of a device range: with a size the range
  declares, they return, and change only what a device may change. \<open>inv\<close> is an invariant
  of the device state (and of the layout of the map), which the CPU cannot break.
\<close>

locale device_bus =
  fixes D :: "'d dev_ops" and inv :: "'d cpu \<Rightarrow> bool"
  assumes inv_frame: "inv s \<Longrightarrow> same_layout (mem_map s) (mem_map s') \<Longrightarrow> dev s' = dev s \<Longrightarrow> inv s'"
    and dev_read_ok: "inv s \<Longrightarrow> i < length (mem_map s) \<Longrightarrow> \<not> pr_is_ram (mem_map s ! i) \<Longrightarrow>
      bit (pr_devio_flags (mem_map s ! i)) n \<Longrightarrow>
      \<exists>v s'. dv_read D (pr_dev (mem_map s ! i)) off n s = Some (v, s') \<and> dev_step s s' \<and> inv s'"
    and dev_write_ok: "inv s \<Longrightarrow> i < length (mem_map s) \<Longrightarrow> \<not> pr_is_ram (mem_map s ! i) \<Longrightarrow>
      bit (pr_devio_flags (mem_map s ! i)) n \<Longrightarrow>
      \<exists>s'. dv_write D (pr_dev (mem_map s ! i)) off v n s = Some s' \<and> dev_step s s' \<and> inv s'"
begin

definition good :: "'d cpu \<Rightarrow> bool" where
  "good s \<longleftrightarrow> mem_wf s \<and> inv s"

definition step_ok :: "'d cpu \<Rightarrow> 'd cpu \<Rightarrow> bool" where
  "step_ok s s' \<longleftrightarrow> acc_step s s' \<and> good s'"

lemma step_ok_trans: "step_ok a b \<Longrightarrow> step_ok b c \<Longrightarrow> step_ok a c"
  by (auto simp: step_ok_def intro: acc_step_trans)

lemma step_ok_refl: "good s \<Longrightarrow> step_ok s s"
  by (simp add: step_ok_def good_def acc_step_refl)

lemma step_okD: "step_ok s s' \<Longrightarrow> good s'"
  by (simp add: step_ok_def)

lemma same_dev_step: "good s \<Longrightarrow> acc_step s s' \<Longrightarrow> dev s' = dev s \<Longrightarrow> step_ok s s'"
  by (auto simp: step_ok_def good_def acc_step_def intro: inv_frame)

lemma dev_step_ok: "good s \<Longrightarrow> dev_step s s' \<Longrightarrow> inv s' \<Longrightarrow> step_ok s s'"
  using dev_step_acc [of s s'] by (auto simp: step_ok_def good_def acc_step_def)

lemma size32_flag: "(f :: u32) AND DEVIO_SIZE32 \<noteq> 0 \<longleftrightarrow> bit f 2"
proof -
  have "(f AND DEVIO_SIZE32 \<noteq> 0) = (f AND push_bit 2 1 \<noteq> 0)" by (simp add: DEVIO_SIZE32_def)
  also have "\<dots> = bit f 2" by (simp add: bit_iff_and_push_bit_not_eq_0)
  finally show ?thesis .
qed

lemma pending_step: "step_ok s s1 \<Longrightarrow> step_ok s (s1\<lparr>pending_tval := a, pending_exception := e\<rparr>)"
  by (auto simp: step_ok_def good_def acc_step_def pending_wf intro: inv_frame)

text \<open>An aligned read: translation, then a RAM page or a device.\<close>

lemma page_aligned:
  assumes "unat (a :: u32) mod 2 ^ n = 0" and "unat (p :: u32) mod 4096 = unat a mod 4096" and "n \<le> 3"
  shows "unat p mod 2 ^ n = 0"
proof -
  have d: "(2 :: nat) ^ n dvd 2 ^ 12" using assms(3) by (intro le_imp_power_dvd) simp
  have "unat p mod 2 ^ n = unat p mod 2 ^ 12 mod 2 ^ n" using mod_mod_cancel [OF d] by simp
  also have "\<dots> = unat a mod 2 ^ 12 mod 2 ^ n" using assms(2) by simp
  also have "\<dots> = unat a mod 2 ^ n" using mod_mod_cancel [OF d] by simp
  finally show ?thesis using assms(1) by simp
qed

lemma ram_read_step:
  assumes g: "good s1" and st: "step_ok s s1" and r: "get_phys_mem_range (mem_map s1) (ucast (pa :: u32)) = Some i"
    and ram: "pr_is_ram (mem_map s1 ! i)" and pg: "unat pa mod 4096 = unat a mod 4096"
  shows "step_ok s (s1\<lparr>tlb_read := (tlb_read s1)(tlb_index a :=
    mk_entry a (i, int (unat (ucast pa - pr_addr (mem_map s1 ! i)))))\<rparr>)"
proof -
  have "entry_ok (mem_map s1) (tlb_index a)
      (mk_entry a (i, int (unat (ucast pa - pr_addr (mem_map s1 ! i)))))"
    using mk_entry_ok [OF _ r ram pg] g by (simp add: good_def mem_wf_def)
  with g have "mem_wf (s1\<lparr>tlb_read := (tlb_read s1)(tlb_index a :=
      mk_entry a (i, int (unat (ucast pa - pr_addr (mem_map s1 ! i)))))\<rparr>)"
    by (intro fill_read_wf) (auto simp: good_def)
  with g st show ?thesis
    by (auto simp: step_ok_def good_def acc_step_def intro: inv_frame)
qed

lemma read_aligned_slow_safe:
  assumes g: "good s" and al: "unat a mod 2 ^ n = 0" and n: "n \<le> 3"
  shows "\<exists>r s'. read_aligned_slow D n a s = Some (r, s') \<and> step_ok s s'"
proof -
  from g have "mem_wf s" by (simp add: good_def)
  then obtain r s1 where tr: "get_phys_addr s a ACCESS_READ = Some (r, s1)" and "acc_step s s1"
    "dev s1 = dev s" and pg: "\<And>pa. r = OK pa \<Longrightarrow> unat pa mod 4096 = unat a mod 4096"
    using translate_safe by blast
  with g have st: "step_ok s s1" by (simp add: same_dev_step)
  then have g1: "good s1" by (rule step_okD)
  show ?thesis
  proof (cases r)
    case ERR
    with tr st pending_step show ?thesis by (auto simp: read_aligned_slow_def)
  next
    case (OK pa)
    show ?thesis
    proof (cases "get_phys_mem_range (mem_map s1) (ucast pa)")
      case None
      with OK tr st show ?thesis by (simp add: read_aligned_slow_def)
    next
      case (Some i)
      note i = get_phys_mem_range_SomeD(1) [OF Some]
      show ?thesis
      proof (cases "pr_is_ram (mem_map s1 ! i)")
        case True
        have "unat pa mod 2 ^ n = 0" using al pg [OF OK] n by (rule page_aligned)
        then have "host_ok (mem_map s1) (i, int (unat (ucast pa - pr_addr (mem_map s1 ! i)))) (2 ^ n)"
          using g1 Some True n by (intro ram_ptr_ok) (auto simp: good_def mem_wf_def)
        then show ?thesis
          using ram_read_step [OF g1 st Some True pg [OF OK]] host_read_total OK tr Some True
          by (fastforce simp: read_aligned_slow_def Let_def)
      next
        case False
        note rd = dev_read_ok [OF _ _ False]
        have one: "\<exists>v s'. dv_read D (pr_dev (mem_map s1 ! i)) off k t = Some (v, s') \<and> step_ok s s'"
          if "step_ok s t" "same_layout (mem_map s1) (mem_map t)"
            "bit (pr_devio_flags (mem_map s1 ! i)) k" for off k t
        proof -
          note l = layout_eqD [OF same_layout_nth [OF that(2) i]]
          have "\<exists>v s'. dv_read D (pr_dev (mem_map t ! i)) off k t = Some (v, s') \<and> dev_step t s' \<and> inv s'"
            using that False i same_layout_length [OF that(2)] l(4,9)
            by (intro dev_read_ok) (auto dest: step_okD simp: good_def)
          then show ?thesis
            using that(1) dev_step_ok [OF step_okD [OF that(1)]] step_ok_trans l(8) by metis
        qed
        show ?thesis
        proof (cases "bit (pr_devio_flags (mem_map s1 ! i)) n")
          case True
          from one [OF st same_layout_refl True, of "ucast (ucast pa - pr_addr (mem_map s1 ! i))"]
          obtain v s2 where "dv_read D (pr_dev (mem_map s1 ! i))
              (ucast (ucast pa - pr_addr (mem_map s1 ! i))) n s1 = Some (v, s2)" "step_ok s s2"
            by blast
          then show ?thesis
            using OK tr Some False True by (simp add: read_aligned_slow_def Let_def)
        next
          case nb: False
          show ?thesis
          proof (cases "bit (pr_devio_flags (mem_map s1 ! i)) 2 \<and> n = 3")
            case True
            then have b2: "bit (pr_devio_flags (mem_map s1 ! i)) 2" by simp
            define off where "off = (ucast (ucast pa - pr_addr (mem_map s1 ! i)) :: u32)"
            from one [OF st same_layout_refl b2, of off] obtain v0 s2 where
              r0: "dv_read D (pr_dev (mem_map s1 ! i)) off 2 s1 = Some (v0, s2)" and st2: "step_ok s s2"
              by blast
            have "same_layout (mem_map s1) (mem_map s2)"
              using st st2 by (auto simp: step_ok_def acc_step_def same_layout_def)
            from one [OF st2 this b2, of "off + 4"] obtain v1 s3 where
              r1: "dv_read D (pr_dev (mem_map s1 ! i)) (off + 4) 2 s2 = Some (v1, s3)" and "step_ok s s3"
              by blast
            then show ?thesis
              using OK tr Some False nb True r0
              by (simp add: read_aligned_slow_def Let_def size32_flag off_def)
          next
            case no: False
            then show ?thesis
              using OK tr Some False nb st by (auto simp: read_aligned_slow_def Let_def size32_flag)
          qed
        qed
      qed
    qed
  qed
qed

text \<open>A fast path: a TLB hit needs no translation; a miss is the slow path given.\<close>

lemma tlb_read_host_ok:
  "good s \<Longrightarrow> n \<le> 3 \<Longrightarrow> te_vaddr (tlb_read s (tlb_index a)) = tlb_tag n a \<Longrightarrow>
     host_ok (mem_map s) (te_ptr (tlb_read s (tlb_index a)) a) (2 ^ n)"
  by (rule hit_host_ok [of _ "tlb_index a"]) (auto simp: good_def mem_wf_def tlb_wf_def)

lemma tlb_write_host_ok:
  "good s \<Longrightarrow> n \<le> 3 \<Longrightarrow> te_vaddr (tlb_write s (tlb_index a)) = tlb_tag n a \<Longrightarrow>
     host_ok (mem_map s) (te_ptr (tlb_write s (tlb_index a)) a) (2 ^ n)"
  by (rule hit_host_ok [of _ "tlb_index a"]) (auto simp: good_def mem_wf_def tlb_wf_def)

lemma read_fast_safe:
  assumes g: "good s" and n: "n \<le> 3"
    and slow: "\<exists>r s'. slow n a s = Some (r, s') \<and> step_ok s s'"
  shows "\<exists>r s'. read_fast slow n a s = Some (r, s') \<and> step_ok s s'"
proof (cases "te_vaddr (tlb_read s (tlb_index a)) = tlb_tag n a")
  case True
  then obtain v where "host_read (mem_map s) (te_ptr (tlb_read s (tlb_index a)) a) (2 ^ n) = Some v"
    using host_read_total [OF tlb_read_host_ok [OF g n True]] by blast
  with True show ?thesis using step_ok_refl [OF g] by (simp add: read_fast_def)
next
  case False
  with slow show ?thesis by (auto simp: read_fast_def)
qed

lemma read_part_safe:
  "good s \<Longrightarrow> unat a mod 2 ^ n = 0 \<Longrightarrow> n \<le> 3 \<Longrightarrow>
     \<exists>r s'. read_part D n a s = Some (r, s') \<and> step_ok s s'"
  unfolding read_part_def by (intro read_fast_safe read_aligned_slow_safe)

lemma read_two_safe:
  assumes "good s" and "unat a mod 2 ^ n = 0" and "unat b mod 2 ^ n = 0" and "n \<le> 3"
  shows "\<exists>r s'. read_two D n a b s = Some (r, s') \<and> step_ok s s'"
proof -
  obtain r0 s1 where 1: "read_part D n a s = Some (r0, s1)" "step_ok s s1"
    using read_part_safe [OF assms(1,2,4)] by blast
  show ?thesis
  proof (cases r0)
    case ERR
    with 1 show ?thesis by (simp add: read_two_def)
  next
    case (OK v0)
    obtain r1 s2 where 2: "read_part D n b s1 = Some (r1, s2)" "step_ok s1 s2"
      using read_part_safe [OF step_okD [OF 1(2)] assms(3,4)] by blast
    from 1(2) 2(2) have "step_ok s s2" by (rule step_ok_trans)
    with OK 1 2 show ?thesis by (cases r1) (simp_all add: read_two_def)
  qed
qed

lemma aligned_down: "unat (a - of_nat (unat (a AND mask n)) :: u32) mod 2 ^ n = 0"
proof -
  have "a - (a AND mask n) = a AND NOT (mask n)"
  proof -
    have "(a AND mask n) AND (a AND NOT (mask n)) = 0" "(a AND mask n) OR (a AND NOT (mask n)) = a"
      by (auto intro!: bit_word_eqI simp: bit_simps)
    then show ?thesis
      using word_plus_and_or [of "a AND mask n" "a AND NOT (mask n)"] by (simp add: algebra_simps)
  qed
  then show ?thesis by (simp add: unat_and_not_mask minus_mod_eq_mult_div)
qed

lemma aligned_next:
  assumes "unat (b :: u32) mod 2 ^ n = 0" and "n \<le> 3"
  shows "unat (b + 2 ^ n) mod 2 ^ n = 0"
proof -
  from assms(2) consider "n = 0" | "n = 1" | "n = 2" | "n = 3" by linarith
  then show ?thesis using assms(1) by cases (simp_all add: unat_word_ariths mod_mod_cancel)
qed

lemma target_read_slow_safe:
  assumes g: "good s" and n: "n \<le> 3"
  shows "\<exists>r s'. target_read_slow D n a s = Some (r, s') \<and> step_ok s s'"
proof (cases "unat (a AND mask n) = 0")
  case True
  then have "unat a mod 2 ^ n = 0" by (simp only: word_and_mask_mod)
  with g n True show ?thesis using read_aligned_slow_safe by (simp add: target_read_slow_def)
next
  case False
  define b where "b = a - of_nat (unat (a AND mask n))"
  have al: "unat b mod 2 ^ n = 0" unfolding b_def by (rule aligned_down)
  have al2: "unat (b + 2 ^ n) mod 2 ^ n = 0" using al n by (intro aligned_next) auto
  from n consider "n = 0" | "n = 1" | "n = 2" | "n = 3" by linarith
  then show ?thesis
  proof cases
    case 1
    with False show ?thesis by simp
  next
    case 2
    with False g show ?thesis
      using read_two_safe [of s a 0 "a + 1"] by (auto simp: target_read_slow_def)
  next
    case 3
    with False g al al2 show ?thesis
      using read_two_safe [of s b 2 "b + 4"]
      by (auto simp: target_read_slow_def Let_def b_def)
  next
    case 4
    with False g al al2 show ?thesis
      using read_two_safe [of s b 3 "b + 8"]
      by (auto simp: target_read_slow_def Let_def b_def)
  qed
qed

lemma target_read_safe:
  "good s \<Longrightarrow> n \<le> 3 \<Longrightarrow> \<exists>r s'. target_read D n a s = Some (r, s') \<and> step_ok s s'"
  unfolding target_read_def by (intro read_fast_safe target_read_slow_safe)

text \<open>The writes, the byte loop of an unaligned write, and the instruction fetch.\<close>

lemma ram_write_step:
  assumes st: "step_ok s s1" and r: "get_phys_mem_range (mem_map s1) (ucast (pa :: u32)) = Some i"
    and ram: "pr_is_ram (mem_map s1 ! i)" and pg: "unat pa mod 4096 = unat a mod 4096"
    and db: "phys_mem_set_dirty_bit (mem_map s1 ! i) off = Some pr"
    and hw: "host_write ((mem_map s1)[i := pr]) ptr k v = Some mm"
  shows "step_ok s (s1\<lparr>tlb_write := (tlb_write s1)(tlb_index a :=
    mk_entry a (i, int (unat (ucast pa - pr_addr (mem_map s1 ! i))))), mem_map := mm\<rparr>)"
proof -
  have g: "good s1" using st by (rule step_okD)
  note i = get_phys_mem_range_SomeD(1) [OF r]
  have "same_layout (mem_map s1) ((mem_map s1)[i := pr])"
    using set_dirty_bit_layout [OF db] by (intro same_layout_update) auto
  then have lay: "same_layout (mem_map s1) mm"
    using host_write_layout [OF hw] by (rule same_layout_trans)
  have "entry_ok (mem_map s1) (tlb_index a)
      (mk_entry a (i, int (unat (ucast pa - pr_addr (mem_map s1 ! i)))))"
    using mk_entry_ok [OF _ r ram pg] g by (simp add: good_def mem_wf_def)
  with g have "mem_wf (s1\<lparr>tlb_write := (tlb_write s1)(tlb_index a :=
      mk_entry a (i, int (unat (ucast pa - pr_addr (mem_map s1 ! i)))))\<rparr>)" (is "mem_wf ?t")
    by (intro fill_write_wf) (auto simp: good_def)
  then have "mem_wf (?t\<lparr>mem_map := mm\<rparr>)" using lay by (intro mem_wf_layout) auto
  with g st lay show ?thesis
    by (auto simp: step_ok_def good_def acc_step_def intro: inv_frame same_layout_trans)
qed

lemma layout_step: "good s \<Longrightarrow> same_layout (mem_map s) mm \<Longrightarrow> step_ok s (s\<lparr>mem_map := mm\<rparr>)"
  by (auto simp: step_ok_def good_def acc_step_def mem_wf_layout intro: inv_frame)

lemma dev_write_step:
  assumes "step_ok s s1" "step_ok s1 t" "i < length (mem_map s1)" "\<not> pr_is_ram (mem_map s1 ! i)"
    "bit (pr_devio_flags (mem_map s1 ! i)) k"
  shows "\<exists>s'. dv_write D (pr_dev (mem_map s1 ! i)) off v k t = Some s' \<and> step_ok s s' \<and> step_ok s1 s'"
proof -
  have lay: "same_layout (mem_map s1) (mem_map t)" and gt: "good t"
    using assms(2) by (auto simp: step_ok_def acc_step_def)
  note l = layout_eqD [OF same_layout_nth [OF lay assms(3)]]
  have "\<exists>s'. dv_write D (pr_dev (mem_map t ! i)) off v k t = Some s' \<and> dev_step t s' \<and> inv s'"
    using assms gt same_layout_length [OF lay] l(4,9)
    by (intro dev_write_ok) (auto simp: good_def)
  then obtain s' where w: "dv_write D (pr_dev (mem_map s1 ! i)) off v k t = Some s'" and "step_ok t s'"
    using dev_step_ok [OF gt] l(8) by metis
  then have "step_ok s1 s'" using assms(2) step_ok_trans by blast
  with w assms(1) show ?thesis using step_ok_trans by blast
qed

lemma write_aligned_slow_safe:
  assumes g: "good s" and al: "unat a mod 2 ^ n = 0" and n: "n \<le> 3"
  shows "\<exists>r s'. write_aligned_slow D n a v s = Some (r, s') \<and> step_ok s s'"
proof -
  from g have "mem_wf s" by (simp add: good_def)
  then obtain r s1 where tr: "get_phys_addr s a ACCESS_WRITE = Some (r, s1)" and "acc_step s s1"
    "dev s1 = dev s" and pg: "\<And>pa. r = OK pa \<Longrightarrow> unat pa mod 4096 = unat a mod 4096"
    using translate_safe by blast
  with g have st: "step_ok s s1" by (simp add: same_dev_step)
  then have g1: "good s1" by (rule step_okD)
  show ?thesis
  proof (cases r)
    case ERR
    with tr st pending_step show ?thesis by (auto simp: write_aligned_slow_def)
  next
    case (OK pa)
    show ?thesis
    proof (cases "get_phys_mem_range (mem_map s1) (ucast pa)")
      case None
      with OK tr st show ?thesis by (simp add: write_aligned_slow_def)
    next
      case (Some i)
      note rd = get_phys_mem_range_SomeD [OF Some]
      define off where "off = ucast pa - pr_addr (mem_map s1 ! i)"
      show ?thesis
      proof (cases "pr_is_ram (mem_map s1 ! i)")
        case True
        have ok: "host_ok (mem_map s1) (i, int (unat off)) (2 ^ n)"
          unfolding off_def using g1 Some True page_aligned [OF al pg [OF OK] n] n
          by (intro ram_ptr_ok) (auto simp: good_def mem_wf_def)
        have rw: "range_wf (mem_map s1 ! i)"
          using g1 rd(1) by (auto simp: good_def mem_wf_def intro: map_wf_nth)
        have "(0 :: int) < 2 ^ n" by simp
        with ok have "unat off < unat (pr_org_size (mem_map s1 ! i))"
          unfolding host_ok_def word_less_nat_alt [symmetric] word_less_def
          by (simp, linarith)
        then obtain pr where db: "phys_mem_set_dirty_bit (mem_map s1 ! i) (unat off) = Some pr"
          using set_dirty_bit_total [OF rw True] by blast
        have "same_layout (mem_map s1) ((mem_map s1)[i := pr])"
          using set_dirty_bit_layout [OF db] by (intro same_layout_update) auto
        with ok have "host_ok ((mem_map s1)[i := pr]) (i, int (unat off)) (2 ^ n)"
          by (simp add: same_layout_host_ok)
        then obtain mm where
          hw: "host_write ((mem_map s1)[i := pr]) (i, int (unat off)) (2 ^ n) (unat v) = Some mm"
          using host_write_total by blast
        show ?thesis
          using ram_write_step [OF st Some True pg [OF OK] db hw] OK tr Some True db hw
          by (simp add: write_aligned_slow_def Let_def off_def)
      next
        case False
        note w = dev_write_step [OF st _ rd(1) False]
        show ?thesis
        proof (cases "bit (pr_devio_flags (mem_map s1 ! i)) n")
          case True
          from w [OF step_ok_refl [OF g1] True, of "ucast off" "ucast v"]
          show ?thesis using OK tr Some False True
            by (auto simp: write_aligned_slow_def Let_def off_def)
        next
          case nb: False
          show ?thesis
          proof (cases "bit (pr_devio_flags (mem_map s1 ! i)) 2 \<and> n = 3")
            case True
            then have b2: "bit (pr_devio_flags (mem_map s1 ! i)) 2" by simp
            from w [OF step_ok_refl [OF g1] b2, of "ucast off" "ucast (v AND mask 32)"] obtain s2 where
              w0: "dv_write D (pr_dev (mem_map s1 ! i)) (ucast off) (ucast (v AND mask 32)) 2 s1 = Some s2"
              and st2: "step_ok s1 s2" by blast
            from w [OF st2 b2, of "ucast off + 4" "ucast (drop_bit 32 v AND mask 32)"] w0
            show ?thesis using OK tr Some False nb True
              by (auto simp: write_aligned_slow_def Let_def size32_flag off_def)
          next
            case no: False
            then show ?thesis using OK tr Some False nb st
              by (auto simp: write_aligned_slow_def Let_def size32_flag)
          qed
        qed
      qed
    qed
  qed
qed

lemma write_fast_safe:
  assumes g: "good s" and n: "n \<le> 3"
    and slow: "\<And>w. \<exists>r s'. slow n a w s = Some (r, s') \<and> step_ok s s'"
  shows "\<exists>r s'. write_fast slow n a v s = Some (r, s') \<and> step_ok s s'"
proof (cases "te_vaddr (tlb_write s (tlb_index a)) = tlb_tag n a")
  case True
  then obtain mm where
    w: "host_write (mem_map s) (te_ptr (tlb_write s (tlb_index a)) a) (2 ^ n) (unat v) = Some mm"
    using host_write_total [OF tlb_write_host_ok [OF g n True]] by blast
  with True layout_step [OF g host_write_layout [OF w]] show ?thesis by (simp add: write_fast_def)
next
  case False
  with slow show ?thesis by (simp add: write_fast_def)
qed

lemma write_part_safe: "good s \<Longrightarrow> \<exists>r s'. write_part D a v s = Some (r, s') \<and> step_ok s s'"
  unfolding write_part_def by (intro write_fast_safe write_aligned_slow_safe) auto

lemma write_bytes_loop_safe:
  "good s \<Longrightarrow> \<exists>r s'. write_bytes_loop D n i a v s = Some (r, s') \<and> step_ok s s'"
proof (induction n arbitrary: i s)
  case 0
  then show ?case by (simp add: step_ok_refl)
next
  case (Suc n)
  obtain r s1 where 1: "write_part D (a + of_nat i) (drop_bit (8 * i) v AND 0xff) s = Some (r, s1)"
    "step_ok s s1" using write_part_safe [OF Suc.prems] by blast
  from Suc.IH [OF step_okD [OF 1(2)], of "Suc i"] step_ok_trans [OF 1(2)] 1 show ?case
    by (cases r) auto
qed

lemma target_write_slow_safe:
  assumes "good s" and "n \<le> 3"
  shows "\<exists>r s'. target_write_slow D n a v s = Some (r, s') \<and> step_ok s s'"
proof (cases "a AND mask n = 0")
  case True
  then have "unat a mod 2 ^ n = 0" by (simp only: and_mask_eq_0_iff)
  with True assms show ?thesis by (simp add: target_write_slow_def write_aligned_slow_safe)
next
  case False
  with assms show ?thesis by (simp add: target_write_slow_def write_bytes_loop_safe)
qed

lemma target_write_safe:
  "good s \<Longrightarrow> n \<le> 3 \<Longrightarrow> \<exists>r s'. target_write D n a v s = Some (r, s') \<and> step_ok s s'"
  unfolding target_write_def by (intro write_fast_safe target_write_slow_safe)

text \<open>
  The pointer of a successful fetch gives access to the rest of the page of the instruction.
\<close>

lemma target_read_insn_slow_safe:
  assumes g: "good s" and fit: "unat a mod 4096 + k \<le> 4096"
  shows "\<exists>r s'. target_read_insn_slow a s = Some (r, s') \<and> step_ok s s' \<and>
    (\<forall>p. r = OK p \<longrightarrow> host_ok (mem_map s') p k)"
proof -
  from g have "mem_wf s" by (simp add: good_def)
  then obtain r s1 where tr: "get_phys_addr s a ACCESS_CODE = Some (r, s1)" and "acc_step s s1"
    "dev s1 = dev s" and pg: "\<And>pa. r = OK pa \<Longrightarrow> unat pa mod 4096 = unat a mod 4096"
    using translate_safe by blast
  with g have st: "step_ok s s1" by (simp add: same_dev_step)
  then have g1: "good s1" by (rule step_okD)
  show ?thesis
  proof (cases r)
    case ERR
    with tr st pending_step show ?thesis by (auto simp: target_read_insn_slow_def)
  next
    case (OK pa)
    show ?thesis
    proof (cases "get_phys_mem_range (mem_map s1) (ucast pa)")
      case None
      with OK tr pending_step [OF st] show ?thesis by (simp add: target_read_insn_slow_def)
    next
      case (Some i)
      show ?thesis
      proof (cases "pr_is_ram (mem_map s1 ! i)")
        case False
        with OK Some tr pending_step [OF st] show ?thesis by (simp add: target_read_insn_slow_def)
      next
        case True
        define e where "e = mk_entry a (i, int (unat (ucast pa - pr_addr (mem_map s1 ! i))))"
        have e: "entry_ok (mem_map s1) (tlb_index a) e"
          using mk_entry_ok [OF _ Some True pg [OF OK]] g1 by (simp add: good_def mem_wf_def e_def)
        have "host_ok (mem_map s1) (te_ptr e a) k"
          by (rule hit_code_ok [OF e _ fit]) (simp add: e_def mk_entry_def)
        then have p: "host_ok (mem_map s1) (i, int (unat (ucast pa - pr_addr (mem_map s1 ! i)))) k"
          by (simp add: e_def te_ptr_def mk_entry_def)
        from e g1 have "mem_wf (s1\<lparr>tlb_code := (tlb_code s1)(tlb_index a := e)\<rparr>)"
          by (intro fill_code_wf) (auto simp: good_def)
        with g1 st have "step_ok s (s1\<lparr>tlb_code := (tlb_code s1)(tlb_index a := e)\<rparr>)"
          by (auto simp: step_ok_def good_def acc_step_def intro: inv_frame)
        with p show ?thesis using OK Some True tr
          by (simp add: target_read_insn_slow_def Let_def e_def del: split_paired_All)
      qed
    qed
  qed
qed

lemma target_read_insn_ptr_safe:
  assumes g: "good s" and fit: "unat a mod 4096 + k \<le> 4096"
  shows "\<exists>r s'. target_read_insn_ptr a s = Some (r, s') \<and> step_ok s s' \<and>
    (\<forall>p. r = OK p \<longrightarrow> host_ok (mem_map s') p k)"
proof (cases "te_vaddr (tlb_code s (tlb_index a)) = a AND NOT PG_MASK")
  case True
  have "entry_ok (mem_map s) (tlb_index a) (tlb_code s (tlb_index a))"
    using g by (auto simp: good_def mem_wf_def tlb_wf_def)
  then have "host_ok (mem_map s) (te_ptr (tlb_code s (tlb_index a)) a) k"
    using True fit by (rule hit_code_ok)
  with True g show ?thesis
    by (simp add: target_read_insn_ptr_def step_ok_refl del: split_paired_Ex split_paired_All)
next
  case False
  with target_read_insn_slow_safe [OF g fit] show ?thesis by (simp add: target_read_insn_ptr_def)
qed

lemma target_read_insn_u16_safe:
  assumes "good s" and "unat a mod 4096 + 2 \<le> 4096"
  shows "\<exists>r s'. target_read_insn_u16 a s = Some (r, s') \<and> step_ok s s'"
proof -
  obtain r s1 where 1: "target_read_insn_ptr a s = Some (r, s1)" "step_ok s s1"
    and ok: "\<And>p. r = OK p \<Longrightarrow> host_ok (mem_map s1) p 2"
    using target_read_insn_ptr_safe [OF assms] by blast
  show ?thesis
  proof (cases r)
    case ERR
    with 1 show ?thesis by (simp add: target_read_insn_u16_def)
  next
    case (OK p)
    then obtain v where "host_read (mem_map s1) p 2 = Some v" using host_read_total ok by blast
    with OK 1 show ?thesis by (simp add: target_read_insn_u16_def)
  qed
qed

end

end
