(* ===== verification/Riscv_Csr_Lemmas.thy ===== *)
theory Riscv_Csr_Lemmas
  imports Riscv_Csr
begin

text \<open>
  The registers keep the values the privileged architecture allows: the invariant \<open>csr_wf\<close> is
  established by the reset and kept by every CSR write, trap, trap return and interrupt.
\<close>

section \<open>Bit sets\<close>

definition bits_in :: "u32 \<Rightarrow> u32 \<Rightarrow> bool" where
  "bits_in a m \<longleftrightarrow> a AND NOT m = 0"

lemma bits_in_iff: "bits_in a m \<longleftrightarrow> (\<forall>n. bit a n \<longrightarrow> bit m n)"
proof
  assume "bits_in a m"
  then have "bit (a AND NOT m) n = bit (0 :: u32) n" for n by (simp add: bits_in_def)
  then have "n < 32 \<Longrightarrow> bit a n \<Longrightarrow> bit m n" for n by (simp add: bit_simps)
  then show "\<forall>n. bit a n \<longrightarrow> bit m n" using bit_imp_le_length [of a] by auto
next
  assume a: "\<forall>n. bit a n \<longrightarrow> bit m n"
  have "a AND NOT m = 0" by (rule bit_word_eqI) (use a in \<open>auto simp: bit_simps\<close>)
  then show "bits_in a m" by (simp add: bits_in_def)
qed

lemma bits_in_or [intro]: "bits_in a m \<Longrightarrow> bits_in b m \<Longrightarrow> bits_in (a OR b) m"
  by (auto simp: bits_in_iff bit_simps)

lemma bits_in_and1 [intro]: "bits_in a m \<Longrightarrow> bits_in (a AND b) m"
  by (auto simp: bits_in_iff bit_simps)

lemma bits_in_and2 [intro]: "bits_in b m \<Longrightarrow> bits_in (a AND b) m"
  by (auto simp: bits_in_iff bit_simps)

lemma bits_in_trans: "bits_in a m \<Longrightarrow> bits_in m k \<Longrightarrow> bits_in a k"
  by (auto simp: bits_in_iff)

lemma bits_in_ins: "bits_in a k \<Longrightarrow> bits_in m k \<Longrightarrow> bits_in (ins_bits a m v) k"
  by (auto simp: ins_bits_def)

lemma bits_in_self [simp]: "bits_in a a" "bits_in 0 a"
  by (simp_all add: bits_in_def)

section \<open>The invariant\<close>

text \<open>
  The bits \<open>mstatus\<close> may have: those \<open>set_mstatus\<close> writes and bit 2, the interrupt enable of the
  reserved privilege 2, which \<open>handle_mret\<close> writes when \<open>MPP\<close> is 2 (no write filters \<open>MPP\<close>).
\<close>

definition MSTATUS_WR :: u32 where "MSTATUS_WR = 0xe19bb"
definition MSTATUS_BITS :: u32 where "MSTATUS_BITS = 0xe19bf"
definition MIE_WR :: u32 where "MIE_WR = 0x2aa"
definition SATP_WR :: u32 where "SATP_WR = 0x803fffff"
definition MIDELEG_WR :: u32 where "MIDELEG_WR = 0x222"

lemma MSTATUS_WR_value: "MSTATUS_WR = MSTATUS_MASK AND NOT MSTATUS_FS"
  by (simp add: MSTATUS_WR_def masks)

definition csr_wf :: "'d cpu \<Rightarrow> bool" where
  "csr_wf s \<longleftrightarrow> priv s < 4 \<and> bits_in (mstatus s) MSTATUS_BITS \<and> bits_in (fs s) 3 \<and>
     bits_in (fflags s) 31 \<and> frm s < 5 \<and> cur_xlen s = 32 \<and> mxl s = 1 \<and>
     bits_in (medeleg s) 0xffff \<and> bits_in (mideleg s) MIDELEG_WR \<and> bits_in (mie s) MIE_WR \<and>
     bits_in (mcounteren s) 5 \<and> bits_in (scounteren s) 5 \<and>
     bits_in (mtvec s) (NOT 3) \<and> bits_in (stvec s) (NOT 3) \<and>
     bits_in (mepc s) (NOT 1) \<and> bits_in (sepc s) (NOT 1) \<and> bits_in (pc s) (NOT 1) \<and>
     bits_in (satp s) SATP_WR"

lemma tlb_flush_all_frame [simp]:
  "priv (tlb_flush_all s) = priv s" "mstatus (tlb_flush_all s) = mstatus s"
  "fs (tlb_flush_all s) = fs s" "fflags (tlb_flush_all s) = fflags s"
  "frm (tlb_flush_all s) = frm s" "cur_xlen (tlb_flush_all s) = cur_xlen s"
  "mxl (tlb_flush_all s) = mxl s" "medeleg (tlb_flush_all s) = medeleg s"
  "mideleg (tlb_flush_all s) = mideleg s" "mie (tlb_flush_all s) = mie s"
  "mip (tlb_flush_all s) = mip s"
  "mcounteren (tlb_flush_all s) = mcounteren s" "scounteren (tlb_flush_all s) = scounteren s"
  "mtvec (tlb_flush_all s) = mtvec s" "stvec (tlb_flush_all s) = stvec s"
  "mepc (tlb_flush_all s) = mepc s" "sepc (tlb_flush_all s) = sepc s" "pc (tlb_flush_all s) = pc s"
  "reg (tlb_flush_all s) = reg s" "mem_map (tlb_flush_all s) = mem_map s"
  "dev (tlb_flush_all s) = dev s" "n_cycles (tlb_flush_all s) = n_cycles s"
  "insn_counter (tlb_flush_all s) = insn_counter s" "mcause (tlb_flush_all s) = mcause s"
  "scause (tlb_flush_all s) = scause s" "mtval (tlb_flush_all s) = mtval s"
  "stval (tlb_flush_all s) = stval s" "satp (tlb_flush_all s) = satp s"
  "power_down_flag (tlb_flush_all s) = power_down_flag s"
  by (simp_all add: tlb_flush_all_def tlb_init_def)

lemma set_priv_frame [simp]:
  "priv (set_priv s p) = p" "mstatus (set_priv s p) = mstatus s"
  "fs (set_priv s p) = fs s" "fflags (set_priv s p) = fflags s"
  "frm (set_priv s p) = frm s" "cur_xlen (set_priv s p) = cur_xlen s"
  "mxl (set_priv s p) = mxl s" "medeleg (set_priv s p) = medeleg s"
  "mideleg (set_priv s p) = mideleg s" "mie (set_priv s p) = mie s"
  "mip (set_priv s p) = mip s"
  "mcounteren (set_priv s p) = mcounteren s" "scounteren (set_priv s p) = scounteren s"
  "mtvec (set_priv s p) = mtvec s" "stvec (set_priv s p) = stvec s"
  "mepc (set_priv s p) = mepc s" "sepc (set_priv s p) = sepc s" "pc (set_priv s p) = pc s"
  "reg (set_priv s p) = reg s" "mem_map (set_priv s p) = mem_map s"
  "dev (set_priv s p) = dev s" "n_cycles (set_priv s p) = n_cycles s"
  "insn_counter (set_priv s p) = insn_counter s" "mcause (set_priv s p) = mcause s"
  "scause (set_priv s p) = scause s" "mtval (set_priv s p) = mtval s"
  "stval (set_priv s p) = stval s" "satp (set_priv s p) = satp s"
  "power_down_flag (set_priv s p) = power_down_flag s"
  by (simp_all add: set_priv_def)

lemma low_bits_in: "bits_in (x AND 1) 1" "bits_in (x AND 3) 3" "bits_in (x AND 0x1f) 31"
  "bits_in (x AND 5) 5" "bits_in (x AND NOT 1) (NOT 1)" "bits_in (x AND NOT 3) (NOT 3)"
  by (auto simp: bits_in_iff bit_simps)

lemma word_and_1: "(x :: u32) AND 1 = of_bool (bit x 0)"
  by (simp add: and_one_eq mod_2_eq_odd bit_0)

lemma satp_in: "bits_in ((x AND mask 22) OR push_bit 31 (drop_bit 31 x AND 1)) SATP_WR"
proof -
  have "bits_in (mask 22) SATP_WR" "bits_in (push_bit 31 (of_bool b)) SATP_WR" for b
    by (simp_all add: bits_in_def SATP_WR_def mask_eq_exp_minus_1 of_bool_def)
  then show ?thesis unfolding word_and_1 by (intro bits_in_or bits_in_and2 [of "mask 22"])
qed

lemma set_mstatus_wf:
  assumes "csr_wf s"
  shows "csr_wf (set_mstatus s val)"
proof -
  have "bits_in MSTATUS_WR MSTATUS_BITS" by (simp add: bits_in_def MSTATUS_WR_def MSTATUS_BITS_def)
  then have "bits_in ((mstatus s AND NOT MSTATUS_WR) OR (val AND MSTATUS_WR)) MSTATUS_BITS"
    using assms by (intro bits_in_or bits_in_and1 bits_in_and2 [of MSTATUS_WR]) (simp_all add: csr_wf_def)
  then show ?thesis
    using assms low_bits_in(2)
    by (simp add: csr_wf_def set_mstatus_def Let_def flip: MSTATUS_WR_value)
qed

lemma unat_and_7: "unat (x AND 7 :: u32) < 8"
  using word_and_mask_mod [of x 3] by (simp add: mask_eq_exp_minus_1)

lemma csr_write_wf_lemma:
  assumes "csr_wf s"
  shows "csr_wf (snd (csr_write s csr val))"
proof -
  have d: "bits_in ((MIP_SSIP OR MIP_STIP) OR MIP_SEIP) MIDELEG_WR"
    "bits_in ((((MIP_MSIP OR MIP_MTIP) OR MIP_SSIP) OR MIP_STIP) OR MIP_SEIP) MIE_WR"
    "bits_in (mask 16) 0xffff" "bits_in MIDELEG_WR MIE_WR"
    by (simp_all add: bits_in_def masks MIDELEG_WR_def MIE_WR_def mask_eq_exp_minus_1)
  from d(4) assms have "bits_in (mideleg s) MIE_WR" by (auto simp: csr_wf_def intro: bits_in_trans)
  with assms d low_bits_in satp_in [of val] show ?thesis
    by (simp add: csr_write_def set_mstatus_wf)
      (simp add: csr_wf_def set_frm_def bits_in_ins COUNTEREN_MASK_def)
qed

lemma priv_cases:
  assumes "p < 4"
  obtains "p = 0" | "p = 1" | "p = 2" | "p = (3 :: nat)"
  using assms by linarith

lemma priv_field_in:
  assumes "priv s < 4"
  shows "bits_in (push_bit MSTATUS_MPP_SHIFT (of_nat (priv s))) MSTATUS_BITS"
    and "priv s \<le> 1 \<Longrightarrow> bits_in (push_bit MSTATUS_SPP_SHIFT (of_nat (priv s))) MSTATUS_BITS"
proof -
  from assms show "bits_in (push_bit MSTATUS_MPP_SHIFT (of_nat (priv s))) MSTATUS_BITS"
    by (cases rule: priv_cases) (simp_all add: bits_in_def masks MSTATUS_BITS_def)
  assume "priv s \<le> 1"
  with assms show "bits_in (push_bit MSTATUS_SPP_SHIFT (of_nat (priv s))) MSTATUS_BITS"
    by (cases rule: priv_cases) (simp_all add: bits_in_def masks MSTATUS_BITS_def)
qed

lemma bit_field_in:
  "bits_in (push_bit MSTATUS_SPIE_SHIFT (x AND 1)) MSTATUS_BITS"
  "bits_in (push_bit MSTATUS_MPIE_SHIFT (x AND 1)) MSTATUS_BITS"
  "p < 4 \<Longrightarrow> bits_in (push_bit p (x AND 1)) MSTATUS_BITS"
  "bits_in MSTATUS_SPIE MSTATUS_BITS" "bits_in MSTATUS_MPIE MSTATUS_BITS"
  by (simp_all add: word_and_1 bits_in_def masks MSTATUS_BITS_def of_bool_def)
    (erule priv_cases; simp)

lemma even_of_4: "bits_in a (NOT 3) \<Longrightarrow> bits_in a (NOT 1)"
  by (erule bits_in_trans) (simp add: bits_in_def)

lemma raise_exception2_wf_lemma:
  assumes wf: "csr_wf s"
  shows "csr_wf (raise_exception2 s cause tval)"
proof -
  have m: "bits_in (mstatus s) MSTATUS_BITS" and p: "priv s < 4"
    and v: "bits_in (stvec s) (NOT 1)" "bits_in (mtvec s) (NOT 1)"
    using wf even_of_4 [of "stvec s"] even_of_4 [of "mtvec s"] by (simp_all add: csr_wf_def)
  have d: "trap_delegated s cause \<Longrightarrow> priv s \<le> 1"
    by (simp add: trap_delegated_def PRV_S_def split: if_splits)
  define ie where "ie = drop_bit (priv s) (mstatus s)"
  have "trap_delegated s cause \<Longrightarrow> bits_in (((mstatus s AND NOT MSTATUS_SPIE OR
      push_bit MSTATUS_SPIE_SHIFT (ie AND 1)) AND NOT MSTATUS_SPP OR
      push_bit MSTATUS_SPP_SHIFT (of_nat (priv s))) AND NOT MSTATUS_SIE) MSTATUS_BITS"
    using m priv_field_in(2) [OF p d] bit_field_in(1) [of ie] by (intro bits_in_and1 bits_in_or)
  moreover have "bits_in (((mstatus s AND NOT MSTATUS_MPIE OR
      push_bit MSTATUS_MPIE_SHIFT (ie AND 1)) AND NOT MSTATUS_MPP OR
      push_bit MSTATUS_MPP_SHIFT (of_nat (priv s))) AND NOT MSTATUS_MIE) MSTATUS_BITS"
    using m priv_field_in(1) [OF p] bit_field_in(2) [of ie] by (intro bits_in_and1 bits_in_or)
  ultimately show ?thesis
    using wf v unfolding raise_exception2_def Let_def ie_def
    by (simp add: csr_wf_def PRV_M_def PRV_S_def del: push_bit_and)
qed

lemma raise_interrupt_wf: "csr_wf s \<Longrightarrow> raise_interrupt s = Some s' \<Longrightarrow> csr_wf s'"
  by (auto simp: raise_interrupt_def raise_exception_def raise_exception2_wf_lemma Let_def
      split: if_splits)

lemma handle_sret_wf: "csr_wf s \<Longrightarrow> csr_wf (handle_sret s)"
proof -
  assume wf: "csr_wf s"
  have p: "unat (x AND 1 :: u32) < 4" for x by (simp add: word_and_1)
  have "bits_in (mstatus s) MSTATUS_BITS" using wf by (simp add: csr_wf_def)
  then have "bits_in ((((mstatus s AND NOT (push_bit (unat (x AND 1)) 1)) OR
      push_bit (unat (x AND 1)) (y AND 1)) OR MSTATUS_SPIE) AND NOT MSTATUS_SPP) MSTATUS_BITS"
    for x y :: u32
    using bit_field_in(3) [OF p] bit_field_in(4) by (intro bits_in_and1 bits_in_or) 
  then show ?thesis using wf p
    by (simp add: handle_sret_def Let_def csr_wf_def del: push_bit_and)
qed

lemma unat_and_3: "unat (x AND 3 :: u32) < 4"
  using word_and_mask_mod [of x 2] by (simp add: mask_eq_exp_minus_1)

lemma handle_mret_wf: "csr_wf s \<Longrightarrow> csr_wf (handle_mret s)"
proof -
  assume wf: "csr_wf s"
  have "bits_in (mstatus s) MSTATUS_BITS" using wf by (simp add: csr_wf_def)
  then have "bits_in ((((mstatus s AND NOT (push_bit (unat (x AND 3)) 1)) OR
      push_bit (unat (x AND 3)) (y AND 1)) OR MSTATUS_MPIE) AND NOT MSTATUS_MPP) MSTATUS_BITS"
    for x y :: u32
    using bit_field_in(3) [OF unat_and_3] bit_field_in(5) by (intro bits_in_and1 bits_in_or)
  then show ?thesis using wf unat_and_3
    by (simp add: handle_mret_def Let_def csr_wf_def del: push_bit_and)
qed

lemma riscv_cpu_init_wf: "csr_wf (riscv_cpu_init mm d)"
  by (simp add: riscv_cpu_init_def Let_def zero_cpu_def csr_wf_def tlb_init_def bits_in_def masks
      MSTATUS_BITS_def SATP_WR_def)

section \<open>Traps and returns\<close>

lemma bit_exp32: "bit (2 ^ k :: u32) n \<longleftrightarrow> n = k \<and> k < 32"
  by (auto simp: bit_simps)

lemma mstatus_bits:
  "bit MSTATUS_SIE n = (n = 1)" "bit MSTATUS_MIE n = (n = 3)" "bit MSTATUS_SPIE n = (n = 5)"
  "bit MSTATUS_MPIE n = (n = 7)" "bit MSTATUS_SPP n = (n = 8)"
  "bit MSTATUS_MPP n = (n = 11 \<or> n = 12)"
proof -
  show "bit MSTATUS_SIE n = (n = 1)" using bit_exp32 [of 1] by (simp add: masks)
  show "bit MSTATUS_MIE n = (n = 3)" using bit_exp32 [of 3] by (simp add: masks)
  show "bit MSTATUS_SPIE n = (n = 5)" using bit_exp32 [of 5] by (simp add: masks)
  show "bit MSTATUS_MPIE n = (n = 7)" using bit_exp32 [of 7] by (simp add: masks)
  show "bit MSTATUS_SPP n = (n = 8)" using bit_exp32 [of 8] by (simp add: masks)
  have e: "MSTATUS_MPP = 2 ^ 11 OR 2 ^ 12" by (simp add: masks)
  show "bit MSTATUS_MPP n = (n = 11 \<or> n = 12)"
    unfolding e bit_or_iff bit_exp32 by simp
qed

lemma bit_of_priv:
  assumes "p < 4"
  shows "bit (of_nat p :: u32) n = (if n = 0 then odd p else if n = 1 then 2 \<le> p else False)"
proof -
  have 2: "bit (2 :: u32) n = (n = 1)" using bit_exp32 [of 1] by simp
  have 3: "bit (3 :: u32) n = (n = 0 \<or> n = 1)"
  proof -
    have "(3 :: u32) = 1 OR 2" by simp
    then have "bit (3 :: u32) n = (bit (1 :: u32) n \<or> bit (2 :: u32) n)" by (simp only: bit_or_iff)
    then show ?thesis unfolding 2 bit_1_iff by simp
  qed
  from assms show ?thesis using 2 3 by (cases rule: priv_cases) (auto simp: bit_1_iff)
qed

lemmas trap_bits = bit_or_iff bit_and_iff bit_not_iff bit_push_bit_iff bit_drop_bit_eq bit_1_iff mstatus_bits

lemma trap_to_machine:
  fixes s :: "'d cpu" and tval :: u32
  assumes d: "\<not> trap_delegated s cause" and p: "priv s < 4"
  defines "t \<equiv> raise_exception2 s cause tval"
  shows "priv t = PRV_M" "pc t = mtvec s" "mepc t = pc s" "mtval t = tval" "satp t = satp s"
    "bit (mstatus t) n = (if n = 7 then bit (mstatus s) (priv s) else if n = 11 then odd (priv s)
       else if n = 12 then 2 \<le> priv s else if n = 3 then False else bit (mstatus s) n)"
proof -
  show "priv t = PRV_M" "pc t = mtvec s" "mepc t = pc s" "mtval t = tval" "satp t = satp s"
    using d by (simp_all add: t_def raise_exception2_def Let_def)
  have m: "mstatus t = ((mstatus s AND NOT MSTATUS_MPIE OR
      push_bit 7 (drop_bit (priv s) (mstatus s) AND 1)) AND NOT MSTATUS_MPP OR
      push_bit 11 (of_nat (priv s))) AND NOT MSTATUS_MIE"
    using d by (simp add: t_def raise_exception2_def Let_def
        MSTATUS_MPIE_SHIFT_def MSTATUS_MPP_SHIFT_def del: push_bit_and)
  show "bit (mstatus t) n = (if n = 7 then bit (mstatus s) (priv s) else if n = 11 then odd (priv s)
       else if n = 12 then 2 \<le> priv s else if n = 3 then False else bit (mstatus s) n)"
    unfolding m trap_bits bit_of_priv [OF p]
    using bit_imp_le_length [of "mstatus s" n] by auto
qed

lemma trap_to_supervisor:
  fixes s :: "'d cpu" and tval :: u32
  assumes d: "trap_delegated s cause"
  defines "t \<equiv> raise_exception2 s cause tval"
  shows "priv t = PRV_S" "pc t = stvec s" "sepc t = pc s" "stval t = tval" "satp t = satp s"
    "priv s \<le> PRV_S"
    "bit (mstatus t) n = (if n = 5 then bit (mstatus s) (priv s) else if n = 8 then priv s = PRV_S
       else if n = 1 then False else bit (mstatus s) n)"
proof -
  show "priv t = PRV_S" "pc t = stvec s" "sepc t = pc s" "stval t = tval" "satp t = satp s"
    using d by (simp_all add: t_def raise_exception2_def Let_def)
  show p: "priv s \<le> PRV_S" using d by (simp add: trap_delegated_def split: if_splits)
  then have p4: "priv s < 4" by (simp add: PRV_S_def)
  have m: "mstatus t = ((mstatus s AND NOT MSTATUS_SPIE OR
      push_bit 5 (drop_bit (priv s) (mstatus s) AND 1)) AND NOT MSTATUS_SPP OR
      push_bit 8 (of_nat (priv s))) AND NOT MSTATUS_SIE"
    using d by (simp add: t_def raise_exception2_def Let_def
        MSTATUS_SPIE_SHIFT_def MSTATUS_SPP_SHIFT_def del: push_bit_and)
  show "bit (mstatus t) n = (if n = 5 then bit (mstatus s) (priv s) else if n = 8 then priv s = PRV_S
       else if n = 1 then False else bit (mstatus s) n)"
    unfolding m trap_bits bit_of_priv [OF p4]
    using p bit_imp_le_length [of "mstatus s" n] by (auto simp: PRV_S_def le_Suc_eq)
qed

lemma mpp_field:
  assumes "p < 4" and "bit m 11 = odd p" and "bit m 12 = (2 \<le> p)"
  shows "unat (drop_bit 11 (m :: u32) AND 3) = p"
proof -
  have "bit (drop_bit 11 m AND mask 2) n = bit (of_nat p :: u32) n" for n
    unfolding bit_of_priv [OF assms(1)] bit_and_iff bit_drop_bit_eq bit_mask_iff
    using assms(2,3) by (auto simp: less_2_cases_iff)
  then have "drop_bit 11 m AND mask 2 = (of_nat p :: u32)" by (intro bit_word_eqI) simp
  then have "drop_bit 11 m AND 3 = (of_nat p :: u32)" by (simp add: mask_eq_exp_minus_1)
  with assms(1) show ?thesis by (simp add: unat_of_nat)
qed

lemma mret_effect:
  fixes s :: "'d cpu"
  defines "r \<equiv> handle_mret s" and "p \<equiv> unat (drop_bit 11 (mstatus s) AND 3)"
  shows "priv r = p" "pc r = mepc s"
    "bit (mstatus r) n = (if n = 11 \<or> n = 12 then False else if n = 7 then True
       else if n = p then bit (mstatus s) 7 else bit (mstatus s) n)"
proof -
  show "priv r = p" "pc r = mepc s"
    by (simp_all add: r_def p_def handle_mret_def Let_def MSTATUS_MPP_SHIFT_def)
  have p: "p < 4" unfolding p_def by (rule unat_and_3)
  then have p32: "p < 32" by simp
  have m: "mstatus r = ((mstatus s AND NOT (push_bit p 1) OR
      push_bit p (drop_bit 7 (mstatus s) AND 1)) OR MSTATUS_MPIE) AND NOT MSTATUS_MPP"
    by (simp add: r_def p_def handle_mret_def Let_def MSTATUS_MPP_SHIFT_def MSTATUS_MPIE_SHIFT_def
        del: push_bit_and)
  show "bit (mstatus r) n = (if n = 11 \<or> n = 12 then False else if n = 7 then True
       else if n = p then bit (mstatus s) 7 else bit (mstatus s) n)"
    unfolding m trap_bits
    using p bit_imp_le_length [of "mstatus s" n] by auto
qed

lemma sret_effect:
  fixes s :: "'d cpu"
  defines "r \<equiv> handle_sret s" and "p \<equiv> (if bit (mstatus s) 8 then 1 else 0)"
  shows "priv r = p" "pc r = sepc s"
    "bit (mstatus r) n = (if n = 8 then False else if n = 5 then True
       else if n = p then bit (mstatus s) 5 else bit (mstatus s) n)"
proof -
  have pe: "unat (drop_bit 8 (mstatus s) AND 1) = p" by (simp add: p_def word_and_1 bit_simps)
  then show "priv r = p" "pc r = sepc s"
    by (simp_all add: r_def handle_sret_def Let_def MSTATUS_SPP_SHIFT_def)
  have p: "p < 2" by (simp add: p_def)
  then have p32: "p < 32" by simp
  have m: "mstatus r = ((mstatus s AND NOT (push_bit p 1) OR
      push_bit p (drop_bit 5 (mstatus s) AND 1)) OR MSTATUS_SPIE) AND NOT MSTATUS_SPP"
    using pe by (simp add: r_def handle_sret_def Let_def MSTATUS_SPP_SHIFT_def MSTATUS_SPIE_SHIFT_def
        del: push_bit_and)
  show "bit (mstatus r) n = (if n = 8 then False else if n = 5 then True
       else if n = p then bit (mstatus s) 5 else bit (mstatus s) n)"
    unfolding m trap_bits
    using p bit_imp_le_length [of "mstatus s" n] by auto
qed

section \<open>Interrupts\<close>

lemma pending_irq_bit:
  "bit (get_pending_irq_mask s) k \<longleftrightarrow> bit (mip s) k \<and> bit (mie s) k \<and>
     (priv s = PRV_M \<longrightarrow> mstatus s AND MSTATUS_MIE \<noteq> 0 \<and> \<not> bit (mideleg s) k) \<and>
     (priv s = PRV_S \<longrightarrow> \<not> bit (mideleg s) k \<or> mstatus s AND MSTATUS_SIE \<noteq> 0)"
proof (cases "mip s AND mie s = 0")
  case True
  have "\<not> (bit (mip s) k \<and> bit (mie s) k)"
    using bit_and_iff [of "mip s" "mie s" k] unfolding True by simp
  with True show ?thesis by (auto simp: get_pending_irq_mask_def)
next
  case False
  then show ?thesis
    using bit_imp_le_length [of "mip s" k]
    by (auto simp: get_pending_irq_mask_def Let_def bit_and_iff bit_or_iff bit_not_iff masks)
qed

lemma raise_interrupt_cases:
  assumes "raise_interrupt s = r"
  obtains "r = None" and "\<forall>k. \<not> bit (get_pending_irq_mask s) k"
  | k where "k < 32" and "bit (get_pending_irq_mask s) k"
      and "\<forall>j < k. \<not> bit (get_pending_irq_mask s) j"
      and "r = Some (raise_exception2 s (of_nat k OR CAUSE_INTERRUPT) 0)"
proof (cases "get_pending_irq_mask s = 0")
  case True
  with assms show ?thesis by (intro that(1)) (auto simp: raise_interrupt_def)
next
  case False
  from ctz32_nonzero [OF False] assms False show ?thesis
    by (intro that(2) [of "ctz32 (get_pending_irq_mask s)"])
      (auto simp: raise_interrupt_def Let_def raise_exception_def)
qed

lemma trap_priv_mono:
  assumes "priv s < 4"
  shows "priv s \<le> priv (raise_exception2 s cause tval)"
proof (cases "trap_delegated s cause")
  case True
  from trap_to_supervisor(1,6) [OF this] show ?thesis by simp
next
  case False
  from trap_to_machine(1) [OF this assms] assms show ?thesis by (simp add: PRV_M_def)
qed

section \<open>Writing back what was read\<close>

lemma ins_bits_same: "ins_bits a m a = a"
  by (rule bit_word_eqI) (auto simp: ins_bits_def bit_simps)

lemma ins_bits_and: "ins_bits a m (a AND m) = a"
  by (rule bit_word_eqI) (auto simp: ins_bits_def bit_simps)

lemma bits_in_and_id: "bits_in a m \<Longrightarrow> a AND m = a"
  by (rule bit_word_eqI) (auto simp: bits_in_iff bit_simps)

lemma satp_write_back: "bits_in a SATP_WR \<Longrightarrow> (a AND mask 22) OR push_bit 31 (drop_bit 31 a AND 1) = a"
proof -
  assume a: "bits_in a SATP_WR"
  have e: "SATP_WR = mask 22 OR 2 ^ 31" by (simp add: SATP_WR_def mask_eq_exp_minus_1)
  have "bit SATP_WR n = (n < 22 \<or> n = 31)" for n
    unfolding e bit_or_iff bit_exp32 bit_mask_iff by auto
  then have out: "22 \<le> n \<Longrightarrow> n \<noteq> 31 \<Longrightarrow> \<not> bit a n" for n using a by (auto simp: bits_in_iff)
  show ?thesis
  proof (rule bit_word_eqI)
    fix n
    assume "n < LENGTH(32)"
    then consider "n = 31" | "n < 22" | "22 \<le> n \<and> n < 31" by fastforce
    then show "bit ((a AND mask 22) OR push_bit 31 (drop_bit 31 a AND 1)) n = bit a n"
      using out by cases (auto simp: bit_simps)
  qed
qed

lemma FS_bits: "bit MSTATUS_FS n = (n = 13 \<or> n = 14)"
proof -
  have e: "MSTATUS_FS = 2 ^ 13 OR 2 ^ 14" by (simp add: masks)
  show ?thesis unfolding e bit_or_iff bit_exp32 by simp
qed

lemma get_mstatus_bits:
  assumes x: "cur_xlen s = 32" and n: "n < 31"
  shows "bit (get_mstatus s m) n = (bit m n \<and> (bit (mstatus s) n \<or> (13 \<le> n \<and> bit (fs s) (n - 13))))"
proof -
  define v where "v = (mstatus s OR push_bit 13 (fs s)) AND m"
  have "get_mstatus s m = v \<or> get_mstatus s m = v OR push_bit 31 1"
    using x by (simp add: get_mstatus_def Let_def v_def MSTATUS_FS_SHIFT_def)
  then have "bit (get_mstatus s m) n = bit v n"
    using n unfolding bit_eq_iff bit_or_iff bit_push_bit_iff bit_1_iff by fastforce
  then show ?thesis using n unfolding v_def bit_and_iff bit_or_iff bit_push_bit_iff by auto
qed

lemma WR_bits: "bit MSTATUS_WR n \<Longrightarrow> n \<noteq> 13 \<and> n \<noteq> 14 \<and> n < 31"
proof -
  assume "bit MSTATUS_WR n"
  then have "bit (MSTATUS_MASK AND NOT MSTATUS_FS) n" by (simp add: MSTATUS_WR_value)
  then have fs: "n \<noteq> 13 \<and> n \<noteq> 14" and m: "bit MSTATUS_MASK n"
    by (auto simp: bit_and_iff bit_not_iff FS_bits)
  have e: "MSTATUS_MASK AND mask 31 = MSTATUS_MASK" by (simp add: masks mask_eq_exp_minus_1)
  have "bit (MSTATUS_MASK AND mask 31) n" using m unfolding e .
  then have "n < 31" unfolding bit_and_iff bit_mask_iff by simp
  with fs show ?thesis by simp
qed

lemma BITS_FS: "bit MSTATUS_BITS 13 = False" "bit MSTATUS_BITS 14 = False"
  by (simp_all add: MSTATUS_BITS_def)

lemma flush_idem: "tlb_flush_all (tlb_flush_all s) = tlb_flush_all s"
  by (auto simp: tlb_flush_all_def tlb_init_def fun_eq_iff)

lemma fs_bits:
  assumes "csr_wf s"
  shows "bit (fs s) n \<Longrightarrow> n < 2"
proof -
  assume "bit (fs s) n"
  then have "bit (mask 2 :: u32) n"
    using assms by (simp add: csr_wf_def bits_in_iff mask_eq_exp_minus_1)
  then show "n < 2" by (simp only: bit_mask_iff)
qed

lemma set_mstatus_same:
  assumes wf: "csr_wf s"
    and v: "\<And>n. n < 31 \<Longrightarrow> bit val n = (bit (mstatus s) n \<or> (13 \<le> n \<and> bit (fs s) (n - 13)))"
  shows "tlb_flush_all (set_mstatus s val) = tlb_flush_all s"
proof -
  note f3 = fs_bits [OF wf]
  have m0: "\<not> bit (mstatus s) 13" "\<not> bit (mstatus s) 14"
    using wf BITS_FS by (auto simp: csr_wf_def bits_in_iff)
  have 1: "(mstatus s AND NOT MSTATUS_WR) OR (val AND MSTATUS_WR) = mstatus s"
  proof (rule bit_word_eqI)
    fix n
    have "bit MSTATUS_WR n \<Longrightarrow> bit val n = bit (mstatus s) n"
    proof -
      assume w: "bit MSTATUS_WR n"
      from WR_bits [OF w] f3 [of "n - 13"] have "\<not> (13 \<le> n \<and> bit (fs s) (n - 13))" by auto
      then show ?thesis using v [of n] WR_bits [OF w] by blast
    qed
    then show "bit ((mstatus s AND NOT MSTATUS_WR) OR (val AND MSTATUS_WR)) n = bit (mstatus s) n"
      using bit_imp_le_length [of "mstatus s" n] by (auto simp: bit_or_iff bit_and_iff bit_not_iff)
  qed
  have "bit (drop_bit 13 val AND mask 2) n = bit (fs s) n" for n
    using v [of "13 + n"] f3 [of n] m0
    unfolding bit_and_iff bit_drop_bit_eq bit_mask_iff
    by (cases "n < 2") (auto simp: less_2_cases_iff)
  then have 2: "drop_bit 13 val AND 3 = fs s"
    by (intro bit_word_eqI) (simp add: mask_eq_exp_minus_1)
  have "set_mstatus s val = s \<or> set_mstatus s val = tlb_flush_all s"
    using 1 2 unfolding set_mstatus_def Let_def MSTATUS_FS_SHIFT_def MSTATUS_WR_value [symmetric]
    by simp
  then show ?thesis by (auto simp: flush_idem)
qed

lemma write_back_sstatus:
  assumes wf: "csr_wf s"
  shows "tlb_flush_all (set_mstatus s ((mstatus s AND NOT SSTATUS_MASK) OR
    (get_mstatus s SSTATUS_MASK AND SSTATUS_MASK))) = tlb_flush_all s"
proof (rule set_mstatus_same [OF wf])
  fix n :: nat
  assume n: "n < 31"
  have x: "cur_xlen s = 32" using wf by (simp add: csr_wf_def)
  have "MSTATUS_FS AND SSTATUS_MASK = MSTATUS_FS" by (simp add: masks)
  then have S: "bit SSTATUS_MASK n" if "13 \<le> n" "bit (fs s) (n - 13)"
    using that fs_bits [OF wf that(2)] FS_bits [of n] bit_and_iff [of MSTATUS_FS SSTATUS_MASK n]
    by fastforce
  show "bit ((mstatus s AND NOT SSTATUS_MASK) OR (get_mstatus s SSTATUS_MASK AND SSTATUS_MASK)) n =
      (bit (mstatus s) n \<or> (13 \<le> n \<and> bit (fs s) (n - 13)))"
    using n S unfolding bit_or_iff bit_and_iff bit_not_iff get_mstatus_bits [OF x n]
    by auto
qed

lemma write_back_mstatus:
  assumes wf: "csr_wf s"
  shows "tlb_flush_all (set_mstatus s (get_mstatus s (- 1))) = tlb_flush_all s"
proof (rule set_mstatus_same [OF wf])
  fix n :: nat
  assume n: "n < 31"
  have x: "cur_xlen s = 32" using wf by (simp add: csr_wf_def)
  show "bit (get_mstatus s (- 1)) n = (bit (mstatus s) n \<or> (13 \<le> n \<and> bit (fs s) (n - 13)))"
    using n unfolding get_mstatus_bits [OF x n] by (simp add: bit_minus_1_iff)
qed

lemma csr_write_back:
  assumes wf: "csr_wf s" and rd: "csr_value s csr = OK v" and nf: "csr \<notin> {1, 2, 3}"
  shows "tlb_flush_all (snd (csr_write s csr v)) = tlb_flush_all s"
proof -
  have eqs: "stvec s AND NOT 3 = stvec s" "mtvec s AND NOT 3 = mtvec s"
    "sepc s AND NOT 1 = sepc s" "mepc s AND NOT 1 = mepc s"
    "scounteren s AND COUNTEREN_MASK = scounteren s" "mcounteren s AND COUNTEREN_MASK = mcounteren s"
    "(satp s AND mask 22) OR push_bit 31 (drop_bit 31 (satp s) AND 1) = satp s"
    using wf satp_write_back [of "satp s"] bits_in_and_id
    unfolding csr_wf_def COUNTEREN_MASK_def by blast+
  consider "csr_write s csr v = (- 1, s)"
    | "csr \<in> {0x100, 0x104, 0x105, 0x106, 0x140, 0x141, 0x142, 0x143, 0x144, 0x180}"
    | "csr \<in> {0x300, 0x301, 0x302, 0x303, 0x304, 0x305, 0x306, 0x340, 0x341, 0x342, 0x343, 0x344}"
    using nf unfolding csr_write_def by (simp only: insert_iff empty_iff) argo
  then show ?thesis
  proof cases
    case 1
    then show ?thesis by simp
  next
    case 2
    then show ?thesis using rd write_back_sstatus [OF wf]
      by (elim insertE emptyE)
        (auto simp: csr_value_def csr_write_def eqs [simplified] ins_bits_same ins_bits_and flush_idem)
  next
    case 3
    then show ?thesis using rd write_back_mstatus [OF wf]
      by (elim insertE emptyE)
        (auto simp: csr_value_def csr_write_def eqs [simplified] ins_bits_same ins_bits_and)
  qed
qed

section \<open>Properties\<close>

definition sample_cpu :: "unit cpu" where
  "sample_cpu = (riscv_cpu_init [] ())\<lparr>priv := PRV_S, pc := 0x80001234, medeleg := 0x100,
     stvec := 0x80000100, mtvec := 0x80000200, mideleg := 0x222, mie := 0x2aa, mip := 0xa0,
     mstatus := 0xa, fs := 3\<rparr>"

lemmas sample_defs = sample_cpu_def riscv_cpu_init_def Let_def zero_cpu_def tlb_init_def masks

lemma sample_cpu_wf: "csr_wf sample_cpu"
  by (simp add: sample_defs csr_wf_def bits_in_def MSTATUS_BITS_def SATP_WR_def MIDELEG_WR_def MIE_WR_def)

text \<open>
  C16. The privileged registers keep the values the architecture allows (reserved bits stay clear,
  vectors and return addresses stay aligned, the rounding mode stays valid): the reset
  establishes \<open>csr_wf\<close>, and every CSR write, trap, trap return and interrupt keeps it.
\<close>

theorem csr_invariant:
  assumes "csr_wf s"
  shows "csr_wf (riscv_cpu_init mm d) \<and> csr_wf (snd (csr_write s csr val)) \<and>
    csr_wf (raise_exception2 s cause tval) \<and> csr_wf (handle_sret s) \<and> csr_wf (handle_mret s) \<and>
    (\<forall>s'. raise_interrupt s = Some s' \<longrightarrow> csr_wf s')"
  by (simp add: riscv_cpu_init_wf csr_write_wf_lemma [OF assms] raise_exception2_wf_lemma [OF assms]
      handle_sret_wf [OF assms] handle_mret_wf [OF assms] raise_interrupt_wf [OF assms])

theorem csr_invariant_witness:
  "csr_wf (snd (csr_write sample_cpu 0x300 0xffffffff)) \<and> csr_wf (handle_mret sample_cpu)"
  using csr_invariant [OF sample_cpu_wf, of "[]" "()" "0x300" "0xffffffff" 0 0] by blast

text \<open>
  C17. A trap that is not delegated and the \<open>mret\<close> of its handler restore the program counter, the
  privilege and the interrupt enable of that privilege; besides the \<open>MIE\<close>, \<open>MPIE\<close> and \<open>MPP\<close>
  fields nothing of \<open>mstatus\<close> changes.
\<close>

theorem mret_restores:
  assumes "\<not> trap_delegated s cause" and "priv s < 4"
  shows "priv (handle_mret (raise_exception2 s cause tval)) = priv s \<and>
    pc (handle_mret (raise_exception2 s cause tval)) = pc s \<and>
    bit (mstatus (handle_mret (raise_exception2 s cause tval))) (priv s) = bit (mstatus s) (priv s) \<and>
    (\<forall>n. n \<notin> {3, 7, 11, 12} \<longrightarrow>
      bit (mstatus (handle_mret (raise_exception2 s cause tval))) n = bit (mstatus s) n)"
proof -
  define t where "t = raise_exception2 s cause tval"
  note tr = trap_to_machine [OF assms, of tval, folded t_def]
  have pp: "unat (drop_bit 11 (mstatus t) AND 3) = priv s"
    using mpp_field [OF assms(2), of "mstatus t"] tr(6) by simp
  then show ?thesis
    unfolding t_def [symmetric] using tr(3,6) mret_effect [of t] assms(2) by auto
qed

theorem mret_restores_witness:
  "priv (handle_mret (raise_exception2 sample_cpu 2 0)) = PRV_S"
  using mret_restores [of sample_cpu 2 0]
  by (simp add: sample_defs trap_delegated_def)

text \<open>
  C18. A delegated trap and the \<open>sret\<close> of its handler restore the program counter, the privilege and
  the interrupt enable of that privilege; besides \<open>SIE\<close>, \<open>SPIE\<close> and \<open>SPP\<close> nothing of
  \<open>mstatus\<close> changes, and the machine-mode trap registers are untouched.
\<close>

theorem sret_restores:
  assumes "trap_delegated s cause"
  shows "priv (handle_sret (raise_exception2 s cause tval)) = priv s \<and>
    pc (handle_sret (raise_exception2 s cause tval)) = pc s \<and>
    bit (mstatus (handle_sret (raise_exception2 s cause tval))) (priv s) = bit (mstatus s) (priv s) \<and>
    mepc (handle_sret (raise_exception2 s cause tval)) = mepc s \<and>
    mcause (handle_sret (raise_exception2 s cause tval)) = mcause s \<and>
    (\<forall>n. n \<notin> {1, 5, 8} \<longrightarrow>
      bit (mstatus (handle_sret (raise_exception2 s cause tval))) n = bit (mstatus s) n)"
proof -
  define t where "t = raise_exception2 s cause tval"
  note tr = trap_to_supervisor(3,7) [OF assms, where tval = tval, folded t_def]
    and le = trap_to_supervisor(6) [OF assms]
  have pp: "(if bit (mstatus t) 8 then 1 else 0) = priv s"
    using le tr(2) [of 8] by (auto simp: PRV_S_def)
  have m: "mepc (handle_sret t) = mepc s \<and> mcause (handle_sret t) = mcause s"
    using assms by (simp add: t_def handle_sret_def raise_exception2_def Let_def)
  show ?thesis
    unfolding t_def [symmetric] using m le tr sret_effect [of t] pp by (auto simp: PRV_S_def)
qed

theorem sret_restores_witness:
  "pc (handle_sret (raise_exception2 sample_cpu 8 7)) = 0x80001234"
  using sret_restores [of sample_cpu 8 7]
  by (simp add: sample_defs trap_delegated_def)

text \<open>
  C19. An interrupt is taken exactly when one is pending, enabled in \<open>mie\<close>, and allowed at the
  current privilege: one for machine mode when below it or when \<open>MIE\<close> is set, a delegated one in
  user mode, or in supervisor mode when \<open>SIE\<close> is set. The one taken is the lowest-numbered, and
  the privilege never drops.
\<close>

theorem interrupt_taken:
  "raise_interrupt s \<noteq> None \<longleftrightarrow>
     (\<exists>k. bit (mip s) k \<and> bit (mie s) k \<and>
       (priv s = PRV_M \<longrightarrow> mstatus s AND MSTATUS_MIE \<noteq> 0 \<and> \<not> bit (mideleg s) k) \<and>
       (priv s = PRV_S \<longrightarrow> \<not> bit (mideleg s) k \<or> mstatus s AND MSTATUS_SIE \<noteq> 0))"
  by (rule raise_interrupt_cases [OF refl, of s]) (auto simp: pending_irq_bit)

theorem interrupt_taken_witness: "raise_interrupt sample_cpu \<noteq> None"
  by (subst interrupt_taken) (rule exI [of _ 7], simp add: sample_defs)

text \<open>
  C20. Writing back the value just read from a CSR changes nothing but the TLBs (which some writes
  flush): every field the registers hold is both readable and writable in place. The three
  floating-point CSRs are the exception, their writes set \<open>FS\<close> to dirty.
\<close>

theorem csr_write_read_value:
  assumes "csr_wf s" and "csr_read s csr w = OK v" and "csr \<notin> {1, 2, 3}"
  shows "tlb_flush_all (snd (csr_write s csr v)) = tlb_flush_all s"
proof -
  from assms(2) have "csr_value s csr = OK v" by (simp add: csr_read_def split: if_splits)
  then show ?thesis using assms by (intro csr_write_back)
qed

theorem csr_write_read_value_witness:
  "tlb_flush_all (snd (csr_write sample_cpu 0x100 0x80006002)) = tlb_flush_all sample_cpu"
  by (rule csr_write_read_value [OF sample_cpu_wf, where w = True])
    (simp_all add: sample_defs csr_read_def csr_value_def get_mstatus_def)

end
