(* ===== verification/Riscv_Interp.thy ===== *)
theory Riscv_Interp
  imports Riscv_Fp Riscv_Bus Riscv_Csr_Lemmas
begin

text \<open>
  The interpreter loop \<open>riscv_cpu_interp_x32\<close> of \<open>riscv_cpu_template.h\<close> and \<open>riscv_cpu_interp\<close> of
  \<open>riscv_cpu.c\<close>. The loop runs inside a page of code: \<open>code_ptr\<close> and \<open>code_end\<close> bound the window
  that needs no new translation, and \<open>code_to_pc_addend\<close> gives the address of \<open>code_ptr\<close>.
\<close>

section \<open>Definitions\<close>

definition exec_insn ::
    "'d dev_ops \<Rightarrow> u32 \<Rightarrow> u32 \<Rightarrow> u64 \<Rightarrow> 'd cpu \<Rightarrow> 'd outcome" where
  "exec_insn D insn gpc ica s =
     (let opcode = insn AND 0x7f in
      if insn AND 3 = 0 then exec_c0 D insn gpc s
      else if insn AND 3 = 1 then exec_c1 insn gpc s
      else if insn AND 3 = 2 then exec_c2 D insn gpc s
      else if opcode = 0x37 then exec_lui insn s
      else if opcode = 0x17 then exec_auipc insn gpc s
      else if opcode = 0x6f then exec_jal insn gpc s
      else if opcode = 0x67 then exec_jalr insn gpc s
      else if opcode = 0x63 then exec_branch insn gpc s
      else if opcode = 0x03 then exec_load D insn s
      else if opcode = 0x23 then exec_store D insn s
      else if opcode = 0x13 then exec_op_imm insn s
      else if opcode = 0x33 then exec_op insn s
      else if opcode = 0x73 then exec_system insn gpc ica s
      else if opcode = 0x0f then exec_fence insn s
      else if opcode = 0x2f then exec_amo D insn s
      else if opcode = 0x07 then exec_fp_load D insn s
      else if opcode = 0x27 then exec_fp_store D insn s
      else if opcode = 0x43 then exec_fma False False insn s
      else if opcode = 0x47 then exec_fma False True insn s
      else if opcode = 0x4b then exec_fma True False insn s
      else if opcode = 0x4f then exec_fma True True insn s
      else if opcode = 0x53 then exec_fp insn s
      else Some (ILLEGAL_INSN, s))"

text \<open>
  The window on the code: \<open>code_ptr\<close> (\<open>None\<close> is \<open>NULL\<close>), the number of bytes \<open>code_end - code_ptr\<close>
  left, and the value of \<open>GET_PC()\<close>.
\<close>

record window =
  w_ptr :: "hostptr option"
  w_left :: int
  w_pc :: u32

definition null_window :: "u32 \<Rightarrow> window" where
  "null_window a = \<lparr>w_ptr = None, w_left = 0, w_pc = a\<rparr>"

definition advance :: "window \<Rightarrow> nat \<Rightarrow> window" where
  "advance w n = \<lparr>w_ptr = map_option (\<lambda>(r, off). (r, off + int n)) (w_ptr w),
     w_left = w_left w - int n, w_pc = w_pc w + of_nat n\<rparr>"

text \<open>
  The result of fetching: an instruction (with the window it is in), an exception, or the end of
  the run (\<open>the_end\<close>).
\<close>

datatype 'd fetched = Fetched u32 window "'d cpu" | Fetch_Exception window "'d cpu" | Fetch_End "'d cpu"

text \<open>A new block: interrupts, the translation of the code page, and the instruction at a page end.\<close>

definition fetch_at :: "u32 \<Rightarrow> hostptr \<Rightarrow> 'd cpu \<Rightarrow> 'd fetched option" where
  "fetch_at addr ptr s =
     (let w = \<lparr>w_ptr = Some ptr, w_left = uint (PG_MASK - 1) - uint (addr AND PG_MASK), w_pc = addr\<rparr>
      in if w_left w \<le> 0
         then do { lo \<leftarrow> host_read (mem_map s) ptr 2;
                   if (of_nat lo :: u32) AND 3 = 3
                   then do { (r, s1) \<leftarrow> target_read_insn_u16 (addr + 2) s;
                             case r of
                               ERR \<Rightarrow> Some (Fetch_Exception w s1)
                             | OK hi \<Rightarrow> Some (Fetched (of_nat lo OR push_bit 16 (ucast hi)) w s1) }
                   else Some (Fetched (of_nat lo) w s) }
         else do { insn \<leftarrow> get_insn32 (mem_map s) ptr; Some (Fetched insn w s) })"

definition fetch_block :: "window \<Rightarrow> 'd cpu \<Rightarrow> 'd fetched option" where
  "fetch_block w s0 =
     (let s = s0\<lparr>pc := w_pc w\<rparr>;
          irq = (if mip s AND mie s \<noteq> 0 then raise_interrupt s else None)
      in if n_cycles s \<le> 0 then Some (Fetch_End s)
         else case irq of
           Some s1 \<Rightarrow> Some (Fetch_End (s1\<lparr>n_cycles := n_cycles s1 - 1\<rparr>))
         | None \<Rightarrow>
             do { (r, s1) \<leftarrow> target_read_insn_ptr (pc s) s;
                  case r of
                    ERR \<Rightarrow> Some (Fetch_Exception w s1)
                  | OK ptr \<Rightarrow> fetch_at (pc s) ptr s1 })"

definition fetch :: "window \<Rightarrow> 'd cpu \<Rightarrow> 'd fetched option" where
  "fetch w s =
     (if w_left w \<le> 0 then fetch_block w s
      else case w_ptr w of
        None \<Rightarrow> None
      | Some ptr \<Rightarrow> do { insn \<leftarrow> get_insn32 (mem_map s) ptr; Some (Fetched insn w s) })"

text \<open>The labels after the loop: \<open>illegal_insn\<close>, \<open>exception\<close>, \<open>done_interp\<close>.\<close>

definition finish :: "u64 \<Rightarrow> 'd cpu \<Rightarrow> 'd cpu" where
  "finish ica s = s\<lparr>insn_counter := GET_INSN_COUNTER ica s\<rparr>"

definition take_exception :: "u64 \<Rightarrow> u32 \<Rightarrow> 'd cpu \<Rightarrow> 'd cpu" where
  "take_exception ica gpc s0 =
     (let s = s0\<lparr>pc := gpc\<rparr> in
      if pending_exception s \<ge> 0
      then finish ica (raise_exception2 (s\<lparr>n_cycles := n_cycles s - 1\<rparr>)
             (word_of_int (pending_exception s)) (pending_tval s))
      else finish ica s)"

definition take_illegal :: "u64 \<Rightarrow> u32 \<Rightarrow> u32 \<Rightarrow> 'd cpu \<Rightarrow> 'd cpu" where
  "take_illegal ica insn gpc s =
     take_exception ica gpc (s\<lparr>pending_exception := CAUSE_ILLEGAL_INSTRUCTION, pending_tval := insn\<rparr>)"

text \<open>One round of the loop: \<open>Inl\<close> the state it ends with, or \<open>Inr\<close> the window and state to go on.\<close>

definition round :: "'d dev_ops \<Rightarrow> u64 \<Rightarrow> window \<Rightarrow> 'd cpu \<Rightarrow> ('d cpu + window \<times> 'd cpu) option" where
  "round D ica w s =
     do { f \<leftarrow> fetch w s;
       case f of
         Fetch_End s1 \<Rightarrow> Some (Inl (finish ica s1))
       | Fetch_Exception w1 s1 \<Rightarrow> Some (Inl (take_exception ica (w_pc w1) s1))
       | Fetched insn w1 s1 \<Rightarrow>
           do { (fl, s2) \<leftarrow> exec_insn D insn (w_pc w1) ica (s1\<lparr>n_cycles := n_cycles s1 - 1\<rparr>);
             case fl of
               NEXT_INSN \<Rightarrow> Some (Inr (advance w1 4, s2))
             | C_NEXT_INSN \<Rightarrow> Some (Inr (advance w1 2, s2))
             | JUMP_INSN \<Rightarrow> Some (Inr (null_window (pc s2), s2))
             | ILLEGAL_INSN \<Rightarrow> Some (Inl (take_illegal ica insn (w_pc w1) s2))
             | EXCEPTION_INSN \<Rightarrow> Some (Inl (take_exception ica (w_pc w1) s2))
             | DONE_INTERP \<Rightarrow> Some (Inl (finish ica s2)) } }"

text \<open>
  The loop, bounded by \<open>fuel\<close>: \<open>Some None\<close> is running out of it. Every round takes a cycle, and a
  block ends within a page, so \<open>interp_fuel\<close> rounds are enough.
\<close>

fun rounds :: "nat \<Rightarrow> 'd dev_ops \<Rightarrow> u64 \<Rightarrow> window \<Rightarrow> 'd cpu \<Rightarrow> 'd cpu option option" where
  "rounds 0 D ica w s = Some None"
| "rounds (Suc fuel) D ica w s =
     do { r \<leftarrow> round D ica w s;
          case r of Inl s' \<Rightarrow> Some (Some s') | Inr (w', s') \<Rightarrow> rounds fuel D ica w' s' }"

definition interp_fuel :: "int \<Rightarrow> nat" where
  "interp_fuel n = nat n + 2050"

definition riscv_cpu_interp_x32 :: "'d dev_ops \<Rightarrow> int \<Rightarrow> 'd cpu \<Rightarrow> 'd cpu option option" where
  "riscv_cpu_interp_x32 D n_cycles1 s =
     (if n_cycles1 = 0 then Some (Some s)
      else let ica = insn_counter s + word_of_int n_cycles1;
               s1 = s\<lparr>n_cycles := n_cycles1\<rparr>
        in case (if mip s1 AND mie s1 \<noteq> 0 then raise_interrupt s1 else None) of
             Some s2 \<Rightarrow> Some (Some (finish ica (s2\<lparr>n_cycles := n_cycles s2 - 1\<rparr>)))
           | None \<Rightarrow> rounds (interp_fuel n_cycles1) D ica (null_window (pc s1))
                      (s1\<lparr>pending_exception := - 1\<rparr>))"

end
