(* ===== verification/Softfp_Lemmas.thy ===== *)
theory Softfp_Lemmas
  imports Softfp
begin

text \<open>
  The assertions of the software floating point never fail: every operation returns a result, at
  both sizes. On the way, the double-word multiplication and division are shown to be exact.
\<close>

section \<open>Values of shifted words\<close>

lemma unat_less_bits: "unat a < 2 ^ m \<longleftrightarrow> (\<forall>i \<ge> m. \<not> bit a i)" for a :: "'a::len word"
proof
  assume l: "unat a < 2 ^ m"
  show "\<forall>i \<ge> m. \<not> bit a i"
  proof (intro allI impI notI)
    fix i
    assume "m \<le> i" and b: "bit a i"
    then have "unat a < 2 ^ i" using l by (meson le_less_trans not_less power_increasing_iff one_less_numeral_iff semiring_norm(76) less_le_trans power_increasing one_le_numeral)
    moreover have "bit (unat a) i" using b bit_imp_le_length [OF b] by (simp add: bit_unsigned_iff)
    ultimately show False by (simp add: bit_iff_odd)
  qed
next
  assume z: "\<forall>i \<ge> m. \<not> bit a i"
  have "a = take_bit m a"
    by (rule bit_word_eqI) (use z not_less in \<open>auto simp: bit_take_bit_iff\<close>)
  then have "unat a = take_bit m (unat a)" by (metis unsigned_take_bit_eq)
  then show "unat a < 2 ^ m" using take_bit_nat_less_exp by metis
qed

lemma clz_list:
  "length (takeWhile Not (map f (rev [0..<n]))) \<le> n \<and>
   (\<forall>i. n - length (takeWhile Not (map f (rev [0..<n]))) \<le> i \<and> i < n \<longrightarrow> \<not> f i) \<and>
   (length (takeWhile Not (map f (rev [0..<n]))) < n \<longrightarrow>
      f (n - Suc (length (takeWhile Not (map f (rev [0..<n]))))))"
proof (induction n)
  case 0
  show ?case by simp
next
  case (Suc n)
  show ?case
  proof (cases "f n")
    case True
    then show ?thesis by auto
  next
    case False
    with Suc show ?thesis by (auto simp: less_Suc_eq)
  qed
qed

lemma clz_bits:
  fixes a :: "'a::len word"
  shows "clz a \<le> LENGTH('a)" and "LENGTH('a) - clz a \<le> i \<Longrightarrow> \<not> bit a i"
    and "clz a < LENGTH('a) \<Longrightarrow> bit a (LENGTH('a) - Suc (clz a))"
  using clz_list [where f = "bit a" and n = "LENGTH('a)"] bit_imp_le_length [of a i]
  unfolding clz_def by blast+

lemma clz_upper: "unat a < 2 ^ (LENGTH('a) - clz a)" for a :: "'a::len word"
  unfolding unat_less_bits using clz_bits(2) by blast

lemma clz_ge: 
  fixes a :: "'a::len word"
  assumes "unat a < 2 ^ m" and "m \<le> LENGTH('a)"
  shows "LENGTH('a) - m \<le> clz a"
proof (rule ccontr)
  assume c: "\<not> ?thesis"
  then have "bit a (LENGTH('a) - Suc (clz a))" by (intro clz_bits(3)) simp
  moreover have "m \<le> LENGTH('a) - Suc (clz a)" using c assms(2) by linarith
  ultimately show False using assms(1) unfolding unat_less_bits by blast
qed

lemma clz_lower:
  fixes a :: "'a::len word"
  assumes "a \<noteq> 0"
  shows "clz a < LENGTH('a)" and "2 ^ (LENGTH('a) - Suc (clz a)) \<le> unat a"
proof -
  show c: "clz a < LENGTH('a)"
  proof (rule ccontr)
    assume "\<not> ?thesis"
    then have "unat a < 2 ^ 0" unfolding unat_less_bits using clz_bits(2) [of a] by simp
    then have "unat a = 0" by simp
    with assms show False by (simp only: unat_eq_0)
  qed
  show "2 ^ (LENGTH('a) - Suc (clz a)) \<le> unat a"
  proof (rule ccontr)
    assume "\<not> ?thesis"
    then have "unat a < 2 ^ (LENGTH('a) - Suc (clz a))" by simp
    then have "\<not> bit a (LENGTH('a) - Suc (clz a))" unfolding unat_less_bits by blast
    with clz_bits(3) [OF c] show False by simp
  qed
qed

lemma unat_push_bit:
  fixes a :: "'a::len word"
  assumes "unat a < 2 ^ m" and "m + k \<le> LENGTH('a)"
  shows "unat (push_bit k a) = unat a * 2 ^ k" and "unat (push_bit k a) < 2 ^ (m + k)"
proof -
  have lt: "unat a * 2 ^ k < 2 ^ (m + k)" using assms(1) by (simp add: power_add)
  also have "\<dots> \<le> (2 :: nat) ^ LENGTH('a)" using assms(2) by (intro power_increasing) auto
  finally have "unat a * 2 ^ k < 2 ^ LENGTH('a)" .
  moreover have "unat (push_bit k a) = take_bit LENGTH('a) (push_bit k (unat a))"
    by (rule unsigned_push_bit_eq)
  ultimately show "unat (push_bit k a) = unat a * 2 ^ k"
    by (simp only: push_bit_eq_mult take_bit_nat_eq_self)
  with lt show "unat (push_bit k a) < 2 ^ (m + k)" by simp
qed

lemma unat_or_1: "unat a < 2 ^ m \<Longrightarrow> 0 < m \<Longrightarrow> unat (a OR (if c then 1 else 0)) < 2 ^ m"
  for a :: "'a::len word"
  unfolding unat_less_bits by (auto simp: bit_or_iff bit_1_iff)

lemma unat_drop_bit_less: "unat (a :: 'a::len word) < 2 ^ m \<Longrightarrow> k \<le> m \<Longrightarrow> unat (drop_bit k a) < 2 ^ (m - k)"
  unfolding unat_less_bits by (auto simp: bit_drop_bit_eq)

section \<open>Formats\<close>

definition fmt_ok :: "'a::len itself \<Rightarrow> bool" where
  "fmt_ok t \<longleftrightarrow> LENGTH('a) = 32 \<or> LENGTH('a) = 64"

lemma fmt_ok_32 [simp]: "fmt_ok TYPE(32)" and fmt_ok_64 [simp]: "fmt_ok TYPE(64)"
  by (simp_all add: fmt_ok_def)

lemma fmt_sizes:
  assumes "fmt_ok TYPE('a::len)"
  shows "mant_size LENGTH('a) + 5 \<le> LENGTH('a) - 1"
    and "mant_size LENGTH('a) + 1 + rnd_size LENGTH('a) = LENGTH('a) - 1"
    and "8 \<le> LENGTH('a)" and "0 < mant_size LENGTH('a)" and "7 \<le> rnd_size LENGTH('a)"
    and "imant_size LENGTH('a) = LENGTH('a) - 2"
  using assms by (auto simp: fmt_ok_def fmt_defs)

lemma normalize_total:
  fixes m :: "'a::len word"
  assumes "fmt_ok TYPE('a)" and "unat m < 2 ^ (LENGTH('a) - 1)"
  shows "normalize_sf sg e m rm fl \<noteq> None"
proof -
  have "1 \<le> clz m" using clz_ge [OF assms(2)] fmt_sizes(3) [OF assms(1)] by simp
  then show ?thesis
    using fmt_sizes(3,6) [OF assms(1)] by (simp add: normalize_sf_def Let_def)
qed

lemma normalize2_total:
  fixes m1 m0 :: "'a::len word"
  assumes "fmt_ok TYPE('a)" and "unat m1 < 2 ^ (LENGTH('a) - 1)"
  shows "normalize2_sf sg e m1 m0 rm fl \<noteq> None"
proof -
  have "1 \<le> clz m1" using clz_ge [OF assms(2)] fmt_sizes(3) [OF assms(1)] by simp
  then show ?thesis
    using fmt_sizes(3,6) [OF assms(1)] by (simp add: normalize2_sf_def Let_def)
qed

lemma sf_mant_less: "unat (sf_mant a) < 2 ^ mant_size LENGTH('a)" for a :: "'a::len word"
  unfolding unat_less_bits by (simp add: sf_mant_def mant_mask_def bit_and_iff bit_mask_iff)

lemma or_implicit:
  fixes m :: "'a::len word"
  assumes "fmt_ok TYPE('a)" and "unat m < 2 ^ mant_size LENGTH('a)"
  shows "unat (m OR implicit_bit) < 2 ^ (mant_size LENGTH('a) + 1)"
    and "2 ^ mant_size LENGTH('a) \<le> unat (m OR implicit_bit)"
proof -
  have M: "mant_size LENGTH('a) < LENGTH('a)" using fmt_sizes(1,3) [OF assms(1)] by linarith
  show "unat (m OR implicit_bit) < 2 ^ (mant_size LENGTH('a) + 1)"
    using assms(2) unfolding unat_less_bits implicit_bit_def
    by (auto simp: bit_or_iff bit_exp_iff)
  have "bit (m OR implicit_bit) (mant_size LENGTH('a))"
    using M by (simp add: implicit_bit_def bit_or_iff bit_exp_iff)
  then show "2 ^ mant_size LENGTH('a) \<le> unat (m OR implicit_bit)"
    using unat_less_bits [of "m OR implicit_bit" "mant_size LENGTH('a)"] by (meson not_le order_refl)
qed

lemma normalize_subnormal_bounds:
  fixes m :: "'a::len word"
  assumes f: "fmt_ok TYPE('a)" and m: "unat m < 2 ^ mant_size LENGTH('a)" and nz: "m \<noteq> 0"
  shows "unat (snd (normalize_subnormal_sf m)) < 2 ^ (mant_size LENGTH('a) + 1)"
    and "2 ^ mant_size LENGTH('a) \<le> unat (snd (normalize_subnormal_sf m))"
proof -
  let ?F = "LENGTH('a)" and ?M = "mant_size LENGTH('a)"
  have M: "?M + 5 \<le> ?F - 1" using fmt_sizes(1) [OF f] .
  have c: "?F - ?M \<le> clz m" "clz m < ?F"
    using clz_ge [OF m] clz_lower(1) [OF nz] M by auto
  define k where "k = ?M + 1 + clz m - ?F"
  have k: "nat (int ?M - (int ?F - 1 - int (clz m))) = k" using c M unfolding k_def by linarith
  have s: "?F - clz m + k = ?M + 1" "?F - Suc (clz m) + k = ?M" using c M unfolding k_def by linarith+
  have "snd (normalize_subnormal_sf m) = push_bit k m"
    by (simp add: normalize_subnormal_sf_def Let_def k)
  moreover have "unat (push_bit k m) < 2 ^ (?F - clz m + k)" "unat (push_bit k m) = unat m * 2 ^ k"
    using unat_push_bit [OF clz_upper [of m], of k] s M by auto
  moreover have "2 ^ (?F - Suc (clz m) + k) \<le> unat m * 2 ^ k"
    using clz_lower(2) [OF nz] by (simp add: power_add)
  ultimately show "unat (snd (normalize_subnormal_sf m)) < 2 ^ (?M + 1)"
    and "2 ^ ?M \<le> unat (snd (normalize_subnormal_sf m))"
    unfolding s by simp_all
qed

text \<open>The unpacked mantissa of a finite non-zero operand has its top bit at \<open>MANT_SIZE\<close>.\<close>

definition op_mant :: "'a::len word \<Rightarrow> int \<times> 'a word" where
  "op_mant a = (if sf_exp a = 0 then normalize_subnormal_sf (sf_mant a)
                else (sf_exp a, sf_mant a OR implicit_bit))"

lemma op_mant_bounds:
  fixes a :: "'a::len word"
  assumes "fmt_ok TYPE('a)" and "\<not> (sf_exp a = 0 \<and> sf_mant a = 0)"
  shows "unat (snd (op_mant a)) < 2 ^ (mant_size LENGTH('a) + 1)"
    and "2 ^ mant_size LENGTH('a) \<le> unat (snd (op_mant a))"
  using normalize_subnormal_bounds [OF assms(1) sf_mant_less] or_implicit [OF assms(1) sf_mant_less] assms(2)
  by (auto simp: op_mant_def)

section \<open>Addition\<close>

lemma unat_or_1_le: "unat (x OR 1) \<le> unat x + 1" for x :: "'a::len word"
proof -
  have "unat (x OR 1) = (unat x + unat (of_bool (even x) :: 'a word)) mod 2 ^ LENGTH('a)"
    unfolding or_one_eq by (rule unat_word_ariths)
  also have "\<dots> \<le> unat x + unat (of_bool (even x) :: 'a word)" by (rule mod_less_eq_dividend)
  also have "\<dots> \<le> unat x + 1" by simp
  finally show ?thesis .
qed

lemma rshift_rnd_le: "unat (rshift_rnd a d) \<le> unat a" for a :: "'a::len word"
proof (cases "d = 0 \<or> d \<ge> LENGTH('a)")
  case True
  have "a \<noteq> 0 \<Longrightarrow> 1 \<le> unat a" by (metis unat_eq_0 Suc_leI neq0_conv One_nat_def)
  with True show ?thesis by (auto simp: rshift_rnd_def)
next
  case False
  then obtain d' where d: "d = Suc d'" "d < LENGTH('a)" by (cases d) auto
  show ?thesis
  proof (cases "a = 0")
    case True
    with d show ?thesis by (simp add: rshift_rnd_def)
  next
    case nz: False
    have e: "unat (rshift_rnd a d) \<le> unat (drop_bit d a) + 1"
    proof -
      have "unat (drop_bit d a OR 1) \<le> unat (drop_bit d a) + 1"
        by (rule unat_or_1_le)
      then show ?thesis using d by (simp add: rshift_rnd_def)
    qed
    have "unat (drop_bit d a) * 2 \<le> unat a"
    proof -
      have "unat (drop_bit d a) * 2 \<le> unat (drop_bit d a) * 2 ^ d" using d by simp
      also have "\<dots> \<le> unat a" by (simp add: unat_drop_bit)
      finally show ?thesis .
    qed
    moreover have "0 < unat a" using nz by (simp add: unat_gt_0)
    ultimately show ?thesis using e by linarith
  qed
qed

lemma fmt_exp:
  assumes "fmt_ok TYPE('a::len)"
  shows "mant_size LENGTH('a) + exp_size LENGTH('a) = LENGTH('a) - 1"
  using assms by (auto simp: fmt_ok_def fmt_defs)

lemma sf_mant_unat: "unat (sf_mant a) = unat a mod 2 ^ mant_size LENGTH('a)" for a :: "'a::len word"
  by (simp only: sf_mant_def mant_mask_def word_and_mask_mod)

lemma sf_exp_unat: 
  fixes a :: "'a::len word"
  assumes "fmt_ok TYPE('a)"
  shows "sf_exp a = int (unat a div 2 ^ mant_size LENGTH('a) mod 2 ^ exp_size LENGTH('a))"
proof -
  have e: "(word_of_int (exp_mask LENGTH('a)) :: 'a word) = mask (exp_size LENGTH('a))"
    by (simp add: exp_mask_def mask_eq_exp_minus_1)
  have "sf_exp a = int (unat (drop_bit (mant_size LENGTH('a)) a AND mask (exp_size LENGTH('a))))"
    unfolding sf_exp_def e by (rule uint_nat)
  then show ?thesis by (simp only: word_and_mask_mod unat_drop_bit)
qed

lemma magnitude:
  fixes a :: "'a::len word"
  assumes f: "fmt_ok TYPE('a)"
  shows "unat (a AND NOT sign_mask) =
    2 ^ mant_size LENGTH('a) * nat (sf_exp a) + unat (sf_mant a)"
proof -
  have "a AND NOT sign_mask = a AND mask (LENGTH('a) - 1)"
    by (rule bit_word_eqI) (auto simp: sign_mask_def bit_simps)
  then have "unat (a AND NOT sign_mask) = unat a mod 2 ^ (LENGTH('a) - 1)"
    by (simp only: word_and_mask_mod)
  also have "\<dots> = unat a mod (2 ^ mant_size LENGTH('a) * 2 ^ exp_size LENGTH('a))"
    by (simp only: fmt_exp [OF f, symmetric] power_add)
  also have "\<dots> = 2 ^ mant_size LENGTH('a) *
      (unat a div 2 ^ mant_size LENGTH('a) mod 2 ^ exp_size LENGTH('a)) + unat a mod 2 ^ mant_size LENGTH('a)"
    by (rule mod_mult2_eq)
  finally show ?thesis by (simp only: sf_exp_unat [OF f] sf_mant_unat nat_int)
qed

text \<open>The operands of the addition, with their three guard bits.\<close>

definition add_mant :: "'a::len word \<Rightarrow> 'a word" where
  "add_mant a = (if sf_exp a = 0 then push_bit 3 (sf_mant a)
     else push_bit 3 (sf_mant a) OR push_bit (mant_size LENGTH('a) + 3) 1)"

lemma add_mant_eq: "add_mant a = push_bit 3 (if sf_exp a = 0 then sf_mant a else sf_mant a OR implicit_bit)"
proof -
  have "push_bit 3 (m OR implicit_bit) = push_bit 3 m OR push_bit (mant_size LENGTH('a) + 3) 1"
    for m :: "'a::len word"
    by (rule bit_word_eqI) (auto simp: implicit_bit_def bit_simps)
  then show ?thesis by (simp add: add_mant_def)
qed

lemma add_mant_unat:
  fixes a :: "'a::len word"
  assumes f: "fmt_ok TYPE('a)"
  shows "unat (add_mant a) = 8 * (unat (sf_mant a) + (if sf_exp a = 0 then 0 else 2 ^ mant_size LENGTH('a)))"
proof -
  let ?m = "if sf_exp a = 0 then sf_mant a else sf_mant a OR implicit_bit"
  have M: "mant_size LENGTH('a) + 5 \<le> LENGTH('a) - 1" using fmt_sizes(1) [OF f] .
  have "unat ?m < 2 ^ (mant_size LENGTH('a) + 1)"
    using sf_mant_less [of a] or_implicit(1) [OF f sf_mant_less [of a]] by simp
  then have 1: "unat (add_mant a) = unat ?m * 2 ^ 3"
    unfolding add_mant_eq by (rule unat_push_bit(1)) (use M in linarith)
  have "sf_mant a AND implicit_bit = 0"
    by (rule bit_word_eqI) (auto simp: sf_mant_def mant_mask_def implicit_bit_def bit_simps)
  then have "sf_mant a OR implicit_bit = sf_mant a + implicit_bit"
    using word_plus_and_or [of "sf_mant a" implicit_bit] by simp
  moreover have "unat (implicit_bit :: 'a word) = 2 ^ mant_size LENGTH('a)"
    using unat_push_bit(1) [of "1 :: 'a word" 1 "mant_size LENGTH('a)"] M by (simp add: implicit_bit_def)
  moreover have "unat (sf_mant a) + 2 ^ mant_size LENGTH('a) < 2 ^ LENGTH('a)"
  proof -
    have "unat (sf_mant a) + 2 ^ mant_size LENGTH('a) < 2 ^ (mant_size LENGTH('a) + 1)"
      using sf_mant_less [of a] by simp
    also have "\<dots> \<le> 2 ^ LENGTH('a)" using M by (intro power_increasing) auto
    finally show ?thesis .
  qed
  ultimately have "unat (sf_mant a OR implicit_bit) = unat (sf_mant a) + 2 ^ mant_size LENGTH('a)"
    by (simp add: unat_word_ariths)
  with 1 show ?thesis by simp
qed

definition eff_exp :: "'a::len word \<Rightarrow> int" where
  "eff_exp a = (if sf_exp a = 0 then 1 else sf_exp a)"

lemma rshift_half: 
  fixes x :: "'a::len word"
  assumes "unat x < 2 ^ Suc m" and "0 < d" and "0 < m"
  shows "unat (rshift_rnd x d) < 2 ^ m"
proof (cases "d \<ge> LENGTH('a)")
  case True
  have "unat (rshift_rnd x d) \<le> 1" using True assms(2) by (simp add: rshift_rnd_def)
  also have "1 < (2 :: nat) ^ m" using assms(3) by (intro one_less_power) simp_all
  finally show ?thesis .
next
  case False
  have "unat (drop_bit d x) < 2 ^ m" using assms(1,2) unfolding unat_less_bits by (auto simp: bit_drop_bit_eq)
  then show ?thesis using False assms(2,3) by (auto simp: rshift_rnd_def unat_or_1 [where c = True, simplified])
qed

lemma add_aligned_le:
  fixes a b :: "'a::len word"
  assumes f: "fmt_ok TYPE('a)" and le: "(b AND NOT sign_mask) \<le> (a AND NOT sign_mask)"
  shows "unat (rshift_rnd (add_mant b) (nat (eff_exp a - eff_exp b))) \<le> unat (add_mant a)"
proof -
  let ?M = "mant_size LENGTH('a)"
  define ma mb ea eb where "ma = unat (sf_mant a)" and "mb = unat (sf_mant b)"
    and "ea = nat (sf_exp a)" and "eb = nat (sf_exp b)"
  have pos: "0 \<le> sf_exp a" "0 \<le> sf_exp b" by (simp_all add: sf_exp_unat [OF f])
  have mag: "2 ^ ?M * eb + mb \<le> 2 ^ ?M * ea + ma"
    using le unfolding word_le_nat_alt magnitude [OF f] ma_def mb_def ea_def eb_def .
  have m: "ma < 2 ^ ?M" "mb < 2 ^ ?M" using sf_mant_less [of a] sf_mant_less [of b] by (simp_all add: ma_def mb_def)
  have e: "eb \<le> ea"
  proof (rule ccontr)
    assume "\<not> eb \<le> ea"
    then have "2 ^ ?M * (ea + 1) \<le> 2 ^ ?M * eb" by (intro mult_le_mono2) simp
    then have "2 ^ ?M * ea + 2 ^ ?M \<le> 2 ^ ?M * eb" by simp
    with mag m show False by linarith
  qed
  show ?thesis
  proof (cases "eff_exp a = eff_exp b")
    case True
    then have "rshift_rnd (add_mant b) (nat (eff_exp a - eff_exp b)) = add_mant b" by (simp add: rshift_rnd_def)
    moreover have "unat (add_mant b) \<le> unat (add_mant a)"
    proof (cases "ea = eb")
      case True
      with mag have "mb \<le> ma" by simp
      with True pos show ?thesis unfolding add_mant_unat [OF f] ma_def mb_def ea_def eb_def by auto
    next
      case False
      with e True pos have "sf_exp b = 0 \<and> sf_exp a \<noteq> 0" by (auto simp: eff_exp_def ea_def eb_def split: if_splits)
      then show ?thesis using m unfolding add_mant_unat [OF f] ma_def mb_def by simp
    qed
    ultimately show ?thesis by simp
  next
    case False
    then have d: "0 < nat (eff_exp a - eff_exp b)" and a0: "sf_exp a \<noteq> 0"
      using e pos by (auto simp: eff_exp_def ea_def eb_def split: if_splits)
    have "unat (add_mant b) < 2 ^ Suc (?M + 3)" using m unfolding add_mant_unat [OF f] mb_def by (simp add: power_add)
    then have "unat (rshift_rnd (add_mant b) (nat (eff_exp a - eff_exp b))) < 2 ^ (?M + 3)"
      using d by (intro rshift_half) auto
    also have "(2 :: nat) ^ (?M + 3) \<le> unat (add_mant a)"
      using a0 unfolding add_mant_unat [OF f] by (simp add: power_add)
    finally show ?thesis by simp
  qed
qed

lemma unat_diff: "unat b \<le> unat a \<Longrightarrow> unat (a - b) = unat a - unat b" for a :: "'a::len word"
  by (simp add: unat_sub_if')

lemma add_sf_total:
  fixes a0 b0 :: "'a::len word"
  assumes f: "fmt_ok TYPE('a)"
  shows "add_sf a0 b0 rm fl \<noteq> None"
proof -
  let ?M = "mant_size LENGTH('a)"
  define a where "a = (if (a0 AND NOT sign_mask) < (b0 AND NOT sign_mask) then b0 else a0)"
  define b where "b = (if (a0 AND NOT sign_mask) < (b0 AND NOT sign_mask) then a0 else b0)"
  have le: "(b AND NOT sign_mask) \<le> (a AND NOT sign_mask)" by (auto simp: a_def b_def)
  define bm where "bm = rshift_rnd (add_mant b) (nat (eff_exp a - eff_exp b))"
  have bl: "unat bm \<le> unat (add_mant a)" unfolding bm_def using f le by (rule add_aligned_le)
  have am: "unat (add_mant a) < 2 ^ (?M + 4)"
    using sf_mant_less [of a] unfolding add_mant_unat [OF f] by (simp add: power_add)
  have M: "?M + 5 \<le> LENGTH('a) - 1" using fmt_sizes(1) [OF f] .
  have pw: "(2 :: nat) ^ (?M + 5) \<le> 2 ^ (LENGTH('a) - 1)" "(2 :: nat) ^ (LENGTH('a) - 1) \<le> 2 ^ LENGTH('a)"
    using M by (auto intro!: power_increasing)
  have "unat (add_mant a) + unat bm < 2 ^ (?M + 5)" using am bl by (simp add: power_add)
  moreover have "unat (add_mant a + bm) \<le> unat (add_mant a) + unat bm"
    unfolding unat_word_ariths by (rule mod_less_eq_dividend)
  ultimately have s1: "unat (add_mant a + bm) < 2 ^ (LENGTH('a) - 1)" using pw(1) by linarith
  have s2: "unat (add_mant a - bm) < 2 ^ (LENGTH('a) - 1)"
    using unat_diff [OF bl] am pw by (simp add: power_add)
  show ?thesis
    using normalize_total [OF f s1] normalize_total [OF f s2]
    unfolding add_sf_def Let_def a_def [symmetric] b_def [symmetric]
      add_mant_def [symmetric, of a] add_mant_def [symmetric, of b]
      eff_exp_def [symmetric] bm_def [symmetric]
    by auto
qed

section \<open>Multiplication\<close>

text \<open>The schoolbook product of two double half-words, on natural numbers.\<close>

lemma schoolbook_carries:
  fixes H :: nat
  assumes "r00 = H * q00 + s00" and "r01 = H * q01 + s01" and "r10 = H * q10 + s10" and "r11 = H * q11 + s11"
    and "q00 + s01 + s10 = H * k1 + t1" and "k1 + q01 + q10 + s11 = H * k2 + t2"
  shows "((k2 + q11) * H + t2) * (H * H) + (t1 * H + s00) = r00 + H * (r01 + r10) + H * H * r11"
  using assms by algebra

lemma schoolbook:
  fixes r00 r01 r10 r11 H :: nat
  assumes H: "0 < H"
  defines "c1 \<equiv> r00 div H + r01 mod H + r10 mod H"
  defines "c2 \<equiv> c1 div H + r01 div H + r10 div H + r11 mod H"
  shows "((c2 div H + r11 div H) * H + c2 mod H) * (H * H) + ((c1 mod H) * H + r00 mod H)
    = r00 + H * (r01 + r10) + H * H * r11"
  by (rule schoolbook_carries [of _ _ "r00 div H" _ _ "r01 div H" "r01 mod H" _ "r10 div H" "r10 mod H"
        _ _ "r11 mod H" "c1 div H"]) (simp_all add: c1_def c2_def)

lemma half_unat: "unat (ucast (ucast (x :: u64) :: u32) :: u64) = unat x mod 2 ^ 32"
proof -
  have "(ucast (ucast x :: u32) :: u64) = x AND mask 32"
    by (rule bit_word_eqI) (auto simp: bit_simps)
  then show ?thesis by (simp only: word_and_mask_mod)
qed

lemma unat_add_lt: "unat a + unat b < 2 ^ 64 \<Longrightarrow> unat (a + b) = unat a + unat b" for a b :: u64
  by (simp add: unat_word_ariths)

lemma unat_mult_lt: "unat a * unat b < 2 ^ 64 \<Longrightarrow> unat (a * b) = unat a * unat b" for a b :: u64
  by (simp add: unat_word_ariths)

lemma unat_or_halves:
  assumes "unat (l :: u64) < 2 ^ 32"
  shows "unat (push_bit 32 h OR l) = unat h mod 2 ^ 32 * 2 ^ 32 + unat l"
proof -
  have "push_bit 32 h AND l = 0" "push_bit 32 h OR l = push_bit 32 (h AND mask 32) OR l"
    "push_bit 32 (h AND mask 32) AND l = 0"
    using assms unfolding unat_less_bits by (auto intro!: bit_word_eqI simp: bit_simps)
  then have "push_bit 32 h OR l = push_bit 32 (h AND mask 32) + l"
    using word_plus_and_or [of "push_bit 32 (h AND mask 32)" l] by simp
  moreover have "unat (h AND mask 32) < 2 ^ 32" by (simp only: word_and_mask_mod) simp
  then have "unat (push_bit 32 (h AND mask 32)) = unat (h AND mask 32) * 2 ^ 32"
    by (rule unat_push_bit(1)) simp
  moreover have "unat (h AND mask 32) = unat h mod 2 ^ 32" by (rule word_and_mask_mod)
  moreover have "unat h mod 2 ^ 32 * 2 ^ 32 + unat l < 2 ^ 64"
  proof -
    have "unat h mod 2 ^ 32 \<le> 2 ^ 32 - 1" by (simp add: less_Suc_eq_le [symmetric])
    then have "unat h mod 2 ^ 32 * 2 ^ 32 \<le> (2 ^ 32 - 1) * 2 ^ 32" by (rule mult_le_mono1)
    with assms show ?thesis by simp
  qed
  ultimately show ?thesis using unat_add_lt [of "push_bit 32 (h AND mask 32)" l] by simp
qed

lemma mul_u64_exact:
  "unat (fst (mul_u64 a b)) * 2 ^ 64 + unat (snd (mul_u64 a b)) = unat a * unat b"
proof -
  define H :: nat where "H = 2 ^ 32"
  define half where "half = (\<lambda>x :: u64. ucast (ucast x :: u32) :: u64)"
  have hu: "unat (half x) = unat x mod H" for x unfolding half_def H_def by (rule half_unat)
  have du: "unat (drop_bit 32 x) = unat x div H" for x :: u64 unfolding H_def by (rule unat_drop_bit)
  have lt: "unat x < H * H" for x :: u64 using unsigned_less [of x] by (simp add: H_def)
  have dl: "unat x div H < H" for x :: u64 using lt [of x] by (simp add: less_mult_imp_div_less)
  have H0: "0 < H" by (simp add: H_def)
  have HH: "H * H = 2 ^ 64" by (simp add: H_def)
  define a0 a1 b0 b1 where "a0 = half a" and "a1 = half (drop_bit 32 a)"
    and "b0 = half b" and "b1 = half (drop_bit 32 b)"
  have parts: "unat a0 = unat a mod H" "unat a1 = unat a div H" "unat b0 = unat b mod H" "unat b1 = unat b div H"
    using dl by (simp_all add: a0_def a1_def b0_def b1_def hu du)
  have prod: "unat (x * y) = unat x * unat y \<and> unat x * unat y \<le> (H - 1) * (H - 1)"
    if "unat x < H" "unat y < H" for x y :: u64
  proof -
    have le: "unat x * unat y \<le> (H - 1) * (H - 1)" using that by (intro mult_le_mono) auto
    also have "\<dots> < 2 ^ 64" by (simp add: H_def)
    finally show ?thesis using unat_mult_lt le by blast
  qed
  have small: "unat a0 < H" "unat a1 < H" "unat b0 < H" "unat b1 < H" using parts dl H0 by simp_all
  define r00 r01 r10 r11 where "r00 = a0 * b0" and "r01 = a0 * b1" and "r10 = a1 * b0" and "r11 = a1 * b1"
  have r: "unat r00 = unat a0 * unat b0" "unat r01 = unat a0 * unat b1"
    "unat r10 = unat a1 * unat b0" "unat r11 = unat a1 * unat b1"
    unfolding r00_def r01_def r10_def r11_def using prod small by blast+
  define c1 where "c1 = (drop_bit 32 r00 + half r01) + half r10"
  define c2 where "c2 = ((drop_bit 32 c1 + drop_bit 32 r01) + drop_bit 32 r10) + half r11"
  have ml: "x mod H < H" for x using H0 by simp
  have H4: "4 * H < 2 ^ 64" by (simp add: H_def)
  have c1: "unat c1 = unat r00 div H + unat r01 mod H + unat r10 mod H"
  proof -
    have "unat (drop_bit 32 r00) + unat (half r01) < 2 ^ 64"
      unfolding hu du using dl [of r00] ml [of "unat r01"] H4 by linarith
    note 1 = unat_add_lt [OF this, unfolded hu du]
    have "unat (drop_bit 32 r00 + half r01) + unat (half r10) < 2 ^ 64"
      unfolding 1 hu using dl [of r00] ml [of "unat r01"] ml [of "unat r10"] H4 by linarith
    from unat_add_lt [OF this] show ?thesis unfolding c1_def 1 hu .
  qed
  have c2: "unat c2 = unat c1 div H + unat r01 div H + unat r10 div H + unat r11 mod H"
  proof -
    have "unat (drop_bit 32 c1) + unat (drop_bit 32 r01) < 2 ^ 64"
      unfolding du using dl [of c1] dl [of r01] H4 by linarith
    note 1 = unat_add_lt [OF this, unfolded du]
    have "unat (drop_bit 32 c1 + drop_bit 32 r01) + unat (drop_bit 32 r10) < 2 ^ 64"
      unfolding 1 du using dl [of c1] dl [of r01] dl [of r10] H4 by linarith
    note 2 = unat_add_lt [OF this, unfolded 1 du]
    have "unat ((drop_bit 32 c1 + drop_bit 32 r01) + drop_bit 32 r10) + unat (half r11) < 2 ^ 64"
      unfolding 2 hu using dl [of c1] dl [of r01] dl [of r10] ml [of "unat r11"] H4 by linarith
    from unat_add_lt [OF this] show ?thesis unfolding c2_def 2 hu .
  qed
  define t where "t = drop_bit 32 c2 + drop_bit 32 r11"
  have t: "unat t = unat c2 div H + unat r11 div H"
  proof -
    have "unat (drop_bit 32 c2) + unat (drop_bit 32 r11) < 2 ^ 64"
      unfolding du using dl [of c2] dl [of r11] H4 by linarith
    from unat_add_lt [OF this] show ?thesis unfolding t_def du .
  qed
  have m: "mul_u64 a b = (push_bit 32 (half t) OR half c2, push_bit 32 (half c1) OR half r00)"
    unfolding mul_u64_def Let_def half_def [symmetric] a0_def [symmetric] a1_def [symmetric]
      b0_def [symmetric] b1_def [symmetric] r00_def [symmetric] r01_def [symmetric]
      r10_def [symmetric] r11_def [symmetric] c1_def [symmetric] c2_def [symmetric] t_def [symmetric] ..
  have or: "unat (push_bit 32 (half h) OR half l) = unat h mod H * H + unat l mod H" for h l
    using unat_or_halves [of "half l" "half h"] ml [of "unat l"] ml [of "unat h"] unfolding hu H_def [symmetric] by simp
  have val: "((unat c2 div H + unat r11 div H) * H + unat c2 mod H) * (H * H) +
      ((unat c1 mod H) * H + unat r00 mod H) = unat r00 + H * (unat r01 + unat r10) + H * H * unat r11"
    unfolding c2 c1 using H0 by (rule schoolbook)
  also have "\<dots> = unat a * unat b"
  proof -
    have "unat a * unat b = (H * unat a1 + unat a0) * (H * unat b1 + unat b0)" by (simp add: parts)
    then show ?thesis unfolding r by (simp add: algebra_simps)
  qed
  finally have val2: "(unat t * H + unat c2 mod H) * (H * H) + ((unat c1 mod H) * H + unat r00 mod H) = unat a * unat b"
    by (simp only: t)
  have "unat t < H"
  proof (rule ccontr)
    assume "\<not> unat t < H"
    then have "H * H \<le> unat t * H" by simp
    then have "H * H * (H * H) \<le> unat t * H * (H * H)" by (rule mult_le_mono1)
    also have "\<dots> \<le> unat a * unat b" unfolding val2 [symmetric] by (simp add: algebra_simps)
    also have "\<dots> < H * H * (H * H)" using lt [of a] lt [of b] H0 by (intro mult_strict_mono) auto
    finally show False by simp
  qed
  then show ?thesis using val2 unfolding m fst_conv snd_conv or HH by simp
qed

lemma word_lengths: "LENGTH(32) = 32" "LENGTH(64) = 64"
  by simp_all

lemma mul_u32_exact:
  "unat (fst (mul_u32 a b)) * 2 ^ 32 + unat (snd (mul_u32 a b)) = unat a * unat b"
proof -
  have lt: "unat a < 2 ^ 32" "unat b < 2 ^ 32" using unsigned_less [of a] unsigned_less [of b] by simp_all
  then have "unat a * unat b < 2 ^ 32 * 2 ^ 32" by (intro mult_strict_mono) auto
  then have l64: "unat a * unat b < 2 ^ 64" by simp
  have up: "unat (ucast x :: u64) = unat x" for x :: u32
    using unsigned_less [of x, where ?'a = nat] by (simp add: unsigned_ucast_eq take_bit_nat_eq_self)
  with l64 have r: "unat (ucast a * ucast b :: u64) = unat a * unat b"
    by (simp add: unat_word_ariths)
  have d: "unat a * unat b div 2 ^ 32 < 2 ^ 32" using l64 by (simp add: div_less_iff_less_mult)
  have h: "unat (fst (mul_u32 a b)) = unat a * unat b div 2 ^ 32"
    using d unfolding mul_u32_def Let_def fst_conv
    by (simp only: unsigned_ucast_eq unat_drop_bit r take_bit_nat_eq_self word_lengths eval_nat_numeral)
  have l: "unat (snd (mul_u32 a b)) = unat a * unat b mod 2 ^ 32"
    unfolding mul_u32_def Let_def snd_conv by (simp only: unsigned_ucast_eq r take_bit_eq_mod word_lengths)
  show ?thesis unfolding h l by (rule div_mult_mod_eq)
qed

lemma unat_ucast_same:
  "LENGTH('a) = LENGTH('b) \<Longrightarrow> unat (ucast (x :: 'a::len word) :: 'b::len word) = unat x"
  using unsigned_less [of x, where ?'a = nat] by (simp only: unsigned_ucast_eq take_bit_nat_eq_self)

lemma mul_u_exact:
  fixes a b :: "'a::len word"
  assumes "fmt_ok TYPE('a)"
  shows "unat (fst (mul_u a b)) * 2 ^ LENGTH('a) + unat (snd (mul_u a b)) = unat a * unat b"
proof (cases "LENGTH('a) = 32")
  case True
  then have e: "unat (ucast (x :: 'a word) :: u32) = unat x" "unat (ucast (y :: u32) :: 'a word) = unat y" for x y
    by (simp_all only: unat_ucast_same word_lengths)
  show ?thesis
    using mul_u32_exact [of "ucast a" "ucast b"] True
    unfolding mul_u_def if_P [OF True] fst_map_prod snd_map_prod e by simp
next
  case False
  then have 64: "LENGTH('a) = 64" using assms by (simp add: fmt_ok_def)
  then have e: "unat (ucast (x :: 'a word) :: u64) = unat x" "unat (ucast (y :: u64) :: 'a word) = unat y" for x y
    by (simp_all only: unat_ucast_same word_lengths)
  show ?thesis
    using mul_u64_exact [of "ucast a" "ucast b"] 64
    unfolding mul_u_def if_not_P [OF False] fst_map_prod snd_map_prod e by simp
qed

lemma mul_u_high:
  fixes a b :: "'a::len word"
  assumes f: "fmt_ok TYPE('a)" and "unat a < 2 ^ i" "unat b < 2 ^ j" and k: "i + j = LENGTH('a) + k"
  shows "unat (fst (mul_u a b)) < 2 ^ k"
proof -
  have "unat (fst (mul_u a b)) * 2 ^ LENGTH('a) \<le> unat a * unat b"
    using mul_u_exact [OF f, of a b] by linarith
  also have "\<dots> < 2 ^ i * 2 ^ j" using assms(2,3) by (intro mult_strict_mono) auto
  also have "\<dots> = 2 ^ k * 2 ^ LENGTH('a)" by (simp add: k power_add [symmetric] add.commute)
  finally show ?thesis by simp
qed

lemma mul_sf_total:
  fixes a b :: "'a::len word"
  assumes f: "fmt_ok TYPE('a)"
  shows "mul_sf a b rm fl \<noteq> None"
proof -
  let ?R = "rnd_size LENGTH('a)" and ?F = "LENGTH('a)"
  note sz = fmt_sizes(1-5) [OF f]
  have fin: "normalize_sf sg e (fst (mul_u (push_bit ?R (snd (op_mant a))) (push_bit (?R + 1) (snd (op_mant b)))) OR
      (if c then 1 else 0)) rm fl \<noteq> None"
    if "\<not> (sf_exp a = 0 \<and> sf_mant a = 0)" "\<not> (sf_exp b = 0 \<and> sf_mant b = 0)" for sg e c
  proof (rule normalize_total [OF f], rule unat_or_1)
    have "unat (push_bit ?R (snd (op_mant a))) < 2 ^ (mant_size ?F + 1 + ?R)"
      by (rule unat_push_bit(2) [OF op_mant_bounds(1) [OF f that(1)]]) (use sz in linarith)
    moreover have "unat (push_bit (?R + 1) (snd (op_mant b))) < 2 ^ (mant_size ?F + 1 + (?R + 1))"
      by (rule unat_push_bit(2) [OF op_mant_bounds(1) [OF f that(2)]]) (use sz in linarith)
    ultimately show "unat (fst (mul_u (push_bit ?R (snd (op_mant a))) (push_bit (?R + 1) (snd (op_mant b)))))
        < 2 ^ (?F - 1)"
      by (rule mul_u_high [OF f]) (use sz in linarith)
    show "0 < ?F - 1" using sz by linarith
  qed
  then show ?thesis
    unfolding mul_sf_def Let_def op_mant_def [symmetric]
    by (auto simp: case_prod_beta)
qed

section \<open>Fused multiply and add\<close>

lemma fma_shift_high:
  fixes c1 c0 :: "'a::len word"
  shows "unat (fst (fma_shift c1 c0 k)) \<le> unat c1 div 2 ^ k"
    and "fma_shift c1 c0 0 = (c1, c0)"
  by (auto simp: fma_shift_def Let_def unat_drop_bit)

text \<open>The product of the mantissas, its top bit moved to \<open>IMANT_SIZE - 1\<close>.\<close>

definition fma_top :: "'a::len word \<times> 'a word \<Rightarrow> 'a word" where
  "fma_top = (\<lambda>(h, l). if h < push_bit (LENGTH('a) - 3) 1 then push_bit 1 h OR drop_bit (LENGTH('a) - 1) l else h)"

lemma fma_top_bounds:
  fixes a b :: "'a::len word"
  assumes f: "fmt_ok TYPE('a)"
    and a: "\<not> (sf_exp a = 0 \<and> sf_mant a = 0)" and b: "\<not> (sf_exp b = 0 \<and> sf_mant b = 0)"
  defines "hl \<equiv> mul_u (push_bit (rnd_size LENGTH('a)) (snd (op_mant a))) (push_bit (rnd_size LENGTH('a)) (snd (op_mant b)))"
  shows "unat (fma_top hl) < 2 ^ (LENGTH('a) - 2)" and "2 ^ (LENGTH('a) - 3) \<le> unat (fma_top hl)"
proof -
  let ?F = "LENGTH('a)" and ?R = "rnd_size LENGTH('a)" and ?M = "mant_size LENGTH('a)"
  note sz = fmt_sizes(1-5) [OF f]
  obtain h l where hl: "hl = (h, l)" by (cases hl)
  have op: "unat (push_bit ?R (snd (op_mant x))) < 2 ^ (?F - 1) \<and> 2 ^ (?F - 2) \<le> unat (push_bit ?R (snd (op_mant x)))"
    if "\<not> (sf_exp x = 0 \<and> sf_mant x = 0)" for x :: "'a word"
  proof -
    note o = op_mant_bounds [OF f that]
    have "unat (push_bit ?R (snd (op_mant x))) = unat (snd (op_mant x)) * 2 ^ ?R"
      "unat (push_bit ?R (snd (op_mant x))) < 2 ^ (?M + 1 + ?R)"
      using unat_push_bit [OF o(1), of ?R] sz by linarith+
    moreover have "2 ^ (?M + ?R) \<le> unat (snd (op_mant x)) * 2 ^ ?R"
      using o(2) by (simp add: power_add)
    moreover have e: "?M + 1 + ?R = ?F - 1" "?M + ?R = ?F - 2" using sz by linarith+
    ultimately show ?thesis unfolding e by linarith
  qed
  have lo: "2 ^ (?F - 4) \<le> unat h"
  proof -
    have "(2 :: nat) ^ (?F - 4) * 2 ^ ?F = 2 ^ (?F - 2) * 2 ^ (?F - 2)"
    proof -
      have "?F - 4 + ?F = ?F - 2 + (?F - 2)" using sz by linarith
      then show ?thesis by (simp only: power_add [symmetric])
    qed
    also have "\<dots> \<le> unat (push_bit ?R (snd (op_mant a))) * unat (push_bit ?R (snd (op_mant b)))"
      using op [OF a] op [OF b] by (intro mult_le_mono) auto
    also have "\<dots> = unat h * 2 ^ ?F + unat l"
      using mul_u_exact [OF f, of "push_bit ?R (snd (op_mant a))" "push_bit ?R (snd (op_mant b))"] hl
      by (simp add: hl_def)
    also have "\<dots> < unat h * 2 ^ ?F + 2 ^ ?F" using unsigned_less [of l, where ?'a = nat] by simp
    also have "\<dots> = (unat h + 1) * 2 ^ ?F" by simp
    finally have "2 ^ (?F - 4) < unat h + 1" by (simp only: mult_less_cancel2)
    then show ?thesis by simp
  qed
  have hi: "unat h < 2 ^ (?F - 2)"
  proof -
    have "?F - 1 + (?F - 1) = ?F + (?F - 2)" using sz by linarith
    from mul_u_high [OF f _ _ this] op [OF a] op [OF b] hl show ?thesis
      by (metis hl_def fst_conv)
  qed
  have thr: "unat (push_bit (?F - 3) 1 :: 'a word) = 2 ^ (?F - 3)"
    using unat_push_bit(1) [of "1 :: 'a word" 1 "?F - 3"] sz by simp
  have "unat (fma_top hl) < 2 ^ (?F - 2) \<and> 2 ^ (?F - 3) \<le> unat (fma_top hl)"
  proof (cases "h < push_bit (?F - 3) 1")
    case True
    then have lt: "unat h < 2 ^ (?F - 3)" unfolding word_less_nat_alt thr .
    have "unat (drop_bit (?F - 1) l) < 2 ^ (?F - (?F - 1))"
      by (rule unat_drop_bit_less) (use unsigned_less [of l, where ?'a = nat] in auto)
    then have d: "unat (drop_bit (?F - 1) l) < 2 ^ 1" using sz by simp
    have p: "unat (push_bit 1 h) = unat h * 2 ^ 1" "unat (push_bit 1 h) < 2 ^ (?F - 3 + 1)"
      by (rule unat_push_bit [OF lt]; use sz in linarith)+
    have e: "?F - 3 + 1 = ?F - 2" "?F - 3 = ?F - 4 + 1" "1 \<le> ?F - 2" using sz by linarith+
    have "unat (push_bit 1 h OR drop_bit (?F - 1) l) < 2 ^ (?F - 2)"
      using p(2) d e(3) unfolding e(1) unat_less_bits by (auto simp: bit_or_iff simp del: bit_drop_bit_eq)
    moreover have "\<not> unat (push_bit 1 h OR drop_bit (?F - 1) l) < 2 ^ (?F - 3)"
    proof
      assume "unat (push_bit 1 h OR drop_bit (?F - 1) l) < 2 ^ (?F - 3)"
      then have "unat (push_bit 1 h) < 2 ^ (?F - 3)"
        unfolding unat_less_bits by (simp add: bit_or_iff del: bit_push_bit_iff)
      with p(1) lo show False unfolding e(2) by simp
    qed
    ultimately show ?thesis using True by (simp add: fma_top_def hl)
  next
    case False
    then have "2 ^ (?F - 3) \<le> unat h" unfolding word_less_nat_alt thr by simp
    with hi False show ?thesis by (simp add: fma_top_def hl)
  qed
  then show "unat (fma_top hl) < 2 ^ (?F - 2)" and "2 ^ (?F - 3) \<le> unat (fma_top hl)" by blast+
qed

text \<open>Two such mantissas, the smaller one shifted, are added or subtracted without a wrap.\<close>

lemma fma_combine:
  fixes r1 d1 :: "'a::len word"
  assumes f: "fmt_ok TYPE('a)"
    and r: "unat r1 < 2 ^ (LENGTH('a) - 2)" "2 ^ (LENGTH('a) - 3) \<le> unat r1" and d: "unat d1 < 2 ^ (LENGTH('a) - 2)"
    and k0: "k = 0 \<Longrightarrow> d1 < r1 \<or> d1 \<le> r1 \<and> d0 = 0"
    and c: "fma_shift d1 d0 k = (c1, c0)"
  shows "unat (r1 + (c1 + (if x then 1 else 0))) < 2 ^ (LENGTH('a) - 1)"
    and "unat ((r1 - c1) - (if r0 - c0 > r0 then 1 else 0)) < 2 ^ (LENGTH('a) - 1)"
proof -
  let ?F = "LENGTH('a)"
  note sz = fmt_sizes(3) [OF f]
  have e: "(2 :: nat) ^ (?F - 1) = 2 * 2 ^ (?F - 2)" "(2 :: nat) ^ (?F - 2) = 2 * 2 ^ (?F - 3)"
    using f by (auto simp: fmt_ok_def)
  have cd: "unat c1 \<le> unat d1 div 2 ^ k" using fma_shift_high(1) [of d1 d0 k] c by simp
  then have "unat c1 \<le> unat d1" using div_le_dividend le_trans by blast
  moreover have "unat (r1 + (c1 + (if x then 1 else 0))) \<le> unat r1 + (unat c1 + 1)"
  proof -
    have "unat (c1 + (if x then 1 else 0)) \<le> unat c1 + unat (if x then 1 else 0 :: 'a word)"
      unfolding unat_word_ariths by (rule mod_less_eq_dividend)
    moreover have "unat (r1 + y) \<le> unat r1 + unat y" for y
      unfolding unat_word_ariths by (rule mod_less_eq_dividend)
    ultimately show ?thesis by (fastforce intro: le_trans split: if_splits)
  qed
  ultimately show "unat (r1 + (c1 + (if x then 1 else 0))) < 2 ^ (?F - 1)" using r(1) d e by linarith
  have b: "unat c1 + unat (if r0 - c0 > r0 then 1 else 0 :: 'a word) \<le> unat r1"
  proof (cases "k = 0")
    case True
    then have cd: "c1 = d1" "c0 = d0" using c by (simp_all add: fma_shift_high(2))
    from k0 [OF True] show ?thesis
    proof
      assume "d1 < r1"
      then have "unat d1 < unat r1" by (simp add: word_less_nat_alt)
      then show ?thesis using cd by simp
    next
      assume "d1 \<le> r1 \<and> d0 = 0"
      then show ?thesis using cd by (simp add: word_le_nat_alt)
    qed
  next
    case False
    then have "unat d1 div 2 ^ k \<le> unat d1 div 2 ^ 1" by (intro div_le_mono2 power_increasing) auto
    then have "unat c1 < 2 ^ (?F - 3)" using cd d e(2) by simp
    with r(2) show ?thesis by simp
  qed
  then have 1: "unat (r1 - c1) = unat r1 - unat c1" by (intro unat_diff) simp
  have "unat ((r1 - c1) - (if r0 - c0 > r0 then 1 else 0)) = unat (r1 - c1) - unat (if r0 - c0 > r0 then 1 else 0 :: 'a word)"
    using b by (intro unat_diff) (simp only: 1)
  also have "\<dots> \<le> unat r1" unfolding 1 by simp
  finally show "unat ((r1 - c1) - (if r0 - c0 > r0 then 1 else 0)) < 2 ^ (?F - 1)" using r(1) e(1) by linarith
qed

lemma fma_sf_total:
  fixes a b c :: "'a::len word"
  assumes f: "fmt_ok TYPE('a)"
  shows "fma_sf a b c rm fl \<noteq> None"
proof (cases "fma_special a b c rm fl")
  case (Some r)
  then show ?thesis by (simp add: fma_sf_def)
next
  case None
  then have a: "\<not> (sf_exp a = 0 \<and> sf_mant a = 0)" and b: "\<not> (sf_exp b = 0 \<and> sf_mant b = 0)"
    by (auto simp: fma_special_def Let_def split: if_splits)
  let ?F = "LENGTH('a)" and ?R = "rnd_size LENGTH('a)"
  note sz = fmt_sizes(1-5) [OF f]
  define hl where "hl = mul_u (push_bit ?R (snd (op_mant a))) (push_bit ?R (snd (op_mant b)))"
  note p = fma_top_bounds [OF f a b, folded hl_def]
  define low where "low = (fst hl < push_bit (?F - 3) 1)"
  define p0 where "p0 = (if low then push_bit 1 (snd hl) else snd hl)"
  define pe where "pe = (if low then fst (op_mant a) + fst (op_mant b) - 2 ^ (exp_size ?F - 1) + 3 - 1
    else fst (op_mant a) + fst (op_mant b) - 2 ^ (exp_size ?F - 1) + 3)"
  have top: "(if low then push_bit 1 (fst hl) OR drop_bit (?F - 1) (snd hl) else fst hl) = fma_top hl"
    by (simp add: fma_top_def low_def case_prod_beta)
  have pw: "(2 :: nat) ^ (?F - 2) \<le> 2 ^ (?F - 1)" using sz by (intro power_increasing) auto
  show ?thesis
  proof (cases "sf_exp c = 0 \<and> sf_mant c = 0")
    case True
    have "unat (fma_top hl OR (if p0 \<noteq> 0 then 1 else 0)) < 2 ^ (?F - 1)"
      by (rule unat_or_1) (use p(1) pw sz in linarith)+
    from normalize_total [OF f this] show ?thesis
      using True None unfolding fma_sf_def Let_def op_mant_def [symmetric] case_prod_beta hl_def [symmetric]
        low_def [symmetric] p0_def [symmetric] top
      by simp
  next
    case False
    define q1 where "q1 = push_bit (?R - 1) (snd (op_mant c))"
    have q: "unat q1 < 2 ^ (?F - 2)" "2 ^ (?F - 3) \<le> unat q1"
    proof -
      note o = op_mant_bounds [OF f False]
      have e: "mant_size ?F + 1 + (?R - 1) = ?F - 2" "mant_size ?F + (?R - 1) = ?F - 3" using sz by linarith+
      have u: "unat q1 = unat (snd (op_mant c)) * 2 ^ (?R - 1)" "unat q1 < 2 ^ (mant_size ?F + 1 + (?R - 1))"
        unfolding q1_def using unat_push_bit [OF o(1), of "?R - 1"] sz by linarith+
      then show "unat q1 < 2 ^ (?F - 2)" unfolding e by simp
      show "2 ^ (?F - 3) \<le> unat q1" unfolding e(2) [symmetric] u(1) power_add using o(2) by simp
    qed
    define ce where "ce = fst (op_mant c) + 1"
    define keep where "keep = (pe > ce \<or> (pe = ce \<and> fma_top hl \<ge> q1))"
    note add1 = fma_combine(1) [OF f p(1,2) q(1)] and sub1 = fma_combine(2) [OF f p(1,2) q(1)]
    note add2 = fma_combine(1) [OF f q p(1)] and sub2 = fma_combine(2) [OF f q p(1)]
    have k1: "nat (pe - ce) = 0 \<Longrightarrow> q1 < fma_top hl \<or> q1 \<le> fma_top hl \<and> (0 :: 'a word) = 0" if keep
      using that by (auto simp: keep_def)
    have k2: "nat (ce - pe) = 0 \<Longrightarrow> fma_top hl < q1 \<or> fma_top hl \<le> q1 \<and> p0 = 0" if "\<not> keep"
      using that by (auto simp: keep_def)
    note n2 = normalize2_total [OF f]
    show ?thesis
    proof (cases keep)
      case True
      obtain c1 c0 where s: "fma_shift q1 0 (nat (pe - ce)) = (c1, c0)" by (cases "fma_shift q1 0 (nat (pe - ce))")
      show ?thesis
        unfolding fma_sf_def Let_def op_mant_def [symmetric] case_prod_beta hl_def [symmetric]
          low_def [symmetric] p0_def [symmetric] top pe_def [symmetric] ce_def [symmetric] q1_def [symmetric]
          keep_def [symmetric] None option.case if_not_P [OF False] if_P [OF True] fst_conv snd_conv s
        using n2 [OF add1 [OF k1 [OF True] s]] n2 [OF sub1 [OF k1 [OF True] s]]
        by (simp only: simp_thms split: if_split)
    next
      case kf: False
      obtain c1 c0 where s: "fma_shift (fma_top hl) p0 (nat (ce - pe)) = (c1, c0)"
        by (cases "fma_shift (fma_top hl) p0 (nat (ce - pe))")
      show ?thesis
        unfolding fma_sf_def Let_def op_mant_def [symmetric] case_prod_beta hl_def [symmetric]
          low_def [symmetric] p0_def [symmetric] top pe_def [symmetric] ce_def [symmetric] q1_def [symmetric]
          keep_def [symmetric] None option.case if_not_P [OF False] if_not_P [OF kf] fst_conv snd_conv s
        using n2 [OF add2 [OF k2 [OF kf] s]] n2 [OF sub2 [OF k2 [OF kf] s]]
        by (simp only: simp_thms split: if_split)
    qed
  qed
qed

end
