(* ===== verification/Softfp_Total.thy ===== *)
theory Softfp_Total
  imports Softfp_Lemmas
begin

text \<open>
  Division, square root and the conversions of the software floating point: the double-word division
  and the square root are exact, and no operation fails an assertion.
\<close>

section \<open>Division\<close>

lemma unat_shift_in:
  fixes a y :: u64
  assumes "unat y < 2"
  shows "unat (push_bit 1 a OR y) = (2 * unat a + unat y) mod 2 ^ 64"
proof -
  have "\<forall>i \<ge> 1. \<not> bit y i" using assms unat_less_bits [of y 1] by simp
  then have "push_bit 1 a AND y = 0"
    by (intro bit_word_eqI) (auto simp only: bit_and_iff bit_push_bit_iff bit_0_eq bot_apply bot_bool_def)
  then have "push_bit 1 a OR y = 2 * a + y"
    using word_plus_and_or [of "push_bit 1 a" y] by (simp add: push_bit_eq_mult)
  then show ?thesis by (simp add: unat_word_ariths mod_simps)
qed

lemma divrem_loop_spec:
  assumes "n \<le> 64" and "unat a1 < unat b" and "unat a0 = x * 2 ^ (64 - n) + q" and "q < 2 ^ (64 - n)"
    and "divrem_loop n a1 a0 b = (q', r)"
  shows "unat q' = q * 2 ^ n + (unat a1 * 2 ^ n + x) div unat b \<and> unat r = (unat a1 * 2 ^ n + x) mod unat b"
  using assms
proof (induction n arbitrary: a1 a0 x q)
  case 0
  have "x = 0"
  proof (rule ccontr)
    assume "x \<noteq> 0"
    then have "(2 :: nat) ^ 64 \<le> x * 2 ^ 64" by simp
    then show False using 0(3) unsigned_less [of a0, where ?'a = nat] by simp
  qed
  with 0 show ?case by simp
next
  case (Suc n)
  have n: "n < 64" "64 - n = Suc (63 - n)" "64 - Suc n = 63 - n" using Suc.prems(1) by simp_all
  define m where "m = x div 2 ^ n"
  define x' where "x' = x mod 2 ^ n"
  have x: "x = m * 2 ^ n + x'" by (simp add: m_def x'_def div_mult_mod_eq)
  have e: "(2 :: nat) ^ n * 2 ^ (63 - n) = 2 ^ 63" using n by (simp add: power_add [symmetric])
  have a0: "unat a0 = m * 2 ^ 63 + (x' * 2 ^ (63 - n) + q)"
    using Suc.prems(3) unfolding n(3) x add_mult_distrib mult.assoc e by simp
  have q: "q < 2 ^ (63 - n)" using Suc.prems(4) unfolding n(3) .
  have x'l: "x' < 2 ^ n" by (simp add: x'_def)
  have lo: "x' * 2 ^ (63 - n) + q < 2 ^ 63"
  proof -
    have "x' * 2 ^ (63 - n) + q < (x' + 1) * 2 ^ (63 - n)" using q by simp
    also have "\<dots> \<le> 2 ^ n * 2 ^ (63 - n)" using x'l by (intro mult_le_mono1) simp
    finally show ?thesis unfolding e .
  qed
  have m: "unat (drop_bit 63 a0) = m"
    unfolding unat_drop_bit a0 using lo by (subst div_mult_self3) auto
  have m2: "m < 2"
    using a0 unsigned_less [of a0, where ?'a = nat] by simp
  define t where "t = 2 * unat a1 + m"
  have ab: "drop_bit 63 a1 \<noteq> 0 \<longleftrightarrow> 2 ^ 64 \<le> t"
  proof -
    have "drop_bit 63 a1 = 0 \<longleftrightarrow> unat a1 div 2 ^ 63 = 0"
      using unat_drop_bit [of 63 a1] by (metis unat_eq_0)
    then show ?thesis using m2 by (auto simp: t_def div_eq_0_iff)
  qed
  have a1s: "unat (push_bit 1 a1 OR drop_bit 63 a0) = t mod 2 ^ 64"
    unfolding t_def m [symmetric] by (rule unat_shift_in) (simp add: m m2)
  have tb: "t < 2 * unat b" using Suc.prems(2) m2 by (simp add: t_def)
  have b64: "unat b < 2 ^ 64" using unsigned_less [of b, where ?'a = nat] by simp
  define c where "c = (if unat b \<le> t then 1 else 0 :: nat)"
  have cond: "(drop_bit 63 a1 \<noteq> 0 \<or> push_bit 1 a1 OR drop_bit 63 a0 \<ge> b) \<longleftrightarrow> unat b \<le> t"
    unfolding ab word_le_nat_alt a1s using b64 by (cases "t < 2 ^ 64") auto
  have sub: "unat ((push_bit 1 a1 OR drop_bit 63 a0) - b) = t - unat b" if "unat b \<le> t"
  proof (cases "t < 2 ^ 64")
    case True
    then show ?thesis using unat_diff [of b] a1s that by simp
  next
    case False
    define y where "y = push_bit 1 a1 OR drop_bit 63 a0"
    have y: "unat y = t - 2 ^ 64" using a1s False tb b64 unfolding y_def by (simp add: le_mod_geq)
    then have "\<not> unat b \<le> unat y" using tb b64 by simp
    then have "unat (y - b) = unat y + 2 ^ 64 - unat b" by (simp add: unat_sub_if')
    then show ?thesis using y False unfolding y_def by simp
  qed
  have dbl: "2 * unat a0 mod 2 ^ 64 = x' * 2 ^ (64 - n) + 2 * q"
  proof -
    have "2 * unat a0 = m * 2 ^ 64 + (x' * 2 ^ (64 - n) + 2 * q)"
      unfolding a0 n(2) by simp
    moreover have "x' * 2 ^ (64 - n) + 2 * q < 2 ^ 64" using lo unfolding n(2) by simp
    ultimately show ?thesis by (simp only: mod_mult_self3 mod_less)
  qed
  have q2: "2 * q + c < 2 ^ (64 - n)" using q unfolding n(2) c_def by simp
  have a0c: "unat (push_bit 1 a0 OR 1) = x' * 2 ^ (64 - n) + (2 * q + 1)"
  proof -
    have lt: "x' * 2 ^ (64 - n) + 2 * q + 1 < 2 ^ 64" using lo unfolding n(2) by simp
    have "unat (push_bit 1 a0 OR 1) = (2 * unat a0 mod 2 ^ 64 + 1) mod 2 ^ 64"
      using unat_shift_in [of 1 a0] by (simp add: mod_simps)
    then show ?thesis unfolding dbl using lt by simp
  qed
  have a0z: "unat (push_bit 1 a0) = x' * 2 ^ (64 - n) + 2 * q"
    using unat_shift_in [of 0 a0] dbl by simp
  have D: "unat a1 * 2 ^ Suc n + x = t * 2 ^ n + x'"
    by (simp add: t_def x algebra_simps)
  show ?case
  proof (cases "unat b \<le> t")
    case True
    then have c1: "c = 1" by (simp add: c_def)
    from Suc.prems(5) True have lp: "divrem_loop n ((push_bit 1 a1 OR drop_bit 63 a0) - b) (push_bit 1 a0 OR 1) b = (q', r)"
      by (simp only: divrem_loop.simps Let_def cond if_True simp_thms)
    have "unat q' = (2 * q + 1) * 2 ^ n + ((t - unat b) * 2 ^ n + x') div unat b \<and>
        unat r = ((t - unat b) * 2 ^ n + x') mod unat b"
      using Suc.IH [OF _ _ a0c _ lp] q2 tb n(1) True unfolding sub [OF True] c1 by simp
    moreover obtain d where d: "t = unat b + d" using True le_Suc_ex by blast
    ultimately have "unat q' = (2 * q + 1) * 2 ^ n + (d * 2 ^ n + x') div unat b" "unat r = (d * 2 ^ n + x') mod unat b"
      by simp_all
    moreover have Dd: "t * 2 ^ n + x' = 2 ^ n * unat b + (d * 2 ^ n + x')"
      using d by (simp add: algebra_simps)
    moreover have "(t * 2 ^ n + x') div unat b = 2 ^ n + (d * 2 ^ n + x') div unat b"
      "(t * 2 ^ n + x') mod unat b = (d * 2 ^ n + x') mod unat b"
      unfolding Dd using tb by (simp_all only: div_mult_self3 mod_mult_self3)
    ultimately show ?thesis
      unfolding D by (simp add: algebra_simps)
  next
    case False
    then have c0: "c = 0" by (simp add: c_def)
    from Suc.prems(5) False have lp: "divrem_loop n (push_bit 1 a1 OR drop_bit 63 a0) (push_bit 1 a0) b = (q', r)"
      by (simp only: divrem_loop.simps Let_def cond if_False simp_thms)
    have "t mod 2 ^ 64 = t" using False b64 by simp
    then have "unat q' = (2 * q) * 2 ^ n + (t * 2 ^ n + x') div unat b \<and> unat r = (t * 2 ^ n + x') mod unat b"
      using Suc.IH [OF _ _ a0z _ lp] q2 n(1) False unfolding a1s c0 by simp
    then show ?thesis unfolding D by (simp add: algebra_simps)
  qed
qed

lemma unat_word_back: "word_of_nat (unat w) = w" for w :: "'a::len word"
  by (rule word_unat_eq_iff [THEN iffD2]) (simp add: unsigned_of_nat take_bit_nat_eq_self)

lemma divrem_u64_exact:
  "divrem_u64 a1 a0 b = (if a1 < b
     then Some (word_of_nat ((unat a1 * 2 ^ 64 + unat a0) div unat b), word_of_nat ((unat a1 * 2 ^ 64 + unat a0) mod unat b))
     else None)"
proof (cases "a1 < b")
  case True
  obtain q r where l: "divrem_loop 64 a1 a0 b = (q, r)" by (cases "divrem_loop 64 a1 a0 b")
  have "unat q = (unat a1 * 2 ^ 64 + unat a0) div unat b" "unat r = (unat a1 * 2 ^ 64 + unat a0) mod unat b"
    using divrem_loop_spec [OF _ _ _ _ l, of "unat a0" 0] True by (simp_all add: word_less_nat_alt)
  then show ?thesis using True l unfolding divrem_u64_def by (metis unat_word_back)
next
  case False
  then show ?thesis by (simp add: divrem_u64_def)
qed

text \<open>In both versions: the quotient and the remainder, when the quotient fits.\<close>

lemma divrem_u_exact:
  fixes ah al b :: "'a::len word"
  assumes f: "fmt_ok TYPE('a)" and lt: "ah < b"
  obtains q r where "divrem_u ah al b = Some (q, r)"
    "unat q = (unat ah * 2 ^ LENGTH('a) + unat al) div unat b"
    "unat r = (unat ah * 2 ^ LENGTH('a) + unat al) mod unat b"
proof (cases "LENGTH('a) = 32")
  case True
  have e: "unat (ucast (x :: 'a word) :: u32) = unat x" "unat (ucast (y :: u32) :: 'a word) = unat y" for x y
    using True by (simp_all only: unat_ucast_same word_lengths)
  define A :: u64 where "A = push_bit 32 (ucast (ucast ah :: u32)) OR ucast (ucast al :: u32)"
  have up: "unat (ucast y :: u64) = unat y" for y :: u32
    using unsigned_less [of y, where ?'a = nat] by (simp add: unsigned_ucast_eq take_bit_nat_eq_self)
  have A: "unat A = unat ah * 2 ^ 32 + unat al"
    unfolding A_def using unat_or_halves [of "ucast (ucast al :: u32)" "ucast (ucast ah :: u32)"]
      unsigned_less [of ah, where ?'a = nat] unsigned_less [of al, where ?'a = nat] True
    unfolding up e by simp
  have b: "0 < unat b" using lt by (simp add: word_less_nat_alt)
  then have bnz: "(ucast b :: u32) \<noteq> 0" using e(1) [of b] by (metis unat_0 less_irrefl)
  have q: "unat A div unat b < 2 ^ 32"
  proof -
    have "unat A < (unat ah + 1) * 2 ^ 32"
      unfolding A using unsigned_less [of al, where ?'a = nat] True by simp
    also have "\<dots> \<le> unat b * 2 ^ 32" using lt by (intro mult_le_mono1) (simp add: word_less_nat_alt)
    finally show ?thesis using b by (simp add: div_less_iff_less_mult mult.commute)
  qed
  have r: "unat A mod unat b < 2 ^ 32"
    using mod_less_divisor [OF b, of "unat A"] unsigned_less [of b, where ?'a = nat] True by simp
  have low: "unat (ucast y :: u32) = unat y" if "unat y < 2 ^ 32" for y :: u64
    using that by (simp add: unsigned_ucast_eq take_bit_nat_eq_self)
  have d: "divrem_u ah al b = Some (ucast (ucast (A div ucast (ucast b :: u32)) :: u32), ucast (ucast (A mod ucast (ucast b :: u32)) :: u32))"
    using True bnz unfolding divrem_u_def divrem_u32_def Let_def A_def [symmetric] by simp
  have v: "unat (A div ucast (ucast b :: u32)) = unat A div unat b" "unat (A mod ucast (ucast b :: u32)) = unat A mod unat b"
    by (simp_all only: unat_div_distrib unat_mod_distrib up e)
  show ?thesis
    by (rule that [OF d]) (unfold e, (subst low, simp only: v q r, simp only: v A True)+)
next
  case False
  then have 64: "LENGTH('a) = 64" using f by (simp add: fmt_ok_def)
  then have e: "unat (ucast (x :: 'a word) :: u64) = unat x" "unat (ucast (y :: u64) :: 'a word) = unat y" for x y
    by (simp_all only: unat_ucast_same word_lengths)
  obtain q r where l: "divrem_loop 64 (ucast ah) (ucast al) (ucast b) = (q, r)" 
    by (cases "divrem_loop 64 (ucast ah) (ucast al) (ucast b)")
  have lt': "unat ah < unat b" using lt by (simp add: word_less_nat_alt)
  have s: "unat q = (unat ah * 2 ^ 64 + unat al) div unat b \<and> unat r = (unat ah * 2 ^ 64 + unat al) mod unat b"
    using divrem_loop_spec [OF _ _ _ _ l, of "unat al" 0] lt' by (simp add: e)
  have "divrem_u ah al b = Some (ucast q, ucast r)"
    using False lt' l unfolding divrem_u_def divrem_u64_def word_less_nat_alt e by simp
  then show ?thesis by (rule that) (use s in \<open>simp_all add: e 64\<close>)
qed

lemma div_sf_total:
  fixes a b :: "'a::len word"
  assumes f: "fmt_ok TYPE('a)"
  shows "div_sf a b rm fl \<noteq> None"
proof (cases "div_special a b fl")
  case (Some r)
  then show ?thesis by (simp add: div_sf_def)
next
  case None
  then have a: "\<not> (sf_exp a = 0 \<and> sf_mant a = 0)" and b: "\<not> (sf_exp b = 0 \<and> sf_mant b = 0)"
    by (auto simp: div_special_def Let_def split: if_splits)
  let ?F = "LENGTH('a)" and ?M = "mant_size LENGTH('a)"
  define A where "A = snd (op_mant a)"
  define B where "B = push_bit 2 (snd (op_mant b))"
  note sz = fmt_sizes(1-5) [OF f]
  note oa = op_mant_bounds [OF f a, folded A_def] and ob = op_mant_bounds [OF f b]
  have B: "unat B = unat (snd (op_mant b)) * 2 ^ 2"
    unfolding B_def by (rule unat_push_bit(1) [OF ob(1)]) (use sz in linarith)
  have lt: "A < B"
    unfolding word_less_nat_alt B using oa(1) ob(2) by simp
  obtain q r where qr: "divrem_u A 0 B = Some (q, r)" and q: "unat q = (unat A * 2 ^ ?F + unat (0 :: 'a word)) div unat B"
    using divrem_u_exact [OF f lt] by blast
  have "unat q < 2 ^ (?F - 1)"
  proof -
    have "unat A * 2 ^ ?F < 2 ^ (?M + 1) * 2 ^ ?F" using oa(1) by simp
    also have "\<dots> = 2 ^ ?M * 2 ^ 2 * 2 ^ (?F - 1)"
      using sz by (cases ?F) (simp_all add: power_add)
    also have "\<dots> \<le> unat B * 2 ^ (?F - 1)" unfolding B using ob(2) by simp
    finally show ?thesis unfolding q by (simp add: div_less_iff_less_mult mult.commute word_less_nat_alt
          less_mult_imp_div_less)
  qed
  then have u: "unat (if r \<noteq> 0 then q OR 1 else q) < 2 ^ (?F - 1)"
    using unat_or_1 [of q "?F - 1" True] sz by simp
  show ?thesis
    unfolding div_sf_def None option.case Let_def op_mant_def [symmetric] case_prod_beta
      A_def [symmetric] B_def [symmetric] qr
    using normalize_total [OF f u]
    by (simp only: not_None_eq bind.bind_lunit prod.case fst_conv snd_conv)
qed

section \<open>Square root\<close>

text \<open>A step of Newton's iteration from above never goes below the root, and stops at it.\<close>

lemma newton_step:
  fixes a u :: nat
  assumes "0 < u"
  shows "a < ((a div u + u) div 2 + 1) * ((a div u + u) div 2 + 1)"
proof -
  define q where "q = a div u"
  define v where "v = (q + u) div 2"
  have aq: "a < (q + 1) * u" unfolding q_def using assms by (simp add: dividend_less_div_times)
  have v: "q + 1 + u \<le> 2 * (v + 1)" unfolding v_def by presburger
  have "4 * ((q + 1) * u) \<le> (q + 1 + u) * (q + 1 + u)"
  proof -
    have "0 \<le> (int (q + 1) - int u) * (int (q + 1) - int u)" by simp
    then have "4 * (int (q + 1) * int u) \<le> (int (q + 1) + int u) * (int (q + 1) + int u)"
      by (simp add: algebra_simps)
    then show ?thesis unfolding of_nat_mult [symmetric] of_nat_add [symmetric]
      by (metis of_nat_le_iff of_nat_mult of_nat_numeral)
  qed
  also have "\<dots> \<le> (2 * (v + 1)) * (2 * (v + 1))" using v by (intro mult_le_mono) auto
  also have "\<dots> = 4 * ((v + 1) * (v + 1))" by simp
  finally show ?thesis using aq unfolding q_def [symmetric] v_def [symmetric] by linarith
qed

lemma newton_stop:
  fixes a u :: nat
  assumes "u \<le> (a div u + u) div 2"
  shows "u * u \<le> a"
proof -
  have "u \<le> a div u" using assms by linarith
  then have "u * u \<le> a div u * u" by (rule mult_le_mono1)
  also have "\<dots> \<le> a" by (rule div_times_less_eq_dividend)
  finally show ?thesis .
qed

lemma newton_quotient:
  fixes a u :: nat
  assumes "0 < u" and "a < (u + 1) * (u + 1)"
  shows "a div u \<le> u + 2"
proof -
  have "a < (u + 3) * u"
  proof (cases "u = 1")
    case True
    with assms show ?thesis by simp
  next
    case False
    then have "2 \<le> u" using assms(1) by linarith
    with assms(2) show ?thesis by (simp add: algebra_simps)
  qed
  then have "a div u < u + 3" using assms(1) by (simp add: div_less_iff_less_mult)
  then show ?thesis by simp
qed

lemma sqrt_loop32_spec:
  assumes "0 < unat a" and "unat u \<le> 2 ^ 33" and "unat a < (unat u + 1) * (unat u + 1)"
  shows "\<exists>s. sqrt_loop32 a u = Some s \<and> unat s * unat s \<le> unat a \<and> unat a < (unat s + 1) * (unat s + 1)"
  using assms
proof (induction a u rule: sqrt_loop32.induct)
  case (1 a u)
  have u0: "0 < unat u" using 1(2,4) by (cases "unat u = 0") auto
  then have unz: "u \<noteq> 0" by (metis unat_0 less_irrefl)
  define v where "v = (unat a div unat u + unat u) div 2"
  have "unat a div unat u \<le> unat u + 2" using newton_quotient [OF u0 1(4)] .
  then have "unat (a div u) + unat u < 2 ^ 64" using 1(3) by (simp add: unat_div_distrib)
  then have v: "unat ((a div u + u) div 2) = v"
    unfolding v_def using unat_add_lt by (simp add: unat_div_distrib)
  show ?case
  proof (cases "(a div u + u) div 2 \<ge> u")
    case True
    then have "unat u \<le> v" by (simp only: word_le_nat_alt v)
    then have "unat u * unat u \<le> unat a" unfolding v_def by (rule newton_stop)
    then show ?thesis using True unz 1(4) by (simp add: sqrt_loop32.simps Let_def)
  next
    case False
    then have "v < unat u" by (simp add: word_le_nat_alt v)
    moreover have "unat a < (v + 1) * (v + 1)" unfolding v_def by (rule newton_step [OF u0])
    ultimately show ?thesis
      using 1(1) [OF unz refl] 1(2,3) False unz v by (simp add: sqrt_loop32.simps [of a u] Let_def)
  qed
qed

text \<open>In the half-word version the sum must not wrap: the operand is below \<open>2 ^ 126 - 2 ^ 67\<close>.\<close>

lemma newton_no_wrap:
  fixes a u :: nat
  assumes "0 < u" and "u \<le> 2 ^ 63" and "a < (u + 1) * (u + 1)" and "a + 2 ^ 64 \<le> 2 ^ 126"
  shows "a div u + u < 2 ^ 64"
proof (cases "u < 2 ^ 63 - 1")
  case True
  with newton_quotient [OF assms(1,3)] show ?thesis by simp
next
  case False
  have "a < 2 ^ 63 * (2 ^ 63 - 1)" using assms(4) by simp
  also have "\<dots> \<le> 2 ^ 63 * u" using False by (intro mult_le_mono2) simp
  finally have "a div u < 2 ^ 63" using assms(1) by (simp add: div_less_iff_less_mult)
  with assms(2) show ?thesis by simp
qed

lemma sqrt_loop64_spec:
  defines "val \<equiv> \<lambda>a1 a0 :: u64. unat a1 * 2 ^ 64 + unat a0"
  assumes "0 < val a1 a0" and "unat u \<le> 2 ^ 63" and "val a1 a0 < (unat u + 1) * (unat u + 1)"
    and "val a1 a0 + 2 ^ 64 \<le> 2 ^ 126"
  shows "\<exists>s. sqrt_loop64 a1 a0 u = Some s \<and> unat s * unat s \<le> val a1 a0 \<and> val a1 a0 < (unat s + 1) * (unat s + 1)"
  using assms(2-)
proof (induction a1 a0 u rule: sqrt_loop64.induct)
  case (1 a1 a0 u)
  define A where "A = val a1 a0"
  note pr = 1(2-5) [folded A_def]
  have u0: "0 < unat u" using pr(1,3) by (cases "unat u = 0") auto
  define v where "v = (A div unat u + unat u) div 2"
  have nw: "A div unat u + unat u < 2 ^ 64" using newton_no_wrap [OF u0 pr(2-4)] .
  have lt: "a1 < u"
  proof -
    have "unat a1 * 2 ^ 64 \<le> A" by (simp add: A_def val_def)
    then have "unat a1 * 2 ^ 64 div unat u \<le> A div unat u" by (rule div_le_mono)
    with nw have "unat a1 * 2 ^ 64 div unat u < 2 ^ 64" by linarith
    then have "unat a1 * 2 ^ 64 < 2 ^ 64 * unat u" using u0 by (simp only: div_less_iff_less_mult)
    then show ?thesis by (simp add: word_less_nat_alt)
  qed
  define q where "q = (word_of_nat (A div unat u) :: u64)"
  have q: "unat q = A div unat u" unfolding q_def using nw by (simp add: unsigned_of_nat take_bit_nat_eq_self)
  obtain r where d: "divrem_u64 a1 a0 u = Some (q, r)"
    using lt by (simp add: divrem_u64_exact q_def A_def val_def)
  have v: "unat ((q + u) div 2) = v"
    unfolding v_def using unat_add_lt [of q u] nw q by (simp add: unat_div_distrib)
  show ?case
  proof (cases "(q + u) div 2 \<ge> u")
    case True
    then have "unat u \<le> v" by (simp only: word_le_nat_alt v)
    then have "unat u * unat u \<le> A" unfolding v_def by (rule newton_stop)
    then show ?thesis using True d pr(3) by (simp add: sqrt_loop64.simps Let_def A_def)
  next
    case False
    then have "v < unat u" by (simp add: word_le_nat_alt v)
    moreover have "A < (v + 1) * (v + 1)" unfolding v_def by (rule newton_step [OF u0])
    ultimately show ?thesis
      using 1(1) [OF d refl refl] pr(1,2,4) False d v 
      by (simp add: sqrt_loop64.simps [of a1 a0 u] Let_def A_def)
  qed
qed

lemma clz_same: "LENGTH('a) = LENGTH('b) \<Longrightarrow> clz (ucast x :: 'b::len word) = clz x" for x :: "'a::len word"
proof -
  assume l: "LENGTH('a) = LENGTH('b)"
  have "map (bit (ucast x :: 'b word)) (rev [0..<LENGTH('b)]) = map (bit x) (rev [0..<LENGTH('a)])"
    unfolding l by (auto simp: bit_ucast_iff)
  then show ?thesis by (simp only: clz_def)
qed

lemma ucast_pred:
  fixes x :: "'a::len word"
  assumes l: "LENGTH('a) = LENGTH('b)" and nz: "x \<noteq> 0"
  shows "(ucast x :: 'b::len word) \<noteq> 0" and "(ucast x :: 'b word) - 1 = ucast (x - 1)"
proof -
  note u = unat_ucast_same [OF l]
  have 1: "1 \<le> unat x" using nz unat_gt_0 [of x] by linarith
  show "(ucast x :: 'b word) \<noteq> 0" using 1 u [of x] by (metis unat_0 not_one_le_zero)
  have "unat ((ucast x :: 'b word) - 1) = unat (x - 1)"
    using 1 unat_diff [of 1 x] unat_diff [of 1 "ucast x :: 'b word"] u [of x] by simp
  then show "(ucast x :: 'b word) - 1 = ucast (x - 1)"
    by (simp only: word_unat_eq_iff u)
qed

text \<open>
  The initial estimate \<open>2 ^ ((l + 1) div 2)\<close> is above the root when the low word of the operand is
  zero, which is how \<open>sqrt_sf\<close> calls it.
\<close>

lemma sqrt_estimate:
  fixes ah :: "'a::len word"
  assumes f: "fmt_ok TYPE('a)" and nz: "ah \<noteq> 0" and b: "unat ah \<le> 2 ^ (LENGTH('a) - 2)"
  defines "k \<equiv> (2 * LENGTH('a) - clz (ah - 1) + 1) div 2"
  shows "k \<le> LENGTH('a) - 1" and "unat ah * 2 ^ LENGTH('a) < (2 ^ k + 1) * (2 ^ k + 1)"
proof -
  let ?F = "LENGTH('a)"
  have F: "8 \<le> ?F" using fmt_sizes(3) [OF f] .
  have pos: "0 < unat ah" using nz by (simp add: unat_gt_0)
  then have m1: "unat (ah - 1) = unat ah - 1" using unat_diff [of 1 ah] by simp
  then have "unat (ah - 1) < 2 ^ (?F - 2)" using b pos by linarith
  then have c2: "2 \<le> clz (ah - 1)" using clz_ge [of "ah - 1" "?F - 2"] F by simp
  then show "k \<le> ?F - 1" unfolding k_def by linarith
  have "unat ah - 1 < 2 ^ (?F - clz (ah - 1))" using clz_upper [of "ah - 1"] unfolding m1 .
  then have "unat ah \<le> 2 ^ (?F - clz (ah - 1))" by linarith
  then have "unat ah * 2 ^ ?F \<le> 2 ^ (?F - clz (ah - 1)) * 2 ^ ?F" by (rule mult_le_mono1)
  also have "\<dots> = 2 ^ (2 * ?F - clz (ah - 1))"
    using clz_bits(1) [of "ah - 1"] by (simp add: power_add [symmetric])
  also have "\<dots> \<le> 2 ^ (k + k)"
    by (rule power_increasing) (unfold k_def, presburger, simp)
  also have "\<dots> = 2 ^ k * 2 ^ k" by (rule power_add)
  also have "\<dots> < (2 ^ k + 1) * (2 ^ k + 1)" by simp
  finally show "unat ah * 2 ^ ?F < (2 ^ k + 1) * (2 ^ k + 1)" .
qed

lemma sqrtrem_u_exact:
  fixes ah :: "'a::len word"
  assumes f: "fmt_ok TYPE('a)" and nz: "ah \<noteq> 0" and b: "unat ah < 2 ^ (LENGTH('a) - 2)"
  obtains s where "sqrtrem_u ah 0 = Some (s, unat s * unat s \<noteq> unat ah * 2 ^ LENGTH('a))"
    "unat s * unat s \<le> unat ah * 2 ^ LENGTH('a)" "unat ah * 2 ^ LENGTH('a) < (unat s + 1) * (unat s + 1)"
    "unat s < 2 ^ (LENGTH('a) - 1)"
proof -
  let ?F = "LENGTH('a)"
  define a where "a = unat ah * 2 ^ ?F"
  have F: "8 \<le> ?F" using fmt_sizes(3) [OF f] .
  note est = sqrt_estimate [OF f nz less_imp_le [OF b]]
  define k where "k = (2 * ?F - clz (ah - 1) + 1) div 2"
  have pos: "0 < a" using nz by (simp add: a_def unat_gt_0)
  have a1: "a + 2 ^ ?F \<le> 2 ^ (2 * ?F - 2)"
  proof -
    have "a + 2 ^ ?F = (unat ah + 1) * 2 ^ ?F" by (simp add: a_def)
    also have "\<dots> \<le> 2 ^ (?F - 2) * 2 ^ ?F" using b by (intro mult_le_mono1) simp
    also have "\<dots> = 2 ^ (2 * ?F - 2)" using F by (simp add: power_add [symmetric])
    finally show ?thesis .
  qed
  have bound: "s < 2 ^ (?F - 1)" if "s * s \<le> a" for s
  proof (rule ccontr)
    assume "\<not> ?thesis"
    then have "(2 :: nat) ^ (?F - 1) * 2 ^ (?F - 1) \<le> s * s" by (intro mult_le_mono) auto
    moreover have "(2 :: nat) ^ (?F - 1) * 2 ^ (?F - 1) = 2 ^ (2 * ?F - 2)"
      using F by (simp add: power_add [symmetric])
    moreover have "(0 :: nat) < 2 ^ ?F" by simp
    ultimately show False using that a1 by linarith
  qed
  have "\<exists>s. sqrtrem_u ah 0 = Some (s, unat s * unat s \<noteq> a) \<and> unat s * unat s \<le> a \<and> a < (unat s + 1) * (unat s + 1)"
  proof (cases "?F = 32")
    case True
    define A :: u64 where "A = push_bit 32 (ucast (ucast ah :: u32)) OR ucast (ucast (0 :: 'a word) :: u32)"
    have up: "unat (ucast y :: u64) = unat y" for y :: u32
      using unsigned_less [of y, where ?'a = nat] by (simp add: unsigned_ucast_eq take_bit_nat_eq_self)
    have e: "unat (ucast (x :: 'a word) :: u32) = unat x" "unat (ucast (y :: u32) :: 'a word) = unat y" for x y
      using True by (simp_all only: unat_ucast_same word_lengths)
    have A: "unat A = a"
      unfolding A_def a_def True using unat_or_halves [of "ucast (ucast (0 :: 'a word) :: u32)" "ucast (ucast ah :: u32)"]
        unsigned_less [of ah, where ?'a = nat] True unfolding up e by simp
    have l32: "LENGTH('a) = LENGTH(32)" using True by simp
    note p = ucast_pred [OF l32 nz]
    have u: "unat (push_bit k 1 :: u64) = 2 ^ k"
      using unat_push_bit(1) [of "1 :: u64" 1 k] est(1) True by (simp add: k_def)
    have k: "k \<le> 33" using est(1) True unfolding k_def by simp
    have "(2 :: nat) ^ k \<le> 2 ^ 33" using k by (intro power_increasing) auto
    then have "0 < unat A" "unat (push_bit k 1 :: u64) \<le> 2 ^ 33"
      "unat A < (unat (push_bit k 1 :: u64) + 1) * (unat (push_bit k 1 :: u64) + 1)"
      unfolding u A using pos est(2) [folded k_def a_def] by blast+
    from sqrt_loop32_spec [OF this] obtain s where s: "sqrt_loop32 A (push_bit k 1) = Some s"
      "unat s * unat s \<le> a" "a < (unat s + 1) * (unat s + 1)" unfolding A by blast
    have sl: "unat s < 2 ^ 31" using bound [OF s(2)] True by simp
    then have low: "unat (ucast s :: u32) = unat s" by (simp add: unsigned_ucast_eq take_bit_nat_eq_self)
    have "unat s * unat s < 2 ^ 64" using s(2) unsigned_less [of A, where ?'a = nat] A by simp
    then have sq: "unat (s * s) = unat s * unat s" by (rule unat_mult_lt)
    have inex: "(A - s * s \<noteq> 0) = (unat s * unat s \<noteq> a)"
    proof -
      have "A - s * s \<noteq> 0 \<longleftrightarrow> A \<noteq> s * s" by (simp only: right_minus_eq)
      also have "\<dots> \<longleftrightarrow> unat A \<noteq> unat (s * s)" by (simp only: word_unat_eq_iff)
      finally show ?thesis unfolding sq A by (simp only: eq_commute)
    qed
    have l: "2 * 32 - clz ((ucast ah :: u32) - 1) = 2 * ?F - clz (ah - 1)"
      unfolding p(2) clz_same [OF l32] True ..
    have "sqrtrem_u ah 0 = Some (ucast (ucast s :: u32), unat s * unat s \<noteq> a)"
      unfolding sqrtrem_u_def if_P [OF True] sqrtrem_u32_def Let_def A_def [symmetric] if_P [OF p(1)] l
        k_def [symmetric] s(1)
      using p(1) inex by simp
    then show ?thesis using s(2,3) by (auto simp: e low)
  next
    case False
    then have 64: "?F = 64" using f by (simp add: fmt_ok_def)
    have e: "unat (ucast (x :: 'a word) :: u64) = unat x" "unat (ucast (y :: u64) :: 'a word) = unat y" for x y
      using 64 by (simp_all only: unat_ucast_same word_lengths)
    have l64: "LENGTH('a) = LENGTH(64)" using 64 by simp
    note p = ucast_pred [OF l64 nz]
    define A1 :: u64 where "A1 = ucast ah"
    have A: "unat A1 * 2 ^ 64 + unat (0 :: u64) = a" by (simp add: A1_def e a_def 64)
    have u: "unat (push_bit k 1 :: u64) = 2 ^ k"
      using unat_push_bit(1) [of "1 :: u64" 1 k] est(1) 64 by (simp add: k_def)
    have k: "k \<le> 63" using est(1) 64 unfolding k_def by simp
    have "(2 :: nat) ^ k \<le> 2 ^ 63" using k by (intro power_increasing) auto
    then have "0 < unat A1 * 2 ^ 64 + unat (0 :: u64)" "unat (push_bit k 1 :: u64) \<le> 2 ^ 63"
      "unat A1 * 2 ^ 64 + unat (0 :: u64) < (unat (push_bit k 1 :: u64) + 1) * (unat (push_bit k 1 :: u64) + 1)"
      "unat A1 * 2 ^ 64 + unat (0 :: u64) + 2 ^ 64 \<le> 2 ^ 126"
      unfolding u A using pos est(2) [folded k_def a_def] a1 [unfolded 64] by simp_all
    from sqrt_loop64_spec [OF this] obtain s where s: "sqrt_loop64 A1 0 (push_bit k 1) = Some s"
      "unat s * unat s \<le> a" "a < (unat s + 1) * (unat s + 1)" unfolding A by blast
    obtain h m where hm: "mul_u64 s s = (h, m)" by (cases "mul_u64 s s")
    have ex: "unat h * 2 ^ 64 + unat m = unat s * unat s" using mul_u64_exact [of s s] hm by simp
    have inex: "(m \<noteq> 0 \<or> h \<noteq> A1) = (unat s * unat s \<noteq> a)"
    proof -
      have "unat m < 2 ^ 64" using unsigned_less [of m, where ?'a = nat] by simp
      then have "(unat h * 2 ^ 64 + unat m) div 2 ^ 64 = unat h" by (simp add: div_mult_self3)
      then have "unat h * 2 ^ 64 + unat m = unat A1 * 2 ^ 64 \<longleftrightarrow> unat m = 0 \<and> unat h = unat A1"
        by (metis add_cancel_left_right add.right_neutral nonzero_mult_div_cancel_right power_not_zero zero_neq_numeral)
      then show ?thesis
        unfolding ex [symmetric] A [symmetric] by (auto simp: word_unat_eq_iff)
    qed
    have l: "2 * 64 - clz ((ucast ah :: u64) - 1) = 2 * ?F - clz (ah - 1)"
      unfolding p(2) clz_same [OF l64] 64 ..
    have "sqrtrem_u ah 0 = Some (ucast s, unat s * unat s \<noteq> a)"
      unfolding sqrtrem_u_def if_not_P [OF False] sqrtrem_u64_def Let_def if_P [OF p(1)] l
        k_def [symmetric] ucast_0 s(1) [unfolded A1_def]
      using p(1) inex hm by (simp add: A1_def)
    then show ?thesis using s(2,3) by (auto simp: e)
  qed
  then show ?thesis using that bound unfolding a_def by blast
qed

lemma sqrt_sf_total:
  fixes a :: "'a::len word"
  assumes f: "fmt_ok TYPE('a)"
  shows "sqrt_sf a rm fl \<noteq> None"
proof (cases "sf_exp a = exp_mask LENGTH('a) \<or> sf_sign a \<or> (sf_exp a = 0 \<and> sf_mant a = 0)")
  case True
  then show ?thesis by (auto simp: sqrt_sf_def Let_def)
next
  case False
  let ?F = "LENGTH('a)" and ?M = "mant_size LENGTH('a)"
  note sz = fmt_sizes(1-5) [OF f]
  note o = op_mant_bounds [OF f, of a]
  define m1 where "m1 = (if odd (fst (op_mant a) - exp_mask ?F div 2) then push_bit 1 (snd (op_mant a)) else snd (op_mant a))"
  have m1: "unat m1 < 2 ^ (?M + 2)" "0 < unat m1"
  proof -
    have o': "unat (snd (op_mant a)) < 2 ^ (?M + 1)" "2 ^ ?M \<le> unat (snd (op_mant a))" using o False by blast+
    have "unat (push_bit 1 (snd (op_mant a))) = unat (snd (op_mant a)) * 2 ^ 1"
      by (rule unat_push_bit(1) [OF o'(1)]) (use sz in linarith)
    moreover have "(0 :: nat) < 2 ^ ?M" by simp
    ultimately show "unat m1 < 2 ^ (?M + 2)" "0 < unat m1"
      using o' unfolding m1_def by (auto simp del: zero_less_power)
  qed
  define ah where "ah = push_bit (?F - 4 - ?M) m1"
  have ah: "unat ah = unat m1 * 2 ^ (?F - 4 - ?M)" "unat ah < 2 ^ (?M + 2 + (?F - 4 - ?M))"
    unfolding ah_def using unat_push_bit [OF m1(1), of "?F - 4 - ?M"] sz by linarith+
  have "?M + 2 + (?F - 4 - ?M) = ?F - 2" using sz by linarith
  with ah(2) have b: "unat ah < 2 ^ (?F - 2)" by (simp only:)
  have nz: "ah \<noteq> 0" using ah(1) m1(2) by (metis unat_0 mult_is_0 power_not_zero zero_neq_numeral less_irrefl)
  from sqrtrem_u_exact [OF f nz b] obtain s i where s: "sqrtrem_u ah 0 = Some (s, i)" "unat s < 2 ^ (?F - 1)"
    by blast
  have u: "unat (if i then s OR 1 else s) < 2 ^ (?F - 1)"
    using unat_or_1 [OF s(2), of True] s(2) sz by simp
  have c: "\<not> sf_exp a = exp_mask ?F" "\<not> sf_sign a" "\<not> (sf_exp a = 0 \<and> sf_mant a = 0)" using False by blast+
  show ?thesis
    unfolding sqrt_sf_def Let_def op_mant_def [symmetric] case_prod_beta if_not_P [OF c(1)] if_not_P [OF c(2)]
      if_not_P [OF c(3)] m1_def [symmetric] ah_def [symmetric] s(1)
    using normalize_total [OF f u]
    by (simp only: not_None_eq bind.bind_lunit prod.case fst_conv snd_conv)
qed

section \<open>Conversions\<close>

lemma cvt_sf64_sf32_total: "cvt_sf64_sf32 a rm fl \<noteq> None"
proof -
  define m where "m = (if sf_exp a = 0 then sf_mant a else sf_mant a OR implicit_bit)"
  have m: "unat m < 2 ^ 53"
    using sf_mant_less [of a] or_implicit(1) [OF fmt_ok_64 sf_mant_less [of a]] by (simp add: m_def fmt_defs)
  have "unat (rshift_rnd m 22) < 2 ^ 31"
    using m unfolding unat_less_bits rshift_rnd_def
    by (auto simp: bit_or_iff bit_drop_bit_eq bit_1_iff)
  then have "unat (ucast (rshift_rnd m 22) :: u32) < 2 ^ (LENGTH(32) - 1)"
    unfolding unat_less_bits by (simp add: bit_ucast_iff)
  from normalize_total [OF fmt_ok_32 this] show ?thesis
    by (simp add: cvt_sf64_sf32_def unpack_sf_def Let_def m_def)
qed

lemma cvt_i_total:
  fixes a :: "'i::len word"
  assumes f: "fmt_ok TYPE('a::len)"
  shows "(internal_cvt_i_sf a rm fl u :: ('a word \<times> u32) option) \<noteq> None"
proof -
  let ?F = "LENGTH('a)"
  define r where "r = (if \<not> u \<and> sint a < 0 then - a else a)"
  define l where "l = int LENGTH('i) - int (clz r) - (int ?F - 1)"
  define r1 where "r1 = (if l > 0 then drop_bit (nat l) r OR (if r AND (r AND mask (nat l)) \<noteq> 0 then 1 else 0) else r)"
  have F: "8 \<le> ?F" using fmt_sizes(3) [OF f] .
  have "unat r1 < 2 ^ (?F - 1)"
  proof (cases "l > 0")
    case True
    have "unat (drop_bit (nat l) r) < 2 ^ (LENGTH('i) - clz r - nat l)"
      by (rule unat_drop_bit_less [OF clz_upper]) (use True F in \<open>simp add: l_def\<close>)
    moreover have "LENGTH('i) - clz r - nat l = ?F - 1" using True F by (simp add: l_def)
    ultimately have d: "unat (drop_bit (nat l) r) < 2 ^ (?F - 1)" by simp
    have "0 < ?F - 1" using F by simp
    from unat_or_1 [OF d this] show ?thesis using True by (simp only: r1_def if_True)
  next
    case False
    have "unat r < 2 ^ (LENGTH('i) - clz r)" by (rule clz_upper)
    also have "\<dots> \<le> (2 :: nat) ^ (?F - 1)" using False F by (intro power_increasing) (auto simp: l_def)
    finally show ?thesis using False by (simp add: r1_def)
  qed
  then have "unat (ucast r1 :: 'a word) < 2 ^ (?F - 1)"
    unfolding unat_less_bits by (simp add: bit_ucast_iff)
  from normalize_total [OF f this] show ?thesis
    unfolding internal_cvt_i_sf_def Let_def r_def [symmetric] l_def [symmetric] r1_def [symmetric] by simp
qed

section \<open>Properties\<close>

text \<open>
  C14. The double-word helpers of \<open>softfp_template.h\<close> are exact at both sizes: \<open>mul_u\<close> returns the full
  product and \<open>divrem_u\<close>, when the quotient fits in a word, the quotient and the remainder; at 64
  bits the product is built from 32-bit halves and the division runs bit by bit.
\<close>

theorem mul_div_exact:
  fixes a b :: "'a::len word"
  assumes "fmt_ok TYPE('a)" and "ah < b"
  shows "unat (fst (mul_u a b)) * 2 ^ LENGTH('a) + unat (snd (mul_u a b)) = unat a * unat b \<and>
    (\<exists>q r. divrem_u ah al b = Some (q, r) \<and>
      unat q = (unat ah * 2 ^ LENGTH('a) + unat al) div unat b \<and>
      unat r = (unat ah * 2 ^ LENGTH('a) + unat al) mod unat b)"
  using mul_u_exact [OF assms(1), of a b] divrem_u_exact [OF assms] by metis

theorem mul_div_exact_witness:
  "unat (fst (mul_u (3 :: u64) 7)) * 2 ^ LENGTH(64) + unat (snd (mul_u (3 :: u64) 7)) = unat (3 :: u64) * unat (7 :: u64) \<and>
   (\<exists>q r. divrem_u (2 :: u64) 5 7 = Some (q, r) \<and>
      unat q = (unat (2 :: u64) * 2 ^ LENGTH(64) + unat (5 :: u64)) div unat (7 :: u64) \<and>
      unat r = (unat (2 :: u64) * 2 ^ LENGTH(64) + unat (5 :: u64)) mod unat (7 :: u64))"
  by (rule mul_div_exact) simp_all

text \<open>
  C15. The square root of \<open>softfp_template.h\<close>: for an operand whose low word is zero, as \<open>sqrt_sf\<close> passes
  it, Newton's iteration ends and \<open>sqrtrem_u\<close> returns the integer square root of the double word, and
  says whether it is inexact.
\<close>

theorem sqrtrem_correct:
  fixes ah :: "'a::len word"
  assumes "fmt_ok TYPE('a)" and "unat ah < 2 ^ (LENGTH('a) - 2)"
  shows "\<exists>s. sqrtrem_u ah 0 = Some (s, unat s * unat s \<noteq> unat ah * 2 ^ LENGTH('a)) \<and>
    unat s * unat s \<le> unat ah * 2 ^ LENGTH('a) \<and> unat ah * 2 ^ LENGTH('a) < (unat s + 1) * (unat s + 1)"
proof (cases "ah = 0")
  case True
  then show ?thesis by (auto simp: sqrtrem_u_def sqrtrem_u32_def sqrtrem_u64_def)
next
  case False
  from sqrtrem_u_exact [OF assms(1) this assms(2)] show ?thesis by metis
qed

theorem sqrtrem_correct_witness:
  "\<exists>s. sqrtrem_u (2 :: u64) 0 = Some (s, unat s * unat s \<noteq> unat (2 :: u64) * 2 ^ LENGTH(64)) \<and>
    unat s * unat s \<le> unat (2 :: u64) * 2 ^ LENGTH(64) \<and> unat (2 :: u64) * 2 ^ LENGTH(64) < (unat s + 1) * (unat s + 1)"
  by (rule sqrtrem_correct) simp_all



text \<open>
  The comment of \<open>sqrtrem_u\<close> claims \<open>2^l \<ge> a\<close> for the estimate, but \<open>l\<close> ignores the low word: for
  \<open>a = 2 ^ 33 - 1\<close> the iteration starts below the root and stops at once, at 65536 instead of 92681.
\<close>

theorem sqrtrem_low_word_ignored:
  "sqrtrem_u32 1 0xFFFFFFFF = Some (65536, True) \<and>
   92681 * 92681 \<le> unat (1 :: u32) * 2 ^ 32 + unat (0xFFFFFFFF :: u32)"
proof -
  have c: "clz (0 :: u32) = 32" using clz_ge [of "0 :: u32" 0] clz_bits(1) [of "0 :: u32"] by simp
  have l: "sqrt_loop32 8589934591 65536 = Some 65536" by (simp add: sqrt_loop32.simps Let_def)
  have a: "push_bit 32 1 OR 0xFFFFFFFF = (8589934591 :: u64)" by (simp add: push_bit_eq_mult)
  show ?thesis using l by (simp add: sqrtrem_u32_def c a Let_def)
qed

end
