(* ===== verification/Riscv_Safety.thy ===== *)
theory Riscv_Safety
  imports Riscv_Interp Softfp_Total
begin

text \<open>
  The interpreter on a well-formed machine: every instruction and every round of the loop of
  \<open>riscv_cpu_interp_x32\<close> returns (no access outside a host buffer, no failed assertion), keeps the
  invariants of the memory system and of the privileged registers, and leaves \<open>x0\<close> at zero. The
  lemmas about the devices hold under the contract of \<open>device_bus\<close>.
\<close>

section \<open>Faults set the pending exception\<close>

definition exc_ok :: "'d cpu \<Rightarrow> bool" where
  "exc_ok s \<longleftrightarrow> 0 \<le> pending_exception s \<and> pending_exception s \<le> 15"

lemmas fault_causes = CAUSE_LOAD_PAGE_FAULT_def CAUSE_STORE_PAGE_FAULT_def CAUSE_FETCH_PAGE_FAULT_def
  CAUSE_FAULT_FETCH_def CAUSE_BREAKPOINT_def CAUSE_USER_ECALL_def CAUSE_ILLEGAL_INSTRUCTION_def

lemmas path_splits = res.split_asm option.split_asm if_split_asm

lemma map_res_ERR [simp]: "map_res f r = ERR \<longleftrightarrow> r = ERR"
  by (cases r) auto

lemma read_aligned_slow_ERR: "read_aligned_slow D n a s = Some (ERR, s') \<Longrightarrow> exc_ok s'"
  unfolding read_aligned_slow_def bind_Some_conv exc_ok_def fault_causes Let_def
  by (elim exE conjE) (auto simp: bind_Some_conv split: path_splits)

lemma read_fast_ERR:
  "read_fast slow n a s = Some (ERR, s') \<Longrightarrow> (\<And>s'. slow n a s = Some (ERR, s') \<Longrightarrow> exc_ok s') \<Longrightarrow> exc_ok s'"
  by (auto simp: read_fast_def bind_Some_conv Let_def split: if_split_asm)

lemma read_part_ERR: "read_part D n a s = Some (ERR, s') \<Longrightarrow> exc_ok s'"
  unfolding read_part_def using read_fast_ERR read_aligned_slow_ERR by metis

lemma read_two_ERR:
  assumes "read_two D n a b s = Some (ERR, s')"
  shows "exc_ok s'"
proof (cases "read_part D n a s")
  case None
  with assms show ?thesis by (simp add: read_two_def)
next
  case (Some p)
  then obtain r0 s1 where 1: "read_part D n a s = Some (r0, s1)" by (cases p) auto
  show ?thesis
  proof (cases r0)
    case ERR
    with 1 assms show ?thesis by (auto simp: read_two_def dest: read_part_ERR)
  next
    case (OK v0)
    with 1 assms obtain r1 s2 where 2: "read_part D n b s1 = Some (r1, s2)"
      "(case r1 of ERR \<Rightarrow> Some (ERR, s2) | OK v1 \<Rightarrow> Some (OK (v0, v1), s2)) = Some (ERR, s')"
      by (auto simp: read_two_def bind_Some_conv)
    then show ?thesis by (cases r1) (auto dest: read_part_ERR)
  qed
qed

lemma target_read_slow_ERR: "target_read_slow D n a s = Some (ERR, s') \<Longrightarrow> exc_ok s'"
  by (auto simp: target_read_slow_def bind_Some_conv Let_def split: if_split_asm
      dest: read_two_ERR read_aligned_slow_ERR)

lemma target_read_ERR: "target_read D n a s = Some (ERR, s') \<Longrightarrow> exc_ok s'"
  unfolding target_read_def using read_fast_ERR target_read_slow_ERR by metis

lemma write_aligned_slow_ERR: "write_aligned_slow D n a v s = Some (ERR, s') \<Longrightarrow> exc_ok s'"
  unfolding write_aligned_slow_def bind_Some_conv exc_ok_def fault_causes Let_def
  by (elim exE conjE) (auto simp: bind_Some_conv split: path_splits)

lemma write_fast_ERR:
  "write_fast slow n a v s = Some (ERR, s') \<Longrightarrow>
     (\<And>v s'. slow n a v s = Some (ERR, s') \<Longrightarrow> exc_ok s') \<Longrightarrow> exc_ok s'"
  by (auto simp: write_fast_def bind_Some_conv Let_def split: if_split_asm)

lemma write_part_ERR: "write_part D a v s = Some (ERR, s') \<Longrightarrow> exc_ok s'"
  unfolding write_part_def using write_fast_ERR write_aligned_slow_ERR by metis

lemma write_bytes_loop_ERR: "write_bytes_loop D n i a v s = Some (ERR, s') \<Longrightarrow> exc_ok s'"
proof (induction n arbitrary: i s)
  case 0
  then show ?case by simp
next
  case (Suc n)
  from Suc.prems obtain r s1 where 1: "write_part D (a + of_nat i) (drop_bit (8 * i) v AND 0xff) s = Some (r, s1)"
    "(case r of ERR \<Rightarrow> Some (ERR, s1) | OK _ \<Rightarrow> write_bytes_loop D n (Suc i) a v s1) = Some (ERR, s')"
    by (auto simp: bind_Some_conv simp del: of_nat_Suc)
  then show ?case using Suc.IH write_part_ERR by (cases r) fastforce+
qed

lemma target_write_ERR: "target_write D n a v s = Some (ERR, s') \<Longrightarrow> exc_ok s'"
proof -
  have "target_write_slow D n a v s = Some (ERR, s') \<Longrightarrow> exc_ok s'" for v s'
    by (auto simp: target_write_slow_def split: if_split_asm dest: write_bytes_loop_ERR write_aligned_slow_ERR)
  then show "target_write D n a v s = Some (ERR, s') \<Longrightarrow> exc_ok s'"
    unfolding target_write_def using write_fast_ERR by metis
qed

lemma target_read_insn_ptr_ERR: "target_read_insn_ptr a s = Some (ERR, s') \<Longrightarrow> exc_ok s'"
proof -
  have "target_read_insn_slow a s = Some (ERR, s') \<Longrightarrow> exc_ok s'"
    unfolding target_read_insn_slow_def bind_Some_conv exc_ok_def fault_causes Let_def
    by (elim exE conjE) (auto split: path_splits)
  then show "target_read_insn_ptr a s = Some (ERR, s') \<Longrightarrow> exc_ok s'"
    by (auto simp: target_read_insn_ptr_def Let_def split: if_split_asm)
qed

lemma target_read_insn_u16_ERR: "target_read_insn_u16 a s = Some (ERR, s') \<Longrightarrow> exc_ok s'"
  unfolding target_read_insn_u16_def bind_Some_conv
  by (elim exE conjE) (auto simp: bind_Some_conv split: path_splits dest: target_read_insn_ptr_ERR)

section \<open>Even addresses\<close>

lemma even_bit: "even x \<longleftrightarrow> \<not> bit x 0" for x :: u32
  by (simp add: bit_0)

lemma bits_in_even: "bits_in a (NOT 1) \<longleftrightarrow> even a"
proof -
  have "bit (NOT 1 :: u32) n \<longleftrightarrow> 0 < n \<and> n < 32" for n by (auto simp: bit_not_iff bit_1_iff)
  then show ?thesis
    unfolding bits_in_iff even_bit using bit_imp_le_length [of a] by (metis gr0I less_irrefl len_num1 word_lengths(1))
qed

lemma even_or: "even (x OR y) \<longleftrightarrow> even x \<and> even y" for x y :: u32
  unfolding even_bit bit_or_iff by simp

lemma even_sext: "n \<le> 32 \<Longrightarrow> 0 < n \<Longrightarrow> even (sext x n) \<longleftrightarrow> even x"
  unfolding even_bit sext_def by (auto simp: bit_simps simp del: bit_0)

lemma even_push: "0 < k \<Longrightarrow> even (push_bit k x)" for x :: u32
  unfolding even_bit bit_push_bit_iff by simp

lemma even_and: "even x \<or> even y \<Longrightarrow> even (x AND y)" for x y :: u32
  unfolding even_bit bit_and_iff by blast

lemma even_field: "0 < p \<Longrightarrow> even (get_field1 x a p q)"
  by (simp only: get_field1_def Let_def even_and even_push simp_thms split: if_split)

lemma even_imm: "even (imm_cj insn)" "even (imm_cb insn)" "even (imm_j insn)" "even (imm_b insn)"
  by (simp_all add: imm_cj_def imm_cb_def imm_j_def imm_b_def even_sext even_or even_field even_and)

lemma even_clear: "even (x AND NOT 1)" for x :: u32
  unfolding even_bit by (simp add: bit_simps del: bit_0)

section \<open>Flags\<close>

lemma flag_in [simp]: "bits_in FFLAG_INVALID_OP 31" "bits_in FFLAG_DIVIDE_ZERO 31" "bits_in FFLAG_OVERFLOW 31"
  "bits_in FFLAG_UNDERFLOW 31" "bits_in FFLAG_INEXACT 31"
  by (simp_all add: bits_in_def fp_consts)

lemma flags_if: "bits_in a m \<Longrightarrow> bits_in b m \<Longrightarrow> bits_in (if c then a else b) m"
  by simp

lemmas flags_intros = flags_if bits_in_or flag_in

lemma round_pack_flags: "bits_in fl 31 \<Longrightarrow> bits_in (snd (round_pack_sf a e m rm fl)) 31"
  unfolding round_pack_sf_def Let_def if_distrib [of snd] snd_conv
  by (intro flags_intros)

text \<open>A result of the software floating point whose flags are the accrued ones and new ones.\<close>

definition flags_ok :: "('a \<times> u32) option \<Rightarrow> bool" where
  "flags_ok r \<longleftrightarrow> (\<forall>v fl. r = Some (v, fl) \<longrightarrow> bits_in fl 31)"

lemma flags_okI [intro]: "bits_in fl 31 \<Longrightarrow> flags_ok (Some (v, fl))"
  by (simp add: flags_ok_def)

lemma flags_ok_None [simp]: "flags_ok None"
  by (simp add: flags_ok_def)

lemma flags_ok_if: "flags_ok a \<Longrightarrow> flags_ok b \<Longrightarrow> flags_ok (if c then a else b)"
  by simp

lemma flags_ok_bind: "(\<And>x. flags_ok (f x)) \<Longrightarrow> flags_ok (m \<bind> f)"
  by (cases m) simp_all

lemma flags_ok_case: "(\<And>x y. flags_ok (f x y)) \<Longrightarrow> flags_ok (case p of (x, y) \<Rightarrow> f x y)"
  by (cases p) simp

lemma flags_ok_some: "flags_ok a \<Longrightarrow> (\<And>r. a = Some r \<Longrightarrow> flags_ok (Some r)) \<Longrightarrow> flags_ok b \<Longrightarrow>
    flags_ok (case a of None \<Rightarrow> b | Some r \<Rightarrow> Some r)"
  by (cases a) simp_all

lemma flags_ok_pack: "bits_in fl 31 \<Longrightarrow> flags_ok (Some (round_pack_sf a e m rm fl))"
  using round_pack_flags [of fl a e m rm] by (auto simp: flags_ok_def)

lemmas flags_ok_intros = flags_ok_if flags_ok_bind flags_ok_case flags_okI flags_ok_None flags_intros

lemma normalize_flags: "bits_in fl 31 \<Longrightarrow> flags_ok (normalize_sf a e m rm fl)"
  unfolding normalize_sf_def Let_def by (intro flags_ok_intros flags_ok_pack)

lemma normalize2_flags: "bits_in fl 31 \<Longrightarrow> flags_ok (normalize2_sf a e m1 m0 rm fl)"
  unfolding normalize2_sf_def Let_def by (intro flags_ok_intros flags_ok_pack)

lemma add_flags: "bits_in fl 31 \<Longrightarrow> flags_ok (add_sf a b rm fl)"
  unfolding add_sf_def Let_def by (intro flags_ok_intros normalize_flags)

lemma mul_flags: "bits_in fl 31 \<Longrightarrow> flags_ok (mul_sf a b rm fl)"
  unfolding mul_sf_def Let_def by (intro flags_ok_intros normalize_flags)

lemma fma_flags: "bits_in fl 31 \<Longrightarrow> flags_ok (fma_sf a b c rm fl)"
proof -
  assume f: "bits_in fl 31"
  have "flags_ok (fma_special a b c rm fl)"
    unfolding fma_special_def Let_def using f by (intro flags_ok_intros)
  with f show ?thesis
    unfolding fma_sf_def Let_def
    by (cases "fma_special a b c rm fl")
      (simp only: option.case, intro flags_ok_intros normalize_flags normalize2_flags, assumption+, simp)
qed

lemma div_flags: "bits_in fl 31 \<Longrightarrow> flags_ok (div_sf a b rm fl)"
proof -
  assume f: "bits_in fl 31"
  have "flags_ok (div_special a b fl)"
    unfolding div_special_def Let_def using f by (intro flags_ok_intros)
  with f show ?thesis
    unfolding div_sf_def Let_def
    by (cases "div_special a b fl")
      (simp only: option.case, intro flags_ok_intros normalize_flags, assumption+, simp)
qed

lemma sqrt_flags: "bits_in fl 31 \<Longrightarrow> flags_ok (sqrt_sf a rm fl)"
  unfolding sqrt_sf_def Let_def by (intro flags_ok_intros normalize_flags)

lemma cvt_flags:
  assumes "bits_in fl 31"
  shows "flags_ok (cvt_sf64_sf32 x rm fl)" "bits_in (snd (cvt_sf32_sf64 y fl)) 31"
    "flags_ok (internal_cvt_i_sf i rm fl u)" "bits_in (snd (internal_cvt_sf_i a rm fl u)) 31"
proof -
  show "flags_ok (cvt_sf64_sf32 x rm fl)"
    unfolding cvt_sf64_sf32_def Let_def using assms by (intro flags_ok_intros normalize_flags)
  show "flags_ok (internal_cvt_i_sf i rm fl u)"
    unfolding internal_cvt_i_sf_def Let_def using assms by (intro flags_ok_intros normalize_flags)
  show "bits_in (snd (cvt_sf32_sf64 y fl)) 31"
    unfolding cvt_sf32_sf64_def Let_def case_prod_beta if_distrib [of snd] snd_conv
    using assms by (intro flags_intros)
  show "bits_in (snd (internal_cvt_sf_i a rm fl u)) 31"
    unfolding internal_cvt_sf_i_def Let_def if_distrib [of snd] snd_conv
    using assms by (intro flags_intros)
qed

lemma compare_flags:
  assumes "bits_in fl 31"
  shows "bits_in (snd (min_sf a b fl t)) 31" "bits_in (snd (max_sf a b fl t)) 31"
    "bits_in (snd (le_sf a b fl)) 31" "bits_in (snd (lt_sf a b fl)) 31" "bits_in (snd (eq_quiet_sf a b fl)) 31"
  unfolding min_sf_def max_sf_def min_max_nan_sf_def le_sf_def lt_sf_def eq_quiet_sf_def Let_def
    if_distrib [of snd] snd_conv
  using assms by (intro flags_intros; assumption)+

section \<open>Operations that leave the memory alone\<close>

definition tlb_part :: "(nat \<Rightarrow> tlb_entry) \<Rightarrow> (nat \<Rightarrow> tlb_entry) \<Rightarrow> bool" where
  "tlb_part f g \<longleftrightarrow> (\<forall>i < 256. g i = f i \<or> te_vaddr (g i) = - 1)"

definition quiet :: "'d cpu \<Rightarrow> 'd cpu \<Rightarrow> bool" where
  "quiet s s' \<longleftrightarrow> mem_map s' = mem_map s \<and> dev s' = dev s \<and> cur_xlen s' = cur_xlen s \<and>
     n_cycles s' = n_cycles s \<and> reg s' = reg s \<and> tlb_part (tlb_read s) (tlb_read s') \<and>
     tlb_part (tlb_write s) (tlb_write s') \<and> tlb_part (tlb_code s) (tlb_code s')"

lemma tlb_part_refl [simp]: "tlb_part f f"
  by (simp add: tlb_part_def)

lemma tlb_part_init [simp]:
  "tlb_part (tlb_read s) (tlb_read (tlb_flush_all s))" "tlb_part (tlb_write s) (tlb_write (tlb_flush_all s))"
  "tlb_part (tlb_code s) (tlb_code (tlb_flush_all s))"
  by (auto simp: tlb_part_def tlb_flush_all_def tlb_init_def TLB_SIZE_def)

lemma quiet_flush [simp]: "quiet s (tlb_flush_all s)"
  by (simp add: quiet_def)

lemma quiet_refl [simp]: "quiet s s"
  by (simp add: quiet_def)

lemma quiet_trans: "quiet a b \<Longrightarrow> quiet b c \<Longrightarrow> quiet a c"
  by (auto simp: quiet_def tlb_part_def) metis+

lemma quiet_set_mstatus [simp]: "quiet s (set_mstatus s v)"
  by (simp add: set_mstatus_def Let_def quiet_def)

lemma quiet_if: "quiet s a \<Longrightarrow> quiet s b \<Longrightarrow> quiet s (if c then a else b)"
  by simp

lemma quiet_csr_write: "quiet s (snd (csr_write s csr v))"
proof -
  have "quiet s (tlb_flush_all (s\<lparr>satp := x\<rparr>))" for x
    using tlb_part_init [of "s\<lparr>satp := x\<rparr>"] by (simp add: quiet_def)
  then show ?thesis
    unfolding csr_write_def if_distrib [of snd] snd_conv
    by (intro quiet_if quiet_set_mstatus quiet_refl) (simp_all add: quiet_def set_frm_def)
qed

lemma set_priv_tlb [simp]:
  "tlb_part (tlb_read s) (tlb_read (set_priv s p))" "tlb_part (tlb_write s) (tlb_write (set_priv s p))"
  "tlb_part (tlb_code s) (tlb_code (set_priv s p))"
  by (simp_all add: set_priv_def)

lemma quiet_raise_exception2: "quiet s (raise_exception2 s cause tval)"
proof -
  have "quiet s ((set_priv (s\<lparr>scause := a, sepc := b, stval := c, mstatus := d\<rparr>) p)\<lparr>pc := q\<rparr>)" for a b c d p q
    using set_priv_tlb [of "s\<lparr>scause := a, sepc := b, stval := c, mstatus := d\<rparr>" p] by (simp add: quiet_def)
  moreover have "quiet s ((set_priv (s\<lparr>mcause := a, mepc := b, mtval := c, mstatus := d\<rparr>) p)\<lparr>pc := q\<rparr>)" for a b c d p q
    using set_priv_tlb [of "s\<lparr>mcause := a, mepc := b, mtval := c, mstatus := d\<rparr>" p] by (simp add: quiet_def)
  ultimately show ?thesis by (simp add: raise_exception2_def Let_def)
qed

lemma quiet_ret: "quiet s (handle_sret s)" "quiet s (handle_mret s)"
proof -
  have "quiet s ((set_priv (s\<lparr>mstatus := d\<rparr>) p)\<lparr>pc := q\<rparr>)" for d p q
    using set_priv_tlb [of "s\<lparr>mstatus := d\<rparr>" p] by (simp add: quiet_def)
  then show "quiet s (handle_sret s)" "quiet s (handle_mret s)"
    by (simp_all add: handle_sret_def handle_mret_def Let_def)
qed

lemma quiet_raise_interrupt: "raise_interrupt s = Some s' \<Longrightarrow> quiet s s'"
  by (auto simp: raise_interrupt_def raise_exception_def quiet_raise_exception2 Let_def split: if_splits)

section \<open>Instructions\<close>

lemma even_and_not_1 [simp]: "even (x AND - 2)" for x :: u32
  using even_clear [of x] by simp

text \<open>No instruction counts cycles itself, or changes the layout of the memory.\<close>

definition keeps :: "'d cpu \<Rightarrow> 'd cpu \<Rightarrow> bool" where
  "keeps s s' \<longleftrightarrow> n_cycles s' = n_cycles s \<and> same_layout (mem_map s) (mem_map s')"

lemma keeps_refl [simp]: "keeps s s"
  by (simp add: keeps_def)

lemma keeps_trans: "keeps a b \<Longrightarrow> keeps b c \<Longrightarrow> keeps a c"
  by (auto simp: keeps_def intro: same_layout_trans)

lemma quiet_keeps: "quiet s s' \<Longrightarrow> keeps s s'"
  by (simp add: quiet_def keeps_def)

lemma keeps_fields [simp]:
  "keeps s (t\<lparr>reg := r\<rparr>) = keeps s t" "keeps s (t\<lparr>fp_reg := f\<rparr>) = keeps s t"
  "keeps s (t\<lparr>fs := x\<rparr>) = keeps s t" "keeps s (t\<lparr>fflags := x\<rparr>) = keeps s t"
  "keeps s (t\<lparr>pc := x\<rparr>) = keeps s t" "keeps s (t\<lparr>load_res := x\<rparr>) = keeps s t"
  "keeps s (t\<lparr>insn_counter := c\<rparr>) = keeps s t" "keeps s (t\<lparr>power_down_flag := b\<rparr>) = keeps s t"
  "keeps s (t\<lparr>pending_exception := e\<rparr>) = keeps s t" "keeps s (t\<lparr>pending_tval := x\<rparr>) = keeps s t"
  "keeps (s\<lparr>pc := x\<rparr>) t = keeps s t" "keeps (s\<lparr>insn_counter := c\<rparr>) t = keeps s t"
  "keeps s (set_reg t n x) = keeps s t" "keeps s (set_rd t n x) = keeps s t" "keeps s (set_fp t n v) = keeps s t"
  "keeps s (tlb_flush_all t) = keeps s t"
  by (simp_all add: keeps_def set_reg_def set_rd_def set_fp_def)

context device_bus
begin

definition mach :: "'d cpu \<Rightarrow> bool" where
  "mach s \<longleftrightarrow> good s \<and> csr_wf s \<and> reg s 0 = 0"

lemma good_quiet:
  assumes "good s" and "quiet s s'"
  shows "good s'"
proof -
  have "entry_ok (mem_map s) i e \<Longrightarrow> e' = e \<or> te_vaddr e' = - 1 \<Longrightarrow> entry_ok (mem_map s) i e'" for i e e'
    by (auto simp: entry_ok_def)
  with assms have "mem_wf s'"
    by (auto simp: good_def mem_wf_def tlb_wf_def quiet_def tlb_part_def)
  moreover have "inv s'" using assms by (auto simp: good_def quiet_def intro: inv_frame)
  ultimately show ?thesis by (simp add: good_def)
qed

lemma mach_quiet: "mach s \<Longrightarrow> quiet s s' \<Longrightarrow> csr_wf s' \<Longrightarrow> mach s'"
  by (auto simp: mach_def quiet_def intro: good_quiet)

lemma good_fields [simp]:
  "good (s\<lparr>reg := r\<rparr>) = good s" "good (s\<lparr>fp_reg := f\<rparr>) = good s" "good (s\<lparr>fs := x\<rparr>) = good s"
  "good (s\<lparr>fflags := x\<rparr>) = good s" "good (s\<lparr>pc := x\<rparr>) = good s" "good (s\<lparr>load_res := x\<rparr>) = good s"
  "good (s\<lparr>insn_counter := c\<rparr>) = good s" "good (s\<lparr>power_down_flag := b\<rparr>) = good s"
  "good (s\<lparr>pending_exception := e\<rparr>) = good s" "good (s\<lparr>pending_tval := x\<rparr>) = good s"
  "good (s\<lparr>n_cycles := e\<rparr>) = good s"
  by (auto simp: good_def mem_wf_def tlb_wf_def intro: inv_frame)

lemma csr_wf_fields [simp]:
  "csr_wf (s\<lparr>reg := r\<rparr>) = csr_wf s" "csr_wf (s\<lparr>fp_reg := f\<rparr>) = csr_wf s"
  "csr_wf (s\<lparr>load_res := x\<rparr>) = csr_wf s"
  "csr_wf (s\<lparr>insn_counter := c\<rparr>) = csr_wf s" "csr_wf (s\<lparr>power_down_flag := b\<rparr>) = csr_wf s"
  "csr_wf (s\<lparr>pending_exception := e\<rparr>) = csr_wf s" "csr_wf (s\<lparr>pending_tval := x\<rparr>) = csr_wf s"
  "csr_wf (s\<lparr>n_cycles := e\<rparr>) = csr_wf s"
  "csr_wf s \<Longrightarrow> csr_wf (s\<lparr>fs := 3\<rparr>)" "csr_wf s \<Longrightarrow> bits_in x 31 \<Longrightarrow> csr_wf (s\<lparr>fflags := x\<rparr>)"
  by (simp_all add: csr_wf_def)

lemma csr_wf_pc [simp]: "csr_wf s \<Longrightarrow> even p \<Longrightarrow> csr_wf (s\<lparr>pc := p\<rparr>)"
  using bits_in_even [of p] by (simp add: csr_wf_def)

lemma mach_fields [simp]:
  "mach (s\<lparr>fp_reg := f\<rparr>) = mach s" "mach (s\<lparr>load_res := x\<rparr>) = mach s"
  "mach (s\<lparr>insn_counter := c\<rparr>) = mach s" "mach (s\<lparr>power_down_flag := b\<rparr>) = mach s"
  "mach (s\<lparr>pending_exception := e\<rparr>) = mach s" "mach (s\<lparr>pending_tval := x\<rparr>) = mach s"
  "mach (s\<lparr>n_cycles := e\<rparr>) = mach s"
  "mach s \<Longrightarrow> mach (s\<lparr>fs := 3\<rparr>)" "mach s \<Longrightarrow> bits_in x 31 \<Longrightarrow> mach (s\<lparr>fflags := x\<rparr>)"
  "mach s \<Longrightarrow> even p \<Longrightarrow> mach (s\<lparr>pc := p\<rparr>)"
  "mach (set_fp s n v) = mach s" "mach s \<Longrightarrow> 0 < n \<Longrightarrow> mach (set_reg s n x)"
  "mach s \<Longrightarrow> mach (set_rd s n x)"
  by (simp_all add: mach_def set_fp_def set_reg_def set_rd_def)

definition out_ok :: "'d cpu \<Rightarrow> 'd outcome \<Rightarrow> bool" where
  "out_ok s r \<longleftrightarrow> (\<exists>fl s'. r = Some (fl, s') \<and> mach s' \<and> keeps s s' \<and>
     (fl = EXCEPTION_INSN \<longrightarrow> exc_ok s'))"

lemma out_okI [simp]:
  "out_ok s (Some (fl, s')) \<longleftrightarrow> mach s' \<and> keeps s s' \<and> (fl = EXCEPTION_INSN \<longrightarrow> exc_ok s')"
  by (auto simp: out_ok_def)

lemma acc_mach:
  assumes "mach s" and "step_ok s s'"
  shows "mach s'" and "keeps s s'"
proof -
  have l: "same_layout (mem_map s) (mem_map s')" using assms(2) by (simp add: step_ok_def acc_step_def)
  have c: "core s' = core s" and g: "good s'" using assms(2) by (simp_all add: step_ok_def acc_step_def)
  note eq = core_eqD [OF c]
  have "csr_wf s'" using assms(1) by (simp add: mach_def csr_wf_def eq)
  with g show "mach s'" using assms(1) by (simp add: mach_def eq)
  show "keeps s s'" using l by (simp add: keeps_def eq)
qed

lemma load_then_ok:
  assumes m: "mach s" and n: "n \<le> 3" and k: "\<And>v s1. mach s1 \<Longrightarrow> keeps s s1 \<Longrightarrow> out_ok s (k v s1)"
  shows "out_ok s (load_then D n a s k)"
proof -
  obtain r s1 where r: "target_read D n a s = Some (r, s1)" "step_ok s s1"
    using target_read_safe m n by (metis mach_def)
  note am = acc_mach [OF m r(2)]
  show ?thesis
  proof (cases r)
    case ERR
    with r am target_read_ERR show ?thesis by (auto simp: load_then_def)
  next
    case (OK v)
    with r k [OF am] show ?thesis by (simp add: load_then_def)
  qed
qed

lemma store_then_ok:
  assumes m: "mach s" and n: "n \<le> 3" and k: "\<And>s1. mach s1 \<Longrightarrow> keeps s s1 \<Longrightarrow> out_ok s (k s1)"
  shows "out_ok s (store_then D n a v s k)"
proof -
  obtain r s1 where r: "target_write D n a v s = Some (r, s1)" "step_ok s s1"
    using target_write_safe m n by (metis mach_def)
  note am = acc_mach [OF m r(2)]
  show ?thesis
  proof (cases r)
    case ERR
    with r am target_write_ERR show ?thesis by (auto simp: store_then_def)
  next
    case (OK v)
    with r k [OF am] show ?thesis by (simp add: store_then_def)
  qed
qed

lemma c_reg_pos [simp]: "0 < c_reg n insn"
proof -
  have "bit ((drop_bit n insn AND 7) OR 8) 3" by (simp add: bit_or_iff)
  then have "(drop_bit n insn AND 7) OR 8 \<noteq> 0" by (metis bit_0_eq bot_apply bot_bool_def)
  then show ?thesis unfolding c_reg_def by (simp only: unat_gt_0 not_False_eq_True)
qed

lemma out_ok_if: "(c \<Longrightarrow> out_ok s a) \<Longrightarrow> (\<not> c \<Longrightarrow> out_ok s b) \<Longrightarrow> out_ok s (if c then a else b)"
  by simp

lemma illegal_ok: "mach s \<Longrightarrow> out_ok s (Some (ILLEGAL_INSN, s))"
  by simp

lemmas out_intros = out_ok_if load_then_ok store_then_ok illegal_ok

lemma exec_c0_ok: "mach s \<Longrightarrow> out_ok s (exec_c0 D insn gpc s)"
  unfolding exec_c0_def Let_def by (intro out_intros) simp_all

lemma exec_c1_alu_ok: "mach s \<Longrightarrow> out_ok s (exec_c1_alu insn s)"
  unfolding exec_c1_alu_def Let_def by (intro out_intros) simp_all

lemma exec_c1_ok: "mach s \<Longrightarrow> even gpc \<Longrightarrow> out_ok s (exec_c1 insn gpc s)"
  unfolding exec_c1_def Let_def by (intro out_intros exec_c1_alu_ok) (simp_all add: even_imm)

lemma exec_c2_mem_ok: "mach s \<Longrightarrow> out_ok s (exec_c2_mem D insn s)"
  unfolding exec_c2_mem_def Let_def by (intro out_intros) simp_all

lemma exec_c2_ok: "mach s \<Longrightarrow> even gpc \<Longrightarrow> out_ok s (exec_c2 D insn gpc s)"
  unfolding exec_c2_def Let_def
  by (intro out_intros exec_c2_mem_ok)
    (simp_all add: exc_ok_def CAUSE_BREAKPOINT_def)

lemma exec_alu_ok:
  assumes "mach s"
  shows "out_ok s (exec_lui insn s)" "out_ok s (exec_auipc insn gpc s)" "out_ok s (exec_op_imm insn s)"
    "out_ok s (exec_op insn s)" "out_ok s (exec_fence insn s)"
  using assms by (simp_all add: exec_lui_def exec_auipc_def exec_op_imm_def exec_op_def exec_fence_def Let_def
      split: res.split)

lemma exec_jump_ok:
  assumes "mach s" and "even gpc"
  shows "out_ok s (exec_jal insn gpc s)" "out_ok s (exec_jalr insn gpc s)" "out_ok s (exec_branch insn gpc s)"
  using assms
  by (simp_all add: exec_jal_def exec_jalr_def exec_branch_def even_imm split: option.split)

lemma exec_load_ok: "mach s \<Longrightarrow> out_ok s (exec_load D insn s)"
  unfolding exec_load_def Let_def by (intro out_intros) simp_all

lemma exec_store_ok: "mach s \<Longrightarrow> out_ok s (exec_store D insn s)"
  unfolding exec_store_def Let_def by (intro out_intros) simp_all

lemma exec_fp_mem_ok:
  assumes "mach s"
  shows "out_ok s (exec_fp_load D insn s)" "out_ok s (exec_fp_store D insn s)"
  unfolding exec_fp_load_def exec_fp_store_def Let_def using assms by (intro out_intros; simp)+

lemma out_ok_amo:
  "mach s \<Longrightarrow> (\<And>v. out_ok s (f v)) \<Longrightarrow> keeps s s' \<Longrightarrow> mach s' \<Longrightarrow>
     out_ok s (case r of None \<Rightarrow> Some (ILLEGAL_INSN, s') | Some v \<Rightarrow> f v)"
  by (cases r) simp_all

lemma out_ok_keeps: "keeps s t \<Longrightarrow> out_ok t r \<Longrightarrow> out_ok s r"
  by (auto simp: out_ok_def intro: keeps_trans)

lemma exec_amo_ok: "mach s \<Longrightarrow> out_ok s (exec_amo D insn s)"
  unfolding exec_amo_def Let_def
  by (intro out_intros out_ok_amo) (simp_all, rule out_ok_keeps, assumption, intro out_intros, simp_all)

text \<open>The floating-point instructions rest on \<open>softfp_total\<close>'s lemmas: the result is there, its flags are flags.\<close>

lemma fp_finish_ok:
  fixes r :: "('f::len word \<times> u32) option"
  assumes "mach s" and "r \<noteq> None" and "flags_ok r"
  shows "out_ok s (fp_finish rd s r)"
proof -
  obtain v fl where r: "r = Some (v, fl)" using assms(2) by auto
  with assms(3) have "bits_in fl 31" by (simp add: flags_ok_def)
  with assms(1) r show ?thesis by (simp add: fp_finish_def)
qed

lemma fp_to_reg_ok: "mach s \<Longrightarrow> bits_in (snd r) 31 \<Longrightarrow> out_ok s (fp_to_reg insn s r)"
  by (simp add: fp_to_reg_def case_prod_beta)

lemma mach_flags: "mach s \<Longrightarrow> bits_in (fflags s) 31"
  by (simp add: mach_def csr_wf_def)

lemma with_rm_ok: "mach s \<Longrightarrow> (\<And>rm. out_ok s (k rm)) \<Longrightarrow>
    out_ok s (case get_insn_rm s f of None \<Rightarrow> Some (ILLEGAL_INSN, s) | Some rm \<Rightarrow> k rm)"
  by (simp split: option.split)

lemma fma_op_ok: "mach s \<Longrightarrow> fmt_ok TYPE('f) \<Longrightarrow> out_ok s (fma_op TYPE('f::len) na nc insn rm s)"
  unfolding fma_op_def Let_def by (intro fp_finish_ok fma_sf_total fma_flags mach_flags)

lemma exec_fma_ok: "mach s \<Longrightarrow> out_ok s (exec_fma na nc insn s)"
  unfolding exec_fma_def Let_def by (intro out_ok_if with_rm_ok fma_op_ok illegal_ok fmt_ok_32 fmt_ok_64)

lemma sub_flags: "bits_in fl 31 \<Longrightarrow> flags_ok (sub_sf a b rm fl)"
  unfolding sub_sf_def by (rule add_flags)

lemma sub_sf_total: "fmt_ok TYPE('f::len) \<Longrightarrow> sub_sf (a :: 'f word) b rm fl \<noteq> None"
  unfolding sub_sf_def by (rule add_sf_total)

lemma not_None_if: "a \<noteq> None \<Longrightarrow> b \<noteq> None \<Longrightarrow> (if c then a else b) \<noteq> None"
  by simp

lemma fp_arith_ok:
  assumes "mach s" and f: "fmt_ok TYPE('f::len)"
  shows "out_ok s (fp_arith TYPE('f) op insn rm s)"
  unfolding fp_arith_def Let_def
  by (intro fp_finish_ok not_None_if flags_ok_if add_sf_total sub_sf_total mul_sf_total div_sf_total sqrt_sf_total
      add_flags sub_flags mul_flags div_flags sqrt_flags mach_flags assms)

lemma flags_ok_pair: "bits_in (snd r) 31 \<Longrightarrow> flags_ok (Some r)"
  by (cases r) auto

lemma fp_sgnj_ok: "mach s \<Longrightarrow> out_ok s (fp_sgnj t insn s)"
  unfolding fp_sgnj_def Let_def by (intro out_intros) simp_all

lemma fp_minmax_ok: "mach s \<Longrightarrow> out_ok s (fp_minmax t insn s)"
  unfolding fp_minmax_def Let_def
  by (intro out_intros fp_finish_ok flags_ok_pair compare_flags mach_flags) simp_all

lemma fp_compare_ok: "mach s \<Longrightarrow> out_ok s (fp_compare t insn s)"
  unfolding fp_compare_def Let_def
  by (intro out_intros fp_to_reg_ok) (simp_all add: compare_flags mach_flags)

lemma fp_to_int_ok: "mach s \<Longrightarrow> out_ok s (fp_to_int t insn rm s)"
  unfolding fp_to_int_def Let_def cvt_sf_i_def cvt_sf_u_def
  by (intro out_intros fp_to_reg_ok cvt_flags mach_flags)

lemma int_to_fp_ok: "mach s \<Longrightarrow> fmt_ok TYPE('f::len) \<Longrightarrow> out_ok s (int_to_fp TYPE('f) insn rm s)"
  unfolding int_to_fp_def Let_def cvt_i_sf_def cvt_u_sf_def
  by (intro out_intros fp_finish_ok cvt_flags mach_flags cvt_i_total)

lemma fp_to_fp_ok: "mach s \<Longrightarrow> out_ok s (fp_to_fp t insn rm s)"
  unfolding fp_to_fp_def
  by (intro out_intros fp_finish_ok flags_ok_pair cvt_flags mach_flags cvt_sf64_sf32_total) simp_all

lemma fp_move_ok:
  assumes "mach s"
  shows "out_ok s (fp_move_x t insn s)" "out_ok s (fp_move_f t insn s)"
  unfolding fp_move_x_def fp_move_f_def Let_def using assms by (intro out_intros; simp)+

lemma exec_fp_op_ok:
  assumes "mach s" and "fmt_ok TYPE('f::len)"
  shows "out_ok s (exec_fp_op TYPE('f) op insn s)"
  unfolding exec_fp_op_def Let_def
  by (intro out_ok_if with_rm_ok fp_arith_ok fp_sgnj_ok fp_minmax_ok fp_compare_ok fp_to_int_ok int_to_fp_ok
      fp_to_fp_ok fp_move_ok illegal_ok assms)

lemma exec_fp_ok: "mach s \<Longrightarrow> out_ok s (exec_fp insn s)"
  unfolding exec_fp_def Let_def by (intro out_ok_if exec_fp_op_ok illegal_ok fmt_ok_32 fmt_ok_64)

text \<open>The system instructions.\<close>

lemma csr_finish_ok: "mach t \<Longrightarrow> even gpc \<Longrightarrow> keeps s t \<Longrightarrow> out_ok s (csr_finish insn gpc v err t)"
  by (simp add: csr_finish_def Let_def)

lemma csr_write_ok: "mach s \<Longrightarrow> csr_write s csr v = (err, t) \<Longrightarrow> mach t \<and> keeps s t"
  using quiet_keeps quiet_csr_write [of s csr v] csr_write_wf_lemma [of s csr v]
  by (auto simp: mach_def quiet_def intro: good_quiet)

lemma exec_csrrw_ok: "mach s \<Longrightarrow> even gpc \<Longrightarrow> out_ok s (exec_csrrw insn gpc ica s)"
  by (auto simp: exec_csrrw_def Let_def split: res.split prod.split
      dest!: csr_write_ok [rotated] intro!: csr_finish_ok)

lemma exec_csrrsc_ok: "mach s \<Longrightarrow> even gpc \<Longrightarrow> out_ok s (exec_csrrsc insn gpc ica s)"
  by (auto simp: exec_csrrsc_def Let_def split: res.split prod.split
      dest!: csr_write_ok [rotated] intro!: csr_finish_ok)

lemma mach_ret:
  assumes "mach s" and "even gpc"
  shows "mach (handle_sret (s\<lparr>pc := gpc\<rparr>))" "mach (handle_mret (s\<lparr>pc := gpc\<rparr>))"
    "keeps s (handle_sret (s\<lparr>pc := gpc\<rparr>))" "keeps s (handle_mret (s\<lparr>pc := gpc\<rparr>))"
proof -
  have m: "mach (s\<lparr>pc := gpc\<rparr>)" using assms by simp
  then have "csr_wf (s\<lparr>pc := gpc\<rparr>)" by (simp add: mach_def)
  then show "mach (handle_sret (s\<lparr>pc := gpc\<rparr>))" "mach (handle_mret (s\<lparr>pc := gpc\<rparr>))"
    by (auto intro: mach_quiet [OF m] quiet_ret handle_sret_wf handle_mret_wf)
  show "keeps s (handle_sret (s\<lparr>pc := gpc\<rparr>))" "keeps s (handle_mret (s\<lparr>pc := gpc\<rparr>))"
    using quiet_ret [of "s\<lparr>pc := gpc\<rparr>", THEN quiet_keeps] by simp_all
qed

lemma mach_flush [simp]: "mach s \<Longrightarrow> mach (tlb_flush_all s)"
  by (rule mach_quiet [OF _ quiet_flush]) (simp_all add: mach_def csr_wf_def)

lemma exec_priv_ok:
  assumes "mach s" and "even gpc"
  shows "out_ok s (exec_priv insn gpc s)"
proof -
  have "priv s < 4" using assms(1) by (simp add: mach_def csr_wf_def)
  with assms show ?thesis
    unfolding exec_priv_def Let_def tlb_flush_vaddr_def
    by (intro out_intros) (simp_all add: mach_ret exc_ok_def fault_causes)
qed

lemma exec_system_ok: "mach s \<Longrightarrow> even gpc \<Longrightarrow> out_ok s (exec_system insn gpc ica s)"
  unfolding exec_system_def Let_def by (intro out_ok_if exec_csrrw_ok exec_csrrsc_ok exec_priv_ok)

lemma exec_insn_ok: "mach s \<Longrightarrow> even gpc \<Longrightarrow> out_ok s (exec_insn D insn gpc ica s)"
  unfolding exec_insn_def Let_def
  by (intro out_ok_if exec_c0_ok exec_c1_ok exec_c2_ok exec_alu_ok exec_jump_ok exec_load_ok exec_store_ok
      exec_system_ok exec_amo_ok exec_fp_mem_ok exec_fma_ok exec_fp_ok illegal_ok)

end

end
