(* ===== verification/Riscv_Run.thy ===== *)
theory Riscv_Run
  imports Riscv_Safety
begin

text \<open>
  The loops around the instructions: \<open>riscv_cpu_interp_x32\<close> (defined in \<open>Riscv_Interp\<close>) and the outer
  loop \<open>riscv_cpu_interp\<close> of \<open>riscv_cpu.c\<close>. Under the contract of the devices both end, with enough
  fuel, keep the invariant of the machine, and account for the cycles they are given.
\<close>

section \<open>Definitions\<close>

text \<open>
  The \<open>while\<close> loop of \<open>riscv_cpu_interp\<close>, with fuel: \<open>Some None\<close> is running out of it, \<open>None\<close> the
  \<open>abort\<close> for an unknown \<open>cur_xlen\<close>.
\<close>

fun interp_loop :: "nat \<Rightarrow> 'd dev_ops \<Rightarrow> u64 \<Rightarrow> 'd cpu \<Rightarrow> 'd cpu option option" where
  "interp_loop 0 D timeout s = Some None"
| "interp_loop (Suc fuel) D timeout s =
     (let left = sint (ucast (timeout - insn_counter s) :: u32) in
      if \<not> power_down_flag s \<and> left > 0
      then if cur_xlen s = 32
           then do { r \<leftarrow> riscv_cpu_interp_x32 D left s;
                     case r of None \<Rightarrow> Some None | Some s' \<Rightarrow> interp_loop fuel D timeout s' }
           else None
      else Some (Some s))"

definition riscv_cpu_interp :: "'d dev_ops \<Rightarrow> int \<Rightarrow> 'd cpu \<Rightarrow> 'd cpu option option" where
  "riscv_cpu_interp D n s = interp_loop (nat n + 1) D (insn_counter s + word_of_int n) s"

lemma sint_sub:
  fixes v :: u32
  assumes "- (2 ^ 31) \<le> sint v - k" and "sint v - k < 2 ^ 31"
  shows "sint (v - word_of_int k) = sint v - k"
proof -
  have "v - word_of_int k = word_of_int (sint v - k)" by simp
  then have "sint (v - word_of_int k) = signed_take_bit 31 (sint v - k)"
    by (simp only: sint_sbintrunc') simp
  then show ?thesis using assms by (simp only: signed_take_bit_int_eq_self)
qed

lemma ucast_of_int: "(ucast (word_of_int k :: u64) :: u32) = word_of_int k"
  by (rule bit_word_eqI) (simp add: bit_simps)

lemma ucast_sub_int: "(ucast (x - word_of_int k) :: u32) = ucast x - word_of_int k" for x :: u64
proof -
  have x: "word_of_int (uint x) = x" by (rule word_of_int_uint)
  have "x - word_of_int k = word_of_int (uint x - k)" using x by simp
  then have "(ucast (x - word_of_int k) :: u32) = word_of_int (uint x - k)" by (simp only: ucast_of_int)
  also have "\<dots> = word_of_int (uint x) - word_of_int k" by simp
  also have "(word_of_int (uint x) :: u32) = ucast x" using ucast_of_int [of "uint x"] x by simp
  finally show ?thesis .
qed

section \<open>A round of the loop\<close>

text \<open>How many rounds a window and the cycles left can still take.\<close>

definition rounds_left :: "window \<Rightarrow> int \<Rightarrow> int" where
  "rounds_left w n = (if n > 0 then n + 2048 else if w_left w > 0 then w_left w div 2 + 1 else 1)"

lemma host_ok_sub:
  "host_ok mm (r, off) n \<Longrightarrow> 0 \<le> k \<Longrightarrow> k + int m \<le> int n \<Longrightarrow> host_ok mm (r, off + k) m"
  by (auto simp: host_ok_def)

lemma host_ok_le: "host_ok mm p n \<Longrightarrow> m \<le> n \<Longrightarrow> host_ok mm p m"
  by (auto simp: host_ok_def)

definition win_ok :: "'d cpu \<Rightarrow> window \<Rightarrow> bool" where
  "win_ok s w \<longleftrightarrow> even (w_pc w) \<and> even (w_left w) \<and> w_left w \<le> 4094 \<and>
     (w_left w > 0 \<longrightarrow> (\<exists>p. w_ptr w = Some p \<and> host_ok (mem_map s) p (nat (w_left w + 2))))"

lemma win_ok_keeps: "win_ok s w \<Longrightarrow> keeps s s' \<Longrightarrow> win_ok s' w"
  by (auto simp: win_ok_def keeps_def same_layout_host_ok)

lemma win_ok_null: "even a \<Longrightarrow> win_ok s (null_window a)"
  by (simp add: win_ok_def null_window_def)

lemma win_ok_advance:
  assumes w: "win_ok s w" and n: "n = 2 \<or> n = 4"
  shows "win_ok s (advance w n)"
proof -
  have ev: "even n" and n0: "0 \<le> int n" using n by auto
  have "even (w_pc w + of_nat n)" using w n by (auto simp: win_ok_def)
  moreover have "\<exists>p. w_ptr (advance w n) = Some p \<and> host_ok (mem_map s) p (nat (w_left w - int n + 2))"
    if "w_left w - int n > 0"
  proof -
    from that w n obtain r off where p: "w_ptr w = Some (r, off)" "host_ok (mem_map s) (r, off) (nat (w_left w + 2))"
      by (auto simp: win_ok_def)
    have "host_ok (mem_map s) (r, off + int n) (nat (w_left w - int n + 2))"
      using p(2) n0 that by (rule_tac host_ok_sub [of _ _ _ "nat (w_left w + 2)"]) auto
    with p(1) show ?thesis by (simp add: advance_def)
  qed
  ultimately show ?thesis using w ev n by (auto simp: win_ok_def advance_def)
qed

lemma even_page: "even (a :: u32) \<Longrightarrow> even (unat a mod 4096)"
proof -
  assume "even a"
  then have "\<not> bit a 0" by (simp add: even_bit)
  then have "\<not> bit (unat a) 0" by (simp add: bit_unsigned_iff del: bit_0)
  then have "even (unat a)" by (simp add: bit_0)
  then show ?thesis by (intro dvd_mod) simp_all
qed

lemma page_room: "uint (PG_MASK - 1) - uint (a AND PG_MASK) = 4094 - int (unat a mod 4096)"
  using word_and_mask_mod [of a 12] by (simp add: PG_MASK_def mask_eq_exp_minus_1 uint_nat)

lemma page_end_next:
  assumes "unat (a :: u32) mod 4096 = 4094"
  shows "unat (a + 2) mod 4096 = 0"
proof -
  have "unat (a + 2) mod 4096 = (unat a + 2) mod 4096"
    by (simp add: unat_word_ariths mod_mod_cancel)
  also have "\<dots> = (unat a mod 4096 + 2) mod 4096" by (rule mod_add_left_eq [symmetric])
  finally show ?thesis using assms by simp
qed

lemma get_insn32_total: "host_ok mm p 4 \<Longrightarrow> get_insn32 mm p \<noteq> None"
  using host_read_total [of mm p 4] by (simp add: get_insn32_def)

text \<open>What a fetch promises.\<close>

definition fetched_ok :: "('d cpu \<Rightarrow> bool) \<Rightarrow> window \<Rightarrow> 'd cpu \<Rightarrow> 'd fetched \<Rightarrow> bool" where
  "fetched_ok M w s f = (case f of
       Fetched insn w1 s1 \<Rightarrow> M s1 \<and> keeps s s1 \<and> win_ok s1 w1 \<and>
         (w_left w > 0 \<and> w1 = w \<or> n_cycles s > 0)
     | Fetch_Exception w1 s1 \<Rightarrow> M s1 \<and> keeps s s1 \<and> exc_ok s1 \<and> even (w_pc w1) \<and> n_cycles s > 0
     | Fetch_End s1 \<Rightarrow> M s1 \<and> same_layout (mem_map s) (mem_map s1) \<and>
         (n_cycles s \<le> 0 \<and> n_cycles s1 = n_cycles s \<or> n_cycles s > 0 \<and> n_cycles s1 = n_cycles s - 1))"

context device_bus
begin

lemma mach_even_pc: "mach s \<Longrightarrow> even (pc s)"
  by (simp add: mach_def csr_wf_def flip: bits_in_even)

lemma fetch_at_ok:
  assumes m: "mach s" and e: "even addr" and h: "host_ok (mem_map s) ptr (4096 - unat addr mod 4096)"
    and n: "n_cycles s > 0"
  shows "\<exists>f. fetch_at addr ptr s = Some f \<and> fetched_ok mach w s f"
proof -
  define off where "off = unat addr mod 4096"
  define wn where "wn = \<lparr>w_ptr = Some ptr, w_left = 4094 - int off, w_pc = addr\<rparr>"
  have ev: "even off" using even_page [OF e] by (simp add: off_def)
  have "off < 4096" by (simp add: off_def)
  moreover have "off \<noteq> 4095" using ev by auto
  ultimately have le: "off \<le> 4094" by linarith
  have h: "host_ok (mem_map s) ptr (4096 - off)" using h by (simp only: off_def)
  have nt: "nat (w_left wn + 2) = 4096 - off" using le by (simp add: wn_def)
  have w: "win_ok s wn"
    unfolding win_ok_def nt using h e ev le by (simp add: wn_def)
  have fa: "fetch_at addr ptr s =
      (if w_left wn \<le> 0
         then do { lo \<leftarrow> host_read (mem_map s) ptr 2;
                   if (of_nat lo :: u32) AND 3 = 3
                   then do { (r, s1) \<leftarrow> target_read_insn_u16 (addr + 2) s;
                             case r of
                               ERR \<Rightarrow> Some (Fetch_Exception wn s1)
                             | OK hi \<Rightarrow> Some (Fetched (of_nat lo OR push_bit 16 (ucast hi)) wn s1) }
                   else Some (Fetched (of_nat lo) wn s) }
         else do { insn \<leftarrow> get_insn32 (mem_map s) ptr; Some (Fetched insn wn s) })"
    by (simp only: fetch_at_def Let_def page_room wn_def off_def)
  show ?thesis
  proof (cases "off = 4094")
    case True
    then have "host_ok (mem_map s) ptr 2" using h by simp
    then obtain lo where lo: "host_read (mem_map s) ptr 2 = Some lo" using host_read_total by blast
    have "unat (addr + 2) mod 4096 + 2 \<le> 4096"
      using page_end_next [of addr] True by (simp add: off_def)
    then obtain r s1 where r: "target_read_insn_u16 (addr + 2) s = Some (r, s1)" "step_ok s s1"
      using target_read_insn_u16_safe [of s "addr + 2"] m by (auto simp: mach_def)
    note a = acc_mach [OF m r(2)]
    have w1: "win_ok s1 wn" using w a(2) by (rule win_ok_keeps)
    have wl: "w_left wn \<le> 0" using True by (simp add: wn_def)
    have wp: "even (w_pc wn)" using e by (simp add: wn_def)
    show ?thesis
    proof (cases "(of_nat lo :: u32) AND 3 = 3")
      case True
      show ?thesis
      proof (cases r)
        case ERR
        then show ?thesis using fa wl lo True r a n wp target_read_insn_u16_ERR [of "addr + 2" s s1]
          by (simp add: fetched_ok_def)
      next
        case (OK hi)
        then show ?thesis using fa wl lo True r a n w1
          by (simp add: fetched_ok_def)
      qed
    next
      case False
      then show ?thesis using fa wl lo m n w by (simp add: fetched_ok_def)
    qed
  next
    case False
    then have "off \<le> 4092" using ev le by (auto elim!: evenE)
    then have "host_ok (mem_map s) ptr 4" by (intro host_ok_le [OF h]) simp
    then obtain insn where "get_insn32 (mem_map s) ptr = Some insn" using get_insn32_total by blast
    moreover have "\<not> w_left wn \<le> 0" using False le by (simp add: wn_def)
    ultimately show ?thesis using fa m n w by (simp add: fetched_ok_def)
  qed
qed

lemma mach_interrupt: "mach s \<Longrightarrow> raise_interrupt s = Some s' \<Longrightarrow> mach s'"
  using quiet_raise_interrupt raise_interrupt_wf by (auto simp: mach_def quiet_def intro: good_quiet)

lemma fetch_block_ok:
  assumes m: "mach s0" and w: "win_ok s0 w"
  shows "\<exists>f. fetch_block w s0 = Some f \<and> fetched_ok mach w s0 f"
proof -
  define s where "s = s0\<lparr>pc := w_pc w\<rparr>"
  have e: "even (w_pc w)" using w by (simp add: win_ok_def)
  with m have ms: "mach s" by (simp add: s_def)
  have fs: "same_layout (mem_map s0) (mem_map s)" "n_cycles s = n_cycles s0" "pc s = w_pc w" by (simp_all add: s_def)
  show ?thesis
  proof (cases "n_cycles s \<le> 0")
    case True
    then show ?thesis using ms fs by (simp add: fetch_block_def Let_def fetched_ok_def flip: s_def)
  next
    case False
    define irq where "irq = (if mip s AND mie s \<noteq> 0 then raise_interrupt s else None)"
    show ?thesis
    proof (cases irq)
      case (Some s1)
      then have "raise_interrupt s = Some s1" by (auto simp: irq_def split: if_splits)
      note q = mach_interrupt [OF ms this] quiet_raise_interrupt [OF this]
      then have "mach (s1\<lparr>n_cycles := n_cycles s1 - 1\<rparr>)" "mem_map s1 = mem_map s" "n_cycles s1 = n_cycles s"
        by (simp_all add: quiet_def)
      then show ?thesis using False Some fs
        by (simp add: fetch_block_def Let_def fetched_ok_def flip: s_def irq_def)
    next
      case None
      have fit: "unat (pc s) mod 4096 + (4096 - unat (pc s) mod 4096) \<le> 4096" by simp
      from ms have g: "good s" by (simp add: mach_def)
      from target_read_insn_ptr_safe [OF g fit] obtain r s1 where r: "target_read_insn_ptr (pc s) s = Some (r, s1)"
        "step_ok s s1" and h: "\<forall>p. r = OK p \<longrightarrow> host_ok (mem_map s1) p (4096 - unat (pc s) mod 4096)" by blast
      note a = acc_mach [OF ms r(2)]
      have ks: "keeps s0 s1" using a(2) by (simp add: s_def)
      have n1: "n_cycles s1 > 0" using a(2) False by (simp add: keeps_def)
      show ?thesis
      proof (cases r)
        case ERR
        have "exc_ok s1" using ERR r(1) target_read_insn_ptr_ERR by blast
        then show ?thesis using ERR r a(1) ks False None e fs
          by (simp add: fetch_block_def Let_def fetched_ok_def flip: s_def irq_def)
      next
        case (OK p)
        have ep: "even (pc s)" using e fs by simp
        from h OK have "host_ok (mem_map s1) p (4096 - unat (pc s) mod 4096)" by blast
        from fetch_at_ok [OF a(1) ep this n1, of w] obtain f where
          f: "fetch_at (pc s) p s1 = Some f" "fetched_ok mach w s1 f" by blast
        from f(2) have "fetched_ok mach w s0 f"
          using ks by (auto simp: fetched_ok_def keeps_def split: fetched.split_asm intro: same_layout_trans)
        then show ?thesis using OK r(1) f(1) False None
          by (simp add: fetch_block_def Let_def flip: s_def irq_def)
      qed
    qed
  qed
qed

lemma fetch_ok:
  assumes m: "mach s" and w: "win_ok s w"
  shows "\<exists>f. fetch w s = Some f \<and> fetched_ok mach w s f"
proof (cases "w_left w \<le> 0")
  case True
  with fetch_block_ok [OF assms] show ?thesis by (simp add: fetch_def)
next
  case False
  with w obtain p where p: "w_ptr w = Some p" "host_ok (mem_map s) p (nat (w_left w + 2))" "even (w_left w)"
    by (auto simp: win_ok_def)
  have "4 \<le> nat (w_left w + 2)" using False p(3) by (auto elim!: evenE)
  with p(2) have "host_ok (mem_map s) p 4" by (rule host_ok_le)
  then obtain insn where "get_insn32 (mem_map s) p = Some insn" using get_insn32_total by blast
  with False p m w show ?thesis by (simp add: fetch_def fetched_ok_def)
qed

text \<open>The end of a run: the instruction counter is the one at the start plus the cycles spent.\<close>

definition ended :: "u64 \<Rightarrow> 'd cpu \<Rightarrow> 'd cpu \<Rightarrow> bool" where
  "ended ica s s' \<longleftrightarrow> mach s' \<and> insn_counter s' = ica - word_of_int (n_cycles s') \<and>
     same_layout (mem_map s) (mem_map s')"

lemma finish_ended: "mach s' \<Longrightarrow> same_layout (mem_map s) (mem_map s') \<Longrightarrow> ended ica s (finish ica s')"
  by (simp add: ended_def finish_def GET_INSN_COUNTER_def)

lemma take_exception_ok:
  assumes m: "mach t" and e: "even gpc" and x: "exc_ok t" and l: "same_layout (mem_map s) (mem_map t)"
  shows "ended ica s (take_exception ica gpc t)" and "n_cycles (take_exception ica gpc t) = n_cycles t - 1"
proof -
  define t1 where "t1 = t\<lparr>pc := gpc, n_cycles := n_cycles t - 1\<rparr>"
  define c where "c = (word_of_int (pending_exception t) :: u32)"
  have m1: "mach t1" using m e by (simp add: t1_def)
  have q: "quiet t1 (raise_exception2 t1 c (pending_tval t))" by (rule quiet_raise_exception2)
  have "csr_wf (raise_exception2 t1 c (pending_tval t))"
    using m1 by (intro raise_exception2_wf_lemma) (simp add: mach_def)
  with m1 q have m2: "mach (raise_exception2 t1 c (pending_tval t))" by (rule mach_quiet)
  have tk: "take_exception ica gpc t = finish ica (raise_exception2 t1 c (pending_tval t))"
    using x by (simp add: take_exception_def Let_def exc_ok_def t1_def c_def)
  have "same_layout (mem_map s) (mem_map (raise_exception2 t1 c (pending_tval t)))"
    using q l by (simp add: quiet_def t1_def)
  with m2 show "ended ica s (take_exception ica gpc t)" unfolding tk by (rule finish_ended)
  show "n_cycles (take_exception ica gpc t) = n_cycles t - 1"
    unfolding tk using q by (simp add: finish_def quiet_def t1_def)
qed

lemma rounds_left_pos: "1 \<le> rounds_left w n"
  by (simp add: rounds_left_def pos_imp_zdiv_nonneg_iff)

lemma rounds_left_step:
  assumes w: "win_ok s w" and w': "win_ok s' w'" and n: "w_left w > 0 \<and> w_left w' \<le> w_left w - 2 \<or> n > 0"
  shows "rounds_left w' (n - 1) + 1 \<le> rounds_left w n"
proof (cases "n > 0")
  case True
  have "w_left w' div 2 \<le> 4094 div 2" using w' by (intro zdiv_mono1) (simp_all add: win_ok_def)
  with True show ?thesis by (auto simp: rounds_left_def)
next
  case False
  then have wl: "w_left w > 0" "w_left w' \<le> w_left w - 2" using n by auto
  from w obtain k where k: "w_left w = 2 * k" by (auto simp: win_ok_def elim!: evenE)
  from w' obtain j where j: "w_left w' = 2 * j" by (auto simp: win_ok_def elim!: evenE)
  show ?thesis using False wl by (simp add: rounds_left_def k j)
qed

text \<open>What a round does to the cycles: one is spent, two when an instruction faults.\<close>

definition round_ok :: "u64 \<Rightarrow> window \<Rightarrow> 'd cpu \<Rightarrow> ('d cpu + window \<times> 'd cpu) \<Rightarrow> bool" where
  "round_ok ica w s r = (case r of
       Inl s' \<Rightarrow> ended ica s s' \<and> n_cycles s - 2 \<le> n_cycles s' \<and> n_cycles s' \<le> n_cycles s \<and>
         (n_cycles s > 0 \<longrightarrow> n_cycles s' < n_cycles s)
     | Inr (w', s') \<Rightarrow> mach s' \<and> win_ok s' w' \<and> same_layout (mem_map s) (mem_map s') \<and>
         n_cycles s' = n_cycles s - 1 \<and> rounds_left w' (n_cycles s - 1) + 1 \<le> rounds_left w (n_cycles s))"

lemma round_ok_round:
  assumes m: "mach s" and w: "win_ok s w"
  shows "\<exists>r. round D ica w s = Some r \<and> round_ok ica w s r"
proof -
  obtain f where f: "fetch w s = Some f" "fetched_ok mach w s f" using fetch_ok [OF m w] by blast
  show ?thesis
  proof (cases f)
    case (Fetch_End s1)
    with f have "mach s1" "same_layout (mem_map s) (mem_map s1)" by (auto simp: fetched_ok_def)
    from finish_ended [OF this] show ?thesis using f Fetch_End
      by (auto simp: round_def fetched_ok_def round_ok_def finish_def)
  next
    case (Fetch_Exception w1 s1)
    with f have s1: "mach s1" "even (w_pc w1)" "exc_ok s1" "same_layout (mem_map s) (mem_map s1)"
      "n_cycles s1 = n_cycles s" by (auto simp: fetched_ok_def keeps_def)
    from take_exception_ok [OF s1(1-4)] s1(5) f(1) Fetch_Exception show ?thesis
      by (simp add: round_def round_ok_def)
  next
    case (Fetched insn w1 s1)
    with f have s1: "mach s1" "keeps s s1" "win_ok s1 w1" and prog: "w_left w > 0 \<and> w1 = w \<or> n_cycles s > 0"
      by (auto simp: fetched_ok_def)
    have e: "even (w_pc w1)" using s1(3) by (simp add: win_ok_def)
    define t where "t = s1\<lparr>n_cycles := n_cycles s1 - 1\<rparr>"
    have "mach t" using s1(1) by (simp add: t_def)
    from exec_insn_ok [OF this e] obtain fl s2 where x: "exec_insn D insn (w_pc w1) ica t = Some (fl, s2)"
      and m2: "mach s2" and k2: "keeps t s2" and ex: "fl = EXCEPTION_INSN \<longrightarrow> exc_ok s2"
      unfolding out_ok_def by blast
    have k: "same_layout (mem_map s) (mem_map s2)" "n_cycles s2 = n_cycles s - 1"
      using k2 s1(2) by (auto simp: keeps_def t_def intro: same_layout_trans)
    have w2: "win_ok s2 w1"
      using s1(3) k2 same_layout_host_ok [of "mem_map s1" "mem_map s2"] by (auto simp: win_ok_def keeps_def t_def)
    have rd: "round D ica w s = (case fl of
               NEXT_INSN \<Rightarrow> Some (Inr (advance w1 4, s2))
             | C_NEXT_INSN \<Rightarrow> Some (Inr (advance w1 2, s2))
             | JUMP_INSN \<Rightarrow> Some (Inr (null_window (pc s2), s2))
             | ILLEGAL_INSN \<Rightarrow> Some (Inl (take_illegal ica insn (w_pc w1) s2))
             | EXCEPTION_INSN \<Rightarrow> Some (Inl (take_exception ica (w_pc w1) s2))
             | DONE_INTERP \<Rightarrow> Some (Inl (finish ica s2)))"
      using f(1) Fetched x by (simp add: round_def t_def)
    have step: "round_ok ica w s (Inr (w', s2))" if "win_ok s2 w'" "w_left w' \<le> w_left w1 - 2 \<or> w_left w' \<le> 0" for w'
    proof -
      have "w_left w > 0 \<and> w_left w' \<le> w_left w - 2 \<or> n_cycles s > 0"
      proof (cases "n_cycles s > 0")
        case False
        with prog have "w_left w > 0" "w1 = w" by auto
        with that(2) w show ?thesis by (auto simp: win_ok_def elim!: evenE)
      qed simp
      from rounds_left_step [OF w that(1) this] show ?thesis
        using m2 that(1) k by (simp add: round_ok_def)
    qed
    show ?thesis
    proof (cases fl)
      case NEXT_INSN
      then show ?thesis using rd step [OF win_ok_advance [OF w2, of 4]] by (simp add: advance_def)
    next
      case C_NEXT_INSN
      then show ?thesis using rd step [OF win_ok_advance [OF w2, of 2]] by (simp add: advance_def)
    next
      case JUMP_INSN
      then show ?thesis using rd step [OF win_ok_null [OF mach_even_pc [OF m2]]] by (simp add: null_window_def)
    next
      case ILLEGAL_INSN
      have x: "exc_ok (s2\<lparr>pending_exception := CAUSE_ILLEGAL_INSTRUCTION, pending_tval := insn\<rparr>)"
        by (simp add: exc_ok_def fault_causes)
      show ?thesis using rd ILLEGAL_INSN take_exception_ok [OF _ e x, of s ica] m2 k
        by (simp add: take_illegal_def round_ok_def)
    next
      case EXCEPTION_INSN
      then show ?thesis using rd take_exception_ok [OF m2 e _ k(1)] ex k(2) by (simp add: round_ok_def)
    next
      case DONE_INTERP
      then show ?thesis using rd finish_ended [OF m2 k(1)] k(2) by (simp add: round_ok_def finish_def)
    qed
  qed
qed

lemma rounds_ok:
  assumes "mach s" and "win_ok s w" and "rounds_left w (n_cycles s) \<le> int fuel"
  shows "\<exists>s'. rounds fuel D ica w s = Some (Some s') \<and> ended ica s s' \<and>
    n_cycles s - rounds_left w (n_cycles s) - 1 \<le> n_cycles s' \<and> n_cycles s' \<le> n_cycles s \<and>
    (n_cycles s > 0 \<longrightarrow> n_cycles s' < n_cycles s)"
  using assms
proof (induction fuel arbitrary: w s)
  case 0
  then show ?case using rounds_left_pos [of w "n_cycles s"] by simp
next
  case (Suc fuel)
  obtain r where r: "round D ica w s = Some r" "round_ok ica w s r" using round_ok_round [OF Suc.prems(1,2)] by blast
  show ?case
  proof (cases r)
    case (Inl s')
    then show ?thesis using r rounds_left_pos [of w "n_cycles s"] by (simp add: round_ok_def)
  next
    case (Inr p)
    then obtain w' s' where p: "r = Inr (w', s')" by (cases p) auto
    with r have st: "mach s'" "win_ok s' w'" "same_layout (mem_map s) (mem_map s')" "n_cycles s' = n_cycles s - 1"
      "rounds_left w' (n_cycles s - 1) + 1 \<le> rounds_left w (n_cycles s)" by (simp_all add: round_ok_def)
    then have "rounds_left w' (n_cycles s') \<le> int fuel" using Suc.prems(3) by simp
    from Suc.IH [OF st(1,2) this] obtain s'' where s'': "rounds fuel D ica w' s' = Some (Some s'')"
      "ended ica s' s''" "n_cycles s' - rounds_left w' (n_cycles s') - 1 \<le> n_cycles s''" "n_cycles s'' \<le> n_cycles s'"
      by blast
    then show ?thesis using p r(1) st same_layout_trans [OF st(3)] by (simp add: ended_def)
  qed
qed

lemma interp_x32_ok:
  assumes m: "mach s" and n: "n > 0"
  shows "\<exists>s' k. riscv_cpu_interp_x32 D n s = Some (Some s') \<and> mach s' \<and> same_layout (mem_map s) (mem_map s') \<and>
    1 \<le> k \<and> k \<le> n + 2049 \<and> insn_counter s' = insn_counter s + word_of_int k"
proof -
  define s1 where "s1 = s\<lparr>n_cycles := n\<rparr>"
  define ica where "ica = insn_counter s + word_of_int n"
  define irq where "irq = (if mip s1 AND mie s1 \<noteq> 0 then raise_interrupt s1 else None)"
  have m1: "mach s1" using m by (simp add: s1_def)
  have ct: "insn_counter t = insn_counter s + word_of_int (n - n_cycles t)" if "ended ica u t" for u t
    using that by (simp add: ended_def ica_def)
  show ?thesis
  proof (cases irq)
    case (Some s2)
    then have "raise_interrupt s1 = Some s2" by (auto simp: irq_def split: if_splits)
    note q = mach_interrupt [OF m1 this] quiet_raise_interrupt [OF this]
    define t where "t = finish ica (s2\<lparr>n_cycles := n_cycles s2 - 1\<rparr>)"
    have "ended ica s t" unfolding t_def by (rule finish_ended) (use q in \<open>simp_all add: quiet_def s1_def\<close>)
    moreover have "n_cycles t = n - 1" using q(2) by (simp add: t_def finish_def quiet_def s1_def)
    moreover have "riscv_cpu_interp_x32 D n s = Some (Some t)"
      unfolding riscv_cpu_interp_x32_def Let_def s1_def [symmetric] irq_def [symmetric] ica_def [symmetric] Some t_def
      using n by simp
    ultimately show ?thesis using ct [of s t] n by (intro exI [of _ t] exI [of _ 1]) (simp add: ended_def)
  next
    case None
    define s2 where "s2 = s1\<lparr>pending_exception := - 1\<rparr>"
    have m2: "mach s2" "n_cycles s2 = n" "mem_map s2 = mem_map s" "pc s2 = pc s1"
      using m1 by (simp_all add: s2_def s1_def)
    have "win_ok s2 (null_window (pc s1))" using mach_even_pc [OF m1] by (rule win_ok_null)
    from rounds_ok [OF m2(1) this, of "interp_fuel n" ica] n m2(2) obtain t where
      t: "rounds (interp_fuel n) D ica (null_window (pc s1)) s2 = Some (Some t)" "ended ica s2 t"
        "n - (n + 2048) - 1 \<le> n_cycles t" "n_cycles t < n"
      by (auto simp: rounds_left_def interp_fuel_def)
    moreover have "riscv_cpu_interp_x32 D n s = rounds (interp_fuel n) D ica (null_window (pc s1)) s2"
      unfolding riscv_cpu_interp_x32_def Let_def s1_def [symmetric] irq_def [symmetric] ica_def [symmetric] None s2_def
      using n by simp
    ultimately show ?thesis using ct [OF t(2)] m2(3)
      by (intro exI [of _ t] exI [of _ "n - n_cycles t"]) (simp add: ended_def)
  qed
qed

text \<open>The outer loop: the cycles left go down at each call.\<close>

definition cycles_left :: "u64 \<Rightarrow> 'd cpu \<Rightarrow> int" where
  "cycles_left timeout s = sint (ucast (timeout - insn_counter s) :: u32)"

lemma cycles_left_step:
  assumes "insn_counter s' = insn_counter s + word_of_int k" and "0 \<le> k" and "k \<le> cycles_left timeout s + 2049"
  shows "cycles_left timeout s' = cycles_left timeout s - k"
proof -
  define v where "v = (ucast (timeout - insn_counter s) :: u32)"
  have "sint v < 2 ^ 31" using sint_lt [of v] by simp
  then have "sint (v - word_of_int k) = sint v - k"
    using assms(2,3) by (intro sint_sub) (simp_all add: cycles_left_def v_def)
  moreover have "timeout - insn_counter s' = (timeout - insn_counter s) - word_of_int k"
    unfolding assms(1) by (rule diff_diff_eq [symmetric])
  ultimately show ?thesis
    unfolding cycles_left_def v_def by (simp only: ucast_sub_int)
qed

lemma interp_loop_ok:
  assumes "mach s" and "cycles_left timeout s < int fuel" and "0 < fuel"
  shows "\<exists>s' k. interp_loop fuel D timeout s = Some (Some s') \<and> mach s' \<and> same_layout (mem_map s) (mem_map s') \<and>
    0 \<le> k \<and> insn_counter s' = insn_counter s + word_of_int k \<and>
    (k = 0 \<or> k \<le> cycles_left timeout s + 2049) \<and> (power_down_flag s' \<or> cycles_left timeout s \<le> k)"
  using assms
proof (induction fuel arbitrary: s)
  case 0
  then show ?case by simp
next
  case (Suc fuel)
  define L where "L = cycles_left timeout s"
  have L: "sint (ucast (timeout - insn_counter s) :: u32) = L" by (simp add: L_def cycles_left_def)
  show ?case
  proof (cases "\<not> power_down_flag s \<and> L > 0")
    case False
    then have "interp_loop (Suc fuel) D timeout s = Some (Some s)"
      unfolding interp_loop.simps L Let_def by (simp only: if_False)
    with False Suc.prems(1) show ?thesis
      unfolding L_def [symmetric] by (intro exI [of _ s] exI [of _ 0]) auto
  next
    case True
    then have L0: "L > 0" by simp
    have x: "cur_xlen s = 32" using Suc.prems(1) by (simp add: mach_def csr_wf_def)
    obtain s1 j where 1: "riscv_cpu_interp_x32 D L s = Some (Some s1)" "mach s1"
      "same_layout (mem_map s) (mem_map s1)" "1 \<le> j" "j \<le> L + 2049" "insn_counter s1 = insn_counter s + word_of_int j"
      using interp_x32_ok [OF Suc.prems(1) L0] by blast
    have L1: "cycles_left timeout s1 = L - j"
      unfolding L_def using cycles_left_step [OF 1(6)] 1(4,5) by (simp add: L_def)
    have lt: "cycles_left timeout s1 < int fuel" using L1 1(4) Suc.prems(2) by (simp add: L_def)
    have f0: "0 < fuel" using L0 Suc.prems(2) by (simp add: L_def)
    from Suc.IH [OF 1(2) lt f0] obtain s' k where
      2: "interp_loop fuel D timeout s1 = Some (Some s')" "mach s'" "same_layout (mem_map s1) (mem_map s')"
      "0 \<le> k" "insn_counter s' = insn_counter s1 + word_of_int k" "k = 0 \<or> k \<le> L - j + 2049"
      "power_down_flag s' \<or> L - j \<le> k" unfolding L1 by blast
    have "interp_loop (Suc fuel) D timeout s = Some (Some s')"
      unfolding interp_loop.simps L Let_def using True x 1(1) 2(1) by simp
    moreover have "same_layout (mem_map s) (mem_map s')" using 1(3) 2(3) by (rule same_layout_trans)
    moreover have "insn_counter s' = insn_counter s + word_of_int (j + k)" using 1(6) 2(5) by simp
    ultimately show ?thesis using 2 1(4,5) unfolding L_def [symmetric]
      by (intro exI [of _ s'] exI [of _ "j + k"]) auto
  qed
qed

lemma interp_ok:
  assumes m: "mach s" and n: "0 < n" "n < 2 ^ 31"
  shows "\<exists>s' k. riscv_cpu_interp D n s = Some (Some s') \<and> mach s' \<and> same_layout (mem_map s) (mem_map s') \<and>
    insn_counter s' = insn_counter s + word_of_int k \<and> 0 \<le> k \<and> k \<le> n + 2049 \<and> (power_down_flag s' \<or> n \<le> k)"
proof -
  define timeout where "timeout = insn_counter s + word_of_int n"
  have "cycles_left timeout s = sint (word_of_int n :: u32)"
    by (simp add: cycles_left_def timeout_def ucast_of_int)
  also have "\<dots> = n" using n by (simp add: sint_sbintrunc' signed_take_bit_int_eq_self)
  finally have l: "cycles_left timeout s = n" .
  have f: "n < int (nat n + 1)" "0 < nat n + 1" using n by simp_all
  from interp_loop_ok [OF m _ f(2), of timeout, unfolded l, OF f(1)] obtain s' k where
    r: "interp_loop (nat n + 1) D timeout s = Some (Some s')" "mach s'" "same_layout (mem_map s) (mem_map s')"
      "0 \<le> k" "insn_counter s' = insn_counter s + word_of_int k" "k = 0 \<or> k \<le> n + 2049"
      "power_down_flag s' \<or> n \<le> k" by blast
  then show ?thesis
    unfolding riscv_cpu_interp_def timeout_def [symmetric]
    by (intro exI [of _ s'] exI [of _ k]) (use n in auto)
qed

end

end
