(* ===== verification/Riscv_Machine.thy ===== *)
theory Riscv_Machine
  imports Riscv_Run
begin

text \<open>
  The platform devices of \<open>riscv_machine.c\<close> (the RTC, the CLINT timer, the PLIC interrupt
  controller and the HTIF console) and the operations of the machine on its CPU. The devices
  satisfy the contract \<open>device_bus\<close> of the CPU, so its results apply to the machine.

  The machine modelled has these three devices, not the virtio ones. \<open>exit(0)\<close>, the reaction to a
  power-off command, sets \<open>vm_exit\<close>: what the model does after that has no counterpart in C.
  The console is the list of the bytes written to it. The host clock is a parameter \<open>T\<close>: the
  seconds and nanoseconds of the \<open>n\<close>-th call of \<open>clock_gettime\<close>.
\<close>

section \<open>Definitions\<close>

definition LOW_RAM_SIZE :: u64 where "LOW_RAM_SIZE = 0x10000"
definition RAM_BASE_ADDR :: u64 where "RAM_BASE_ADDR = 0x80000000"
definition CLINT_BASE_ADDR :: u64 where "CLINT_BASE_ADDR = 0x02000000"
definition CLINT_SIZE :: u64 where "CLINT_SIZE = 0xc0000"
definition HTIF_BASE_ADDR :: u64 where "HTIF_BASE_ADDR = 0x40008000"
definition PLIC_BASE_ADDR :: u64 where "PLIC_BASE_ADDR = 0x40100000"
definition PLIC_SIZE :: u64 where "PLIC_SIZE = 0x400000"
definition PLIC_HART_BASE :: u32 where "PLIC_HART_BASE = 0x200000"
definition RTC_FREQ :: u64 where "RTC_FREQ = 10000000"
definition RTC_FREQ_DIV :: u64 where "RTC_FREQ_DIV = 16"

lemmas machine_consts [masks] = LOW_RAM_SIZE_def RAM_BASE_ADDR_def CLINT_BASE_ADDR_def CLINT_SIZE_def
  HTIF_BASE_ADDR_def PLIC_BASE_ADDR_def PLIC_SIZE_def PLIC_HART_BASE_def RTC_FREQ_def RTC_FREQ_DIV_def

record fb_device =
  fb_width :: u32
  fb_height :: u32
  fb_stride :: u32
  fb_size :: u32

record machine =
  ram_size :: u64
  rtc_real_time :: bool
  rtc_start_time :: u64
  rtc_calls :: nat                   \<comment> \<open>calls of \<open>clock_gettime\<close> so far\<close>
  timecmp :: u64
  plic_pending_irq :: u32
  plic_served_irq :: u32
  htif_tohost :: u64
  htif_fromhost :: u64
  console :: "u8 list"
  vm_exit :: bool
  virtio_count :: nat
  fb_dev :: "fb_device option"

type_synonym clock = "nat \<Rightarrow> u64 \<times> u64"
type_synonym vm = "machine cpu"

definition upd :: "(machine \<Rightarrow> machine) \<Rightarrow> vm \<Rightarrow> vm" where
  "upd f s = s\<lparr>dev := f (dev s)\<rparr>"

subsection \<open>Real-time clock\<close>

definition rtc_get_real_time :: "clock \<Rightarrow> vm \<Rightarrow> u64 \<times> vm" where
  "rtc_get_real_time T s =
     (let (tv_sec, tv_nsec) = T (rtc_calls (dev s))
      in (tv_sec * RTC_FREQ + tv_nsec div (1000000000 div RTC_FREQ),
          upd (\<lambda>m. m\<lparr>rtc_calls := Suc (rtc_calls m)\<rparr>) s))"

definition rtc_get_time :: "clock \<Rightarrow> vm \<Rightarrow> u64 \<times> vm" where
  "rtc_get_time T s =
     (if rtc_real_time (dev s)
      then let (t, s1) = rtc_get_real_time T s in (t - rtc_start_time (dev s1), s1)
      else (riscv_cpu_get_cycles s div RTC_FREQ_DIV, s))"

subsection \<open>HTIF\<close>

definition htif_read :: "u32 \<Rightarrow> nat \<Rightarrow> vm \<Rightarrow> (u32 \<times> vm) option" where
  "htif_read offset size_log2 s =
     (if size_log2 \<noteq> 2 then None
      else Some (if offset = 0 then ucast (htif_tohost (dev s))
                 else if offset = 4 then ucast (drop_bit 32 (htif_tohost (dev s)))
                 else if offset = 8 then ucast (htif_fromhost (dev s))
                 else if offset = 12 then ucast (drop_bit 32 (htif_fromhost (dev s)))
                 else 0, s))"

definition htif_handle_cmd :: "vm \<Rightarrow> vm" where
  "htif_handle_cmd s =
     (let tohost = htif_tohost (dev s);
          device = ucast (drop_bit 56 tohost) :: u32;
          cmd = ucast (drop_bit 48 tohost AND 0xff) :: u32
      in if tohost = 1 then upd (\<lambda>m. m\<lparr>vm_exit := True\<rparr>) s
         else if device = 1 \<and> cmd = 1
         then upd (\<lambda>m. m\<lparr>console := console m @ [ucast (tohost AND 0xff)], htif_tohost := 0,
                     htif_fromhost := push_bit 56 (ucast device) OR push_bit 48 (ucast cmd)\<rparr>) s
         else if device = 1 \<and> cmd = 0 then upd (\<lambda>m. m\<lparr>htif_tohost := 0\<rparr>) s
         else s)"

text \<open>
  \<open>~0xffffffff\<close> is computed on a 32-bit \<open>unsigned int\<close>: it is 0, and writing the low word of
  a 64-bit register clears its high word.
\<close>

definition NOT_LOW :: u64 where "NOT_LOW = ucast (NOT (0xffffffff :: u32))"

definition htif_write :: "u32 \<Rightarrow> u32 \<Rightarrow> nat \<Rightarrow> vm \<Rightarrow> vm option" where
  "htif_write offset val size_log2 s =
     (if size_log2 \<noteq> 2 then None
      else Some (if offset = 0
                 then upd (\<lambda>m. m\<lparr>htif_tohost := (htif_tohost m AND NOT_LOW) OR ucast val\<rparr>) s
                 else if offset = 4
                 then htif_handle_cmd (upd (\<lambda>m. m\<lparr>htif_tohost :=
                        (htif_tohost m AND 0xffffffff) OR push_bit 32 (ucast val)\<rparr>) s)
                 else if offset = 8
                 then upd (\<lambda>m. m\<lparr>htif_fromhost := (htif_fromhost m AND NOT_LOW) OR ucast val\<rparr>) s
                 else if offset = 12
                 then upd (\<lambda>m. m\<lparr>htif_fromhost :=
                        (htif_fromhost m AND 0xffffffff) OR push_bit 32 (ucast val)\<rparr>) s
                 else s))"

subsection \<open>CLINT\<close>

definition clint_read :: "clock \<Rightarrow> u32 \<Rightarrow> nat \<Rightarrow> vm \<Rightarrow> (u32 \<times> vm) option" where
  "clint_read T offset size_log2 s =
     (if size_log2 \<noteq> 2 then None
      else if offset = 0xbff8 then (let (t, s1) = rtc_get_time T s in Some (ucast t, s1))
      else if offset = 0xbffc then (let (t, s1) = rtc_get_time T s in Some (ucast (drop_bit 32 t), s1))
      else if offset = 0x4000 then Some (ucast (timecmp (dev s)), s)
      else if offset = 0x4004 then Some (ucast (drop_bit 32 (timecmp (dev s))), s)
      else Some (0, s))"

definition clint_write :: "u32 \<Rightarrow> u32 \<Rightarrow> nat \<Rightarrow> vm \<Rightarrow> vm option" where
  "clint_write offset val size_log2 s =
     (if size_log2 \<noteq> 2 then None
      else if offset = 0x4000
      then Some (riscv_cpu_reset_mip
             (upd (\<lambda>m. m\<lparr>timecmp := (timecmp m AND NOT_LOW) OR ucast val\<rparr>) s) MIP_MTIP)
      else if offset = 0x4004
      then Some (riscv_cpu_reset_mip
             (upd (\<lambda>m. m\<lparr>timecmp := (timecmp m AND 0xffffffff) OR push_bit 32 (ucast val)\<rparr>) s) MIP_MTIP)
      else Some s)"

subsection \<open>PLIC\<close>

definition plic_mask :: "vm \<Rightarrow> u32" where
  "plic_mask s = plic_pending_irq (dev s) AND NOT (plic_served_irq (dev s))"

definition plic_update_mip :: "vm \<Rightarrow> vm" where
  "plic_update_mip s =
     (if plic_mask s \<noteq> 0 then riscv_cpu_set_mip s (MIP_MEIP OR MIP_SEIP)
      else riscv_cpu_reset_mip s (MIP_MEIP OR MIP_SEIP))"

definition plic_read :: "u32 \<Rightarrow> nat \<Rightarrow> vm \<Rightarrow> (u32 \<times> vm) option" where
  "plic_read offset size_log2 s =
     (if size_log2 \<noteq> 2 then None
      else if offset = PLIC_HART_BASE then Some (0, s)
      else if offset = PLIC_HART_BASE + 4
      then (if plic_mask s \<noteq> 0
            then let i = ctz32 (plic_mask s);
                     s1 = upd (\<lambda>m. m\<lparr>plic_served_irq := plic_served_irq m OR push_bit i 1\<rparr>) s
                 in Some (of_nat i + 1, plic_update_mip s1)
            else Some (0, s))
      else Some (0, s))"

definition plic_write :: "u32 \<Rightarrow> u32 \<Rightarrow> nat \<Rightarrow> vm \<Rightarrow> vm option" where
  "plic_write offset val size_log2 s =
     (if size_log2 \<noteq> 2 then None
      else if offset = PLIC_HART_BASE + 4
      then (let val1 = val - 1
            in if val1 < 32
               then Some (plic_update_mip (upd (\<lambda>m. m\<lparr>plic_served_irq :=
                      plic_served_irq m AND NOT (push_bit (unat val1) 1)\<rparr>) s))
               else Some s)
      else Some s)"

definition plic_set_irq :: "nat \<Rightarrow> bool \<Rightarrow> vm \<Rightarrow> vm" where
  "plic_set_irq irq_num state s =
     (let m = push_bit (irq_num - 1) (1 :: u32)
      in plic_update_mip (upd (\<lambda>d. d\<lparr>plic_pending_irq :=
           (if state then plic_pending_irq d OR m else plic_pending_irq d AND NOT m)\<rparr>) s))"

subsection \<open>The machine\<close>

text \<open>The callbacks by the number \<open>pr_dev\<close> of the range; a number without a device has none.\<close>

definition DEV_CLINT :: nat where "DEV_CLINT = 0"
definition DEV_PLIC :: nat where "DEV_PLIC = 1"
definition DEV_HTIF :: nat where "DEV_HTIF = 2"

definition machine_ops :: "clock \<Rightarrow> (vm \<Rightarrow> u32 \<Rightarrow> u64) \<Rightarrow> machine dev_ops" where
  "machine_ops T U =
     \<lparr>dv_read = (\<lambda>k off n s. if k = DEV_CLINT then clint_read T off n s
                  else if k = DEV_PLIC then plic_read off n s
                  else if k = DEV_HTIF then htif_read off n s else None),
      dv_write = (\<lambda>k off v n s. if k = DEV_CLINT then clint_write off v n s
                  else if k = DEV_PLIC then plic_write off v n s
                  else if k = DEV_HTIF then htif_write off v n s else None),
      dv_uninit = U\<rparr>"

definition riscv_flush_tlb_write_range :: "hostptr \<Rightarrow> u64 \<Rightarrow> vm \<Rightarrow> vm" where
  "riscv_flush_tlb_write_range ram_addr sz s = riscv_cpu_flush_tlb_write_range_ram ram_addr sz s"

text \<open>In milliseconds; \<open>delay1\<close> is the difference as an \<open>int64_t\<close>.\<close>

definition riscv_machine_get_sleep_duration :: "clock \<Rightarrow> int \<Rightarrow> vm \<Rightarrow> int \<times> vm" where
  "riscv_machine_get_sleep_duration T delay s =
     (let (delay', s') =
        (if riscv_cpu_get_mip s AND MIP_MTIP = 0
         then let (now, s1) = rtc_get_time T s;
                  delay1 = sint (timecmp (dev s1) - now)
              in if delay1 \<le> 0 then (0, riscv_cpu_set_mip s1 MIP_MTIP)
                 else (min delay (delay1 div int (unat (RTC_FREQ div 1000))), s1)
         else (delay, s))
      in (if riscv_cpu_get_power_down s' then delay' else 0, s'))"

definition riscv_machine_interp :: "clock \<Rightarrow> (vm \<Rightarrow> u32 \<Rightarrow> u64) \<Rightarrow> int \<Rightarrow> vm \<Rightarrow> vm option option" where
  "riscv_machine_interp T U max_exec_cycle s = riscv_cpu_interp (machine_ops T U) max_exec_cycle s"

text \<open>The memory map of \<open>riscv_machine_init\<close>, without virtio devices and frame buffer.\<close>

definition machine_map :: "u64 \<Rightarrow> mem_map_t option" where
  "machine_map ram =
     do { (_, m1) \<leftarrow> default_register_ram [] RAM_BASE_ADDR ram 0;
          (_, m2) \<leftarrow> default_register_ram m1 0 LOW_RAM_SIZE 0;
          (_, m3) \<leftarrow> cpu_register_device m2 CLINT_BASE_ADDR CLINT_SIZE DEV_CLINT DEVIO_SIZE32;
          (_, m4) \<leftarrow> cpu_register_device m3 PLIC_BASE_ADDR PLIC_SIZE DEV_PLIC DEVIO_SIZE32;
          (_, m5) \<leftarrow> cpu_register_device m4 HTIF_BASE_ADDR 16 DEV_HTIF DEVIO_SIZE32;
          Some m5 }"

definition zero_machine :: "u64 \<Rightarrow> bool \<Rightarrow> machine" where
  "zero_machine ram real_time =
     \<lparr>ram_size = ram, rtc_real_time = real_time, rtc_start_time = 0, rtc_calls = 0, timecmp = 0,
      plic_pending_irq = 0, plic_served_irq = 0, htif_tohost = 0, htif_fromhost = 0, console = [],
      vm_exit = False, virtio_count = 0, fb_dev = None\<rparr>"

text \<open>\<open>riscv_machine_init\<close> up to \<open>copy_bios\<close>, for \<open>riscv32\<close>.\<close>

definition machine_create :: "clock \<Rightarrow> u64 \<Rightarrow> bool \<Rightarrow> vm option" where
  "machine_create T ram real_time =
     do { mm \<leftarrow> machine_map ram;
          let s = riscv_cpu_init mm (zero_machine ram real_time);
          Some (if real_time
                then let (t, s1) = rtc_get_real_time T s in upd (\<lambda>m. m\<lparr>rtc_start_time := t\<rparr>) s1
                else s) }"

section \<open>The contract of the devices\<close>

text \<open>The devices change only their own state, \<open>mip\<close> and the power-down flag.\<close>

lemma upd_fields [simp]:
  "mem_map (upd f s) = mem_map s" "mip (upd f s) = mip s" "mie (upd f s) = mie s" "dev (upd f s) = f (dev s)"
  "power_down_flag (upd f s) = power_down_flag s" "insn_counter (upd f s) = insn_counter s"
  by (simp_all add: upd_def)

lemma dev_step_upd: "dev_step s t \<Longrightarrow> dev_step s (upd f t)"
  by (simp add: dev_step_def core_def upd_def)

lemma dev_step_mip: "dev_step s t \<Longrightarrow> dev_step s (riscv_cpu_set_mip t m)" "dev_step s t \<Longrightarrow> dev_step s (riscv_cpu_reset_mip t m)"
  by (simp_all add: dev_step_def core_def riscv_cpu_set_mip_def riscv_cpu_reset_mip_def Let_def)

lemma dev_step_refl [simp]: "dev_step s s"
  by (simp add: dev_step_def)

lemma dev_step_plic: "dev_step s t \<Longrightarrow> dev_step s (plic_update_mip t)"
  by (simp add: plic_update_mip_def dev_step_mip)

lemma dev_step_htif: "dev_step s t \<Longrightarrow> dev_step s (htif_handle_cmd t)"
  by (simp add: htif_handle_cmd_def Let_def dev_step_upd)

lemma dev_step_time: "dev_step s (snd (rtc_get_time T s))"
  by (simp add: rtc_get_time_def rtc_get_real_time_def case_prod_beta Let_def dev_step_upd)

lemmas dev_steps = dev_step_upd dev_step_mip dev_step_plic dev_step_htif dev_step_time dev_step_refl

lemma clint_read_step: "\<exists>v s'. clint_read T off 2 s = Some (v, s') \<and> dev_step s s'"
  using dev_step_time [of s T] by (auto simp: clint_read_def case_prod_beta Let_def)

lemma plic_read_step: "\<exists>v s'. plic_read off 2 s = Some (v, s') \<and> dev_step s s'"
  by (auto simp: plic_read_def Let_def dev_steps)

lemma htif_read_step: "\<exists>v s'. htif_read off 2 s = Some (v, s') \<and> dev_step s s'"
  by (auto simp: htif_read_def)

lemma clint_write_step: "\<exists>s'. clint_write off v 2 s = Some s' \<and> dev_step s s'"
  by (auto simp: clint_write_def dev_steps)

lemma plic_write_step: "\<exists>s'. plic_write off v 2 s = Some s' \<and> dev_step s s'"
  by (auto simp: plic_write_def Let_def dev_steps)

lemma htif_write_step: "\<exists>s'. htif_write off v 2 s = Some s' \<and> dev_step s s'"
  by (auto simp: htif_write_def dev_steps)

text \<open>The layout the machine's devices rely on: a known number, and 32-bit accesses only.\<close>

definition plat_inv :: "vm \<Rightarrow> bool" where
  "plat_inv s \<longleftrightarrow> (\<forall>i < length (mem_map s). \<not> pr_is_ram (mem_map s ! i) \<longrightarrow>
     pr_dev (mem_map s ! i) \<le> 2 \<and> pr_devio_flags (mem_map s ! i) = DEVIO_SIZE32)"

lemma plat_inv_layout:
  assumes "plat_inv s" and l: "same_layout (mem_map s) (mem_map s')"
  shows "plat_inv s'"
  using assms(1) same_layout_length [OF l] layout_eqD(4,8,9) [OF same_layout_nth [OF l]]
  by (simp add: plat_inv_def)

lemma size32_only: "bit DEVIO_SIZE32 n \<longleftrightarrow> n = 2"
  using bit_exp_iff [of 2 n, where ?'a = "32 word"] by (auto simp: DEVIO_SIZE32_def)

lemma dev_cases: "k \<le> 2 \<longleftrightarrow> k = DEV_CLINT \<or> k = DEV_PLIC \<or> k = DEV_HTIF"
  by (auto simp: DEV_CLINT_def DEV_PLIC_def DEV_HTIF_def)

interpretation plat: device_bus "machine_ops T U" plat_inv for T U
proof
  show "plat_inv s'" if "plat_inv s" "same_layout (mem_map s) (mem_map s')" "dev s' = dev s" for s s'
    using that(1,2) by (rule plat_inv_layout)
next
  fix s i n off
  assume inv: "plat_inv s" and i: "i < length (mem_map s)" "\<not> pr_is_ram (mem_map s ! i)"
    "bit (pr_devio_flags (mem_map s ! i)) n"
  then have n: "n = 2" and k: "pr_dev (mem_map s ! i) \<le> 2" by (auto simp: plat_inv_def size32_only)
  have inv': "plat_inv s'" if "dev_step s s'" for s'
    using inv that by (auto simp: dev_step_def intro: plat_inv_layout)
  show "\<exists>v s'. dv_read (machine_ops T U) (pr_dev (mem_map s ! i)) off n s = Some (v, s') \<and> dev_step s s' \<and> plat_inv s'"
    using k [unfolded dev_cases] clint_read_step [of T off s] plic_read_step [of off s] htif_read_step [of off s] inv'
    unfolding n by (auto simp: machine_ops_def DEV_CLINT_def DEV_PLIC_def DEV_HTIF_def)
  show "\<exists>s'. dv_write (machine_ops T U) (pr_dev (mem_map s ! i)) off v n s = Some s' \<and> dev_step s s' \<and> plat_inv s'" for v
    using k [unfolded dev_cases] clint_write_step [of off v s] plic_write_step [of off v s] htif_write_step [of off v s] inv'
    unfolding n by (auto simp: machine_ops_def DEV_CLINT_def DEV_PLIC_def DEV_HTIF_def)
qed

end
