(* ===== verification/Fdt.thy ===== *)
theory Fdt
  imports Emu_Prelude
begin

text \<open>
  The builder of flattened device trees of \<open>riscv_machine.c\<close> (\<open>fdt_init\<close> to \<open>fdt_output\<close>), a reader
  of the format as the Devicetree Specification (version 0.3, chapter 5) describes it, and the proof
  that reading what was built gives back the calls of the builder.

  A C string is the list of its bytes without the final NUL. The words of \<open>tab\<close> are stored in
  big-endian order (\<open>cpu_to_be32\<close>), so \<open>tab\<close> is the list of their bytes; its length is a multiple
  of 4, and \<open>tab_len\<close> is a quarter of it. \<open>realloc\<close> is taken to succeed.
\<close>

section \<open>Definitions\<close>

definition FDT_MAGIC :: u32 where "FDT_MAGIC = 0xd00dfeed"
definition FDT_VERSION :: u32 where "FDT_VERSION = 17"
definition FDT_BEGIN_NODE :: u32 where "FDT_BEGIN_NODE = 1"
definition FDT_END_NODE :: u32 where "FDT_END_NODE = 2"
definition FDT_PROP :: u32 where "FDT_PROP = 3"
definition FDT_END :: u32 where "FDT_END = 9"

lemmas fdt_consts [masks] = FDT_MAGIC_def FDT_VERSION_def FDT_BEGIN_NODE_def FDT_END_NODE_def FDT_PROP_def FDT_END_def

record fdt =
  tab :: "u8 list"
  tab_size :: nat                    \<comment> \<open>words allocated\<close>
  open_node_count :: int
  string_table :: "u8 list"
  string_table_size :: nat           \<comment> \<open>bytes allocated\<close>

definition tab_len :: "fdt \<Rightarrow> nat" where
  "tab_len s = length (tab s) div 4"

definition be32 :: "u32 \<Rightarrow> u8 list" where
  "be32 v = [ucast (drop_bit 24 v), ucast (drop_bit 16 v), ucast (drop_bit 8 v), ucast v]"

definition cstr :: "string \<Rightarrow> u8 list" where
  "cstr s = map of_char s"

definition fdt_init :: fdt where
  "fdt_init = \<lparr>tab = [], tab_size = 0, open_node_count = 0, string_table = [], string_table_size = 0\<rparr>"

definition fdt_alloc_len :: "fdt \<Rightarrow> nat \<Rightarrow> fdt" where
  "fdt_alloc_len s len =
     (if len > tab_size s then s\<lparr>tab_size := max len (tab_size s * 3 div 2)\<rparr> else s)"

definition fdt_put32 :: "fdt \<Rightarrow> u32 \<Rightarrow> fdt" where
  "fdt_put32 s v = (let s = fdt_alloc_len s (tab_len s + 1) in s\<lparr>tab := tab s @ be32 v\<rparr>)"

text \<open>\<open>-len & 3\<close> bytes of padding.\<close>

definition pad4 :: "u8 list \<Rightarrow> u8 list" where
  "pad4 d = d @ replicate ((4 - length d mod 4) mod 4) 0"

definition fdt_put_data :: "fdt \<Rightarrow> u8 list \<Rightarrow> fdt" where
  "fdt_put_data s d =
     (let len1 = (length d + 3) div 4; s = fdt_alloc_len s (tab_len s + len1)
      in s\<lparr>tab := tab s @ pad4 d\<rparr>)"

definition fdt_begin_node :: "fdt \<Rightarrow> u8 list \<Rightarrow> fdt" where
  "fdt_begin_node s name =
     (let s = fdt_put32 s FDT_BEGIN_NODE; s = fdt_put_data s (name @ [0])
      in s\<lparr>open_node_count := open_node_count s + 1\<rparr>)"

text \<open>The digits of \<open>printf("%x")\<close>.\<close>

definition hex_digit :: "nat \<Rightarrow> u8" where
  "hex_digit d = (if d < 10 then of_nat (48 + d) else of_nat (87 + d))"

fun hex :: "nat \<Rightarrow> u8 list" where
  "hex n = (if n < 16 then [hex_digit n] else hex (n div 16) @ [hex_digit (n mod 16)])"

declare hex.simps [simp del]

text \<open>\<open>snprintf\<close> keeps at most 255 characters.\<close>

definition fdt_begin_node_num :: "fdt \<Rightarrow> u8 list \<Rightarrow> u64 \<Rightarrow> fdt" where
  "fdt_begin_node_num s name n = fdt_begin_node s (take 255 (name @ cstr ''@'' @ hex (unat n)))"

definition fdt_end_node :: "fdt \<Rightarrow> fdt" where
  "fdt_end_node s =
     (let s = fdt_put32 s FDT_END_NODE in s\<lparr>open_node_count := open_node_count s - 1\<rparr>)"

text \<open>The search of \<open>fdt_get_string_offset\<close>: \<open>rest\<close> is the table from \<open>pos\<close> on.\<close>

fun find_string :: "nat \<Rightarrow> u8 list \<Rightarrow> u8 list \<Rightarrow> nat option" where
  "find_string pos [] name = None"
| "find_string pos (c # cs) name =
     (let w = takeWhile (\<lambda>c. c \<noteq> 0) (c # cs) in
      if w = name then Some pos
      else find_string (pos + length w + 1) (drop (length w + 1) (c # cs)) name)"

definition fdt_get_string_offset :: "fdt \<Rightarrow> u8 list \<Rightarrow> nat \<times> fdt" where
  "fdt_get_string_offset s name =
     (case find_string 0 (string_table s) name of
        Some pos \<Rightarrow> (pos, s)
      | None \<Rightarrow>
          (let name_size = length name + 1;
               pos = length (string_table s);
               new_len = pos + name_size;
               s = (if new_len > string_table_size s
                    then s\<lparr>string_table_size := max new_len (string_table_size s * 3 div 2)\<rparr> else s)
           in (pos, s\<lparr>string_table := string_table s @ name @ [0]\<rparr>)))"

definition fdt_prop :: "fdt \<Rightarrow> u8 list \<Rightarrow> u8 list \<Rightarrow> fdt" where
  "fdt_prop s prop_name data =
     (let s = fdt_put32 s FDT_PROP;
          s = fdt_put32 s (of_nat (length data));
          (pos, s) = fdt_get_string_offset s prop_name;
          s = fdt_put32 s (of_nat pos)
      in fdt_put_data s data)"

definition fdt_prop_tab_u32 :: "fdt \<Rightarrow> u8 list \<Rightarrow> u32 list \<Rightarrow> fdt" where
  "fdt_prop_tab_u32 s prop_name vs =
     (let s = fdt_put32 s FDT_PROP;
          s = fdt_put32 s (of_nat (length vs * 4));
          (pos, s) = fdt_get_string_offset s prop_name;
          s = fdt_put32 s (of_nat pos)
      in foldl fdt_put32 s vs)"

definition fdt_prop_u32 :: "fdt \<Rightarrow> u8 list \<Rightarrow> u32 \<Rightarrow> fdt" where
  "fdt_prop_u32 s prop_name v = fdt_prop_tab_u32 s prop_name [v]"

definition fdt_prop_tab_u64 :: "fdt \<Rightarrow> u8 list \<Rightarrow> u64 \<Rightarrow> fdt" where
  "fdt_prop_tab_u64 s prop_name v0 = fdt_prop_tab_u32 s prop_name [ucast (drop_bit 32 v0), ucast v0]"

definition fdt_prop_tab_u64_2 :: "fdt \<Rightarrow> u8 list \<Rightarrow> u64 \<Rightarrow> u64 \<Rightarrow> fdt" where
  "fdt_prop_tab_u64_2 s prop_name v0 v1 =
     fdt_prop_tab_u32 s prop_name [ucast (drop_bit 32 v0), ucast v0, ucast (drop_bit 32 v1), ucast v1]"

definition fdt_prop_str :: "fdt \<Rightarrow> u8 list \<Rightarrow> u8 list \<Rightarrow> fdt" where
  "fdt_prop_str s prop_name str = fdt_prop s prop_name (str @ [0])"

definition fdt_prop_tab_str :: "fdt \<Rightarrow> u8 list \<Rightarrow> u8 list list \<Rightarrow> fdt" where
  "fdt_prop_tab_str s prop_name strs = fdt_prop s prop_name (concat (map (\<lambda>w. w @ [0]) strs))"

text \<open>
  \<open>fdt_output\<close>: the bytes written to \<open>dst\<close>, whose number is the value returned; \<open>None\<close> is the
  failed assertion. \<open>align8 pos\<close> is the padding of the two loops.
\<close>

definition align8 :: "nat \<Rightarrow> u8 list" where
  "align8 pos = replicate ((8 - pos mod 8) mod 8) 0"

definition fdt_output :: "fdt \<Rightarrow> u8 list option" where
  "fdt_output s =
     (if open_node_count s \<noteq> 0 then None
      else let s = fdt_put32 s FDT_END;
               dt_struct_size = tab_len s * 4;
               dt_strings_size = length (string_table s);
               pos_struct = 40 :: nat;
               pos1 = pos_struct + dt_struct_size;
               pos_rsvmap = pos1 + length (align8 pos1);
               pos_strings = pos_rsvmap + 16;
               pos2 = pos_strings + dt_strings_size;
               totalsize = pos2 + length (align8 pos2);
               header = concat (map be32 [FDT_MAGIC, of_nat totalsize, of_nat pos_struct, of_nat pos_strings,
                 of_nat pos_rsvmap, FDT_VERSION, 16, 0, of_nat dt_strings_size, of_nat dt_struct_size])
           in Some (header @ tab s @ align8 pos1 @ replicate 16 0 @ string_table s @ align8 pos2))"

section \<open>The format\<close>

text \<open>What a blob says: the events of its structure block.\<close>

datatype fdt_token = BeginNode "u8 list" | PropTok "u8 list" "u8 list" | EndNode

definition rd32 :: "u8 list \<Rightarrow> u32 option" where
  "rd32 bs = (case bs of
     b0 # b1 # b2 # b3 # _ \<Rightarrow>
       Some (((push_bit 24 (ucast b0) OR push_bit 16 (ucast b1)) OR push_bit 8 (ucast b2)) OR ucast b3)
   | _ \<Rightarrow> None)"

text \<open>A NUL-terminated string at the start of the bytes.\<close>

definition rd_str :: "u8 list \<Rightarrow> u8 list option" where
  "rd_str bs = (if 0 \<in> set bs then Some (takeWhile (\<lambda>c. c \<noteq> 0) bs) else None)"

definition round4 :: "nat \<Rightarrow> nat" where
  "round4 n = (n + 3) div 4 * 4"

fun read_struct :: "nat \<Rightarrow> u8 list \<Rightarrow> u8 list \<Rightarrow> fdt_token list option" where
  "read_struct 0 strs bs = None"
| "read_struct (Suc fuel) strs bs =
     do { t \<leftarrow> rd32 bs;
          let bs = drop 4 bs;
          if t = FDT_END then Some []
          else if t = FDT_END_NODE
          then do { ts \<leftarrow> read_struct fuel strs bs; Some (EndNode # ts) }
          else if t = FDT_BEGIN_NODE
          then do { n \<leftarrow> rd_str bs;
                    ts \<leftarrow> read_struct fuel strs (drop (round4 (length n + 1)) bs);
                    Some (BeginNode n # ts) }
          else if t = FDT_PROP
          then do { len \<leftarrow> rd32 bs;
                    off \<leftarrow> rd32 (drop 4 bs);
                    n \<leftarrow> rd_str (drop (unat off) strs);
                    let bs = drop 8 bs;
                    if length bs < unat len then None
                    else do { ts \<leftarrow> read_struct fuel strs (drop (round4 (unat len)) bs);
                              Some (PropTok n (take (unat len) bs) # ts) } }
          else None }"

text \<open>A blob: the header, the structure block and the strings block it points to.\<close>

definition read_fdt :: "u8 list \<Rightarrow> fdt_token list option" where
  "read_fdt bs =
     do { magic \<leftarrow> rd32 bs;
          total \<leftarrow> rd32 (drop 4 bs);
          off_struct \<leftarrow> rd32 (drop 8 bs);
          off_strings \<leftarrow> rd32 (drop 12 bs);
          off_rsv \<leftarrow> rd32 (drop 16 bs);
          version \<leftarrow> rd32 (drop 20 bs);
          compat \<leftarrow> rd32 (drop 24 bs);
          size_strings \<leftarrow> rd32 (drop 32 bs);
          size_struct \<leftarrow> rd32 (drop 36 bs);
          if magic = FDT_MAGIC \<and> unat total = length bs \<and> version = 17 \<and> compat = 16 \<and>
             unat off_rsv mod 8 = 0 \<and> take 16 (drop (unat off_rsv) bs) = replicate 16 0
          then read_struct (length bs) (take (unat size_strings) (drop (unat off_strings) bs))
                 (take (unat size_struct) (drop (unat off_struct) bs))
          else None }"

section \<open>The string table\<close>

definition tbl :: "u8 list list \<Rightarrow> u8 list" where
  "tbl ws = concat (map (\<lambda>w. w @ [0]) ws)"

lemma tbl_simps [simp]: "tbl [] = []" "tbl (w # ws) = w @ 0 # tbl ws" "tbl (ws @ us) = tbl ws @ tbl us"
  by (simp_all add: tbl_def)

lemma takeWhile_nul [simp]: "0 \<notin> set w \<Longrightarrow> takeWhile (\<lambda>c. c \<noteq> 0) (w @ 0 # r) = w" for w :: "u8 list"
  by (induction w) auto

lemma find_string_tbl:
  assumes "\<forall>w \<in> set ws. 0 \<notin> set w"
  shows "find_string pos (tbl ws) n =
    (if n \<in> set ws then Some (pos + length (tbl (takeWhile (\<lambda>w. w \<noteq> n) ws))) else None)"
  using assms
proof (induction ws arbitrary: pos)
  case Nil
  then show ?case by simp
next
  case (Cons w ws)
  then have w: "0 \<notin> set w" by simp
  have step: "find_string pos (w @ 0 # tbl ws) n =
      (if w = n then Some pos else find_string (pos + length w + 1) (tbl ws) n)"
    using w by (cases w) (simp_all add: Let_def)
  show ?case using Cons by (auto simp: step)
qed

lemma find_string_snoc:
  assumes "\<forall>w \<in> set ws. 0 \<notin> set w" and "0 \<notin> set u" and "n \<in> set ws"
  shows "find_string 0 (tbl ws @ u @ [0]) n = find_string 0 (tbl ws) n"
proof -
  have "find_string 0 (tbl (ws @ [u])) n = find_string 0 (tbl ws) n"
    using assms by (subst (1 2) find_string_tbl) (auto simp: takeWhile_append1)
  then show ?thesis by simp
qed

lemma drop_tbl:
  "n \<in> set ws \<Longrightarrow> \<exists>r. drop (length (tbl (takeWhile (\<lambda>w. w \<noteq> n) ws))) (tbl ws) = n @ 0 # r"
proof (induction ws)
  case (Cons w ws)
  then show ?case by (cases "w = n") auto
qed simp

lemma length_tbl_takeWhile: "length (tbl (takeWhile P ws)) \<le> length (tbl ws)"
  by (induction ws) auto

lemma rd_str_nul [simp]: "0 \<notin> set n \<Longrightarrow> rd_str (n @ 0 # r) = Some n"
  by (simp add: rd_str_def)

lemma rd_str_find:
  assumes "\<forall>w \<in> set ws. 0 \<notin> set w" and "find_string 0 (tbl ws) n = Some p"
  shows "rd_str (drop p (tbl ws)) = Some n" and "p \<le> length (tbl ws)"
proof -
  have n: "n \<in> set ws" and p: "p = length (tbl (takeWhile (\<lambda>w. w \<noteq> n) ws))"
    using assms by (auto simp: find_string_tbl split: if_splits)
  obtain r where "drop p (tbl ws) = n @ 0 # r" using drop_tbl [OF n] p by blast
  then show "rd_str (drop p (tbl ws)) = Some n" using assms(1) n by simp
  show "p \<le> length (tbl ws)" unfolding p by (rule length_tbl_takeWhile)
qed

section \<open>Words\<close>

lemma length_be32 [simp]: "length (be32 v) = 4"
  by (simp add: be32_def)

lemma rd32_be32 [simp]: "rd32 (be32 v @ r) = Some v"
proof -
  have "(push_bit 24 (ucast (ucast (drop_bit 24 v) :: u8)) OR push_bit 16 (ucast (ucast (drop_bit 16 v) :: u8)) OR
      push_bit 8 (ucast (ucast (drop_bit 8 v) :: u8)) OR ucast (ucast v :: u8)) = v"
  proof (rule bit_word_eqI)
    fix n :: nat assume "n < LENGTH(32)"
    then consider "n < 8" | "8 \<le> n" "n < 16" | "16 \<le> n" "n < 24" | "24 \<le> n" "n < 32" by fastforce
    then show "bit ((push_bit 24 (ucast (ucast (drop_bit 24 v) :: u8)) :: u32) OR push_bit 16 (ucast (ucast (drop_bit 16 v) :: u8)) OR
      push_bit 8 (ucast (ucast (drop_bit 8 v) :: u8)) OR ucast (ucast v :: u8)) n = bit v n"
      by cases (auto simp: bit_simps)
  qed
  then show ?thesis by (simp add: rd32_def be32_def or.assoc)
qed

lemma drop_be32 [simp]: "drop 4 (be32 v @ r) = r" "drop 8 (be32 v @ r) = drop 4 r"
  by (simp_all add: be32_def)

lemma length_pad4: "length (pad4 d) = round4 (length d)"
proof -
  have "n + (4 - n mod 4) mod 4 = (n + 3) div 4 * 4" for n :: nat
  proof -
    define q r where "q = n div 4" and "r = n mod 4"
    then have n: "n = 4 * q + r" and r: "r < 4" by simp_all
    from r consider "r = 0" | "r = 1" | "r = 2" | "r = 3" by linarith
    then show ?thesis unfolding n by cases (simp_all del: add_2_eq_Suc add_2_eq_Suc')
  qed
  then show ?thesis by (simp add: pad4_def round4_def)
qed

lemma round4_le: "round4 n \<le> n + 3"
  by (simp add: round4_def)

lemma drop_pad4 [simp]: "drop (round4 (length d)) (pad4 d @ r) = r"
  by (simp add: length_pad4 [symmetric])

lemma take_pad4 [simp]: "take (length d) (pad4 d @ r) = d"
  by (simp add: pad4_def)

lemma pad4_len [simp]: "length d \<le> length (pad4 d)"
  by (simp add: pad4_def)

lemma dvd_pad4 [simp]: "length (pad4 d) mod 4 = 0"
  by (simp add: length_pad4 round4_def)

section \<open>What the builder has built\<close>

text \<open>The bytes of an event, with the strings table \<open>st\<close>.\<close>

fun tok_bytes :: "u8 list \<Rightarrow> fdt_token \<Rightarrow> u8 list" where
  "tok_bytes st (BeginNode n) = be32 FDT_BEGIN_NODE @ pad4 (n @ [0])"
| "tok_bytes st (PropTok n d) =
     be32 FDT_PROP @ be32 (of_nat (length d)) @ be32 (of_nat (the (find_string 0 st n))) @ pad4 d"
| "tok_bytes st EndNode = be32 FDT_END_NODE"

fun tok_ok :: "u8 list list \<Rightarrow> fdt_token \<Rightarrow> bool" where
  "tok_ok ws (BeginNode n) = (0 \<notin> set n)"
| "tok_ok ws (PropTok n d) = (n \<in> set ws \<and> length d < 2 ^ 32)"
| "tok_ok ws EndNode = True"

fun depth :: "fdt_token list \<Rightarrow> int" where
  "depth [] = 0"
| "depth (BeginNode n # ts) = depth ts + 1"
| "depth (PropTok n d # ts) = depth ts"
| "depth (EndNode # ts) = depth ts - 1"

text \<open>
  The invariant of the builder: its buffers hold the events \<open>ts\<close> and nothing else, its strings
  table the names \<open>ws\<close>, and both are within what has been allocated.
\<close>

definition fdt_inv :: "fdt \<Rightarrow> u8 list list \<Rightarrow> fdt_token list \<Rightarrow> bool" where
  "fdt_inv s ws ts \<longleftrightarrow> string_table s = tbl ws \<and> (\<forall>w \<in> set ws. 0 \<notin> set w) \<and> (\<forall>t \<in> set ts. tok_ok ws t) \<and>
     tab s = concat (map (tok_bytes (tbl ws)) ts) \<and> open_node_count s = depth ts \<and>
     tab_len s \<le> tab_size s \<and> length (string_table s) \<le> string_table_size s"

text \<open>What an event costs in the blob at most, its padding and its name in the strings table included.\<close>

fun tok_cost :: "fdt_token \<Rightarrow> nat" where
  "tok_cost (BeginNode n) = 8 + length n"
| "tok_cost (PropTok n d) = 16 + length n + length d"
| "tok_cost EndNode = 4"

fun name_cost :: "fdt_token \<Rightarrow> nat" where
  "name_cost (PropTok n d) = length n + 1"
| "name_cost t = 0"

definition fdt_rep :: "fdt \<Rightarrow> fdt_token list \<Rightarrow> bool" where
  "fdt_rep s ts \<longleftrightarrow> (\<exists>ws. fdt_inv s ws ts \<and> length (tbl ws) \<le> sum_list (map name_cost ts))"

lemma fdt_repE:
  assumes "fdt_rep s ts"
  obtains ws where "fdt_inv s ws ts" "length (tbl ws) \<le> sum_list (map name_cost ts)"
  using assms by (auto simp: fdt_rep_def)

lemma depth_append [simp]: "depth (ts @ us) = depth ts + depth us"
  by (induction ts rule: depth.induct) auto

lemma length_tok_bytes: "length (tok_bytes st t) mod 4 = 0"
  by (cases t) (simp_all add: mod_add_eq [symmetric])

lemma length_toks: "length (concat (map (tok_bytes st) ts)) mod 4 = 0"
proof (induction ts)
  case (Cons t ts)
  then show ?case using length_tok_bytes [of st t] by (simp add: mod_add_eq [symmetric])
qed simp

text \<open>The basic operations, on the fields.\<close>

text \<open>What a step of the builder appends to \<open>tab\<close>, keeping the rest and the bound.\<close>

definition appends :: "fdt \<Rightarrow> u8 list \<Rightarrow> fdt \<Rightarrow> bool" where
  "appends s d s' \<longleftrightarrow> tab s' = tab s @ d \<and> open_node_count s' = open_node_count s \<and>
     (length (tab s) mod 4 = 0 \<longrightarrow> tab_len s \<le> tab_size s \<longrightarrow> length (tab s') mod 4 = 0 \<and> tab_len s' \<le> tab_size s')"

lemma appends_refl: "appends s [] s"
  by (simp add: appends_def)

lemma appends_trans: "appends s d t \<Longrightarrow> appends t e u \<Longrightarrow> appends s (d @ e) u"
  by (auto simp: appends_def)

lemma put_strings [simp]:
  "string_table (fdt_put32 s v) = string_table s" "string_table_size (fdt_put32 s v) = string_table_size s"
  "string_table (fdt_put_data s d) = string_table s" "string_table_size (fdt_put_data s d) = string_table_size s"
  "string_table (foldl fdt_put32 s vs) = string_table s"
  "string_table_size (foldl fdt_put32 s vs) = string_table_size s"
proof -
  show 1: "string_table (fdt_put32 s v) = string_table s" "string_table_size (fdt_put32 s v) = string_table_size s" for s v
    by (simp_all add: fdt_put32_def fdt_alloc_len_def Let_def)
  show "string_table (fdt_put_data s d) = string_table s" "string_table_size (fdt_put_data s d) = string_table_size s"
    by (simp_all add: fdt_put_data_def fdt_alloc_len_def Let_def)
  show "string_table (foldl fdt_put32 s vs) = string_table s"
    "string_table_size (foldl fdt_put32 s vs) = string_table_size s"
    by (induction vs arbitrary: s) (simp_all add: 1)
qed

lemma appends_put32: "appends s (be32 v) (fdt_put32 s v)"
  by (auto simp: appends_def fdt_put32_def fdt_alloc_len_def Let_def tab_len_def)

lemma appends_put_data: "appends s (pad4 d) (fdt_put_data s d)"
proof -
  have "(n + round4 k) div 4 = n div 4 + (k + 3) div 4" if "n mod 4 = 0" for n k
    using that by (auto simp: round4_def)
  then show ?thesis
    using dvd_pad4 [of d]
    by (auto simp: appends_def fdt_put_data_def fdt_alloc_len_def Let_def tab_len_def length_pad4 mod_add_eq [symmetric])
qed

lemma appends_tab: "appends s (concat (map be32 vs)) (foldl fdt_put32 s vs)"
proof (induction vs rule: rev_induct)
  case Nil
  then show ?case by (simp add: appends_refl)
next
  case (snoc v vs)
  then show ?case using appends_trans [OF snoc appends_put32] by simp
qed

lemma fdt_inv_appends:
  assumes "fdt_inv s ws ts" and "appends s (tok_bytes (tbl ws) t) s'" and "tok_ok ws t"
    and "string_table s' = string_table s" and "string_table_size s' = string_table_size s"
  shows "fdt_inv (s'\<lparr>open_node_count := open_node_count s + depth [t]\<rparr>) ws (ts @ [t])"
  using assms length_toks [of "tbl ws" ts] by (auto simp: fdt_inv_def appends_def tab_len_def)

text \<open>The strings table only grows, and the offsets already written stay valid.\<close>

lemma tok_bytes_snoc:
  assumes "\<forall>w \<in> set ws. 0 \<notin> set w" and "0 \<notin> set u" and "tok_ok ws t"
  shows "tok_bytes (tbl (ws @ [u])) t = tok_bytes (tbl ws) t"
  using assms find_string_snoc [OF assms(1,2)] by (cases t) auto

lemma fdt_inv_string:
  assumes i: "fdt_inv s ws ts" and n: "0 \<notin> set n" and g: "fdt_get_string_offset s n = (pos, s')"
  shows "\<exists>ws'. fdt_inv s' ws' ts \<and> n \<in> set ws' \<and> find_string 0 (tbl ws') n = Some pos \<and> appends s [] s' \<and>
    length (tbl ws') \<le> length (tbl ws) + length n + 1"
proof (cases "n \<in> set ws")
  case True
  then show ?thesis using i g find_string_tbl [of ws 0 n]
    by (auto simp: fdt_inv_def fdt_get_string_offset_def appends_refl intro!: exI [of _ ws])
next
  case False
  have nul: "\<forall>w \<in> set ws. 0 \<notin> set w" and st: "string_table s = tbl ws" using i by (auto simp: fdt_inv_def)
  have none: "find_string 0 (string_table s) n = None" using False nul st by (simp add: find_string_tbl)
  have "takeWhile (\<lambda>w. w \<noteq> n) (ws @ [n]) = ws @ takeWhile (\<lambda>w. w \<noteq> n) [n]"
    using False by (intro takeWhile_append2) auto
  then have f: "find_string 0 (tbl (ws @ [n])) n = Some (length (tbl ws))"
    using nul n by (subst find_string_tbl) auto
  have "\<forall>t \<in> set ts. tok_ok ws t" using i by (simp add: fdt_inv_def)
  then have "map (tok_bytes (tbl (ws @ [n]))) ts = map (tok_bytes (tbl ws)) ts" "\<forall>t \<in> set ts. tok_ok (ws @ [n]) t"
    using tok_bytes_snoc [OF nul n] by (auto elim!: tok_ok.elims)
  then have t: "concat (map (tok_bytes (tbl ws @ n @ [0])) ts) = concat (map (tok_bytes (tbl ws)) ts)"
    "\<forall>t \<in> set ts. tok_ok (ws @ [n]) t" by (simp_all cong: map_cong)
  then have "fdt_inv s' (ws @ [n]) ts"
    using i g none n nul unfolding fdt_inv_def fdt_get_string_offset_def Let_def
    by (auto simp: tab_len_def)
  moreover have "pos = length (tbl ws)" "appends s [] s'"
    using g none st by (auto simp: fdt_get_string_offset_def Let_def appends_def tab_len_def)
  ultimately show ?thesis using f by (auto intro!: exI [of _ "ws @ [n]"])
qed

lemma fdt_rep_init: "fdt_rep fdt_init []"
  by (auto simp: fdt_rep_def fdt_inv_def fdt_init_def tab_len_def intro!: exI [of _ "[]"])

lemma fdt_rep_begin_node:
  assumes "fdt_rep s ts" and "0 \<notin> set n"
  shows "fdt_rep (fdt_begin_node s n) (ts @ [BeginNode n])"
proof -
  obtain ws where i: "fdt_inv s ws ts" and c: "length (tbl ws) \<le> sum_list (map name_cost ts)"
    using assms(1) by (rule fdt_repE)
  let ?s = "fdt_put_data (fdt_put32 s FDT_BEGIN_NODE) (n @ [0])"
  have a: "appends s (be32 FDT_BEGIN_NODE @ pad4 (n @ [0])) ?s"
    by (rule appends_trans [OF appends_put32 appends_put_data])
  then have "open_node_count ?s = open_node_count s" by (simp add: appends_def)
  then show ?thesis
    using fdt_inv_appends [of s ws ts "BeginNode n" ?s] i a assms(2) c
    by (auto simp: fdt_rep_def fdt_begin_node_def Let_def)
qed

lemma fdt_rep_end_node:
  assumes "fdt_rep s ts"
  shows "fdt_rep (fdt_end_node s) (ts @ [EndNode])"
proof -
  obtain ws where i: "fdt_inv s ws ts" and c: "length (tbl ws) \<le> sum_list (map name_cost ts)"
    using assms(1) by (rule fdt_repE)
  have a: "appends s (be32 FDT_END_NODE) (fdt_put32 s FDT_END_NODE)" by (rule appends_put32)
  then have "open_node_count (fdt_put32 s FDT_END_NODE) = open_node_count s" by (simp add: appends_def)
  then show ?thesis
    using fdt_inv_appends [of s ws ts EndNode "fdt_put32 s FDT_END_NODE"] i a c
    by (auto simp: fdt_rep_def fdt_end_node_def Let_def)
qed

text \<open>The two ways to write a property differ in how they write its bytes \<open>d\<close>.\<close>

lemma fdt_rep_prop_gen:
  assumes r: "fdt_rep s ts" and n: "0 \<notin> set n" and d: "length d < 2 ^ 32"
    and w: "\<And>s. appends s (pad4 d) (wr s)" "\<And>s. string_table (wr s) = string_table s"
      "\<And>s. string_table_size (wr s) = string_table_size s"
    and g: "fdt_get_string_offset (fdt_put32 (fdt_put32 s FDT_PROP) (of_nat (length d))) n = (pos, s3)"
  shows "fdt_rep (wr (fdt_put32 s3 (of_nat pos))) (ts @ [PropTok n d])"
proof -
  obtain ws where i: "fdt_inv s ws ts" and c: "length (tbl ws) \<le> sum_list (map name_cost ts)"
    using r by (rule fdt_repE)
  let ?s2 = "fdt_put32 (fdt_put32 s FDT_PROP) (of_nat (length d))"
  have a2: "appends s (be32 FDT_PROP @ be32 (of_nat (length d))) ?s2"
    by (rule appends_trans [OF appends_put32 appends_put32])
  \<comment> \<open>the table could as well be extended first\<close>
  obtain pos' s1 where g1: "fdt_get_string_offset s n = (pos', s1)" by fastforce
  have p: "pos' = pos" "string_table s3 = string_table s1" "string_table_size s3 = string_table_size s1"
    using g g1 by (auto simp: fdt_get_string_offset_def Let_def split: option.splits if_splits)
  obtain ws' where i1: "fdt_inv s1 ws' ts" and n': "n \<in> set ws'" and f: "find_string 0 (tbl ws') n = Some pos"
    and a1: "appends s [] s1" and c': "length (tbl ws') \<le> length (tbl ws) + length n + 1"
    using fdt_inv_string [OF i n g1] p(1) by blast
  have a3: "appends ?s2 [] s3"
    using g by (auto simp: fdt_get_string_offset_def Let_def appends_def tab_len_def split: option.splits)
  let ?s4 = "wr (fdt_put32 s3 (of_nat pos))"
  have a4: "appends s (be32 FDT_PROP @ be32 (of_nat (length d)) @ be32 (of_nat pos) @ pad4 d) ?s4"
    using appends_trans [OF appends_trans [OF a2 a3] appends_trans [OF appends_put32 w(1)]] by simp
  have "tab s1 = tab s" "open_node_count s1 = open_node_count s" using a1 by (auto simp: appends_def)
  then have "appends s1 (be32 FDT_PROP @ be32 (of_nat (length d)) @ be32 (of_nat pos) @ pad4 d) ?s4"
    using a4 i length_toks [of "tbl ws" ts] by (auto simp: appends_def fdt_inv_def)
  then have "appends s1 (tok_bytes (tbl ws') (PropTok n d)) ?s4" using f by simp
  moreover from a4 have "open_node_count s1 = open_node_count ?s4"
    using a1 by (simp add: appends_def)
  then have "?s4\<lparr>open_node_count := open_node_count s1\<rparr> = ?s4" by simp
  ultimately show ?thesis
    using fdt_inv_appends [OF i1, of "PropTok n d" ?s4] n' d p(2,3) w(2,3) c c' by (auto simp: fdt_rep_def)
qed

lemma fdt_rep_prop:
  assumes "fdt_rep s ts" and "0 \<notin> set n" and "length d < 2 ^ 32"
  shows "fdt_rep (fdt_prop s n d) (ts @ [PropTok n d])"
  using fdt_rep_prop_gen [OF assms, of "\<lambda>s. fdt_put_data s d"] appends_put_data
  by (auto simp: fdt_prop_def Let_def split: prod.splits)

lemma length_be32s: "length (concat (map be32 vs)) = 4 * length vs"
  by (induction vs) auto

lemma fdt_rep_prop_tab_u32:
  assumes "fdt_rep s ts" and "0 \<notin> set n" and "4 * length vs < 2 ^ 32"
  shows "fdt_rep (fdt_prop_tab_u32 s n vs) (ts @ [PropTok n (concat (map be32 vs))])"
proof -
  have pad: "pad4 (concat (map be32 vs)) = concat (map be32 vs)" by (simp add: pad4_def length_be32s)
  show ?thesis
    using fdt_rep_prop_gen [OF assms(1,2), of "concat (map be32 vs)" "\<lambda>s. foldl fdt_put32 s vs"]
      assms(3) appends_tab [of _ vs]
    by (auto simp: fdt_prop_tab_u32_def Let_def pad length_be32s mult.commute split: prod.splits)
qed

section \<open>Reading what was built\<close>

lemma read_struct_toks:
  assumes "\<forall>w \<in> set ws. 0 \<notin> set w" and "length (tbl ws) < 2 ^ 32"
  shows "\<forall>t \<in> set ts. tok_ok ws t \<Longrightarrow> length ts < fuel \<Longrightarrow>
    read_struct fuel (tbl ws) (concat (map (tok_bytes (tbl ws)) ts) @ be32 FDT_END) = Some ts"
proof (induction ts arbitrary: fuel)
  case Nil
  then show ?case using rd32_be32 [of FDT_END "[]"] by (cases fuel) auto
next
  case (Cons t ts)
  obtain k where k: "fuel = Suc k" using Cons.prems(2) by (cases fuel) auto
  let ?r = "concat (map (tok_bytes (tbl ws)) ts) @ be32 FDT_END"
  have ih: "read_struct k (tbl ws) ?r = Some ts" using Cons k by simp
  have distinct: "FDT_BEGIN_NODE \<noteq> FDT_END" "FDT_PROP \<noteq> FDT_END" "FDT_END_NODE \<noteq> FDT_END"
    "FDT_BEGIN_NODE \<noteq> FDT_END_NODE" "FDT_PROP \<noteq> FDT_END_NODE" "FDT_PROP \<noteq> FDT_BEGIN_NODE"
    by (simp_all add: fdt_consts)
  show ?case
  proof (cases t)
    case (BeginNode n)
    then have n: "0 \<notin> set n" using Cons.prems by simp
    have r: "rd_str (pad4 (n @ [0]) @ ?r) = Some n" using n by (simp add: pad4_def)
    have d: "drop (round4 (length n + 1)) (pad4 (n @ [0]) @ ?r) = ?r" using drop_pad4 [of "n @ [0]" ?r] by simp
    show ?thesis using ih distinct r d by (simp add: k BeginNode Let_def)
  next
    case (PropTok n d)
    then have n: "n \<in> set ws" and len: "length d < 2 ^ 32" using Cons.prems by simp_all
    obtain p where p: "find_string 0 (tbl ws) n = Some p" using n assms(1) by (simp add: find_string_tbl)
    note s = rd_str_find [OF assms(1) p]
    have u: "unat (of_nat p :: u32) = p" "unat (of_nat (length d) :: u32) = length d"
      using s(2) assms(2) len by (simp_all add: unat_of_nat)
    have t: "take (length d) (pad4 d @ ?r) = d" "drop (round4 (length d)) (pad4 d @ ?r) = ?r"
      "\<not> length (pad4 d @ ?r) < length d"
    proof -
      show "take (length d) (pad4 d @ ?r) = d" by (rule take_pad4)
      show "drop (round4 (length d)) (pad4 d @ ?r) = ?r" by (rule drop_pad4)
      show "\<not> length (pad4 d @ ?r) < length d" using pad4_len [of d] unfolding length_append by linarith
    qed
    show ?thesis using ih distinct s(1) t by (simp add: k PropTok Let_def p u del: take_append drop_append length_append)
  next
    case EndNode
    then show ?thesis using ih distinct by (simp add: k Let_def)
  qed
qed

lemma tok_bytes_len: "4 \<le> length (tok_bytes st t)"
  by (cases t) simp_all

lemma toks_len: "4 * length ts \<le> length (concat (map (tok_bytes st) ts))"
proof (induction ts)
  case (Cons t ts)
  then show ?case using tok_bytes_len [of st t] by simp
qed simp

lemma tok_cost_bound: "length (tok_bytes st t) + name_cost t \<le> tok_cost t"
  by (cases t) (auto simp: length_pad4 intro: order_trans [OF round4_le])

lemma toks_cost:
  "length (concat (map (tok_bytes st) ts)) + sum_list (map name_cost ts) \<le> sum_list (map tok_cost ts)"
proof (induction ts)
  case (Cons t ts)
  then show ?case using tok_cost_bound [of st t] by simp
qed simp

lemma align8_pos: "(pos + length (align8 pos)) mod 8 = 0"
proof -
  have "pos mod 8 < 8" by simp
  then have "(8 - pos mod 8) mod 8 = (if pos mod 8 = 0 then 0 else 8 - pos mod 8)" by simp
  moreover have "(pos + (8 - pos mod 8)) mod 8 = 0" if "pos mod 8 \<noteq> 0"
  proof -
    have "pos + (8 - pos mod 8) = 8 * (pos div 8) + 8" using minus_mod_eq_mult_div [of pos 8] by simp
    then show ?thesis by simp
  qed
  ultimately show ?thesis by (simp add: align8_def)
qed

lemma read_fdt_output:
  assumes "fdt_rep s ts" and "depth ts = 0"
  shows "\<exists>bs. fdt_output s = Some bs \<and> (length bs < 2 ^ 31 \<longrightarrow> read_fdt bs = Some ts) \<and>
    length bs \<le> 74 + sum_list (map tok_cost ts)"
proof -
  obtain ws where i: "fdt_inv s ws ts" and c: "length (tbl ws) \<le> sum_list (map name_cost ts)"
    using assms(1) by (rule fdt_repE)
  then have nul: "\<forall>w \<in> set ws. 0 \<notin> set w" and ok: "\<forall>t \<in> set ts. tok_ok ws t" and st: "string_table s = tbl ws"
    by (auto simp: fdt_inv_def)
  let ?b = "concat (map (tok_bytes (tbl ws)) ts)"
  have tab: "tab (fdt_put32 s FDT_END) = ?b @ be32 FDT_END"
    using appends_put32 [of s FDT_END] i by (simp add: appends_def fdt_inv_def)
  have len: "tab_len (fdt_put32 s FDT_END) * 4 = length ?b + 4"
    using tab length_toks [of "tbl ws" ts] by (auto simp: tab_len_def)
  define pos1 where "pos1 = 44 + length ?b"
  define pos2 where "pos2 = pos1 + length (align8 pos1)"
  define pos3 where "pos3 = pos2 + 16 + length (tbl ws)"
  define total where "total = pos3 + length (align8 pos3)"
  define bs where "bs = concat (map be32 [FDT_MAGIC, of_nat total, 40, of_nat (pos2 + 16), of_nat pos2,
     FDT_VERSION, 16, 0, of_nat (length (tbl ws)), of_nat (length ?b + 4)]) @
     ?b @ be32 FDT_END @ align8 pos1 @ replicate 16 0 @ tbl ws @ align8 pos3"
  have out: "fdt_output s = Some bs"
    using i assms(2) unfolding fdt_output_def Let_def
    by (simp add: fdt_inv_def len tab bs_def pos1_def pos2_def pos3_def total_def add.assoc)
  have l: "length bs = total"
    by (simp add: bs_def pos1_def pos2_def pos3_def total_def)
  have "read_fdt bs = Some ts" if "length bs < 2 ^ 31"
  proof -
    have b: "total < 2 ^ 31" using that l by simp
    have le: "pos2 + 16 \<le> total" "length (tbl ws) \<le> total" "length ?b + 4 \<le> total"
      by (simp_all add: total_def pos3_def pos2_def pos1_def)
    have u: "unat (of_nat n :: u32) = n" if "n \<le> total" for n using that b by (simp add: unat_of_nat)
    have d1: "take (length ?b + 4) (drop 40 bs) = ?b @ be32 FDT_END"
      by (simp add: bs_def)
    have "drop pos2 bs = replicate 16 0 @ tbl ws @ align8 pos3"
      by (simp add: bs_def pos2_def pos1_def)
    then have d2: "take 16 (drop pos2 bs) = replicate 16 0" and
      d3: "take (length (tbl ws)) (drop (pos2 + 16) bs) = tbl ws"
      by (simp_all add: drop_drop [symmetric] add.commute [of _ 16] del: drop_drop)
    have fuel: "length ts < length bs" using toks_len [of ts "tbl ws"] l
      by (simp add: total_def pos3_def pos2_def pos1_def)
    have sl: "length (tbl ws) < 2 ^ 32" using le(2) b by simp
    note rs = read_struct_toks [OF nul sl ok fuel]
    have "rd32 bs = Some FDT_MAGIC" "rd32 (drop 4 bs) = Some (of_nat total)" "rd32 (drop 8 bs) = Some 40"
      "rd32 (drop 12 bs) = Some (of_nat (pos2 + 16))" "rd32 (drop 16 bs) = Some (of_nat pos2)"
      "rd32 (drop 20 bs) = Some FDT_VERSION" "rd32 (drop 24 bs) = Some 16"
      "rd32 (drop 32 bs) = Some (of_nat (length (tbl ws)))" "rd32 (drop 36 bs) = Some (of_nat (length ?b + 4))"
      by (simp_all add: bs_def del: of_nat_add)
    moreover have "pos2 mod 8 = 0" unfolding pos2_def by (rule align8_pos)
    ultimately show ?thesis
      using rs d1 d2 d3 le l by (simp add: read_fdt_def Let_def u FDT_VERSION_def del: of_nat_add)
  qed
  moreover have "length bs \<le> 74 + sum_list (map tok_cost ts)"
  proof -
    have "length ?b + sum_list (map name_cost ts) \<le> sum_list (map tok_cost ts)" by (rule toks_cost)
    moreover have "length (align8 pos1) \<le> 7" "length (align8 pos3) \<le> 7" by (simp_all add: align8_def)
    moreover have "length bs = 60 + length ?b + length (tbl ws) + length (align8 pos1) + length (align8 pos3)"
      unfolding l total_def by (subst pos3_def, simp add: pos2_def) (simp add: pos1_def)
    ultimately show ?thesis using c by linarith
  qed
  ultimately show ?thesis using out by blast
qed

end
