(* ===== verification/Riscv_Boot.thy ===== *)
theory Riscv_Boot
  imports Riscv_Machine Fdt
begin

text \<open>
  How the machine is set up to boot: the device tree \<open>riscv_build_fdt\<close> writes, the images and the
  reset code \<open>copy_bios\<close> puts into RAM, and \<open>riscv_machine_init\<close> as a whole. Lengths are C \<open>int\<close>s:
  they are below \<open>2 ^ 31\<close>.
\<close>

section \<open>The device tree\<close>

text \<open>\<open>riscv_build_fdt\<close> in the order of its code; \<open>intc_phandle\<close> is 1 and \<open>plic_phandle\<close> is 2.\<close>

definition riscv_cpu_get_misa :: "'d cpu \<Rightarrow> u32" where
  "riscv_cpu_get_misa s = misa s"

definition isa_string :: "u32 \<Rightarrow> u8 list" where
  "isa_string m = cstr ''rv32'' @ map (\<lambda>i. of_nat (97 + i)) (filter (\<lambda>i. bit m i) [0..<26])"

definition fdt_cpus :: "vm \<Rightarrow> fdt \<Rightarrow> fdt" where
  "fdt_cpus m s =
     (let s = fdt_begin_node s (cstr ''cpus'');
          s = fdt_prop_u32 s (cstr ''#address-cells'') 1;
          s = fdt_prop_u32 s (cstr ''#size-cells'') 0;
          s = fdt_prop_u32 s (cstr ''timebase-frequency'') (ucast RTC_FREQ);
          s = fdt_begin_node_num s (cstr ''cpu'') 0;
          s = fdt_prop_str s (cstr ''device_type'') (cstr ''cpu'');
          s = fdt_prop_u32 s (cstr ''reg'') 0;
          s = fdt_prop_str s (cstr ''status'') (cstr ''okay'');
          s = fdt_prop_str s (cstr ''compatible'') (cstr ''riscv'');
          s = fdt_prop_str s (cstr ''riscv,isa'') (isa_string (riscv_cpu_get_misa m));
          s = fdt_prop_str s (cstr ''mmu-type'') (cstr ''riscv,sv32'');
          s = fdt_prop_u32 s (cstr ''clock-frequency'') 2000000000;
          s = fdt_begin_node s (cstr ''interrupt-controller'');
          s = fdt_prop_u32 s (cstr ''#interrupt-cells'') 1;
          s = fdt_prop s (cstr ''interrupt-controller'') [];
          s = fdt_prop_str s (cstr ''compatible'') (cstr ''riscv,cpu-intc'');
          s = fdt_prop_u32 s (cstr ''phandle'') 1;
          s = fdt_end_node s;
          s = fdt_end_node s
      in fdt_end_node s)"

definition fdt_memory :: "vm \<Rightarrow> fdt \<Rightarrow> fdt" where
  "fdt_memory m s =
     (let s = fdt_begin_node_num s (cstr ''memory'') RAM_BASE_ADDR;
          s = fdt_prop_str s (cstr ''device_type'') (cstr ''memory'');
          s = fdt_prop_tab_u32 s (cstr ''reg'')
                [ucast (drop_bit 32 RAM_BASE_ADDR), ucast RAM_BASE_ADDR,
                 ucast (drop_bit 32 (ram_size (dev m))), ucast (ram_size (dev m))];
          s = fdt_end_node s;
          s = fdt_begin_node s (cstr ''htif'');
          s = fdt_prop_str s (cstr ''compatible'') (cstr ''ucb,htif0'')
      in fdt_end_node s)"

definition fdt_clint_plic :: "fdt \<Rightarrow> fdt" where
  "fdt_clint_plic s =
     (let s = fdt_begin_node_num s (cstr ''clint'') CLINT_BASE_ADDR;
          s = fdt_prop_str s (cstr ''compatible'') (cstr ''riscv,clint0'');
          s = fdt_prop_tab_u32 s (cstr ''interrupts-extended'') [1, 3, 1, 7];
          s = fdt_prop_tab_u64_2 s (cstr ''reg'') CLINT_BASE_ADDR CLINT_SIZE;
          s = fdt_end_node s;
          s = fdt_begin_node_num s (cstr ''plic'') PLIC_BASE_ADDR;
          s = fdt_prop_u32 s (cstr ''#interrupt-cells'') 1;
          s = fdt_prop s (cstr ''interrupt-controller'') [];
          s = fdt_prop_str s (cstr ''compatible'') (cstr ''riscv,plic0'');
          s = fdt_prop_u32 s (cstr ''riscv,ndev'') 31;
          s = fdt_prop_tab_u64_2 s (cstr ''reg'') PLIC_BASE_ADDR PLIC_SIZE;
          s = fdt_prop_tab_u32 s (cstr ''interrupts-extended'') [1, 9, 1, 11];
          s = fdt_prop_u32 s (cstr ''phandle'') 2
      in fdt_end_node s)"

definition VIRTIO_BASE_ADDR :: u64 where "VIRTIO_BASE_ADDR = 0x40010000"
definition VIRTIO_SIZE :: u64 where "VIRTIO_SIZE = 0x1000"
definition VIRTIO_IRQ :: nat where "VIRTIO_IRQ = 1"
definition FRAMEBUFFER_BASE_ADDR :: u64 where "FRAMEBUFFER_BASE_ADDR = 0x41000000"

definition fdt_virtio :: "fdt \<Rightarrow> nat \<Rightarrow> fdt" where
  "fdt_virtio s i =
     (let addr = VIRTIO_BASE_ADDR + of_nat i * VIRTIO_SIZE;
          s = fdt_begin_node_num s (cstr ''virtio'') addr;
          s = fdt_prop_str s (cstr ''compatible'') (cstr ''virtio,mmio'');
          s = fdt_prop_tab_u64_2 s (cstr ''reg'') addr VIRTIO_SIZE;
          s = fdt_prop_tab_u32 s (cstr ''interrupts-extended'') [2, of_nat (VIRTIO_IRQ + i)]
      in fdt_end_node s)"

definition fdt_framebuffer :: "fb_device \<Rightarrow> fdt \<Rightarrow> fdt" where
  "fdt_framebuffer fb s =
     (let s = fdt_begin_node_num s (cstr ''framebuffer'') FRAMEBUFFER_BASE_ADDR;
          s = fdt_prop_str s (cstr ''compatible'') (cstr ''simple-framebuffer'');
          s = fdt_prop_tab_u64_2 s (cstr ''reg'') FRAMEBUFFER_BASE_ADDR (scast (fb_size fb));
          s = fdt_prop_u32 s (cstr ''width'') (fb_width fb);
          s = fdt_prop_u32 s (cstr ''height'') (fb_height fb);
          s = fdt_prop_u32 s (cstr ''stride'') (fb_stride fb);
          s = fdt_prop_str s (cstr ''format'') (cstr ''a8r8g8b8'')
      in fdt_end_node s)"

definition fdt_soc :: "vm \<Rightarrow> fdt \<Rightarrow> fdt" where
  "fdt_soc m s =
     (let s = fdt_begin_node s (cstr ''soc'');
          s = fdt_prop_u32 s (cstr ''#address-cells'') 2;
          s = fdt_prop_u32 s (cstr ''#size-cells'') 2;
          s = fdt_prop_tab_str s (cstr ''compatible'') [cstr ''ucbbar,riscvemu-bar-soc'', cstr ''simple-bus''];
          s = fdt_prop s (cstr ''ranges'') [];
          s = fdt_clint_plic s;
          s = foldl fdt_virtio s [0..<virtio_count (dev m)];
          s = (case fb_dev (dev m) of None \<Rightarrow> s | Some fb \<Rightarrow> fdt_framebuffer fb s)
      in fdt_end_node s)"

definition fdt_chosen :: "u64 \<Rightarrow> u64 \<Rightarrow> u64 \<Rightarrow> u64 \<Rightarrow> u8 list option \<Rightarrow> fdt \<Rightarrow> fdt" where
  "fdt_chosen kernel_start kernel_size initrd_start initrd_size cmd_line s =
     (let s = fdt_begin_node s (cstr ''chosen'');
          s = fdt_prop_str s (cstr ''bootargs'') (case cmd_line of None \<Rightarrow> [] | Some c \<Rightarrow> c);
          s = (if kernel_size > 0
               then fdt_prop_tab_u64 (fdt_prop_tab_u64 s (cstr ''riscv,kernel-start'') kernel_start)
                      (cstr ''riscv,kernel-end'') (kernel_start + kernel_size) else s);
          s = (if initrd_size > 0
               then fdt_prop_tab_u64 (fdt_prop_tab_u64 s (cstr ''linux,initrd-start'') initrd_start)
                      (cstr ''linux,initrd-end'') (initrd_start + initrd_size) else s)
      in fdt_end_node s)"

definition riscv_build_fdt :: "vm \<Rightarrow> u64 \<Rightarrow> u64 \<Rightarrow> u64 \<Rightarrow> u64 \<Rightarrow> u8 list option \<Rightarrow> u8 list option" where
  "riscv_build_fdt m kernel_start kernel_size initrd_start initrd_size cmd_line =
     (let s = fdt_init;
          s = fdt_begin_node s [];
          s = fdt_prop_u32 s (cstr ''#address-cells'') 2;
          s = fdt_prop_u32 s (cstr ''#size-cells'') 2;
          s = fdt_prop_str s (cstr ''compatible'') (cstr ''ucbbar,riscvemu-bar_dev'');
          s = fdt_prop_str s (cstr ''model'') (cstr ''ucbbar,riscvemu-bare'');
          s = fdt_cpus m s;
          s = fdt_memory m s;
          s = fdt_soc m s;
          s = fdt_chosen kernel_start kernel_size initrd_start initrd_size cmd_line s;
          s = fdt_end_node s
      in fdt_output s)"

section \<open>The images in RAM\<close>

text \<open>
  \<open>None\<close> is a write outside a RAM buffer (or a failed assertion), \<open>Some ERR\<close> an error message and
  \<open>exit(1)\<close>. The checks of the kernel and initrd size come after the copies.
\<close>

definition ptr_add :: "hostptr \<Rightarrow> int \<Rightarrow> hostptr" where
  "ptr_add p n = (fst p, snd p + n)"

definition kernel_base_of :: "u8 list \<Rightarrow> u8 list \<Rightarrow> u32" where
  "kernel_base_of buf kern =
     (if kern = [] then 0
      else let align = push_bit 20 4 in (of_nat (length buf) + align - 1) AND NOT (align - 1))"

definition initrd_base_of :: "u64 \<Rightarrow> u8 list \<Rightarrow> u32" where
  "initrd_base_of ram initrd =
     (if initrd = [] then 0
      else let base = ucast (ram div 2) :: u32 in if base > push_bit 20 128 then push_bit 20 128 else base)"

definition reset_code :: "u32 \<Rightarrow> u32 list" where
  "reset_code fdt_addr =
     [0x297 + 0x80000000 - 0x1000, 0x597, 0x58593 + push_bit 20 (fdt_addr - 4), 0xf1402573, 0x00028067]"

definition copy_bios :: "vm \<Rightarrow> u8 list \<Rightarrow> u8 list \<Rightarrow> u8 list \<Rightarrow> u8 list option \<Rightarrow> vm res option" where
  "copy_bios s buf kern initrd cmd_line =
     (if of_nat (length buf) > ram_size (dev s) then Some ERR
      else do {
        (rp, mm) \<leftarrow> phys_mem_get_ram_ptr (mem_map s) RAM_BASE_ADDR True;
        ram_ptr \<leftarrow> rp;
        mm \<leftarrow> host_write_bytes mm ram_ptr buf;
        let kernel_base = kernel_base_of buf kern;
        mm \<leftarrow> (if kern = [] then Some mm else host_write_bytes mm (ptr_add ram_ptr (uint kernel_base)) kern);
        if kern \<noteq> [] \<and> ucast (of_nat (length kern) + kernel_base :: u32) > ram_size (dev s) then Some ERR
        else do {
          let initrd_base = initrd_base_of (ram_size (dev s)) initrd;
          mm \<leftarrow> (if initrd = [] then Some mm else host_write_bytes mm (ptr_add ram_ptr (uint initrd_base)) initrd);
          if initrd \<noteq> [] \<and> ucast (of_nat (length initrd) + initrd_base :: u32) > ram_size (dev s) then Some ERR
          else do {
            (rp, mm) \<leftarrow> phys_mem_get_ram_ptr mm 0 True;
            low_ptr \<leftarrow> rp;
            let fdt_addr = (0x1000 + 8 * 8 :: u32);
            dtb \<leftarrow> riscv_build_fdt s (ucast (0x80000000 + kernel_base)) (of_nat (length kern))
                     (ucast (0x80000000 + initrd_base)) (of_nat (length initrd)) cmd_line;
            mm \<leftarrow> host_write_bytes mm (ptr_add low_ptr (uint fdt_addr)) dtb;
            mm \<leftarrow> host_write_bytes mm (ptr_add low_ptr 0x1000)
                     (concat (map (\<lambda>w. le_bytes 4 (unat w)) (reset_code fdt_addr)));
            Some (OK (s\<lparr>mem_map := mm\<rparr>)) } } })"

text \<open>The parameters of \<open>riscv_machine_init\<close> that the modelled part of it uses.\<close>

record vm_params =
  p_ram_size :: u64
  p_rtc_real_time :: bool
  p_bios :: "u8 list"
  p_kernel :: "u8 list"
  p_initrd :: "u8 list"
  p_cmdline :: "u8 list option"

definition riscv_machine_init :: "clock \<Rightarrow> vm_params \<Rightarrow> vm res option" where
  "riscv_machine_init T p =
     do { s \<leftarrow> machine_create T (p_ram_size p) (p_rtc_real_time p);
          copy_bios s (p_bios p) (p_kernel p) (p_initrd p) (p_cmdline p) }"

end
