(* ===== verification/Riscv_Boot_Props.thy ===== *)
theory Riscv_Boot_Props
  imports Riscv_Boot
begin

text \<open>
  What the guest finds when it boots: the device tree in its memory, read with the reader of \<open>Fdt\<close>,
  is the tree \<open>riscv_dt\<close>; the images are where the tree says they are; and the conditions under which
  \<open>copy_bios\<close> stays inside the RAM buffers.
\<close>

section \<open>The tree\<close>

datatype dt_node = Node (dt_name: "u8 list") (dt_props: "(u8 list \<times> u8 list) list") (dt_children: "dt_node list")

fun flatten :: "dt_node \<Rightarrow> fdt_token list" where
  "flatten (Node n ps cs) =
     BeginNode n # map (\<lambda>(k, v). PropTok k v) ps @ concat (map flatten cs) @ [EndNode]"

definition cells :: "string \<Rightarrow> u32 list \<Rightarrow> u8 list \<times> u8 list" where
  "cells n vs = (cstr n, concat (map be32 vs))"

definition strv :: "string \<Rightarrow> u8 list \<Rightarrow> u8 list \<times> u8 list" where
  "strv n v = (cstr n, v @ [0])"

definition flag :: "string \<Rightarrow> u8 list \<times> u8 list" where
  "flag n = (cstr n, [])"

text \<open>A 64-bit value as two cells.\<close>

definition cells2 :: "u64 \<Rightarrow> u32 list" where
  "cells2 v = [ucast (drop_bit 32 v), ucast v]"

definition unit_name :: "string \<Rightarrow> u64 \<Rightarrow> u8 list" where
  "unit_name n a = cstr n @ cstr ''@'' @ hex (unat a)"

definition cpus_dt :: "u32 \<Rightarrow> dt_node" where
  "cpus_dt isa = Node (cstr ''cpus'')
     [cells ''#address-cells'' [1], cells ''#size-cells'' [0], cells ''timebase-frequency'' [10000000]]
     [Node (unit_name ''cpu'' 0)
        [strv ''device_type'' (cstr ''cpu''), cells ''reg'' [0], strv ''status'' (cstr ''okay''),
         strv ''compatible'' (cstr ''riscv''), strv ''riscv,isa'' (isa_string isa),
         strv ''mmu-type'' (cstr ''riscv,sv32''), cells ''clock-frequency'' [2000000000]]
        [Node (cstr ''interrupt-controller'')
           [cells ''#interrupt-cells'' [1], flag ''interrupt-controller'',
            strv ''compatible'' (cstr ''riscv,cpu-intc''), cells ''phandle'' [1]] []]]"

definition memory_dt :: "u64 \<Rightarrow> dt_node" where
  "memory_dt ram = Node (unit_name ''memory'' RAM_BASE_ADDR)
     [strv ''device_type'' (cstr ''memory''), cells ''reg'' (cells2 RAM_BASE_ADDR @ cells2 ram)] []"

definition htif_dt :: dt_node where
  "htif_dt = Node (cstr ''htif'') [strv ''compatible'' (cstr ''ucb,htif0'')] []"

definition clint_dt :: dt_node where
  "clint_dt = Node (unit_name ''clint'' CLINT_BASE_ADDR)
     [strv ''compatible'' (cstr ''riscv,clint0''), cells ''interrupts-extended'' [1, 3, 1, 7],
      cells ''reg'' (cells2 CLINT_BASE_ADDR @ cells2 CLINT_SIZE)] []"

definition plic_dt :: dt_node where
  "plic_dt = Node (unit_name ''plic'' PLIC_BASE_ADDR)
     [cells ''#interrupt-cells'' [1], flag ''interrupt-controller'', strv ''compatible'' (cstr ''riscv,plic0''),
      cells ''riscv,ndev'' [31], cells ''reg'' (cells2 PLIC_BASE_ADDR @ cells2 PLIC_SIZE),
      cells ''interrupts-extended'' [1, 9, 1, 11], cells ''phandle'' [2]] []"

definition virtio_dt :: "nat \<Rightarrow> dt_node" where
  "virtio_dt i = (let a = VIRTIO_BASE_ADDR + of_nat i * VIRTIO_SIZE in
     Node (unit_name ''virtio'' a)
       [strv ''compatible'' (cstr ''virtio,mmio''), cells ''reg'' (cells2 a @ cells2 VIRTIO_SIZE),
        cells ''interrupts-extended'' [2, of_nat (VIRTIO_IRQ + i)]] [])"

definition fb_dt :: "fb_device \<Rightarrow> dt_node" where
  "fb_dt fb = Node (unit_name ''framebuffer'' FRAMEBUFFER_BASE_ADDR)
     [strv ''compatible'' (cstr ''simple-framebuffer''),
      cells ''reg'' (cells2 FRAMEBUFFER_BASE_ADDR @ cells2 (scast (fb_size fb))),
      cells ''width'' [fb_width fb], cells ''height'' [fb_height fb], cells ''stride'' [fb_stride fb],
      strv ''format'' (cstr ''a8r8g8b8'')] []"

definition soc_dt :: "nat \<Rightarrow> fb_device option \<Rightarrow> dt_node" where
  "soc_dt n fb = Node (cstr ''soc'')
     [cells ''#address-cells'' [2], cells ''#size-cells'' [2],
      (cstr ''compatible'', cstr ''ucbbar,riscvemu-bar-soc'' @ [0] @ cstr ''simple-bus'' @ [0]), flag ''ranges'']
     ([clint_dt, plic_dt] @ map virtio_dt [0..<n] @ (case fb of None \<Rightarrow> [] | Some f \<Rightarrow> [fb_dt f]))"

text \<open>The \<open>chosen\<close> node: the command line, and where the kernel and the initrd start and end.\<close>

definition chosen_dt :: "u64 \<Rightarrow> u64 \<Rightarrow> u64 \<Rightarrow> u64 \<Rightarrow> u8 list \<Rightarrow> dt_node" where
  "chosen_dt ks kz is iz cmd = Node (cstr ''chosen'')
     ([strv ''bootargs'' cmd] @
      (if kz > 0 then [cells ''riscv,kernel-start'' (cells2 ks), cells ''riscv,kernel-end'' (cells2 (ks + kz))] else []) @
      (if iz > 0 then [cells ''linux,initrd-start'' (cells2 is), cells ''linux,initrd-end'' (cells2 (is + iz))] else [])) []"

definition riscv_dt :: "vm \<Rightarrow> u64 \<Rightarrow> u64 \<Rightarrow> u64 \<Rightarrow> u64 \<Rightarrow> u8 list \<Rightarrow> dt_node" where
  "riscv_dt m ks kz is iz cmd = Node []
     [cells ''#address-cells'' [2], cells ''#size-cells'' [2], strv ''compatible'' (cstr ''ucbbar,riscvemu-bar_dev''),
      strv ''model'' (cstr ''ucbbar,riscvemu-bare'')]
     [cpus_dt (misa m), memory_dt (ram_size (dev m)), htif_dt,
      soc_dt (virtio_count (dev m)) (fb_dev (dev m)), chosen_dt ks kz is iz cmd]"

section \<open>The builder builds the tree\<close>

lemma hex_digit_nonzero: "d < 16 \<Longrightarrow> hex_digit d \<noteq> 0"
proof -
  assume d: "d < 16"
  have "(of_nat k :: u8) \<noteq> 0" if "0 < k" "k < 256" for k
  proof -
    have "unat (of_nat k :: u8) = k" using that by (simp add: unat_of_nat)
    then show ?thesis using that(1) by auto
  qed
  then show ?thesis using d by (simp add: hex_digit_def del: of_nat_add)
qed

lemma hex_nul: "0 \<notin> set (hex n)"
proof (induction n rule: hex.induct)
  case (1 n)
  show ?case
  proof (cases "n < 16")
    case True
    then show ?thesis using hex_digit_nonzero [of n] by (subst hex.simps) simp
  next
    case False
    then show ?thesis using 1 hex_digit_nonzero [of "n mod 16"] by (subst hex.simps) auto
  qed
qed

lemma hex_length: "n < 16 ^ k \<Longrightarrow> 0 < k \<Longrightarrow> length (hex n) \<le> k"
proof (induction k arbitrary: n)
  case (Suc k)
  show ?case
  proof (cases "n < 16")
    case True
    then show ?thesis by (subst hex.simps) simp
  next
    case False
    then have "k \<noteq> 0" using Suc.prems(1) by (cases k) auto
    then have "length (hex (n div 16)) \<le> k" using Suc.prems(1) by (intro Suc.IH) auto
    then show ?thesis using False by (subst hex.simps) simp
  qed
qed simp

lemma hex_u64: "length (hex (unat (a :: u64))) \<le> 16"
  using hex_length [of "unat a" 16] unsigned_less [of a, where ?'a = nat] by simp

text \<open>The operations, as rules that compute the list of events.\<close>

lemma rep_root: "fdt_rep s ts \<Longrightarrow> fdt_rep (fdt_begin_node s []) (ts @ [BeginNode []])"
  by (simp add: fdt_rep_begin_node)

lemma rep_node_num:
  assumes "0 \<notin> set (cstr n)" and "length (cstr n) \<le> 200" and "fdt_rep s ts"
  shows "fdt_rep (fdt_begin_node_num s (cstr n) a) (ts @ [BeginNode (unit_name n a)])"
proof -
  have "take 255 (unit_name n a) = unit_name n a"
    using assms(2) hex_u64 [of a] by (simp add: unit_name_def cstr_def)
  moreover have "0 \<notin> set (unit_name n a)" using assms(1) hex_nul by (auto simp: unit_name_def cstr_def)
  ultimately show ?thesis using assms(3) fdt_rep_begin_node
    by (simp add: fdt_begin_node_num_def unit_name_def)
qed

lemma rep_str: "0 \<notin> set (cstr n) \<Longrightarrow> length v < 2 ^ 31 \<Longrightarrow> fdt_rep s ts \<Longrightarrow>
    fdt_rep (fdt_prop_str s (cstr n) v) (ts @ [PropTok (cstr n) (v @ [0])])"
  unfolding fdt_prop_str_def by (rule fdt_rep_prop) simp_all

lemma rep_tab: "0 \<notin> set (cstr n) \<Longrightarrow> length vs < 2 ^ 30 \<Longrightarrow> fdt_rep s ts \<Longrightarrow>
    fdt_rep (fdt_prop_tab_u32 s (cstr n) vs) (ts @ [PropTok (cstr n) (concat (map be32 vs))])"
  by (rule fdt_rep_prop_tab_u32) simp_all

lemma rep_flag: "0 \<notin> set (cstr n) \<Longrightarrow> fdt_rep s ts \<Longrightarrow> fdt_rep (fdt_prop s (cstr n) []) (ts @ [PropTok (cstr n) []])"
  by (rule fdt_rep_prop) simp_all

lemma rep_strs: "0 \<notin> set (cstr n) \<Longrightarrow> length (concat (map (\<lambda>w. w @ [0]) vs)) < 2 ^ 32 \<Longrightarrow> fdt_rep s ts \<Longrightarrow>
    fdt_rep (fdt_prop_tab_str s (cstr n) vs) (ts @ [PropTok (cstr n) (concat (map (\<lambda>w. w @ [0]) vs))])"
  unfolding fdt_prop_tab_str_def by (rule fdt_rep_prop)

lemmas reps = fdt_rep_end_node rep_root rep_node_num rep_str rep_tab rep_flag rep_strs

lemmas props_as_tab = fdt_prop_u32_def fdt_prop_tab_u64_def fdt_prop_tab_u64_2_def

lemma rep_eq: "fdt_rep s us \<Longrightarrow> us = vs \<Longrightarrow> fdt_rep s vs"
  by simp

lemmas dt_defs = cells_def strv_def flag_def cells2_def

lemma isa_string_length: "length (isa_string m) < 2 ^ 31"
proof -
  have "length (filter (\<lambda>i. bit m i) [0..<26]) \<le> length [0..<26]" by (rule length_filter_le)
  then show ?thesis by (simp add: isa_string_def cstr_def)
qed

text \<open>
  Each part appends the events of its subtree: the rules compute the list, and the definition of the
  subtree confirms it.
\<close>

lemma rep_cpus:
  assumes "fdt_rep s ts"
  shows "fdt_rep (fdt_cpus m s) (ts @ flatten (cpus_dt (misa m)))"
  unfolding fdt_cpus_def Let_def props_as_tab riscv_cpu_get_misa_def
  by (rule rep_eq, (rule assms reps fdt_rep_begin_node isa_string_length | simp add: cstr_def; fail)+)
    (simp add: cpus_dt_def dt_defs RTC_FREQ_def)

lemma rep_memory:
  assumes "fdt_rep s ts"
  shows "fdt_rep (fdt_memory m s) (ts @ flatten (memory_dt (ram_size (dev m))) @ flatten htif_dt)"
  unfolding fdt_memory_def Let_def props_as_tab
  by (rule rep_eq, (rule assms reps fdt_rep_begin_node | simp add: cstr_def; fail)+)
    (simp add: memory_dt_def htif_dt_def dt_defs)

lemma rep_clint_plic:
  assumes "fdt_rep s ts"
  shows "fdt_rep (fdt_clint_plic s) (ts @ flatten clint_dt @ flatten plic_dt)"
  unfolding fdt_clint_plic_def Let_def props_as_tab
  by (rule rep_eq, (rule assms reps fdt_rep_begin_node | simp add: cstr_def; fail)+)
    (simp add: clint_dt_def plic_dt_def dt_defs)

lemma rep_virtio:
  assumes "fdt_rep s ts"
  shows "fdt_rep (fdt_virtio s i) (ts @ flatten (virtio_dt i))"
  unfolding fdt_virtio_def Let_def props_as_tab
  by (rule rep_eq, (rule assms reps fdt_rep_begin_node | simp add: cstr_def; fail)+)
    (simp add: virtio_dt_def dt_defs Let_def)

lemma rep_virtios:
  "fdt_rep s ts \<Longrightarrow> fdt_rep (foldl fdt_virtio s is) (ts @ concat (map (\<lambda>i. flatten (virtio_dt i)) is))"
proof (induction "is" arbitrary: s ts)
  case (Cons i "is")
  then show ?case using Cons.IH [OF rep_virtio [OF Cons.prems, of i]] by simp
qed simp

lemma rep_framebuffer:
  assumes "fdt_rep s ts"
  shows "fdt_rep (fdt_framebuffer fb s) (ts @ flatten (fb_dt fb))"
  unfolding fdt_framebuffer_def Let_def props_as_tab
  by (rule rep_eq, (rule assms reps fdt_rep_begin_node | simp add: cstr_def; fail)+)
    (simp add: fb_dt_def dt_defs)

lemma rep_fb_option:
  assumes "fdt_rep s ts"
  shows "fdt_rep (case fb of None \<Rightarrow> s | Some f \<Rightarrow> fdt_framebuffer f s)
    (ts @ concat (map flatten (case fb of None \<Rightarrow> [] | Some f \<Rightarrow> [fb_dt f])))"
  using assms rep_framebuffer [OF assms] by (auto split: option.split simp del: flatten.simps)

lemma rep_soc:
  assumes "fdt_rep s ts"
  shows "fdt_rep (fdt_soc m s) (ts @ flatten (soc_dt (virtio_count (dev m)) (fb_dev (dev m))))"
  unfolding fdt_soc_def Let_def props_as_tab
  by (rule rep_eq, (rule assms reps fdt_rep_begin_node rep_clint_plic rep_virtios rep_fb_option | simp add: cstr_def; fail)+)
    (simp add: soc_dt_def dt_defs comp_def)

lemma rep_chosen:
  assumes "fdt_rep s ts" and "length (case cmd of None \<Rightarrow> [] | Some c \<Rightarrow> c) < 2 ^ 31"
  shows "fdt_rep (fdt_chosen ks kz is iz cmd s)
    (ts @ flatten (chosen_dt ks kz is iz (case cmd of None \<Rightarrow> [] | Some c \<Rightarrow> c)))"
proof -
  have two: "fdt_rep (if b then fdt_prop_tab_u64 (fdt_prop_tab_u64 s (cstr n) v) (cstr n') v' else s)
      (ts @ (if b then [PropTok (cstr n) (concat (map be32 (cells2 v))), PropTok (cstr n') (concat (map be32 (cells2 v')))] else []))"
    if "0 \<notin> set (cstr n)" "0 \<notin> set (cstr n')" "fdt_rep s ts" for b n v n' v' s ts
    using that rep_tab [OF that(2) _ rep_tab [OF that(1) _ that(3), of "cells2 v"], of "cells2 v'"]
    by (simp add: fdt_prop_tab_u64_def cells2_def)
  show ?thesis
    unfolding fdt_chosen_def Let_def
    by (rule rep_eq, (rule two assms reps fdt_rep_begin_node | simp add: cstr_def; fail)+)
      (simp add: chosen_dt_def dt_defs)
qed

lemma depth_props: "depth (map (\<lambda>(k, v). PropTok k v) ps) = 0"
  by (induction ps) auto

lemma depth_flatten: "depth (flatten d) = 0"
proof (induction d rule: flatten.induct)
  case (1 n ps cs)
  then have "depth (concat (map flatten cs)) = 0" by (induction cs) auto
  then show ?case by (simp add: depth_props)
qed

lemma rep_riscv_dt:
  assumes "length (case cmd of None \<Rightarrow> [] | Some c \<Rightarrow> c) < 2 ^ 31"
  shows "\<exists>s. riscv_build_fdt m ks kz is iz cmd = fdt_output s \<and>
    fdt_rep s (flatten (riscv_dt m ks kz is iz (case cmd of None \<Rightarrow> [] | Some c \<Rightarrow> c)))"
  unfolding riscv_build_fdt_def Let_def props_as_tab
  apply (intro exI conjI)
   apply (rule refl)
  by (rule rep_eq, (rule assms fdt_rep_init reps rep_cpus rep_memory rep_soc rep_chosen | simp add: cstr_def; fail)+)
    (simp add: riscv_dt_def dt_defs del: flatten.simps, simp)

section \<open>Its size\<close>

definition dt_cost :: "dt_node \<Rightarrow> nat" where
  "dt_cost d = sum_list (map tok_cost (flatten d))"

lemma dt_cost_Node: "dt_cost (Node n ps cs) =
    12 + length n + sum_list (map (\<lambda>(k, v). 16 + length k + length v) ps) + sum_list (map dt_cost cs)"
proof -
  have "sum_list (map tok_cost (map (\<lambda>(k, v). PropTok k v) ps)) = sum_list (map (\<lambda>(k, v). 16 + length k + length v) ps)"
    by (induction ps) auto
  moreover have "sum_list (map tok_cost (concat (map flatten cs))) = sum_list (map dt_cost cs)"
    by (induction cs) (auto simp: dt_cost_def)
  ultimately show ?thesis unfolding dt_cost_def by simp
qed

lemma unit_name_length: "length (unit_name n a) \<le> length n + 17"
  using hex_u64 [of a] by (simp add: unit_name_def cstr_def)

lemma cstr_length [simp]: "length (cstr n) = length n"
  by (simp add: cstr_def)

lemma cost_cpus: "dt_cost (cpus_dt m) \<le> 700"
proof -
  have "length (isa_string m) \<le> 30"
    using length_filter_le [of "\<lambda>i. bit m i" "[0..<26]"] by (simp add: isa_string_def)
  then show ?thesis using unit_name_length [of "''cpu''" 0]
    by (simp add: cpus_dt_def dt_cost_Node dt_defs)
qed

lemma cost_plain: "dt_cost (memory_dt r) + dt_cost htif_dt + dt_cost clint_dt + dt_cost plic_dt \<le> 800"
  using unit_name_length [of "''memory''" RAM_BASE_ADDR] unit_name_length [of "''clint''" CLINT_BASE_ADDR]
    unit_name_length [of "''plic''" PLIC_BASE_ADDR]
  by (simp add: memory_dt_def htif_dt_def clint_dt_def plic_dt_def dt_cost_Node dt_defs)

lemma cost_virtio: "dt_cost (virtio_dt i) \<le> 160"
  using unit_name_length [of "''virtio''" "VIRTIO_BASE_ADDR + of_nat i * VIRTIO_SIZE"]
  by (simp add: virtio_dt_def dt_cost_Node dt_defs Let_def)

lemma cost_fb: "dt_cost (fb_dt fb) \<le> 300"
  using unit_name_length [of "''framebuffer''" FRAMEBUFFER_BASE_ADDR]
  by (simp add: fb_dt_def dt_cost_Node dt_defs)

lemma cost_virtios: "sum_list (map (\<lambda>i. dt_cost (virtio_dt i)) is) \<le> 160 * length is"
proof (induction "is")
  case (Cons i "is")
  then show ?case using cost_virtio [of i] by simp
qed simp

lemma cost_soc: "dt_cost (soc_dt n fb) \<le> 550 + dt_cost clint_dt + dt_cost plic_dt + 160 * n"
  using cost_virtios [of "[0..<n]"] cost_fb [of "the fb"]
  by (cases fb) (simp_all add: soc_dt_def dt_cost_Node dt_defs comp_def)

lemma cost_chosen: "dt_cost (chosen_dt ks kz is iz cmd) \<le> 300 + length cmd"
  by (simp add: chosen_dt_def dt_cost_Node dt_defs)

lemma cost_riscv: "dt_cost (riscv_dt m ks kz is iz cmd) \<le> 2600 + 160 * virtio_count (dev m) + length cmd"
  using cost_cpus [of "misa m"] cost_plain [of "ram_size (dev m)"] cost_soc [of "virtio_count (dev m)" "fb_dev (dev m)"]
    cost_chosen [of ks kz "is" iz cmd]
  by (simp add: riscv_dt_def dt_cost_Node dt_defs)

lemma device_tree_read:
  assumes "length (case cmd of None \<Rightarrow> [] | Some c \<Rightarrow> c) < 2 ^ 30" and "virtio_count (dev m) \<le> 1000"
  shows "\<exists>bs. riscv_build_fdt m ks kz is iz cmd = Some bs \<and>
    read_fdt bs = Some (flatten (riscv_dt m ks kz is iz (case cmd of None \<Rightarrow> [] | Some c \<Rightarrow> c))) \<and>
    length bs \<le> 2700 + 160 * virtio_count (dev m) + length (case cmd of None \<Rightarrow> [] | Some c \<Rightarrow> c)"
proof -
  let ?c = "case cmd of None \<Rightarrow> [] | Some c \<Rightarrow> c"
  have "length ?c < 2 ^ 31" using assms(1) by simp
  then obtain s where b: "riscv_build_fdt m ks kz is iz cmd = fdt_output s"
    and r: "fdt_rep s (flatten (riscv_dt m ks kz is iz ?c))" using rep_riscv_dt [of cmd] by metis
  obtain bs where bs: "fdt_output s = Some bs" and
    rd: "length bs < 2 ^ 31 \<Longrightarrow> read_fdt bs = Some (flatten (riscv_dt m ks kz is iz ?c))" and
    l: "length bs \<le> 74 + dt_cost (riscv_dt m ks kz is iz ?c)"
    using read_fdt_output [OF r depth_flatten] unfolding dt_cost_def by blast
  have len: "length bs \<le> 2700 + 160 * virtio_count (dev m) + length ?c"
    using l cost_riscv [of m ks kz "is" iz ?c] by linarith
  then have "length bs < 2 ^ 31" using assms by simp
  then show ?thesis using b bs rd len by simp
qed

text \<open>
  C5. The device tree: for any machine with at most 1000 virtio devices and any command line of less
  than a gigabyte, \<open>riscv_build_fdt\<close> builds a blob that a reader of the format understands as exactly the
  tree \<open>riscv_dt\<close> (the CPU with its ISA string and timer frequency, the RAM with its size, the CLINT,
  PLIC and virtio devices with their addresses, sizes and interrupts, the frame buffer, and the
  command line and image addresses in \<open>chosen\<close>), and its size is bounded.
\<close>

theorem device_tree_roundtrip:
  assumes "length (case cmd of None \<Rightarrow> [] | Some c \<Rightarrow> c) < 2 ^ 30" and "virtio_count (dev m) \<le> 1000"
  shows "\<exists>bs. riscv_build_fdt m ks kz is iz cmd = Some bs \<and>
    read_fdt bs = Some (flatten (riscv_dt m ks kz is iz (case cmd of None \<Rightarrow> [] | Some c \<Rightarrow> c))) \<and>
    length bs \<le> 2700 + 160 * virtio_count (dev m) + length (case cmd of None \<Rightarrow> [] | Some c \<Rightarrow> c)"
  by (rule device_tree_read [OF assms])

section \<open>The images\<close>

text \<open>The RAM ranges of a new machine: the main RAM is range 0 and the low RAM range 1, without dirty bits.\<close>

definition plain_ram :: "phys_range \<Rightarrow> u64 \<Rightarrow> u64 \<Rightarrow> bool" where
  "plain_ram pr a n \<longleftrightarrow> pr_is_ram pr \<and> pr_addr pr = a \<and> pr_size pr = n \<and> pr_org_size pr = n \<and> pr_dirty_bits pr = None"

definition boot_map :: "mem_map_t \<Rightarrow> u64 \<Rightarrow> bool" where
  "boot_map mm ram \<longleftrightarrow> 1 < length mm \<and> plain_ram (mm ! 0) RAM_BASE_ADDR ram \<and> plain_ram (mm ! 1) 0 LOW_RAM_SIZE"

lemma machine_map_boot: "machine_map ram = Some mm \<Longrightarrow> boot_map mm ram"
  by (auto simp: machine_map_def default_register_ram_def register_ram_entry_def cpu_register_device_def
      Let_def DEVRAM_FLAG_DIRTY_BITS_def DEVRAM_FLAG_DISABLED_def bind_Some_conv boot_map_def plain_ram_def split: if_splits)

lemma machine_create_boot: "machine_create T ram rt = Some s \<Longrightarrow> boot_map (mem_map s) ram \<and> ram_size (dev s) = ram \<and> virtio_count (dev s) = 0"
  using machine_map_boot
  by (auto simp: machine_create_def rtc_get_real_time_def Let_def case_prod_beta riscv_cpu_init_def tlb_init_def
      zero_cpu_def zero_machine_def bind_Some_conv split: if_splits)

lemma plain_ram_layout: "layout a = layout b \<Longrightarrow> plain_ram a x n = plain_ram b x n"
  using layout_eqD [of a b] by (simp add: plain_ram_def)

lemma boot_map_layout: "same_layout mm mm' \<Longrightarrow> boot_map mm ram \<Longrightarrow> boot_map mm' ram"
  using same_layout_length [of mm mm'] plain_ram_layout [OF same_layout_nth [of mm mm' 0]]
    plain_ram_layout [OF same_layout_nth [of mm mm' 1]] by (cases mm) (auto simp: boot_map_def)

lemma boot_map_host_ok:
  assumes "boot_map mm ram"
  shows "host_ok mm (0, int k) n \<longleftrightarrow> k + n \<le> unat ram"
    and "host_ok mm (1, off) n \<longleftrightarrow> 0 \<le> off \<and> off + int n \<le> 0x10000"
proof -
  have u: "uint ram = int (unat ram)" and low: "uint LOW_RAM_SIZE = 0x10000" by (simp_all add: LOW_RAM_SIZE_def)
  have r: "pr_is_ram (mm ! 0)" "pr_org_size (mm ! 0) = ram" "pr_is_ram (mm ! 1)" "pr_org_size (mm ! 1) = LOW_RAM_SIZE"
    "1 < length mm" using assms by (auto simp: boot_map_def plain_ram_def)
  then have "0 < length mm" by linarith
  with r show "host_ok mm (0, int k) n \<longleftrightarrow> k + n \<le> unat ram"
    unfolding host_ok_def fst_conv snd_conv r(2) u of_nat_add [symmetric] of_nat_le_iff by simp
  show "host_ok mm (1, off) n \<longleftrightarrow> 0 \<le> off \<and> off + int n \<le> 0x10000"
    unfolding host_ok_def fst_conv snd_conv r(4) low using r by simp
qed

lemma boot_map_ptr:
  assumes "boot_map mm ram" and "ram \<noteq> 0" and "ram < 2 ^ 63"
  shows "phys_mem_get_ram_ptr mm RAM_BASE_ADDR True = Some (Some (0, 0), mm)"
    and "phys_mem_get_ram_ptr mm 0 True = Some (Some (1, 0), mm)"
proof -
  obtain a b r where mm: "mm = a # b # r" and ab: "plain_ram a RAM_BASE_ADDR ram" "plain_ram b 0 LOW_RAM_SIZE"
    using assms(1) by (cases mm rule: remdups_adj.cases) (auto simp: boot_map_def)
  have ram: "RAM_BASE_ADDR < RAM_BASE_ADDR + ram"
  proof -
    have lt: "unat ram < 2 ^ 63" using assms(3) by (simp add: word_less_nat_alt)
    have "unat (0x80000000 + ram) = 0x80000000 + unat ram" using lt by (simp add: unat_word_ariths)
    moreover have "0 < unat ram" using assms(2) by (simp add: unat_gt_0)
    ultimately show ?thesis by (simp add: RAM_BASE_ADDR_def word_less_nat_alt)
  qed
  have "get_phys_mem_range mm RAM_BASE_ADDR = Some 0"
    using ab(1) ram by (simp add: get_phys_mem_range_def mm in_range_def plain_ram_def)
  then show "phys_mem_get_ram_ptr mm RAM_BASE_ADDR True = Some (Some (0, 0), mm)"
    using ab(1) by (simp add: phys_mem_get_ram_ptr_def mm plain_ram_def phys_mem_set_dirty_bit_def Let_def)
  have "\<not> in_range a 0" "in_range b 0"
    using ab by (simp_all add: in_range_def plain_ram_def RAM_BASE_ADDR_def LOW_RAM_SIZE_def)
  then have "get_phys_mem_range mm 0 = Some 1"
    by (simp add: get_phys_mem_range_def mm)
  then show "phys_mem_get_ram_ptr mm 0 True = Some (Some (1, 0), mm)"
    using ab(2) by (simp add: phys_mem_get_ram_ptr_def mm plain_ram_def phys_mem_set_dirty_bit_def Let_def)
qed

definition bytes_at :: "mem_map_t \<Rightarrow> nat \<Rightarrow> nat \<Rightarrow> nat \<Rightarrow> u8 list" where
  "bytes_at mm r off n = read_bytes (pr_phys_mem (mm ! r)) off n"

text \<open>Writing at an offset that fits: what is there afterwards, and elsewhere.\<close>

lemma write_fits:
  assumes "host_ok mm (r, int off) (length bs)"
  shows "\<exists>mm'. host_write_bytes mm (r, int off) bs = Some mm' \<and> same_layout mm mm' \<and>
    bytes_at mm' r off (length bs) = bs \<and>
    (\<forall>r' q k. r' \<noteq> r \<or> off + length bs \<le> q \<or> q + k \<le> off \<longrightarrow> bytes_at mm' r' q k = bytes_at mm r' q k)"
proof -
  let ?mm = "mm[r := (mm ! r)\<lparr>pr_phys_mem := write_bytes (pr_phys_mem (mm ! r)) off bs\<rparr>]"
  have w: "host_write_bytes mm (r, int off) bs = Some ?mm" using assms by (simp add: host_write_bytes_def)
  have r: "r < length mm" using assms by (simp add: host_ok_def)
  have "bytes_at ?mm r off (length bs) = bs" using r by (simp add: bytes_at_def read_write_bytes_same)
  moreover have "bytes_at ?mm r' q k = bytes_at mm r' q k"
    if "r' \<noteq> r \<or> off + length bs \<le> q \<or> q + k \<le> off" for r' q k
  proof (cases "r' = r")
    case True
    with that r show ?thesis by (simp add: bytes_at_def read_write_bytes_disjoint)
  qed (simp add: bytes_at_def)
  ultimately show ?thesis using w host_write_bytes_layout [OF w] by blast
qed

text \<open>An optional image, at \<open>base\<close>.\<close>

definition fits :: "u64 \<Rightarrow> u32 \<Rightarrow> u8 list \<Rightarrow> bool" where
  "fits ram base img \<longleftrightarrow> img = [] \<or> unat base + length img \<le> unat ram"

lemma image_write:
  assumes b: "boot_map mm ram" and f: "fits ram base img"
  shows "\<exists>mm'. (if img = [] then Some mm else host_write_bytes mm (ptr_add (0, 0) (uint base)) img) = Some mm' \<and>
    same_layout mm mm' \<and> bytes_at mm' 0 (unat base) (length img) = img \<and>
    (\<forall>r' q k. r' \<noteq> 0 \<or> img = [] \<or> unat base + length img \<le> q \<or> q + k \<le> unat base \<longrightarrow>
      bytes_at mm' r' q k = bytes_at mm r' q k)"
proof (cases "img = []")
  case True
  then show ?thesis by (simp add: bytes_at_def read_bytes_def)
next
  case False
  then have "host_ok mm (0, int (unat base)) (length img)"
    using f unfolding boot_map_host_ok(1) [OF b] by (simp add: fits_def)
  moreover have "ptr_add (0, 0) (uint base) = (0, int (unat base))" by (simp add: ptr_add_def)
  ultimately show ?thesis using write_fits [of mm 0 "unat base" img] False by auto
qed

text \<open>The size check after the copy does not fail for an image that fits.\<close>

lemma check_passes:
  assumes "fits ram base img" and "img \<noteq> []"
  shows "\<not> ucast (of_nat (length img) + base :: u32) > ram"
proof -
  have "unat (of_nat (length img) + base) \<le> length img + unat base"
  proof -
    have "unat (of_nat (length img) + base) \<le> unat (of_nat (length img) :: u32) + unat base"
      unfolding unat_word_ariths by (rule mod_less_eq_dividend)
    also have "unat (of_nat (length img) :: u32) \<le> length img" unfolding unat_of_nat by (rule mod_less_eq_dividend)
    finally show ?thesis by simp
  qed
  moreover have "unat (ucast (of_nat (length img) + base :: u32) :: u64) = unat (of_nat (length img) + base)"
    by (rule unat_ucast_u64)
  moreover have "unat base + length img \<le> unat ram"
    using assms by (simp add: fits_def)
  ultimately show ?thesis by (simp add: word_less_nat_alt)
qed

lemma copy_bios_ok:
  assumes c: "machine_create T ram rt = Some s" and ram: "ram < 2 ^ 63" "ram \<noteq> 0"
    and len: "length buf < 2 ^ 31" "length buf \<le> unat ram"
    and k: "fits ram (kernel_base_of buf kern) kern" and i: "fits ram (initrd_base_of ram initrd) initrd"
    and cmd: "length (case cmd of None \<Rightarrow> [] | Some c \<Rightarrow> c) \<le> 50000"
  shows "\<exists>s' n. copy_bios s buf kern initrd cmd = Some (OK s') \<and>
    same_layout (mem_map s) (mem_map s') \<and> s' = s\<lparr>mem_map := mem_map s'\<rparr> \<and>
    bytes_at (mem_map s') 1 0x1000 20 = concat (map (\<lambda>w. le_bytes 4 (unat w)) (reset_code 0x1040)) \<and>
    read_fdt (bytes_at (mem_map s') 1 0x1040 n) =
      Some (flatten (riscv_dt s (ucast (0x80000000 + kernel_base_of buf kern)) (of_nat (length kern))
        (ucast (0x80000000 + initrd_base_of ram initrd)) (of_nat (length initrd)) (case cmd of None \<Rightarrow> [] | Some c \<Rightarrow> c))) \<and>
    bytes_at (mem_map s') 0 (unat (initrd_base_of ram initrd)) (length initrd) = initrd \<and>
    (initrd = [] \<or> unat (kernel_base_of buf kern) + length kern \<le> unat (initrd_base_of ram initrd) \<longrightarrow>
       bytes_at (mem_map s') 0 (unat (kernel_base_of buf kern)) (length kern) = kern) \<and>
    ((initrd = [] \<or> length buf \<le> unat (initrd_base_of ram initrd)) \<and>
     (kern = [] \<or> length buf \<le> unat (kernel_base_of buf kern)) \<longrightarrow> bytes_at (mem_map s') 0 0 (length buf) = buf)"
proof -
  let ?kb = "kernel_base_of buf kern" and ?ib = "initrd_base_of ram initrd"
  let ?c = "case cmd of None \<Rightarrow> [] | Some c \<Rightarrow> c"
  note boot = machine_create_boot [OF c]
  then have b0: "boot_map (mem_map s) ram" and rs: "ram_size (dev s) = ram" and vc: "virtio_count (dev s) = 0" by simp_all
  note ptr0 = boot_map_ptr(1) [OF b0 ram(2,1)]
  have "host_ok (mem_map s) (0, int 0) (length buf)" using len(2) unfolding boot_map_host_ok(1) [OF b0] by simp
  from write_fits [OF this] obtain m1 where w1: "host_write_bytes (mem_map s) (0, 0) buf = Some m1"
    and l1: "same_layout (mem_map s) m1" and c1: "bytes_at m1 0 0 (length buf) = buf" by auto
  have b1: "boot_map m1 ram" using l1 b0 by (rule boot_map_layout)
  obtain m2 where w2: "(if kern = [] then Some m1 else host_write_bytes m1 (ptr_add (0, 0) (uint ?kb)) kern) = Some m2"
    and l2: "same_layout m1 m2" and c2: "bytes_at m2 0 (unat ?kb) (length kern) = kern"
    and f2: "\<And>r' q k. r' \<noteq> 0 \<or> kern = [] \<or> unat ?kb + length kern \<le> q \<or> q + k \<le> unat ?kb \<Longrightarrow> bytes_at m2 r' q k = bytes_at m1 r' q k"
    using image_write [OF b1 k] by blast
  have b2: "boot_map m2 ram" using l2 b1 by (rule boot_map_layout)
  obtain m3 where w3: "(if initrd = [] then Some m2 else host_write_bytes m2 (ptr_add (0, 0) (uint ?ib)) initrd) = Some m3"
    and l3: "same_layout m2 m3" and c3: "bytes_at m3 0 (unat ?ib) (length initrd) = initrd"
    and f3: "\<And>r' q k. r' \<noteq> 0 \<or> initrd = [] \<or> unat ?ib + length initrd \<le> q \<or> q + k \<le> unat ?ib \<Longrightarrow> bytes_at m3 r' q k = bytes_at m2 r' q k"
    using image_write [OF b2 i] by blast
  have b3: "boot_map m3 ram" using l3 b2 by (rule boot_map_layout)
  note ptr1 = boot_map_ptr(2) [OF b3 ram(2,1)]
  let ?args = "riscv_build_fdt s (ucast (0x80000000 + ?kb)) (of_nat (length kern)) (ucast (0x80000000 + ?ib)) (of_nat (length initrd)) cmd"
  obtain dtb where d: "?args = Some dtb"
    and rd: "read_fdt dtb = Some (flatten (riscv_dt s (ucast (0x80000000 + ?kb)) (of_nat (length kern)) (ucast (0x80000000 + ?ib)) (of_nat (length initrd)) ?c))"
    and dl: "length dtb \<le> 2700 + length ?c"
    using device_tree_read [of cmd s "ucast (0x80000000 + ?kb)" "of_nat (length kern)" "ucast (0x80000000 + ?ib)" "of_nat (length initrd)"]
      cmd vc by auto
  have "host_ok m3 (1, int 0x1040) (length dtb)" unfolding boot_map_host_ok(2) [OF b3] using dl cmd by simp
  from write_fits [OF this] obtain m4 where w4: "host_write_bytes m3 (1, 0x1040) dtb = Some m4"
    and l4: "same_layout m3 m4" and c4: "bytes_at m4 1 0x1040 (length dtb) = dtb"
    and f4: "\<And>r' q k. r' \<noteq> 1 \<Longrightarrow> bytes_at m4 r' q k = bytes_at m3 r' q k" by auto
  have b4: "boot_map m4 ram" using l4 b3 by (rule boot_map_layout)
  let ?code = "concat (map (\<lambda>w. le_bytes 4 (unat w)) (reset_code 0x1040))"
  have code: "length ?code = 20" by (simp add: reset_code_def)
  have "host_ok m4 (1, int 0x1000) (length ?code)" unfolding code boot_map_host_ok(2) [OF b4] by simp
  from write_fits [OF this] obtain m5 where w5: "host_write_bytes m4 (1, 0x1000) ?code = Some m5"
    and l5: "same_layout m4 m5" and c5: "bytes_at m5 1 0x1000 20 = ?code"
    and f5: "\<And>r' q k. r' \<noteq> 1 \<or> 0x1000 + 20 \<le> q \<Longrightarrow> bytes_at m5 r' q k = bytes_at m4 r' q k"
    unfolding code by auto
  have lay: "same_layout (mem_map s) m5" using l1 l2 l3 l4 l5 same_layout_trans by metis
  have chk: "\<not> (kern \<noteq> [] \<and> ucast (of_nat (length kern) + ?kb :: u32) > ram)"
    "\<not> (initrd \<noteq> [] \<and> ucast (of_nat (length initrd) + ?ib :: u32) > ram)"
    using check_passes [OF k] check_passes [OF i] by blast+
  have small: "\<not> of_nat (length buf) > ram"
  proof -
    have "unat (of_nat (length buf) :: u64) \<le> length buf" unfolding unat_of_nat by (rule mod_less_eq_dividend)
    also have "length buf \<le> unat ram" by (rule len(2))
    finally show ?thesis by (simp add: word_less_nat_alt)
  qed
  have run: "copy_bios s buf kern initrd cmd = Some (OK (s\<lparr>mem_map := m5\<rparr>))"
    using w1 w2 w3 w4 w5 d ptr0 ptr1 chk small
    unfolding copy_bios_def rs Let_def
    by (simp only: if_False prod.case bind.bind_lunit) (simp add: ptr_add_def)
  have img: "bytes_at m5 0 q k = bytes_at m3 0 q k" for q k using f5 f4 by simp
  show ?thesis
  proof (rule exI [of _ "s\<lparr>mem_map := m5\<rparr>"], rule exI [of _ "length dtb"], intro conjI impI)
    show "read_fdt (bytes_at (mem_map (s\<lparr>mem_map := m5\<rparr>)) 1 0x1040 (length dtb)) =
      Some (flatten (riscv_dt s (ucast (0x80000000 + ?kb)) (of_nat (length kern)) (ucast (0x80000000 + ?ib)) (of_nat (length initrd)) ?c))"
      using c4 rd by (simp add: f5)
    show "bytes_at (mem_map (s\<lparr>mem_map := m5\<rparr>)) 0 (unat ?ib) (length initrd) = initrd" using img c3 by simp
    show "bytes_at (mem_map (s\<lparr>mem_map := m5\<rparr>)) 0 (unat ?kb) (length kern) = kern"
      if "initrd = [] \<or> unat ?kb + length kern \<le> unat ?ib"
      using that img c2 f3 [of 0 "unat ?kb" "length kern"] by auto
    show "bytes_at (mem_map (s\<lparr>mem_map := m5\<rparr>)) 0 0 (length buf) = buf"
      if "(initrd = [] \<or> length buf \<le> unat ?ib) \<and> (kern = [] \<or> length buf \<le> unat ?kb)"
      using that img c1 f2 [of 0 0 "length buf"] f3 [of 0 0 "length buf"] by auto
  qed (use run lay c5 in simp_all)
qed

text \<open>
  C7. Booting: on a new machine of less than \<open>2 ^ 63\<close> bytes of RAM, \<open>copy_bios\<close> succeeds if the images
  fit where they are put. Afterwards the BIOS is at the start of the RAM, the kernel at the next multiple of 4 MB
  and the initrd in the upper half (of the first 256 MB), each intact unless the initrd overlaps it;
  the reset code is at \<open>0x1000\<close>, and at \<open>0x1040\<close> is a device tree that describes this machine and says where
  the kernel and the initrd are. Nothing else of the machine changes.
\<close>

theorem copy_bios_images:
  assumes c: "machine_create T ram rt = Some s" and ram: "ram < 2 ^ 63" "ram \<noteq> 0"
    and len: "length buf < 2 ^ 31" "length buf \<le> unat ram"
    and k: "fits ram (kernel_base_of buf kern) kern" and i: "fits ram (initrd_base_of ram initrd) initrd"
    and cmd: "length (case cmd of None \<Rightarrow> [] | Some c \<Rightarrow> c) \<le> 50000"
  shows "\<exists>s' n. copy_bios s buf kern initrd cmd = Some (OK s') \<and>
    same_layout (mem_map s) (mem_map s') \<and> s' = s\<lparr>mem_map := mem_map s'\<rparr> \<and>
    bytes_at (mem_map s') 1 0x1000 20 = concat (map (\<lambda>w. le_bytes 4 (unat w)) (reset_code 0x1040)) \<and>
    read_fdt (bytes_at (mem_map s') 1 0x1040 n) =
      Some (flatten (riscv_dt s (ucast (0x80000000 + kernel_base_of buf kern)) (of_nat (length kern))
        (ucast (0x80000000 + initrd_base_of ram initrd)) (of_nat (length initrd)) (case cmd of None \<Rightarrow> [] | Some c \<Rightarrow> c))) \<and>
    bytes_at (mem_map s') 0 (unat (initrd_base_of ram initrd)) (length initrd) = initrd \<and>
    (initrd = [] \<or> unat (kernel_base_of buf kern) + length kern \<le> unat (initrd_base_of ram initrd) \<longrightarrow>
       bytes_at (mem_map s') 0 (unat (kernel_base_of buf kern)) (length kern) = kern) \<and>
    ((initrd = [] \<or> length buf \<le> unat (initrd_base_of ram initrd)) \<and>
     (kern = [] \<or> length buf \<le> unat (kernel_base_of buf kern)) \<longrightarrow> bytes_at (mem_map s') 0 0 (length buf) = buf)"
  by (rule copy_bios_ok [OF assms])

text \<open>A machine with 16 MB of RAM.\<close>

definition sample_board :: vm where
  "sample_board = the (machine_create (\<lambda>_. (0, 0)) 0x1000000 False)"

lemma machine_map_some: "machine_map ram \<noteq> None \<longleftrightarrow> unat ram mod 4096 = 0 \<and> ram \<noteq> 0"
  by (auto simp: machine_map_def default_register_ram_def register_ram_entry_def cpu_register_device_def
      page_size_and Let_def PHYS_MEM_RANGE_MAX_def LOW_RAM_SIZE_def CLINT_SIZE_def PLIC_SIZE_def
      DEVRAM_FLAG_DIRTY_BITS_def bind_Some_conv)

lemma machine_create_some: "machine_create T ram rt \<noteq> None \<longleftrightarrow> unat ram mod 4096 = 0 \<and> ram \<noteq> 0"
proof -
  have "machine_create T ram rt \<noteq> None \<longleftrightarrow> machine_map ram \<noteq> None"
    by (cases "machine_map ram") (simp_all add: machine_create_def Let_def)
  then show ?thesis unfolding machine_map_some .
qed

lemma sample_board: "machine_create (\<lambda>_. (0, 0)) 0x1000000 False = Some sample_board"
proof -
  have "machine_create (\<lambda>_. (0, 0)) 0x1000000 False \<noteq> None" unfolding machine_create_some by simp
  then show ?thesis unfolding sample_board_def
    by (cases "machine_create (\<lambda>_. (0, 0)) 0x1000000 False") simp_all
qed

theorem device_tree_roundtrip_witness:
  "\<exists>bs. riscv_build_fdt sample_board 0x80400000 77 0 0 (Some (cstr ''console=hvc0'')) = Some bs \<and>
    read_fdt bs = Some (flatten (riscv_dt sample_board 0x80400000 77 0 0 (cstr ''console=hvc0''))) \<and>
    length bs \<le> 2700 + 160 * virtio_count (dev sample_board) + 12"
  using device_tree_roundtrip [of "Some (cstr ''console=hvc0'')" sample_board "0x80400000" 77 0 0]
    machine_create_boot [OF sample_board] by simp

theorem copy_bios_images_witness:
  "\<exists>s'. copy_bios sample_board [1, 2, 3] [4, 5] [6] None = Some (OK s') \<and>
    bytes_at (mem_map s') 0 0x800000 1 = [6] \<and> bytes_at (mem_map s') 0 0x400000 2 = [4, 5] \<and>
    bytes_at (mem_map s') 0 0 3 = [1, 2, 3]"
proof -
  have b: "kernel_base_of [1, 2, 3] [4, 5] = 0x400000" "initrd_base_of 0x1000000 [6] = 0x800000"
    by (simp_all add: kernel_base_of_def initrd_base_of_def)
  have f: "fits 0x1000000 0x400000 [4, 5]" "fits 0x1000000 0x800000 [6]" by (simp_all add: fits_def)
  have l: "length [1, 2, 3 :: u8] = 3" "length [4, 5 :: u8] = 2" "length [6 :: u8] = 1"
    "unat (0x400000 :: u32) = 0x400000" "unat (0x800000 :: u32) = 0x800000" by simp_all
  have "0x1000000 < (2 ^ 63 :: u64)" "(0x1000000 :: u64) \<noteq> 0" "(3 :: nat) < 2 ^ 31"
    "3 \<le> unat (0x1000000 :: u64)" "length (case None of None \<Rightarrow> [] | Some c \<Rightarrow> (c :: u8 list)) \<le> 50000" by simp_all
  from copy_bios_images [OF sample_board this(1,2), of "[1, 2, 3]" "[4, 5]" "[6]" None, unfolded b l, OF this(3,4) f this(5)]
  obtain s' where "copy_bios sample_board [1, 2, 3] [4, 5] [6] None = Some (OK s')"
    "bytes_at (mem_map s') 0 0x800000 1 = [6]"
    "[6 :: u8] = [] \<or> 0x400000 + 2 \<le> (0x800000 :: nat) \<longrightarrow> bytes_at (mem_map s') 0 0x400000 2 = [4, 5]"
    "([6 :: u8] = [] \<or> 3 \<le> (0x800000 :: nat)) \<and> ([4 :: u8, 5] = [] \<or> 3 \<le> (0x400000 :: nat)) \<longrightarrow>
       bytes_at (mem_map s') 0 0 3 = [1, 2, 3]" by blast
  then have "bytes_at (mem_map s') 0 0x400000 2 = [4, 5]" "bytes_at (mem_map s') 0 0 3 = [1, 2, 3]" by simp_all
  then show ?thesis using \<open>copy_bios _ _ _ _ _ = _\<close> \<open>bytes_at (mem_map s') 0 0x800000 1 = [6]\<close> by blast
qed

text \<open>
  C24. The size checks of \<open>copy_bios\<close> for the kernel come too late: when the kernel does not fit, the copy has
  already written past the end of the RAM, and the error message \<open>kernel too big\<close> is never reached
  with the memory intact.
\<close>

theorem copy_bios_overflow:
  assumes c: "machine_create T ram rt = Some s" and ram: "ram < 2 ^ 63" "ram \<noteq> 0"
    and buf: "length buf \<le> unat ram" and big: "\<not> fits ram (kernel_base_of buf kern) kern"
  shows "copy_bios s buf kern initrd cmd = None"
proof -
  let ?kb = "kernel_base_of buf kern"
  have b0: "boot_map (mem_map s) ram" and rs: "ram_size (dev s) = ram" using machine_create_boot [OF c] by simp_all
  note ptr0 = boot_map_ptr(1) [OF b0 ram(2,1)]
  have "host_ok (mem_map s) (0, int 0) (length buf)" using buf unfolding boot_map_host_ok(1) [OF b0] by simp
  from write_fits [OF this] obtain m1 where w1: "host_write_bytes (mem_map s) (0, 0) buf = Some m1"
    and l1: "same_layout (mem_map s) m1" by auto
  have b1: "boot_map m1 ram" using l1 b0 by (rule boot_map_layout)
  have "\<not> host_ok m1 (0, int (unat ?kb)) (length kern)"
    using big unfolding boot_map_host_ok(1) [OF b1] by (simp add: fits_def)
  then have "host_write_bytes m1 (ptr_add (0, 0) (uint ?kb)) kern = None"
    by (simp add: host_write_bytes_def ptr_add_def)
  moreover have "kern \<noteq> []" using big by (simp add: fits_def)
  moreover have "\<not> of_nat (length buf) > ram"
  proof -
    have "unat (of_nat (length buf) :: u64) \<le> length buf" unfolding unat_of_nat by (rule mod_less_eq_dividend)
    then show ?thesis using buf by (simp add: word_less_nat_alt)
  qed
  ultimately show ?thesis
    using w1 ptr0 unfolding copy_bios_def rs Let_def
    by (simp only: if_False prod.case bind.bind_lunit) simp
qed

theorem copy_bios_overflow_witness:
  "copy_bios sample_board [1] (replicate 0x1000000 0) [] None = None"
proof -
  have "kernel_base_of [1] (replicate 0x1000000 0) = 0x400000"
    by (simp add: kernel_base_of_def)
  then show ?thesis
    using copy_bios_overflow [OF sample_board, of "[1]" "replicate 0x1000000 0"] by (simp add: fits_def)
qed

text \<open>What \<open>copy_bios\<close> changes, in general.\<close>

lemma get_ram_ptr_layout: "phys_mem_get_ram_ptr mm a b = Some (p, mm') \<Longrightarrow> same_layout mm mm'"
  by (auto simp: phys_mem_get_ram_ptr_def Let_def bind_Some_conv split: option.splits if_splits
      intro!: same_layout_update dest!: set_dirty_bit_layout)

lemma copy_bios_layout:
  assumes "copy_bios s buf kern initrd cmd = Some (OK s')"
  shows "same_layout (mem_map s) (mem_map s') \<and> s' = s\<lparr>mem_map := mem_map s'\<rparr>"
  using assms unfolding copy_bios_def Let_def
  by (auto simp: bind_Some_conv same_layout_def split: if_splits
      dest!: get_ram_ptr_layout [unfolded same_layout_def] host_write_bytes_layout [unfolded same_layout_def])

end
