(* ===== verification/Riscv_Machine_Props.thy ===== *)
theory Riscv_Machine_Props
  imports Riscv_Boot_Props
begin

text \<open>
  The machine as a whole: its initial state is well-formed, every call of \<open>riscv_machine_interp\<close>
  returns a well-formed state, and so does every event of the front end's loop. The PLIC refines a
  set-based specification; the timer and the console behave as their drivers expect, with the
  exception of the low-word writes.
\<close>

section \<open>Well-formed machines\<close>

definition vm_ok :: "vm \<Rightarrow> bool" where
  "vm_ok s \<longleftrightarrow> mem_wf s \<and> plat_inv s \<and> csr_wf s \<and> reg s 0 = 0"

lemma vm_ok_mach: "vm_ok s \<longleftrightarrow> plat.mach s"
  by (auto simp: vm_ok_def plat.mach_def plat.good_def)

lemma vm_ok_upd [simp]: "vm_ok (upd f s) = vm_ok s"
  by (simp add: vm_ok_def upd_def mem_wf_def tlb_wf_def plat_inv_def csr_wf_def)

lemma vm_ok_mip [simp]: "vm_ok (riscv_cpu_set_mip s m) = vm_ok s" "vm_ok (riscv_cpu_reset_mip s m) = vm_ok s"
  by (simp_all add: vm_ok_def riscv_cpu_set_mip_def riscv_cpu_reset_mip_def Let_def mem_wf_def tlb_wf_def
      plat_inv_def csr_wf_def)

lemma vm_ok_plic [simp]: "vm_ok (plic_set_irq n b s) = vm_ok s"
  by (simp add: plic_set_irq_def plic_update_mip_def Let_def)

lemma vm_ok_sleep: "vm_ok s \<Longrightarrow> vm_ok (snd (riscv_machine_get_sleep_duration T d s))"
  by (simp add: riscv_machine_get_sleep_duration_def rtc_get_time_def rtc_get_real_time_def Let_def case_prod_beta)

text \<open>The initial state.\<close>

lemma machine_map_wf:
  assumes "machine_map ram = Some mm"
  shows "map_wf mm"
proof -
  obtain r1 m1 r2 m2 r3 m3 r4 m4 r5 where
    1: "default_register_ram [] RAM_BASE_ADDR ram 0 = Some (r1, m1)" and
    2: "default_register_ram m1 0 LOW_RAM_SIZE 0 = Some (r2, m2)" and
    3: "cpu_register_device m2 CLINT_BASE_ADDR CLINT_SIZE DEV_CLINT DEVIO_SIZE32 = Some (r3, m3)" and
    4: "cpu_register_device m3 PLIC_BASE_ADDR PLIC_SIZE DEV_PLIC DEVIO_SIZE32 = Some (r4, m4)" and
    5: "cpu_register_device m4 HTIF_BASE_ADDR 16 DEV_HTIF DEVIO_SIZE32 = Some (r5, mm)"
    using assms by (auto simp: machine_map_def bind_Some_conv)
  have "map_wf m1" by (rule default_register_ram_wf [OF 1]) (simp_all add: map_wf_def RAM_BASE_ADDR_def)
  then have "map_wf m2" by (rule default_register_ram_wf [OF 2]) simp
  then show ?thesis
    by (intro cpu_register_device_wf [OF 5] cpu_register_device_wf [OF 4] cpu_register_device_wf [OF 3])
qed

lemma machine_map_plat:
  assumes "machine_map ram = Some mm"
  shows "\<forall>i < length mm. \<not> pr_is_ram (mm ! i) \<longrightarrow> pr_dev (mm ! i) \<le> 2 \<and> pr_devio_flags (mm ! i) = DEVIO_SIZE32"
  using assms
  by (auto simp: machine_map_def default_register_ram_def register_ram_entry_def cpu_register_device_def
      Let_def DEVRAM_FLAG_DIRTY_BITS_def bind_Some_conv nth_append less_Suc_eq nth_Cons'
      DEV_CLINT_def DEV_PLIC_def DEV_HTIF_def split: if_splits)

lemma init_cpu_ok:
  assumes "map_wf mm" and "\<forall>i < length mm. \<not> pr_is_ram (mm ! i) \<longrightarrow> pr_dev (mm ! i) \<le> 2 \<and> pr_devio_flags (mm ! i) = DEVIO_SIZE32"
  shows "vm_ok (riscv_cpu_init mm d)"
proof -
  have m: "mem_map (riscv_cpu_init mm d) = mm" "reg (riscv_cpu_init mm d) 0 = 0"
    by (simp_all add: riscv_cpu_init_def Let_def tlb_init_def zero_cpu_def)
  have c: "csr_wf (riscv_cpu_init mm d)" by (rule riscv_cpu_init_wf)
  then have x: "cur_xlen (riscv_cpu_init mm d) = 32" by (simp add: csr_wf_def)
  have "tlb_wf (riscv_cpu_init mm d)"
    by (simp add: tlb_wf_def entry_ok_def riscv_cpu_init_def Let_def tlb_init_def zero_cpu_def TLB_SIZE_def)
  with assms m c x show ?thesis by (simp add: vm_ok_def mem_wf_def plat_inv_def)
qed

lemma machine_create_ok:
  assumes "machine_create T ram rt = Some s"
  shows "vm_ok s"
proof -
  from assms obtain mm where mm: "machine_map ram = Some mm"
    by (auto simp: machine_create_def bind_Some_conv)
  have "vm_ok (riscv_cpu_init mm (zero_machine ram rt))"
    using machine_map_wf [OF mm] machine_map_plat [OF mm] by (rule init_cpu_ok)
  with assms mm show ?thesis
    by (auto simp: machine_create_def rtc_get_real_time_def Let_def case_prod_beta)
qed

lemma vm_ok_mem:
  assumes "vm_ok s" and l: "same_layout (mem_map s) mm"
  shows "vm_ok (s\<lparr>mem_map := mm\<rparr>)"
proof -
  have "tlb_wf (s\<lparr>mem_map := mm\<rparr>)"
    using assms(1) by (simp add: vm_ok_def mem_wf_def tlb_wf_def entry_ok_layout [OF l])
  moreover have "plat_inv (s\<lparr>mem_map := mm\<rparr>)"
    using assms plat_inv_layout [of s "s\<lparr>mem_map := mm\<rparr>"] by (simp add: vm_ok_def)
  ultimately show ?thesis
    using assms map_wf_layout [OF l] by (simp add: vm_ok_def mem_wf_def csr_wf_def)
qed

lemma machine_init_vm_ok:
  assumes "riscv_machine_init T p = Some (OK s)"
  shows "vm_ok s"
proof -
  obtain s0 where c: "machine_create T (p_ram_size p) (p_rtc_real_time p) = Some s0"
    and b: "copy_bios s0 (p_bios p) (p_kernel p) (p_initrd p) (p_cmdline p) = Some (OK s)"
    using assms by (auto simp: riscv_machine_init_def bind_Some_conv)
  have "same_layout (mem_map s0) (mem_map s)" "s = s0\<lparr>mem_map := mem_map s\<rparr>"
    using copy_bios_layout [OF b] by blast+
  then show ?thesis using vm_ok_mem [OF machine_create_ok [OF c]] by metis
qed

section \<open>Running the machine\<close>

lemma machine_interp_ok:
  assumes "vm_ok s" and "0 < n" and "n < 2 ^ 31"
  shows "\<exists>s' k. riscv_machine_interp T U n s = Some (Some s') \<and> vm_ok s' \<and> same_layout (mem_map s) (mem_map s') \<and>
    insn_counter s' = insn_counter s + word_of_int k \<and> 0 \<le> k \<and> k \<le> n + 2049 \<and> (power_down_flag s' \<or> n \<le> k)"
  using plat.interp_ok [of s n T U] assms by (simp add: vm_ok_mach riscv_machine_interp_def)

text \<open>
  C2. Memory safety and progress of the emulator: on a well-formed machine every call of
  \<open>riscv_machine_interp\<close> returns. No instruction of the guest makes it access memory outside a RAM
  buffer, fail an assertion, call a device with a size it does not take, or loop for ever; and the
  machine is well-formed again (page-aligned RAM ranges, TLB entries that point into their range,
  legal CSR values, \<open>x0\<close> zero, the layout of the memory map unchanged).
\<close>

theorem machine_interp_safe:
  assumes "vm_ok s" and "0 < n" and "n < 2 ^ 31"
  shows "\<exists>s'. riscv_machine_interp T U n s = Some (Some s') \<and> vm_ok s' \<and> same_layout (mem_map s) (mem_map s')"
  using machine_interp_ok [OF assms] by blast

text \<open>A machine with 64 KB of RAM and an image of four bytes.\<close>

definition sample_params :: vm_params where
  "sample_params = \<lparr>p_ram_size = 0x10000, p_rtc_real_time = False, p_bios = [1, 2, 3, 4], p_kernel = [], p_initrd = [],
     p_cmdline = None\<rparr>"

definition sample_vm :: vm where
  "sample_vm = (case riscv_machine_init (\<lambda>_. (0, 0)) sample_params of Some (OK s) \<Rightarrow> s)"

lemma sample_vm_init: "riscv_machine_init (\<lambda>_. (0, 0)) sample_params = Some (OK sample_vm)"
proof -
  obtain s where c: "machine_create (\<lambda>_. (0, 0)) 0x10000 False = Some s"
    using machine_create_some [of "\<lambda>_. (0, 0)" "0x10000" False] by auto
  have "\<exists>s'. copy_bios s [1, 2, 3, 4] [] [] None = Some (OK s')"
    using copy_bios_ok [OF c, of "[1, 2, 3, 4]" "[]" "[]" None] by (auto simp: fits_def)
  then show ?thesis using c by (auto simp: riscv_machine_init_def sample_params_def sample_vm_def)
qed

lemma sample_vm_ok: "vm_ok sample_vm"
  by (rule machine_init_vm_ok [OF sample_vm_init])

theorem machine_interp_safe_witness:
  "\<exists>s'. riscv_machine_interp (\<lambda>_. (0, 0)) (\<lambda>_ _. 0) 1000 sample_vm = Some (Some s') \<and> vm_ok s' \<and>
     same_layout (mem_map sample_vm) (mem_map s')"
  by (rule machine_interp_safe [OF sample_vm_ok]) simp_all

text \<open>
  C3. The accounting of the cycles: the instruction counter advances by the number \<open>k\<close> of cycles
  spent, which is at least the number asked for unless the CPU has gone to sleep, and exceeds it by
  at most 2049 (a straight run through the rest of a code page, which is not interrupted).
\<close>

theorem machine_interp_cycles:
  assumes "vm_ok s" and "0 < n" and "n < 2 ^ 31"
  shows "\<exists>s' k. riscv_machine_interp T U n s = Some (Some s') \<and>
    insn_counter s' = insn_counter s + word_of_int k \<and> 0 \<le> k \<and> k \<le> n + 2049 \<and> (power_down_flag s' \<or> n \<le> k)"
  using machine_interp_ok [OF assms] by blast

theorem machine_interp_cycles_witness:
  "\<exists>s' k. riscv_machine_interp (\<lambda>_. (0, 0)) (\<lambda>_ _. 0) 500000 sample_vm = Some (Some s') \<and>
    insn_counter s' = insn_counter sample_vm + word_of_int k \<and> 0 \<le> k \<and> k \<le> 500000 + 2049 \<and>
    (power_down_flag s' \<or> 500000 \<le> k)"
  by (rule machine_interp_cycles [OF sample_vm_ok]) simp_all

text \<open>
  The life of a machine: what the main loop of the front end (\<open>virt_machine_run\<close>) does with it, and
  the interrupt lines its devices drive.
\<close>

inductive vm_reach :: "clock \<Rightarrow> (vm \<Rightarrow> u32 \<Rightarrow> u64) \<Rightarrow> vm \<Rightarrow> bool" for T U where
  reach_init: "riscv_machine_init T p = Some (OK s) \<Longrightarrow> vm_reach T U s"
| reach_interp: "vm_reach T U s \<Longrightarrow> 0 < n \<Longrightarrow> n < 2 ^ 31 \<Longrightarrow>
    riscv_machine_interp T U n s = Some (Some s') \<Longrightarrow> vm_reach T U s'"
| reach_sleep: "vm_reach T U s \<Longrightarrow> riscv_machine_get_sleep_duration T d s = (d', s') \<Longrightarrow> vm_reach T U s'"
| reach_irq: "vm_reach T U s \<Longrightarrow> 1 \<le> irq \<Longrightarrow> irq < 32 \<Longrightarrow> vm_reach T U (plic_set_irq irq level s)"

lemma vm_reach_ok: "vm_reach T U s \<Longrightarrow> vm_ok s"
proof (induction rule: vm_reach.induct)
  case (reach_init p s)
  then show ?case by (rule machine_init_vm_ok)
next
  case (reach_interp s n s')
  then show ?case using machine_interp_ok [of s n T U] by fastforce
next
  case (reach_sleep s d d' s')
  then show ?case using vm_ok_sleep [of s T d] by simp
next
  case (reach_irq s irq level)
  then show ?case by simp
qed



text \<open>The images a machine of \<open>p_ram_size\<close> bytes can be started with.\<close>

definition images_ok :: "vm_params \<Rightarrow> bool" where
  "images_ok p \<longleftrightarrow> length (p_bios p) < 2 ^ 31 \<and> length (p_bios p) \<le> unat (p_ram_size p) \<and>
     fits (p_ram_size p) (kernel_base_of (p_bios p) (p_kernel p)) (p_kernel p) \<and>
     fits (p_ram_size p) (initrd_base_of (p_ram_size p) (p_initrd p)) (p_initrd p) \<and>
     length (case p_cmdline p of None \<Rightarrow> [] | Some c \<Rightarrow> c) \<le> 50000"

definition params_ok :: "vm_params \<Rightarrow> bool" where
  "params_ok p \<longleftrightarrow> unat (p_ram_size p) mod 4096 = 0 \<and> p_ram_size p \<noteq> 0 \<and> p_ram_size p < 2 ^ 63 \<and> images_ok p"

lemma machine_init_stops:
  assumes "unat (p_ram_size p) mod 4096 \<noteq> 0 \<or> p_ram_size p = 0"
  shows "riscv_machine_init T p = None"
proof -
  have "machine_create T (p_ram_size p) (p_rtc_real_time p) = None"
    using assms machine_create_some [of T "p_ram_size p" "p_rtc_real_time p"] by argo
  then show ?thesis by (simp add: riscv_machine_init_def)
qed

lemma machine_init_succeeds:
  assumes "params_ok p"
  shows "\<exists>s. riscv_machine_init T p = Some (OK s)"
proof -
  let ?c = "machine_create T (p_ram_size p) (p_rtc_real_time p)"
  obtain s where c: "?c = Some s"
    using assms machine_create_some [of T "p_ram_size p" "p_rtc_real_time p"] by (cases ?c) (simp_all add: params_ok_def images_ok_def)
  have "p_ram_size p < 2 ^ 63" "p_ram_size p \<noteq> 0" "length (p_bios p) < 2 ^ 31" "length (p_bios p) \<le> unat (p_ram_size p)"
    "fits (p_ram_size p) (kernel_base_of (p_bios p) (p_kernel p)) (p_kernel p)"
    "fits (p_ram_size p) (initrd_base_of (p_ram_size p) (p_initrd p)) (p_initrd p)"
    "length (case p_cmdline p of None \<Rightarrow> [] | Some c \<Rightarrow> c) \<le> 50000" using assms by (simp_all add: params_ok_def images_ok_def)
  from copy_bios_ok [OF c this]
  have "\<exists>s'. copy_bios s (p_bios p) (p_kernel p) (p_initrd p) (p_cmdline p) = Some (OK s')" by (elim exE conjE) (rule exI)
  then show ?thesis using c by (simp add: riscv_machine_init_def)
qed



section \<open>The interrupt controller\<close>

text \<open>The specification of the PLIC: the sets of the pending sources and of those being served.\<close>

record plic_spec =
  sp_pending :: "nat set"
  sp_served :: "nat set"

definition sp_active :: "plic_spec \<Rightarrow> nat set" where
  "sp_active p = sp_pending p - sp_served p"

definition sp_claim :: "plic_spec \<Rightarrow> nat \<times> plic_spec" where
  "sp_claim p = (if sp_active p = {} then (0, p)
     else (Min (sp_active p), p\<lparr>sp_served := insert (Min (sp_active p)) (sp_served p)\<rparr>))"

definition sp_complete :: "nat \<Rightarrow> plic_spec \<Rightarrow> plic_spec" where
  "sp_complete irq p = p\<lparr>sp_served := sp_served p - {irq}\<rparr>"

definition sp_line :: "nat \<Rightarrow> bool \<Rightarrow> plic_spec \<Rightarrow> plic_spec" where
  "sp_line irq level p =
     p\<lparr>sp_pending := (if level then insert irq (sp_pending p) else sp_pending p - {irq})\<rparr>"

text \<open>Source \<open>i\<close> is bit \<open>i - 1\<close> of the words of the code.\<close>

definition bits_of :: "u32 \<Rightarrow> nat set" where
  "bits_of w = {i. 1 \<le> i \<and> bit w (i - 1)}"

definition abs_plic :: "vm \<Rightarrow> plic_spec" where
  "abs_plic s = \<lparr>sp_pending = bits_of (plic_pending_irq (dev s)), sp_served = bits_of (plic_served_irq (dev s))\<rparr>"

lemma bits_of_or: "k < 32 \<Longrightarrow> bits_of (w OR push_bit k 1) = insert (Suc k) (bits_of w)"
  by (auto simp: bits_of_def bit_or_iff bit_exp32)

lemma bits_of_clear: "bits_of (w AND NOT (push_bit k 1)) = bits_of w - {Suc k}"
  by (auto simp: bits_of_def bit_and_iff bit_not_iff bit_exp32 dest: bit_imp_le_length)

lemma bits_of_active: "sp_active (abs_plic s) = bits_of (plic_mask s)"
  by (auto simp: sp_active_def abs_plic_def bits_of_def plic_mask_def bit_and_iff bit_not_iff
      dest: bit_imp_le_length)

lemma bits_of_empty: "bits_of w = {} \<longleftrightarrow> w = 0"
proof -
  have "w = 0 \<longleftrightarrow> (\<forall>k. \<not> bit w k)" by (metis bit_0_eq bot_apply bot_bool_def bit_eqI)
  also have "\<dots> \<longleftrightarrow> bits_of w = {}"
  proof
    assume z: "\<forall>k. \<not> bit w k"
    then show "bits_of w = {}" by (simp add: bits_of_def)
  next
    assume "bits_of w = {}"
    then have "Suc k \<notin> bits_of w" for k by simp
    then show "\<forall>k. \<not> bit w k" by (simp add: bits_of_def)
  qed
  finally show ?thesis by blast
qed

lemma bits_of_finite [simp]: "finite (bits_of w)"
proof (rule finite_subset)
  show "bits_of w \<subseteq> {..32}" by (auto simp: bits_of_def dest!: bit_imp_le_length)
qed simp

lemma Min_bits_of:
  assumes "w \<noteq> 0"
  shows "Min (bits_of w) = Suc (ctz32 w)"
proof (rule Min_eqI)
  note c = ctz32_nonzero [OF assms]
  show "Suc (ctz32 w) \<in> bits_of w" using c by (simp add: bits_of_def)
  show "Suc (ctz32 w) \<le> i" if "i \<in> bits_of w" for i
    using that c by (auto simp: bits_of_def) (metis One_nat_def Suc_le_D diff_Suc_1 not_less_eq_eq not_less)
qed simp

text \<open>The external interrupt lines of the CPU follow the mask.\<close>

definition ext_lines :: "vm \<Rightarrow> bool \<Rightarrow> bool" where
  "ext_lines s b \<longleftrightarrow> mip s AND (MIP_MEIP OR MIP_SEIP) = (if b then MIP_MEIP OR MIP_SEIP else 0)"

lemma plic_update_mip_abs [simp]: "abs_plic (plic_update_mip s) = abs_plic s" "dev (plic_update_mip s) = dev s"
  by (simp_all add: abs_plic_def plic_update_mip_def riscv_cpu_set_mip_def riscv_cpu_reset_mip_def Let_def)

lemma word_or_and_absorb: "(a OR b) AND b = b" for a b :: u32
  by (rule bit_word_eqI) (auto simp: bit_simps)

lemma word_clear_and: "(a AND NOT b) AND b = 0" for a b :: u32
  by (rule bit_word_eqI) (auto simp: bit_simps)

lemma plic_update_mip_lines: "ext_lines (plic_update_mip s) (sp_active (abs_plic s) \<noteq> {})"
proof -
  have "mip (riscv_cpu_set_mip s m) = mip s OR m" "mip (riscv_cpu_reset_mip s m) = mip s AND NOT m" for m
    by (simp_all add: riscv_cpu_set_mip_def riscv_cpu_reset_mip_def Let_def)
  then show ?thesis
    unfolding bits_of_active bits_of_empty ext_lines_def plic_update_mip_def if_distrib [of mip]
    by (simp only: word_or_and_absorb word_clear_and split: if_split) simp
qed

lemma plic_update_mip_wakes:
  "sp_active (abs_plic s) \<noteq> {} \<Longrightarrow> mie s AND (MIP_MEIP OR MIP_SEIP) \<noteq> 0 \<Longrightarrow> \<not> power_down_flag (plic_update_mip s)"
proof -
  assume a: "sp_active (abs_plic s) \<noteq> {}" and e: "mie s AND (MIP_MEIP OR MIP_SEIP) \<noteq> 0"
  have "plic_mask s \<noteq> 0" using a by (simp add: bits_of_active bits_of_empty)
  moreover have "(mip s OR (MIP_MEIP OR MIP_SEIP)) AND mie s \<noteq> 0"
  proof
    assume z: "(mip s OR (MIP_MEIP OR MIP_SEIP)) AND mie s = 0"
    have "mie s AND (MIP_MEIP OR MIP_SEIP) = ((mip s OR (MIP_MEIP OR MIP_SEIP)) AND mie s) AND (MIP_MEIP OR MIP_SEIP)"
      by (rule bit_word_eqI) (auto simp: bit_simps)
    with z e show False by simp
  qed
  ultimately show ?thesis by (simp add: plic_update_mip_def riscv_cpu_set_mip_def Let_def)
qed

text \<open>
  C4. The PLIC refines its specification: raising or dropping a line (\<open>plic_set_irq\<close>), claiming (a
  read of \<open>PLIC_HART_BASE + 4\<close>, which returns the lowest active source, or 0) and completing (a write
  of it) do to the sets of pending and served sources what the specification says, and afterwards
  the external interrupt lines of the CPU are up exactly when some source is active.
\<close>

theorem plic_refines:
  assumes "1 \<le> irq" and "irq \<le> 32"
  shows "abs_plic (plic_set_irq irq level s) = sp_line irq level (abs_plic s) \<and>
    ext_lines (plic_set_irq irq level s) (sp_active (sp_line irq level (abs_plic s)) \<noteq> {}) \<and>
    (\<exists>v s'. plic_read (PLIC_HART_BASE + 4) 2 s = Some (v, s') \<and>
      (unat v, abs_plic s') = sp_claim (abs_plic s) \<and>
      (sp_active (abs_plic s) \<noteq> {} \<longrightarrow> ext_lines s' (sp_active (abs_plic s') \<noteq> {}))) \<and>
    (\<exists>s'. plic_write (PLIC_HART_BASE + 4) (of_nat irq) 2 s = Some s' \<and>
      abs_plic s' = sp_complete irq (abs_plic s) \<and> ext_lines s' (sp_active (abs_plic s') \<noteq> {}))"
proof (intro conjI)
  obtain k where k: "irq = Suc k" "k < 32" using assms by (cases irq) auto
  let ?t = "upd (\<lambda>d. d\<lparr>plic_pending_irq := (if level then plic_pending_irq d OR push_bit (irq - 1) 1
       else plic_pending_irq d AND NOT (push_bit (irq - 1) 1))\<rparr>) s"
  have t: "plic_set_irq irq level s = plic_update_mip ?t" by (simp only: plic_set_irq_def Let_def)
  have a: "abs_plic ?t = sp_line irq level (abs_plic s)"
    using k bits_of_or [of k] bits_of_clear [of _ k] by (simp add: abs_plic_def sp_line_def)
  show "abs_plic (plic_set_irq irq level s) = sp_line irq level (abs_plic s)" unfolding t by (simp add: a)
  show "ext_lines (plic_set_irq irq level s) (sp_active (sp_line irq level (abs_plic s)) \<noteq> {})"
    unfolding t a [symmetric] by (rule plic_update_mip_lines)
  show "\<exists>v s'. plic_read (PLIC_HART_BASE + 4) 2 s = Some (v, s') \<and>
      (unat v, abs_plic s') = sp_claim (abs_plic s) \<and>
      (sp_active (abs_plic s) \<noteq> {} \<longrightarrow> ext_lines s' (sp_active (abs_plic s') \<noteq> {}))"
  proof (cases "plic_mask s = 0")
    case True
    then have "sp_active (abs_plic s) = {}" by (simp add: bits_of_active bits_of_empty)
    then show ?thesis using True by (simp add: plic_read_def PLIC_HART_BASE_def sp_claim_def)
  next
    case False
    define i where "i = ctz32 (plic_mask s)"
    have i: "i < 32" using ctz32_nonzero [OF False] by (simp add: i_def)
    define u where "u = upd (\<lambda>m. m\<lparr>plic_served_irq := plic_served_irq m OR push_bit i 1\<rparr>) s"
    have rd: "plic_read (PLIC_HART_BASE + 4) 2 s = Some (of_nat i + 1, plic_update_mip u)"
      using False by (simp add: plic_read_def PLIC_HART_BASE_def Let_def u_def i_def)
    have v: "unat (of_nat i + 1 :: u32) = Suc i" using i by (simp add: unat_word_ariths unat_of_nat)
    have act: "sp_active (abs_plic s) = bits_of (plic_mask s)" by (rule bits_of_active)
    have min: "Min (bits_of (plic_mask s)) = Suc i" using Min_bits_of [OF False] by (simp add: i_def)
    have "sp_claim (abs_plic s) = (Suc i, (abs_plic s)\<lparr>sp_served := insert (Suc i) (sp_served (abs_plic s))\<rparr>)"
      unfolding sp_claim_def act min Let_def using False by (simp add: bits_of_empty)
    also have "(abs_plic s)\<lparr>sp_served := insert (Suc i) (sp_served (abs_plic s))\<rparr> = abs_plic u"
      using bits_of_or [OF i] by (simp add: abs_plic_def u_def)
    finally have c: "sp_claim (abs_plic s) = (Suc i, abs_plic u)" .
    show ?thesis unfolding rd using v c plic_update_mip_lines [of u] by simp
  qed
  define w where "w = upd (\<lambda>m. m\<lparr>plic_served_irq := plic_served_irq m AND NOT (push_bit k 1)\<rparr>) s"
  have k1: "(of_nat irq :: u32) - 1 = of_nat k" using k(1) by simp
  have "(of_nat k :: u32) < 32" and u: "unat (of_nat k :: u32) = k"
    using k(2) by (simp_all add: word_less_nat_alt unat_of_nat)
  then have wr: "plic_write (PLIC_HART_BASE + 4) (of_nat irq) 2 s = Some (plic_update_mip w)"
    unfolding plic_write_def Let_def k1 by (simp add: w_def)
  have "abs_plic w = sp_complete irq (abs_plic s)"
    using bits_of_clear [of _ k] k(1) by (simp add: w_def abs_plic_def sp_complete_def)
  then show "\<exists>s'. plic_write (PLIC_HART_BASE + 4) (of_nat irq) 2 s = Some s' \<and>
      abs_plic s' = sp_complete irq (abs_plic s) \<and> ext_lines s' (sp_active (abs_plic s') \<noteq> {})"
    unfolding wr using plic_update_mip_lines [of w] by simp
qed

theorem plic_refines_witness:
  "abs_plic (plic_set_irq 5 True sample_vm) = sp_line 5 True (abs_plic sample_vm)"
  using plic_refines [of 5 True sample_vm] by simp

end
