(* ===== verification/Riscv_Start.thy ===== *)
theory Riscv_Start
  imports Riscv_Machine_Props
begin

text \<open>
  The first steps of a machine, from the reset vector to the BIOS: the five instructions
  \<open>copy_bios\<close> puts at \<open>0x1000\<close>, run by the interpreter on the memory they have been written to.
\<close>

section \<open>The instructions of the reset code\<close>

lemma reset_words: "reset_code 0x1040 = [0x7ffff297, 0x597, 0x3c58593, 0xf1402573, 0x28067]"
  by (simp add: reset_code_def)

lemma exec_reset:
  "exec_insn D 0x7ffff297 0x1000 ica t = Some (NEXT_INSN, t\<lparr>reg := (reg t)(5 := 0x80000000)\<rparr>)"
  "exec_insn D 0x597 0x1004 ica t = Some (NEXT_INSN, t\<lparr>reg := (reg t)(11 := 0x1004)\<rparr>)"
  "exec_insn D 0x3c58593 0x1008 ica t = Some (NEXT_INSN, t\<lparr>reg := (reg t)(11 := reg t 11 + 0x3c)\<rparr>)"
  "priv t = PRV_M \<Longrightarrow> exec_insn D 0xf1402573 0x100c ica t =
     Some (NEXT_INSN, t\<lparr>insn_counter := GET_INSN_COUNTER ica t, reg := (reg t)(10 := mhartid t)\<rparr>)"
  "exec_insn D 0x28067 0x1010 ica t = Some (JUMP_INSN, t\<lparr>pc := reg t 5 AND NOT 1\<rparr>)"
  by (simp_all add: exec_insn_def Let_def exec_auipc_def exec_op_imm_def op_imm_def imm_i_def exec_system_def
      exec_csrrsc_def csr_operand_def csr_finish_def csr_read_def csr_value_def exec_jalr_def
      set_rd_def set_reg_def cdefs PRV_M_def)

section \<open>Fetching them\<close>

lemma bytes_at_sub:
  assumes "bytes_at mm r off n = bs" and "k + m \<le> n"
  shows "bytes_at mm r (off + k) m = take m (drop k bs)"
proof (rule nth_equalityI)
  have l: "length bs = n" using assms(1) by (auto simp: bytes_at_def)
  then show "length (bytes_at mm r (off + k) m) = length (take m (drop k bs))"
    using assms(2) by (simp add: bytes_at_def)
  fix i assume "i < length (bytes_at mm r (off + k) m)"
  then have "i < m" by (simp add: bytes_at_def)
  then show "bytes_at mm r (off + k) m ! i = take m (drop k bs) ! i"
    using assms l by (auto simp: bytes_at_def read_bytes_def add.assoc)
qed

lemma concat_words:
  "k < length ws \<Longrightarrow>
    take 4 (drop (4 * k) (concat (map (\<lambda>w. le_bytes 4 (unat w)) ws))) = le_bytes 4 (unat (ws ! k))"
proof (induction ws arbitrary: k)
  case (Cons w ws)
  then show ?case by (cases k) simp_all
qed simp

lemma fetch_word:
  assumes b: "bytes_at mm 1 0x1000 20 = concat (map (\<lambda>w. le_bytes 4 (unat w)) ws)"
    and boot: "boot_map mm ram" and l: "length ws = 5" and k: "k < 5"
  shows "get_insn32 mm (1, 0x1000 + 4 * int k) = Some (ws ! k)"
proof -
  have "bytes_at mm 1 (0x1000 + 4 * k) 4 = take 4 (drop (4 * k) (concat (map (\<lambda>w. le_bytes 4 (unat w)) ws)))"
    using k by (intro bytes_at_sub [OF b]) simp
  also have "\<dots> = le_bytes 4 (unat (ws ! k))"
    using k l by (intro concat_words) simp
  finally have "bytes_at mm 1 (0x1000 + 4 * k) 4 = le_bytes 4 (unat (ws ! k))" .
  moreover have "host_ok mm (1, 0x1000 + 4 * int k) 4"
    using k unfolding boot_map_host_ok(2) [OF boot] by simp
  moreover have "nat (0x1000 + 4 * int k) = 0x1000 + 4 * k" by (simp add: nat_add_distrib nat_mult_distrib)
  moreover have "unat (ws ! k) mod 256 ^ 4 = unat (ws ! k)"
    using unsigned_less [of "ws ! k", where ?'a = nat] by simp
  ultimately show ?thesis
    by (simp add: get_insn32_def host_read_def bytes_at_def le_val_le_bytes)
qed

text \<open>The first round translates the page, the others stay in it.\<close>

lemma round_first:
  assumes "w_left w \<le> 0" and "w_pc w = 0x1000" and "mip s AND mie s = 0" and "0 < n_cycles s" and "priv s = PRV_M" and "cur_xlen s = 32"
    and "te_vaddr (tlb_code s (tlb_index 0x1000)) = - 1" and "boot_map (mem_map s) ram"
    and "get_insn32 (mem_map s) (1, 0x1000) = Some insn"
  shows "\<exists>tl. fetch w s = Some (Fetched insn \<lparr>w_ptr = Some (1, 0x1000), w_left = 4094, w_pc = 0x1000\<rparr>
    (s\<lparr>pc := 0x1000, tlb_code := tl\<rparr>))"
proof -
  obtain a b r where mm: "mem_map s = a # b # r" and ab: "plain_ram a RAM_BASE_ADDR ram" "plain_ram b 0 LOW_RAM_SIZE"
    using assms(8) by (cases "mem_map s" rule: remdups_adj.cases) (auto simp: boot_map_def)
  have "\<not> in_range a 0x1000" "in_range b 0x1000"
    using ab by (simp_all add: in_range_def plain_ram_def RAM_BASE_ADDR_def LOW_RAM_SIZE_def)
  then have rg: "get_phys_mem_range (mem_map s) 0x1000 = Some 1"
    by (simp add: get_phys_mem_range_def mm)
  have b1: "pr_is_ram (mem_map s ! 1)" "pr_addr (mem_map s ! 1) = 0" using ab(2) by (simp_all add: mm plain_ram_def)
  have tr: "get_phys_addr (s\<lparr>pc := 0x1000\<rparr>) 0x1000 ACCESS_CODE = Some (OK 0x1000, s\<lparr>pc := 0x1000\<rparr>)"
    using assms(5,6) by (simp add: get_phys_addr_def effective_priv_def ACCESS_CODE_def MAX_XLEN_def)
  show ?thesis
    using assms(1-4,7,9) rg b1
    by (auto simp: fetch_def fetch_block_def fetch_at_def Let_def target_read_insn_ptr_def target_read_insn_slow_def
        tr PG_MASK_def)
qed

lemma round_next:
  assumes "0 < w_left w" and "w_ptr w = Some p" and "get_insn32 (mem_map s) p = Some insn"
  shows "fetch w s = Some (Fetched insn w s)"
  using assms by (simp add: fetch_def)

section \<open>The run\<close>

lemma round_exec:
  assumes "fetch w s = Some (Fetched insn w1 s1)"
    and "exec_insn D insn (w_pc w1) ica (s1\<lparr>n_cycles := n_cycles s1 - 1\<rparr>) = Some (fl, s2)"
  shows "fl = NEXT_INSN \<Longrightarrow> round D ica w s = Some (Inr (advance w1 4, s2))"
    and "fl = JUMP_INSN \<Longrightarrow> round D ica w s = Some (Inr (null_window (pc s2), s2))"
  using assms by (simp_all add: round_def)

definition code_window :: "nat \<Rightarrow> window" where
  "code_window k = \<lparr>w_ptr = Some (1, 0x1000 + 4 * int k), w_left = 4094 - 4 * int k, w_pc = 0x1000 + 4 * of_nat k\<rparr>"

lemma advance_code: "advance (code_window k) 4 = code_window (Suc k)"
  by (simp add: advance_def code_window_def algebra_simps)

text \<open>What the machine looks like when it starts.\<close>

definition reset_state :: "vm \<Rightarrow> u64 \<Rightarrow> bool" where
  "reset_state s ram \<longleftrightarrow> pc s = 0x1000 \<and> priv s = PRV_M \<and> cur_xlen s = 32 \<and> mip s = 0 \<and> insn_counter s = 0 \<and>
     mhartid s = 0 \<and> \<not> power_down_flag s \<and> te_vaddr (tlb_code s (tlb_index 0x1000)) = - 1 \<and> boot_map (mem_map s) ram"

lemma cpu_init_reset: "boot_map mm ram \<Longrightarrow> reset_state (riscv_cpu_init mm d) ram"
  by (simp add: reset_state_def riscv_cpu_init_def Let_def tlb_init_def zero_cpu_def MAX_XLEN_def tlb_index_def TLB_SIZE_def
      PG_SHIFT_def mask_eq_exp_minus_1)

lemma reset_state_upd [simp]: "reset_state (upd f s) = reset_state s"
  by (rule ext) (simp add: reset_state_def upd_def)

lemma machine_create_reset:
  assumes "machine_create T ram rt = Some s"
  shows "reset_state s ram"
proof -
  from assms obtain mm where mm: "machine_map ram = Some mm"
    by (auto simp: machine_create_def bind_Some_conv)
  have "reset_state (riscv_cpu_init mm (zero_machine ram rt)) ram"
    using machine_map_boot [OF mm] by (rule cpu_init_reset)
  with assms mm show ?thesis
    by (auto simp: machine_create_def rtc_get_real_time_def Let_def case_prod_beta)
qed

lemma reset_run:
  assumes r: "reset_state s ram"
    and code: "bytes_at (mem_map s) 1 0x1000 20 = concat (map (\<lambda>w. le_bytes 4 (unat w)) (reset_code 0x1040))"
  shows "\<exists>s'. riscv_machine_interp T U 5 s = Some (Some s') \<and> pc s' = 0x80000000 \<and> reg s' 10 = 0 \<and>
    reg s' 11 = 0x1040 \<and> priv s' = PRV_M \<and> insn_counter s' = 5 \<and> mem_map s' = mem_map s"
proof -
  let ?D = "machine_ops T U"
  have boot: "boot_map (mem_map s) ram" and pcs: "pc s = 0x1000" and ic: "insn_counter s = 0"
    and hart: "mhartid s = 0" and m: "priv s = PRV_M" and x: "cur_xlen s = 32" and pd: "\<not> power_down_flag s"
    and irq: "mip s = 0" and tl: "te_vaddr (tlb_code s (tlb_index 0x1000)) = - 1"
    using r by (simp_all add: reset_state_def)
  have ins: "get_insn32 (mem_map s) (1, 0x1000 + 4 * int k) = Some (reset_code 0x1040 ! k)" if "k < 5" for k
    using fetch_word [OF code boot _ that] by (simp add: reset_code_def)
  define s0 where "s0 = s\<lparr>n_cycles := 5, pending_exception := - 1\<rparr>"
  have f0: "mem_map s0 = mem_map s" "n_cycles s0 = 5" "priv s0 = PRV_M" "mhartid s0 = 0" by (simp_all add: s0_def m hart)
  obtain tl' where "fetch (null_window 0x1000) s0 = Some (Fetched 0x7ffff297 (code_window 0) (s0\<lparr>pc := 0x1000, tlb_code := tl'\<rparr>))"
    using round_first [of "null_window 0x1000" s0 ram "0x7ffff297"] ins [of 0] boot m x irq tl
    by (auto simp: s0_def null_window_def code_window_def reset_words)
  note r0 = round_exec(1) [OF this, of ?D 5]
  define s1 where "s1 = s0\<lparr>pc := 0x1000, tlb_code := tl', n_cycles := 4, reg := (reg s0)(5 := 0x80000000)\<rparr>"
  have r1: "round ?D 5 (null_window 0x1000) s0 = Some (Inr (code_window 1, s1))"
    using r0 advance_code [of 0] by (simp add: f0 exec_reset code_window_def [of 0] s1_def)
  have nxt: "round ?D 5 (code_window k) t = Some (Inr (code_window (Suc k), t'))"
    if "k < 5" "mem_map t = mem_map s"
      "exec_insn ?D (reset_code 0x1040 ! k) (0x1000 + 4 * of_nat k) 5 (t\<lparr>n_cycles := n_cycles t - 1\<rparr>) = Some (NEXT_INSN, t')"
    for k t t'
  proof -
    have "fetch (code_window k) t = Some (Fetched (reset_code 0x1040 ! k) (code_window k) t)"
      using that(1,2) ins [OF that(1)] by (intro round_next) (simp_all add: code_window_def)
    from round_exec(1) [OF this] show ?thesis using that(3) advance_code [of k] by (simp add: code_window_def [of k])
  qed
  define s2 where "s2 = s1\<lparr>n_cycles := 3, reg := (reg s1)(11 := 0x1004)\<rparr>"
  have r2: "round ?D 5 (code_window 1) s1 = Some (Inr (code_window 2, s2))"
    using nxt [of 1 s1 s2] by (simp add: s2_def s1_def f0 exec_reset reset_words numeral_2_eq_2)
  define s3 where "s3 = s2\<lparr>n_cycles := 2, reg := (reg s2)(11 := 0x1040)\<rparr>"
  have r3: "round ?D 5 (code_window 2) s2 = Some (Inr (code_window 3, s3))"
    using nxt [of 2 s2 s3] by (simp add: s3_def s2_def s1_def f0 exec_reset reset_words)
  define s4 where "s4 = s3\<lparr>n_cycles := 1, insn_counter := 4, reg := (reg s3)(10 := 0)\<rparr>"
  have r4: "round ?D 5 (code_window 3) s3 = Some (Inr (code_window 4, s4))"
    using nxt [of 3 s3 s4] by (simp add: s4_def s3_def s2_def s1_def f0 exec_reset reset_words GET_INSN_COUNTER_def)
  define s5 where "s5 = s4\<lparr>n_cycles := 0, pc := 0x80000000\<rparr>"
  have "fetch (code_window 4) s4 = Some (Fetched 0x28067 (code_window 4) s4)"
    using ins [of 4] by (intro round_next) (simp_all add: code_window_def reset_words s4_def s3_def s2_def s1_def f0)
  from round_exec(2) [OF this, of ?D 5 JUMP_INSN s5]
  have r5: "round ?D 5 (code_window 4) s4 = Some (Inr (null_window 0x80000000, s5))"
    by (simp add: code_window_def [of 4] exec_reset s5_def s4_def s3_def s2_def s1_def)
  define s6 where "s6 = s5\<lparr>insn_counter := 5\<rparr>"
  have r6: "round ?D 5 (null_window 0x80000000) s5 = Some (Inl s6)"
    by (simp add: round_def fetch_def fetch_block_def null_window_def Let_def s5_def s6_def finish_def GET_INSN_COUNTER_def)
  have fuel: "interp_fuel 5 = Suc (Suc (Suc (Suc (Suc (Suc 2049)))))" by (simp add: interp_fuel_def)
  have "rounds (interp_fuel 5) ?D 5 (null_window 0x1000) s0 = Some (Some s6)"
    unfolding fuel rounds.simps(2) by (simp add: r1 r2 [unfolded One_nat_def] r3 r4 r5 r6 del: rounds.simps)
  then have run: "riscv_cpu_interp_x32 ?D 5 s = Some (Some s6)"
    by (simp add: riscv_cpu_interp_x32_def Let_def irq ic pcs s0_def)
  have two: "nat 5 + 1 = Suc (Suc 4)" by simp
  have "interp_loop (nat 5 + 1) ?D (insn_counter s + word_of_int 5) s = Some (Some s6)"
    unfolding two interp_loop.simps(2) using run pd x by (simp add: ic s6_def Let_def)
  then have "riscv_machine_interp T U 5 s = Some (Some s6)"
    by (simp add: riscv_machine_interp_def riscv_cpu_interp_def)
  moreover have "reg s6 11 = 0x1040" "reg s6 10 = 0" "pc s6 = 0x80000000" "priv s6 = PRV_M" "insn_counter s6 = 5" "mem_map s6 = mem_map s"
    by (simp_all add: s6_def s5_def s4_def s3_def s2_def s1_def f0)
  ultimately show ?thesis by blast
qed

text \<open>
  C6. From reset to the BIOS: a machine that \<open>riscv_machine_init\<close> has set up, run for five cycles, has executed
  the reset code in its low RAM and is in machine mode at \<open>0x80000000\<close>, the start of the BIOS image,
  with the hart number in \<open>a0\<close> and the address of the device tree in \<open>a1\<close>, as the boot protocol asks.
\<close>

theorem boot_to_bios:
  assumes page: "unat (p_ram_size p) mod 4096 = 0" and ram: "p_ram_size p < 2 ^ 63" "p_ram_size p \<noteq> 0"
    and len: "length (p_bios p) < 2 ^ 31" "length (p_bios p) \<le> unat (p_ram_size p)"
    and k: "fits (p_ram_size p) (kernel_base_of (p_bios p) (p_kernel p)) (p_kernel p)"
    and i: "fits (p_ram_size p) (initrd_base_of (p_ram_size p) (p_initrd p)) (p_initrd p)"
    and cmd: "length (case p_cmdline p of None \<Rightarrow> [] | Some c \<Rightarrow> c) \<le> 50000"
  shows "\<exists>s s'. riscv_machine_init T p = Some (OK s) \<and> riscv_machine_interp T U 5 s = Some (Some s') \<and>
    pc s' = 0x80000000 \<and> reg s' 10 = 0 \<and> reg s' 11 = 0x1040 \<and> priv s' = PRV_M \<and> insn_counter s' = 5 \<and>
    mem_map s' = mem_map s"
proof -
  obtain s0 where c: "machine_create T (p_ram_size p) (p_rtc_real_time p) = Some s0"
    using page ram machine_create_some [of T "p_ram_size p" "p_rtc_real_time p"]
    by (cases "machine_create T (p_ram_size p) (p_rtc_real_time p)") simp_all
  from copy_bios_ok [OF c ram len k i cmd] obtain s where
    b: "copy_bios s0 (p_bios p) (p_kernel p) (p_initrd p) (p_cmdline p) = Some (OK s)"
    and l: "same_layout (mem_map s0) (mem_map s)" and s: "s = s0\<lparr>mem_map := mem_map s\<rparr>"
    and code: "bytes_at (mem_map s) 1 0x1000 20 = concat (map (\<lambda>w. le_bytes 4 (unat w)) (reset_code 0x1040))"
    by (elim exE conjE)
  have init: "riscv_machine_init T p = Some (OK s)" using c b by (simp add: riscv_machine_init_def)
  have "reset_state (s0\<lparr>mem_map := mem_map s\<rparr>) (p_ram_size p)"
    using machine_create_reset [OF c] boot_map_layout [OF l] by (simp add: reset_state_def)
  then have "reset_state s (p_ram_size p)" using s by metis
  from reset_run [OF this code] init show ?thesis by blast
qed

theorem boot_to_bios_witness:
  "\<exists>s s'. riscv_machine_init (\<lambda>_. (0, 0)) sample_params = Some (OK s) \<and>
    riscv_machine_interp (\<lambda>_. (0, 0)) (\<lambda>_ _. 0) 5 s = Some (Some s') \<and>
    pc s' = 0x80000000 \<and> reg s' 10 = 0 \<and> reg s' 11 = 0x1040 \<and> priv s' = PRV_M \<and> insn_counter s' = 5 \<and>
    mem_map s' = mem_map s"
  by (rule boot_to_bios) (simp_all add: sample_params_def fits_def)

end
