(* ===== verification/Riscv_Devices_Props.thy ===== *)
theory Riscv_Devices_Props
  imports Riscv_Machine_Props
begin

text \<open>
  The timer and the console as their drivers see them: when the timer interrupt is raised and how long the
  host may sleep, what the halves of \<open>mtimecmp\<close> hold after they are written in either order, and what
  the HTIF commands do.
\<close>

section \<open>The timer\<close>

lemma mip_set_timer: "mip (riscv_cpu_set_mip s m) = mip s OR m"
  by (simp add: riscv_cpu_set_mip_def Let_def)

lemma or_and_self: "(a OR b) AND b = b" for a b :: u32
  by (rule bit_word_eqI) (auto simp: bit_simps)

lemma rtc_fields: "mip (snd (rtc_get_time T s)) = mip s" "timecmp (dev (snd (rtc_get_time T s))) = timecmp (dev s)"
  "mie (snd (rtc_get_time T s)) = mie s" "power_down_flag (snd (rtc_get_time T s)) = power_down_flag s"
  by (simp_all add: rtc_get_time_def rtc_get_real_time_def case_prod_beta Let_def)

lemma MTIP_nonzero: "MIP_MTIP \<noteq> 0"
  by (simp add: MIP_MTIP_def)

text \<open>
  C8. The timer: after \<open>riscv_machine_get_sleep_duration\<close> the timer interrupt is pending exactly if it was or
  if \<open>mtimecmp\<close> has been reached (the difference to the clock, as a signed number, is not positive);
  reaching it wakes up a CPU that waits for this interrupt. The duration is between 0 and the one asked
  for, it is 0 unless the CPU sleeps, and sleeping for it does not miss the timer.
\<close>

theorem timer_sleep:
  assumes "0 \<le> delay" and "riscv_machine_get_sleep_duration T delay s = (d, s')"
  shows "(mip s' AND MIP_MTIP \<noteq> 0 \<longleftrightarrow>
      mip s AND MIP_MTIP \<noteq> 0 \<or> sint (timecmp (dev s) - fst (rtc_get_time T s)) \<le> 0) \<and>
    (mip s AND MIP_MTIP = 0 \<and> mip s' AND MIP_MTIP \<noteq> 0 \<and> mie s AND MIP_MTIP \<noteq> 0 \<longrightarrow> \<not> power_down_flag s') \<and>
    0 \<le> d \<and> d \<le> delay \<and> (d \<noteq> 0 \<longrightarrow> power_down_flag s') \<and>
    (mip s AND MIP_MTIP = 0 \<and> d \<noteq> 0 \<longrightarrow> d * 10000 \<le> sint (timecmp (dev s) - fst (rtc_get_time T s)))"
proof (cases "mip s AND MIP_MTIP = 0")
  case False
  then have "s' = s" "d = (if power_down_flag s then delay else 0)"
    using assms(2) by (auto simp: riscv_machine_get_sleep_duration_def riscv_cpu_get_mip_def riscv_cpu_get_power_down_def)
  then show ?thesis using False assms(1) by auto
next
  case pending: True
  obtain now s1 where t: "rtc_get_time T s = (now, s1)" by fastforce
  have f: "mip s1 = mip s" "timecmp (dev s1) = timecmp (dev s)" "mie s1 = mie s"
    using rtc_fields [of T s] by (simp_all add: t)
  define delay1 where "delay1 = sint (timecmp (dev s) - now)"
  show ?thesis
  proof (cases "delay1 \<le> 0")
    case True
    then have s': "s' = riscv_cpu_set_mip s1 MIP_MTIP" and d: "d = 0"
      using assms(2) pending t f
      by (auto simp: riscv_machine_get_sleep_duration_def riscv_cpu_get_mip_def riscv_cpu_get_power_down_def delay1_def)
    have m: "mip s' AND MIP_MTIP = MIP_MTIP" unfolding s' mip_set_timer by (rule or_and_self)
    have "\<not> power_down_flag s'" if "mie s AND MIP_MTIP \<noteq> 0"
    proof -
      have "(mip s1 OR MIP_MTIP) AND mie s1 \<noteq> 0"
      proof
        assume z: "(mip s1 OR MIP_MTIP) AND mie s1 = 0"
        have "mie s AND MIP_MTIP = ((mip s1 OR MIP_MTIP) AND mie s1) AND MIP_MTIP"
          unfolding f(3) by (rule bit_word_eqI) (auto simp: bit_simps)
        with z that show False by simp
      qed
      then show ?thesis by (simp add: s' riscv_cpu_set_mip_def Let_def)
    qed
    then show ?thesis using True pending m d assms(1) MTIP_nonzero t by (simp add: delay1_def)
  next
    case False
    have s': "s' = s1" and d: "d = (if power_down_flag s1 then min delay (delay1 div 10000) else 0)"
      using assms(2) pending t f False
      by (auto simp: riscv_machine_get_sleep_duration_def riscv_cpu_get_mip_def riscv_cpu_get_power_down_def
          delay1_def RTC_FREQ_def)
    have "0 \<le> delay1 div 10000" "delay1 div 10000 * 10000 \<le> delay1" using False by simp_all
    then show ?thesis using False pending d s' f assms(1) t by (auto simp: delay1_def)
  qed
qed

theorem timer_sleep_witness:
  "\<exists>d s'. riscv_machine_get_sleep_duration (\<lambda>_. (0, 0)) 10 sample_vm = (d, s') \<and> 0 \<le> d \<and> d \<le> 10"
proof -
  obtain d s' where "riscv_machine_get_sleep_duration (\<lambda>_. (0, 0)) 10 sample_vm = (d, s')" by fastforce
  then show ?thesis using timer_sleep [of 10 "\<lambda>_. (0, 0)" sample_vm d s'] by auto
qed

text \<open>
  The halves of \<open>mtimecmp\<close>: writing the low word and then the high word sets both, and the timer
  interrupt is no longer pending. Writing the low word last does not: \<open>~0xffffffff\<close> is zero in the
  32-bit type of the constant, so the low write clears the high word. The write sequence that the RISC-V
  privileged specification recommends for RV32 ends with the low word.
\<close>

theorem timecmp_halves:
  "clint_write 0x4000 lo 2 s \<bind> clint_write 0x4004 hi 2 =
     Some (riscv_cpu_reset_mip (upd (\<lambda>m. m\<lparr>timecmp := push_bit 32 (ucast hi) OR ucast lo\<rparr>) s) MIP_MTIP) \<and>
   clint_write 0x4004 hi 2 s \<bind> clint_write 0x4000 lo 2 =
     Some (riscv_cpu_reset_mip (upd (\<lambda>m. m\<lparr>timecmp := ucast lo\<rparr>) s) MIP_MTIP)"
proof -
  have n: "NOT_LOW = 0" by (simp add: NOT_LOW_def)
  have l: "(ucast lo AND 0xffffffff :: u64) = ucast lo"
  proof -
    have "(ucast lo AND mask 32 :: u64) = ucast lo"
      by (rule bit_word_eqI) (auto simp: bit_simps dest: bit_imp_le_length)
    then show ?thesis by (simp add: mask_eq_exp_minus_1)
  qed
  have rr: "riscv_cpu_reset_mip (riscv_cpu_reset_mip s m) m = riscv_cpu_reset_mip s m" for s :: vm and m
    by (simp add: riscv_cpu_reset_mip_def and.assoc)
  have ur: "upd f (riscv_cpu_reset_mip s m) = riscv_cpu_reset_mip (upd f s) m" for f and s :: vm and m
    by (simp add: riscv_cpu_reset_mip_def upd_def)
  have uu: "upd f (upd g s) = upd (f \<circ> g) s" for f g s by (simp add: upd_def)
  have c: "(\<lambda>m. m\<lparr>timecmp := (timecmp m AND 0xffffffff) OR push_bit 32 (ucast hi)\<rparr>) \<circ>
      (\<lambda>m. m\<lparr>timecmp := ucast lo\<rparr>) = (\<lambda>m. m\<lparr>timecmp := push_bit 32 (ucast hi) OR ucast lo\<rparr> :: machine)"
    by (rule ext) (simp add: l or.commute)
  have c2: "(\<lambda>m. m\<lparr>timecmp := ucast lo\<rparr>) \<circ> (\<lambda>m. m\<lparr>timecmp := (timecmp m AND 0xffffffff) OR push_bit 32 (ucast hi)\<rparr>) =
      (\<lambda>m. m\<lparr>timecmp := ucast lo\<rparr> :: machine)"
    by (rule ext) simp
  show ?thesis by (simp add: clint_write_def n ur uu rr c c2)
qed

section \<open>The console\<close>

lemma tohost_fields:
  fixes c k :: u32
  defines "x \<equiv> ucast c OR push_bit 32 (ucast k) :: u64"
  shows "ucast (drop_bit 56 x) = drop_bit 24 k" and "ucast (drop_bit 48 x AND 0xff) = drop_bit 16 k AND 0xff"
    and "ucast (x AND 0xff) = (ucast c :: u8)" and "ucast c AND 0xffffffff = (ucast c :: u64)"
proof -
  have m: "(0xff :: u64) = mask 8" "(0xff :: u32) = mask 8" "(0xffffffff :: u64) = mask 32"
    by (simp_all add: mask_eq_exp_minus_1)
  show "ucast (drop_bit 56 x) = drop_bit 24 k" unfolding x_def
    by (rule bit_word_eqI) (auto simp: bit_simps dest: bit_imp_le_length)
  show "ucast (drop_bit 48 x AND 0xff) = drop_bit 16 k AND 0xff" unfolding x_def m
    by (rule bit_word_eqI) (auto simp: bit_simps dest: bit_imp_le_length)
  show "ucast (x AND 0xff) = (ucast c :: u8)" unfolding x_def m
    by (rule bit_word_eqI) (auto simp: bit_simps dest: bit_imp_le_length)
  show "ucast c AND 0xffffffff = (ucast c :: u64)" unfolding m
    by (rule bit_word_eqI) (auto simp: bit_simps dest: bit_imp_le_length)
qed

lemma htif_two_writes:
  "htif_write 0 c 2 s \<bind> htif_write 4 k 2 =
     Some (htif_handle_cmd (upd (\<lambda>m. m\<lparr>htif_tohost := ucast c OR push_bit 32 (ucast k)\<rparr>) s))"
proof -
  have n: "NOT_LOW = 0" by (simp add: NOT_LOW_def)
  have "upd f (upd g s) = upd (f \<circ> g) s" for f g s by (simp add: upd_def)
  moreover have "(\<lambda>m. m\<lparr>htif_tohost := (htif_tohost m AND 0xffffffff) OR push_bit 32 (ucast k)\<rparr>) \<circ>
      (\<lambda>m. m\<lparr>htif_tohost := ucast c\<rparr>) = (\<lambda>m. m\<lparr>htif_tohost := ucast c OR push_bit 32 (ucast k)\<rparr> :: machine)"
    by (rule ext) (simp add: tohost_fields(4))
  ultimately show ?thesis by (simp add: htif_write_def n)
qed

text \<open>
  C23. HTIF: writing a character to the low word of \<open>tohost\<close> and the command 1 of device 1 to the high word appends
  this character (and only its low byte) to the console output, frees \<open>tohost\<close> for the next command and
  acknowledges in \<open>fromhost\<close>; writing 1 and then 0 switches the machine off; the input command is ignored.
\<close>

theorem htif_console:
  "htif_write 0 c 2 s \<bind> htif_write 4 0x01010000 2 =
     Some (upd (\<lambda>m. m\<lparr>console := console m @ [ucast c], htif_tohost := 0, htif_fromhost := 0x0101000000000000\<rparr>) s) \<and>
   htif_write 0 1 2 s \<bind> htif_write 4 0 2 = Some (upd (\<lambda>m. m\<lparr>htif_tohost := 1, vm_exit := True\<rparr>) s) \<and>
   htif_write 0 c 2 s \<bind> htif_write 4 0x01000000 2 = Some (upd (\<lambda>m. m\<lparr>htif_tohost := 0\<rparr>) s)"
proof (intro conjI)
  have ne: "(ucast c OR push_bit 32 (ucast k) :: u64) \<noteq> 1" if "drop_bit 24 k \<noteq> 0" for c k :: u32

  proof
    assume "(ucast c OR push_bit 32 (ucast k) :: u64) = 1"
    then have "drop_bit 24 k = ucast (drop_bit 56 (1 :: u64))" using tohost_fields(1) [of c k] by metis
    then show False using that by simp
  qed
  have uu: "upd f (upd g s) = upd (f \<circ> g) s" for f g s by (simp add: upd_def)
  show "htif_write 0 c 2 s \<bind> htif_write 4 0x01010000 2 =
     Some (upd (\<lambda>m. m\<lparr>console := console m @ [ucast c], htif_tohost := 0, htif_fromhost := 0x0101000000000000\<rparr>) s)"
    using tohost_fields(1-3) [of c "0x01010000"] ne [of "0x01010000" c]
    unfolding htif_two_writes htif_handle_cmd_def Let_def
    by (simp add: upd_def)
  show "htif_write 0 c 2 s \<bind> htif_write 4 0x01000000 2 = Some (upd (\<lambda>m. m\<lparr>htif_tohost := 0\<rparr>) s)"
    using tohost_fields(1-3) [of c "0x01000000"] ne [of "0x01000000" c]
    unfolding htif_two_writes htif_handle_cmd_def Let_def
    by (simp add: upd_def)
  show "htif_write 0 1 2 s \<bind> htif_write 4 0 2 = Some (upd (\<lambda>m. m\<lparr>htif_tohost := 1, vm_exit := True\<rparr>) s)"
    unfolding htif_two_writes htif_handle_cmd_def Let_def by (simp add: upd_def)
qed

end
