(* ===== verification/Virtio.thy ===== *)
theory Virtio
  imports Cutils Iomem
begin

text \<open>
  The core of \<open>virtio.c\<close>: the register file of a virtio device (MMIO and PCI), its configuration space, and
  the queues in guest memory. The configuration is that of the 32-bit build (\<open>VIRTIO_ADDR_BITS\<close> is 32),
  so a guest physical address is a 32-bit word. Both buses resolve an address with
  \<open>phys_mem_get_ram_ptr\<close>. The level of the interrupt line of the device is the field \<open>irq\<close>.

  \<open>None\<close> is an outcome that does not return normally: an access outside a buffer, a read of
  an uninitialised variable, signed overflow, \<open>abort\<close>, or a loop that does not end. The functions with
  unbounded loops are partial functions of the option monad.
\<close>

section \<open>State\<close>

definition MAX_QUEUE :: nat where "MAX_QUEUE = 8"
definition MAX_CONFIG_SPACE_SIZE :: nat where "MAX_CONFIG_SPACE_SIZE = 256"
definition MAX_QUEUE_NUM :: u32 where "MAX_QUEUE_NUM = 16"
definition VIRTIO_PAGE_SIZE :: nat where "VIRTIO_PAGE_SIZE = 4096"
definition VRING_DESC_F_NEXT :: u16 where "VRING_DESC_F_NEXT = 1"
definition VRING_DESC_F_WRITE :: u16 where "VRING_DESC_F_WRITE = 2"

record queue_state =
  q_ready :: u32
  q_num :: u32
  last_avail_idx :: u16
  desc_addr :: u32
  avail_addr :: u32
  used_addr :: u32
  manual_recv :: bool

record virtio = mem_state +
  irq :: bool
  int_status :: u32
  status :: u32
  device_features_sel :: u32
  queue_sel :: u32
  queue :: "queue_state list"
  device_id :: u32
  vendor_id :: u32
  device_features :: u32
  config_space_size :: u32
  config_space :: "u8 list"

definition get_queue :: "'a virtio_scheme \<Rightarrow> nat \<Rightarrow> queue_state option" where
  "get_queue s i = (if i < length (queue s) then Some (queue s ! i) else None)"

definition upd_queue :: "nat \<Rightarrow> (queue_state \<Rightarrow> queue_state) \<Rightarrow> 'a virtio_scheme \<Rightarrow> 'a virtio_scheme" where
  "upd_queue i f s = s\<lparr>queue := (queue s)[i := f (queue s ! i)]\<rparr>"

definition set_irq :: "bool \<Rightarrow> 'a virtio_scheme \<Rightarrow> 'a virtio_scheme" where
  "set_irq level s = s\<lparr>irq := level\<rparr>"

definition reset_queue :: "queue_state \<Rightarrow> queue_state" where
  "reset_queue qs = qs\<lparr>q_ready := 0, q_num := MAX_QUEUE_NUM, desc_addr := 0, avail_addr := 0, used_addr := 0,
     last_avail_idx := 0\<rparr>"

definition virtio_reset :: "'a virtio_scheme \<Rightarrow> 'a virtio_scheme" where
  "virtio_reset s = s\<lparr>status := 0, queue_sel := 0, device_features_sel := 0, int_status := 0,
     queue := map reset_queue (queue s)\<rparr>"

section \<open>Guest memory\<close>

definition virtio_get_ram_ptr :: "'a virtio_scheme \<Rightarrow> u32 \<Rightarrow> bool \<Rightarrow> (hostptr option \<times> 'a virtio_scheme) option" where
  "virtio_get_ram_ptr s paddr is_rw =
     do { (p, mm) \<leftarrow> phys_mem_get_ram_ptr (mem_map s) (ucast paddr) is_rw; Some (p, s\<lparr>mem_map := mm\<rparr>) }"

definition host_read_bytes :: "mem_map_t \<Rightarrow> hostptr \<Rightarrow> nat \<Rightarrow> u8 list option" where
  "host_read_bytes mm p n =
     (if host_ok mm p n then Some (read_bytes (pr_phys_mem (mm ! fst p)) (nat (snd p)) n) else None)"

definition virtio_read16 :: "'a virtio_scheme \<Rightarrow> u32 \<Rightarrow> u16 option" where
  "virtio_read16 s addr =
     (if addr AND 1 \<noteq> 0 then Some 0
      else do { (p, _) \<leftarrow> virtio_get_ram_ptr s addr False;
                case p of None \<Rightarrow> Some 0 | Some ptr \<Rightarrow> map_option of_nat (host_read (mem_map s) ptr 2) })"

definition virtio_write16 :: "'a virtio_scheme \<Rightarrow> u32 \<Rightarrow> u16 \<Rightarrow> 'a virtio_scheme option" where
  "virtio_write16 s addr val =
     (if addr AND 1 \<noteq> 0 then Some s
      else do { (p, s) \<leftarrow> virtio_get_ram_ptr s addr True;
                case p of None \<Rightarrow> Some s
                | Some ptr \<Rightarrow> do { mm \<leftarrow> host_write (mem_map s) ptr 2 (unat val); Some (s\<lparr>mem_map := mm\<rparr>) } })"

definition virtio_write32 :: "'a virtio_scheme \<Rightarrow> u32 \<Rightarrow> u32 \<Rightarrow> 'a virtio_scheme option" where
  "virtio_write32 s addr val =
     (if addr AND 3 \<noteq> 0 then Some s
      else do { (p, s) \<leftarrow> virtio_get_ram_ptr s addr True;
                case p of None \<Rightarrow> Some s
                | Some ptr \<Rightarrow> do { mm \<leftarrow> host_write (mem_map s) ptr 4 (unat val); Some (s\<lparr>mem_map := mm\<rparr>) } })"

text \<open>How much of a copy is left in the page of \<open>addr\<close>.\<close>

definition page_part :: "u32 \<Rightarrow> nat \<Rightarrow> nat" where
  "page_part addr count = min count (VIRTIO_PAGE_SIZE - unat (addr AND 0xfff))"

lemma page_part_bounds: "0 < count \<Longrightarrow> 0 < page_part addr count" "page_part addr count \<le> count"
proof -
  have "unat (addr AND mask 12) < 4096" by (simp add: word_and_mask_mod)
  then show "0 < count \<Longrightarrow> 0 < page_part addr count"
    by (simp add: page_part_def VIRTIO_PAGE_SIZE_def mask_eq_exp_minus_1)
  show "page_part addr count \<le> count" by (simp add: page_part_def)
qed

text \<open>
  The bytes that were copied, and whether all were; \<open>count\<close> is 0 for the negative counts of the C code, whose
  loop does nothing then.
\<close>

function virtio_memcpy_from_ram :: "'a virtio_scheme \<Rightarrow> u32 \<Rightarrow> nat \<Rightarrow> (u8 list \<times> bool) option" where
  "virtio_memcpy_from_ram s addr count =
     (if count = 0 then Some ([], True)
      else let l = page_part addr count in
        do { (p, _) \<leftarrow> virtio_get_ram_ptr s addr False;
             case p of None \<Rightarrow> Some ([], False)
             | Some ptr \<Rightarrow> do { bs \<leftarrow> host_read_bytes (mem_map s) ptr l;
                             (r, ok) \<leftarrow> virtio_memcpy_from_ram s (addr + of_nat l) (count - l);
                             Some (bs @ r, ok) } })"
  by pat_completeness auto

termination
  by (relation "measure (\<lambda>(s, addr, count). count)") (use page_part_bounds in auto)

function virtio_memcpy_to_ram :: "'a virtio_scheme \<Rightarrow> u32 \<Rightarrow> u8 list \<Rightarrow> ('a virtio_scheme \<times> bool) option" where
  "virtio_memcpy_to_ram s addr buf =
     (if buf = [] then Some (s, True)
      else let l = page_part addr (length buf) in
        do { (p, s) \<leftarrow> virtio_get_ram_ptr s addr True;
             case p of None \<Rightarrow> Some (s, False)
             | Some ptr \<Rightarrow> do { mm \<leftarrow> host_write_bytes (mem_map s) ptr (take l buf);
                             virtio_memcpy_to_ram (s\<lparr>mem_map := mm\<rparr>) (addr + of_nat l) (drop l buf) } })"
  by pat_completeness auto

termination
  by (relation "measure (\<lambda>(s, addr, buf). length buf)") (use page_part_bounds in auto)

declare virtio_memcpy_from_ram.simps [simp del] virtio_memcpy_to_ram.simps [simp del]

section \<open>Descriptors\<close>

text \<open>A \<open>VIRTIODesc\<close> is the list of its 16 bytes; the fields are little-endian.\<close>

type_synonym vdesc = "u8 list"

definition d_addr :: "vdesc \<Rightarrow> u64" where "d_addr d = of_nat (le_val (take 8 d))"
definition d_len :: "vdesc \<Rightarrow> u32" where "d_len d = of_nat (le_val (take 4 (drop 8 d)))"
definition d_flags :: "vdesc \<Rightarrow> u16" where "d_flags d = of_nat (le_val (take 2 (drop 12 d)))"
definition d_next :: "vdesc \<Rightarrow> u16" where "d_next d = of_nat (le_val (take 2 (drop 14 d)))"

definition d_write :: "vdesc \<Rightarrow> bool" where "d_write d \<longleftrightarrow> d_flags d AND VRING_DESC_F_WRITE \<noteq> 0"
definition d_has_next :: "vdesc \<Rightarrow> bool" where "d_has_next d \<longleftrightarrow> d_flags d AND VRING_DESC_F_NEXT \<noteq> 0"

text \<open>
  \<open>old\<close> is what the variable \<open>desc\<close> of the caller holds, \<open>None\<close> if it is uninitialised. The result of the copy is
  not checked: when it fails, the bytes that were not copied keep their old value.
\<close>

definition get_desc :: "'a virtio_scheme \<Rightarrow> vdesc option \<Rightarrow> nat \<Rightarrow> u16 \<Rightarrow> vdesc option" where
  "get_desc s old queue_idx desc_idx =
     do { qs \<leftarrow> get_queue s queue_idx;
          (bs, ok) \<leftarrow> virtio_memcpy_from_ram s (desc_addr qs + ucast desc_idx * 16) 16;
          if ok then Some bs
          else case old of None \<Rightarrow> None | Some d \<Rightarrow> Some (bs @ drop (length bs) d) }"

section \<open>Copying to and from a queue\<close>

text \<open>The first loop: the first descriptor the device may write; \<open>Some None\<close> is the return of -1.\<close>

partial_function (option) find_write_desc :: "'a virtio_scheme \<Rightarrow> nat \<Rightarrow> vdesc \<Rightarrow> vdesc option option" where
  "find_write_desc s q d =
     (if d_write d then Some (Some d)
      else if \<not> d_has_next d then Some None
      else do { d' \<leftarrow> get_desc s (Some d) q (d_next d); find_write_desc s q d' })"

text \<open>The second loop: the descriptor at \<open>offset\<close>, and the offset in it.\<close>

partial_function (option) find_offset ::
    "'a virtio_scheme \<Rightarrow> nat \<Rightarrow> bool \<Rightarrow> vdesc \<Rightarrow> u32 \<Rightarrow> (vdesc \<times> u32) option option" where
  "find_offset s q wr d offset =
     (if d_write d \<noteq> wr then Some None
      else if offset < d_len d then Some (Some (d, offset))
      else if \<not> d_has_next d then Some None
      else do { d' \<leftarrow> get_desc s (Some d) q (d_next d); find_offset s q wr d' (offset - d_len d) })"

text \<open>A part of the host buffer, at \<open>pos\<close>: \<open>None\<close> when it is not inside.\<close>

definition buf_slice :: "u8 list \<Rightarrow> int \<Rightarrow> int \<Rightarrow> u8 list option" where
  "buf_slice buf pos l =
     (if l \<le> 0 then Some []
      else if 0 \<le> pos \<and> pos + l \<le> int (length buf) then Some (take (nat l) (drop (nat pos) buf)) else None)"

definition buf_store :: "u8 list \<Rightarrow> int \<Rightarrow> u8 list \<Rightarrow> u8 list option" where
  "buf_store buf pos bs =
     (if bs = [] then Some buf
      else if 0 \<le> pos \<and> pos + int (length bs) \<le> int (length buf)
      then Some (take (nat pos) buf @ bs @ drop (nat pos + length bs) buf) else None)"

definition int32_range :: "int \<Rightarrow> bool" where
  "int32_range n \<longleftrightarrow> - (2 ^ 31) \<le> n \<and> n < 2 ^ 31"

text \<open>One copy of the third loop: between the host buffer and the part of the descriptor at \<open>offset\<close>.\<close>

definition copy_part ::
    "'a virtio_scheme \<Rightarrow> u8 list \<Rightarrow> vdesc \<Rightarrow> bool \<Rightarrow> u32 \<Rightarrow> int \<Rightarrow> int \<Rightarrow> (u8 list \<times> 'a virtio_scheme) option" where
  "copy_part s buf d to_queue offset pos l =
     (if to_queue
      then do { bs \<leftarrow> buf_slice buf pos l;
                (s, _) \<leftarrow> virtio_memcpy_to_ram s (ucast (d_addr d) + offset) bs;
                Some (buf, s) }
      else do { (bs, _) \<leftarrow> virtio_memcpy_from_ram s (ucast (d_addr d) + offset) (nat l);
                buf \<leftarrow> buf_store buf pos bs;
                Some (buf, s) })"

partial_function (option) copy_loop ::
    "'a virtio_scheme \<Rightarrow> nat \<Rightarrow> bool \<Rightarrow> u8 list \<Rightarrow> vdesc \<Rightarrow> u32 \<Rightarrow> int \<Rightarrow> int \<Rightarrow>
     (int \<times> u8 list \<times> 'a virtio_scheme) option" where
  "copy_loop s q to_queue buf d offset count pos =
     (let l = min count (sint (d_len d - offset)) in
      do { (buf, s) \<leftarrow> copy_part s buf d to_queue offset pos l;
           let count = count - l;
           if \<not> int32_range count then None
           else if count = 0 then Some (0, buf, s)
           else let offset = offset + word_of_int l; pos = pos + l in
             if offset = d_len d
             then (if \<not> d_has_next d then Some (- 1, buf, s)
                   else do { d \<leftarrow> get_desc s (Some d) q (d_next d);
                             if d_write d \<noteq> to_queue then Some (- 1, buf, s)
                             else copy_loop s q to_queue buf d 0 count pos })
             else copy_loop s q to_queue buf d offset count pos })"

definition memcpy_to_from_queue ::
    "'a virtio_scheme \<Rightarrow> u8 list \<Rightarrow> nat \<Rightarrow> u16 \<Rightarrow> u32 \<Rightarrow> int \<Rightarrow> bool \<Rightarrow> (int \<times> u8 list \<times> 'a virtio_scheme) option" where
  "memcpy_to_from_queue s buf queue_idx desc_idx offset count to_queue =
     (if count = 0 then Some (0, buf, s)
      else do { d \<leftarrow> get_desc s None queue_idx desc_idx;
                r \<leftarrow> (if to_queue then find_write_desc s queue_idx d else Some (Some d));
                case r of None \<Rightarrow> Some (- 1, buf, s)
                | Some d \<Rightarrow>
                  do { r \<leftarrow> find_offset s queue_idx to_queue d offset;
                       case r of None \<Rightarrow> Some (- 1, buf, s)
                       | Some (d, offset) \<Rightarrow> copy_loop s queue_idx to_queue buf d offset count 0 } })"

definition memcpy_from_queue ::
    "'a virtio_scheme \<Rightarrow> u8 list \<Rightarrow> nat \<Rightarrow> u16 \<Rightarrow> u32 \<Rightarrow> int \<Rightarrow> (int \<times> u8 list) option" where
  "memcpy_from_queue s buf queue_idx desc_idx offset count =
     do { (r, buf, _) \<leftarrow> memcpy_to_from_queue s buf queue_idx desc_idx offset count False; Some (r, buf) }"

definition memcpy_to_queue ::
    "'a virtio_scheme \<Rightarrow> nat \<Rightarrow> u16 \<Rightarrow> u32 \<Rightarrow> u8 list \<Rightarrow> int \<Rightarrow> (int \<times> 'a virtio_scheme) option" where
  "memcpy_to_queue s queue_idx desc_idx offset buf count =
     do { (r, _, s) \<leftarrow> memcpy_to_from_queue s buf queue_idx desc_idx offset count True; Some (r, s) }"

section \<open>Consuming descriptors\<close>

definition virtio_consume_desc :: "'a virtio_scheme \<Rightarrow> nat \<Rightarrow> u16 \<Rightarrow> u32 \<Rightarrow> 'a virtio_scheme option" where
  "virtio_consume_desc s queue_idx desc_idx desc_len =
     do { qs \<leftarrow> get_queue s queue_idx;
          let addr = used_addr qs + 2;
          index \<leftarrow> virtio_read16 s addr;
          s \<leftarrow> virtio_write16 s addr (index + 1);
          let addr = used_addr qs + 4 + (ucast index AND (q_num qs - 1)) * 8;
          s \<leftarrow> virtio_write32 s addr (ucast desc_idx);
          s \<leftarrow> virtio_write32 s (addr + 4) desc_len;
          Some (set_irq True (s\<lparr>int_status := int_status s OR 1\<rparr>)) }"

text \<open>The two loops of \<open>get_desc_rw_size\<close>: \<open>Inr\<close> is the \<open>goto done\<close> of a chain with no writable part.\<close>

partial_function (option) rw_read_loop :: "'a virtio_scheme \<Rightarrow> nat \<Rightarrow> vdesc \<Rightarrow> u32 \<Rightarrow> (vdesc \<times> u32 + u32) option" where
  "rw_read_loop s q d read_size =
     (if d_write d then Some (Inl (d, read_size))
      else let read_size = read_size + d_len d in
        if \<not> d_has_next d then Some (Inr read_size)
        else do { d \<leftarrow> get_desc s (Some d) q (d_next d); rw_read_loop s q d read_size })"

partial_function (option) rw_write_loop :: "'a virtio_scheme \<Rightarrow> nat \<Rightarrow> vdesc \<Rightarrow> u32 \<Rightarrow> u32 option option" where
  "rw_write_loop s q d write_size =
     (if \<not> d_write d then Some None
      else let write_size = write_size + d_len d in
        if \<not> d_has_next d then Some (Some write_size)
        else do { d \<leftarrow> get_desc s (Some d) q (d_next d); rw_write_loop s q d write_size })"

text \<open>The sizes, or \<open>Some None\<close> for the return of -1.\<close>

definition get_desc_rw_size :: "'a virtio_scheme \<Rightarrow> nat \<Rightarrow> u16 \<Rightarrow> (int \<times> int) option option" where
  "get_desc_rw_size s queue_idx desc_idx =
     do { d \<leftarrow> get_desc s None queue_idx desc_idx;
          r \<leftarrow> rw_read_loop s queue_idx d 0;
          case r of Inr read_size \<Rightarrow> Some (Some (sint read_size, 0))
          | Inl (d, read_size) \<Rightarrow>
              do { w \<leftarrow> rw_write_loop s queue_idx d 0;
                   Some (map_option (\<lambda>write_size. (sint read_size, sint write_size)) w) } }"

section \<open>Notification\<close>

type_synonym 'a recv_fn = "nat \<Rightarrow> u16 \<Rightarrow> int \<Rightarrow> int \<Rightarrow> 'a virtio_scheme \<Rightarrow> (int \<times> 'a virtio_scheme) option"

text \<open>The descriptor at position \<open>last_avail_idx\<close> of the available ring.\<close>

definition avail_desc :: "'a virtio_scheme \<Rightarrow> queue_state \<Rightarrow> u16 option" where
  "avail_desc s qs = virtio_read16 s (avail_addr qs + 4 + (ucast (last_avail_idx qs) AND (q_num qs - 1)) * 2)"

definition inc_avail :: "queue_state \<Rightarrow> queue_state" where
  "inc_avail qs = qs\<lparr>last_avail_idx := last_avail_idx qs + 1\<rparr>"

partial_function (option) notify_loop ::
    "'a recv_fn \<Rightarrow> nat \<Rightarrow> u16 \<Rightarrow> 'a virtio_scheme \<Rightarrow> 'a virtio_scheme option" where
  "notify_loop recv queue_idx avail_idx s =
     do { qs \<leftarrow> get_queue s queue_idx;
          if last_avail_idx qs = avail_idx then Some s
          else do { desc_idx \<leftarrow> avail_desc s qs;
                    sz \<leftarrow> get_desc_rw_size s queue_idx desc_idx;
                    case sz of None \<Rightarrow> notify_loop recv queue_idx avail_idx (upd_queue queue_idx inc_avail s)
                    | Some (read_size, write_size) \<Rightarrow>
                        do { (ret, s) \<leftarrow> recv queue_idx desc_idx read_size write_size s;
                             if ret < 0 then Some s
                             else notify_loop recv queue_idx avail_idx (upd_queue queue_idx inc_avail s) } } }"

definition queue_notify :: "'a recv_fn \<Rightarrow> nat \<Rightarrow> 'a virtio_scheme \<Rightarrow> 'a virtio_scheme option" where
  "queue_notify recv queue_idx s =
     do { qs \<leftarrow> get_queue s queue_idx;
          if manual_recv qs then Some s
          else do { avail_idx \<leftarrow> virtio_read16 s (avail_addr qs + 2);
                    notify_loop recv queue_idx avail_idx s } }"

section \<open>Configuration space\<close>

definition virtio_config_read :: "'a virtio_scheme \<Rightarrow> u32 \<Rightarrow> nat \<Rightarrow> u32 option" where
  "virtio_config_read s offset size_log2 =
     (if size_log2 = 0
      then (if offset < config_space_size s then map_option ucast (buf_get (config_space s) (unat offset)) else Some 0)
      else if size_log2 = 1
      then (if offset < config_space_size s - 1 then map_option ucast (get_le16 (config_space s) (unat offset)) else Some 0)
      else if size_log2 = 2
      then (if offset < config_space_size s - 3 then get_le32 (config_space s) (unat offset) else Some 0)
      else None)"

type_synonym 'a config_fn = "'a virtio_scheme \<Rightarrow> 'a virtio_scheme option"

definition set_config :: "'a virtio_scheme \<Rightarrow> u8 list \<Rightarrow> 'a virtio_scheme" where
  "set_config s c = s\<lparr>config_space := c\<rparr>"

definition virtio_config_write :: "'a config_fn option \<Rightarrow> u32 \<Rightarrow> u32 \<Rightarrow> nat \<Rightarrow> 'a virtio_scheme \<Rightarrow> 'a virtio_scheme option" where
  "virtio_config_write config_write offset val size_log2 s =
     (let call = (\<lambda>c. case config_write of None \<Rightarrow> Some (set_config s c) | Some f \<Rightarrow> f (set_config s c)) in
      if size_log2 = 0
      then (if offset < config_space_size s then buf_put (config_space s) (unat offset) (ucast val) \<bind> call else Some s)
      else if size_log2 = 1
      then (if offset < config_space_size s - 1 then put_le16 (config_space s) (unat offset) (ucast val) \<bind> call else Some s)
      else if size_log2 = 2
      then (if offset < config_space_size s - 3 then put_le32 (config_space s) (unat offset) val \<bind> call else Some s)
      else Some s)"

section \<open>The MMIO registers\<close>

definition VIRTIO_MMIO_MAGIC_VALUE :: u32 where "VIRTIO_MMIO_MAGIC_VALUE = 0x000"
definition VIRTIO_MMIO_VERSION :: u32 where "VIRTIO_MMIO_VERSION = 0x004"
definition VIRTIO_MMIO_DEVICE_ID :: u32 where "VIRTIO_MMIO_DEVICE_ID = 0x008"
definition VIRTIO_MMIO_VENDOR_ID :: u32 where "VIRTIO_MMIO_VENDOR_ID = 0x00c"
definition VIRTIO_MMIO_DEVICE_FEATURES :: u32 where "VIRTIO_MMIO_DEVICE_FEATURES = 0x010"
definition VIRTIO_MMIO_DEVICE_FEATURES_SEL :: u32 where "VIRTIO_MMIO_DEVICE_FEATURES_SEL = 0x014"
definition VIRTIO_MMIO_QUEUE_SEL :: u32 where "VIRTIO_MMIO_QUEUE_SEL = 0x030"
definition VIRTIO_MMIO_QUEUE_NUM_MAX :: u32 where "VIRTIO_MMIO_QUEUE_NUM_MAX = 0x034"
definition VIRTIO_MMIO_QUEUE_NUM :: u32 where "VIRTIO_MMIO_QUEUE_NUM = 0x038"
definition VIRTIO_MMIO_QUEUE_READY :: u32 where "VIRTIO_MMIO_QUEUE_READY = 0x044"
definition VIRTIO_MMIO_QUEUE_NOTIFY :: u32 where "VIRTIO_MMIO_QUEUE_NOTIFY = 0x050"
definition VIRTIO_MMIO_INTERRUPT_STATUS :: u32 where "VIRTIO_MMIO_INTERRUPT_STATUS = 0x060"
definition VIRTIO_MMIO_INTERRUPT_ACK :: u32 where "VIRTIO_MMIO_INTERRUPT_ACK = 0x064"
definition VIRTIO_MMIO_STATUS :: u32 where "VIRTIO_MMIO_STATUS = 0x070"
definition VIRTIO_MMIO_QUEUE_DESC_LOW :: u32 where "VIRTIO_MMIO_QUEUE_DESC_LOW = 0x080"
definition VIRTIO_MMIO_QUEUE_AVAIL_LOW :: u32 where "VIRTIO_MMIO_QUEUE_AVAIL_LOW = 0x090"
definition VIRTIO_MMIO_QUEUE_USED_LOW :: u32 where "VIRTIO_MMIO_QUEUE_USED_LOW = 0x0a0"
definition VIRTIO_MMIO_CONFIG_GENERATION :: u32 where "VIRTIO_MMIO_CONFIG_GENERATION = 0x0fc"
definition VIRTIO_MMIO_CONFIG :: u32 where "VIRTIO_MMIO_CONFIG = 0x100"

lemmas virtio_mmio_consts [masks] =
  VIRTIO_MMIO_MAGIC_VALUE_def VIRTIO_MMIO_VERSION_def VIRTIO_MMIO_DEVICE_ID_def VIRTIO_MMIO_VENDOR_ID_def
  VIRTIO_MMIO_DEVICE_FEATURES_def VIRTIO_MMIO_DEVICE_FEATURES_SEL_def VIRTIO_MMIO_QUEUE_SEL_def
  VIRTIO_MMIO_QUEUE_NUM_MAX_def VIRTIO_MMIO_QUEUE_NUM_def VIRTIO_MMIO_QUEUE_READY_def
  VIRTIO_MMIO_QUEUE_NOTIFY_def VIRTIO_MMIO_INTERRUPT_STATUS_def VIRTIO_MMIO_INTERRUPT_ACK_def
  VIRTIO_MMIO_STATUS_def VIRTIO_MMIO_QUEUE_DESC_LOW_def VIRTIO_MMIO_QUEUE_AVAIL_LOW_def
  VIRTIO_MMIO_QUEUE_USED_LOW_def VIRTIO_MMIO_CONFIG_GENERATION_def VIRTIO_MMIO_CONFIG_def

definition features_word :: "'a virtio_scheme \<Rightarrow> u32" where
  "features_word s =
     (if device_features_sel s = 0 then device_features s else if device_features_sel s = 1 then 1 else 0)"

text \<open>The selected queue, and its update.\<close>

definition sel_queue :: "'a virtio_scheme \<Rightarrow> queue_state option" where
  "sel_queue s = get_queue s (unat (queue_sel s))"

definition upd_sel :: "(queue_state \<Rightarrow> queue_state) \<Rightarrow> 'a virtio_scheme \<Rightarrow> 'a virtio_scheme option" where
  "upd_sel f s = do { _ \<leftarrow> sel_queue s; Some (upd_queue (unat (queue_sel s)) f s) }"

definition virtio_mmio_read :: "'a virtio_scheme \<Rightarrow> u32 \<Rightarrow> nat \<Rightarrow> u32 option" where
  "virtio_mmio_read s offset size_log2 =
     (if offset \<ge> VIRTIO_MMIO_CONFIG then virtio_config_read s (offset - VIRTIO_MMIO_CONFIG) size_log2
      else if size_log2 \<noteq> 2 then Some 0
      else if offset = VIRTIO_MMIO_MAGIC_VALUE then Some 0x74726976
      else if offset = VIRTIO_MMIO_VERSION then Some 2
      else if offset = VIRTIO_MMIO_DEVICE_ID then Some (device_id s)
      else if offset = VIRTIO_MMIO_VENDOR_ID then Some (vendor_id s)
      else if offset = VIRTIO_MMIO_DEVICE_FEATURES then Some (features_word s)
      else if offset = VIRTIO_MMIO_DEVICE_FEATURES_SEL then Some (device_features_sel s)
      else if offset = VIRTIO_MMIO_QUEUE_SEL then Some (queue_sel s)
      else if offset = VIRTIO_MMIO_QUEUE_NUM_MAX then Some MAX_QUEUE_NUM
      else if offset = VIRTIO_MMIO_QUEUE_NUM then map_option q_num (sel_queue s)
      else if offset = VIRTIO_MMIO_QUEUE_DESC_LOW then map_option desc_addr (sel_queue s)
      else if offset = VIRTIO_MMIO_QUEUE_AVAIL_LOW then map_option avail_addr (sel_queue s)
      else if offset = VIRTIO_MMIO_QUEUE_USED_LOW then map_option used_addr (sel_queue s)
      else if offset = VIRTIO_MMIO_QUEUE_READY then map_option q_ready (sel_queue s)
      else if offset = VIRTIO_MMIO_INTERRUPT_STATUS then Some (int_status s)
      else if offset = VIRTIO_MMIO_STATUS then Some (status s)
      else if offset = VIRTIO_MMIO_CONFIG_GENERATION then Some 0
      else Some 0)"

text \<open>Writing the status register: 0 resets the device.\<close>

definition set_status :: "u32 \<Rightarrow> 'a virtio_scheme \<Rightarrow> 'a virtio_scheme" where
  "set_status val s =
     (let s = s\<lparr>status := val\<rparr> in if val = 0 then virtio_reset (set_irq False s) else s)"

definition interrupt_ack :: "u32 \<Rightarrow> 'a virtio_scheme \<Rightarrow> 'a virtio_scheme" where
  "interrupt_ack val s =
     (let s = s\<lparr>int_status := int_status s AND NOT val\<rparr> in
      if int_status s = 0 then set_irq False s else s)"

definition set_num :: "u32 \<Rightarrow> 'a virtio_scheme \<Rightarrow> 'a virtio_scheme option" where
  "set_num val s = (if val AND (val - 1) = 0 \<and> val > 0 then upd_sel (\<lambda>q. q\<lparr>q_num := val\<rparr>) s else Some s)"

text \<open>The operations of a device: its receive function and its configuration callback.\<close>

record 'a virtio_ops =
  v_recv :: "'a recv_fn"
  v_config :: "'a config_fn option"

definition virtio_mmio_write :: "'a virtio_ops \<Rightarrow> u32 \<Rightarrow> u32 \<Rightarrow> nat \<Rightarrow> 'a virtio_scheme \<Rightarrow> 'a virtio_scheme option" where
  "virtio_mmio_write V offset val size_log2 s =
     (if offset \<ge> VIRTIO_MMIO_CONFIG
      then virtio_config_write (v_config V) (offset - VIRTIO_MMIO_CONFIG) val size_log2 s
      else if size_log2 \<noteq> 2 then Some s
      else if offset = VIRTIO_MMIO_DEVICE_FEATURES_SEL then Some (s\<lparr>device_features_sel := val\<rparr>)
      else if offset = VIRTIO_MMIO_QUEUE_SEL
      then Some (if unat val < MAX_QUEUE then s\<lparr>queue_sel := val\<rparr> else s)
      else if offset = VIRTIO_MMIO_QUEUE_NUM then set_num val s
      else if offset = VIRTIO_MMIO_QUEUE_DESC_LOW then upd_sel (\<lambda>q. q\<lparr>desc_addr := val\<rparr>) s
      else if offset = VIRTIO_MMIO_QUEUE_AVAIL_LOW then upd_sel (\<lambda>q. q\<lparr>avail_addr := val\<rparr>) s
      else if offset = VIRTIO_MMIO_QUEUE_USED_LOW then upd_sel (\<lambda>q. q\<lparr>used_addr := val\<rparr>) s
      else if offset = VIRTIO_MMIO_STATUS then Some (set_status val s)
      else if offset = VIRTIO_MMIO_QUEUE_READY then upd_sel (\<lambda>q. q\<lparr>q_ready := val AND 1\<rparr>) s
      else if offset = VIRTIO_MMIO_QUEUE_NOTIFY
      then (if unat val < MAX_QUEUE then queue_notify (v_recv V) (unat val) s else Some s)
      else if offset = VIRTIO_MMIO_INTERRUPT_ACK then Some (interrupt_ack val s)
      else Some s)"

section \<open>The PCI registers\<close>

definition VIRTIO_PCI_DEVICE_FEATURE_SEL :: u32 where "VIRTIO_PCI_DEVICE_FEATURE_SEL = 0x000"
definition VIRTIO_PCI_DEVICE_FEATURE :: u32 where "VIRTIO_PCI_DEVICE_FEATURE = 0x004"
definition VIRTIO_PCI_NUM_QUEUES :: u32 where "VIRTIO_PCI_NUM_QUEUES = 0x012"
definition VIRTIO_PCI_DEVICE_STATUS :: u32 where "VIRTIO_PCI_DEVICE_STATUS = 0x014"
definition VIRTIO_PCI_QUEUE_SEL :: u32 where "VIRTIO_PCI_QUEUE_SEL = 0x016"
definition VIRTIO_PCI_QUEUE_SIZE :: u32 where "VIRTIO_PCI_QUEUE_SIZE = 0x018"
definition VIRTIO_PCI_QUEUE_ENABLE :: u32 where "VIRTIO_PCI_QUEUE_ENABLE = 0x01c"
definition VIRTIO_PCI_QUEUE_NOTIFY_OFF :: u32 where "VIRTIO_PCI_QUEUE_NOTIFY_OFF = 0x01e"
definition VIRTIO_PCI_QUEUE_DESC_LOW :: u32 where "VIRTIO_PCI_QUEUE_DESC_LOW = 0x020"
definition VIRTIO_PCI_QUEUE_AVAIL_LOW :: u32 where "VIRTIO_PCI_QUEUE_AVAIL_LOW = 0x028"
definition VIRTIO_PCI_QUEUE_USED_LOW :: u32 where "VIRTIO_PCI_QUEUE_USED_LOW = 0x030"
definition VIRTIO_PCI_CFG_OFFSET :: u32 where "VIRTIO_PCI_CFG_OFFSET = 0x0000"
definition VIRTIO_PCI_ISR_OFFSET :: u32 where "VIRTIO_PCI_ISR_OFFSET = 0x1000"
definition VIRTIO_PCI_CONFIG_OFFSET :: u32 where "VIRTIO_PCI_CONFIG_OFFSET = 0x2000"
definition VIRTIO_PCI_NOTIFY_OFFSET :: u32 where "VIRTIO_PCI_NOTIFY_OFFSET = 0x3000"

lemmas virtio_pci_consts [masks] =
  VIRTIO_PCI_DEVICE_FEATURE_SEL_def VIRTIO_PCI_DEVICE_FEATURE_def VIRTIO_PCI_NUM_QUEUES_def
  VIRTIO_PCI_DEVICE_STATUS_def VIRTIO_PCI_QUEUE_SEL_def VIRTIO_PCI_QUEUE_SIZE_def VIRTIO_PCI_QUEUE_ENABLE_def
  VIRTIO_PCI_QUEUE_NOTIFY_OFF_def VIRTIO_PCI_QUEUE_DESC_LOW_def VIRTIO_PCI_QUEUE_AVAIL_LOW_def
  VIRTIO_PCI_QUEUE_USED_LOW_def VIRTIO_PCI_CFG_OFFSET_def VIRTIO_PCI_ISR_OFFSET_def
  VIRTIO_PCI_CONFIG_OFFSET_def VIRTIO_PCI_NOTIFY_OFFSET_def

definition pci_cfg_read :: "'a virtio_scheme \<Rightarrow> u32 \<Rightarrow> nat \<Rightarrow> u32 option" where
  "pci_cfg_read s offset size_log2 =
     (if size_log2 = 2
      then (if offset = VIRTIO_PCI_DEVICE_FEATURE then Some (features_word s)
            else if offset = VIRTIO_PCI_DEVICE_FEATURE_SEL then Some (device_features_sel s)
            else if offset = VIRTIO_PCI_QUEUE_DESC_LOW then map_option desc_addr (sel_queue s)
            else if offset = VIRTIO_PCI_QUEUE_AVAIL_LOW then map_option avail_addr (sel_queue s)
            else if offset = VIRTIO_PCI_QUEUE_USED_LOW then map_option used_addr (sel_queue s)
            else Some 0)
      else if size_log2 = 1
      then (if offset = VIRTIO_PCI_NUM_QUEUES then Some MAX_QUEUE_NUM
            else if offset = VIRTIO_PCI_QUEUE_SEL then Some (queue_sel s)
            else if offset = VIRTIO_PCI_QUEUE_SIZE then map_option q_num (sel_queue s)
            else if offset = VIRTIO_PCI_QUEUE_ENABLE then map_option q_ready (sel_queue s)
            else Some 0)
      else if size_log2 = 0 \<and> offset = VIRTIO_PCI_DEVICE_STATUS then Some (status s)
      else Some 0)"

text \<open>Reading the ISR register clears it.\<close>

definition virtio_pci_read :: "u32 \<Rightarrow> nat \<Rightarrow> 'a virtio_scheme \<Rightarrow> (u32 \<times> 'a virtio_scheme) option" where
  "virtio_pci_read offset1 size_log2 s =
     (let offset = offset1 AND 0xfff; page = drop_bit 12 offset1 in
      if page = drop_bit 12 VIRTIO_PCI_CFG_OFFSET
      then map_option (\<lambda>v. (v, s)) (pci_cfg_read s offset size_log2)
      else if page = drop_bit 12 VIRTIO_PCI_ISR_OFFSET
      then Some (if offset = 0 \<and> size_log2 = 0 then (int_status s, set_irq False (s\<lparr>int_status := 0\<rparr>)) else (0, s))
      else if page = drop_bit 12 VIRTIO_PCI_CONFIG_OFFSET
      then map_option (\<lambda>v. (v, s)) (virtio_config_read s offset size_log2)
      else Some (0, s))"

definition pci_cfg_write :: "u32 \<Rightarrow> u32 \<Rightarrow> nat \<Rightarrow> 'a virtio_scheme \<Rightarrow> 'a virtio_scheme option" where
  "pci_cfg_write offset val size_log2 s =
     (if size_log2 = 2
      then (if offset = VIRTIO_PCI_DEVICE_FEATURE_SEL then Some (s\<lparr>device_features_sel := val\<rparr>)
            else if offset = VIRTIO_PCI_QUEUE_DESC_LOW then upd_sel (\<lambda>q. q\<lparr>desc_addr := val\<rparr>) s
            else if offset = VIRTIO_PCI_QUEUE_AVAIL_LOW then upd_sel (\<lambda>q. q\<lparr>avail_addr := val\<rparr>) s
            else if offset = VIRTIO_PCI_QUEUE_USED_LOW then upd_sel (\<lambda>q. q\<lparr>used_addr := val\<rparr>) s
            else Some s)
      else if size_log2 = 1
      then (if offset = VIRTIO_PCI_QUEUE_SEL then Some (if unat val < MAX_QUEUE then s\<lparr>queue_sel := val\<rparr> else s)
            else if offset = VIRTIO_PCI_QUEUE_SIZE then set_num val s
            else if offset = VIRTIO_PCI_QUEUE_ENABLE then upd_sel (\<lambda>q. q\<lparr>q_ready := val AND 1\<rparr>) s
            else Some s)
      else if size_log2 = 0 \<and> offset = VIRTIO_PCI_DEVICE_STATUS then Some (set_status val s)
      else Some s)"

definition virtio_pci_write :: "'a virtio_ops \<Rightarrow> u32 \<Rightarrow> u32 \<Rightarrow> nat \<Rightarrow> 'a virtio_scheme \<Rightarrow> 'a virtio_scheme option" where
  "virtio_pci_write V offset1 val size_log2 s =
     (let offset = offset1 AND 0xfff; page = drop_bit 12 offset1 in
      if page = drop_bit 12 VIRTIO_PCI_CFG_OFFSET then pci_cfg_write offset val size_log2 s
      else if page = drop_bit 12 VIRTIO_PCI_CONFIG_OFFSET
      then virtio_config_write (v_config V) offset val size_log2 s
      else if page = drop_bit 12 VIRTIO_PCI_NOTIFY_OFFSET
      then (if unat val < MAX_QUEUE then queue_notify (v_recv V) (unat val) s else Some s)
      else Some s)"

definition virtio_config_change_notify :: "'a virtio_scheme \<Rightarrow> 'a virtio_scheme" where
  "virtio_config_change_notify s = set_irq True (s\<lparr>int_status := int_status s OR 2\<rparr>)"

section \<open>Initialisation\<close>

text \<open>
  A zeroed device on the MMIO bus, as \<open>virtio_init\<close> leaves it; the range has been registered in
  the map \<open>mm\<close>.
\<close>

definition zero_queue :: queue_state where
  "zero_queue = \<lparr>q_ready = 0, q_num = 0, last_avail_idx = 0, desc_addr = 0, avail_addr = 0, used_addr = 0,
     manual_recv = False\<rparr>"

definition virtio_init :: "mem_map_t \<Rightarrow> u64 \<Rightarrow> nat \<Rightarrow> u32 \<Rightarrow> u32 \<Rightarrow> virtio option" where
  "virtio_init mm bus_addr dev_num dev_id config_size =
     do { (_, mm) \<leftarrow> cpu_register_device mm bus_addr 4096 dev_num ((DEVIO_SIZE8 OR DEVIO_SIZE16) OR DEVIO_SIZE32);
          Some (virtio_reset \<lparr>mem_map = mm, irq = False, int_status = 0, status = 0, device_features_sel = 0,
            queue_sel = 0, queue = replicate MAX_QUEUE zero_queue, device_id = dev_id, vendor_id = 0xffff,
            device_features = 0, config_space_size = config_size,
            config_space = replicate MAX_CONFIG_SPACE_SIZE 0\<rparr>) }"

end
