(* ===== verification/Virtio_Devices.thy ===== *)
theory Virtio_Devices
  imports Virtio
begin

text \<open>
  The virtio devices of \<open>virtio.c\<close> other than the 9P file system: block, network, console and input.

  The back end of a device (the disk image, the network, the terminal) is code outside this file: its
  state is the field of type \<open>'h\<close> and its functions are arguments. \<open>fresh n\<close> is what \<open>malloc(n)\<close> returns, a
  buffer of \<open>n\<close> bytes of unknown contents; a negative size is a failing \<open>malloc\<close>, whose result
  the code does not check.
\<close>

type_synonym malloc = "nat \<Rightarrow> u8 list"

section \<open>Block device\<close>

definition VIRTIO_BLK_T_IN :: u32 where "VIRTIO_BLK_T_IN = 0"
definition VIRTIO_BLK_T_OUT :: u32 where "VIRTIO_BLK_T_OUT = 1"
definition VIRTIO_BLK_S_OK :: u8 where "VIRTIO_BLK_S_OK = 0"
definition VIRTIO_BLK_S_IOERR :: u8 where "VIRTIO_BLK_S_IOERR = 1"
definition SECTOR_SIZE :: int where "SECTOR_SIZE = 512"

record 'h vblock = virtio +
  blk_host :: 'h
  req_in_progress :: bool
  req_type :: u32
  req_buf :: "u8 list"
  req_write_size :: int
  req_queue_idx :: nat
  req_desc_idx :: u16

text \<open>
  \<open>read_async\<close> gets the buffer and returns it filled; a positive result is an asynchronous request,
  which ends with \<open>virtio_block_req_cb\<close>.
\<close>

record 'h block_backend =
  read_async :: "u64 \<Rightarrow> u8 list \<Rightarrow> int \<Rightarrow> 'h \<Rightarrow> int \<times> u8 list \<times> 'h"
  write_async :: "u64 \<Rightarrow> u8 list \<Rightarrow> int \<Rightarrow> 'h \<Rightarrow> int \<times> 'h"

text \<open>The number of sectors of \<open>n\<close> bytes: the division of C rounds towards zero.\<close>

definition sectors_of :: "int \<Rightarrow> int" where
  "sectors_of n = (if n < 0 then - (- n div SECTOR_SIZE) else n div SECTOR_SIZE)"

definition virtio_block_req_end :: "int \<Rightarrow> 'h vblock \<Rightarrow> 'h vblock option" where
  "virtio_block_req_end ret s =
     (if req_type s = VIRTIO_BLK_T_IN
      then do { let write_size = req_write_size s;
                buf \<leftarrow> (if write_size - 1 < 0 then None
                       else buf_put (req_buf s) (nat (write_size - 1)) (if ret < 0 then VIRTIO_BLK_S_IOERR else VIRTIO_BLK_S_OK));
                (_, s) \<leftarrow> memcpy_to_queue s (req_queue_idx s) (req_desc_idx s) 0 buf write_size;
                virtio_consume_desc s (req_queue_idx s) (req_desc_idx s) (word_of_int write_size) }
      else if req_type s = VIRTIO_BLK_T_OUT
      then do { (_, s) \<leftarrow> memcpy_to_queue s (req_queue_idx s) (req_desc_idx s) 0
                           [if ret < 0 then VIRTIO_BLK_S_IOERR else VIRTIO_BLK_S_OK] 1;
                virtio_consume_desc s (req_queue_idx s) (req_desc_idx s) 1 }
      else None)"

definition virtio_block_recv_request :: "malloc \<Rightarrow> 'h block_backend \<Rightarrow> ('h, unit) vblock_ext recv_fn" where
  "virtio_block_recv_request fresh B queue_idx desc_idx read_size write_size s =
     (if req_in_progress s then Some (- 1, s)
      else do {
        (r, h) \<leftarrow> memcpy_from_queue s (fresh 16) queue_idx desc_idx 0 16;
        if r < 0 then Some (0, s)
        else do {
          let h_type = (of_nat (le_val (take 4 h)) :: u32);
          let sector_num = (of_nat (le_val (take 8 (drop 8 h))) :: u64);
          let s = s\<lparr>req_type := h_type, req_queue_idx := queue_idx, req_desc_idx := desc_idx\<rparr>;
          if h_type = VIRTIO_BLK_T_IN
          then if write_size < 0 then None
            else do {
              let (ret, buf, bs') = read_async B sector_num (fresh (nat write_size)) (sectors_of (write_size - 1)) (blk_host s);
              let s = s\<lparr>req_buf := buf, req_write_size := write_size, blk_host := bs'\<rparr>;
              if ret > 0 then Some (0, s\<lparr>req_in_progress := True\<rparr>)
              else do { s \<leftarrow> virtio_block_req_end ret s; Some (0, s) } }
          else if h_type = VIRTIO_BLK_T_OUT
          then if write_size < 1 \<or> read_size - 16 < 0 then None
            else do {
              let len = read_size - 16;
              (_, buf) \<leftarrow> memcpy_from_queue s (fresh (nat len)) queue_idx desc_idx 16 len;
              let (ret, bs') = write_async B sector_num buf (sectors_of len) (blk_host s);
              let s = s\<lparr>blk_host := bs'\<rparr>;
              if ret > 0 then Some (0, s\<lparr>req_in_progress := True\<rparr>)
              else do { s \<leftarrow> virtio_block_req_end ret s; Some (0, s) } }
          else Some (0, s) } })"

definition virtio_block_req_cb :: "malloc \<Rightarrow> 'h block_backend \<Rightarrow> int \<Rightarrow> 'h vblock \<Rightarrow> 'h vblock option" where
  "virtio_block_req_cb fresh B ret s =
     do { s \<leftarrow> virtio_block_req_end ret s;
          let s = s\<lparr>req_in_progress := False\<rparr>;
          queue_notify (virtio_block_recv_request fresh B) (req_queue_idx s) s }"

definition virtio_block_init :: "mem_map_t \<Rightarrow> u64 \<Rightarrow> nat \<Rightarrow> u64 \<Rightarrow> 'h \<Rightarrow> 'h vblock option" where
  "virtio_block_init mm bus_addr dev_num nb_sectors h =
     do { v \<leftarrow> virtio_init mm bus_addr dev_num 2 8;
          c \<leftarrow> put_le32 (config_space v) 0 (ucast nb_sectors);
          c \<leftarrow> put_le32 c 4 (ucast (drop_bit 32 nb_sectors));
          Some (virtio.extend (set_config v c) (vblock.fields h False 0 [] 0 0 0)) }"

section \<open>Network device\<close>

record 'h vnet = virtio +
  net_host :: 'h
  header_size :: nat

definition virtio_net_recv_request :: "malloc \<Rightarrow> (u8 list \<Rightarrow> 'h \<Rightarrow> 'h) \<Rightarrow> ('h, unit) vnet_ext recv_fn" where
  "virtio_net_recv_request fresh write_packet queue_idx desc_idx read_size write_size s =
     (if queue_idx = 1
      then do { (r, _) \<leftarrow> memcpy_from_queue s (fresh 12) queue_idx desc_idx 0 (int (header_size s));
                if r < 0 then Some (0, s)
                else let len = read_size - int (header_size s) in
                  if len < 0 then None
                  else do { (_, buf) \<leftarrow> memcpy_from_queue s (fresh (nat len)) queue_idx desc_idx (of_nat (header_size s)) len;
                            s \<leftarrow> virtio_consume_desc (s\<lparr>net_host := write_packet buf (net_host s)\<rparr>) queue_idx desc_idx 0;
                            Some (0, s) } }
      else Some (0, s))"

definition virtio_net_can_write_packet :: "'a virtio_scheme \<Rightarrow> bool option" where
  "virtio_net_can_write_packet s =
     do { qs \<leftarrow> get_queue s 0;
          if q_ready qs = 0 then Some False
          else do { avail_idx \<leftarrow> virtio_read16 s (avail_addr qs + 2); Some (last_avail_idx qs \<noteq> avail_idx) } }"

definition virtio_net_write_packet :: "u8 list \<Rightarrow> 'h vnet \<Rightarrow> 'h vnet option" where
  "virtio_net_write_packet buf s =
     do { qs \<leftarrow> get_queue s 0;
          if q_ready qs = 0 then Some s
          else do {
            avail_idx \<leftarrow> virtio_read16 s (avail_addr qs + 2);
            if last_avail_idx qs = avail_idx then Some s
            else do {
              desc_idx \<leftarrow> avail_desc s qs;
              sz \<leftarrow> get_desc_rw_size s 0 desc_idx;
              case sz of None \<Rightarrow> Some s
              | Some (read_size, write_size) \<Rightarrow>
                  (let len = int (header_size s) + int (length buf) in
                   if len > write_size then Some s
                   else do {
                     (_, s) \<leftarrow> memcpy_to_queue s 0 desc_idx 0 (replicate (header_size s) 0) (int (header_size s));
                     (_, s) \<leftarrow> memcpy_to_queue s 0 desc_idx (of_nat (header_size s)) buf (int (length buf));
                     s \<leftarrow> virtio_consume_desc s 0 desc_idx (word_of_int len);
                     Some (upd_queue 0 inc_avail s) }) } } }"

definition virtio_net_init :: "mem_map_t \<Rightarrow> u64 \<Rightarrow> nat \<Rightarrow> u8 list \<Rightarrow> 'h \<Rightarrow> 'h vnet option" where
  "virtio_net_init mm bus_addr dev_num mac_addr h =
     do { v \<leftarrow> virtio_init mm bus_addr dev_num 1 8;
          let v = upd_queue 0 (\<lambda>q. q\<lparr>manual_recv := True\<rparr>) (v\<lparr>device_features := push_bit 5 1\<rparr>);
          let v = set_config v (take 6 mac_addr @ [0, 0] @ drop 8 (config_space v));
          Some (virtio.extend v (vnet.fields h 12)) }"

section \<open>Console\<close>

record 'h vconsole = virtio +
  char_host :: 'h

definition virtio_console_recv_request :: "malloc \<Rightarrow> (u8 list \<Rightarrow> 'h \<Rightarrow> 'h) \<Rightarrow> ('h, unit) vconsole_ext recv_fn" where
  "virtio_console_recv_request fresh write_data queue_idx desc_idx read_size write_size s =
     (if queue_idx = 1
      then if read_size < 0 then None
        else do { (_, buf) \<leftarrow> memcpy_from_queue s (fresh (nat read_size)) queue_idx desc_idx 0 read_size;
                  s \<leftarrow> virtio_consume_desc (s\<lparr>char_host := write_data buf (char_host s)\<rparr>) queue_idx desc_idx 0;
                  Some (0, s) }
      else Some (0, s))"

definition virtio_console_can_write_data :: "'a virtio_scheme \<Rightarrow> bool option" where
  "virtio_console_can_write_data s =
     do { qs \<leftarrow> get_queue s 0;
          if q_ready qs = 0 then Some False
          else do { avail_idx \<leftarrow> virtio_read16 s (avail_addr qs + 2); Some (last_avail_idx qs \<noteq> avail_idx) } }"

definition virtio_console_get_write_len :: "'a virtio_scheme \<Rightarrow> int option" where
  "virtio_console_get_write_len s =
     do { qs \<leftarrow> get_queue s 0;
          if q_ready qs = 0 then Some 0
          else do { avail_idx \<leftarrow> virtio_read16 s (avail_addr qs + 2);
                    if last_avail_idx qs = avail_idx then Some 0
                    else do { desc_idx \<leftarrow> avail_desc s qs;
                              sz \<leftarrow> get_desc_rw_size s 0 desc_idx;
                              Some (case sz of None \<Rightarrow> 0 | Some (_, write_size) \<Rightarrow> write_size) } } }"

text \<open>The number of bytes accepted, and the new state.\<close>

definition virtio_console_write_data :: "u8 list \<Rightarrow> 'a virtio_scheme \<Rightarrow> (int \<times> 'a virtio_scheme) option" where
  "virtio_console_write_data buf s =
     do { qs \<leftarrow> get_queue s 0;
          if q_ready qs = 0 then Some (0, s)
          else do { avail_idx \<leftarrow> virtio_read16 s (avail_addr qs + 2);
                    if last_avail_idx qs = avail_idx then Some (0, s)
                    else do { desc_idx \<leftarrow> avail_desc s qs;
                              (_, s) \<leftarrow> memcpy_to_queue s 0 desc_idx 0 buf (int (length buf));
                              s \<leftarrow> virtio_consume_desc s 0 desc_idx (of_nat (length buf));
                              Some (int (length buf), upd_queue 0 inc_avail s) } } }"

definition virtio_console_resize_event :: "u16 \<Rightarrow> u16 \<Rightarrow> 'a virtio_scheme \<Rightarrow> 'a virtio_scheme option" where
  "virtio_console_resize_event width height s =
     do { c \<leftarrow> put_le16 (config_space s) 0 width;
          c \<leftarrow> put_le16 c 2 height;
          Some (virtio_config_change_notify (set_config s c)) }"

definition virtio_console_init :: "mem_map_t \<Rightarrow> u64 \<Rightarrow> nat \<Rightarrow> 'h \<Rightarrow> 'h vconsole option" where
  "virtio_console_init mm bus_addr dev_num h =
     do { v \<leftarrow> virtio_init mm bus_addr dev_num 3 4;
          let v = upd_queue 0 (\<lambda>q. q\<lparr>manual_recv := True\<rparr>) (v\<lparr>device_features := 1\<rparr>);
          Some (virtio.extend v (vconsole.fields h)) }"

section \<open>Input device\<close>

datatype input_type = KEYBOARD | MOUSE | TABLET

record vinput = virtio +
  input_kind :: input_type
  buttons_state :: u32

definition VIRTIO_INPUT_EV_SYN :: u16 where "VIRTIO_INPUT_EV_SYN = 0x00"
definition VIRTIO_INPUT_EV_KEY :: u16 where "VIRTIO_INPUT_EV_KEY = 0x01"
definition VIRTIO_INPUT_EV_REL :: u16 where "VIRTIO_INPUT_EV_REL = 0x02"
definition VIRTIO_INPUT_EV_ABS :: u16 where "VIRTIO_INPUT_EV_ABS = 0x03"
definition VIRTIO_INPUT_EV_REP :: u16 where "VIRTIO_INPUT_EV_REP = 0x14"
definition REL_WHEEL :: u16 where "REL_WHEEL = 0x08"
definition buttons_list :: "u16 list" where "buttons_list = [0x110, 0x111, 0x112]"
definition VIRTIO_INPUT_ABS_SCALE :: u32 where "VIRTIO_INPUT_ABS_SCALE = 32768"

definition virtio_input_recv_request :: "'a recv_fn" where
  "virtio_input_recv_request queue_idx desc_idx read_size write_size s =
     (if queue_idx = 1 then do { s \<leftarrow> virtio_consume_desc s queue_idx desc_idx 0; Some (0, s) } else Some (0, s))"

definition event_bytes :: "u16 \<Rightarrow> u16 \<Rightarrow> u32 \<Rightarrow> u8 list" where
  "event_bytes ty code val = le_bytes 2 (unat ty) @ le_bytes 2 (unat code) @ le_bytes 4 (unat val)"

definition virtio_input_queue_event ::
    "u16 \<Rightarrow> u16 \<Rightarrow> u32 \<Rightarrow> 'a virtio_scheme \<Rightarrow> (int \<times> 'a virtio_scheme) option" where
  "virtio_input_queue_event ty code val s =
     do { qs \<leftarrow> get_queue s 0;
          if q_ready qs = 0 then Some (- 1, s)
          else do { avail_idx \<leftarrow> virtio_read16 s (avail_addr qs + 2);
                    if last_avail_idx qs = avail_idx then Some (- 1, s)
                    else do { desc_idx \<leftarrow> avail_desc s qs;
                              (_, s) \<leftarrow> memcpy_to_queue s 0 desc_idx 0 (event_bytes ty code val) 8;
                              s \<leftarrow> virtio_consume_desc s 0 desc_idx 8;
                              Some (0, upd_queue 0 inc_avail s) } } }"

text \<open>Events one after the other, until one cannot be sent.\<close>

fun queue_events :: "(u16 \<times> u16 \<times> u32) list \<Rightarrow> 'a virtio_scheme \<Rightarrow> (int \<times> 'a virtio_scheme) option" where
  "queue_events [] s = Some (0, s)"
| "queue_events ((ty, code, val) # evs) s =
     do { (ret, s) \<leftarrow> virtio_input_queue_event ty code val s;
          if ret \<noteq> 0 then Some (ret, s) else queue_events evs s }"

definition virtio_input_send_key_event :: "bool \<Rightarrow> u16 \<Rightarrow> vinput \<Rightarrow> (int \<times> vinput) option" where
  "virtio_input_send_key_event down key_code s =
     (if input_kind s \<noteq> KEYBOARD then Some (- 1, s)
      else queue_events [(VIRTIO_INPUT_EV_KEY, key_code, of_bool down), (VIRTIO_INPUT_EV_SYN, 0, 0)] s)"

text \<open>The buttons whose state has changed.\<close>

definition button_events :: "u32 \<Rightarrow> u32 \<Rightarrow> (u16 \<times> u16 \<times> u32) list" where
  "button_events buttons old =
     map (\<lambda>i. (VIRTIO_INPUT_EV_KEY, buttons_list ! i, of_bool (bit buttons i)))
       (filter (\<lambda>i. bit buttons i \<noteq> bit old i) [0..<3])"

definition virtio_input_send_mouse_event :: "u32 \<Rightarrow> u32 \<Rightarrow> u32 \<Rightarrow> u32 \<Rightarrow> vinput \<Rightarrow> (int \<times> vinput) option" where
  "virtio_input_send_mouse_event dx dy dz buttons s =
     (if input_kind s = KEYBOARD then Some (- 1, s)
      else let ev = (if input_kind s = MOUSE then VIRTIO_INPUT_EV_REL else VIRTIO_INPUT_EV_ABS) in
        do { (ret, s) \<leftarrow> queue_events ([(ev, 0, dx), (ev, 1, dy)] @
               (if dz \<noteq> 0 then [(VIRTIO_INPUT_EV_REL, REL_WHEEL, dz)] else [])) s;
             if ret \<noteq> 0 then Some (ret, s)
             else do { (ret, s) \<leftarrow> (if buttons \<noteq> buttons_state s
                         then do { (ret, s) \<leftarrow> queue_events (button_events buttons (buttons_state s)) s;
                                   Some (ret, if ret \<noteq> 0 then s else s\<lparr>buttons_state := buttons\<rparr>) }
                         else Some (0, s));
                       if ret \<noteq> 0 then Some (ret, s)
                       else virtio_input_queue_event VIRTIO_INPUT_EV_SYN 0 0 s } })"

text \<open>Bytes written into the configuration space, which has 256.\<close>

definition put_at :: "u8 list \<Rightarrow> nat \<Rightarrow> u8 list \<Rightarrow> u8 list" where
  "put_at c off bs = take off c @ bs @ drop (off + length bs) c"

definition set_bit_in :: "nat \<Rightarrow> u8 list \<Rightarrow> u16 \<Rightarrow> u8 list" where
  "set_bit_in off c k =
     (let i = off + unat (drop_bit 3 k) in c[i := c ! i OR push_bit (unat (k AND 7)) 1])"

definition name_of :: "input_type \<Rightarrow> string" where
  "name_of t = (case t of KEYBOARD \<Rightarrow> ''virtio_keyboard'' | MOUSE \<Rightarrow> ''virtio_mouse'' | TABLET \<Rightarrow> ''virtio_tablet'')"

text \<open>A bitmap of \<open>n\<close> bytes at offset 8, and its size at offset 2.\<close>

definition put_bitmap :: "nat \<Rightarrow> u16 list \<Rightarrow> u8 list \<Rightarrow> u8 list" where
  "put_bitmap n ks c = foldl (set_bit_in 8) (put_at (put_at c 2 [of_nat n]) 8 (replicate n 0)) ks"

definition ev_bits :: "input_type \<Rightarrow> u8 \<Rightarrow> u8 list \<Rightarrow> u8 list" where
  "ev_bits t sel c =
     (let c = put_at c 2 [0] in
      case t of
        KEYBOARD \<Rightarrow> (if ucast sel = VIRTIO_INPUT_EV_KEY then put_at (put_at c 2 [16]) 8 (replicate 16 0xff)
                     else if ucast sel = VIRTIO_INPUT_EV_REP then put_at c 2 [1] else c)
      | MOUSE \<Rightarrow> (if ucast sel = VIRTIO_INPUT_EV_KEY then put_bitmap 64 buttons_list c
                  else if ucast sel = VIRTIO_INPUT_EV_REL then put_bitmap 2 [0, 1, REL_WHEEL] c else c)
      | TABLET \<Rightarrow> (if ucast sel = VIRTIO_INPUT_EV_KEY then put_bitmap 64 buttons_list c
                   else if ucast sel = VIRTIO_INPUT_EV_REL then put_bitmap 2 [REL_WHEEL] c
                   else if ucast sel = VIRTIO_INPUT_EV_ABS then put_bitmap 1 [0, 1] c else c))"

definition virtio_input_config :: "input_type \<Rightarrow> u8 list \<Rightarrow> u8 list" where
  "virtio_input_config t c =
     (if c ! 0 = 0x00 then c
      else if c ! 0 = 0x01
      then (let name = map of_char (name_of t) in put_at (put_at c 2 [of_nat (length name)]) 8 name)
      else if c ! 0 = 0x11 then ev_bits t (c ! 1) c
      else if c ! 0 = 0x12
      then (if t = TABLET \<and> c ! 1 \<le> 1
            then put_at (put_at c 2 [20]) 8 (concat (map (\<lambda>v. le_bytes 4 (unat (v :: u32)))
                   [0, VIRTIO_INPUT_ABS_SCALE - 1, 0, 0, 0])) else c)
      else put_at c 2 [0])"

definition virtio_input_config_write :: "vinput \<Rightarrow> vinput option" where
  "virtio_input_config_write s = Some (s\<lparr>config_space := virtio_input_config (input_kind s) (config_space s)\<rparr>)"

definition virtio_input_init :: "mem_map_t \<Rightarrow> u64 \<Rightarrow> nat \<Rightarrow> input_type \<Rightarrow> vinput option" where
  "virtio_input_init mm bus_addr dev_num t =
     do { v \<leftarrow> virtio_init mm bus_addr dev_num 18 256;
          let v = upd_queue 0 (\<lambda>q. q\<lparr>manual_recv := True\<rparr>) v;
          Some (virtio.extend v (vinput.fields t 0)) }"

end
