(* ===== verification/Virtio_Mem.thy ===== *)
theory Virtio_Mem
  imports Virtio
begin

text \<open>
  The guest memory as the virtio devices see it: the copies between host buffers and guest memory always
  return, stay inside the RAM buffers and change nothing else; read byte by byte, they are what is in the RAM.
\<close>

section \<open>The accesses return\<close>

definition mem_only :: "'a virtio_scheme \<Rightarrow> 'a virtio_scheme \<Rightarrow> bool" where
  "mem_only s s' \<longleftrightarrow> same_layout (mem_map s) (mem_map s') \<and> s' = s\<lparr>mem_map := mem_map s'\<rparr>"

lemma mem_only_refl [simp]: "mem_only s s"
  by (simp add: mem_only_def)

lemma mem_only_trans: "mem_only a b \<Longrightarrow> mem_only b c \<Longrightarrow> mem_only a c"
  unfolding mem_only_def using same_layout_trans by (metis virtio.surjective virtio.update_convs(1) mem_state.update_convs(1) mem_state.surjective)

lemma mem_only_upd: "same_layout (mem_map s) mm \<Longrightarrow> mem_only s (s\<lparr>mem_map := mm\<rparr>)"
  by (simp add: mem_only_def)

lemma mem_only_wf: "mem_only s s' \<Longrightarrow> map_wf (mem_map s') = map_wf (mem_map s)"
  by (simp add: mem_only_def map_wf_layout)

lemma low12: "(x :: u32) AND 0xfff = x AND mask 12"
  by (simp add: mask_eq_exp_minus_1)

lemma page_part_fits: "unat addr mod 4096 + page_part addr count \<le> 4096"
proof -
  have "unat (addr AND 0xfff) = unat addr mod 4096" unfolding low12 word_and_mask_mod by simp
  then show ?thesis by (simp add: page_part_def VIRTIO_PAGE_SIZE_def)
qed

lemma unat_wide: "unat (ucast (a :: u32) :: u64) = unat a"
  by transfer simp

lemma get_ram_ptr_ok:
  assumes wf: "map_wf (mem_map s)"
  shows "\<exists>p s'. virtio_get_ram_ptr s a rw = Some (p, s') \<and> mem_only s s' \<and>
    (\<forall>ptr n. p = Some ptr \<longrightarrow> unat a mod 4096 + n \<le> 4096 \<longrightarrow> host_ok (mem_map s') ptr n)"
proof (cases "get_phys_mem_range (mem_map s) (ucast a)")
  case None
  then show ?thesis by (simp add: virtio_get_ram_ptr_def phys_mem_get_ram_ptr_def mem_only_def)
next
  case (Some r)
  note r = get_phys_mem_range_SomeD [OF Some]
  let ?pr = "mem_map s ! r" and ?off = "unat (ucast a - pr_addr (mem_map s ! r))"
  show ?thesis
  proof (cases "pr_is_ram ?pr")
    case False
    then show ?thesis using Some by (simp add: virtio_get_ram_ptr_def phys_mem_get_ram_ptr_def mem_only_def)
  next
    case ram: True
    note rw = map_wf_nth [OF wf r(1)]
    note b = ram_page_bounds [OF rw ram r(2)]
    obtain pr1 where pr1: "phys_mem_set_dirty_bit ?pr ?off = Some pr1"
      using set_dirty_bit_total [OF rw ram b(1)] by auto
    have lay: "same_layout (mem_map s) ((mem_map s)[r := pr1])"
      using set_dirty_bit_layout [OF pr1] by (intro same_layout_update) simp
    have ok: "host_ok (mem_map s) (r, int ?off) n" if n: "unat a mod 4096 + n \<le> 4096" for n
    proof -
      have "unat (ucast a :: u64) mod 4096 = unat a mod 4096" by (simp add: unat_wide)
      then have "?off + n \<le> unat (pr_org_size ?pr)" using b(2,3) n by linarith
      moreover have "uint (pr_org_size ?pr) = int (unat (pr_org_size ?pr))" by simp
      ultimately have "int ?off + int n \<le> uint (pr_org_size ?pr)" by linarith
      then show ?thesis using ram r(1) by (simp add: host_ok_def)
    qed
    show ?thesis
    proof (cases rw)
      case True
      have "virtio_get_ram_ptr s a rw = Some (Some (r, int ?off), s\<lparr>mem_map := (mem_map s)[r := pr1]\<rparr>)"
        using True Some ram pr1 by (simp add: virtio_get_ram_ptr_def phys_mem_get_ram_ptr_def Let_def)
      then show ?thesis using mem_only_upd [OF lay] ok same_layout_host_ok [OF lay] by auto
    next
      case False
      have "virtio_get_ram_ptr s a rw = Some (Some (r, int ?off), s)"
        using False Some ram by (simp add: virtio_get_ram_ptr_def phys_mem_get_ram_ptr_def Let_def)
      then show ?thesis using ok by auto
    qed
  qed
qed

lemma get_ram_ptrE:
  assumes "map_wf (mem_map s)"
  obtains p s' where "virtio_get_ram_ptr s a rw = Some (p, s')" "mem_only s s'"
    "\<And>ptr n. p = Some ptr \<Longrightarrow> unat a mod 4096 + n \<le> 4096 \<Longrightarrow> host_ok (mem_map s') ptr n"
  using get_ram_ptr_ok [OF assms, of a rw] by blast

lemma get_ram_ptr_read:
  "virtio_get_ram_ptr s a False = Some (p, s') \<Longrightarrow> s' = s"
  by (auto simp: virtio_get_ram_ptr_def phys_mem_get_ram_ptr_def Let_def split: option.splits if_splits)

lemma aligned_fits:
  assumes "(a :: u32) AND mask k = 0" and "k \<le> 12"
  shows "unat a mod 4096 + 2 ^ k \<le> 4096"
proof -
  have d: "(2 :: nat) ^ k dvd 2 ^ 12" using assms(2) by (rule le_imp_power_dvd)
  have "unat a mod 2 ^ k = 0" using assms(1) by (simp add: and_mask_eq_0_iff)
  then have "(2 :: nat) ^ k dvd unat a mod 2 ^ 12" using d by (simp add: dvd_mod mod_eq_0_iff_dvd)
  then obtain m where m: "unat a mod 2 ^ 12 = 2 ^ k * m" by (elim dvdE)
  obtain j where j: "(2 :: nat) ^ 12 = 2 ^ k * j" using d by (elim dvdE)
  have "unat a mod 2 ^ 12 < 2 ^ 12" by simp
  then have "2 ^ k * m < (2 :: nat) ^ k * j" unfolding m [symmetric] j [symmetric] .
  then have "m < j" by simp
  then have "2 ^ k * Suc m \<le> (2 :: nat) ^ k * j" by (intro mult_le_mono2) simp
  then show ?thesis using m j by simp
qed

lemma read16_total:
  assumes "map_wf (mem_map s)"
  shows "\<exists>v. virtio_read16 s a = Some v"
proof (cases "a AND 1 = 0")
  case True
  then have f: "unat a mod 4096 + 2 \<le> 4096" using aligned_fits [of a 1] by (simp add: mask_eq_exp_minus_1)
  obtain p s' where g: "virtio_get_ram_ptr s a False = Some (p, s')" and
    ok: "\<And>ptr n. p = Some ptr \<Longrightarrow> unat a mod 4096 + n \<le> 4096 \<Longrightarrow> host_ok (mem_map s') ptr n"
    using get_ram_ptrE [OF assms] by metis
  have "s' = s" using g by (rule get_ram_ptr_read)
  then show ?thesis using True g ok f by (cases p) (auto simp: virtio_read16_def host_read_def)
qed (simp add: virtio_read16_def)

lemma write_bytes_total: "host_ok mm p (length bs) \<Longrightarrow> \<exists>mm'. host_write_bytes mm p bs = Some mm'"
  by (simp add: host_write_bytes_def)

lemma write16_total:
  assumes "map_wf (mem_map s)"
  shows "\<exists>s'. virtio_write16 s a v = Some s' \<and> mem_only s s'"
proof (cases "a AND 1 = 0")
  case True
  then have f: "unat a mod 4096 + 2 \<le> 4096" using aligned_fits [of a 1] by (simp add: mask_eq_exp_minus_1)
  obtain p s1 where g: "virtio_get_ram_ptr s a True = Some (p, s1)" and m: "mem_only s s1" and
    ok: "\<And>ptr n. p = Some ptr \<Longrightarrow> unat a mod 4096 + n \<le> 4096 \<Longrightarrow> host_ok (mem_map s1) ptr n"
    using get_ram_ptrE [OF assms] by metis
  show ?thesis
  proof (cases p)
    case None
    then show ?thesis using True g m by (simp add: virtio_write16_def)
  next
    case (Some ptr)
    obtain mm where w: "host_write (mem_map s1) ptr 2 (unat v) = Some mm"
      using write_bytes_total [of "mem_map s1" ptr "le_bytes 2 (unat v)"] ok [OF Some f] by (auto simp: host_write_def)
    have "mem_only s (s1\<lparr>mem_map := mm\<rparr>)"
      using m mem_only_upd [OF host_write_layout [OF w]] by (rule mem_only_trans)
    then show ?thesis using True g Some w by (simp add: virtio_write16_def)
  qed
qed (simp add: virtio_write16_def)

lemma write32_total:
  assumes "map_wf (mem_map s)"
  shows "\<exists>s'. virtio_write32 s a v = Some s' \<and> mem_only s s'"
proof (cases "a AND 3 = 0")
  case True
  then have f: "unat a mod 4096 + 4 \<le> 4096" using aligned_fits [of a 2] by (simp add: mask_eq_exp_minus_1)
  obtain p s1 where g: "virtio_get_ram_ptr s a True = Some (p, s1)" and m: "mem_only s s1" and
    ok: "\<And>ptr n. p = Some ptr \<Longrightarrow> unat a mod 4096 + n \<le> 4096 \<Longrightarrow> host_ok (mem_map s1) ptr n"
    using get_ram_ptrE [OF assms] by metis
  show ?thesis
  proof (cases p)
    case None
    then show ?thesis using True g m by (simp add: virtio_write32_def)
  next
    case (Some ptr)
    obtain mm where w: "host_write (mem_map s1) ptr 4 (unat v) = Some mm"
      using write_bytes_total [of "mem_map s1" ptr "le_bytes 4 (unat v)"] ok [OF Some f] by (auto simp: host_write_def)
    have "mem_only s (s1\<lparr>mem_map := mm\<rparr>)"
      using m mem_only_upd [OF host_write_layout [OF w]] by (rule mem_only_trans)
    then show ?thesis using True g Some w by (simp add: virtio_write32_def)
  qed
qed (simp add: virtio_write32_def)

lemma memcpy_from_total:
  assumes "map_wf (mem_map s)"
  shows "\<exists>bs ok. virtio_memcpy_from_ram s a n = Some (bs, ok) \<and> length bs \<le> n \<and> (ok \<longrightarrow> length bs = n)"
proof (induction n arbitrary: a rule: less_induct)
  case (less n)
  show ?case
  proof (cases "n = 0")
    case True
    then show ?thesis by (auto simp: virtio_memcpy_from_ram.simps)
  next
    case False
    let ?l = "page_part a n"
    have l: "0 < ?l" "?l \<le> n" using page_part_bounds False by auto
    obtain p s' where g: "virtio_get_ram_ptr s a False = Some (p, s')" and
      ok: "\<And>ptr n. p = Some ptr \<Longrightarrow> unat a mod 4096 + n \<le> 4096 \<Longrightarrow> host_ok (mem_map s') ptr n"
      using get_ram_ptrE [OF assms] by metis
    have s': "s' = s" using g by (rule get_ram_ptr_read)
    show ?thesis
    proof (cases p)
      case None
      then show ?thesis using False g by (subst virtio_memcpy_from_ram.simps) auto
    next
      case (Some ptr)
      have "host_ok (mem_map s) ptr ?l" using ok [OF Some page_part_fits] s' by simp
      then obtain bs where bs: "host_read_bytes (mem_map s) ptr ?l = Some bs" "length bs = ?l"
        by (simp add: host_read_bytes_def)
      obtain rs k where rs: "virtio_memcpy_from_ram s (a + of_nat ?l) (n - ?l) = Some (rs, k)" "length rs \<le> n - ?l"
        "k \<longrightarrow> length rs = n - ?l" using less.IH [of "n - ?l" "a + of_nat ?l"] l by auto
      have "virtio_memcpy_from_ram s a n = Some (bs @ rs, k)"
        using False g Some bs(1) rs(1) by (subst virtio_memcpy_from_ram.simps) (simp add: Let_def)
      then show ?thesis using bs(2) rs(2,3) l by auto
    qed
  qed
qed

lemma memcpy_to_total:
  "map_wf (mem_map s) \<Longrightarrow> \<exists>s' ok. virtio_memcpy_to_ram s a bs = Some (s', ok) \<and> mem_only s s'"
proof (induction "length bs" arbitrary: a bs s rule: less_induct)
  case less
  show ?case
  proof (cases "bs = []")
    case True
    then show ?thesis by (auto simp: virtio_memcpy_to_ram.simps)
  next
    case False
    let ?l = "page_part a (length bs)"
    have l: "0 < ?l" "?l \<le> length bs" using page_part_bounds False by auto
    obtain p s1 where g: "virtio_get_ram_ptr s a True = Some (p, s1)" and m: "mem_only s s1" and
      ok: "\<And>ptr n. p = Some ptr \<Longrightarrow> unat a mod 4096 + n \<le> 4096 \<Longrightarrow> host_ok (mem_map s1) ptr n"
      using get_ram_ptrE [OF less.prems] by metis
    show ?thesis
    proof (cases p)
      case None
      then show ?thesis using False g m by (subst virtio_memcpy_to_ram.simps) auto
    next
      case (Some ptr)
      have "host_ok (mem_map s1) ptr (length (take ?l bs))" 
        unfolding length_take min_absorb2 [OF l(2)] by (rule ok [OF Some page_part_fits])
      then obtain mm where w: "host_write_bytes (mem_map s1) ptr (take ?l bs) = Some mm"
        using write_bytes_total by blast
      have m2: "mem_only s (s1\<lparr>mem_map := mm\<rparr>)"
        using m mem_only_upd [OF host_write_bytes_layout [OF w]] by (rule mem_only_trans)
      have "map_wf (mem_map (s1\<lparr>mem_map := mm\<rparr>))" using less.prems mem_only_wf [OF m2] by blast
      then obtain s' k where r: "virtio_memcpy_to_ram (s1\<lparr>mem_map := mm\<rparr>) (a + of_nat ?l) (drop ?l bs) = Some (s', k)"
        "mem_only (s1\<lparr>mem_map := mm\<rparr>) s'" using less.hyps [of "drop ?l bs"] l False by fastforce
      have "virtio_memcpy_to_ram s a bs = Some (s', k)"
        using False g Some w r(1) by (subst virtio_memcpy_to_ram.simps) (simp add: Let_def)
      then show ?thesis using mem_only_trans [OF m2 r(2)] by blast
    qed
  qed
qed

end
