(* ===== verification/Virtio_Props.thy ===== *)
theory Virtio_Props
  imports Virtio_Devices Virtio_Mem
begin

text \<open>
  The invariant of the virtio devices, as a locale over what the register code needs of a device, with the
  four devices as its interpretations: the register accesses of the guest stay inside the tables and the
  configuration space, and the interrupt line always follows the interrupt status.
\<close>

section \<open>The invariant\<close>

definition queue_wf :: "queue_state \<Rightarrow> bool" where
  "queue_wf q \<longleftrightarrow> q_num q \<noteq> 0 \<and> q_num q AND (q_num q - 1) = 0 \<and> (q_ready q = 0 \<or> q_ready q = 1)"

definition v_wf :: "'a virtio_scheme \<Rightarrow> bool" where
  "v_wf s \<longleftrightarrow> map_wf (mem_map s) \<and> length (queue s) = MAX_QUEUE \<and> (\<forall>q \<in> set (queue s). queue_wf q) \<and>
     unat (queue_sel s) < MAX_QUEUE \<and> length (config_space s) = MAX_CONFIG_SPACE_SIZE \<and>
     3 \<le> unat (config_space_size s) \<and> unat (config_space_size s) \<le> MAX_CONFIG_SPACE_SIZE \<and>
     (irq s \<longleftrightarrow> int_status s \<noteq> 0)"

text \<open>A step of the device: it stays well-formed and does not change the layout of the memory map.\<close>

definition v_step :: "'a virtio_scheme \<Rightarrow> 'a virtio_scheme \<Rightarrow> bool" where
  "v_step s s' \<longleftrightarrow> v_wf s' \<and> same_layout (mem_map s) (mem_map s')"

lemma v_stepD: "v_step s s' \<Longrightarrow> v_wf s'"
  by (simp add: v_step_def)

lemma v_step_refl: "v_wf s \<Longrightarrow> v_step s s"
  by (simp add: v_step_def)

lemma v_step_trans: "v_step a b \<Longrightarrow> v_step b c \<Longrightarrow> v_step a c"
  by (auto simp: v_step_def intro: same_layout_trans)

lemma mem_only_fields:
  assumes "mem_only s s'"
  shows "irq s' = irq s" "int_status s' = int_status s" "queue s' = queue s" "queue_sel s' = queue_sel s"
    "config_space s' = config_space s" "config_space_size s' = config_space_size s"
    "virtio.more s' = virtio.more s"
proof -
  have e: "s' = s\<lparr>mem_map := mem_map s'\<rparr>" using assms by (simp add: mem_only_def)
  show "irq s' = irq s" "int_status s' = int_status s" "queue s' = queue s" "queue_sel s' = queue_sel s"
    "config_space s' = config_space s" "config_space_size s' = config_space_size s" "virtio.more s' = virtio.more s"
    by (subst e, simp)+
qed

lemma mem_only_step: "v_wf s \<Longrightarrow> mem_only s s' \<Longrightarrow> v_step s s'"
  using mem_only_wf [of s s'] mem_only_fields [of s s'] by (auto simp: v_step_def v_wf_def mem_only_def)

lemma v_wf_map: "v_wf s \<Longrightarrow> map_wf (mem_map s)"
  by (simp add: v_wf_def)

section \<open>The queue operations\<close>

lemma copy_part_mem:
  assumes "copy_part s buf d to offset pos l = Some (buf', s')" and "map_wf (mem_map s)"
  shows "mem_only s s'"
proof (cases to)
  case True
  then obtain bs where b: "buf_slice buf pos l = Some bs"
    using assms(1) by (cases "buf_slice buf pos l") (simp_all add: copy_part_def)
  obtain s1 ok where m: "virtio_memcpy_to_ram s (ucast (d_addr d) + offset) bs = Some (s1, ok)" "mem_only s s1"
    using memcpy_to_total [OF assms(2)] by blast
  show ?thesis using assms(1) True b m by (simp add: copy_part_def)
next
  case False
  then show ?thesis using assms(1) by (auto simp: copy_part_def bind_Some_conv)
qed

lemma copy_loop_mem:
  assumes "copy_loop s q to buf d offset count pos = Some res"
  shows "map_wf (mem_map s) \<longrightarrow> mem_only s (snd (snd res))"
  using _ assms
proof (rule copy_loop.raw_induct, goal_cases)
  case (1 f s q to buf d offset count pos res)
  note ih = 1(1) and body = 1(2)
  show ?case
  proof
    assume wf: "map_wf (mem_map s)"
    obtain buf1 s1 where p: "copy_part s buf d to offset pos (min count (sint (d_len d - offset))) = Some (buf1, s1)"
      using body by (auto simp: Let_def bind_Some_conv)
    have m: "mem_only s s1" using copy_part_mem [OF p wf] .
    then have wf1: "map_wf (mem_map s1)" using wf mem_only_wf by blast
    have r: "mem_only s1 (snd (snd res))" if "f s1 q to buf1 d' o' c' p' = Some res" for d' o' c' p'
      using ih [OF that] wf1 by blast
    have "mem_only s1 (snd (snd res))"
      using body p
      by (auto simp: Let_def bind_Some_conv split: if_splits intro: r)
    with m show "mem_only s (snd (snd res))" by (rule mem_only_trans)
  qed
qed

lemma memcpy_queue_mem:
  assumes "memcpy_to_from_queue s buf q d off count to = Some (r, buf', s')" and "map_wf (mem_map s)"
  shows "mem_only s s'"
  using assms copy_loop_mem [of s q to buf _ _ count 0 "(r, buf', s')"]
  by (auto simp: memcpy_to_from_queue_def bind_Some_conv split: if_splits option.splits prod.splits)

lemma memcpy_to_queue_mem:
  "memcpy_to_queue s q d off buf count = Some (r, s') \<Longrightarrow> map_wf (mem_map s) \<Longrightarrow> mem_only s s'"
  using memcpy_queue_mem by (fastforce simp: memcpy_to_queue_def bind_Some_conv)

text \<open>Consuming a descriptor always returns; it writes the used ring and raises the interrupt.\<close>

lemma consume_desc:
  assumes "map_wf (mem_map s)" and "q < length (queue s)"
  shows "\<exists>mm. virtio_consume_desc s q d n = Some (s\<lparr>mem_map := mm, int_status := int_status s OR 1, irq := True\<rparr>) \<and>
    same_layout (mem_map s) mm"
proof -
  let ?a = "used_addr (queue s ! q)"
  obtain i where i: "virtio_read16 s (?a + 2) = Some i" using read16_total [OF assms(1)] by blast
  obtain s1 where s1: "virtio_write16 s (?a + 2) (i + 1) = Some s1" "mem_only s s1"
    using write16_total [OF assms(1)] by blast
  have wf1: "map_wf (mem_map s1)" using assms(1) mem_only_wf [OF s1(2)] by blast
  let ?b = "?a + 4 + (ucast i AND (q_num (queue s ! q) - 1)) * 8"
  obtain s2 where s2: "virtio_write32 s1 ?b (ucast d) = Some s2" "mem_only s1 s2"
    using write32_total [OF wf1] by blast
  have wf2: "map_wf (mem_map s2)" using wf1 mem_only_wf [OF s2(2)] by blast
  obtain s3 where s3: "virtio_write32 s2 (?b + 4) n = Some s3" "mem_only s2 s3"
    using write32_total [OF wf2] by blast
  have m: "mem_only s s3" using s1(2) s2(2) s3(2) mem_only_trans by blast
  have f: "int_status s3 = int_status s" using mem_only_fields(2) [OF m] .
  have e: "s3 = s\<lparr>mem_map := mem_map s3\<rparr>" using m by (simp add: mem_only_def)
  have "virtio_consume_desc s q d n = Some (set_irq True (s3\<lparr>int_status := int_status s3 OR 1\<rparr>))"
    using assms(2) i s1(1) s2(1) s3(1) by (simp add: virtio_consume_desc_def get_queue_def Let_def)
  moreover have "set_irq True (s3\<lparr>int_status := int_status s3 OR 1\<rparr>) =
      s\<lparr>mem_map := mem_map s3, int_status := int_status s OR 1, irq := True\<rparr>"
    by (subst e) (simp add: set_irq_def f)
  moreover have "same_layout (mem_map s) (mem_map s3)" using m by (simp add: mem_only_def)
  ultimately show ?thesis by metis
qed

lemma or_1_nonzero: "(x OR 1 :: u32) \<noteq> 0"
  by (metis bit_0 bit_or_iff odd_one zero_neq_one bit_0_eq bit_1_0 even_zero)

lemma consume_step:
  assumes w: "v_wf s" and c: "virtio_consume_desc s q d n = Some s'"
  shows "v_step s s'"
proof -
  have "q < length (queue s)" using c by (auto simp: virtio_consume_desc_def get_queue_def split: if_splits)
  then obtain mm where "s' = s\<lparr>mem_map := mm, int_status := int_status s OR 1, irq := True\<rparr>"
    "same_layout (mem_map s) mm" using consume_desc [OF v_wf_map [OF w], of q d n] c by auto
  then show ?thesis using w map_wf_layout [of "mem_map s" mm] by (simp add: v_step_def v_wf_def or_1_nonzero)
qed

lemma memcpy_step: "v_wf s \<Longrightarrow> memcpy_to_queue s q d off buf count = Some (r, s') \<Longrightarrow> v_step s s'"
  using memcpy_to_queue_mem mem_only_step v_wf_map by blast

lemma upd_queue_wf:
  assumes "v_wf s" and "\<And>qs. queue_wf qs \<Longrightarrow> queue_wf (f qs)"
  shows "v_wf (upd_queue i f s)"
proof (cases "i < length (queue s)")
  case True
  then have "queue_wf (f (queue s ! i))" using assms by (simp add: v_wf_def)
  then have "\<forall>q \<in> set ((queue s)[i := f (queue s ! i)]). queue_wf q"
    using assms(1) by (auto simp: v_wf_def dest!: set_update_subset_insert [THEN subsetD])
  then show ?thesis using assms(1) by (simp add: upd_queue_def v_wf_def)
next
  case False
  then show ?thesis using assms(1) by (simp add: upd_queue_def list_update_beyond)
qed

lemma upd_queue_step: "v_wf s \<Longrightarrow> (\<And>qs. queue_wf qs \<Longrightarrow> queue_wf (f qs)) \<Longrightarrow> v_step s (upd_queue i f s)"
  using upd_queue_wf [of s f i] by (simp add: v_step_def upd_queue_def)

lemma inc_avail_wf: "queue_wf qs \<Longrightarrow> queue_wf (inc_avail qs)"
  by (simp add: queue_wf_def inc_avail_def)


lemma virtio_consume_wf: "v_wf s \<Longrightarrow> virtio_consume_desc s q d n = Some s' \<Longrightarrow> v_wf s'"
  using consume_step v_stepD by blast

section \<open>The registers\<close>

lemma sel_queue_total: "v_wf s \<Longrightarrow> \<exists>q. sel_queue s = Some q"
  by (simp add: sel_queue_def get_queue_def v_wf_def)

lemma upd_sel_step:
  assumes "v_wf s" and "\<And>qs. queue_wf qs \<Longrightarrow> queue_wf (f qs)"
  shows "\<exists>s'. upd_sel f s = Some s' \<and> v_step s s'"
  using sel_queue_total [OF assms(1)] upd_queue_step [OF assms] by (auto simp: upd_sel_def)

lemma v_step_queue_sel: "v_wf s \<Longrightarrow> unat val < MAX_QUEUE \<Longrightarrow> v_step s (s\<lparr>queue_sel := val\<rparr>)"
  by (simp add: v_step_def v_wf_def)

lemma v_step_features_sel: "v_wf s \<Longrightarrow> v_step s (s\<lparr>device_features_sel := val\<rparr>)"
  by (simp add: v_step_def v_wf_def)

lemma v_step_ack: "v_wf s \<Longrightarrow> v_step s (interrupt_ack val s)"
  by (auto simp: v_step_def v_wf_def interrupt_ack_def set_irq_def Let_def)

lemma reset_queue_wf: "queue_wf qs \<Longrightarrow> queue_wf (reset_queue qs)"
  by (simp add: queue_wf_def reset_queue_def MAX_QUEUE_NUM_def)

lemma v_step_status: "v_wf s \<Longrightarrow> v_step s (set_status val s)"
  by (auto simp: v_step_def v_wf_def set_status_def set_irq_def virtio_reset_def Let_def MAX_QUEUE_def reset_queue_wf)

lemma queue_wf_addr:
  "queue_wf qs \<Longrightarrow> queue_wf (qs\<lparr>desc_addr := v\<rparr>)" "queue_wf qs \<Longrightarrow> queue_wf (qs\<lparr>avail_addr := v\<rparr>)"
  "queue_wf qs \<Longrightarrow> queue_wf (qs\<lparr>used_addr := v\<rparr>)"
  by (simp_all add: queue_wf_def)

lemma queue_wf_ready: "queue_wf qs \<Longrightarrow> queue_wf (qs\<lparr>q_ready := v AND 1\<rparr>)"
proof -
  have "v AND 1 = of_bool (odd v)" by (simp add: and_one_eq mod_2_eq_odd)
  then have "v AND 1 = 0 \<or> v AND 1 = 1" by (cases "odd v") simp_all
  then show "queue_wf qs \<Longrightarrow> queue_wf (qs\<lparr>q_ready := v AND 1\<rparr>)" by (simp add: queue_wf_def)
qed

lemma queue_wf_num: "queue_wf qs \<Longrightarrow> v AND (v - 1) = 0 \<Longrightarrow> 0 < v \<Longrightarrow> queue_wf (qs\<lparr>q_num := v\<rparr>)"
  by (auto simp: queue_wf_def)

lemma set_num_step: "v_wf s \<Longrightarrow> \<exists>s'. set_num val s = Some s' \<and> v_step s s'"
  using upd_sel_step [of s "\<lambda>q. q\<lparr>q_num := val\<rparr>"] queue_wf_num [of _ val]
  by (auto simp: set_num_def v_step_refl)

lemma sel_queue_steps:
  assumes "v_wf s"
  shows "\<exists>s'. upd_sel (\<lambda>q. q\<lparr>desc_addr := v\<rparr>) s = Some s' \<and> v_step s s'"
    "\<exists>s'. upd_sel (\<lambda>q. q\<lparr>avail_addr := v\<rparr>) s = Some s' \<and> v_step s s'"
    "\<exists>s'. upd_sel (\<lambda>q. q\<lparr>used_addr := v\<rparr>) s = Some s' \<and> v_step s s'"
    "\<exists>s'. upd_sel (\<lambda>q. q\<lparr>q_ready := v AND 1\<rparr>) s = Some s' \<and> v_step s s'"
  by (rule upd_sel_step [OF assms], erule queue_wf_addr queue_wf_ready)+

lemma config_off1: "3 \<le> unat (n :: u32) \<Longrightarrow> off < n - 1 \<Longrightarrow> unat off + 2 \<le> unat n"
  by unat_arith

lemma config_off3: "3 \<le> unat (n :: u32) \<Longrightarrow> off < n - 3 \<Longrightarrow> unat off + 4 \<le> unat n"
  by unat_arith

text \<open>A read of the configuration space that the code checks is inside it.\<close>

lemma config_read_total:
  assumes "v_wf s" and "size_log2 \<le> 2"
  shows "\<exists>v. virtio_config_read s off size_log2 = Some v"
proof -
  have c: "length (config_space s) = 256" "unat (config_space_size s) \<le> 256" "3 \<le> unat (config_space_size s)"
    using assms(1) by (simp_all add: v_wf_def MAX_CONFIG_SPACE_SIZE_def)
  have "off < config_space_size s \<Longrightarrow> unat off < 256" using c by unat_arith
  moreover have "off < config_space_size s - 1 \<Longrightarrow> unat off + 1 < 256" using config_off1 [OF c(3), of off] c by simp
  moreover have "off < config_space_size s - 3 \<Longrightarrow> unat off + 3 < 256" using config_off3 [OF c(3), of off] c by simp
  moreover have "size_log2 = 0 \<or> size_log2 = 1 \<or> size_log2 = 2" using assms(2) by linarith
  ultimately show ?thesis
    by (auto simp: virtio_config_read_def get_le16_def get_le32_def buf_get_def c(1))
qed

lemma mmio_read_total:
  assumes "v_wf s" and "size_log2 \<le> 2"
  shows "\<exists>v. virtio_mmio_read s off size_log2 = Some v"
proof -
  obtain q where "sel_queue s = Some q" using sel_queue_total [OF assms(1)] ..
  then show ?thesis using config_read_total [OF assms] by (simp add: virtio_mmio_read_def)
qed

lemma total_if: "\<exists>v. a = Some v \<Longrightarrow> \<exists>v. b = Some v \<Longrightarrow> \<exists>v. (if c then a else b) = Some v"
  by simp

lemma pci_cfg_read_total:
  assumes "v_wf s"
  shows "\<exists>v. pci_cfg_read s off size_log2 = Some v"
proof -
  obtain q where "sel_queue s = Some q" using sel_queue_total [OF assms(1)] ..
  then show ?thesis unfolding pci_cfg_read_def by (intro total_if) simp_all
qed

lemma pci_read_total:
  assumes "v_wf s" and "size_log2 \<le> 2"
  shows "\<exists>v s'. virtio_pci_read off size_log2 s = Some (v, s') \<and> v_step s s'"
proof -
  have isr: "v_step s (set_irq False (s\<lparr>int_status := 0\<rparr>))" using assms(1) by (simp add: v_step_def v_wf_def set_irq_def)
  define o1 where "o1 = off AND 0xfff"
  define pg where "pg = drop_bit 12 off"
  obtain v1 where v1: "pci_cfg_read s o1 size_log2 = Some v1" using pci_cfg_read_total [OF assms(1)] by blast
  obtain v2 where v2: "virtio_config_read s o1 size_log2 = Some v2" using config_read_total [OF assms] by blast
  define s2 where "s2 = set_irq False (s\<lparr>int_status := 0\<rparr>)"
  have "virtio_pci_read off size_log2 s \<in> {Some (v1, s), Some (int_status s, s2), Some (0, s), Some (v2, s)}"
    unfolding virtio_pci_read_def Let_def o1_def [symmetric] pg_def [symmetric] s2_def [symmetric] v1 v2 option.map
    by (simp only: insert_iff split: if_split) blast
  then show ?thesis using isr [folded s2_def] v_step_refl [OF assms(1)] by blast
qed


lemma put_some:
  "p + 1 \<le> length c \<Longrightarrow> \<exists>c'. buf_put c p v0 = Some c' \<and> length c' = length c"
  "p + 2 \<le> length c \<Longrightarrow> \<exists>c'. put_le16 c p v1 = Some c' \<and> length c' = length c"
  "p + 4 \<le> length c \<Longrightarrow> \<exists>c'. put_le32 c p v2 = Some c' \<and> length c' = length c"
  by (simp_all add: buf_put_def put_le16_def put_le32_def)

section \<open>What the register code needs of a device\<close>

definition recv_ok :: "'a recv_fn \<Rightarrow> bool" where
  "recv_ok recv \<longleftrightarrow> (\<forall>s q d rs ws ret s'. v_wf s \<longrightarrow> recv q d rs ws s = Some (ret, s') \<longrightarrow> v_step s s')"

lemma inc_avail_step: "v_wf s \<Longrightarrow> v_step s (upd_queue q inc_avail s)"
  by (rule upd_queue_step) (auto intro: inc_avail_wf)

lemma notify_loop_step:
  assumes "notify_loop recv q i s = Some s'"
  shows "recv_ok recv \<longrightarrow> v_wf s \<longrightarrow> v_step s s'"
  using _ assms
proof (rule notify_loop.raw_induct, goal_cases)
  case (1 f recv q i s r)
  show ?case
  proof (intro impI)
    assume rc: "recv_ok recv" and w: "v_wf s"
    have ih: "v_step s r" if "v_step s t" "f recv q i (upd_queue q inc_avail t) = Some r" for t
      using 1(1) [OF that(2)] rc inc_avail_step [of t q] that(1) v_stepD v_step_trans by metis
    have rv: "v_step s t" if "recv q d rs ws s = Some (ret, t)" for d rs ws ret t
      using rc w that by (auto simp: recv_ok_def)
    show "v_step s r"
      using 1(2) ih [OF v_step_refl [OF w]] ih [OF rv] rv v_step_refl [OF w]
      by (auto simp: Let_def bind_Some_conv split: if_splits option.splits prod.splits)
  qed
qed

lemma queue_notify_step: "recv_ok recv \<Longrightarrow> v_wf s \<Longrightarrow> queue_notify recv q s = Some s' \<Longrightarrow> v_step s s'"
  by (auto simp: queue_notify_def bind_Some_conv v_step_refl split: if_splits dest: notify_loop_step)

text \<open>
  The receive function keeps the invariant; the callback for writes to the configuration space, where there
  is one, always returns and keeps it.
\<close>

text \<open>A result that is a return to a state of a step.\<close>

definition oks :: "'a virtio_scheme \<Rightarrow> 'a virtio_scheme option \<Rightarrow> bool" where
  "oks s r \<longleftrightarrow> (\<exists>s'. r = Some s' \<and> v_step s s')"

lemma oks_if: "(c \<Longrightarrow> oks s a) \<Longrightarrow> (\<not> c \<Longrightarrow> oks s b) \<Longrightarrow> oks s (if c then a else b)"
  by simp

locale virtio_device =
  fixes V :: "'a virtio_ops"
  assumes recv_step: "v_wf s \<Longrightarrow> v_recv V q d rs ws s = Some (ret, s') \<Longrightarrow> v_step s s'"
    and config_step: "v_config V = Some f \<Longrightarrow> v_wf s \<Longrightarrow> \<exists>s'. f s = Some s' \<and> v_step s s'"
begin

lemma notify_step: "v_wf s \<Longrightarrow> queue_notify (v_recv V) q s = Some s' \<Longrightarrow> v_step s s'"
  using recv_step by (intro queue_notify_step [of "v_recv V"]) (auto simp: recv_ok_def)

lemma set_config_step:
  assumes "v_wf s" and "length c = length (config_space s)"
  shows "v_wf (set_config s c)" "v_step s (set_config s c)"
  using assms by (simp_all add: v_step_def v_wf_def set_config_def)

lemma config_call:
  assumes "v_wf s" and "length c = length (config_space s)"
  shows "\<exists>s'. (case v_config V of None \<Rightarrow> Some (set_config s c) | Some f \<Rightarrow> f (set_config s c)) = Some s' \<and> v_step s s'"
  using set_config_step [OF assms] config_step [OF _ set_config_step(1) [OF assms]] v_step_trans
  by (fastforce split: option.splits)

lemma config_write_total:
  assumes "v_wf s"
  shows "\<exists>s'. virtio_config_write (v_config V) off val size_log2 s = Some s' \<and> v_step s s'"
proof -
  have c: "length (config_space s) = 256" "unat (config_space_size s) \<le> 256" "3 \<le> unat (config_space_size s)"
    using assms by (simp_all add: v_wf_def MAX_CONFIG_SPACE_SIZE_def)
  have o0: "off < config_space_size s \<Longrightarrow> unat off + 1 \<le> length (config_space s)" using c by unat_arith
  have o1: "off < config_space_size s - 1 \<Longrightarrow> unat off + 2 \<le> length (config_space s)"
    using config_off1 [OF c(3), of off] c by simp
  have o3: "off < config_space_size s - 3 \<Longrightarrow> unat off + 4 \<le> length (config_space s)"
    using config_off3 [OF c(3), of off] c by simp
  have call: "\<exists>s'. (r \<bind> (\<lambda>c. case v_config V of None \<Rightarrow> Some (set_config s c) | Some f \<Rightarrow> f (set_config s c))) = Some s' \<and>
      v_step s s'" if "\<exists>c'. r = Some c' \<and> length c' = length (config_space s)" for r
    using that config_call [OF assms] by auto
  have self: "\<exists>s'. Some s = Some s' \<and> v_step s s'" using v_step_refl [OF assms] by simp
  show ?thesis
    unfolding virtio_config_write_def Let_def
    by (simp only: split: if_split) (intro conjI impI self call put_some o0 o1 o3)
qed

lemma sel_oks:
  assumes "v_wf s"
  shows "oks s (upd_sel (\<lambda>q. q\<lparr>desc_addr := v\<rparr>) s)" "oks s (upd_sel (\<lambda>q. q\<lparr>avail_addr := v\<rparr>) s)"
    "oks s (upd_sel (\<lambda>q. q\<lparr>used_addr := v\<rparr>) s)" "oks s (upd_sel (\<lambda>q. q\<lparr>q_ready := v AND 1\<rparr>) s)"
    "oks s (set_num v s)" "oks s (virtio_config_write (v_config V) off v size_log2 s)"
    "oks s (Some s)" "oks s (Some (s\<lparr>device_features_sel := v\<rparr>))" "oks s (Some (interrupt_ack v s))"
    "oks s (Some (set_status v s))" "oks s (Some (if unat v < MAX_QUEUE then s\<lparr>queue_sel := v\<rparr> else s))"
  unfolding oks_def
  by (rule sel_queue_steps [OF assms] set_num_step [OF assms] config_write_total [OF assms]
      | simp add: v_step_refl v_step_features_sel v_step_ack v_step_status v_step_queue_sel assms)+

lemma mmio_write_total:
  assumes "v_wf s" and "off \<noteq> VIRTIO_MMIO_QUEUE_NOTIFY \<or> size_log2 \<noteq> 2"
  shows "oks s (virtio_mmio_write V off val size_log2 s)"
  unfolding virtio_mmio_write_def by (intro oks_if sel_oks [OF assms(1)]) (use assms(2) in auto)

lemma mmio_write_step:
  assumes "v_wf s" and "virtio_mmio_write V off val size_log2 s = Some s'"
  shows "v_step s s'"
proof (cases "off \<noteq> VIRTIO_MMIO_QUEUE_NOTIFY \<or> size_log2 \<noteq> 2")
  case True
  then show ?thesis using mmio_write_total [OF assms(1) True, of val] assms(2) by (simp add: oks_def)
next
  case False
  then have "virtio_mmio_write V off val size_log2 s =
      (if unat val < MAX_QUEUE then queue_notify (v_recv V) (unat val) s else Some s)"
    by (simp add: virtio_mmio_write_def virtio_mmio_consts)
  then show ?thesis using assms notify_step v_step_refl by (auto split: if_splits)
qed

lemma pci_cfg_write_total:
  fixes s :: "'a virtio_scheme"
  assumes "v_wf s"
  shows "oks s (pci_cfg_write off val size_log2 s)"
  unfolding pci_cfg_write_def by (intro oks_if sel_oks [OF assms])

lemma pci_write_step:
  assumes "v_wf s" and "virtio_pci_write V off val size_log2 s = Some s'"
  shows "v_step s s'"
proof -
  define o1 where "o1 = off AND 0xfff"
  define pg where "pg = drop_bit 12 off"
  have "virtio_pci_write V off val size_log2 s \<in> {pci_cfg_write o1 val size_log2 s,
      virtio_config_write (v_config V) o1 val size_log2 s, queue_notify (v_recv V) (unat val) s, Some s}"
    unfolding virtio_pci_write_def Let_def o1_def [symmetric] pg_def [symmetric]
    by (simp only: insert_iff split: if_split) blast
  then show ?thesis
    using assms(2) pci_cfg_write_total [OF assms(1), of o1 val size_log2] sel_oks(6) [OF assms(1), of o1 val size_log2]
      notify_step [OF assms(1)] v_step_refl [OF assms(1)] by (auto simp: oks_def)
qed

end

end
