(* ===== verification/Virtio_Reach.thy ===== *)
theory Virtio_Reach
  imports Virtio_Props
begin

text \<open>
  The four virtio devices as state machines: the guest accesses the registers, the host delivers data and
  events. The invariant holds in every state a device can reach.
\<close>

section \<open>The devices provide what the register code needs\<close>

definition console_ops :: "malloc \<Rightarrow> (u8 list \<Rightarrow> 'h \<Rightarrow> 'h) \<Rightarrow> ('h, unit) vconsole_ext virtio_ops" where
  "console_ops fresh write_data = \<lparr>v_recv = virtio_console_recv_request fresh write_data, v_config = None\<rparr>"

definition net_ops :: "malloc \<Rightarrow> (u8 list \<Rightarrow> 'h \<Rightarrow> 'h) \<Rightarrow> ('h, unit) vnet_ext virtio_ops" where
  "net_ops fresh write_packet = \<lparr>v_recv = virtio_net_recv_request fresh write_packet, v_config = None\<rparr>"

definition block_ops :: "malloc \<Rightarrow> 'h block_backend \<Rightarrow> ('h, unit) vblock_ext virtio_ops" where
  "block_ops fresh B = \<lparr>v_recv = virtio_block_recv_request fresh B, v_config = None\<rparr>"

definition input_ops :: "unit vinput_ext virtio_ops" where
  "input_ops = \<lparr>v_recv = virtio_input_recv_request, v_config = Some virtio_input_config_write\<rparr>"

lemma bind_SomeE: "m \<bind> f = Some y \<Longrightarrow> (\<And>x. m = Some x \<Longrightarrow> f x = Some y \<Longrightarrow> P) \<Longrightarrow> P"
  by (cases m) auto

lemma or_nonzero: "(x OR 2 :: u32) \<noteq> 0"
proof
  assume "x OR 2 = 0"
  then have "bit (x OR 2) 1 = bit (0 :: u32) 1" by simp
  then show False by (simp add: bit_simps)
qed

lemma v_step_host [intro]:
  "v_wf s \<Longrightarrow> v_step s (s\<lparr>char_host := h\<rparr>)" for s :: "'h vconsole"
  by (simp add: v_step_def v_wf_def)

lemma v_step_net_host [intro]:
  "v_wf s \<Longrightarrow> v_step s (s\<lparr>net_host := h\<rparr>)" for s :: "'h vnet"
  by (simp add: v_step_def v_wf_def)

lemma v_step_block [intro]:
  fixes s :: "'h vblock"
  assumes "v_wf s"
  shows "v_step s (s\<lparr>req_type := t, req_queue_idx := q, req_desc_idx := d\<rparr>)"
    "v_step s (s\<lparr>req_type := t, req_queue_idx := q, req_desc_idx := d, blk_host := h\<rparr>)"
    "v_step s (s\<lparr>req_type := t, req_queue_idx := q, req_desc_idx := d, req_buf := b, req_write_size := w, blk_host := h\<rparr>)"
    "v_step s (s\<lparr>req_in_progress := p\<rparr>)"
  using assms by (simp_all add: v_step_def v_wf_def)

lemma console_recv_step:
  assumes "v_wf s" and "virtio_console_recv_request fresh wd q d rs ws s = Some (ret, s')"
  shows "v_step s s'"
  using assms(2) v_step_refl [OF assms(1)] v_step_trans [OF v_step_host [OF assms(1)] consume_step]
    v_stepD [OF v_step_host [OF assms(1)]]
  by (auto simp: virtio_console_recv_request_def bind_Some_conv Let_def split: if_splits)

lemma net_recv_step:
  assumes "v_wf s" and "virtio_net_recv_request fresh wp q d rs ws s = Some (ret, s')"
  shows "v_step s s'"
  using assms(2) v_step_refl [OF assms(1)] v_step_trans [OF v_step_net_host [OF assms(1)] consume_step]
    v_stepD [OF v_step_net_host [OF assms(1)]]
  by (auto simp: virtio_net_recv_request_def bind_Some_conv Let_def split: if_splits)

lemma input_recv_step:
  "v_wf s \<Longrightarrow> virtio_input_recv_request q d rs ws s = Some (ret, s') \<Longrightarrow> v_step s s'"
  using consume_step v_step_refl by (auto simp: virtio_input_recv_request_def bind_Some_conv split: if_splits)

lemma block_end_step:
  assumes "v_wf s" and "virtio_block_req_end ret s = Some s'"
  shows "v_step s s'"
proof -
  have two: "v_step s s'" if "memcpy_to_queue s q d off buf n = Some (r, t)" "virtio_consume_desc t q' d' n' = Some s'"
    for q d off buf n r t q' d' n'
    using memcpy_step [OF assms(1) that(1)] consume_step [OF _ that(2)] v_stepD v_step_trans by blast
  show ?thesis using assms(2) two
    by (auto simp: virtio_block_req_end_def Let_def bind_Some_conv split: if_splits)
qed


lemma block_recv_step:
  assumes "v_wf s" and "virtio_block_recv_request fresh B q d rs ws s = Some (ret, s')"
  shows "v_step s s'"
proof -
  have fin: "v_step s s'" if "v_step s t" "virtio_block_req_end r t = Some s'" for t r
    using block_end_step [OF v_stepD [OF that(1)] that(2)] that(1) v_step_trans by blast
  have run: "v_step s (t\<lparr>req_in_progress := p\<rparr>)" if "v_step s t" for t :: "'a vblock" and p
    using v_step_block(4) [OF v_stepD [OF that]] that v_step_trans by blast
  show ?thesis using assms(2)
    unfolding virtio_block_recv_request_def Let_def
    using assms(1)
    by (auto simp: v_step_refl run v_step_block elim!: bind_SomeE fin [OF v_step_block(2), rotated]
        fin [OF v_step_block(3), rotated] split: if_split_asm prod.split_asm)
qed

lemma put_at_length: "off + length bs \<le> length c \<Longrightarrow> length (put_at c off bs) = length c"
  by (simp add: put_at_def)

lemma set_bits_length: "length (foldl (set_bit_in off) c ks) = length c"
  by (induction ks arbitrary: c) (simp_all add: set_bit_in_def Let_def)

lemma put_bitmap_length: "8 + n \<le> length c \<Longrightarrow> length (put_bitmap n ks c) = length c"
  by (simp add: put_bitmap_def set_bits_length put_at_length)

lemma input_config_length:
  assumes "length c = 256"
  shows "length (virtio_input_config t c) = 256"
  using assms
  by (cases t) (simp_all add: virtio_input_config_def ev_bits_def put_at_length put_bitmap_length name_of_def Let_def)

lemma input_config_step:
  fixes s :: vinput
  assumes "v_wf s"
  shows "\<exists>s'. virtio_input_config_write s = Some s' \<and> v_step s s'"
proof -
  have "length (virtio_input_config (input_kind s) (config_space s)) = 256"
    using assms by (intro input_config_length) (simp add: v_wf_def MAX_CONFIG_SPACE_SIZE_def)
  then show ?thesis using assms
    by (simp add: virtio_input_config_write_def v_step_def v_wf_def MAX_CONFIG_SPACE_SIZE_def)
qed

interpretation console: virtio_device "console_ops fresh write_data" for fresh write_data
  by unfold_locales (auto simp: console_ops_def intro: console_recv_step)

interpretation net: virtio_device "net_ops fresh write_packet" for fresh write_packet
  by unfold_locales (auto simp: net_ops_def intro: net_recv_step)

interpretation block: virtio_device "block_ops fresh B" for fresh B
  by unfold_locales (auto simp: block_ops_def intro: block_recv_step)

interpretation inp: virtio_device input_ops
  by unfold_locales (auto simp: input_ops_def intro: input_recv_step input_config_step)

section \<open>What the host does\<close>

lemma host_transfer_step:
  assumes "v_wf s" and "memcpy_to_queue s q d off buf n = Some (r, t)" and "virtio_consume_desc t q' d' n' = Some u"
  shows "v_step s (upd_queue q'' inc_avail u)"
proof -
  have "v_step s u" using memcpy_step [OF assms(1,2)] consume_step [OF _ assms(3)] v_stepD v_step_trans by blast
  then show ?thesis using inc_avail_step v_stepD v_step_trans by blast
qed

lemma console_write_step:
  assumes "v_wf s" and "virtio_console_write_data buf s = Some (n, s')"
  shows "v_step s s'"
  using assms(2) host_transfer_step [OF assms(1)] v_step_refl [OF assms(1)]
  by (auto simp: virtio_console_write_data_def Let_def bind_Some_conv split: if_splits)

lemma resize_step:
  assumes "v_wf s" and "virtio_console_resize_event w h s = Some s'"
  shows "v_step s s'"
  using assms by (auto simp: virtio_console_resize_event_def bind_Some_conv put_le16_def buf_put_def
      virtio_config_change_notify_def set_irq_def set_config_def v_step_def v_wf_def or_nonzero split: if_splits)

lemma net_write_step:
  assumes "v_wf s" and "virtio_net_write_packet buf s = Some s'"
  shows "v_step s s'"
proof -
  have two: "v_step s (upd_queue q'' inc_avail u)"
    if "memcpy_to_queue s q1 d1 o1 b1 n1 = Some (r1, t1)" "memcpy_to_queue t1 q d off b n = Some (r, t)"
      "virtio_consume_desc t q' d' n' = Some u" for q1 d1 o1 b1 n1 r1 t1 q d off b n r t q' d' n' q'' u
    using memcpy_step [OF assms(1) that(1)] host_transfer_step [OF _ that(2,3)] v_stepD v_step_trans by blast
  show ?thesis using assms(2) two v_step_refl [OF assms(1)]
    by (auto simp: virtio_net_write_packet_def Let_def elim!: bind_SomeE
        split: if_split_asm option.split_asm prod.split_asm)
qed

lemma event_step:
  assumes "v_wf s" and "virtio_input_queue_event ty code val s = Some (ret, s')"
  shows "v_step s s'"
  using assms(2) host_transfer_step [OF assms(1)] v_step_refl [OF assms(1)]
  by (auto simp: virtio_input_queue_event_def Let_def bind_Some_conv split: if_splits)

lemma events_step: "v_wf s \<Longrightarrow> queue_events evs s = Some (ret, s') \<Longrightarrow> v_step s s'"
proof (induction evs s rule: queue_events.induct)
  case (1 s)
  then show ?case by (simp add: v_step_refl)
next
  case (2 ty code val evs s)
  obtain r t where e: "virtio_input_queue_event ty code val s = Some (r, t)"
    using "2.prems"(2) by (auto simp: bind_Some_conv)
  have t: "v_step s t" using event_step [OF "2.prems"(1) e] .
  show ?case
  proof (cases "r = 0")
    case True
    then have "queue_events evs t = Some (ret, s')" using "2.prems"(2) e by simp
    then have "v_step t s'" using "2.IH" [OF e] True v_stepD [OF t] by simp
    then show ?thesis using t v_step_trans by blast
  next
    case False
    then show ?thesis using "2.prems"(2) e t by simp
  qed
qed


lemma key_step:
  "v_wf s \<Longrightarrow> virtio_input_send_key_event down k s = Some (ret, s') \<Longrightarrow> v_step s s'"
  using events_step v_step_refl
  by (auto simp: virtio_input_send_key_event_def simp del: queue_events.simps split: if_splits)

lemma buttons_step: "v_wf s \<Longrightarrow> v_step s (s\<lparr>buttons_state := b\<rparr>)" for s :: vinput
  by (simp add: v_step_def v_wf_def)

text \<open>The three parts of a mouse event: motion, buttons, synchronisation.\<close>

lemma mouse_step:
  assumes w: "v_wf s" and m: "virtio_input_send_mouse_event dx dy dz b s = Some (ret, s')"
  shows "v_step s s'"
proof (cases "input_kind s = KEYBOARD")
  case True
  then show ?thesis using m v_step_refl [OF w] by (simp add: virtio_input_send_mouse_event_def)
next
  case False
  define B where "B t = (if b \<noteq> buttons_state t
      then do { (ret, s) \<leftarrow> queue_events (button_events b (buttons_state t)) t;
                Some (ret, if ret \<noteq> 0 then s else s\<lparr>buttons_state := b\<rparr>) }
      else Some (0, t))" for t :: vinput
  obtain evs r t where q: "queue_events evs s = Some (r, t)" and
    rest: "(if r \<noteq> 0 then Some (r, t)
      else do { (ret, s) \<leftarrow> B t;
                if ret \<noteq> 0 then Some (ret, s)
                else virtio_input_queue_event VIRTIO_INPUT_EV_SYN 0 0 s }) = Some (ret, s')"
    using m False unfolding virtio_input_send_mouse_event_def Let_def B_def [symmetric] if_not_P [OF False]
    by (elim bind_SomeE) (auto simp del: queue_events.simps append.simps)
  have t: "v_step s t" using events_step [OF w q] .
  have but: "v_step t u" if "B t = Some (r', u)" for r' u
    using that events_step [OF v_stepD [OF t]] v_step_refl [OF v_stepD [OF t]]
      v_step_trans [OF events_step [OF v_stepD [OF t]] buttons_step [OF v_stepD [OF events_step [OF v_stepD [OF t]]]]]
    by (auto simp: B_def elim!: bind_SomeE split: if_split_asm)
  have "v_step t s'"
  proof (cases "r = 0")
    case True
    then obtain r' u where u: "B t = Some (r', u)" and
      e: "(if r' \<noteq> 0 then Some (r', u) else virtio_input_queue_event VIRTIO_INPUT_EV_SYN 0 0 u) = Some (ret, s')"
      using rest by (cases "B t") auto
    have u: "v_step t u" using but [OF u] .
    show ?thesis
    proof (cases "r' = 0")
      case True
      then have "virtio_input_queue_event VIRTIO_INPUT_EV_SYN 0 0 u = Some (ret, s')" using e by simp
      then have "v_step u s'" by (rule event_step [OF v_stepD [OF u]])
      with u show ?thesis by (rule v_step_trans)
    next
      case False
      then show ?thesis using e u by simp
    qed
  next
    case False
    then show ?thesis using rest v_step_refl [OF v_stepD [OF t]] by simp
  qed
  then show ?thesis using t v_step_trans by blast
qed

lemma block_cb_step:
  assumes "v_wf s" and "virtio_block_req_cb fresh B ret s = Some s'"
  shows "v_step s s'"
proof -
  obtain t where t: "virtio_block_req_end ret s = Some t"
    "queue_notify (virtio_block_recv_request fresh B) (req_queue_idx t) (t\<lparr>req_in_progress := False\<rparr>) = Some s'"
    using assms(2) by (auto simp: virtio_block_req_cb_def Let_def bind_Some_conv)
  have a: "v_step s t" using block_end_step [OF assms(1) t(1)] .
  have b: "v_step s (t\<lparr>req_in_progress := False\<rparr>)" using v_step_block(4) [OF v_stepD [OF a]] a v_step_trans by blast
  have "v_step (t\<lparr>req_in_progress := False\<rparr>) s'"
    using block.notify_step [of "t\<lparr>req_in_progress := False\<rparr>" fresh B] t(2) v_stepD [OF b] by (simp add: block_ops_def)
  then show ?thesis using b v_step_trans by blast
qed

section \<open>Reachable states\<close>

text \<open>
  The guest writes and reads registers; the CPU and the other devices change the RAM; the host takes
  a step of \<open>H\<close>.
\<close>

inductive v_reach ::
    "'a virtio_ops \<Rightarrow> ('a virtio_scheme \<Rightarrow> 'a virtio_scheme \<Rightarrow> bool) \<Rightarrow> 'a virtio_scheme \<Rightarrow> 'a virtio_scheme \<Rightarrow> bool"
  for V H s0 where
  reach_init: "v_reach V H s0 s0"
| reach_mmio: "v_reach V H s0 s \<Longrightarrow> virtio_mmio_write V off val size_log2 s = Some s' \<Longrightarrow> v_reach V H s0 s'"
| reach_pci_read: "v_reach V H s0 s \<Longrightarrow> virtio_pci_read off size_log2 s = Some (v, s') \<Longrightarrow> size_log2 \<le> 2 \<Longrightarrow> v_reach V H s0 s'"
| reach_pci: "v_reach V H s0 s \<Longrightarrow> virtio_pci_write V off val size_log2 s = Some s' \<Longrightarrow> v_reach V H s0 s'"
| reach_ram: "v_reach V H s0 s \<Longrightarrow> same_layout (mem_map s) mm \<Longrightarrow> v_reach V H s0 (s\<lparr>mem_map := mm\<rparr>)"
| reach_host: "v_reach V H s0 s \<Longrightarrow> H s s' \<Longrightarrow> v_reach V H s0 s'"

definition console_host :: "'h vconsole \<Rightarrow> 'h vconsole \<Rightarrow> bool" where
  "console_host s s' \<longleftrightarrow> (\<exists>buf n. virtio_console_write_data buf s = Some (n, s')) \<or>
     (\<exists>w h. virtio_console_resize_event w h s = Some s')"

definition net_host_step :: "'h vnet \<Rightarrow> 'h vnet \<Rightarrow> bool" where
  "net_host_step s s' \<longleftrightarrow> (\<exists>buf. virtio_net_write_packet buf s = Some s')"

definition block_host :: "malloc \<Rightarrow> 'h block_backend \<Rightarrow> 'h vblock \<Rightarrow> 'h vblock \<Rightarrow> bool" where
  "block_host fresh B s s' \<longleftrightarrow> (\<exists>ret. virtio_block_req_cb fresh B ret s = Some s')"

definition input_host :: "vinput \<Rightarrow> vinput \<Rightarrow> bool" where
  "input_host s s' \<longleftrightarrow> (\<exists>down k ret. virtio_input_send_key_event down k s = Some (ret, s')) \<or>
     (\<exists>dx dy dz b ret. virtio_input_send_mouse_event dx dy dz b s = Some (ret, s'))"

lemma v_step_ram: "v_wf s \<Longrightarrow> same_layout (mem_map s) mm \<Longrightarrow> v_step s (s\<lparr>mem_map := mm\<rparr>)"
  using map_wf_layout [of "mem_map s" mm] by (simp add: v_step_def v_wf_def)

context virtio_device
begin

lemma reach_wf:
  assumes "v_reach V H s0 s" and "v_wf s0" and "\<And>s s'. v_wf s \<Longrightarrow> H s s' \<Longrightarrow> v_step s s'"
  shows "v_wf s"
  using assms(1)
proof induction
  case (reach_pci_read s off size_log2 v s')
  then show ?case using pci_read_total [of s size_log2 off] v_stepD by auto
qed (use assms(2,3) mmio_write_step pci_write_step v_step_ram v_stepD in blast)+

end

section \<open>Initialisation\<close>

lemma virtio_init_wf:
  assumes "virtio_init mm a n d c = Some v" and "map_wf mm" and "3 \<le> unat c" and "unat c \<le> 256"
  shows "v_wf v"
  using assms cpu_register_device_wf [of mm a 4096 n]
  by (auto simp: virtio_init_def bind_Some_conv v_wf_def virtio_reset_def reset_queue_def zero_queue_def
      queue_wf_def MAX_QUEUE_def MAX_QUEUE_NUM_def MAX_CONFIG_SPACE_SIZE_def)

lemma v_wf_extend: "v_wf (virtio.extend v x) = v_wf v"
  by (simp add: v_wf_def virtio.extend_def)

lemma manual_wf: "v_wf v \<Longrightarrow> v_wf (upd_queue i (\<lambda>q. q\<lparr>manual_recv := b\<rparr>) v)"
  by (rule upd_queue_wf) (auto simp: queue_wf_def)

lemma features_wf: "v_wf (v\<lparr>device_features := f\<rparr>) = v_wf v"
  by (simp add: v_wf_def)

lemma config_wf: "v_wf v \<Longrightarrow> length c = 256 \<Longrightarrow> v_wf (set_config v c)"
  by (simp add: v_wf_def set_config_def MAX_CONFIG_SPACE_SIZE_def)

lemma v_wf_config: "v_wf v \<Longrightarrow> length (config_space v) = 256"
  by (simp add: v_wf_def MAX_CONFIG_SPACE_SIZE_def)

lemma console_init_wf:
  assumes "map_wf mm" and "virtio_console_init mm a n h = Some s"
  shows "v_wf s"
proof -
  obtain v where v: "virtio_init mm a n 3 4 = Some v" using assms(2) by (auto simp: virtio_console_init_def elim!: bind_SomeE)
  have "v_wf v" using virtio_init_wf [OF v assms(1)] by simp
  then show ?thesis using assms(2) v
    by (auto simp: virtio_console_init_def Let_def v_wf_extend features_wf intro!: manual_wf)
qed

lemma net_init_wf:
  assumes "map_wf mm" and "length mac = 6" and "virtio_net_init mm a n mac h = Some s"
  shows "v_wf s"
proof -
  obtain v where v: "virtio_init mm a n 1 8 = Some v" using assms(3) by (auto simp: virtio_net_init_def elim!: bind_SomeE)
  let ?v = "upd_queue 0 (\<lambda>q. q\<lparr>manual_recv := True\<rparr>) (v\<lparr>device_features := push_bit 5 1\<rparr>)"
  have "v_wf v" using virtio_init_wf [OF v assms(1)] by simp
  then have w: "v_wf ?v" by (intro manual_wf) (simp add: features_wf)
  have "v_wf (set_config ?v (take 6 mac @ [0, 0] @ drop 8 (config_space ?v)))"
    using v_wf_config [OF w] assms(2) by (intro config_wf [OF w]) simp
  then show ?thesis using assms(3) v by (auto simp: virtio_net_init_def Let_def v_wf_extend)
qed

lemma block_init_wf:
  assumes "map_wf mm" and "virtio_block_init mm a n nb h = Some s"
  shows "v_wf s"
proof -
  obtain v where v: "virtio_init mm a n 2 8 = Some v" using assms(2) by (auto simp: virtio_block_init_def elim!: bind_SomeE)
  have w: "v_wf v" using virtio_init_wf [OF v assms(1)] by simp
  obtain c where c: "put_le32 (config_space v) 0 (ucast nb) = Some c" "length c = length (config_space v)"
    using put_some(3) [of 0 "config_space v" "ucast nb"] v_wf_config [OF w] by auto
  obtain c' where c': "put_le32 c 4 (ucast (drop_bit 32 nb)) = Some c'" "length c' = length c"
    using put_some(3) [of 4 c "ucast (drop_bit 32 nb)"] v_wf_config [OF w] c by auto
  have "v_wf (set_config v c')" using v_wf_config [OF w] c c' by (intro config_wf [OF w]) simp
  then show ?thesis using assms(2) v c c' by (auto simp: virtio_block_init_def v_wf_extend)
qed

lemma input_init_wf:
  assumes "map_wf mm" and "virtio_input_init mm a n t = Some s"
  shows "v_wf s"
proof -
  obtain v where v: "virtio_init mm a n 18 256 = Some v" using assms(2) by (auto simp: virtio_input_init_def elim!: bind_SomeE)
  have "v_wf v" using virtio_init_wf [OF v assms(1)] by simp
  then show ?thesis using assms(2) v
    by (auto simp: virtio_input_init_def Let_def v_wf_extend intro!: manual_wf)
qed


section \<open>What holds in every reachable state\<close>

definition registers_ok :: "'a virtio_ops \<Rightarrow> 'a virtio_scheme \<Rightarrow> bool" where
  "registers_ok V s \<longleftrightarrow>
     (irq s \<longleftrightarrow> int_status s \<noteq> 0) \<and>
     (\<forall>off size_log2. size_log2 \<le> 2 \<longrightarrow>
        virtio_mmio_read s off size_log2 \<noteq> None \<and> virtio_pci_read off size_log2 s \<noteq> None) \<and>
     (\<forall>off val size_log2. off \<noteq> VIRTIO_MMIO_QUEUE_NOTIFY \<or> size_log2 \<noteq> 2 \<longrightarrow>
        virtio_mmio_write V off val size_log2 s \<noteq> None)"

context virtio_device
begin

lemma registers_ok_wf:
  assumes "v_wf s"
  shows "registers_ok V s"
  unfolding registers_ok_def
proof (intro conjI allI impI)
  show "irq s = (int_status s \<noteq> 0)" using assms by (simp add: v_wf_def)
next
  fix off size_log2
  assume "size_log2 \<le> (2 :: nat)"
  then show "virtio_mmio_read s off size_log2 \<noteq> None" "virtio_pci_read off size_log2 s \<noteq> None"
    using mmio_read_total [OF assms, of size_log2 off] pci_read_total [OF assms, of size_log2 off] by auto
next
  fix off val :: u32 and size_log2 :: nat
  assume "off \<noteq> VIRTIO_MMIO_QUEUE_NOTIFY \<or> size_log2 \<noteq> 2"
  then show "virtio_mmio_write V off val size_log2 s \<noteq> None"
    using mmio_write_total [OF assms] by (fastforce simp: oks_def)
qed

lemma reach_ok:
  assumes "v_wf s0" and "\<And>s s'. v_wf s \<Longrightarrow> H s s' \<Longrightarrow> v_step s s'" and "v_reach V H s0 s"
  shows "registers_ok V s"
  using reach_wf [OF assms(3,1,2)] by (rule registers_ok_wf)

end

lemma host_steps:
  "v_wf s1 \<Longrightarrow> console_host s1 s1' \<Longrightarrow> v_step s1 s1'"
  "v_wf s2 \<Longrightarrow> net_host_step s2 s2' \<Longrightarrow> v_step s2 s2'"
  "v_wf s3 \<Longrightarrow> block_host fresh B s3 s3' \<Longrightarrow> v_step s3 s3'"
  "v_wf s4 \<Longrightarrow> input_host s4 s4' \<Longrightarrow> v_step s4 s4'"
  using console_write_step resize_step net_write_step block_cb_step key_step mouse_step
  by (auto simp: console_host_def net_host_step_def block_host_def input_host_def)



end
