(* ===== verification/Virtio_Chain.thy ===== *)
theory Virtio_Chain
  imports Virtio_Props
begin

text \<open>
  What the device reads: the guest memory byte by byte, and a chain of descriptors as the concatenation of the
  buffers it describes.
\<close>

section \<open>The bytes of the guest memory\<close>

definition ram_at :: "mem_map_t \<Rightarrow> u32 \<Rightarrow> nat option" where
  "ram_at mm a = (case get_phys_mem_range mm (ucast a) of
     None \<Rightarrow> None | Some r \<Rightarrow> if pr_is_ram (mm ! r) then Some r else None)"

text \<open>The RAM ranges are not cut by another range inside a page.\<close>

definition whole_pages :: "mem_map_t \<Rightarrow> bool" where
  "whole_pages mm \<longleftrightarrow> (\<forall>a b. unat a div 4096 = unat b div 4096 \<longrightarrow> ram_at mm a = ram_at mm b)"

definition ram_byte :: "mem_map_t \<Rightarrow> u32 \<Rightarrow> u8 option" where
  "ram_byte mm a = (case ram_at mm a of
     None \<Rightarrow> None | Some r \<Rightarrow> Some (pr_phys_mem (mm ! r) (unat (ucast a - pr_addr (mm ! r)))))"

lemma get_ram_ptr_at:
  "virtio_get_ram_ptr s a False =
     Some (map_option (\<lambda>r. (r, int (unat (ucast a - pr_addr (mem_map s ! r))))) (ram_at (mem_map s) a), s)"
  by (auto simp: virtio_get_ram_ptr_def phys_mem_get_ram_ptr_def ram_at_def Let_def split: option.splits)

lemma unat_add_small: "unat (a :: 'a :: len word) + i < 2 ^ LENGTH('a) \<Longrightarrow> unat (a + of_nat i) = unat a + i"
  by (simp add: unat_word_ariths unat_of_nat mod_add_right_eq)

text \<open>Inside a page, a byte is at its distance from the pointer of the page.\<close>

lemma ram_byte_page:
  assumes wp: "whole_pages mm" and wf: "map_wf mm" and r: "ram_at mm a = Some r" and i: "unat a mod 4096 + i < 4096"
  shows "ram_byte mm (a + of_nat i) = Some (pr_phys_mem (mm ! r) (unat (ucast a - pr_addr (mm ! r)) + i))"
proof -
  have top: "unat a + i < 2 ^ 32"
  proof -
    have "unat a = unat a div 4096 * 4096 + unat a mod 4096" by simp
    moreover have "unat a < 2 ^ 32" using unsigned_less [of a, where ?'a = nat] by simp
    then have "unat a div 4096 < 2 ^ 20" by (simp add: less_mult_imp_div_less)
    ultimately have "unat a div 4096 < 1048576" "unat a = unat a div 4096 * 4096 + unat a mod 4096" by simp_all
    then have "unat a + i < 4294967296" using i by linarith
    then show ?thesis by simp
  qed
  have u: "unat (a + of_nat i) = unat a + i" using top by (intro unat_add_small) simp
  have pg: "unat (a + of_nat i) div 4096 = unat a div 4096"
  proof -
    have "unat a = unat a div 4096 * 4096 + unat a mod 4096" by simp
    then have "4096 * (unat a div 4096) \<le> unat a + i" "unat a + i < 4096 * (unat a div 4096) + 4096"
      using i by linarith+
    then have "4096 * (unat a div 4096) \<le> unat a + i" "unat a + i < 4096 * Suc (unat a div 4096)" by simp_all
    then show ?thesis unfolding u by (rule div_nat_eqI)
  qed
  have r': "ram_at mm (a + of_nat i) = Some r" using wp pg r unfolding whole_pages_def by metis
  have g: "get_phys_mem_range mm (ucast a) = Some r" and ram: "pr_is_ram (mm ! r)"
    using r by (auto simp: ram_at_def split: option.splits if_splits)
  have ir: "in_range (mm ! r) (ucast a)" using get_phys_mem_range_SomeD(2) [OF g] .
  have le: "pr_addr (mm ! r) \<le> ucast a" using ir by (simp add: in_range_def)
  have w: "(ucast (a + of_nat i) :: u64) = ucast a + of_nat i"
  proof (rule word_unat_eq_iff [THEN iffD2])
    have "unat (ucast a + of_nat i :: u64) = unat (ucast a :: u64) + i"
      by (rule unat_add_small) (use top in \<open>simp add: unat_wide\<close>)
    then show "unat (ucast (a + of_nat i) :: u64) = unat (ucast a + of_nat i :: u64)" by (simp add: unat_wide u)
  qed
  have "unat (ucast a + of_nat i - pr_addr (mm ! r)) = unat (ucast a - pr_addr (mm ! r) + of_nat i)"
    by (simp add: algebra_simps)
  also have "\<dots> = unat (ucast a - pr_addr (mm ! r)) + i"
  proof (rule unat_add_small)
    have "unat (ucast a - pr_addr (mm ! r)) \<le> unat (ucast a :: u64)" using le by (simp add: unat_sub_if' word_le_nat_alt)
    then show "unat (ucast a - pr_addr (mm ! r)) + i < 2 ^ LENGTH(64)" using top by (simp add: unat_wide)
  qed
  finally show ?thesis using r' by (simp add: ram_byte_def w)
qed


definition ram_bytes :: "mem_map_t \<Rightarrow> u32 \<Rightarrow> nat \<Rightarrow> u8 option list" where
  "ram_bytes mm a n = map (\<lambda>i. ram_byte mm (a + of_nat i)) [0..<n]"

lemma ram_bytes_split: "k \<le> n \<Longrightarrow> ram_bytes mm a n = ram_bytes mm a k @ ram_bytes mm (a + of_nat k) (n - k)"
proof -
  assume "k \<le> n"
  then have e: "[0..<n] = [0..<k] @ map (\<lambda>i. k + i) [0..<n - k]"
    using upt_add_eq_append [of 0 k "n - k"] map_add_upt [of k "n - k"] by (simp add: add.commute)
  show ?thesis by (simp add: ram_bytes_def e add.assoc)
qed

text \<open>A copy from guest memory that succeeds gives the bytes, and it succeeds when there is RAM.\<close>

lemma memcpy_from_bytes:
  assumes wf: "map_wf (mem_map s)" and wp: "whole_pages (mem_map s)"
  shows "virtio_memcpy_from_ram s a n = Some (bs, True) \<longleftrightarrow> ram_bytes (mem_map s) a n = map Some bs"
proof (induction n arbitrary: a bs rule: less_induct)
  case (less n)
  show ?case
  proof (cases "n = 0")
    case True
    then show ?thesis by (auto simp: virtio_memcpy_from_ram.simps ram_bytes_def)
  next
    case False
    let ?l = "page_part a n"
    have l: "0 < ?l" "?l \<le> n" using page_part_bounds False by auto
    have fit: "unat a mod 4096 + ?l \<le> 4096" by (rule page_part_fits)
    show ?thesis
    proof (cases "ram_at (mem_map s) a")
      case None
      then have "ram_byte (mem_map s) (a + of_nat 0) = None" by (simp add: ram_byte_def)
      moreover have "\<exists>n'. n = Suc n'" using False by (cases n) simp_all
      ultimately have "ram_bytes (mem_map s) a n \<noteq> map Some bs"
        by (cases bs) (auto simp: ram_bytes_def upt_conv_Cons simp del: upt_Suc)
      moreover have "virtio_memcpy_from_ram s a n = Some ([], False)"
        using False None by (subst virtio_memcpy_from_ram.simps) (simp add: get_ram_ptr_at Let_def)
      ultimately show ?thesis by simp
    next
      case (Some r)
      let ?off = "unat (ucast a - pr_addr (mem_map s ! r))"
      have ok: "host_ok (mem_map s) (r, int ?off) ?l"
      proof -
        obtain p s' where p: "virtio_get_ram_ptr s a False = Some (p, s')" and
          ok: "\<And>ptr n. p = Some ptr \<Longrightarrow> unat a mod 4096 + n \<le> 4096 \<Longrightarrow> host_ok (mem_map s') ptr n"
          using get_ram_ptrE [OF wf] by metis
        have "p = Some (r, int ?off)" "s' = s" using p Some by (auto simp: get_ram_ptr_at)
        then show ?thesis using ok fit by simp
      qed
      let ?b = "read_bytes (pr_phys_mem (mem_map s ! r)) ?off ?l"
      have e: "ram_bytes (mem_map s) a ?l = map Some ?b"
        using ram_byte_page [OF wp wf Some] fit by (simp add: ram_bytes_def read_bytes_def)
      have m: "virtio_memcpy_from_ram s a n =
          do { (r', k) \<leftarrow> virtio_memcpy_from_ram s (a + of_nat ?l) (n - ?l); Some (?b @ r', k) }"
        using False Some ok
        by (subst virtio_memcpy_from_ram.simps) (simp add: get_ram_ptr_at Let_def host_read_bytes_def)
      have "virtio_memcpy_from_ram s a n = Some (bs, True) \<longleftrightarrow>
          (\<exists>r'. virtio_memcpy_from_ram s (a + of_nat ?l) (n - ?l) = Some (r', True) \<and> bs = ?b @ r')"
        unfolding m by (auto simp: bind_Some_conv)
      also have "\<dots> \<longleftrightarrow> (\<exists>r'. ram_bytes (mem_map s) (a + of_nat ?l) (n - ?l) = map Some r' \<and> bs = ?b @ r')"
        using less.IH [of "n - ?l"] l by simp
      also have "\<dots> \<longleftrightarrow> ram_bytes (mem_map s) a n = map Some bs"
        unfolding ram_bytes_split [OF l(2)] e
        by (auto simp: append_eq_map_conv map_eq_append_conv inj_map_eq_map)
      finally show ?thesis .
    qed
  qed
qed

lemma memcpy_from_part:
  assumes wf: "map_wf (mem_map s)" and wp: "whole_pages (mem_map s)"
    and r: "virtio_memcpy_from_ram s a n = Some (bs, True)" and k: "k + m \<le> n"
  shows "virtio_memcpy_from_ram s (a + of_nat k) m = Some (take m (drop k bs), True)"
proof -
  have b: "ram_bytes (mem_map s) a n = map Some bs" using r memcpy_from_bytes [OF wf wp] by blast
  have "ram_bytes (mem_map s) a n = ram_bytes (mem_map s) a k @
      (ram_bytes (mem_map s) (a + of_nat k) m @ ram_bytes (mem_map s) (a + of_nat k + of_nat m) (n - k - m))"
    using k by (simp add: ram_bytes_split [of k n] ram_bytes_split [of m "n - k"])
  then have "take m (drop k (map Some bs)) = ram_bytes (mem_map s) (a + of_nat k) m"
    unfolding b by (simp add: ram_bytes_def)
  then show ?thesis unfolding memcpy_from_bytes [OF wf wp] by (simp add: take_map drop_map)
qed


text \<open>A 16-bit read is a copy of two bytes.\<close>

lemma read16_memcpy:
  assumes wf: "map_wf (mem_map s)" and m: "virtio_memcpy_from_ram s a 2 = Some (bs, True)" and a: "a AND 1 = 0"
  shows "virtio_read16 s a = Some (of_nat (le_val bs))"
proof -
  have "unat a mod 4096 + 2 \<le> 4096" using aligned_fits [of a 1] a by (simp add: mask_eq_exp_minus_1)
  moreover have "unat (a AND 0xfff) = unat a mod 4096" unfolding low12 word_and_mask_mod by simp
  ultimately have l: "page_part a 2 = 2" by (simp add: page_part_def VIRTIO_PAGE_SIZE_def)
  have z: "virtio_memcpy_from_ram s b 0 = Some ([], True)" for b by (simp add: virtio_memcpy_from_ram.simps)
  obtain p s' where p: "virtio_get_ram_ptr s a False = Some (p, s')" using get_ram_ptrE [OF wf] by metis
  have "s' = s" using p by (rule get_ram_ptr_read)
  then show ?thesis using m p a
    by (subst (asm) virtio_memcpy_from_ram.simps)
      (auto simp: l z Let_def virtio_read16_def host_read_bytes_def host_read_def split: option.splits if_splits)
qed

section \<open>Chains of descriptors\<close>

text \<open>
  \<open>read_chain s q d c\<close>: the chain of queue \<open>q\<close> that starts with descriptor \<open>d\<close> is for reading only, its buffers
  are in RAM and hold the bytes \<open>c\<close>.
\<close>

inductive read_chain :: "'a virtio_scheme \<Rightarrow> nat \<Rightarrow> vdesc \<Rightarrow> u8 list \<Rightarrow> bool" for s q where
  chain_last: "\<not> d_write d \<Longrightarrow> unat (d_len d) < 2 ^ 31 \<Longrightarrow>
     virtio_memcpy_from_ram s (ucast (d_addr d)) (unat (d_len d)) = Some (bs, True) \<Longrightarrow>
     \<not> d_has_next d \<Longrightarrow> read_chain s q d bs"
| chain_next: "\<not> d_write d \<Longrightarrow> unat (d_len d) < 2 ^ 31 \<Longrightarrow>
     virtio_memcpy_from_ram s (ucast (d_addr d)) (unat (d_len d)) = Some (bs, True) \<Longrightarrow>
     d_has_next d \<Longrightarrow> get_desc s (Some d) q (d_next d) = Some e \<Longrightarrow> read_chain s q e c \<Longrightarrow>
     read_chain s q d (bs @ c)"

lemma chain_head: "read_chain s q d c \<Longrightarrow> \<not> d_write d"
  by (erule read_chain.cases) simp_all

lemma seg_length:
  assumes "map_wf (mem_map s)" and "virtio_memcpy_from_ram s a n = Some (bs, True)"
  shows "length bs = n"
  using memcpy_from_total [OF assms(1), of a n] assms(2) by auto

text \<open>The size of the chain, as the code adds it up.\<close>

lemma chain_size:
  assumes "map_wf (mem_map s)" and "read_chain s q d c"
  shows "rw_read_loop s q d n = Some (Inr (n + of_nat (length c)))"
  using assms(2)
proof (induction arbitrary: n)
  case (chain_last d bs)
  then show ?case using seg_length [OF assms(1) chain_last(3)] by (subst rw_read_loop.simps) (simp add: Let_def)
next
  case (chain_next d bs e c)
  then show ?case using seg_length [OF assms(1) chain_next(3)] by (subst rw_read_loop.simps) (simp add: Let_def add.assoc)
qed

text \<open>One copy out of a descriptor: at most \<open>n\<close> bytes from \<open>off\<close> on.\<close>

lemma sint_diff_len:
  assumes "off \<le> unat (len :: u32)" and "unat len < 2 ^ 31"
  shows "sint (len - of_nat off) = int (unat len - off)"
proof -
  have le: "of_nat off \<le> len" using assms(1) by (simp add: word_le_nat_alt unat_of_nat le_less_trans [OF mod_less_eq_dividend])
  have u: "unat (len - of_nat off) = unat len - off"
    using assms le by (simp add: unat_sub unat_of_nat)
  have e: "uint (len - of_nat off) = int (unat len - off)" using u by (simp add: uint_nat)
  have "sint (len - of_nat off) = signed_take_bit 31 (int (unat len - off))"
    unfolding sint_uint e by simp
  also have "\<dots> = int (unat len - off)"
  proof -
    have "signed_take_bit 31 (int k) = int k" if "k < 2 ^ 31" for k :: nat
      using that by (intro signed_take_bit_int_eq_self) simp_all
    then show ?thesis using assms(2) by (meson diff_le_self le_less_trans)
  qed
  finally show ?thesis .
qed

lemma copy_part_from:
  assumes wf: "map_wf (mem_map s)" and wp: "whole_pages (mem_map s)"
    and seg: "virtio_memcpy_from_ram s (ucast (d_addr d)) n = Some (bs, True)"
    and "off + l \<le> n" and "pos + l \<le> length buf"
  shows "copy_part s buf d False (of_nat off) (int pos) (int l) =
    Some (take pos buf @ take l (drop off bs) @ drop (pos + l) buf, s)"
proof -
  have m: "virtio_memcpy_from_ram s (ucast (d_addr d) + of_nat off) l = Some (take l (drop off bs), True)"
    using memcpy_from_part [OF wf wp seg assms(4)] .
  have len: "length (take l (drop off bs)) = l" using seg_length [OF wf m] .
  show ?thesis
  proof (cases "l = 0")
    case True
    then show ?thesis using m by (simp add: copy_part_def buf_store_def)
  next
    case False
    then have "take l (drop off bs) \<noteq> []" using len by auto
    then show ?thesis using m len assms(5) by (simp add: copy_part_def buf_store_def)
  qed
qed


text \<open>The third loop of the copy reads along the chain.\<close>

lemma copy_loop_chain:
  assumes wf: "map_wf (mem_map s)" and wp: "whole_pages (mem_map s)" and rc: "read_chain s q d c"
  shows "off < unat (d_len d) \<or> off = 0 \<Longrightarrow> 0 < n \<Longrightarrow> off + n \<le> length c \<Longrightarrow> pos + n \<le> length buf \<Longrightarrow>
    n < 2 ^ 31 \<Longrightarrow>
    copy_loop s q False buf d (of_nat off) (int n) (int pos) =
      Some (0, take pos buf @ take n (drop off c) @ drop (pos + n) buf, s)"
  using rc
proof (induction arbitrary: off n pos buf)
  case (chain_last d bs)
  have len: "length bs = unat (d_len d)" using seg_length [OF wf chain_last(3)] .
  have off: "off \<le> unat (d_len d)" using chain_last(5) by auto
  have "int n \<le> int (unat (d_len d) - off)" using chain_last(7) len by linarith
  then have l: "min (int n) (sint (d_len d - of_nat off)) = int n"
    unfolding sint_diff_len [OF off chain_last(2)] by (rule min_absorb1)
  have p: "copy_part s buf d False (of_nat off) (int pos) (int n) =
      Some (take pos buf @ take n (drop off bs) @ drop (pos + n) buf, s)"
    by (rule copy_part_from [OF wf wp chain_last(3)]) (use chain_last len in auto)
  show ?case by (subst copy_loop.simps) (simp add: l p int32_range_def)
next
  case (chain_next d bs e c)
  have len: "length bs = unat (d_len d)" using seg_length [OF wf chain_next(3)] .
  have off: "off \<le> unat (d_len d)" using chain_next(8) by auto
  note sd = sint_diff_len [OF off chain_next(2)]
  show ?case
  proof (cases "off + n \<le> unat (d_len d)")
    case True
    then have "int n \<le> int (unat (d_len d) - off)" by linarith
    then have l: "min (int n) (sint (d_len d - of_nat off)) = int n" unfolding sd by (rule min_absorb1)
    have p: "copy_part s buf d False (of_nat off) (int pos) (int n) =
        Some (take pos buf @ take n (drop off bs) @ drop (pos + n) buf, s)"
      by (rule copy_part_from [OF wf wp chain_next(3)]) (use chain_next True in auto)
    have "take n (drop off (bs @ c)) = take n (drop off bs)" using True len by simp
    then show ?thesis by (subst copy_loop.simps) (simp add: l p int32_range_def)
  next
    case False
    let ?l = "unat (d_len d) - off"
    have l: "min (int n) (sint (d_len d - of_nat off)) = int ?l" using sd False by simp
    let ?buf = "take pos buf @ drop off bs @ drop (pos + ?l) buf"
    have "copy_part s buf d False (of_nat off) (int pos) (int ?l) =
        Some (take pos buf @ take ?l (drop off bs) @ drop (pos + ?l) buf, s)"
      by (rule copy_part_from [OF wf wp chain_next(3)]) (use chain_next False off in auto)
    then have p: "copy_part s buf d False (of_nat off) (int pos) (int ?l) = Some (?buf, s)" using len by simp
    have lt: "?l < n" using False off by simp
    have r: "int32_range (int n - int ?l)" "int n - int ?l \<noteq> 0" "int n - int ?l = int (n - ?l)"
      "int pos + int ?l = int (pos + ?l)"
      using lt chain_next(12) by (simp_all add: int32_range_def)
    have o: "of_nat off + word_of_int (int ?l) = d_len d"
    proof -
      have "of_nat off + word_of_int (int ?l) = (of_nat (off + ?l) :: u32)" by simp
      then show ?thesis using off by simp
    qed
    have e: "\<not> d_write e" using chain_next(6) chain_head by blast
    have ih: "copy_loop s q False ?buf e (of_nat 0) (int (n - ?l)) (int (pos + ?l)) =
        Some (0, take (pos + ?l) ?buf @ take (n - ?l) (drop 0 c) @ drop (pos + ?l + (n - ?l)) ?buf, s)"
      by (rule chain_next.IH) (use chain_next lt len off in auto)
    have res: "take (pos + ?l) ?buf @ take (n - ?l) (drop 0 c) @ drop (pos + ?l + (n - ?l)) ?buf =
        take pos buf @ take n (drop off (bs @ c)) @ drop (pos + n) buf"
      using lt len off chain_next(11)
      by (cases "unat (d_len d) = off") (auto simp: min_def add.commute)
    define L where "L = ?l"
    note fold = L_def [symmetric]
    have o': "of_nat off + of_nat L = d_len d" using o [unfolded fold] by simp
    have step: "copy_loop s q False buf d (of_nat off) (int n) (int pos) =
        copy_loop s q False ?buf e 0 (int n - int L) (int pos + int L)"
      by (subst copy_loop.simps)
        (simp add: l [unfolded fold] p [unfolded fold] r(1,2) [unfolded fold, simplified] o' e chain_next(4,5)
          Let_def fold del: of_nat_diff)
    show ?thesis
      unfolding step using ih res unfolding r(3,4) [unfolded fold] fold by simp
  qed
qed


text \<open>The second loop finds the descriptor of an offset inside the chain.\<close>

lemma find_offset_chain:
  assumes wf: "map_wf (mem_map s)" and rc: "read_chain s q d c"
  shows "off < length c \<Longrightarrow> off < 2 ^ 32 \<Longrightarrow>
    \<exists>d' off' c'. find_offset s q False d (of_nat off) = Some (Some (d', of_nat off')) \<and> off' < unat (d_len d') \<and>
      read_chain s q d' c' \<and> drop off c = drop off' c'"
  using rc
proof (induction arbitrary: off)
  case (chain_last d bs)
  have len: "length bs = unat (d_len d)" using seg_length [OF wf chain_last(3)] .
  have lt: "(of_nat off :: u32) < d_len d" using chain_last(5,6) len by (simp add: word_less_nat_alt unat_of_nat)
  have "find_offset s q False d (of_nat off) = Some (Some (d, of_nat off))"
    using lt chain_last(1) by (subst find_offset.simps) simp
  moreover have "read_chain s q d bs" using chain_last(1-4) by (rule read_chain.chain_last)
  ultimately show ?case using chain_last(5) len by auto
next
  case (chain_next d bs e c)
  have len: "length bs = unat (d_len d)" using seg_length [OF wf chain_next(3)] .
  show ?case
  proof (cases "off < unat (d_len d)")
    case True
    then have "(of_nat off :: u32) < d_len d" using chain_next(9) by (simp add: word_less_nat_alt unat_of_nat)
    then have "find_offset s q False d (of_nat off) = Some (Some (d, of_nat off))"
      using chain_next(1) by (subst find_offset.simps) simp
    moreover have "read_chain s q d (bs @ c)" using chain_next(1-6) by (rule read_chain.chain_next)
    ultimately show ?thesis using True by blast
  next
    case False
    let ?o = "off - unat (d_len d)"
    have "\<not> (of_nat off :: u32) < d_len d" using False chain_next(9) by (simp add: word_less_nat_alt unat_of_nat)
    moreover have "of_nat off - d_len d = of_nat ?o" using False by simp
    ultimately have "find_offset s q False d (of_nat off) = find_offset s q False e (of_nat ?o)"
      using chain_next(1,4,5) by (subst find_offset.simps) simp
    moreover have "\<exists>d' off' c'. find_offset s q False e (of_nat ?o) = Some (Some (d', of_nat off')) \<and>
        off' < unat (d_len d') \<and> read_chain s q d' c' \<and> drop ?o c = drop off' c'"
      by (rule chain_next.IH) (use chain_next(8,9) False len in auto)
    moreover have "drop off (bs @ c) = drop ?o c" using False len by simp
    ultimately show ?thesis by metis
  qed
qed

text \<open>A copy out of a chain gives the bytes of the chain at the offset.\<close>

lemma memcpy_from_chain:
  assumes wf: "map_wf (mem_map s)" and wp: "whole_pages (mem_map s)" and d: "get_desc s None q i = Some d"
    and rc: "read_chain s q d c" and n: "off + n \<le> length c" "n < 2 ^ 31" "off < 2 ^ 32" and buf: "n \<le> length buf"
  shows "memcpy_from_queue s buf q i (of_nat off) (int n) = Some (0, take n (drop off c) @ drop n buf)"
proof (cases "n = 0")
  case True
  then show ?thesis by (simp add: memcpy_from_queue_def memcpy_to_from_queue_def)
next
  case False
  then have o: "off < length c" using n(1) by simp
  obtain d' off' c' where f: "find_offset s q False d (of_nat off) = Some (Some (d', of_nat off'))"
    "off' < unat (d_len d')" "read_chain s q d' c'" "drop off c = drop off' c'"
    using find_offset_chain [OF wf rc o n(3)] by blast
  have "length (drop off c) = length (drop off' c')" using f(4) by simp
  then have l: "off' + n \<le> length c'" using n(1) False by simp
  have "copy_loop s q False buf d' (of_nat off') (int n) (int 0) =
      Some (0, take 0 buf @ take n (drop off' c') @ drop (0 + n) buf, s)"
    by (rule copy_loop_chain [OF wf wp f(3)]) (use f(2) False l n(2) buf in auto)
  then show ?thesis using False d f by (simp add: memcpy_from_queue_def memcpy_to_from_queue_def)
qed

section \<open>What a device gets\<close>

text \<open>The sizes the code computes for the chain.\<close>

lemma chain_rw_size:
  assumes "map_wf (mem_map s)" and "get_desc s None q i = Some d" and "read_chain s q d c" and "length c < 2 ^ 31"
  shows "get_desc_rw_size s q i = Some (Some (int (length c), 0))"
proof -
  have "sint (of_nat (length c) :: u32) = int (length c)"
  proof -
    have "signed_take_bit 31 (int k) = int k" if "k < 2 ^ 31" for k :: nat
      using that by (intro signed_take_bit_int_eq_self) simp_all
    moreover have "take_bit 32 (length c) = length c" using assms(4) by (intro take_bit_nat_eq_self) simp
    ultimately show ?thesis using assms(4) by (simp add: sint_uint unsigned_of_nat)
  qed
  then show ?thesis using assms(2) chain_size [OF assms(1,3), of 0] by (simp add: get_desc_rw_size_def)
qed


text \<open>
  C31. For a chain of read-only descriptors whose buffers are in RAM (the descriptors of any number and size, across pages),
  \<open>get_desc_rw_size\<close> returns the number of bytes of the chain, and \<open>memcpy_from_queue\<close> copies exactly the
  bytes of the chain at the offset asked for into the caller's buffer, leaving the rest of it alone.
\<close>
theorem virtio_chain_read:
  assumes "map_wf (mem_map s)" and "whole_pages (mem_map s)"
    and "get_desc s None q i = Some d" and "read_chain s q d c" and "length c < 2 ^ 31"
    and "off + n \<le> length c" and "n \<le> length buf"
  shows "get_desc_rw_size s q i = Some (Some (int (length c), 0)) \<and>
    memcpy_from_queue s buf q i (of_nat off) (int n) = Some (0, take n (drop off c) @ drop n buf)"
  using chain_rw_size [OF assms(1,3,4,5)] memcpy_from_chain [OF assms(1-4,6) _ _ assms(7)] assms(5,6) by simp


section \<open>A chain that never ends\<close>

lemma cyclic_chain:
  assumes "\<not> d_write d" and "d_has_next d" and "get_desc s (Some d) q (d_next d) = Some d"
  shows "rw_read_loop s q d n = None"
proof -
  have "s' = s \<longrightarrow> q' = q \<longrightarrow> e \<noteq> d" if "rw_read_loop s' q' e n = Some r" for s' q' e n r
    using _ that
  proof (rule rw_read_loop.raw_induct, goal_cases)
    case (1 f s' q' e n r)
    show ?case
    proof (intro impI notI)
      assume "s' = s" "q' = q" "e = d"
      then show False using 1(1) [of s q d "n + d_len d" r] 1(2) assms by (simp add: Let_def)
    qed
  qed
  from this [of s q d n] show ?thesis by (cases "rw_read_loop s q d n") simp_all
qed

text \<open>
  C34. A guest can make a device run forever: if the next available descriptor of a queue names itself as its
  successor, the notification of the queue does not return, whatever the device is.
\<close>
theorem cyclic_chain_hangs:
  assumes "get_queue s q = Some qs" and "\<not> manual_recv qs" and "virtio_read16 s (avail_addr qs + 2) = Some idx"
    and "idx \<noteq> last_avail_idx qs" and "avail_desc s qs = Some i" and "get_desc s None q i = Some d"
    and "\<not> d_write d" and "d_has_next d" and "get_desc s (Some d) q (d_next d) = Some d"
  shows "queue_notify recv q s = None"
proof -
  have "get_desc_rw_size s q i = None" using assms(6) cyclic_chain [OF assms(7-9)] by (simp add: get_desc_rw_size_def)
  then have "notify_loop recv q idx s = None" using assms(1,4,5) by (subst notify_loop.simps) simp
  then show ?thesis using assms(1-3) by (simp add: queue_notify_def)
qed

section \<open>Block requests\<close>


section \<open>A concrete queue\<close>

text \<open>
  A page of RAM at address 0: descriptor 0 names itself, descriptors 1 and 2 are the chain of the
  buffers at 96 (3 bytes) and 112 (2 bytes), the available ring is at 48, the used ring at 64;
  descriptor 5 names the 16 zero bytes at 64.
\<close>

definition sample_image :: "u8 list" where
  "sample_image =
     [0,0,0,0,0,0,0,0, 4,0,0,0, 1,0, 0,0,
      96,0,0,0,0,0,0,0, 3,0,0,0, 1,0, 2,0,
      112,0,0,0,0,0,0,0, 2,0,0,0, 0,0, 0,0,
      0,0, 1,0, 0,0, 0,0,0,0,0,0,0,0,0,0,
      0,0,0,0,0,0,0,0,0,0,0,0,0,0,0,0,
      64,0,0,0,0,0,0,0, 16,0,0,0, 0,0, 0,0,
      97,98,99,0,0,0,0,0,0,0,0,0,0,0,0,0,
      100,101]"

definition sample_ram :: mem_map_t where
  "sample_ram = [\<lparr>pr_addr = 0, pr_org_size = 4096, pr_size = 4096, pr_is_ram = True, pr_devram_flags = 0,
     pr_phys_mem = (\<lambda>i. if i < length sample_image then sample_image ! i else 0), pr_dirty_bits_size = 0,
     pr_dirty_bits = None, pr_dirty_bits_tab = [], pr_dirty_bits_index = 0, pr_dev = 0, pr_devio_flags = 0\<rparr>]"

definition sample_console :: "u8 list vconsole" where
  "sample_console = \<lparr>mem_map = sample_ram, irq = False, int_status = 0, status = 0, device_features_sel = 0,
     queue_sel = 0, queue = replicate 8 \<lparr>q_ready = 1, q_num = 16, last_avail_idx = 0, desc_addr = 0, avail_addr = 48,
       used_addr = 64, manual_recv = False\<rparr>, device_id = 3, vendor_id = 0xffff,
     device_features = 1, config_space_size = 4, config_space = replicate 256 0, char_host = []\<rparr>"

lemma sample_wf: "map_wf sample_ram"
  by (simp add: sample_ram_def map_wf_def range_wf_def dirty_wf_def)

lemma sample_at: "ram_at sample_ram a = (if unat a < 4096 then Some 0 else None)"
proof -
  have "(ucast a < (4096 :: u64)) = (unat a < 4096)" by (simp add: word_less_nat_alt unat_wide)
  then show ?thesis by (simp add: ram_at_def get_phys_mem_range_def sample_ram_def in_range_def)
qed

lemma sample_pages: "whole_pages sample_ram"
proof -
  have "unat a < 4096 \<longleftrightarrow> unat a div 4096 = 0" for a :: u32 by auto
  then show ?thesis by (simp add: whole_pages_def sample_at)
qed

lemma sample_byte:
  "unat a < length sample_image \<Longrightarrow> ram_byte sample_ram a = Some (sample_image ! unat a)"
proof -
  assume a: "unat a < length sample_image"
  then have "unat a < 4096" by (simp add: sample_image_def)
  then show ?thesis using a by (simp add: ram_byte_def sample_at) (simp add: sample_ram_def unat_wide)
qed

lemma sample_read:
  assumes "unat a + n \<le> length sample_image" and m: "mem_map s = sample_ram"
  shows "virtio_memcpy_from_ram s a n = Some (take n (drop (unat a) sample_image), True)"
proof -
  have "length sample_image = 114" by (simp add: sample_image_def)
  then have "unat (a + of_nat i) = unat a + i" if "i < n" for i
    using assms(1) that by (intro unat_add_small) simp
  then have "ram_bytes sample_ram a n = map (\<lambda>i. Some (sample_image ! (unat a + i))) [0..<n]"
    using assms(1) by (auto simp: ram_bytes_def sample_byte)
  also have "\<dots> = map Some (take n (drop (unat a) sample_image))"
    using assms(1) by (auto intro!: nth_equalityI)
  finally show ?thesis
    using memcpy_from_bytes [of s a n] sample_wf sample_pages by (simp add: m)
qed


definition desc_cyclic :: vdesc where "desc_cyclic = take 16 sample_image"
definition desc_first :: vdesc where "desc_first = take 16 (drop 16 sample_image)"
definition desc_second :: vdesc where "desc_second = take 16 (drop 32 sample_image)"

lemmas desc_simps = desc_cyclic_def desc_first_def desc_second_def sample_image_def d_write_def d_has_next_def
  d_flags_def d_len_def d_addr_def d_next_def VRING_DESC_F_WRITE_def VRING_DESC_F_NEXT_def

lemma sample_descs:
  "\<not> d_write desc_cyclic" "d_has_next desc_cyclic" "d_next desc_cyclic = 0"
  "\<not> d_write desc_first" "d_has_next desc_first" "d_next desc_first = 2" "d_len desc_first = 3" "d_addr desc_first = 96"
  "\<not> d_write desc_second" "\<not> d_has_next desc_second" "d_len desc_second = 2" "d_addr desc_second = 112"
  by (simp_all add: desc_simps)

lemma sample_mem: "mem_map sample_console = sample_ram"
  by (simp add: sample_console_def)

lemma sample_desc:
  "get_desc sample_console old 1 0 = Some desc_cyclic" "get_desc sample_console old 1 1 = Some desc_first"
  "get_desc sample_console old 1 2 = Some desc_second"
proof -
  have q: "get_queue sample_console 1 = Some (queue sample_console ! 1)" "desc_addr (queue sample_console ! 1) = 0"
    by (simp_all add: get_queue_def sample_console_def)
  have l: "length sample_image = 114" by (simp add: sample_image_def)
  have r: "virtio_memcpy_from_ram sample_console 0 16 = Some (desc_cyclic, True)"
    "virtio_memcpy_from_ram sample_console 16 16 = Some (desc_first, True)"
    "virtio_memcpy_from_ram sample_console 32 16 = Some (desc_second, True)"
    using sample_read [OF _ sample_mem, of 0 16] sample_read [OF _ sample_mem, of 16 16] sample_read [OF _ sample_mem, of 32 16]
    by (simp_all add: l desc_cyclic_def desc_first_def desc_second_def)
  show "get_desc sample_console old 1 0 = Some desc_cyclic" "get_desc sample_console old 1 1 = Some desc_first"
    "get_desc sample_console old 1 2 = Some desc_second" using q r by (simp_all add: get_desc_def)
qed

lemma sample_chain: "read_chain sample_console 1 desc_first [97, 98, 99, 100, 101]"
proof -
  have l: "length sample_image = 114" by (simp add: sample_image_def)
  have "virtio_memcpy_from_ram sample_console 96 3 = Some ([97, 98, 99], True)"
    "virtio_memcpy_from_ram sample_console 112 2 = Some ([100, 101], True)"
    using sample_read [OF _ sample_mem, of 96 3] sample_read [OF _ sample_mem, of 112 2] by (simp_all add: l) (simp_all add: sample_image_def)
  then have "read_chain sample_console 1 desc_second [100, 101]"
    "virtio_memcpy_from_ram sample_console (ucast (d_addr desc_first)) (unat (d_len desc_first)) = Some ([97, 98, 99], True)"
    using sample_descs by (auto intro!: chain_last)
  then have "read_chain sample_console 1 desc_first ([97, 98, 99] @ [100, 101])"
    using sample_descs sample_desc by (intro chain_next) auto
  then show ?thesis by simp
qed

lemma sample_fields:
  "length (queue sample_console) = 8" "char_host sample_console = []" "int_status sample_console = 0"
  "queue sample_console ! Suc 0 = \<lparr>q_ready = 1, q_num = 16, last_avail_idx = 0, desc_addr = 0, avail_addr = 48,
     used_addr = 64, manual_recv = False\<rparr>"
  by (simp_all add: sample_console_def)

theorem virtio_chain_read_witness:
  "get_desc_rw_size sample_console 1 1 = Some (Some (5, 0)) \<and>
   memcpy_from_queue sample_console [0, 0, 0, 0] 1 1 2 3 = Some (0, [99, 100, 101, 0])"
  using virtio_chain_read [of sample_console 1 1 desc_first "[97, 98, 99, 100, 101]" 2 3 "[0, 0, 0, 0]"]
    sample_wf sample_pages sample_desc sample_chain by (simp add: sample_mem)


theorem cyclic_chain_hangs_witness: "queue_notify (virtio_console_recv_request (\<lambda>n. replicate n 0) (\<lambda>b out. out @ b)) 1 sample_console = None"
proof (rule cyclic_chain_hangs [of _ _ "queue sample_console ! 1" 1 0 desc_cyclic])
  have l: "length sample_image = 114" by (simp add: sample_image_def)
  have "virtio_memcpy_from_ram sample_console 50 2 = Some ([1, 0], True)"
    "virtio_memcpy_from_ram sample_console 52 2 = Some ([0, 0], True)"
    using sample_read [OF _ sample_mem, of 50 2] sample_read [OF _ sample_mem, of 52 2] by (simp_all add: l) (simp_all add: sample_image_def)
  then have "virtio_read16 sample_console 50 = Some 1" "virtio_read16 sample_console 52 = Some 0"
    using read16_memcpy [of sample_console 50 "[1, 0]"] read16_memcpy [of sample_console 52 "[0, 0]"] sample_wf
    by (simp_all add: sample_mem)
  then show "virtio_read16 sample_console (avail_addr (queue sample_console ! 1) + 2) = Some 1"
    "avail_desc sample_console (queue sample_console ! 1) = Some 0"
    by (simp_all add: sample_fields avail_desc_def)
qed (simp_all add: sample_descs sample_desc [unfolded One_nat_def] sample_fields get_queue_def)


definition sample_block :: "unit vblock" where
  "sample_block = \<lparr>mem_map = sample_ram, irq = False, int_status = 0, status = 0, device_features_sel = 0,
     queue_sel = 0, queue = queue sample_console, device_id = 2, vendor_id = 0xffff, device_features = 0,
     config_space_size = 8, config_space = replicate 256 0, blk_host = (), req_in_progress = False, req_type = 0,
     req_buf = [], req_write_size = 0, req_queue_idx = 0, req_desc_idx = 0\<rparr>"


end
