(* ===== verification/Fs_Utils.thy ===== *)
theory Fs_Utils
  imports Emu_Prelude
begin

text \<open>
  The text helpers of \<open>fs_utils.c\<close> and the part of the C library they use. A C string is the list of its
  characters before the NUL, and a pointer into a string the list of the characters that are left; reading past
  the end gives NUL. \<open>long\<close> has 32 bits, as in the 32-bit build.
\<close>

section \<open>Characters\<close>

definition NUL :: char where "NUL = CHR 0x00"

definition code :: "char \<Rightarrow> nat" where "code c = of_char c"

definition peek :: "string \<Rightarrow> char" where "peek p = (case p of [] \<Rightarrow> NUL | c # _ \<Rightarrow> c)"

text \<open>A buffer read as a C string.\<close>

definition cstring :: "string \<Rightarrow> string" where "cstring s = takeWhile (\<lambda>c. c \<noteq> NUL) s"

definition isspace :: "char \<Rightarrow> bool" where "isspace c \<longleftrightarrow> code c = 32 \<or> 9 \<le> code c \<and> code c \<le> 13"
definition isdigit :: "char \<Rightarrow> bool" where "isdigit c \<longleftrightarrow> 48 \<le> code c \<and> code c \<le> 57"
definition isspace_nolf :: "char \<Rightarrow> bool" where "isspace_nolf c \<longleftrightarrow> c = CHR '' '' \<or> c = CHR 0x09"

text \<open>\<open>None\<close> is the result -1.\<close>

definition from_hex :: "char \<Rightarrow> nat option" where
  "from_hex c =
     (if 48 \<le> code c \<and> code c \<le> 57 then Some (code c - 48)
      else if 65 \<le> code c \<and> code c \<le> 70 then Some (code c - 65 + 10)
      else if 97 \<le> code c \<and> code c \<le> 102 then Some (code c - 97 + 10)
      else None)"

text \<open>The digits of \<open>printf\<close> with \<open>%x\<close>.\<close>

definition hexd :: "nat \<Rightarrow> char" where
  "hexd n = char_of (if n < 10 then 48 + n else 87 + n)"

fun hex_digits :: "nat \<Rightarrow> nat \<Rightarrow> string" where
  "hex_digits 0 v = []"
| "hex_digits (Suc n) v = hex_digits n (v div 16) @ [hexd (v mod 16)]"

text \<open>The digits of \<open>%d\<close> for a number that is not negative.\<close>

fun dec :: "nat \<Rightarrow> string" where
  "dec n = (if n < 10 then [] else dec (n div 10)) @ [char_of (48 + n mod 10)]"

declare dec.simps [simp del]

section \<open>Numbers\<close>

definition digit_of :: "char \<Rightarrow> nat option" where
  "digit_of c =
     (if 48 \<le> code c \<and> code c \<le> 57 then Some (code c - 48)
      else if 65 \<le> code c \<and> code c \<le> 90 then Some (code c - 55)
      else if 97 \<le> code c \<and> code c \<le> 122 then Some (code c - 87)
      else None)"

definition is_digit_in :: "nat \<Rightarrow> char \<Rightarrow> bool" where
  "is_digit_in b c \<longleftrightarrow> (case digit_of c of None \<Rightarrow> False | Some d \<Rightarrow> d < b)"

fun scan_digits :: "nat \<Rightarrow> nat \<Rightarrow> string \<Rightarrow> nat \<times> string" where
  "scan_digits b acc [] = (acc, [])"
| "scan_digits b acc (c # p) =
     (case digit_of c of
        None \<Rightarrow> (acc, c # p)
      | Some d \<Rightarrow> if d < b then scan_digits b (acc * b + d) p else (acc, c # p))"

text \<open>\<open>strtol\<close> and its relatives: sign, magnitude and end, or \<open>None\<close> when there is no number.\<close>

definition strto :: "nat \<Rightarrow> string \<Rightarrow> (bool \<times> nat \<times> string) option" where
  "strto base p =
     (let q = dropWhile isspace p;
          neg = (peek q = CHR ''-'');
          q = (if peek q = CHR ''-'' \<or> peek q = CHR ''+'' then tl q else q);
          hex = (base = 0 \<or> base = 16) \<and> peek q = CHR ''0'' \<and> (peek (tl q) = CHR ''x'' \<or> peek (tl q) = CHR ''X'') \<and>
            is_digit_in 16 (peek (tl (tl q)));
          b = (if hex then 16 else if base \<noteq> 0 then base else if peek q = CHR ''0'' then 8 else 10);
          q = (if hex then tl (tl q) else q)
      in if is_digit_in b (peek q) then (let (v, r) = scan_digits b 0 q in Some (neg, v, r)) else None)"

text \<open>Conversions to an unsigned type of \<open>w\<close> bits and to a signed 32-bit \<open>long\<close>.\<close>

definition strtou :: "nat \<Rightarrow> nat \<Rightarrow> string \<Rightarrow> int \<times> string" where
  "strtou w base p =
     (case strto base p of
        None \<Rightarrow> (0, p)
      | Some (neg, v, r) \<Rightarrow> (if 2 ^ w \<le> v then 2 ^ w - 1 else if neg then (- int v) mod 2 ^ w else int v, r))"

definition strtol :: "string \<Rightarrow> nat \<Rightarrow> int \<times> string" where
  "strtol p base =
     (case strto base p of
        None \<Rightarrow> (0, p)
      | Some (neg, v, r) \<Rightarrow> (if neg then max (- (2 ^ 31)) (- int v) else min (2 ^ 31 - 1) (int v), r))"

section \<open>The helpers\<close>

definition compose_path :: "string \<Rightarrow> string \<Rightarrow> string" where
  "compose_path path name =
     (if path = [] then name
      else path @ (if last path \<noteq> CHR ''/'' then ''/'' else '''') @ name)"

definition compose_url :: "string \<Rightarrow> string \<Rightarrow> string" where
  "compose_url base_url name = (if CHR '':'' \<in> set name then name else compose_path base_url name)"

definition skip_line :: "string \<Rightarrow> string" where
  "skip_line p = tl (dropWhile (\<lambda>c. c \<noteq> CHR 0x0A) p)"

text \<open>\<open>plain c\<close>: the character does not need quotes. \<open>char\<close> is signed, so the codes above 127 do.\<close>

definition plain :: "char \<Rightarrow> bool" where
  "plain c \<longleftrightarrow> 32 < code c \<and> code c \<le> 126"

definition quote_char :: "char \<Rightarrow> string" where
  "quote_char c =
     (if code c < 32 \<or> code c = 127 then [CHR 0x5C, CHR ''x'', hexd (code c div 16), hexd (code c mod 16)]
      else if c = CHR 0x5C \<or> c = CHR 0x22 then [CHR 0x5C, c]
      else [c])"

definition quoted_str :: "string \<Rightarrow> string" where
  "quoted_str str =
     (if str \<noteq> [] \<and> list_all plain str then str
      else CHR 0x22 # concat (map quote_char str) @ [CHR 0x22])"

text \<open>
  The quoted case of \<open>parse_fname\<close>: \<open>n\<close> characters fit before the NUL. \<open>None\<close> is the result -1.
\<close>

fun parse_quoted :: "nat \<Rightarrow> string \<Rightarrow> (string \<times> string) option" where
  "parse_quoted n [] = None"
| "parse_quoted n (c # p) =
     (if c = CHR 0x0A then None
      else if c = CHR 0x22 then Some ([], p)
      else if c = CHR 0x5C
      then (case p of
              [] \<Rightarrow> None
            | e # p1 \<Rightarrow>
                if e = CHR 0x27 \<or> e = CHR 0x22 \<or> e = CHR 0x5C
                then (if n = 0 then None else map_option (apfst ((#) e)) (parse_quoted (n - 1) p1))
                else if e = CHR ''n''
                then (if n = 0 then None else map_option (apfst ((#) (CHR 0x0A))) (parse_quoted (n - 1) p1))
                else if e = CHR ''r''
                then (if n = 0 then None else map_option (apfst ((#) (CHR 0x0D))) (parse_quoted (n - 1) p1))
                else if e = CHR ''t''
                then (if n = 0 then None else map_option (apfst ((#) (CHR 0x09))) (parse_quoted (n - 1) p1))
                else if e = CHR ''x''
                then (case p1 of
                        h0 # h1 # p2 \<Rightarrow>
                          (case (from_hex h0, from_hex h1) of
                             (Some a, Some b) \<Rightarrow>
                               if n = 0 then None
                               else map_option (apfst ((#) (char_of (16 * a + b)))) (parse_quoted (n - 1) p2)
                           | _ \<Rightarrow> None)
                      | _ \<Rightarrow> None)
                else None)
      else if n = 0 then None else map_option (apfst ((#) c)) (parse_quoted (n - 1) p))"

fun parse_word :: "nat \<Rightarrow> string \<Rightarrow> (string \<times> string) option" where
  "parse_word n [] = Some ([], [])"
| "parse_word n (c # p) =
     (if isspace_nolf c \<or> c = CHR 0x0A then Some ([], c # p)
      else if n = 0 then None else map_option (apfst ((#) c)) (parse_word (n - 1) p))"

definition parse_fname :: "nat \<Rightarrow> string \<Rightarrow> (string \<times> string) option" where
  "parse_fname buf_size pp =
     (let p = dropWhile isspace_nolf pp in
      case p of
        [] \<Rightarrow> None
      | c # q \<Rightarrow> map_option (apfst cstring)
                  (if c = CHR 0x22 then parse_quoted (buf_size - 1) q else parse_word (buf_size - 1) p))"

text \<open>The value and the new pointer; \<open>None\<close> is the result -1, which stores a 0 all the same.\<close>

definition parse_uint_base :: "nat \<Rightarrow> nat \<Rightarrow> string \<Rightarrow> (int \<times> string) option" where
  "parse_uint_base w base pp =
     (let p = dropWhile isspace_nolf pp; (v, p1) = strtou w base p in if p1 = p then None else Some (v, p1))"

definition parse_uint32 :: "string \<Rightarrow> (int \<times> string) option" where "parse_uint32 = parse_uint_base 32 0"
definition parse_uint64 :: "string \<Rightarrow> (int \<times> string) option" where "parse_uint64 = parse_uint_base 64 0"
definition parse_file_id :: "string \<Rightarrow> (int \<times> string) option" where "parse_file_id = parse_uint_base 64 16"

text \<open>The digits of the nanoseconds: each is worth a tenth of the one before.\<close>

fun scan_nsec :: "u32 \<Rightarrow> u32 \<Rightarrow> string \<Rightarrow> u32 \<times> string" where
  "scan_nsec m v [] = (v, [])"
| "scan_nsec m v (c # p) =
     (if isdigit c then let m = m div 10 in scan_nsec m (v + of_nat (code c - 48) * m) p else (v, c # p))"

definition parse_time :: "string \<Rightarrow> (int \<times> u32 \<times> string) option" where
  "parse_time pp =
     do { (sec, p) \<leftarrow> parse_uint32 pp;
          let (nsec, p) = (if peek p = CHR ''.'' then scan_nsec 1000000000 0 (tl p) else (0, p));
          Some (sec, nsec, p) }"

definition file_id_to_filename :: "u64 \<Rightarrow> string" where
  "file_id_to_filename file_id = hex_digits 16 (unat file_id)"

fun encode_hex :: "u8 list \<Rightarrow> string" where
  "encode_hex [] = []"
| "encode_hex (b # bs) = hex_digits 2 (unat b) @ encode_hex bs"

fun decode_hex :: "string \<Rightarrow> nat \<Rightarrow> u8 list option" where
  "decode_hex str 0 = Some []"
| "decode_hex str (Suc n) =
     do { h0 \<leftarrow> from_hex (peek str);
          h1 \<leftarrow> from_hex (peek (tl str));
          r \<leftarrow> decode_hex (tl (tl str)) n;
          Some (of_nat (16 * h0 + h1) # r) }"

fun skip_header :: "string \<Rightarrow> string option" where
  "skip_header (a # b # p) = (if a = CHR 0x0A \<and> b = CHR 0x0A then Some p else skip_header (b # p))"
| "skip_header _ = None"

text \<open>A line of the header is a tag name, a colon and a value. The name is cut to 127 characters.\<close>

definition tag_sep :: "char \<Rightarrow> bool" where "tag_sep c \<longleftrightarrow> c = CHR '':'' \<or> c = CHR 0x0A"

lemma length_dropWhile_tl:
  assumes "p \<noteq> []"
  shows "length (dropWhile P (dropWhile Q (tl (dropWhile R p)))) - Suc 0 < length p"
proof -
  have "length (dropWhile P (dropWhile Q (tl (dropWhile R p)))) \<le> length (dropWhile R p)"
    by (metis (no_types) dual_order.trans length_dropWhile_le length_tl diff_le_self)
  also have "\<dots> \<le> length p" by (rule length_dropWhile_le)
  finally show ?thesis using assms by (cases p) simp_all
qed

function parse_tag :: "nat \<Rightarrow> string \<Rightarrow> string \<Rightarrow> string option" where
  "parse_tag buf_size p tag =
     (if p = [] \<or> peek p = CHR 0x0A then None
      else let tagname = take 127 (takeWhile (\<lambda>c. \<not> tag_sep c) p);
               p = dropWhile (\<lambda>c. \<not> tag_sep c) p in
        if peek p \<noteq> CHR '':'' then None
        else let p1 = dropWhile isspace_nolf (tl p);
                 value = takeWhile (\<lambda>c. c \<noteq> CHR 0x0A) p1;
                 p = dropWhile (\<lambda>c. c \<noteq> CHR 0x0A) p1 in
          if tagname = tag then Some (take (buf_size - 1) value)
          else if p = [] then None
          else parse_tag buf_size (tl p) tag)"
  by pat_completeness auto

termination
  by (relation "measure (\<lambda>(n, p, t). length p)") (simp_all add: length_dropWhile_tl)

declare parse_tag.simps [simp del]

definition parse_tag_uint64 :: "string \<Rightarrow> string \<Rightarrow> int option" where
  "parse_tag_uint64 str tag = do { buf \<leftarrow> parse_tag 64 str tag; (v, _) \<leftarrow> parse_uint64 buf; Some v }"

definition parse_tag_file_id :: "string \<Rightarrow> string \<Rightarrow> int option" where
  "parse_tag_file_id str tag = do { buf \<leftarrow> parse_tag 64 str tag; (v, _) \<leftarrow> parse_file_id buf; Some v }"

text \<open>The version is an \<open>int\<close>.\<close>

definition parse_tag_version :: "string \<Rightarrow> int" where
  "parse_tag_version str =
     (case parse_tag_uint64 str ''Version'' of None \<Rightarrow> - 1 | Some v \<Rightarrow> sint (word_of_int v :: u32))"

definition prefixed :: "string \<Rightarrow> string \<Rightarrow> bool" where
  "prefixed path val \<longleftrightarrow> take (length val) path = val"

definition is_url :: "string \<Rightarrow> bool" where
  "is_url path \<longleftrightarrow> prefixed path ''http:'' \<or> prefixed path ''https:'' \<or> prefixed path ''file:''"

end
