(* ===== verification/Fs_Utils_Props.thy ===== *)
theory Fs_Utils_Props
  imports Fs_Utils
begin

text \<open>
  Round trips of the text formats of \<open>fs_utils.c\<close>: quoted file names, hexadecimal byte strings, file
  identifiers, and the lookup of a tag in a header.
\<close>

section \<open>Hexadecimal digits\<close>

lemma code_char_of: "n < 256 \<Longrightarrow> code (char_of n) = n"
  by (simp add: code_def)

lemma char_of_code: "char_of (code c) = c"
  by (simp add: code_def)

lemma code_less: "code c < 256"
  by (simp add: code_def)

lemma code_hexd: "n < 16 \<Longrightarrow> code (hexd n) = (if n < 10 then 48 + n else 87 + n)"
  by (simp add: hexd_def code_char_of)

lemma from_hex_hexd: "n < 16 \<Longrightarrow> from_hex (hexd n) = Some n"
  by (simp add: from_hex_def code_hexd)

lemma code_eq: "c = d \<longleftrightarrow> code c = code d"
  by (metis char_of_code)

text \<open>Comparisons with characters as comparisons of codes.\<close>

lemmas char_codes = code_eq [of _ "CHR 0x0A"] code_eq [of _ "CHR 0x22"] code_eq [of _ "CHR 0x5C"]
  code_eq [of _ "CHR 0x27"] code_eq [of _ NUL]

lemma code_lits [simp]:
  "code (CHR 0x0A) = 10" "code (CHR 0x22) = 34" "code (CHR 0x5C) = 92" "code (CHR 0x27) = 39" "code NUL = 0"
  "code (CHR 0x0D) = 13" "code (CHR 0x09) = 9" "code (CHR 0x20) = 32"
  by (simp_all add: code_def NUL_def)

section \<open>File names\<close>

lemma parse_quoted_char:
  assumes "c \<noteq> NUL" and "parse_quoted n (t @ r) = Some (s, r')"
  shows "parse_quoted (Suc n) (quote_char c @ t @ r) = Some (c # s, r')"
proof -
  have hex: "from_hex (hexd (code c div 16)) = Some (code c div 16)" "from_hex (hexd (code c mod 16)) = Some (code c mod 16)"
    using code_less [of c] by (simp_all add: from_hex_hexd less_mult_imp_div_less)
  have c: "char_of (16 * (code c div 16) + code c mod 16) = c" by (simp add: char_of_code)
  consider "code c < 32 \<or> code c = 127" | "\<not> (code c < 32 \<or> code c = 127)" "c = CHR 0x5C \<or> c = CHR 0x22"
    | "\<not> (code c < 32 \<or> code c = 127)" "c \<noteq> CHR 0x5C" "c \<noteq> CHR 0x22" by blast
  then show ?thesis
  proof cases
    case 1
    then show ?thesis using assms(2) hex c by (simp add: quote_char_def)
  next
    case 2
    then show ?thesis using assms(2) by (auto simp: quote_char_def)
  next
    case 3
    then have "c \<noteq> CHR 0x0A" using char_codes(1) [of c] by auto
    then show ?thesis using assms(2) 3 by (simp add: quote_char_def)
  qed
qed

lemma parse_quoted_quote:
  "NUL \<notin> set s \<Longrightarrow> length s \<le> n \<Longrightarrow> parse_quoted n (concat (map quote_char s) @ CHR 0x22 # r) = Some (s, r)"
proof (induction s arbitrary: n)
  case Nil
  then show ?case by simp
next
  case (Cons c s)
  then obtain m where m: "n = Suc m" "length s \<le> m" by (cases n) auto
  have "parse_quoted m (concat (map quote_char s) @ CHR 0x22 # r) = Some (s, r)" using Cons m by simp
  then have "parse_quoted m ((concat (map quote_char s) @ [CHR 0x22]) @ r) = Some (s, r)" by simp
  from parse_quoted_char [OF _ this, of c] show ?case using Cons.prems m(1) by auto
qed

lemma parse_word_plain:
  assumes "r = [] \<or> isspace_nolf (hd r) \<or> hd r = CHR 0x0A"
  shows "list_all plain s \<Longrightarrow> length s \<le> n \<Longrightarrow> parse_word n (s @ r) = Some (s, r)"
proof (induction s arbitrary: n)
  case Nil
  then show ?case using assms by (cases r) auto
next
  case (Cons c s)
  then obtain m where m: "n = Suc m" "length s \<le> m" by (cases n) auto
  have "\<not> isspace_nolf c" "c \<noteq> CHR 0x0A"
    using Cons.prems(1) by (auto simp: plain_def isspace_nolf_def)
  then show ?case using Cons m by simp
qed

lemma cstring_id: "NUL \<notin> set s \<Longrightarrow> cstring s = s"
  by (auto simp: cstring_def takeWhile_eq_all_conv)

lemma plain_no_space: "plain c \<Longrightarrow> \<not> isspace_nolf c"
  by (auto simp: plain_def isspace_nolf_def)

lemma length_quote_char: "length (quote_char c) \<le> 4"
  by (simp add: quote_char_def)

lemma length_quotes: "length (concat (map quote_char s)) \<le> 4 * length s"
proof (induction s)
  case (Cons c s)
  then show ?case using length_quote_char [of c] by simp
qed simp

text \<open>
  C38. A name written by \<open>quoted_str\<close> is read back by \<open>parse_fname\<close>, whatever characters it has, and what
  follows it is left, if the buffer holds it and if the name does not begin with a double quote while all its characters
  are printable; the output of \<open>quoted_str\<close> fits in the buffer it allocates.
\<close>
theorem fname_roundtrip:
  assumes "NUL \<notin> set s" and "length s < buf_size" and "\<not> (s \<noteq> [] \<and> list_all plain s \<and> hd s = CHR 0x22)"
    and "r = [] \<or> isspace_nolf (hd r) \<or> hd r = CHR 0x0A"
  shows "parse_fname buf_size (quoted_str s @ r) = Some (s, r) \<and> length (quoted_str s) + 1 \<le> 4 * length s + 3"
proof (cases "s \<noteq> [] \<and> list_all plain s")
  case True
  then obtain c t where s: "s = c # t" "plain c" by (cases s) auto
  have "parse_word (buf_size - 1) (s @ r) = Some (s, r)"
    using parse_word_plain [OF assms(4), of s "buf_size - 1"] True assms(2) by simp
  then show ?thesis using True s assms(1,3) plain_no_space [OF s(2)] cstring_id [OF assms(1)]
    by (simp add: parse_fname_def quoted_str_def)
next
  case False
  have "parse_quoted (buf_size - 1) (concat (map quote_char s) @ CHR 0x22 # r) = Some (s, r)"
    using assms(1,2) by (intro parse_quoted_quote) simp_all
  moreover have "\<not> isspace_nolf (CHR 0x22)" by (simp add: isspace_nolf_def)
  moreover have "quoted_str s = CHR 0x22 # concat (map quote_char s) @ [CHR 0x22]"
    using False by (auto simp: quoted_str_def)
  ultimately show ?thesis using cstring_id [OF assms(1)] length_quotes [of s] by (simp add: parse_fname_def)
qed

theorem fname_roundtrip_witness:
  "parse_fname 16 (quoted_str [CHR ''a'', CHR 0x22, CHR '' '', CHR 0x01] @ '' x'') = Some ([CHR ''a'', CHR 0x22, CHR '' '', CHR 0x01], '' x'')"
  using fname_roundtrip [of "[CHR ''a'', CHR 0x22, CHR '' '', CHR 0x01]" 16 "'' x''"]
  by (simp add: NUL_def isspace_nolf_def)

text \<open>
  A printable name that begins with a double quote is written without quotes and cannot be read back.
\<close>
theorem fname_quote_lost:
  "quoted_str [CHR 0x22, CHR ''a''] = [CHR 0x22, CHR ''a''] \<and> parse_fname n (quoted_str [CHR 0x22, CHR ''a'']) = None"
proof -
  have q: "quoted_str [CHR 0x22, CHR ''a''] = [CHR 0x22, CHR ''a'']"
    by (simp add: quoted_str_def plain_def code_def)
  show ?thesis unfolding q by (simp add: parse_fname_def isspace_nolf_def)
qed

section \<open>Bytes and identifiers\<close>

lemma decode_two: "n < 256 \<Longrightarrow> hex_digits 2 n = [hexd (n div 16), hexd (n mod 16)]"
  by (simp add: numeral_2_eq_2)

lemma decode_encode: "decode_hex (encode_hex bs @ r) (length bs) = Some bs"
proof (induction bs)
  case (Cons b bs)
  have b: "unat b < 256" using unsigned_less [of b, where ?'a = nat] by simp
  then have "from_hex (hexd (unat b div 16)) = Some (unat b div 16)" "from_hex (hexd (unat b mod 16)) = Some (unat b mod 16)"
    by (simp_all add: from_hex_hexd less_mult_imp_div_less)
  moreover have "(of_nat (16 * (unat b div 16) + unat b mod 16) :: u8) = b" by simp
  ultimately show ?case using Cons.IH decode_two [OF b] by (simp add: peek_def del: of_nat_add of_nat_mult)
qed simp

lemma digit_of_hexd: "n < 16 \<Longrightarrow> digit_of (hexd n) = Some n"
  by (simp add: digit_of_def code_hexd)

lemma hex_digits_Cons: "hex_digits (Suc n) v = hexd (v div 16 ^ n mod 16) # hex_digits n v"
proof (induction n arbitrary: v)
  case (Suc n)
  have "hex_digits (Suc (Suc n)) v = hex_digits (Suc n) (v div 16) @ [hexd (v mod 16)]" by simp
  also have "\<dots> = hexd (v div 16 div 16 ^ n mod 16) # hex_digits n (v div 16) @ [hexd (v mod 16)]"
    using Suc.IH by simp
  finally show ?case by (simp add: div_mult2_eq)
qed simp

lemma scan_hex_digits:
  assumes "\<not> is_digit_in 16 (peek r)"
  shows "scan_digits 16 acc (hex_digits n v @ r) = (acc * 16 ^ n + v mod 16 ^ n, r)"
proof (induction n arbitrary: acc)
  case 0
  then show ?case using assms by (cases r) (auto simp: is_digit_in_def peek_def split: option.splits)
next
  case (Suc n)
  have d: "digit_of (hexd (v div 16 ^ n mod 16)) = Some (v div 16 ^ n mod 16)" by (simp add: digit_of_hexd)
  have "scan_digits 16 acc (hex_digits (Suc n) v @ r) = scan_digits 16 (acc * 16 + v div 16 ^ n mod 16) (hex_digits n v @ r)"
    unfolding hex_digits_Cons using d by simp
  also have "\<dots> = ((acc * 16 + v div 16 ^ n mod 16) * 16 ^ n + v mod 16 ^ n, r)" by (rule Suc.IH)
  also have "(acc * 16 + v div 16 ^ n mod 16) * 16 ^ n + v mod 16 ^ n = acc * 16 ^ Suc n + v mod 16 ^ Suc n"
    using mod_mult2_eq [of v "16 ^ n" 16] by (simp add: algebra_simps)
  finally show ?case .
qed

lemma length_hex_digits: "length (hex_digits n v) = n"
  by (induction n arbitrary: v) simp_all

lemma hexd_kind:
  assumes "n < 16"
  shows "\<not> isspace (hexd n)" "\<not> isspace_nolf (hexd n)" "hexd n \<noteq> CHR ''-''" "hexd n \<noteq> CHR ''+''" "hexd n \<noteq> CHR ''x''"
    "hexd n \<noteq> CHR ''X''" "is_digit_in 16 (hexd n)"
proof -
  have c: "48 \<le> code (hexd n)" "code (hexd n) \<le> 102" using code_hexd [OF assms] assms by (auto split: if_splits)
  have "code (CHR ''-'') = 45" "code (CHR ''+'') = 43" "code (CHR ''x'') = 120" by (simp_all add: code_def)
  moreover have "code (hexd n) \<noteq> 88" using code_hexd [OF assms] assms by (auto split: if_splits)
  moreover have "code (CHR ''X'') = 88" by (simp add: code_def)
  ultimately show "\<not> isspace (hexd n)" "\<not> isspace_nolf (hexd n)" "hexd n \<noteq> CHR ''-''" "hexd n \<noteq> CHR ''+''"
    "hexd n \<noteq> CHR ''x''" "hexd n \<noteq> CHR ''X''" "is_digit_in 16 (hexd n)"
    using c assms by (auto simp: isspace_def isspace_nolf_def is_digit_in_def digit_of_hexd)
qed

text \<open>
  C39. Hexadecimal text: \<open>decode_hex\<close> inverts \<open>encode_hex\<close>, and \<open>parse_file_id\<close> reads the name \<open>file_id_to_filename\<close>
  makes of an identifier back.
\<close>
theorem hex_roundtrip:
  "decode_hex (encode_hex bs @ r) (length bs) = Some bs \<and>
   (\<not> is_digit_in 16 (peek r) \<longrightarrow>
      length (file_id_to_filename file_id) = 16 \<and>
      parse_file_id (file_id_to_filename file_id @ r) = Some (int (unat file_id), r))"
proof (intro conjI impI)
  show "decode_hex (encode_hex bs @ r) (length bs) = Some bs" by (rule decode_encode)
  show "length (file_id_to_filename file_id) = 16" by (simp add: file_id_to_filename_def length_hex_digits)
  assume r: "\<not> is_digit_in 16 (peek r)"
  let ?s = "file_id_to_filename file_id"
  show "parse_file_id (?s @ r) = Some (int (unat file_id), r)"
  proof -
    let ?v = "unat file_id"
    have u: "?v < 16 ^ 16" using unsigned_less [of file_id, where ?'a = nat] by simp
    let ?h = "hexd (?v div 16 ^ 15 mod 16)" and ?h' = "hexd (?v div 16 ^ 14 mod 16)"
    have e: "?s = ?h # ?h' # hex_digits 14 ?v"
      using hex_digits_Cons [of 15 ?v] hex_digits_Cons [of 14 ?v] by (simp add: file_id_to_filename_def)
    have k: "?v div 16 ^ 15 mod 16 < 16" "?v div 16 ^ 14 mod 16 < 16" by simp_all
    have scan: "scan_digits 16 0 (?s @ r) = (?v, r)"
      using scan_hex_digits [OF r, of 0 16 ?v] u by (simp add: file_id_to_filename_def)
    have d: "dropWhile isspace (?s @ r) = ?s @ r" "dropWhile isspace_nolf (?s @ r) = ?s @ r"
      using hexd_kind [OF k(1)] by (simp_all add: e)
    have p: "peek (?s @ r) = ?h" "peek (tl (?s @ r)) = ?h'" by (simp_all add: e peek_def)
    have "strto 16 (?s @ r) = Some (False, ?v, r)"
      unfolding strto_def d using hexd_kind [OF k(1)] hexd_kind [OF k(2)] scan by (simp add: p Let_def)
    moreover have "r \<noteq> ?s @ r" by (simp add: e)
    ultimately show ?thesis using u d by (simp add: parse_file_id_def parse_uint_base_def strtou_def)
  qed
qed

theorem hex_roundtrip_witness:
  "parse_file_id (file_id_to_filename 0x1234abcd @ '' name'') = Some (0x1234abcd, '' name'')"
  using hex_roundtrip [of "[]" "'' name''" "0x1234abcd"] by (simp add: is_digit_in_def digit_of_def peek_def code_def)


section \<open>Tags of a header\<close>

text \<open>A header: a line for each tag, and a blank line or the end.\<close>

definition header_lines :: "(string \<times> string) list \<Rightarrow> string" where
  "header_lines kvs = concat (map (\<lambda>(k, v). k @ '': '' @ v @ [CHR 0x0A]) kvs)"

definition tag_ok :: "string \<times> string \<Rightarrow> bool" where
  "tag_ok kv \<longleftrightarrow> (\<forall>c \<in> set (fst kv). \<not> tag_sep c) \<and> length (fst kv) \<le> 127 \<and> CHR 0x0A \<notin> set (snd kv) \<and>
     (snd kv \<noteq> [] \<longrightarrow> \<not> isspace_nolf (hd (snd kv)))"

lemma takeWhile_until:
  assumes "x \<notin> set v"
  shows "takeWhile (\<lambda>c. c \<noteq> x) (v @ x # p) = v" "dropWhile (\<lambda>c. c \<noteq> x) (v @ x # p) = x # p"
  using assms by (induction v) auto

lemma parse_tag_line:
  assumes "tag_ok (k, v)"
  shows "parse_tag n ((k @ '': '' @ v @ [CHR 0x0A]) @ p) tag = (if k = tag then Some (take (n - 1) v) else parse_tag n p tag)"
proof -
  let ?l = "(k @ '': '' @ v @ [CHR 0x0A]) @ p"
  have k: "\<forall>c \<in> set k. \<not> tag_sep c" "length k \<le> 127" and v: "CHR 0x0A \<notin> set v" "v \<noteq> [] \<longrightarrow> \<not> isspace_nolf (hd v)"
    using assms by (auto simp: tag_ok_def)
  have colon: "tag_sep (CHR '':'')" by (simp add: tag_sep_def)
  have t: "takeWhile (\<lambda>c. \<not> tag_sep c) ?l = k" and d: "dropWhile (\<lambda>c. \<not> tag_sep c) ?l = '': '' @ v @ [CHR 0x0A] @ p"
    using k(1) colon by (simp_all add: takeWhile_append2 dropWhile_append2 cong: takeWhile_cong dropWhile_cong)
  have ne: "?l \<noteq> []" "peek ?l \<noteq> CHR 0x0A"
  proof -
    show "?l \<noteq> []" by simp
    show "peek ?l \<noteq> CHR 0x0A" using k(1) by (cases k) (auto simp: peek_def tag_sep_def)
  qed
  have sp: "dropWhile isspace_nolf ('' '' @ v @ [CHR 0x0A] @ p) = v @ [CHR 0x0A] @ p"
    using v(2) by (cases v) (auto simp: isspace_nolf_def)
  have tv: "takeWhile (\<lambda>c. c \<noteq> CHR 0x0A) (v @ [CHR 0x0A] @ p) = v" "dropWhile (\<lambda>c. c \<noteq> CHR 0x0A) (v @ [CHR 0x0A] @ p) = CHR 0x0A # p"
    using takeWhile_until [OF v(1), of p] by simp_all
  show ?thesis
    using ne k(2) sp tv by (subst parse_tag.simps) (simp only: t d, simp add: peek_def)
qed

lemma parse_tag_end: "r = [] \<or> hd r = CHR 0x0A \<Longrightarrow> parse_tag n r tag = None"
  by (cases r) (auto simp: parse_tag.simps peek_def)

text \<open>
  C40. In a well-formed header \<open>parse_tag\<close> finds the value of the first line with the tag, cut to the buffer, and fails when
  there is none.
\<close>
theorem parse_tag_lookup:
  assumes "\<forall>kv \<in> set kvs. tag_ok kv" and "r = [] \<or> hd r = CHR 0x0A"
  shows "parse_tag n (header_lines kvs @ r) tag = map_option (take (n - 1)) (map_of kvs tag)"
  using assms(1)
proof (induction kvs)
  case Nil
  then show ?case using parse_tag_end [OF assms(2)] by (simp add: header_lines_def)
next
  case (Cons kv kvs)
  obtain k v where kv: "kv = (k, v)" by (cases kv)
  have "header_lines (kv # kvs) @ r = (k @ '': '' @ v @ [CHR 0x0A]) @ (header_lines kvs @ r)"
    by (simp add: header_lines_def kv)
  then show ?case using parse_tag_line [of k v n "header_lines kvs @ r" tag] Cons kv by simp
qed

theorem parse_tag_lookup_witness:
  "parse_tag 64 (header_lines [(''Version'', ''1''), (''RootID'', ''2a'')] @ [CHR 0x0A]) ''RootID'' = Some ''2a''"
  using parse_tag_lookup [of "[(''Version'', ''1''), (''RootID'', ''2a'')]" "[CHR 0x0A]" 64 "''RootID''"]
  by (simp add: tag_ok_def tag_sep_def isspace_nolf_def)

end
