(* ===== verification/Sha256.thy ===== *)
theory Sha256
  imports Cutils
begin

text \<open>
  The hash of \<open>sha256.c\<close>: the compression function in the unrolled form the build uses (without
  \<open>LTC_SMALL_CODE\<close>), and the streaming interface. \<open>unsigned long\<close> has 32 bits, as in the 32-bit build.
  The inputs are byte lists; their length is the argument \<open>inlen\<close>.
\<close>

section \<open>Logical functions\<close>

text \<open>The C constant masks keep their operands at 32 bits.\<close>

definition RORc :: "u32 \<Rightarrow> nat \<Rightarrow> u32" where
  "RORc x y = drop_bit (y mod 32) x OR push_bit (32 - y mod 32) x"

definition Ch :: "u32 \<Rightarrow> u32 \<Rightarrow> u32 \<Rightarrow> u32" where "Ch x y z = z XOR (x AND (y XOR z))"
definition Maj :: "u32 \<Rightarrow> u32 \<Rightarrow> u32 \<Rightarrow> u32" where "Maj x y z = (x OR y) AND z OR (x AND y)"
definition Sigma0 :: "u32 \<Rightarrow> u32" where "Sigma0 x = (RORc x 2 XOR RORc x 13) XOR RORc x 22"
definition Sigma1 :: "u32 \<Rightarrow> u32" where "Sigma1 x = (RORc x 6 XOR RORc x 11) XOR RORc x 25"
definition Gamma0 :: "u32 \<Rightarrow> u32" where "Gamma0 x = (RORc x 7 XOR RORc x 18) XOR drop_bit 3 x"
definition Gamma1 :: "u32 \<Rightarrow> u32" where "Gamma1 x = (RORc x 17 XOR RORc x 19) XOR drop_bit 10 x"

section \<open>Compression\<close>

record sha256_ctx =
  sha_length :: u64
  sha_state :: "u32 list"
  curlen :: nat
  sha_buf :: "u8 list"

text \<open>
  The number and the constant of the 64 rounds. Round \<open>i\<close> of the unrolled code names the registers
  \<open>S[(0 - i) mod 8], ..., S[(7 - i) mod 8]\<close> as \<open>a\<close> to \<open>h\<close>.
\<close>

definition rounds_table :: "(nat \<times> u32) list" where
  "rounds_table =
    [(0, 0x428a2f98), (1, 0x71374491), (2, 0xb5c0fbcf), (3, 0xe9b5dba5), (4, 0x3956c25b),
     (5, 0x59f111f1), (6, 0x923f82a4), (7, 0xab1c5ed5), (8, 0xd807aa98), (9, 0x12835b01),
     (10, 0x243185be), (11, 0x550c7dc3), (12, 0x72be5d74), (13, 0x80deb1fe), (14, 0x9bdc06a7),
     (15, 0xc19bf174), (16, 0xe49b69c1), (17, 0xefbe4786), (18, 0x0fc19dc6), (19, 0x240ca1cc),
     (20, 0x2de92c6f), (21, 0x4a7484aa), (22, 0x5cb0a9dc), (23, 0x76f988da), (24, 0x983e5152),
     (25, 0xa831c66d), (26, 0xb00327c8), (27, 0xbf597fc7), (28, 0xc6e00bf3), (29, 0xd5a79147),
     (30, 0x06ca6351), (31, 0x14292967), (32, 0x27b70a85), (33, 0x2e1b2138), (34, 0x4d2c6dfc),
     (35, 0x53380d13), (36, 0x650a7354), (37, 0x766a0abb), (38, 0x81c2c92e), (39, 0x92722c85),
     (40, 0xa2bfe8a1), (41, 0xa81a664b), (42, 0xc24b8b70), (43, 0xc76c51a3), (44, 0xd192e819),
     (45, 0xd6990624), (46, 0xf40e3585), (47, 0x106aa070), (48, 0x19a4c116), (49, 0x1e376c08),
     (50, 0x2748774c), (51, 0x34b0bcb5), (52, 0x391c0cb3), (53, 0x4ed8aa4a), (54, 0x5b9cca4f),
     (55, 0x682e6ff3), (56, 0x748f82ee), (57, 0x78a5636f), (58, 0x84c87814), (59, 0x8cc70208),
     (60, 0x90befffa), (61, 0xa4506ceb), (62, 0xbef9a3f7), (63, 0xc67178f2)]"

definition K :: "u32 list" where "K = map snd rounds_table"

definition RND :: "nat \<Rightarrow> nat \<Rightarrow> nat \<Rightarrow> nat \<Rightarrow> nat \<Rightarrow> nat \<Rightarrow> nat \<Rightarrow> nat \<Rightarrow> u32 \<Rightarrow> u32 \<Rightarrow> u32 list \<Rightarrow> u32 list" where
  "RND a b c d e f g h wi ki S =
     (let t0 = S ! h + Sigma1 (S ! e) + Ch (S ! e) (S ! f) (S ! g) + ki + wi;
          t1 = Sigma0 (S ! a) + Maj (S ! a) (S ! b) (S ! c);
          S = S[d := S ! d + t0]
      in S[h := t0 + t1])"

definition reg :: "nat \<Rightarrow> nat \<Rightarrow> nat" where "reg i k = (k + 64 - i) mod 8"

definition compress_round :: "u32 list \<Rightarrow> nat \<Rightarrow> u32 list \<Rightarrow> u32 list" where
  "compress_round W i =
     RND (reg i 0) (reg i 1) (reg i 2) (reg i 3) (reg i 4) (reg i 5) (reg i 6) (reg i 7) (W ! i) (K ! i)"

definition fill_W :: "nat \<Rightarrow> u32 list \<Rightarrow> u32 list" where
  "fill_W i W = W @ [Gamma1 (W ! (i - 2)) + W ! (i - 7) + Gamma0 (W ! (i - 15)) + W ! (i - 16)]"

definition sha256_compress :: "sha256_ctx \<Rightarrow> u8 list \<Rightarrow> sha256_ctx option" where
  "sha256_compress s buf =
     do { W \<leftarrow> those (map (\<lambda>i. get_be32 buf (4 * i)) [0..<16]);
          let W = fold fill_W [16..<64] W;
          let S = fold (compress_round W) [0..<64] (sha_state s);
          Some (s\<lparr>sha_state := map2 (+) (sha_state s) S\<rparr>) }"

section \<open>The streaming interface\<close>

definition SHA256_Init :: "sha256_ctx \<Rightarrow> sha256_ctx" where
  "SHA256_Init s = s\<lparr>curlen := 0, sha_length := 0,
     sha_state := [0x6A09E667, 0xBB67AE85, 0x3C6EF372, 0xA54FF53A, 0x510E527F, 0x9B05688C, 0x1F83D9AB, 0x5BE0CD19]\<rparr>"

text \<open>
  The loop of \<open>SHA256_Update\<close>. \<open>min_int\<close> takes \<open>inlen\<close> as an \<open>int\<close>: from \<open>2 ^ 31\<close> on it is negative, and the
  copy runs outside the buffer. A \<open>curlen\<close> above 64 is the \<open>abort\<close> at the start of \<open>SHA256_Update\<close>; the loop keeps it
  at most 64.
\<close>

definition append_buf :: "sha256_ctx \<Rightarrow> u8 list \<Rightarrow> sha256_ctx" where
  "append_buf s bs = s\<lparr>sha_buf := take (curlen s) (sha_buf s) @ bs @ drop (curlen s + length bs) (sha_buf s),
     curlen := curlen s + length bs\<rparr>"

function update_loop :: "sha256_ctx \<Rightarrow> u8 list \<Rightarrow> sha256_ctx option" where
  "update_loop s bs =
     (if bs = [] then Some s
      else if curlen s > 64 then None
      else if curlen s = 0 \<and> length bs \<ge> 64
      then do { s' \<leftarrow> sha256_compress s (take 64 bs);
                update_loop (s'\<lparr>sha_length := sha_length s' + 64 * 8\<rparr>) (drop 64 bs) }
      else if length bs \<ge> 2 ^ 31 then None
      else let n = min (length bs) (64 - curlen s); s1 = append_buf s (take n bs) in
        if curlen s1 = 64
        then do { s' \<leftarrow> sha256_compress s1 (sha_buf s1);
                  update_loop (s'\<lparr>sha_length := sha_length s' + 8 * 64, curlen := 0\<rparr>) (drop n bs) }
        else update_loop s1 (drop n bs))"
  by pat_completeness auto

termination
  by (relation "measures [\<lambda>(s, bs). length bs, \<lambda>(s, bs). curlen s]") (auto simp: append_buf_def Let_def)

declare update_loop.simps [simp del]

definition SHA256_Update :: "sha256_ctx \<Rightarrow> u8 list \<Rightarrow> sha256_ctx option" where
  "SHA256_Update s bs =
     (if curlen s > 64 then None
      else if sha_length s + of_nat (length bs) < sha_length s then None
      else update_loop s bs)"

definition put_byte :: "sha256_ctx \<Rightarrow> u8 \<Rightarrow> sha256_ctx" where
  "put_byte s b = s\<lparr>sha_buf := (sha_buf s)[curlen s := b], curlen := curlen s + 1\<rparr>"

function pad_to :: "nat \<Rightarrow> sha256_ctx \<Rightarrow> sha256_ctx" where
  "pad_to n s = (if curlen s < n then pad_to n (put_byte s 0) else s)"
  by pat_completeness auto

termination
  by (relation "measure (\<lambda>(n, s). n - curlen s)") (auto simp: put_byte_def)

declare pad_to.simps [simp del]

text \<open>\<open>out\<close> is the buffer of the caller.\<close>

definition SHA256_Final :: "u8 list \<Rightarrow> sha256_ctx \<Rightarrow> u8 list option" where
  "SHA256_Final out s =
     (if curlen s \<ge> 64 then None
      else do {
        let s = s\<lparr>sha_length := sha_length s + of_nat (curlen s * 8)\<rparr>;
        let s = put_byte s 0x80;
        s \<leftarrow> (if curlen s > 56
              then do { let s = pad_to 64 s; s \<leftarrow> sha256_compress s (sha_buf s); Some (s\<lparr>curlen := 0\<rparr>) }
              else Some s);
        let s = pad_to 56 s;
        buf \<leftarrow> put_be64 (sha_buf s) 56 (sha_length s);
        s \<leftarrow> sha256_compress (s\<lparr>sha_buf := buf\<rparr>) buf;
        fold (\<lambda>i out. do { out \<leftarrow> out; put_be32 out (4 * i) (sha_state s ! i) }) [0..<8] (Some out) })"

text \<open>The context \<open>ctx\<close> is the local variable before its initialisation.\<close>

definition SHA256 :: "sha256_ctx \<Rightarrow> u8 list \<Rightarrow> u8 list \<Rightarrow> u8 list option" where
  "SHA256 ctx buf out = do { s \<leftarrow> SHA256_Update (SHA256_Init ctx) buf; SHA256_Final out s }"

end
