(* ===== verification/Sha256_Props.thy ===== *)
theory Sha256_Props
  imports Sha256
begin

text \<open>
  The hash of the standard (FIPS 180-4), written as the standard has it, and the proof that the streaming code
  computes it, however the message is cut into pieces.
\<close>

section \<open>The standard\<close>

definition spec_ch :: "u32 \<Rightarrow> u32 \<Rightarrow> u32 \<Rightarrow> u32" where "spec_ch x y z = (x AND y) XOR (NOT x AND z)"
definition spec_maj :: "u32 \<Rightarrow> u32 \<Rightarrow> u32 \<Rightarrow> u32" where
  "spec_maj x y z = ((x AND y) XOR (x AND z)) XOR (y AND z)"
definition spec_rot3 :: "nat \<Rightarrow> nat \<Rightarrow> nat \<Rightarrow> u32 \<Rightarrow> u32" where
  "spec_rot3 a b c x = (word_rotr a x XOR word_rotr b x) XOR word_rotr c x"
definition spec_rot2 :: "nat \<Rightarrow> nat \<Rightarrow> nat \<Rightarrow> u32 \<Rightarrow> u32" where
  "spec_rot2 a b c x = (word_rotr a x XOR word_rotr b x) XOR drop_bit c x"

text \<open>
  The constants are the first 32 bits of the fractional parts of the cube roots (the initial hash: the square
  roots) of the first primes.
\<close>

definition iroot :: "nat \<Rightarrow> nat \<Rightarrow> nat" where
  "iroot k n = (GREATEST r. r ^ k \<le> n)"

definition primes64 :: "nat list" where
  "primes64 = [2, 3, 5, 7, 11, 13, 17, 19, 23, 29, 31, 37, 41, 43, 47, 53, 59, 61, 67, 71, 73, 79, 83, 89, 97, 101,
     103, 107, 109, 113, 127, 131, 137, 139, 149, 151, 157, 163, 167, 173, 179, 181, 191, 193, 197, 199, 211, 223,
     227, 229, 233, 239, 241, 251, 257, 263, 269, 271, 277, 281, 283, 293, 307, 311]"

definition spec_K :: "u32 list" where
  "spec_K = map (\<lambda>p. of_nat (iroot 3 (p * 2 ^ 96))) primes64"

definition spec_H0 :: "u32 list" where
  "spec_H0 = map (\<lambda>p. of_nat (iroot 2 (p * 2 ^ 64))) (take 8 primes64)"

definition be_val :: "u8 list \<Rightarrow> nat" where "be_val bs = le_val (rev bs)"
definition be_bytes :: "nat \<Rightarrow> nat \<Rightarrow> u8 list" where "be_bytes n v = rev (le_bytes n v)"

fun spec_W :: "u8 list \<Rightarrow> nat \<Rightarrow> u32" where
  "spec_W block t =
     (if t < 16 then of_nat (be_val (take 4 (drop (4 * t) block)))
      else spec_rot2 17 19 10 (spec_W block (t - 2)) + spec_W block (t - 7) +
           spec_rot2 7 18 3 (spec_W block (t - 15)) + spec_W block (t - 16))"

declare spec_W.simps [simp del]

type_synonym vars = "u32 \<times> u32 \<times> u32 \<times> u32 \<times> u32 \<times> u32 \<times> u32 \<times> u32"

fun spec_round :: "u32 \<Rightarrow> u32 \<Rightarrow> vars \<Rightarrow> vars" where
  "spec_round k w (a, b, c, d, e, f, g, h) =
     (let t1 = h + spec_rot3 6 11 25 e + spec_ch e f g + k + w;
          t2 = spec_rot3 2 13 22 a + spec_maj a b c
      in (t1 + t2, a, b, c, d + t1, e, f, g))"

definition vars_of :: "u32 list \<Rightarrow> vars" where
  "vars_of H = (H ! 0, H ! 1, H ! 2, H ! 3, H ! 4, H ! 5, H ! 6, H ! 7)"

fun add_vars :: "u32 list \<Rightarrow> vars \<Rightarrow> u32 list" where
  "add_vars H (a, b, c, d, e, f, g, h) =
     [H ! 0 + a, H ! 1 + b, H ! 2 + c, H ! 3 + d, H ! 4 + e, H ! 5 + f, H ! 6 + g, H ! 7 + h]"

definition spec_compress :: "u32 list \<Rightarrow> u8 list \<Rightarrow> u32 list" where
  "spec_compress H block = add_vars H (fold (\<lambda>t. spec_round (spec_K ! t) (spec_W block t)) [0..<64] (vars_of H))"

fun spec_blocks :: "u32 list \<Rightarrow> u8 list \<Rightarrow> u32 list" where
  "spec_blocks H m = (if length m < 64 then H else spec_blocks (spec_compress H (take 64 m)) (drop 64 m))"

declare spec_blocks.simps [simp del]

definition spec_pad :: "u8 list \<Rightarrow> u8 list" where
  "spec_pad m = m @ 0x80 # replicate ((119 - length m mod 64) mod 64) 0 @ be_bytes 8 (8 * length m)"

definition spec_sha256 :: "u8 list \<Rightarrow> u8 list" where
  "spec_sha256 m = concat (map (\<lambda>w. be_bytes 4 (unat w)) (spec_blocks spec_H0 (spec_pad m)))"

section \<open>The constants\<close>

lemma iroot_eq:
  assumes "0 < k" and "r ^ k \<le> n" and "n < (r + 1) ^ k"
  shows "iroot k n = r"
  unfolding iroot_def
proof (rule Greatest_equality)
  fix y assume "y ^ k \<le> n"
  then have "y ^ k < (r + 1) ^ k" using assms(3) by simp
  then show "y \<le> r" using power_less_imp_less_base [of y k "r + 1"] by simp
qed (rule assms(2))

text \<open>\<open>n\<close> is the integer part of the root of \<open>p\<close>, \<open>w\<close> the first bits of its fraction.\<close>

definition root_ok :: "nat \<Rightarrow> nat \<Rightarrow> nat \<Rightarrow> u32 \<Rightarrow> bool" where
  "root_ok k p n w \<longleftrightarrow> (let r = n * 2 ^ 32 + unat w in r ^ k \<le> p * 2 ^ (32 * k) \<and> p * 2 ^ (32 * k) < (r + 1) ^ k)"

lemma root_ok_iroot:
  assumes "root_ok k p n w" and "0 < k"
  shows "of_nat (iroot k (p * 2 ^ (32 * k))) = w"
proof -
  have "iroot k (p * 2 ^ (32 * k)) = n * 2 ^ 32 + unat w"
    using assms by (intro iroot_eq) (simp_all add: root_ok_def Let_def)
  moreover have "(of_nat (n * 2 ^ 32) :: u32) = 0"
  proof -
    have "(of_nat (2 ^ 32) :: u32) = 0" by simp
    then show ?thesis by (simp only: of_nat_mult mult_zero_right)
  qed
  ultimately show ?thesis by (simp only: of_nat_add of_nat_unat ucast_id add_0)
qed

definition cbrts :: "nat list" where
  "cbrts = map (\<lambda>p. if p < 8 then 1 else if p < 27 then 2 else if p < 64 then 3 else if p < 125 then 4
     else if p < 216 then 5 else 6) primes64"

lemma cbrts: "list_all (\<lambda>(p, n, w). root_ok 3 p n w) (zip primes64 (zip cbrts K))"
  by (simp add: primes64_def cbrts_def K_def rounds_table_def root_ok_def)

lemma map_zip_eq:
  assumes "list_all (\<lambda>(p, n, w). R p n w) (zip ps (zip ns ws))" and "length ns = length ps" and "length ws = length ps"
    and "\<And>p n w. R p n w \<Longrightarrow> f p = w"
  shows "map f ps = ws"
  using assms(2,3,1)
proof (induction ps arbitrary: ns ws)
  case (Cons p ps)
  then show ?case using assms(4) by (cases ns; cases ws) auto
qed simp

lemma spec_K_K: "spec_K = K"
  unfolding spec_K_def
proof (rule map_zip_eq [OF cbrts])
  show "\<And>p n w. root_ok 3 p n w \<Longrightarrow> of_nat (iroot 3 (p * 2 ^ 96)) = w" using root_ok_iroot [of 3] by simp
qed (simp_all add: cbrts_def primes64_def K_def rounds_table_def)

definition H0 :: "u32 list" where
  "H0 = [0x6A09E667, 0xBB67AE85, 0x3C6EF372, 0xA54FF53A, 0x510E527F, 0x9B05688C, 0x1F83D9AB, 0x5BE0CD19]"

lemma spec_H0_H0: "spec_H0 = H0"
  unfolding spec_H0_def
proof (rule map_zip_eq [where ns = "[1, 1, 2, 2, 3, 3, 4, 4]" and R = "root_ok 2"])
  show "list_all (\<lambda>(p, n, w). root_ok 2 p n w) (zip (take 8 primes64) (zip [1, 1, 2, 2, 3, 3, 4, 4] H0))"
    by (simp add: primes64_def H0_def root_ok_def)
  show "\<And>p n w. root_ok 2 p n w \<Longrightarrow> of_nat (iroot 2 (p * 2 ^ 64)) = w" using root_ok_iroot [of 2] by simp
qed (simp_all add: primes64_def H0_def)

section \<open>The logical functions\<close>

lemma RORc_rotr: "n < 32 \<Longrightarrow> RORc x n = word_rotr n x"
proof (rule bit_word_eqI)
  fix m assume n: "n < 32" and m: "m < LENGTH(32)"
  show "bit (RORc x n) m = bit (word_rotr n x) m"
  proof (cases "m + n < 32")
    case True
    then have "\<not> 32 - n \<le> m" using n by linarith
    then show ?thesis using True m n by (simp add: RORc_def bit_simps add.commute)
  next
    case False
    then have "\<not> bit x (n + m)" using bit_imp_le_length [of x "n + m"] by auto
    moreover have "(m + n) mod 32 = m + n - 32" "32 - n \<le> m" using False m n by (simp_all add: mod_if)
    ultimately show ?thesis using False m n by (simp add: RORc_def bit_simps)
  qed
qed

lemma Ch_spec: "Ch x y z = spec_ch x y z"
  by (rule bit_word_eqI) (auto simp: Ch_def spec_ch_def bit_simps)

lemma Maj_spec: "Maj x y z = spec_maj x y z"
  by (rule bit_word_eqI) (auto simp: Maj_def spec_maj_def bit_simps)

lemma sigma_spec:
  "Sigma0 x = spec_rot3 2 13 22 x" "Sigma1 x = spec_rot3 6 11 25 x"
  "Gamma0 x = spec_rot2 7 18 3 x" "Gamma1 x = spec_rot2 17 19 10 x"
  by (simp_all add: Sigma0_def Sigma1_def Gamma0_def Gamma1_def spec_rot3_def spec_rot2_def RORc_rotr)

section \<open>The compression function\<close>

lemma or_bytes_add:
  fixes a b c d :: u8
  shows "((push_bit 24 (ucast a) OR push_bit 16 (ucast b)) OR push_bit 8 (ucast c)) OR ucast d =
    (of_nat (unat d + 256 * (unat c + 256 * (unat b + 256 * unat a))) :: u32)"
proof -
  have "((push_bit 24 (ucast a) OR push_bit 16 (ucast b)) OR push_bit 8 (ucast c)) OR ucast d =
      push_bit 24 (ucast a) + push_bit 16 (ucast b) + push_bit 8 (ucast c) + (ucast d :: u32)"
    by (subst disjunctive_add, force simp: bit_simps dest: bit_imp_le_length)+ simp
  also have "\<dots> = of_nat (unat d + 256 * (unat c + 256 * (unat b + 256 * unat a)))"
    by (simp add: push_bit_eq_mult algebra_simps)
  finally show ?thesis .
qed

lemma get_be32_val:
  assumes "p + 4 \<le> length buf"
  shows "get_be32 buf p = Some (of_nat (be_val (take 4 (drop p buf))))"
proof -
  have "take 4 (drop p buf) = [buf ! p, buf ! (p + 1), buf ! (p + 2), buf ! (p + 3)]"
    using assms by (intro nth_equalityI) (auto simp: less_Suc_eq numeral_eq_Suc)
  then show ?thesis using assms by (simp add: get_be32_def buf_get_def or_bytes_add be_val_def del: of_nat_add of_nat_mult)
qed

lemma those_map_Some: "(\<And>x. x \<in> set xs \<Longrightarrow> f x = Some (g x)) \<Longrightarrow> those (map f xs) = Some (map g xs)"
  by (induction xs) auto

lemma load_W:
  assumes "length buf = 64"
  shows "those (map (\<lambda>i. get_be32 buf (4 * i)) [0..<16]) = Some (map (spec_W buf) [0..<16])"
  by (rule those_map_Some) (use assms in \<open>simp add: get_be32_val spec_W.simps\<close>)

lemma fill_W:
  assumes "16 \<le> n"
  shows "fold fill_W [16..<n] (map (spec_W buf) [0..<16]) = map (spec_W buf) [0..<n]"
  using assms
proof (induction n rule: dec_induct)
  case (step n)
  have "spec_W buf n = Gamma1 (spec_W buf (n - 2)) + spec_W buf (n - 7) + Gamma0 (spec_W buf (n - 15)) + spec_W buf (n - 16)"
    using step(1) by (subst spec_W.simps) (simp add: sigma_spec)
  then show ?case using step by (simp add: fill_W_def)
qed simp

text \<open>The registers in round \<open>i\<close>, under the names they have there.\<close>

definition view :: "nat \<Rightarrow> u32 list \<Rightarrow> vars" where
  "view i S = (S ! reg i 0, S ! reg i 1, S ! reg i 2, S ! reg i 3, S ! reg i 4, S ! reg i 5, S ! reg i 6, S ! reg i 7)"

lemma list8:
  assumes "length S = 8"
  obtains a b c d e f g h where "S = [a, b, c, d, e, f, g, h]"
  using assms by (auto simp: length_Suc_conv eval_nat_numeral)

definition T1 :: "u32 \<Rightarrow> u32 \<Rightarrow> u32 \<Rightarrow> u32 \<Rightarrow> u32 \<Rightarrow> u32 \<Rightarrow> u32" where
  "T1 k w e f g h = h + spec_rot3 6 11 25 e + spec_ch e f g + k + w"

definition T2 :: "u32 \<Rightarrow> u32 \<Rightarrow> u32 \<Rightarrow> u32" where
  "T2 a b c = spec_rot3 2 13 22 a + spec_maj a b c"

lemma RND_T:
  "RND a b c d e f g h w k S =
     S[d := S ! d + T1 k w (S ! e) (S ! f) (S ! g) (S ! h),
       h := T1 k w (S ! e) (S ! f) (S ! g) (S ! h) + T2 (S ! a) (S ! b) (S ! c)]"
  by (simp add: RND_def T1_def T2_def sigma_spec Ch_spec Maj_spec Let_def)

lemma spec_round_T:
  "spec_round k w (a, b, c, d, e, f, g, h) = (T1 k w e f g h + T2 a b c, a, b, c, d + T1 k w e f g h, e, f, g)"
  by (simp add: T1_def T2_def Let_def)

lemma view_round:
  assumes "length S = 8" and "i < 64"
  shows "view (Suc i) (compress_round W i S) = spec_round (K ! i) (W ! i) (view i S)"
proof -
  obtain a b c d e f g h where S: "S = [a, b, c, d, e, f, g, h]" using list8 [OF assms(1)] .
  define j where "j = (64 - i) mod 8"
  have r: "reg i k = (k + j) mod 8" for k
    using assms(2) by (simp add: reg_def j_def mod_add_right_eq)
  have r': "reg (Suc i) k = (k + j + 7) mod 8" for k
  proof -
    have "(k + j + 7) mod 8 = ((64 - i) mod 8 + (k + 7)) mod 8" by (simp only: j_def ac_simps)
    also have "\<dots> = (64 - i + (k + 7)) mod 8" by (rule mod_add_left_eq)
    also have "64 - i + (k + 7) = (k + 64 - Suc i) + 8" using assms(2) by simp
    also have "((k + 64 - Suc i) + 8) mod 8 = (k + 64 - Suc i) mod 8" by (rule mod_add_self2)
    finally show ?thesis by (simp add: reg_def)
  qed
  have "j < 8" by (simp add: j_def)
  then consider "j = 0" | "j = 1" | "j = 2" | "j = 3" | "j = 4" | "j = 5" | "j = 6" | "j = 7" by linarith
  then show ?thesis
    by cases (simp_all add: S view_def compress_round_def r r' RND_T spec_round_T del: spec_round.simps)
qed

lemma length_round [simp]: "length (compress_round W i S) = length S"
  by (simp add: compress_round_def RND_def Let_def)

lemma rounds:
  assumes "length S = 8" and "n \<le> 64"
  shows "length (fold (compress_round W) [0..<n] S) = 8 \<and>
    view n (fold (compress_round W) [0..<n] S) = fold (\<lambda>t. spec_round (K ! t) (W ! t)) [0..<n] (vars_of S)"
  using assms(2)
proof (induction n)
  case 0
  then show ?case using assms(1) by (simp add: view_def vars_of_def reg_def)
next
  case (Suc n)
  then show ?case by (simp add: view_round)
qed

lemma map2_add_vars:
  assumes "length H = 8" and "length S = 8"
  shows "map2 (+) H S = add_vars H (view 64 S)"
proof -
  obtain a b c d e f g h where "S = [a, b, c, d, e, f, g, h]" using list8 [OF assms(2)] .
  moreover obtain a' b' c' d' e' f' g' h' where "H = [a', b', c', d', e', f', g', h']" using list8 [OF assms(1)] .
  ultimately show ?thesis by (simp add: view_def reg_def)
qed

lemma compress_spec:
  assumes "length (sha_state s) = 8" and "length buf = 64"
  shows "sha256_compress s buf = Some (s\<lparr>sha_state := spec_compress (sha_state s) buf\<rparr>)"
proof -
  have W: "fold fill_W [16..<64] (map (spec_W buf) [0..<16]) = map (spec_W buf) [0..<64]"
    by (rule fill_W) simp
  have "fold (\<lambda>t. spec_round (K ! t) (map (spec_W buf) [0..<64] ! t)) [0..<64] v =
      fold (\<lambda>t. spec_round (K ! t) (spec_W buf t)) [0..<64] v" for v
    by (rule fold_cong) simp_all
  then have "view 64 (fold (compress_round (map (spec_W buf) [0..<64])) [0..<64] (sha_state s)) =
      fold (\<lambda>t. spec_round (K ! t) (spec_W buf t)) [0..<64] (vars_of (sha_state s))"
    using rounds [OF assms(1), of 64 "map (spec_W buf) [0..<64]"] by (simp only: order_refl simp_thms)
  moreover have "length (fold (compress_round (map (spec_W buf) [0..<64])) [0..<64] (sha_state s)) = 8"
    using rounds [OF assms(1), of 64 "map (spec_W buf) [0..<64]"] by (simp only: order_refl simp_thms)
  ultimately show ?thesis
    unfolding sha256_compress_def load_W [OF assms(2)] bind.bind_lunit Let_def W spec_compress_def spec_K_K
    by (simp only: map2_add_vars [OF assms(1)])
qed

lemma length_add_vars: "length (add_vars H v) = 8"
  by (cases "(H, v)" rule: add_vars.cases) simp

lemma length_spec_compress [simp]: "length (spec_compress H b) = 8"
  unfolding spec_compress_def by (rule length_add_vars)

section \<open>The stream\<close>

lemma spec_blocks_append:
  assumes "length a mod 64 = 0"
  shows "spec_blocks H (a @ b) = spec_blocks (spec_blocks H a) b"
  using assms
proof (induction H a rule: spec_blocks.induct)
  case (1 H m)
  show ?case
  proof (cases "length m < 64")
    case True
    then have "m = []" using 1(2) by (cases m) auto
    then show ?thesis by (simp add: spec_blocks.simps [of H "[]"])
  next
    case False
    then have "length (drop 64 m) mod 64 = 0" using 1(2) by (simp add: mod_if)
    moreover have "spec_blocks H (m @ b) = spec_blocks (spec_compress H (take 64 m)) (drop 64 m @ b)"
      using False by (subst spec_blocks.simps) simp
    moreover have "spec_blocks H m = spec_blocks (spec_compress H (take 64 m)) (drop 64 m)"
      using False by (subst spec_blocks.simps) simp
    ultimately show ?thesis using 1(1) [OF False] by simp
  qed
qed

lemma spec_blocks_block:
  assumes "length b = 64"
  shows "spec_blocks H b = spec_compress H b"
  using assms by (subst spec_blocks.simps) (simp add: spec_blocks.simps)

text \<open>The context after the message \<open>m\<close>: \<open>m\<close> is a number of whole blocks and the bytes in the buffer.\<close>

definition absorbed :: "sha256_ctx \<Rightarrow> u8 list \<Rightarrow> bool" where
  "absorbed s m \<longleftrightarrow> length (sha_buf s) = 64 \<and> length (sha_state s) = 8 \<and> curlen s < 64 \<and>
     (\<exists>a. m = a @ take (curlen s) (sha_buf s) \<and> length a mod 64 = 0 \<and> sha_state s = spec_blocks H0 a \<and>
        sha_length s = of_nat (8 * length a))"

lemma absorbed_init:
  assumes "length (sha_buf ctx) = 64"
  shows "absorbed (SHA256_Init ctx) []"
proof -
  have "length H0 = 8" by (simp add: H0_def)
  moreover have "sha_state (SHA256_Init ctx) = H0" by (simp add: SHA256_Init_def H0_def)
  moreover have "spec_blocks H0 [] = H0" by (subst spec_blocks.simps) simp
  ultimately show ?thesis using assms unfolding absorbed_def
    by (simp only:) (simp add: SHA256_Init_def)
qed

lemma absorbed_compress:
  assumes "m = a @ b" and "length a mod 64 = 0" and "length b = 64"
    and "sha_state s = spec_blocks H0 a" and "sha_length s = of_nat (8 * length a)" and "length (sha_state s) = 8"
    and "length (sha_buf s) = 64" 
  shows "\<exists>s'. sha256_compress s b = Some s' \<and>
    absorbed (s'\<lparr>sha_length := sha_length s' + 512, curlen := 0\<rparr>) m \<and> curlen s' = curlen s"
proof -
  let ?s' = "s\<lparr>sha_state := spec_compress (sha_state s) b\<rparr>"
  have c: "spec_compress (sha_state s) b = spec_blocks H0 m"
    using assms(1-4) by (simp add: spec_blocks_append spec_blocks_block)
  moreover have "length (spec_blocks H0 m) = 8" unfolding c [symmetric] by simp
  ultimately have "absorbed (?s'\<lparr>sha_length := sha_length ?s' + 512, curlen := 0\<rparr>) m"
    using assms by (auto simp: absorbed_def mod_add_eq [symmetric] intro!: exI [of _ m])
  then show ?thesis using compress_spec [OF assms(6,3)] by simp
qed

lemma update_loop_absorbs:
  assumes "absorbed s m" and "length bs < 2 ^ 31"
  shows "\<exists>s'. update_loop s bs = Some s' \<and> absorbed s' (m @ bs)"
  using assms
proof (induction s bs arbitrary: m rule: update_loop.induct)
  case (1 s bs)
  obtain a where a: "m = a @ take (curlen s) (sha_buf s)" "length a mod 64 = 0" "sha_state s = spec_blocks H0 a"
      "sha_length s = of_nat (8 * length a)"
    and l: "length (sha_buf s) = 64" "length (sha_state s) = 8" "curlen s < 64"
    using 1(4) by (auto simp: absorbed_def)
  show ?case
  proof (cases "bs = []")
    case True
    then show ?thesis using 1(4) by (subst update_loop.simps) simp
  next
    case ne: False
    show ?thesis
    proof (cases "curlen s = 0 \<and> 64 \<le> length bs")
      case True
      obtain s' where s': "sha256_compress s (take 64 bs) = Some s'" "curlen s' = curlen s"
        "absorbed (s'\<lparr>sha_length := sha_length s' + 512, curlen := 0\<rparr>) (m @ take 64 bs)"
        using absorbed_compress [of "m @ take 64 bs" a "take 64 bs" s] a l True by auto
      let ?t = "s'\<lparr>sha_length := sha_length s' + 512\<rparr>"
      have "?t\<lparr>curlen := 0\<rparr> = ?t" using s'(2) True by (cases s') simp
      then have t: "absorbed ?t (m @ take 64 bs)" using s'(3) by simp
      have "\<exists>s''. update_loop ?t (drop 64 bs) = Some s'' \<and> absorbed s'' ((m @ take 64 bs) @ drop 64 bs)"
        using 1(1) [OF ne _ True s'(1), of "m @ take 64 bs"] t 1(5) l by simp
      then show ?thesis using ne True s'(1) l(3) by (subst update_loop.simps) simp
    next
      case False
      define n where "n = min (length bs) (64 - curlen s)"
      define s1 where "s1 = append_buf s (take n bs)"
      have n: "n \<le> length bs" "n \<le> 64 - curlen s" "0 < n" using ne l(3) by (auto simp: n_def)
      have s1: "curlen s1 = curlen s + n" "sha_state s1 = sha_state s" "sha_length s1 = sha_length s"
        "take (curlen s1) (sha_buf s1) = take (curlen s) (sha_buf s) @ take n bs" "length (sha_buf s1) = 64"
        using n l by (simp_all add: s1_def append_buf_def)
      have step: "update_loop s bs = (if curlen s1 = 64
          then do { s' \<leftarrow> sha256_compress s1 (sha_buf s1);
                    update_loop (s'\<lparr>sha_length := sha_length s' + 8 * 64, curlen := 0\<rparr>) (drop n bs) }
          else update_loop s1 (drop n bs))"
        using ne False 1(5) l(3) unfolding n_def s1_def by (subst update_loop.simps) (simp only: Let_def, simp)
      show ?thesis
      proof (cases "curlen s1 = 64")
        case True
        have "m @ take n bs = a @ sha_buf s1" using s1(4,5) True a(1) by simp
        then obtain s' where s': "sha256_compress s1 (sha_buf s1) = Some s'"
          "absorbed (s'\<lparr>sha_length := sha_length s' + 512, curlen := 0\<rparr>) (m @ take n bs)"
          using absorbed_compress [of "m @ take n bs" a "sha_buf s1" s1] a l s1 by auto
        have "\<exists>s''. update_loop (s'\<lparr>sha_length := sha_length s' + 8 * 64, curlen := 0\<rparr>) (drop n bs) = Some s'' \<and>
            absorbed s'' ((m @ take n bs) @ drop n bs)"
          using 1(2) [OF ne _ False _ n_def s1_def True s'(1), of "m @ take n bs"] s'(2) 1(5) l(3) by simp
        then show ?thesis using step True s'(1) by simp
      next
        case no: False
        have "absorbed s1 (m @ take n bs)"
          using a l n s1 no by (auto simp: absorbed_def intro!: exI [of _ a])
        then have "\<exists>s''. update_loop s1 (drop n bs) = Some s'' \<and> absorbed s'' ((m @ take n bs) @ drop n bs)"
          using 1(3) [OF ne _ False _ n_def s1_def no, of "m @ take n bs"] 1(5) l(3) by simp
        then show ?thesis using step no by simp
      qed
    qed
  qed
qed

section \<open>The digest\<close>

lemma pad_to_eq:
  assumes "curlen s \<le> n" and "n \<le> length (sha_buf s)"
  shows "pad_to n s = s\<lparr>sha_buf := take (curlen s) (sha_buf s) @ replicate (n - curlen s) 0 @ drop n (sha_buf s), curlen := n\<rparr>"
  using assms
proof (induction n s rule: pad_to.induct)
  case (1 n s)
  show ?case
  proof (cases "curlen s < n")
    case True
    have "take (Suc c) (b[c := x]) = take c b @ [x]" if "c < length b" for c x and b :: "u8 list"
      using that by (simp add: take_Suc_conv_app_nth)
    moreover have "replicate (n - curlen s) (0 :: u8) = 0 # replicate (n - Suc (curlen s)) 0"
      using True by (cases "n - curlen s") auto
    moreover have "pad_to n (put_byte s 0) = put_byte s 0\<lparr>sha_buf := take (curlen (put_byte s 0)) (sha_buf (put_byte s 0)) @
        replicate (n - curlen (put_byte s 0)) 0 @ drop n (sha_buf (put_byte s 0)), curlen := n\<rparr>"
      using 1 True by (intro 1(1)) (simp_all add: put_byte_def)
    moreover have "pad_to n s = pad_to n (put_byte s 0)" using True by (subst pad_to.simps) simp
    ultimately show ?thesis using 1(3) True by (simp add: put_byte_def)
  next
    case False
    then show ?thesis using 1(2) by (subst pad_to.simps) (cases s, simp)
  qed
qed

lemma le_bytes_numeral: "le_bytes (numeral k) v = of_nat v # le_bytes (pred_numeral k) (v div 256)"
  by (simp only: numeral_eq_Suc [of k] le_bytes.simps)

lemma le_bytes_add: "le_bytes (m + n) v = le_bytes m v @ le_bytes n (v div 256 ^ m)"
  by (induction m arbitrary: v) (simp_all add: div_mult2_eq)

lemma le_bytes_mod: "le_bytes n (v mod 256 ^ n) = le_bytes n v"
  using le_bytes_le_val [of "le_bytes n v"] by (simp add: le_val_le_bytes)

lemma be_bytes_8: "be_bytes 8 v = be_bytes 4 (v div 2 ^ 32) @ be_bytes 4 v"
  using le_bytes_add [of 4 4 v] by (simp add: be_bytes_def)

lemma be_bytes_4: "be_bytes 4 (unat v) = [ucast (drop_bit 24 v), ucast (drop_bit 16 v), ucast (drop_bit 8 v), ucast v]"
  for v :: u32
proof -
  have "ucast (drop_bit n v) = (of_nat (unat v div 2 ^ n) :: u8)" for n
    by (metis of_nat_unat unat_drop_bit)
  then show ?thesis by (simp add: be_bytes_def le_bytes_numeral div_mult2_eq [symmetric])
qed

lemma list4: "length xs = 4 \<Longrightarrow> \<exists>a b c d. xs = [a, b, c, d]"
  by (auto simp: length_Suc_conv numeral_eq_Suc)

lemma put_be32_at: "put_be32 (xs @ a # b # c # d # ys) (length xs) v = Some (xs @ be_bytes 4 (unat v) @ ys)"
  by (simp add: put_be32_def buf_put_def be_bytes_4 list_update_append numeral_3_eq_3)

lemma put_be32_eq:
  assumes "p + 4 \<le> length buf"
  shows "put_be32 buf p v = Some (take p buf @ be_bytes 4 (unat v) @ drop (p + 4) buf)"
proof -
  have "length (take 4 (drop p buf)) = 4" using assms by simp
  then obtain a b c d where "take 4 (drop p buf) = [a, b, c, d]" using list4 by blast
  then have "buf = take p buf @ [a, b, c, d] @ drop (p + 4) buf"
    by (metis append_take_drop_id drop_drop add.commute)
  moreover have "length (take p buf) = p" using assms by simp
  ultimately show ?thesis
    using put_be32_at [of "take p buf" a b c d "drop (p + 4) buf" v] by (metis append_Cons append_Nil)
qed

lemma length_be_bytes [simp]: "length (be_bytes n v) = n"
  by (simp add: be_bytes_def)

lemma put_be64_eq:
  assumes "length buf = 64"
  shows "put_be64 buf 56 v = Some (take 56 buf @ be_bytes 8 (unat v))"
proof -
  have "unat v div 2 ^ 32 < 2 ^ 32" using unsigned_less [of v, where ?'a = nat] by (intro less_mult_imp_div_less) simp
  then have "unat (ucast (drop_bit 32 v) :: u32) = unat v div 2 ^ 32"
    by (simp add: unsigned_ucast_eq unat_drop_bit take_bit_nat_eq_self)
  moreover have "be_bytes 4 (unat (ucast v :: u32)) = be_bytes 4 (unat v)"
    using le_bytes_mod [of 4 "unat v"] by (simp add: be_bytes_def unsigned_ucast_eq take_bit_eq_mod)
  ultimately show ?thesis using assms by (simp add: put_be64_def put_be32_eq be_bytes_8)
qed

lemma store_digest:
  assumes "4 * n \<le> length out"
  shows "fold (\<lambda>i out. do { out \<leftarrow> out; put_be32 out (4 * i) (S ! i) }) [0..<n] (Some out) =
    Some (concat (map (\<lambda>i. be_bytes 4 (unat (S ! i))) [0..<n]) @ drop (4 * n) out)"
  using assms
proof (induction n)
  case (Suc n)
  have "length (concat (map (\<lambda>i. be_bytes 4 (unat (S ! i))) [0..<n])) = 4 * n" by (simp add: length_concat comp_def sum_list_triv)
  then show ?case using Suc by (simp add: put_be32_eq)
qed simp

lemma final_block:
  assumes "length (sha_state s) = 8" and "length (sha_buf s) = 64" and "curlen s \<le> 56" and "32 \<le> length out"
  shows "do { let s = pad_to 56 s;
        buf \<leftarrow> put_be64 (sha_buf s) 56 (sha_length s);
        s \<leftarrow> sha256_compress (s\<lparr>sha_buf := buf\<rparr>) buf;
        fold (\<lambda>i out. do { out \<leftarrow> out; put_be32 out (4 * i) (sha_state s ! i) }) [0..<8] (Some out) } =
    Some (concat (map (\<lambda>w. be_bytes 4 (unat w)) (spec_compress (sha_state s)
      (take (curlen s) (sha_buf s) @ replicate (56 - curlen s) 0 @ be_bytes 8 (unat (sha_length s))))) @ drop 32 out)"
proof -
  define b where "b = take (curlen s) (sha_buf s) @ replicate (56 - curlen s) 0 @ be_bytes 8 (unat (sha_length s))"
  have b: "length b = 64" using assms by (simp add: b_def)
  define t where "t = pad_to 56 s"
  have "put_be64 (sha_buf t) 56 (sha_length t) = Some b"
    using assms by (simp add: t_def pad_to_eq put_be64_eq b_def)
  moreover have "sha_state t = sha_state s" using assms by (simp add: t_def pad_to_eq)
  moreover have e: "concat (map (\<lambda>i. be_bytes 4 (unat (spec_compress (sha_state s) b ! i))) [0..<8]) =
      concat (map (\<lambda>w. be_bytes 4 (unat w)) (spec_compress (sha_state s) b))"
    using arg_cong [OF map_nth [of "spec_compress (sha_state s) b"], of "\<lambda>ws. concat (map (\<lambda>w. be_bytes 4 (unat w)) ws)"]
    by (simp only: map_map comp_def length_spec_compress)
  have d: "4 * 8 \<le> length out" "drop (4 * 8) out = drop 32 out" using assms(4) by simp_all
  have "fold (\<lambda>i out. do { out \<leftarrow> out; put_be32 out (4 * i) (spec_compress (sha_state s) b ! i) }) [0..<8] (Some out) =
      Some (concat (map (\<lambda>w. be_bytes 4 (unat w)) (spec_compress (sha_state s) b)) @ drop 32 out)"
    using store_digest [OF d(1), of "spec_compress (sha_state s) b"] unfolding e d(2) .
  moreover have "sha256_compress (t\<lparr>sha_buf := b\<rparr>) b = Some (t\<lparr>sha_buf := b, sha_state := spec_compress (sha_state s) b\<rparr>)"
    using compress_spec [of "t\<lparr>sha_buf := b\<rparr>" b] assms(1) b \<open>sha_state t = sha_state s\<close> by simp
  moreover have "sha_state (t\<lparr>sha_buf := b, sha_state := H\<rparr>) = H" for H by simp
  ultimately show ?thesis unfolding t_def [symmetric] b_def [symmetric] Let_def
    by (simp only: bind.bind_lunit)
qed

lemma final_digest:
  assumes "absorbed s m" and "length m < 2 ^ 61" and "32 \<le> length out"
  shows "SHA256_Final out s = Some (spec_sha256 m @ drop 32 out)"
proof -
  obtain a where a: "m = a @ take (curlen s) (sha_buf s)" "length a mod 64 = 0" "sha_state s = spec_blocks H0 a"
      "sha_length s = of_nat (8 * length a)"
    and l: "length (sha_buf s) = 64" "length (sha_state s) = 8" "curlen s < 64"
    using assms(1) by (auto simp: absorbed_def)
  let ?c = "curlen s" and ?p = "take (curlen s) (sha_buf s)"
  have lm: "length m = length a + ?c" using a(1) l by simp
  then have m: "length m mod 64 = ?c" using a(2) l(3) by (simp add: mod_add_eq [symmetric])
  define s1 where "s1 = put_byte (s\<lparr>sha_length := sha_length s + of_nat (curlen s * 8)\<rparr>) 0x80"
  have len: "unat (sha_length s1) = 8 * length m"
  proof -
    have "sha_length s1 = of_nat (8 * length m)"
      by (simp only: s1_def put_byte_def sha256_ctx.simps a(4) lm of_nat_add [symmetric]) (simp add: algebra_simps)
    then show ?thesis using assms(2) by (simp add: unat_of_nat del: of_nat_mult)
  qed
  have s1: "curlen s1 = ?c + 1" "sha_state s1 = sha_state s" "length (sha_buf s1) = 64"
    "take (?c + 1) (sha_buf s1) = ?p @ [0x80]"
    using l by (simp_all add: s1_def put_byte_def take_Suc_conv_app_nth)
  define z where "z = be_bytes 8 (8 * length m)"
  define step where "step = (if curlen s1 > 56
      then do { let s = pad_to 64 s1; s \<leftarrow> sha256_compress s (sha_buf s); Some (s\<lparr>curlen := 0\<rparr>) } else Some s1)"
  have Final: "SHA256_Final out s = do { s \<leftarrow> step;
        let s = pad_to 56 s;
        buf \<leftarrow> put_be64 (sha_buf s) 56 (sha_length s);
        s \<leftarrow> sha256_compress (s\<lparr>sha_buf := buf\<rparr>) buf;
        fold (\<lambda>i out. do { out \<leftarrow> out; put_be32 out (4 * i) (sha_state s ! i) }) [0..<8] (Some out) }"
    using l(3) unfolding SHA256_Final_def step_def s1_def Let_def by (simp only: not_le if_False if_not_P)
  show ?thesis
  proof (cases "?c + 1 > 56")
    case False
    then have st: "step = Some s1" using s1(1) by (simp add: step_def)
    have pad: "spec_pad m = a @ (?p @ [0x80]) @ replicate (56 - (?c + 1)) 0 @ z"
    proof -
      have "(119 - ?c) mod 64 = 55 - ?c" using False by (simp add: mod_if)
      then have "spec_pad m = m @ 0x80 # replicate (55 - ?c) 0 @ z" by (simp only: spec_pad_def m z_def)
      then show ?thesis by (simp only:) (subst a(1), simp)
    qed
    have "spec_blocks H0 (spec_pad m) = spec_compress (sha_state s1) (take (curlen s1) (sha_buf s1) @ replicate (56 - curlen s1) 0 @ z)"
      unfolding pad spec_blocks_append [OF a(2)] s1 a(3) using False l
      by (subst spec_blocks_block) (simp_all add: z_def)
    then show ?thesis
      using final_block [of s1 out] s1 l False assms(3)
      unfolding Final st bind.bind_lunit len spec_sha256_def spec_H0_H0 z_def by simp
  next
    case True
    define b where "b = (?p @ [0x80]) @ replicate (64 - (?c + 1)) 0"
    have b: "length b = 64" using l by (simp add: b_def)
    define s2 where "s2 = pad_to 64 s1"
    have s2: "sha_buf s2 = b" "sha_state s2 = sha_state s" "sha_length s2 = sha_length s1"
      using s1 l by (simp_all add: s2_def pad_to_eq b_def)
    define s3 where "s3 = s2\<lparr>sha_state := spec_compress (sha_state s) b, curlen := 0\<rparr>"
    have st: "step = Some s3"
      using True s1(1) compress_spec [of s2 b] l(2) b unfolding step_def s2_def [symmetric] s3_def Let_def
      by (simp add: s2)
    have s3: "sha_buf s3 = b" "curlen s3 = 0" "sha_length s3 = sha_length s1" "sha_state s3 = spec_blocks H0 (a @ b)"
      using b a(2,3) by (simp_all add: s3_def s2 spec_blocks_append spec_blocks_block)
    have pad: "spec_pad m = (a @ b) @ replicate 56 0 @ z"
    proof -
      have "(119 - ?c) mod 64 = 63 - ?c + 56" using True l(3) by (simp add: mod_if)
      then have "spec_pad m = m @ 0x80 # replicate (63 - ?c + 56) 0 @ z" by (simp only: spec_pad_def m z_def)
      then show ?thesis by (simp only: b_def replicate_add) (subst a(1), simp)
    qed
    have ab: "length (a @ b) mod 64 = 0" using a(2) b by simp
    have "spec_blocks H0 (spec_pad m) = spec_compress (sha_state s3) (take (curlen s3) (sha_buf s3) @ replicate (56 - curlen s3) 0 @ z)"
      unfolding pad spec_blocks_append [OF ab] s3 by (subst spec_blocks_block) (simp_all add: z_def)
    moreover have "length (sha_state s3) = 8" by (simp add: s3_def)
    ultimately show ?thesis
      using final_block [of s3 out] s3 b assms(3)
      unfolding Final st bind.bind_lunit spec_sha256_def spec_H0_H0 z_def by (simp add: len)
  qed
qed

section \<open>The hash of a message in pieces\<close>

fun updates :: "sha256_ctx \<Rightarrow> u8 list list \<Rightarrow> sha256_ctx option" where
  "updates s [] = Some s"
| "updates s (c # cs) = do { s \<leftarrow> SHA256_Update s c; updates s cs }"

lemma update_absorbs:
  assumes "absorbed s m" and "length bs < 2 ^ 31" and "length (m @ bs) < 2 ^ 61"
  shows "\<exists>s'. SHA256_Update s bs = Some s' \<and> absorbed s' (m @ bs)"
proof -
  obtain a where a: "m = a @ take (curlen s) (sha_buf s)" "sha_length s = of_nat (8 * length a)" and c: "curlen s < 64"
    using assms(1) by (auto simp: absorbed_def)
  have "8 * length a + length bs < 2 ^ 64" using a(1) assms(3) by simp
  then have "unat (sha_length s) = 8 * length a" "unat (sha_length s + of_nat (length bs)) = 8 * length a + length bs"
    unfolding a(2) of_nat_add [symmetric] by (simp_all add: unat_of_nat del: of_nat_mult of_nat_add)
  then have "\<not> sha_length s + of_nat (length bs) < sha_length s" by (simp add: word_less_nat_alt)
  then show ?thesis using update_loop_absorbs [OF assms(1,2)] c by (simp add: SHA256_Update_def)
qed

lemma updates_absorb:
  assumes "absorbed s m" and "\<forall>c \<in> set cs. length c < 2 ^ 31" and "length (m @ concat cs) < 2 ^ 61"
  shows "\<exists>s'. updates s cs = Some s' \<and> absorbed s' (m @ concat cs)"
  using assms
proof (induction cs arbitrary: s m)
  case (Cons c cs)
  obtain s' where s': "SHA256_Update s c = Some s'" "absorbed s' (m @ c)"
    using update_absorbs [OF Cons(2), of c] Cons(3,4) by auto
  then show ?case using Cons(1) [OF s'(2)] Cons(3,4) by simp
qed simp

text \<open>
  C25. The streaming hash is SHA-256 of the standard: fed with a message in any pieces (each below \<open>2 ^ 31\<close> bytes, the
  message below \<open>2 ^ 61\<close>), \<open>SHA256_Update\<close> never aborts or leaves the block buffer and \<open>SHA256_Final\<close> writes the
  digest of the whole message, the first 32 bytes of \<open>out\<close>; so does the one-call form.
\<close>
theorem sha256_streaming:
  assumes "length (sha_buf ctx) = 64" and "\<forall>c \<in> set cs. length c < 2 ^ 31" and "length (concat cs) < 2 ^ 61"
    and "32 \<le> length out" and "length m < 2 ^ 31"
  shows "do { s \<leftarrow> updates (SHA256_Init ctx) cs; SHA256_Final out s } = Some (spec_sha256 (concat cs) @ drop 32 out) \<and>
    SHA256 ctx m out = Some (spec_sha256 m @ drop 32 out)"
proof
  have init: "absorbed (SHA256_Init ctx) []" using assms(1) by (rule absorbed_init)
  obtain s where "updates (SHA256_Init ctx) cs = Some s" "absorbed s (concat cs)"
    using updates_absorb [OF init assms(2)] assms(3) by auto
  then show "do { s \<leftarrow> updates (SHA256_Init ctx) cs; SHA256_Final out s } = Some (spec_sha256 (concat cs) @ drop 32 out)"
    using final_digest assms(3,4) by simp
  obtain s' where "SHA256_Update (SHA256_Init ctx) m = Some s'" "absorbed s' m"
    using update_absorbs [OF init, of m] assms(5) by auto
  then show "SHA256 ctx m out = Some (spec_sha256 m @ drop 32 out)"
    using final_digest assms(4,5) by (simp add: SHA256_def)
qed

definition sample_ctx :: sha256_ctx where
  "sample_ctx = \<lparr>sha_length = 7, sha_state = [], curlen = 99, sha_buf = replicate 64 0xaa\<rparr>"

theorem sha256_streaming_witness:
  "do { s \<leftarrow> updates (SHA256_Init sample_ctx) [[97], [98, 99]]; SHA256_Final (replicate 32 0) s } =
     Some (spec_sha256 [97, 98, 99]) \<and>
   SHA256 sample_ctx [97, 98, 99] (replicate 32 0) = Some (spec_sha256 [97, 98, 99])"
  using sha256_streaming [of sample_ctx "[[97], [98, 99]]" "replicate 32 0" "[97, 98, 99]"]
  by (simp add: sample_ctx_def)

text \<open>An update of \<open>2 ^ 31\<close> bytes or more with bytes in the buffer copies outside it.\<close>

lemma update_huge_overflows:
  assumes "curlen s \<noteq> 0" and "2 ^ 31 \<le> length bs"
  shows "SHA256_Update s bs = None"
proof -
  have "bs \<noteq> []" using assms(2) by auto
  then show ?thesis using assms by (simp add: SHA256_Update_def update_loop.simps [of s bs])
qed

end
