(* ===== verification/Json.thy ===== *)
theory Json
  imports Fs_Utils
begin

text \<open>
  The parser and the values of \<open>json.c\<close>. A pointer into the text is the list of the characters that are left, as in
  \<open>Fs_Utils\<close>. A value is a tree: the arrays and objects of the code are never shared. Objects keep their properties in
  the order of insertion. The C stack has no bound here; freeing memory is not modelled.
\<close>

section \<open>Values\<close>

datatype json =
    JSON_STR string
  | JSON_INT int
  | JSON_OBJ "(string \<times> json) list"
  | JSON_ARRAY "json list"
  | JSON_BOOL bool
  | JSON_NULL
  | JSON_UNDEFINED
  | JSON_EXCEPTION string

definition json_is_error :: "json \<Rightarrow> bool" where
  "json_is_error val = (case val of JSON_EXCEPTION _ \<Rightarrow> True | _ \<Rightarrow> False)"

definition json_is_undefined :: "json \<Rightarrow> bool" where
  "json_is_undefined val = (case val of JSON_UNDEFINED \<Rightarrow> True | _ \<Rightarrow> False)"

fun json_object_get2 :: "(string \<times> json) list \<Rightarrow> string \<Rightarrow> json option" where
  "json_object_get2 [] name = None"
| "json_object_get2 ((k, v) # props) name = (if k = name then Some v else json_object_get2 props name)"

definition json_object_get :: "json \<Rightarrow> string \<Rightarrow> json" where
  "json_object_get val name =
     (case val of
        JSON_OBJ obj \<Rightarrow> (case json_object_get2 obj name of None \<Rightarrow> JSON_UNDEFINED | Some v \<Rightarrow> v)
      | _ \<Rightarrow> JSON_UNDEFINED)"

text \<open>The properties of an object after a property is set: in its place when it is there, at the end when not.\<close>

fun set_prop :: "string \<Rightarrow> json \<Rightarrow> (string \<times> json) list \<Rightarrow> (string \<times> json) list" where
  "set_prop name v [] = [(name, v)]"
| "set_prop name v ((k, w) # props) = (if k = name then (k, v) # props else (k, w) # set_prop name v props)"

text \<open>\<open>None\<close> is the result -1 of the setters.\<close>

definition json_object_set :: "json \<Rightarrow> string \<Rightarrow> json \<Rightarrow> json option" where
  "json_object_set val name prop_val =
     (case val of JSON_OBJ obj \<Rightarrow> Some (JSON_OBJ (set_prop name prop_val obj)) | _ \<Rightarrow> None)"

definition json_array_get :: "json \<Rightarrow> nat \<Rightarrow> json" where
  "json_array_get val idx =
     (case val of JSON_ARRAY a \<Rightarrow> if idx < length a then a ! idx else JSON_UNDEFINED | _ \<Rightarrow> JSON_UNDEFINED)"

definition json_array_set :: "json \<Rightarrow> nat \<Rightarrow> json \<Rightarrow> json option" where
  "json_array_set val idx prop_val =
     (case val of
        JSON_ARRAY a \<Rightarrow>
          if idx < length a then Some (JSON_ARRAY (a[idx := prop_val]))
          else if idx = length a then Some (JSON_ARRAY (a @ [prop_val]))
          else None
      | _ \<Rightarrow> None)"

definition json_get_str :: "json \<Rightarrow> string option" where
  "json_get_str val = (case val of JSON_STR s \<Rightarrow> Some s | _ \<Rightarrow> None)"

definition json_get_error :: "json \<Rightarrow> string option" where
  "json_get_error val = (case val of JSON_EXCEPTION s \<Rightarrow> Some s | _ \<Rightarrow> None)"

section \<open>Tokens\<close>

text \<open>The characters of a string after the opening quote; \<open>n\<close> more fit in the buffer.\<close>

fun parse_chars :: "nat \<Rightarrow> string \<Rightarrow> string + (string \<times> string)" where
  "parse_chars n [] = Inl ''unterminated string''"
| "parse_chars n (c # p) =
     (if c = CHR 0x0A then Inl ''unterminated string''
      else if c = CHR 0x22 then Inr ([], p)
      else if c = CHR 0x5C
      then (case p of
              [] \<Rightarrow> Inl ''unknown escape code''
            | e # p1 \<Rightarrow>
                if e = CHR 0x27 \<or> e = CHR 0x22 \<or> e = CHR 0x5C
                then (if n = 0 then Inl ''string too long'' else map_sum id (apfst ((#) e)) (parse_chars (n - 1) p1))
                else if e = CHR ''n''
                then (if n = 0 then Inl ''string too long'' else map_sum id (apfst ((#) (CHR 0x0A))) (parse_chars (n - 1) p1))
                else if e = CHR ''r''
                then (if n = 0 then Inl ''string too long'' else map_sum id (apfst ((#) (CHR 0x0D))) (parse_chars (n - 1) p1))
                else if e = CHR ''t''
                then (if n = 0 then Inl ''string too long'' else map_sum id (apfst ((#) (CHR 0x09))) (parse_chars (n - 1) p1))
                else if e = CHR ''x''
                then (case p1 of
                        h0 # h1 # p2 \<Rightarrow>
                          (case (from_hex h0, from_hex h1) of
                             (Some a, Some b) \<Rightarrow>
                               if n = 0 then Inl ''string too long''
                               else map_sum id (apfst ((#) (char_of (16 * a + b)))) (parse_chars (n - 1) p2)
                           | _ \<Rightarrow> Inl ''invalig hex digit'')
                      | _ \<Rightarrow> Inl ''invalig hex digit'')
                else Inl ''unknown escape code'')
      else if n = 0 then Inl ''string too long'' else map_sum id (apfst ((#) c)) (parse_chars (n - 1) p))"

text \<open>\<open>parse_string\<close>, at the quote. Its text is cut at a NUL, which \<open>\x00\<close> gives.\<close>

definition parse_string :: "string \<Rightarrow> string + (string \<times> string)" where
  "parse_string pp = map_sum id (apfst cstring) (parse_chars 4095 (tl pp))"

fun skip_comment :: "string \<Rightarrow> string" where
  "skip_comment [] = []"
| "skip_comment (c # p) = (if c = CHR ''*'' \<and> peek p = CHR ''/'' then tl p else skip_comment p)"

lemma length_skip_comment: "length (skip_comment p) \<le> length p"
  by (induction p) (auto simp: le_SucI intro: le_trans [OF length_tl [THEN eq_imp_le]])

function skip_spaces :: "string \<Rightarrow> string" where
  "skip_spaces pp =
     (case pp of
        [] \<Rightarrow> []
      | c # p \<Rightarrow>
          if isspace c then skip_spaces p
          else if c = CHR ''/'' \<and> peek p = CHR ''/'' then skip_spaces (dropWhile (\<lambda>c. c \<noteq> CHR 0x0A) (tl p))
          else if c = CHR ''/'' \<and> peek p = CHR ''*'' then skip_spaces (skip_comment (tl p))
          else pp)"
  by pat_completeness auto

termination
proof (relation "measure length")
  show "wf (measure length)" by simp
  fix pp p :: string and c assume "pp = c # p"
  then have "length p < length pp" by simp
  moreover have "length (dropWhile (\<lambda>c. c \<noteq> CHR 0x0A) (tl p)) \<le> length p"
    using length_dropWhile_le [of "\<lambda>c. c \<noteq> CHR 0x0A" "tl p"] by simp
  moreover have "length (skip_comment (tl p)) \<le> length p" using length_skip_comment [of "tl p"] by simp
  ultimately show "(p, pp) \<in> measure length" "(dropWhile (\<lambda>c. c \<noteq> CHR 0x0A) (tl p), pp) \<in> measure length"
    "(skip_comment (tl p), pp) \<in> measure length" by simp_all
qed

declare skip_spaces.simps [simp del]

definition is_ident_first :: "char \<Rightarrow> bool" where
  "is_ident_first c \<longleftrightarrow> 97 \<le> code c \<and> code c \<le> 122 \<or> 65 \<le> code c \<and> code c \<le> 90 \<or> c = CHR ''_'' \<or> c = CHR ''$''"

definition ident_char :: "char \<Rightarrow> bool" where
  "ident_char c \<longleftrightarrow> is_ident_first c \<or> isdigit c"

text \<open>\<open>None\<close> is the result -1, which leaves the buffer without its final NUL. The first character is already tested.\<close>

definition parse_ident :: "nat \<Rightarrow> string \<Rightarrow> (string \<times> string) option" where
  "parse_ident buf_size pp =
     (let ident = hd pp # takeWhile ident_char (tl pp) in
      if length ident \<le> buf_size - 1 then Some (ident, dropWhile ident_char (tl pp)) else None)"

section \<open>The parser\<close>

text \<open>
  \<open>parse_value2 n p\<close> with \<open>n\<close> levels of calls and loop rounds left: the value and the new pointer, which an error
  leaves alone. \<open>None\<close> when \<open>n\<close> is too small, and when an unknown identifier of 128 characters or more is printed
  from a buffer without NUL. The loops of the object and array cases return the error or the collected elements.
\<close>

fun parse_value2 :: "nat \<Rightarrow> string \<Rightarrow> (json \<times> string) option"
and parse_object :: "nat \<Rightarrow> (string \<times> json) list \<Rightarrow> string \<Rightarrow> (string + (string \<times> json) list \<times> string) option"
and parse_array :: "nat \<Rightarrow> json list \<Rightarrow> string \<Rightarrow> (string + json list \<times> string) option" where
  "parse_value2 0 pp = None"
| "parse_value2 (Suc n) pp =
     (let p = skip_spaces pp; c = peek p in
      if p = [] then Some (JSON_EXCEPTION ''unexpected end of file'', pp)
      else if isdigit c then let (v, r) = strtol p 0 in Some (JSON_INT v, r)
      else if c = CHR 0x22
      then (case parse_string p of
              Inl e \<Rightarrow> Some (JSON_EXCEPTION e, p)
            | Inr (s, r) \<Rightarrow> Some (JSON_STR s, r))
      else if c = CHR ''{''
      then do { r \<leftarrow> parse_object n [] (tl p);
                case r of Inl e \<Rightarrow> Some (JSON_EXCEPTION e, pp) | Inr (obj, r) \<Rightarrow> Some (JSON_OBJ obj, r) }
      else if c = CHR ''[''
      then do { r \<leftarrow> parse_array n [] (tl p);
                case r of Inl e \<Rightarrow> Some (JSON_EXCEPTION e, pp) | Inr (a, r) \<Rightarrow> Some (JSON_ARRAY a, r) }
      else if is_ident_first c
      then do { (buf, r) \<leftarrow> parse_ident 128 p;
                Some (if buf = ''null'' then (JSON_NULL, r)
                      else if buf = ''true'' then (JSON_BOOL True, r)
                      else if buf = ''false'' then (JSON_BOOL False, r)
                      else (JSON_EXCEPTION (''unknown identifier: '' @ [CHR 0x27] @ buf @ [CHR 0x27]), pp)) }
      else Some (JSON_EXCEPTION ''unexpected character'', pp))"
| "parse_object 0 obj p = None"
| "parse_object (Suc n) obj p =
     (let p = skip_spaces p; c = peek p in
      if c = CHR ''}'' then Some (Inr (obj, tl p))
      else case (if c = CHR 0x22 then parse_string p
                 else if is_ident_first c
                 then case parse_ident 128 p of None \<Rightarrow> Inl ''Invalid property name'' | Some r \<Rightarrow> Inr r
                 else Inl ''Invalid property name'') of
        Inl e \<Rightarrow> Some (Inl e)
      | Inr (tag, p) \<Rightarrow>
          if tag = [] then Some (Inl ''Invalid property name'')
          else let p = skip_spaces p in
            if peek p \<noteq> CHR '':'' then Some (Inl (CHR 0x27 # '':'' @ CHR 0x27 # '' expected''))
            else do { (val1, p) \<leftarrow> parse_value2 n (tl p);
                      let obj = set_prop tag val1 obj;
                      let p = skip_spaces p;
                      if peek p = CHR '','' then parse_object n obj (tl p)
                      else if peek p \<noteq> CHR ''}''
                      then Some (Inl (''expecting '' @ CHR 0x27 # '','' @ CHR 0x27 # '' or '' @ CHR 0x27 # ''}'' @ [CHR 0x27]))
                      else parse_object n obj p })"
| "parse_array 0 a p = None"
| "parse_array (Suc n) a p =
     (let p = skip_spaces p in
      if peek p = CHR '']'' then Some (Inr (a, tl p))
      else do { (val1, p) \<leftarrow> parse_value2 n p;
                let a = a @ [val1];
                let p = skip_spaces p;
                if peek p = CHR '','' then parse_array n a (tl p)
                else if peek p \<noteq> CHR '']''
                then Some (Inl (''expecting '' @ CHR 0x27 # '','' @ CHR 0x27 # '' or '' @ CHR 0x27 # '']'' @ [CHR 0x27]))
                else parse_array n a p })"

text \<open>Each level consumes a character, and so does each round but the last.\<close>

definition parse_fuel :: "string \<Rightarrow> nat" where "parse_fuel p = 2 * length p + 3"

definition json_parse_value :: "string \<Rightarrow> json option" where
  "json_parse_value str =
     (let p = cstring str in
      do { (val, r) \<leftarrow> parse_value2 (parse_fuel p) p;
           Some (if json_is_error val then val
                 else if skip_spaces r \<noteq> [] then JSON_EXCEPTION ''unexpected characters at the end''
                 else val) })"

definition json_parse_value_len :: "string \<Rightarrow> nat \<Rightarrow> json option" where
  "json_parse_value_len p len = json_parse_value (take len p)"

end
