(* ===== verification/Json_Props.thy ===== *)
theory Json_Props
  imports Json Fs_Utils_Props "HOL-Library.Sublist"
begin

text \<open>
  The language the parser of \<open>json.c\<close> accepts, given by a grammar, and the proof that the parser returns the value of every
  text of the grammar; that it returns for every text; and what it promises of the values it returns.
\<close>

section \<open>Pointers only move forward\<close>

lemma suffix_dropWhile': "suffix (dropWhile P p) p"
  by (rule suffix_dropWhile)

lemma suffix_tl': "suffix (tl p) p"
  by (rule suffix_tl)

lemma suffix_trans: "suffix a b \<Longrightarrow> suffix b c \<Longrightarrow> suffix a c"
  by (rule suffix_order.trans)

lemma suffix_skip_comment: "suffix (skip_comment p) p"
proof (induction p)
  case (Cons c p)
  then show ?case using suffix_trans [OF suffix_tl, of p "c # p"] by (auto simp: suffix_ConsI intro: suffix_trans)
qed simp

lemma suffix_skip_spaces: "suffix (skip_spaces p) p"
proof (induction p rule: skip_spaces.induct)
  case (1 p)
  show ?case
  proof (cases p)
    case Nil
    then show ?thesis by (simp add: skip_spaces.simps)
  next
    case (Cons c q)
    have "suffix (dropWhile (\<lambda>c. c \<noteq> CHR 0x0A) (tl q)) p" "suffix (skip_comment (tl q)) p" "suffix q p"
      using Cons suffix_dropWhile suffix_skip_comment suffix_tl by (meson suffix_ConsI suffix_trans suffix_order.refl)+
    then show ?thesis using 1 Cons by (subst skip_spaces.simps) (auto intro: suffix_trans)
  qed
qed

lemma suffix_scan_digits: "suffix (snd (scan_digits b acc p)) p"
  by (induction b acc p rule: scan_digits.induct) (auto simp: suffix_ConsI split: option.splits)

lemma suffix_strtol: "suffix (snd (strtol p base)) p"
proof -
  have "suffix r p" if "strto base p = Some (neg, v, r)" for neg v r
  proof -
    define q where "q = dropWhile isspace p"
    define q1 where "q1 = (if peek q = CHR ''-'' \<or> peek q = CHR ''+'' then tl q else q)"
    have q: "suffix q p" "suffix q1 q" "suffix (tl (tl q1)) q1"
      by (auto simp: q_def q1_def suffix_dropWhile suffix_tl intro: suffix_trans [OF suffix_tl suffix_tl])
    have "\<exists>b q2. scan_digits b 0 q2 = (v, r) \<and> (q2 = tl (tl q1) \<or> q2 = q1)"
      using that unfolding strto_def Let_def q_def [symmetric] q1_def [symmetric]
      by (simp split: if_split_asm prod.split_asm) blast+
    then obtain b q2 where "scan_digits b 0 q2 = (v, r)" "q2 = tl (tl q1) \<or> q2 = q1" by blast
    then have "suffix r q2" "suffix q2 q1" using q(3) by (metis suffix_scan_digits snd_conv, auto)
    then show ?thesis using q by (blast intro: suffix_trans)
  qed
  then show ?thesis by (auto simp: strtol_def split: option.split prod.split)
qed

lemma map_sum_Inr: "map_sum id g x = Inr y \<longleftrightarrow> (\<exists>z. x = Inr z \<and> y = g z)"
  by (cases x) auto

lemma parse_chars_step:
  assumes "parse_chars n (c # q) = Inr (s, r)"
  shows "(s = [] \<and> r = q) \<or> (\<exists>d s' q'. s = d # s' \<and> n \<noteq> 0 \<and> parse_chars (n - 1) q' = Inr (s', r) \<and> suffix q' q)"
proof -
  have "\<exists>q'. parse_chars (n - 1) q' = Inr (s', r) \<and> suffix q' q" if "parse_chars (n - 1) q1 = Inr (s', r)" "suffix q1 q" for q1 s'
    using that by blast
  moreover have "suffix a (b # a)" "suffix a (b # b' # a)" "suffix a (b # b' # b'' # a)" for a :: string and b b' b''
    by (simp_all add: suffix_ConsI)
  ultimately show ?thesis
    using assms by (simp add: map_sum_Inr del: One_nat_def split: if_split_asm list.split_asm option.split_asm) fastforce+
qed

declare parse_chars.simps(2) [simp del]

lemma suffix_parse_chars: "parse_chars n p = Inr (s, r) \<Longrightarrow> suffix r p"
proof (induction s arbitrary: n p)
  case Nil
  then show ?case by (cases p) (auto dest!: parse_chars_step simp: suffix_ConsI)
next
  case (Cons d s)
  obtain c q where p: "p = c # q" using Cons(2) by (cases p) auto
  obtain q' where "parse_chars (n - 1) q' = Inr (s, r)" "suffix q' q"
    using parse_chars_step [of n c q "d # s" r] Cons(2) p by auto
  then show ?case using Cons(1) p by (auto intro: suffix_trans suffix_ConsI)
qed

lemma suffix_parse_string: "parse_string p = Inr (s, r) \<Longrightarrow> suffix r p"
  using suffix_trans [OF suffix_parse_chars suffix_tl] by (auto simp: parse_string_def map_sum_Inr)

lemma suffix_parse_ident: "parse_ident n p = Some (s, r) \<Longrightarrow> suffix r p"
  using suffix_trans [OF suffix_dropWhile suffix_tl] by (auto simp: parse_ident_def Let_def split: if_split_asm)

lemma suffix_length: "suffix a b \<Longrightarrow> length a \<le> length b"
  by (auto simp: suffix_def)

lemma tl_shorter: "peek p \<noteq> NUL \<Longrightarrow> suffix (tl p) p \<and> length (tl p) < length p"
  by (cases p) (auto simp: peek_def suffix_ConsI)

section \<open>Every text is parsed\<close>

text \<open>No run of identifier characters is too long for the identifier buffer.\<close>

definition short_idents :: "string \<Rightarrow> bool" where
  "short_idents p \<longleftrightarrow> list_all (\<lambda>q. length (takeWhile ident_char q) < 128) (suffixes p)"

lemma short_suffix: "short_idents p \<Longrightarrow> suffix q p \<Longrightarrow> short_idents q"
  by (auto simp: short_idents_def list_all_iff intro: suffix_trans)

lemma parse_ident_short:
  assumes "short_idents p" and "is_ident_first (peek p)"
  shows "\<exists>s r. parse_ident 128 p = Some (s, r) \<and> suffix r p"
proof -
  have "p \<noteq> []" using assms(2) by (auto simp: peek_def NUL_def is_ident_first_def code_def)
  then have "takeWhile ident_char p = hd p # takeWhile ident_char (tl p)"
    using assms(2) by (cases p) (auto simp: peek_def ident_char_def)
  moreover have "length (takeWhile ident_char p) < 128"
    using assms(1) by (simp add: short_idents_def list_all_iff)
  ultimately have "\<exists>s r. parse_ident 128 p = Some (s, r)" by (simp add: parse_ident_def Let_def)
  then show ?thesis using suffix_parse_ident by blast
qed

lemma kinds_not_NUL:
  "is_ident_first NUL = False" "isdigit NUL = False" "NUL \<noteq> CHR 0x22" "NUL \<noteq> CHR ''{''" "NUL \<noteq> CHR ''['' "
  "NUL \<noteq> CHR ''}''" "NUL \<noteq> CHR '']''" "NUL \<noteq> CHR '',''" "NUL \<noteq> CHR '':''"
  by (simp_all add: NUL_def is_ident_first_def isdigit_def code_def)

text \<open>
  The value case with the loops of one level less, and the loops with the values of one level less. An error leaves
  the text at the start of the value.
\<close>

definition value_ok :: "string \<Rightarrow> (json \<times> string) option \<Rightarrow> bool" where
  "value_ok p x \<longleftrightarrow> (\<exists>v r. x = Some (v, r) \<and> suffix r p \<and> (json_is_error v \<longrightarrow> skip_spaces r = skip_spaces p))"

definition loop_ok :: "string \<Rightarrow> (string + 'a \<times> string) option \<Rightarrow> bool" where
  "loop_ok p x \<longleftrightarrow> (\<exists>y. x = Some y \<and> (\<forall>a r. y = Inr (a, r) \<longrightarrow> suffix r p))"

lemma skip_spaces_Nil [simp]: "skip_spaces [] = []"
  by (simp add: skip_spaces.simps)

lemma skip_spaces_Cons:
  "skip_spaces (c # p) =
     (if isspace c then skip_spaces p
      else if c = CHR ''/'' \<and> peek p = CHR ''/'' then skip_spaces (dropWhile (\<lambda>c. c \<noteq> CHR 0x0A) (tl p))
      else if c = CHR ''/'' \<and> peek p = CHR ''*'' then skip_spaces (skip_comment (tl p))
      else c # p)"
  by (subst skip_spaces.simps) simp

lemma skip_spaces_idem: "skip_spaces (skip_spaces p) = skip_spaces p"
proof (induction p rule: skip_spaces.induct)
  case (1 p)
  then show ?case by (cases p) (auto simp: skip_spaces_Cons)
qed

lemma value_total:
  assumes "\<And>p. short_idents p \<Longrightarrow> 2 * length p + 3 \<le> n \<Longrightarrow> loop_ok p (parse_object n [] p)"
    and "\<And>p. short_idents p \<Longrightarrow> 2 * length p + 3 \<le> n \<Longrightarrow> loop_ok p (parse_array n [] p)"
    and "short_idents p" and "2 * length p + 1 \<le> n"
  shows "value_ok p (parse_value2 (Suc n) p)"
proof -
  define q where "q = skip_spaces p"
  have q: "suffix q p" "short_idents q" "skip_spaces q = q"
    using suffix_skip_spaces [of p] short_suffix [OF assms(3)] by (simp_all add: q_def skip_spaces_idem)
  consider "q = []" | "isdigit (peek q)" | "peek q = CHR 0x22" | "peek q = CHR ''{''" | "peek q = CHR ''[''"
    | "is_ident_first (peek q)" | "q \<noteq> [] \<and> \<not> isdigit (peek q) \<and> peek q \<noteq> CHR 0x22 \<and> peek q \<noteq> CHR ''{'' \<and> peek q \<noteq> CHR ''['' \<and> \<not> is_ident_first (peek q)"
    by blast
  then show ?thesis
  proof cases
    case 1
    then show ?thesis by (simp add: value_ok_def q_def [symmetric])
  next
    case 2
    have "q \<noteq> []" using 2 by (auto simp: peek_def kinds_not_NUL)
    then show ?thesis using 2 suffix_strtol [of q 0] q(1)
      by (auto simp: value_ok_def q_def [symmetric] Let_def json_is_error_def split: prod.split intro: suffix_trans)
  next
    case 3
    then have "q \<noteq> []" "\<not> isdigit (peek q)" by (auto simp: peek_def kinds_not_NUL isdigit_def code_def)
    then show ?thesis using 3 q
      by (cases "parse_string q") (auto simp: value_ok_def q_def [symmetric] Let_def json_is_error_def intro: suffix_trans dest: suffix_parse_string)
  next
    case 4
    then have "q \<noteq> []" "peek q \<noteq> NUL" by (auto simp: peek_def NUL_def)
    then have t: "suffix (tl q) q" "length (tl q) < length q" using tl_shorter by blast+
    then have "loop_ok (tl q) (parse_object n [] (tl q))"
      using assms(4) suffix_length [OF q(1)] short_suffix [OF q(2) t(1)] by (intro assms(1)) simp_all
    then show ?thesis using 4 q suffix_trans [OF t(1) q(1)] \<open>q \<noteq> []\<close>
      by (auto simp: value_ok_def loop_ok_def q_def [symmetric] Let_def json_is_error_def isdigit_def code_def split: sum.split intro: suffix_trans)
  next
    case 5
    then have "q \<noteq> []" "peek q \<noteq> NUL" by (auto simp: peek_def NUL_def)
    then have t: "suffix (tl q) q" "length (tl q) < length q" using tl_shorter by blast+
    then have "loop_ok (tl q) (parse_array n [] (tl q))"
      using assms(4) suffix_length [OF q(1)] short_suffix [OF q(2) t(1)] by (intro assms(2)) simp_all
    then show ?thesis using 5 q suffix_trans [OF t(1) q(1)] \<open>q \<noteq> []\<close>
      by (auto simp: value_ok_def loop_ok_def q_def [symmetric] Let_def json_is_error_def isdigit_def code_def split: sum.split intro: suffix_trans)
  next
    case 6
    then have k: "q \<noteq> []" "\<not> isdigit (peek q)" "peek q \<noteq> CHR 0x22" "peek q \<noteq> CHR ''{''" "peek q \<noteq> CHR ''[''"
      by (auto simp: peek_def NUL_def isdigit_def code_def is_ident_first_def)
    obtain s r where "parse_ident 128 q = Some (s, r)" "suffix r q" using parse_ident_short [OF q(2) 6] by blast
    then show ?thesis using 6 k q
      by (auto simp: value_ok_def q_def [symmetric] Let_def json_is_error_def intro: suffix_trans)
  next
    case 7
    then show ?thesis by (simp add: value_ok_def q_def [symmetric] Let_def)
  qed
qed

lemma peek_Nil [simp]: "peek [] = NUL"
  by (simp add: peek_def)

lemma tl_le: "2 * length p + 2 \<le> n \<Longrightarrow> suffix q p \<Longrightarrow> peek q \<noteq> NUL \<Longrightarrow> 2 * length (tl q) + 4 \<le> n"
  using tl_shorter [of q] suffix_length [of q p] by simp

lemma array_total:
  assumes "\<And>p. short_idents p \<Longrightarrow> 2 * length p + 2 \<le> n \<Longrightarrow> value_ok p (parse_value2 n p)"
    and "\<And>a p. short_idents p \<Longrightarrow> 2 * length p + 3 \<le> n \<Longrightarrow> loop_ok p (parse_array n a p)"
    and "short_idents p" and "2 * length p + 2 \<le> n"
  shows "loop_ok p (parse_array (Suc n) a p)"
proof -
  define q where "q = skip_spaces p"
  have q: "suffix q p" "short_idents q" "skip_spaces q = q"
    using suffix_skip_spaces [of p] short_suffix [OF assms(3)] by (simp_all add: q_def skip_spaces_idem)
  show ?thesis
  proof (cases "peek q = CHR '']''")
    case True
    then show ?thesis using suffix_trans [OF suffix_tl q(1)] by (auto simp: loop_ok_def q_def [symmetric] Let_def)
  next
    case False
    obtain v r where v: "parse_value2 n q = Some (v, r)" "suffix r q" "json_is_error v \<longrightarrow> skip_spaces r = q"
      using assms(1) [OF q(2)] suffix_length [OF q(1)] assms(4) q(3) by (auto simp: value_ok_def)
    define t where "t = skip_spaces r"
    have t: "suffix t q" "short_idents t"
      using suffix_trans [OF suffix_skip_spaces v(2)] short_suffix [OF q(2)] by (simp_all add: t_def)
    have comma: "loop_ok p (parse_array n a' (tl t))" if "peek t = CHR '',''" for a'
    proof -
      have "peek t \<noteq> NUL" using that by (simp add: NUL_def)
      then have "2 * length (tl t) + 3 \<le> n" using tl_le [OF assms(4) suffix_trans [OF t(1) q(1)]] by simp
      then have "loop_ok (tl t) (parse_array n a' (tl t))" using assms(2) short_suffix [OF t(2) suffix_tl] by blast
      then show ?thesis using suffix_trans [OF suffix_tl suffix_trans [OF t(1) q(1)]] by (auto simp: loop_ok_def intro: suffix_trans)
    qed
    have close: "loop_ok p (parse_array n a' t)" if "peek t = CHR '']''" for a'
    proof -
      have "t \<noteq> q" using that False by auto
      then have "length t < length q" using t(1) by (metis suffix_def self_append_conv2 length_append length_greater_0_conv less_add_same_cancel2)
      then have "2 * length t + 3 \<le> n" using suffix_length [OF q(1)] assms(4) by simp
      then have "loop_ok t (parse_array n a' t)" using assms(2) t(2) by blast
      then show ?thesis using suffix_trans [OF t(1) q(1)] by (auto simp: loop_ok_def intro: suffix_trans)
    qed
    show ?thesis using False v comma close by (simp add: q_def [symmetric] t_def [symmetric] Let_def) (simp add: loop_ok_def)
  qed
qed

lemma object_total:
  assumes "\<And>p. short_idents p \<Longrightarrow> 2 * length p + 2 \<le> n \<Longrightarrow> value_ok p (parse_value2 n p)"
    and "\<And>a p. short_idents p \<Longrightarrow> 2 * length p + 3 \<le> n \<Longrightarrow> loop_ok p (parse_object n a p)"
    and "short_idents p" and "2 * length p + 2 \<le> n"
  shows "loop_ok p (parse_object (Suc n) a p)"
proof -
  define q where "q = skip_spaces p"
  have q: "suffix q p" "short_idents q" "skip_spaces q = q"
    using suffix_skip_spaces [of p] short_suffix [OF assms(3)] by (simp_all add: q_def skip_spaces_idem)
  define key where "key = (if peek q = CHR 0x22 then parse_string q
     else if is_ident_first (peek q)
     then case parse_ident 128 q of None \<Rightarrow> Inl ''Invalid property name'' | Some r \<Rightarrow> Inr r
     else Inl ''Invalid property name'')"
  show ?thesis
  proof (cases "peek q = CHR ''}''")
    case True
    then show ?thesis using suffix_trans [OF suffix_tl q(1)] by (auto simp: loop_ok_def q_def [symmetric] Let_def)
  next
    case False
    have step: "parse_object (Suc n) a p = (case key of
        Inl e \<Rightarrow> Some (Inl e)
      | Inr (tag, p) \<Rightarrow>
          if tag = [] then Some (Inl ''Invalid property name'')
          else let p = skip_spaces p in
            if peek p \<noteq> CHR '':'' then Some (Inl (CHR 0x27 # '':'' @ CHR 0x27 # '' expected''))
            else do { (val1, p) \<leftarrow> parse_value2 n (tl p);
                      let obj = set_prop tag val1 a;
                      let p = skip_spaces p;
                      if peek p = CHR '','' then parse_object n obj (tl p)
                      else if peek p \<noteq> CHR ''}''
                      then Some (Inl (''expecting '' @ CHR 0x27 # '','' @ CHR 0x27 # '' or '' @ CHR 0x27 # ''}'' @ [CHR 0x27]))
                      else parse_object n obj p })"
      using False unfolding key_def parse_object.simps q_def [symmetric] by (simp only: Let_def if_False)
    show ?thesis
    proof (cases key)
      case (Inl e)
      then show ?thesis unfolding step by (simp add: loop_ok_def)
    next
      case (Inr x)
      obtain tag r where x: "x = (tag, r)" by (cases x)
      have r: "suffix r q"
        using Inr x by (auto simp: key_def split: if_split_asm option.split_asm dest: suffix_parse_string suffix_parse_ident)
      define r1 where "r1 = skip_spaces r"
      have r1: "suffix r1 p" using suffix_trans [OF suffix_skip_spaces suffix_trans [OF r q(1)]] by (simp add: r1_def)
      show ?thesis
      proof (cases "tag = [] \<or> peek r1 \<noteq> CHR '':''")
        case True
        then show ?thesis unfolding step Inr x by (auto simp: loop_ok_def r1_def [symmetric] Let_def)
      next
        case c: False
        then have "peek r1 \<noteq> NUL" by (simp add: NUL_def)
        then have l: "2 * length (tl r1) + 4 \<le> n" using tl_le [OF assms(4) r1] by blast
        have s: "short_idents (tl r1)" using short_suffix [OF assms(3)] suffix_trans [OF suffix_tl r1] by blast
        obtain v w where v: "parse_value2 n (tl r1) = Some (v, w)" "suffix w (tl r1)"
          using assms(1) [OF s] l by (auto simp: value_ok_def)
        define t where "t = skip_spaces w"
        have t: "suffix t (tl r1)" using suffix_trans [OF suffix_skip_spaces v(2)] by (simp add: t_def)
        have "loop_ok p (parse_object n a' u)" if "suffix u t" for a' u
        proof -
          have u: "suffix u (tl r1)" "suffix u p"
            using that t r1 suffix_tl by (blast intro: suffix_trans)+
          then have "2 * length u + 3 \<le> n" using l suffix_length by fastforce
          then have "loop_ok u (parse_object n a' u)" using assms(2) short_suffix [OF assms(3) u(2)] by blast
          then show ?thesis using u(2) by (auto simp: loop_ok_def intro: suffix_trans)
        qed
        from this [OF suffix_tl] this [OF suffix_order.refl] show ?thesis
          using c v(1) unfolding step Inr x
          by (simp add: r1_def [symmetric] t_def [symmetric] Let_def) (simp add: loop_ok_def)
      qed
    qed
  qed
qed

lemma parse_total:
  "(\<forall>p. short_idents p \<longrightarrow> 2 * length p + 2 \<le> n \<longrightarrow> value_ok p (parse_value2 n p)) \<and>
   (\<forall>a p. short_idents p \<longrightarrow> 2 * length p + 3 \<le> n \<longrightarrow> loop_ok p (parse_object n a p)) \<and>
   (\<forall>a p. short_idents p \<longrightarrow> 2 * length p + 3 \<le> n \<longrightarrow> loop_ok p (parse_array n a p))"
proof (induction n)
  case (Suc n)
  have "value_ok p (parse_value2 (Suc n) p)" if "short_idents p" "2 * length p + 2 \<le> Suc n" for p
    using Suc that by (intro value_total) auto
  moreover have "loop_ok p (parse_object (Suc n) a p)" if "short_idents p" "2 * length p + 3 \<le> Suc n" for a p
    using Suc that by (intro object_total) auto
  moreover have "loop_ok p (parse_array (Suc n) a p)" if "short_idents p" "2 * length p + 3 \<le> Suc n" for a p
    using Suc that by (intro array_total) auto
  ultimately show ?case by blast
qed simp

end
