(* ===== verification/Json_Grammar.thy ===== *)
theory Json_Grammar
  imports Json_Props
begin

text \<open>
  A grammar of the texts the parser accepts as a value, and the proof that the parser returns that value.
\<close>

section \<open>The grammar\<close>

text \<open>White space and comments.\<close>

inductive blank :: "string \<Rightarrow> bool" where
  blank_Nil: "blank []"
| blank_space: "isspace c \<Longrightarrow> blank b \<Longrightarrow> blank (c # b)"
| blank_line: "CHR 0x0A \<notin> set t \<Longrightarrow> blank b \<Longrightarrow> blank (''//'' @ t @ CHR 0x0A # b)"
| blank_comment: "\<not> sublist ''*/'' t \<Longrightarrow> blank b \<Longrightarrow> blank (''/*'' @ t @ ''*/'' @ b)"

text \<open>The characters of a string and what stands for them between the quotes.\<close>

inductive chars_text :: "string \<Rightarrow> string \<Rightarrow> bool" where
  chars_Nil: "chars_text [] []"
| chars_plain: "c \<noteq> CHR 0x0A \<Longrightarrow> c \<noteq> CHR 0x22 \<Longrightarrow> c \<noteq> CHR 0x5C \<Longrightarrow> chars_text s t \<Longrightarrow> chars_text (c # s) (c # t)"
| chars_esc: "c = CHR 0x27 \<or> c = CHR 0x22 \<or> c = CHR 0x5C \<Longrightarrow> chars_text s t \<Longrightarrow> chars_text (c # s) (CHR 0x5C # c # t)"
| chars_n: "chars_text s t \<Longrightarrow> chars_text (CHR 0x0A # s) (CHR 0x5C # CHR ''n'' # t)"
| chars_r: "chars_text s t \<Longrightarrow> chars_text (CHR 0x0D # s) (CHR 0x5C # CHR ''r'' # t)"
| chars_t: "chars_text s t \<Longrightarrow> chars_text (CHR 0x09 # s) (CHR 0x5C # CHR ''t'' # t)"
| chars_x: "from_hex h0 = Some a \<Longrightarrow> from_hex h1 = Some b \<Longrightarrow> chars_text s t \<Longrightarrow>
    chars_text (char_of (16 * a + b) # s) (CHR 0x5C # CHR ''x'' # h0 # h1 # t)"

inductive str_text :: "string \<Rightarrow> string \<Rightarrow> bool" where
  str_textI: "chars_text s t \<Longrightarrow> NUL \<notin> set s \<Longrightarrow> length s \<le> 4095 \<Longrightarrow> str_text s (CHR 0x22 # t @ [CHR 0x22])"

inductive key_text :: "string \<Rightarrow> string \<Rightarrow> bool" where
  key_str: "str_text k t \<Longrightarrow> k \<noteq> [] \<Longrightarrow> key_text k t"
| key_ident: "is_ident_first c \<Longrightarrow> list_all ident_char k \<Longrightarrow> length k \<le> 126 \<Longrightarrow> key_text (c # k) (c # k)"

inductive json_text :: "json \<Rightarrow> string \<Rightarrow> bool"
  and elems_text :: "json list \<Rightarrow> string \<Rightarrow> bool"
  and members_text :: "(string \<times> json) list \<Rightarrow> string \<Rightarrow> bool" where
  text_str: "str_text s t \<Longrightarrow> json_text (JSON_STR s) t"
| text_dec: "n < 2 ^ 31 \<Longrightarrow> json_text (JSON_INT (int n)) (dec n)"
| text_hex: "n < 2 ^ 31 \<Longrightarrow> n < 16 ^ Suc k \<Longrightarrow> json_text (JSON_INT (int n)) (''0x'' @ hex_digits (Suc k) n)"
| text_null: "json_text JSON_NULL ''null''"
| text_true: "json_text (JSON_BOOL True) ''true''"
| text_false: "json_text (JSON_BOOL False) ''false''"
| text_array: "elems_text vs t \<Longrightarrow> json_text (JSON_ARRAY vs) (CHR ''['' # t)"
| text_object: "members_text kvs t \<Longrightarrow> json_text (JSON_OBJ (fold (\<lambda>(k, v). set_prop k v) kvs [])) (CHR ''{'' # t)"
| elems_Nil: "blank b \<Longrightarrow> elems_text [] (b @ '']'')"
| elems_last: "blank b \<Longrightarrow> json_text v t \<Longrightarrow> blank b' \<Longrightarrow> elems_text [v] (b @ t @ b' @ '']'')"
| elems_Cons: "blank b \<Longrightarrow> json_text v t \<Longrightarrow> blank b' \<Longrightarrow> elems_text vs t' \<Longrightarrow>
    elems_text (v # vs) (b @ t @ b' @ '','' @ t')"
| members_Nil: "blank b \<Longrightarrow> members_text [] (b @ ''}'')"
| members_last: "blank b0 \<Longrightarrow> key_text k tk \<Longrightarrow> blank b1 \<Longrightarrow> blank b2 \<Longrightarrow> json_text v t \<Longrightarrow> blank b3 \<Longrightarrow>
    members_text [(k, v)] (b0 @ tk @ b1 @ '':'' @ b2 @ t @ b3 @ ''}'')"
| members_Cons: "blank b0 \<Longrightarrow> key_text k tk \<Longrightarrow> blank b1 \<Longrightarrow> blank b2 \<Longrightarrow> json_text v t \<Longrightarrow> blank b3 \<Longrightarrow>
    members_text kvs t' \<Longrightarrow> members_text ((k, v) # kvs) (b0 @ tk @ b1 @ '':'' @ b2 @ t @ b3 @ '','' @ t')"

section \<open>Tokens\<close>

text \<open>A text that does not start with white space or a comment.\<close>

definition tok :: "string \<Rightarrow> bool" where
  "tok r \<longleftrightarrow> \<not> isspace (peek r) \<and> peek r \<noteq> CHR ''/''"

lemma skip_spaces_tok: "tok r \<Longrightarrow> skip_spaces r = r"
  by (cases r) (auto simp: tok_def peek_def skip_spaces_Cons)

lemma isspace_slash: "\<not> isspace (CHR ''/'')" "isspace (CHR 0x0A)"
  by (simp_all add: isspace_def code_def)

lemma skip_comment_close: "\<not> sublist ''*/'' t \<Longrightarrow> skip_comment (t @ ''*/'' @ r) = r"
proof (induction t)
  case Nil
  then show ?case by (simp add: peek_def)
next
  case (Cons c t)
  have "\<not> (c = CHR ''*'' \<and> peek (t @ ''*/'' @ r) = CHR ''/'')"
  proof
    assume "c = CHR ''*'' \<and> peek (t @ ''*/'' @ r) = CHR ''/''"
    then obtain u where "c # t = [] @ ''*/'' @ u" by (cases t) (auto simp: peek_def)
    then have "sublist ''*/'' (c # t)" unfolding sublist_def by blast
    then show False using Cons(2) by blast
  qed
  moreover have "\<not> sublist ''*/'' t" using Cons(2) by (auto simp: sublist_Cons_right)
  ultimately show ?case using Cons(1) by auto
qed

lemma skip_blank:
  assumes "blank b" and "tok r"
  shows "skip_spaces (b @ r) = r"
  using assms(1)
proof induction
  case blank_Nil
  then show ?case using skip_spaces_tok [OF assms(2)] by simp
next
  case (blank_space c b)
  then show ?case by (simp add: skip_spaces_Cons)
next
  case (blank_line t b)
  then show ?case using takeWhile_until(2) [of "CHR 0x0A" t "b @ r"] 
    by (simp add: skip_spaces_Cons peek_def isspace_slash)
next
  case (blank_comment t b)
  then show ?case using skip_comment_close [of t "b @ r"] by (simp add: skip_spaces_Cons peek_def isspace_slash)
qed

lemma parse_chars_text:
  assumes "chars_text s t"
  shows "length s \<le> n \<Longrightarrow> parse_chars n (t @ CHR 0x22 # r) = Inr (s, r)"
  using assms by (induction arbitrary: n) (simp_all add: parse_chars.simps(2))

lemma parse_str_text: "str_text s t \<Longrightarrow> parse_string (t @ r) = Inr (s, r)"
  by (auto simp: str_text.simps parse_string_def parse_chars_text cstring_id)

text \<open>What may come after a number or an identifier.\<close>

definition follow :: "string \<Rightarrow> bool" where "follow r \<longleftrightarrow> \<not> ident_char (peek r)"

lemma follow_no_digit: "follow r \<Longrightarrow> \<not> is_digit_in 16 (peek r) \<and> \<not> is_digit_in 10 (peek r) \<and> \<not> is_digit_in 8 (peek r)"
  by (auto simp: follow_def ident_char_def is_ident_first_def isdigit_def is_digit_in_def digit_of_def split: if_split_asm)

lemma follow_no_x: "follow r \<Longrightarrow> peek r \<noteq> CHR ''x'' \<and> peek r \<noteq> CHR ''X''"
  by (auto simp: follow_def ident_char_def is_ident_first_def code_def)

lemma follow_blank:
  assumes "blank b" and "follow r"
  shows "follow (b @ r)"
  using assms(1)
proof cases
  case (blank_space c b)
  then show ?thesis by (auto simp: follow_def peek_def ident_char_def is_ident_first_def isdigit_def isspace_def code_def)
qed (use assms(2) in \<open>auto simp: follow_def peek_def ident_char_def is_ident_first_def isdigit_def code_def\<close>)

lemma dec_hexd: "dec n = (if n < 10 then [] else dec (n div 10)) @ [hexd (n mod 10)]"
  by (subst dec.simps) (simp add: hexd_def)

lemma scan_dec: "scan_digits 10 acc (dec n @ r) = scan_digits 10 (acc * 10 ^ length (dec n) + n) r"
proof (induction n arbitrary: acc r rule: dec.induct)
  case (1 n)
  have d: "digit_of (hexd (n mod 10)) = Some (n mod 10)" by (simp add: digit_of_hexd)
  show ?case
  proof (cases "n < 10")
    case True
    then show ?thesis using d by (subst (1 2) dec_hexd) simp
  next
    case False
    have e: "dec n = dec (n div 10) @ [hexd (n mod 10)]" using False by (subst dec_hexd) simp
    have "scan_digits 10 acc (dec n @ r) = scan_digits 10 ((acc * 10 ^ length (dec (n div 10)) + n div 10) * 10 + n mod 10) r"
      using 1 [OF False, of acc "hexd (n mod 10) # r"] d by (simp add: e)
    then show ?thesis by (simp add: e algebra_simps)
  qed
qed

lemma dec_head:
  obtains d u where "dec n = hexd d # u" "d < 10" "d = 0 \<longleftrightarrow> n = 0" "n = 0 \<Longrightarrow> u = []"
proof -
  have "\<exists>d u. dec n = hexd d # u \<and> d < 10 \<and> (d = 0 \<longleftrightarrow> n = 0) \<and> (n = 0 \<longrightarrow> u = [])"
  proof (induction n rule: dec.induct)
    case (1 n)
    show ?case
    proof (cases "n < 10")
      case True
      then show ?thesis by (subst dec_hexd) auto
    next
      case False
      then obtain d u where "dec (n div 10) = hexd d # u" "d < 10" "d = 0 \<longleftrightarrow> n div 10 = 0" using 1 [OF False] by metis
      moreover have "n div 10 \<noteq> 0" using False by (simp add: div_eq_0_iff)
      ultimately show ?thesis using False by (subst dec_hexd) auto
    qed
  qed
  then show thesis using that by blast
qed

lemma hexd_isdigit: "d < 10 \<Longrightarrow> isdigit (hexd d)"
  by (simp add: isdigit_def code_hexd)

lemma code_inject: "code c = code d \<longleftrightarrow> c = d"
  by (simp add: code_def)

lemma hexd_zero: "d < 10 \<Longrightarrow> hexd d = CHR ''0'' \<longleftrightarrow> d = 0"
proof -
  assume d: "d < 10"
  have "hexd d = CHR ''0'' \<longleftrightarrow> code (hexd d) = code (CHR ''0'')" by (simp only: code_inject)
  also have "\<dots> \<longleftrightarrow> d = 0" using code_hexd [of d] d by (simp add: code_def [of "CHR ''0''"])
  finally show ?thesis .
qed

lemma scan_stop: "\<not> is_digit_in b (peek r) \<Longrightarrow> scan_digits b acc r = (acc, r)"
  by (cases r) (auto simp: is_digit_in_def peek_def split: option.splits)

lemma strtol_dec:
  assumes "n < 2 ^ 31" and "follow r"
  shows "strtol (dec n @ r) 0 = (int n, r)"
proof -
  obtain d u where d: "dec n = hexd d # u" "d < 10" "d = 0 \<longleftrightarrow> n = 0" "n = 0 \<Longrightarrow> u = []" using dec_head by blast
  have k: "\<not> isspace (hexd d)" "hexd d \<noteq> CHR ''-''" "hexd d \<noteq> CHR ''+''" using hexd_kind [of d] d(2) by simp_all
  have w: "dropWhile isspace (dec n @ r) = dec n @ r" using d(1) k(1) by simp
  have p: "peek (dec n @ r) = hexd d" by (simp add: d(1) peek_def)
  have "strto 0 (dec n @ r) = Some (False, n, r)"
  proof (cases "n = 0")
    case True
    then have e: "dec n = [CHR ''0'']" using d hexd_zero [of 0] by simp
    have "is_digit_in 8 (CHR ''0'')" by (simp add: is_digit_in_def digit_of_def code_def)
    then show ?thesis using w e follow_no_x [OF assms(2)] follow_no_digit [OF assms(2)] True
      by (simp add: strto_def peek_def [of "CHR ''0'' # r"] scan_stop digit_of_def code_def isspace_def)
  next
    case False
    have nz: "hexd d \<noteq> CHR ''0''" using hexd_zero [OF d(2)] d(3) False by simp
    have "is_digit_in 10 (hexd d)" using d(2) by (simp add: is_digit_in_def digit_of_hexd)
    then show ?thesis
      unfolding strto_def Let_def w p using k nz scan_dec [of 0 n r] scan_stop [of 10 r n] follow_no_digit [OF assms(2)] by (simp add: p)
  qed
  then show ?thesis using assms(1) by (simp add: strtol_def)
qed

lemma strtol_hex:
  assumes "n < 2 ^ 31" and "n < 16 ^ Suc k" and "follow r"
  shows "strtol (''0x'' @ hex_digits (Suc k) n @ r) 0 = (int n, r)"
proof -
  let ?h = "hexd (n div 16 ^ k mod 16)"
  have e: "hex_digits (Suc k) n @ r = ?h # hex_digits k n @ r" by (simp add: hex_digits_Cons del: hex_digits.simps)
  have "is_digit_in 16 ?h" by (simp add: hexd_kind)
  moreover have "scan_digits 16 0 (hex_digits (Suc k) n @ r) = (n, r)"
    using scan_hex_digits [of r 0 "Suc k" n] follow_no_digit [OF assms(3)] assms(2) by simp
  ultimately have "strto 0 (''0x'' @ hex_digits (Suc k) n @ r) = Some (False, n, r)"
    unfolding e by (simp add: strto_def peek_def isspace_def code_def)
  then show ?thesis using assms(1) by (simp add: strtol_def)
qed

section \<open>Values\<close>

text \<open>The start of a text of a value: neither white space nor a closing bracket.\<close>

lemma key_head: "str_text k t \<Longrightarrow> \<exists>u. t = CHR 0x22 # u"
  by (auto elim: str_text.cases)

lemma text_head:
  assumes "json_text v t"
  shows "\<exists>c u. t = c # u \<and> \<not> isspace c \<and> c \<noteq> CHR ''/'' \<and> c \<noteq> CHR '']''"
  using assms
proof cases
  case (text_dec n)
  obtain d u where d: "dec n = hexd d # u" "d < 10" using dec_head by blast
  then have "isdigit (hexd d)" by (simp add: hexd_isdigit)
  then have "hexd d \<noteq> CHR ''/''" "hexd d \<noteq> CHR '']''" by (auto simp: isdigit_def code_def)
  then show ?thesis using d hexd_kind [of d] text_dec by simp
qed (auto dest: key_head simp: isspace_def code_def)

lemma parse_ident_id:
  assumes "is_ident_first c" and "list_all ident_char k" and "length k \<le> 126" and "follow r"
  shows "parse_ident 128 (c # k @ r) = Some (c # k, r)"
proof -
  have "takeWhile ident_char (k @ r) = k" "dropWhile ident_char (k @ r) = r"
    using assms(2,4) by (induction k) (auto simp: follow_def peek_def NUL_def split: list.splits) 
  then show ?thesis using assms(3) by (simp add: parse_ident_def)
qed

lemma blank_value:
  assumes "blank b" and "json_text v t"
  shows "skip_spaces (b @ t @ r) = t @ r"
  using text_head [OF assms(2)] by (intro skip_blank [OF assms(1)]) (auto simp: tok_def peek_def)

lemma parse_keyword:
  assumes "blank b" and "follow r" and "is_ident_first c" and "list_all ident_char k" and "length k \<le> 126"
  shows "parse_value2 (Suc n) (b @ (c # k) @ r) = Some
    (if c # k = ''null'' then (JSON_NULL, r)
     else if c # k = ''true'' then (JSON_BOOL True, r)
     else if c # k = ''false'' then (JSON_BOOL False, r)
     else (JSON_EXCEPTION (''unknown identifier: '' @ [CHR 0x27] @ (c # k) @ [CHR 0x27]), b @ (c # k) @ r))"
proof -
  have "\<not> isspace c" "c \<noteq> CHR ''/''" and k: "\<not> isdigit c" "c \<noteq> CHR 0x22" "c \<noteq> CHR ''{''" "c \<noteq> CHR ''[''"
    using assms(3) by (auto simp: is_ident_first_def isspace_def isdigit_def code_def)
  then have "skip_spaces (b @ c # k @ r) = c # k @ r" by (intro skip_blank [OF assms(1)]) (simp add: tok_def peek_def)
  then show ?thesis using assms(3) k parse_ident_id [OF assms(3-5,2)] by (simp add: Let_def peek_def)
qed

text \<open>The three statements of the induction.\<close>

definition reads_value :: "json \<Rightarrow> string \<Rightarrow> bool" where
  "reads_value v t \<longleftrightarrow> (\<forall>n b r. blank b \<longrightarrow> follow r \<longrightarrow> 2 * length (b @ t @ r) + 2 \<le> n \<longrightarrow>
     parse_value2 n (b @ t @ r) = Some (v, r))"

definition reads_elems :: "json list \<Rightarrow> string \<Rightarrow> bool" where
  "reads_elems vs t \<longleftrightarrow> (\<forall>n a r. 2 * length (t @ r) + 3 \<le> n \<longrightarrow> parse_array n a (t @ r) = Some (Inr (a @ vs, r)))"

definition reads_members :: "(string \<times> json) list \<Rightarrow> string \<Rightarrow> bool" where
  "reads_members kvs t \<longleftrightarrow> (\<forall>n obj r. 2 * length (t @ r) + 3 \<le> n \<longrightarrow>
     parse_object n obj (t @ r) = Some (Inr (fold (\<lambda>(k, v). set_prop k v) kvs obj, r)))"

lemma reads_valueI:
  assumes "json_text v t"
    and "\<And>n b r. blank b \<Longrightarrow> follow r \<Longrightarrow> skip_spaces (b @ t @ r) = t @ r \<Longrightarrow> 2 * length (t @ r) + 1 \<le> n \<Longrightarrow>
      parse_value2 (Suc n) (b @ t @ r) = Some (v, r)"
  shows "reads_value v t"
  unfolding reads_value_def
proof (intro allI impI)
  fix n b r assume a: "blank b" "follow r" "2 * length (b @ t @ r) + 2 \<le> n"
  then obtain m where "n = Suc m" "2 * length (t @ r) + 1 \<le> m" by (cases n) auto
  then show "parse_value2 n (b @ t @ r) = Some (v, r)" using assms(2) [OF a(1,2) blank_value [OF a(1) assms(1)]] by blast
qed

lemma reads_str: "str_text s t \<Longrightarrow> reads_value (JSON_STR s) t"
proof (rule reads_valueI)
  fix n b r assume s: "str_text s t" and sp: "skip_spaces (b @ t @ r) = t @ r"
  obtain u where "t = CHR 0x22 # u" using key_head [OF s] by blast
  then show "parse_value2 (Suc n) (b @ t @ r) = Some (JSON_STR s, r)"
    using parse_str_text [OF s, of r] sp by (simp add: Let_def peek_def isdigit_def code_def)
qed (rule text_str)

lemma reads_num:
  assumes "json_text (JSON_INT v) t" and "isdigit (hd t)" and "\<And>r. follow r \<Longrightarrow> strtol (t @ r) 0 = (v, r)"
  shows "reads_value (JSON_INT v) t"
proof (rule reads_valueI [OF assms(1)])
  fix n b r assume "follow r" and sp: "skip_spaces (b @ t @ r) = t @ r"
  then show "parse_value2 (Suc n) (b @ t @ r) = Some (JSON_INT v, r)"
    using text_head [OF assms(1)] assms(2,3) by (auto simp: Let_def peek_def)
qed

lemma reads_keyword: "reads_value JSON_NULL ''null''" "reads_value (JSON_BOOL True) ''true''" "reads_value (JSON_BOOL False) ''false''"
proof -
  have k: "list_all ident_char ''ull''" "list_all ident_char ''rue''" "list_all ident_char ''alse''"
    "is_ident_first (CHR ''n'')" "is_ident_first (CHR ''t'')" "is_ident_first (CHR ''f'')"
    by (simp_all add: ident_char_def is_ident_first_def code_def)
  show "reads_value JSON_NULL ''null''"
    using parse_keyword [OF _ _ k(4,1)] by (intro reads_valueI text_null) (simp del: parse_value2.simps)
  show "reads_value (JSON_BOOL True) ''true''"
    using parse_keyword [OF _ _ k(5,2)] by (intro reads_valueI text_true) (simp del: parse_value2.simps)
  show "reads_value (JSON_BOOL False) ''false''"
    using parse_keyword [OF _ _ k(6,3)] by (intro reads_valueI text_false) (simp del: parse_value2.simps)
qed

lemma reads_array:
  assumes "elems_text vs t" and "reads_elems vs t"
  shows "reads_value (JSON_ARRAY vs) (CHR ''['' # t)"
proof (rule reads_valueI [OF text_array [OF assms(1)]])
  fix n b r assume sp: "skip_spaces (b @ (CHR ''['' # t) @ r) = (CHR ''['' # t) @ r" and "2 * length ((CHR ''['' # t) @ r) + 1 \<le> n"
  then have "parse_array n [] (t @ r) = Some (Inr (vs, r))" using assms(2) by (simp add: reads_elems_def)
  then show "parse_value2 (Suc n) (b @ (CHR ''['' # t) @ r) = Some (JSON_ARRAY vs, r)"
    using sp by (simp add: Let_def peek_def isdigit_def code_def)
qed

lemma reads_object:
  assumes "members_text kvs t" and "reads_members kvs t"
  shows "reads_value (JSON_OBJ (fold (\<lambda>(k, v). set_prop k v) kvs [])) (CHR ''{'' # t)"
proof (rule reads_valueI [OF text_object [OF assms(1)]])
  fix n b r assume sp: "skip_spaces (b @ (CHR ''{'' # t) @ r) = (CHR ''{'' # t) @ r" and "2 * length ((CHR ''{'' # t) @ r) + 1 \<le> n"
  then have "parse_object n [] (t @ r) = Some (Inr (fold (\<lambda>(k, v). set_prop k v) kvs [], r))"
    using assms(2) by (simp add: reads_members_def)
  then show "parse_value2 (Suc n) (b @ (CHR ''{'' # t) @ r) = Some (JSON_OBJ (fold (\<lambda>(k, v). set_prop k v) kvs []), r)"
    using sp by (simp add: Let_def peek_def isdigit_def code_def)
qed

text \<open>The end of a list and one round of a loop.\<close>

lemma tok_sep: "tok (CHR '','' # r)" "tok (CHR '']'' # r)" "tok (CHR ''}'' # r)" "tok (CHR '':'' # r)"
  by (simp_all add: tok_def peek_def isspace_def code_def)

lemma follow_sep: "follow (CHR '','' # r)" "follow (CHR '']'' # r)" "follow (CHR ''}'' # r)" "follow (CHR '':'' # r)"
  by (simp_all add: follow_def peek_def ident_char_def is_ident_first_def isdigit_def code_def)

lemma array_close: "blank b \<Longrightarrow> parse_array (Suc n) a (b @ CHR '']'' # r) = Some (Inr (a, r))"
  by (simp add: skip_blank tok_sep Let_def peek_def)

lemma array_elem:
  assumes "blank b" and "json_text v t" and "reads_value v t" and "blank b'"
    and "c = CHR '','' \<or> c = CHR '']''" and "2 * length (t @ b' @ c # r) + 2 \<le> n"
  shows "parse_array (Suc n) a (b @ t @ b' @ c # r) = parse_array n (a @ [v]) (if c = CHR '','' then r else c # r)"
proof -
  have sp: "skip_spaces (b @ t @ b' @ c # r) = t @ b' @ c # r" by (rule blank_value [OF assms(1,2)])
  have pk: "peek (t @ b' @ c # r) \<noteq> CHR '']''" using text_head [OF assms(2)] by (auto simp: peek_def)
  have "follow (b' @ c # r)" using assms(5) by (intro follow_blank [OF assms(4)]) (auto simp: follow_sep)
  then have v: "parse_value2 n (t @ b' @ c # r) = Some (v, b' @ c # r)"
    using assms(3,6) blank_Nil unfolding reads_value_def by (metis append_Nil)
  have "skip_spaces (b' @ c # r) = c # r" using assms(5) by (intro skip_blank [OF assms(4)]) (auto simp: tok_sep)
  then show ?thesis using sp pk v assms(5) by (auto simp: Let_def peek_def [of "c # r"])
qed

lemma object_close: "blank b \<Longrightarrow> parse_object (Suc n) obj (b @ CHR ''}'' # r) = Some (Inr (obj, r))"
  by (simp add: skip_blank tok_sep Let_def peek_def)

lemma key_read:
  assumes "key_text k t" and "blank b" and "blank b'" and p_def: "p = t @ b @ CHR '':'' # r"
  shows "skip_spaces (b' @ p) = p \<and> peek p \<noteq> CHR ''}'' \<and> k \<noteq> [] \<and>
    (if peek p = CHR 0x22 then parse_string p
     else if is_ident_first (peek p)
     then case parse_ident 128 p of None \<Rightarrow> Inl ''Invalid property name'' | Some r \<Rightarrow> Inr r
     else Inl ''Invalid property name'') = Inr (k, b @ CHR '':'' # r)"
  using assms(1)
proof cases
  case key_str
  obtain u where u: "t = CHR 0x22 # u" using key_head [OF key_str(1)] by blast
  have "peek p = CHR 0x22" by (simp add: p_def u peek_def)
  moreover from this have "tok p" by (simp add: tok_def isspace_def code_def)
  ultimately show ?thesis using key_str skip_blank [OF assms(3)] parse_str_text [of k t] by (simp add: p_def)
next
  case (key_ident c k')
  have "peek p = c" by (simp add: p_def key_ident peek_def)
  moreover have "\<not> isspace c" "c \<noteq> CHR ''/''" "c \<noteq> CHR ''}''" "c \<noteq> CHR 0x22"
    using key_ident(3) by (auto simp: is_ident_first_def isspace_def code_def)
  moreover have "parse_ident 128 p = Some (k, b @ CHR '':'' # r)"
    using parse_ident_id [OF key_ident(3-5), of "b @ CHR '':'' # r"] follow_blank [OF assms(2) follow_sep(4)]
    by (simp add: p_def key_ident)
  ultimately show ?thesis using skip_blank [OF assms(3), of p] key_ident by (simp add: tok_def)
qed

lemma object_member:
  assumes "blank b0" and "key_text k tk" and "blank b1" and "blank b2" and "json_text v t" and "reads_value v t"
    and "blank b3" and "c = CHR '','' \<or> c = CHR ''}''" and "2 * length (b2 @ t @ b3 @ c # r) + 2 \<le> n"
  shows "parse_object (Suc n) obj (b0 @ tk @ b1 @ CHR '':'' # b2 @ t @ b3 @ c # r) =
    parse_object n (set_prop k v obj) (if c = CHR '','' then r else c # r)"
proof -
  define w where "w = b2 @ t @ b3 @ c # r"
  define p where "p = tk @ b1 @ CHR '':'' # w"
  have k: "skip_spaces (b0 @ p) = p" "peek p \<noteq> CHR ''}''" "k \<noteq> []"
    "(if peek p = CHR 0x22 then parse_string p
     else if is_ident_first (peek p)
     then case parse_ident 128 p of None \<Rightarrow> Inl ''Invalid property name'' | Some r \<Rightarrow> Inr r
     else Inl ''Invalid property name'') = Inr (k, b1 @ CHR '':'' # w)"
    using key_read [OF assms(2,3,1) p_def] by blast+
  have s1: "skip_spaces (b1 @ CHR '':'' # w) = CHR '':'' # w" by (rule skip_blank [OF assms(3) tok_sep(4)])
  have "follow (b3 @ c # r)" using assms(8) by (intro follow_blank [OF assms(7)]) (auto simp: follow_sep)
  then have v: "parse_value2 n w = Some (v, b3 @ c # r)"
    using assms(4,6,9) unfolding reads_value_def w_def by blast
  have s3: "skip_spaces (b3 @ c # r) = c # r" using assms(8) by (intro skip_blank [OF assms(7)]) (auto simp: tok_sep)
  have "parse_object (Suc n) obj (b0 @ p) = parse_object n (set_prop k v obj) (if c = CHR '','' then r else c # r)"
    unfolding parse_object.simps Let_def k(1,4) using k(2,3) s1 v s3 assms(8)
    by (auto simp: peek_def [of "CHR '':'' # w"] peek_def [of "c # r"])
  then show ?thesis by (simp add: p_def w_def)
qed

lemma grammar_read:
  shows "json_text v t \<Longrightarrow> reads_value v t" and "elems_text vs t' \<Longrightarrow> reads_elems vs t'"
    and "members_text kvs t'' \<Longrightarrow> reads_members kvs t''"
proof (induction rule: json_text_elems_text_members_text.inducts)
  case (text_str s t)
  then show ?case by (rule reads_str)
next
  case (text_dec n)
  obtain d u where "dec n = hexd d # u" "d < 10" using dec_head by blast
  then show ?case using text_dec
    by (intro reads_num json_text_elems_text_members_text.text_dec strtol_dec) (simp_all add: hexd_isdigit)
next
  case (text_hex n k)
  then show ?case using strtol_hex [OF text_hex]
    by (intro reads_num json_text_elems_text_members_text.text_hex) (simp_all add: isdigit_def code_def)
next
  case (text_array vs t)
  then show ?case by (intro reads_array)
next
  case (text_object kvs t)
  then show ?case by (intro reads_object)
next
  case (elems_Nil b)
  have "parse_array n a ((b @ '']'') @ r) = Some (Inr (a, r))" if "2 * length ((b @ '']'') @ r) + 3 \<le> n" for n a r
    using array_close [OF elems_Nil, of _ a r] that by (cases n) (simp_all del: parse_array.simps)
  then show ?case by (simp add: reads_elems_def)
next
  case (elems_last b v t b')
  have "parse_array n a ((b @ t @ b' @ '']'') @ r) = Some (Inr (a @ [v], r))" if "2 * length ((b @ t @ b' @ '']'') @ r) + 3 \<le> n" for n a r
  proof -
    have "2 \<le> n" using that by simp
    then obtain m where m: "n = Suc (Suc m)" by (metis add_2_eq_Suc le_Suc_ex)
    have "parse_array n a (b @ t @ b' @ CHR '']'' # r) = parse_array (Suc m) (a @ [v]) (CHR '']'' # r)"
      unfolding m using that m array_elem [OF elems_last(1,2,4,3), of "CHR '']''" r "Suc m" a] by (simp del: parse_array.simps)
    also have "\<dots> = Some (Inr (a @ [v], r))" using array_close [OF blank_Nil] by simp
    finally show ?thesis by simp
  qed
  then show ?case by (simp add: reads_elems_def)
next
  case (elems_Cons b v t b' vs t')
  have "parse_array n a ((b @ t @ b' @ '','' @ t') @ r) = Some (Inr (a @ v # vs, r))"
    if "2 * length ((b @ t @ b' @ '','' @ t') @ r) + 3 \<le> n" for n a r
  proof -
    have "1 \<le> n" using that by simp
    then obtain m where m: "n = Suc m" by (cases n) simp_all
    have "parse_array n a (b @ t @ b' @ CHR '','' # t' @ r) = parse_array m (a @ [v]) (t' @ r)"
      unfolding m using that m array_elem [OF elems_Cons(1,2,5,3), of "CHR '',''" "t' @ r" m a] by (simp del: parse_array.simps)
    also have "\<dots> = Some (Inr ((a @ [v]) @ vs, r))"
      using elems_Cons(6) that m unfolding reads_elems_def by (auto simp del: parse_array.simps)
    finally show ?thesis by simp
  qed
  then show ?case by (simp add: reads_elems_def)
next
  case (members_Nil b)
  have "parse_object n obj ((b @ ''}'') @ r) = Some (Inr (obj, r))" if "2 * length ((b @ ''}'') @ r) + 3 \<le> n" for n obj r
    using object_close [OF members_Nil, of _ obj r] that by (cases n) (simp_all del: parse_object.simps)
  then show ?case by (simp add: reads_members_def)
next
  case (members_last b0 k tk b1 b2 v t b3)
  have "parse_object n obj ((b0 @ tk @ b1 @ '':'' @ b2 @ t @ b3 @ ''}'') @ r) = Some (Inr (set_prop k v obj, r))"
    if "2 * length ((b0 @ tk @ b1 @ '':'' @ b2 @ t @ b3 @ ''}'') @ r) + 3 \<le> n" for n obj r
  proof -
    have "2 \<le> n" using that by simp
    then obtain m where m: "n = Suc (Suc m)" by (metis add_2_eq_Suc le_Suc_ex)
    have "parse_object n obj (b0 @ tk @ b1 @ CHR '':'' # b2 @ t @ b3 @ CHR ''}'' # r) =
        parse_object (Suc m) (set_prop k v obj) (CHR ''}'' # r)"
      unfolding m using that m object_member [OF members_last(1-5,7,6), of "CHR ''}''" r "Suc m" obj] by (simp del: parse_object.simps)
    also have "\<dots> = Some (Inr (set_prop k v obj, r))" using object_close [OF blank_Nil] by simp
    finally show ?thesis by simp
  qed
  then show ?case by (simp add: reads_members_def)
next
  case (members_Cons b0 k tk b1 b2 v t b3 kvs t')
  have "parse_object n obj ((b0 @ tk @ b1 @ '':'' @ b2 @ t @ b3 @ '','' @ t') @ r) =
      Some (Inr (fold (\<lambda>(k, v). set_prop k v) ((k, v) # kvs) obj, r))"
    if "2 * length ((b0 @ tk @ b1 @ '':'' @ b2 @ t @ b3 @ '','' @ t') @ r) + 3 \<le> n" for n obj r
  proof -
    have "1 \<le> n" using that by simp
    then obtain m where m: "n = Suc m" by (cases n) simp_all
    have "parse_object n obj (b0 @ tk @ b1 @ CHR '':'' # b2 @ t @ b3 @ CHR '','' # t' @ r) =
        parse_object m (set_prop k v obj) (t' @ r)"
      unfolding m using that m object_member [OF members_Cons(1-5,8,6), of "CHR '',''" "t' @ r" m obj] by (simp del: parse_object.simps)
    also have "\<dots> = Some (Inr (fold (\<lambda>(k, v). set_prop k v) kvs (set_prop k v obj), r))"
      using members_Cons(9) that m unfolding reads_members_def by (auto simp del: parse_object.simps)
    finally show ?thesis by simp
  qed
  then show ?case by (simp add: reads_members_def)
qed (simp_all add: reads_keyword)

text \<open>
  C28. The parser returns the value of every text of the grammar: strings with every escape, decimal and hexadecimal
  numbers, the keywords, and arrays and objects of any depth and size (with a trailing comma or not, keys quoted or not,
  a repeated key replacing the earlier value in its place), with white space and both kinds of comments anywhere between the
  tokens; and it returns for every text without an identifier of 128 characters or more.
\<close>
theorem json_parse_grammar:
  "(json_text v t \<longrightarrow> blank b \<longrightarrow> blank b' \<longrightarrow> NUL \<notin> set (b @ t @ b') \<longrightarrow> json_parse_value (b @ t @ b') = Some v) \<and>
   (short_idents (cstring p) \<longrightarrow> json_parse_value p \<noteq> None)"
proof (intro conjI impI)
  assume a: "json_text v t" "blank b" "blank b'" "NUL \<notin> set (b @ t @ b')"
  have c: "cstring (b @ t @ b') = b @ t @ b'" by (rule cstring_id [OF a(4)])
  have f: "follow b'" using follow_blank [OF a(3), of "[]"] by (simp add: follow_def ident_char_def kinds_not_NUL)
  have "parse_value2 (parse_fuel (b @ t @ b')) (b @ t @ b') = Some (v, b')"
    using grammar_read(1) [OF a(1)] a(2) f unfolding reads_value_def parse_fuel_def by simp
  moreover have "\<not> json_is_error v" using a(1) by (cases) (simp_all add: json_is_error_def)
  moreover have "skip_spaces b' = []" using skip_blank [OF a(3), of "[]"] by (simp add: tok_def isspace_def code_def NUL_def)
  ultimately show "json_parse_value (b @ t @ b') = Some v" by (simp add: json_parse_value_def c Let_def)
next
  assume "short_idents (cstring p)"
  then have "value_ok (cstring p) (parse_value2 (parse_fuel (cstring p)) (cstring p))"
    using parse_total [of "parse_fuel (cstring p)"] by (simp add: parse_fuel_def)
  then show "json_parse_value p \<noteq> None" by (auto simp: json_parse_value_def value_ok_def Let_def)
qed

lemma dec_one: "dec 1 = ''1''"
proof -
  have "code (hexd 1) = code (CHR ''1'')" using code_hexd [of 1] by (simp add: code_def [of "CHR ''1''"])
  then have "hexd 1 = CHR ''1''" by (simp only: code_inject)
  then show ?thesis using dec_hexd [of 1] by simp
qed

theorem json_parse_grammar_witness:
  "json_parse_value (''[1, {x : null,},] //'' @ [CHR 0x0A]) =
     Some (JSON_ARRAY [JSON_INT 1, JSON_OBJ [(''x'', JSON_NULL)]]) \<and>
   json_parse_value ''[,'' \<noteq> None"
proof
  have one: "json_text (JSON_INT 1) ''1''" using text_dec [of 1] dec_one by simp
  have sp: "blank '' ''" by (intro blank_space blank_Nil) (simp add: isspace_def code_def)
  have "key_text ''x'' ''x''" by (intro key_ident) (simp_all add: is_ident_first_def code_def)
  then have "members_text [(''x'', JSON_NULL)] ''x : null,}''"
    using members_Cons [OF blank_Nil _ sp sp text_null blank_Nil members_Nil [OF blank_Nil]] by fastforce
  from text_object [OF this] have "json_text (JSON_OBJ [(''x'', JSON_NULL)]) ''{x : null,}''" by simp
  from elems_Cons [OF sp this blank_Nil elems_Nil [OF blank_Nil]]
  have "elems_text [JSON_OBJ [(''x'', JSON_NULL)]] '' {x : null,},]''" by simp
  from text_array [OF elems_Cons [OF blank_Nil one blank_Nil this]]
  have t: "json_text (JSON_ARRAY [JSON_INT 1, JSON_OBJ [(''x'', JSON_NULL)]]) ''[1, {x : null,},]''" by simp
  have b: "blank ('' //'' @ [CHR 0x0A])"
    using blank_line [OF _ blank_Nil, of "[]"] by (auto intro: blank_space simp: isspace_def code_def)
  from json_parse_grammar [of "JSON_ARRAY [JSON_INT 1, JSON_OBJ [(''x'', JSON_NULL)]]" "''[1, {x : null,},]''" "[]"
      "'' //'' @ [CHR 0x0A]", THEN conjunct1] t blank_Nil b
  show "json_parse_value (''[1, {x : null,},] //'' @ [CHR 0x0A]) = Some (JSON_ARRAY [JSON_INT 1, JSON_OBJ [(''x'', JSON_NULL)]])"
    by (simp add: NUL_def)
  show "json_parse_value ''[,'' \<noteq> None"
    using json_parse_grammar [of _ _ _ _ "''[,''", THEN conjunct2]
    by (simp add: short_idents_def cstring_def NUL_def ident_char_def is_ident_first_def isdigit_def code_def)
qed

text \<open>A missing value is taken: the error of the inner value is stored as an element.\<close>

lemma json_missing_value:
  "json_parse_value ''[,]'' = Some (JSON_ARRAY [JSON_EXCEPTION ''unexpected character''])"
proof -
  have "skip_spaces ''[,]'' = ''[,]''" "skip_spaces '',]'' = '',]''" "skip_spaces '']'' = '']''"
    by (simp_all add: skip_spaces_Cons isspace_def code_def)
  then show ?thesis
    by (simp add: json_parse_value_def parse_fuel_def cstring_def NUL_def peek_def isdigit_def is_ident_first_def code_def
        Let_def json_is_error_def numeral_eq_Suc)
qed

end
