(* ===== verification/Json_Types.thy ===== *)
theory Json_Types
  imports Json_Props
begin

text \<open>What the parser promises of the values it returns, whatever the text is.\<close>

definition text_ok :: "string \<Rightarrow> bool" where
  "text_ok s \<longleftrightarrow> NUL \<notin> set s \<and> length s \<le> 4095"

text \<open>The types of the values: strings that fit their buffer, non-negative C integers, objects with distinct names.\<close>

fun json_wf :: "json \<Rightarrow> bool" where
  "json_wf (JSON_STR s) \<longleftrightarrow> text_ok s"
| "json_wf (JSON_INT i) \<longleftrightarrow> 0 \<le> i \<and> i < 2 ^ 31"
| "json_wf (JSON_OBJ kvs) \<longleftrightarrow> distinct (map fst kvs) \<and> (\<forall>(k, v) \<in> set kvs. text_ok k \<and> k \<noteq> [] \<and> json_wf v)"
| "json_wf (JSON_ARRAY vs) \<longleftrightarrow> (\<forall>v \<in> set vs. json_wf v)"
| "json_wf (JSON_BOOL b) \<longleftrightarrow> True"
| "json_wf JSON_NULL \<longleftrightarrow> True"
| "json_wf JSON_UNDEFINED \<longleftrightarrow> False"
| "json_wf (JSON_EXCEPTION e) \<longleftrightarrow> True"

abbreviation "props_wf kvs \<equiv> json_wf (JSON_OBJ kvs)"

lemma set_prop_sub: "set (set_prop k v kvs) \<subseteq> insert (k, v) (set kvs)"
proof (induction kvs)
  case (Cons x kvs)
  then show ?case by (cases x) auto
qed simp

lemma set_prop_names: "fst ` set (set_prop k v kvs) = insert k (fst ` set kvs)"
proof (induction kvs)
  case (Cons x kvs)
  then show ?case by (cases x) auto
qed simp

lemma set_prop_distinct: "distinct (map fst kvs) \<Longrightarrow> distinct (map fst (set_prop k v kvs))"
proof (induction kvs)
  case (Cons x kvs)
  then show ?case using set_prop_names [of k v kvs] by (cases x) auto
qed simp

lemma set_prop_wf: "props_wf kvs \<Longrightarrow> text_ok k \<Longrightarrow> k \<noteq> [] \<Longrightarrow> json_wf v \<Longrightarrow> props_wf (set_prop k v kvs)"
  using set_prop_distinct [of kvs k v] set_prop_sub [of k v kvs] by fastforce

lemma parse_chars_length: "parse_chars n p = Inr (s, r) \<Longrightarrow> length s \<le> n"
proof (induction s arbitrary: n p)
  case (Cons d s)
  obtain c q where p: "p = c # q" using Cons(2) by (cases p) auto
  then obtain q' where "n \<noteq> 0" "parse_chars (n - 1) q' = Inr (s, r)" using parse_chars_step [of n c q "d # s" r] Cons(2) by auto
  then show ?case using Cons(1) [of "n - 1" q'] by simp
qed simp

lemma cstring_ok: "NUL \<notin> set (cstring s)" "length (cstring s) \<le> length s"
  by (auto simp: cstring_def dest: set_takeWhileD intro: length_takeWhile_le)

lemma parse_string_ok:
  assumes "parse_string p = Inr (s, r)"
  shows "text_ok s"
proof -
  obtain s' where "parse_chars 4095 (tl p) = Inr (s', r)" "s = cstring s'"
    using assms by (auto simp: parse_string_def map_sum_Inr)
  then show ?thesis using parse_chars_length [of 4095 "tl p" s' r] cstring_ok [of s'] by (simp add: text_ok_def)
qed

lemma parse_ident_ok: "parse_ident 128 p = Some (s, r) \<Longrightarrow> is_ident_first (peek p) \<Longrightarrow> text_ok s \<and> s \<noteq> []"
  by (cases p) (auto simp: parse_ident_def Let_def text_ok_def ident_char_def kinds_not_NUL peek_def split: if_split_asm dest!: set_takeWhileD)

lemma strto_sign:
  assumes "strto base p = Some (neg, n, r)"
  shows "neg \<longleftrightarrow> peek (dropWhile isspace p) = CHR ''-''"
proof -
  have "\<exists>C b q. strto base p =
      (if C then (case scan_digits b 0 q of (v, r) \<Rightarrow> Some (peek (dropWhile isspace p) = CHR ''-'', v, r)) else None)"
    unfolding strto_def Let_def by (intro exI) (rule refl)
  then show ?thesis using assms by (auto split: if_split_asm prod.split_asm)
qed

lemma strtol_range:
  assumes "isdigit (peek p)" and "strtol p 0 = (v, r)"
  shows "0 \<le> v \<and> v < 2 ^ 31"
proof -
  have "\<not> isspace (peek p)" "peek p \<noteq> CHR ''-''" using assms(1) by (auto simp: isdigit_def isspace_def code_def)
  then have "dropWhile isspace p = p" by (cases p) (simp_all add: peek_def)
  then have "\<not> neg" if "strto 0 p = Some (neg, n, r)" for neg n r
    using strto_sign [OF that] \<open>peek p \<noteq> CHR ''-''\<close> by simp
  then show ?thesis using assms(2) by (auto simp: strtol_def split: option.split_asm if_split_asm)
qed

lemma array_wf_iff: "json_wf (JSON_ARRAY a) \<longleftrightarrow> (\<forall>v \<in> set a. json_wf v)" by simp

lemma value_wf:
  assumes "\<And>p obj r. parse_object n [] p = Some (Inr (obj, r)) \<Longrightarrow> props_wf obj"
    and "\<And>p a r. parse_array n [] p = Some (Inr (a, r)) \<Longrightarrow> json_wf (JSON_ARRAY a)"
    and "parse_value2 (Suc n) p = Some (v, r)"
  shows "json_wf v"
  using assms(3) strtol_range [of "skip_spaces p"] parse_string_ok [of "skip_spaces p"]
  by (auto simp: Let_def split: if_split_asm prod.split_asm sum.split_asm bind_split_asm dest: assms(1,2) simp del: json_wf.simps(3,4))

lemma object_wf:
  assumes "\<And>p v r. parse_value2 n p = Some (v, r) \<Longrightarrow> json_wf v"
    and "\<And>p obj r obj'. parse_object n obj p = Some (Inr (obj', r)) \<Longrightarrow> props_wf obj \<Longrightarrow> props_wf obj'"
    and "parse_object (Suc n) obj p = Some (Inr (obj', r))" and "props_wf obj"
  shows "props_wf obj'"
proof -
  define q where "q = skip_spaces p"
  show ?thesis
  proof (cases "peek q = CHR ''}''")
    case True
    then show ?thesis using assms(3,4) by (simp add: Let_def q_def)
  next
    case False
    define key where "key = (if peek q = CHR 0x22 then parse_string q
     else if is_ident_first (peek q)
     then case parse_ident 128 q of None \<Rightarrow> Inl ''Invalid property name'' | Some r \<Rightarrow> Inr r
     else Inl ''Invalid property name'')"
    obtain tag w where k: "key = Inr (tag, w)" "tag \<noteq> []"
      and rest: "do { (val1, p) \<leftarrow> parse_value2 n (tl (skip_spaces w));
                      let obj = set_prop tag val1 obj;
                      let p = skip_spaces p;
                      if peek p = CHR '','' then parse_object n obj (tl p)
                      else if peek p \<noteq> CHR ''}''
                      then Some (Inl (''expecting '' @ CHR 0x27 # '','' @ CHR 0x27 # '' or '' @ CHR 0x27 # ''}'' @ [CHR 0x27]))
                      else parse_object n obj p } = Some (Inr (obj', r))"
      using assms(3) False unfolding parse_object.simps Let_def q_def [symmetric] key_def [symmetric]
      by (auto split: sum.split_asm prod.split_asm if_split_asm)
    have t: "text_ok tag" using k(1) by (auto simp: key_def split: if_split_asm option.split_asm dest: parse_string_ok parse_ident_ok)
    obtain v u where v: "parse_value2 n (tl (skip_spaces w)) = Some (v, u)" using rest by (auto simp: bind_Some_conv)
    have "props_wf (set_prop tag v obj)" using set_prop_wf [OF assms(4) t k(2) assms(1) [OF v]] .
    then show ?thesis using rest v by (auto simp: Let_def split: if_split_asm dest: assms(2) simp del: json_wf.simps(3))
  qed
qed

lemma array_wf:
  assumes "\<And>p v r. parse_value2 n p = Some (v, r) \<Longrightarrow> json_wf v"
    and "\<And>p a r a'. parse_array n a p = Some (Inr (a', r)) \<Longrightarrow> json_wf (JSON_ARRAY a) \<Longrightarrow> json_wf (JSON_ARRAY a')"
    and "parse_array (Suc n) a p = Some (Inr (a', r))" and "json_wf (JSON_ARRAY a)"
  shows "json_wf (JSON_ARRAY a')"
proof (cases "peek (skip_spaces p) = CHR '']''")
  case True
  then show ?thesis using assms(3,4) by (simp add: Let_def)
next
  case False
  then obtain v u where v: "parse_value2 n (skip_spaces p) = Some (v, u)"
    using assms(3) by (auto simp: Let_def bind_Some_conv)
  have "json_wf (JSON_ARRAY (a @ [v]))" using assms(1) [OF v] assms(4) by auto
  then show ?thesis using assms(3) False v
    by (auto simp: Let_def split: if_split_asm dest: assms(2) simp del: json_wf.simps(4))
qed

lemma parse_wf:
  "(\<forall>p v r. parse_value2 n p = Some (v, r) \<longrightarrow> json_wf v) \<and>
   (\<forall>p obj r obj'. parse_object n obj p = Some (Inr (obj', r)) \<longrightarrow> props_wf obj \<longrightarrow> props_wf obj') \<and>
   (\<forall>p a r a'. parse_array n a p = Some (Inr (a', r)) \<longrightarrow> json_wf (JSON_ARRAY a) \<longrightarrow> json_wf (JSON_ARRAY a'))"
proof (induction n)
  case (Suc n)
  then have IH: "\<And>p v r. parse_value2 n p = Some (v, r) \<Longrightarrow> json_wf v"
    "\<And>p obj r obj'. parse_object n obj p = Some (Inr (obj', r)) \<Longrightarrow> props_wf obj \<Longrightarrow> props_wf obj'"
    "\<And>p a r a'. parse_array n a p = Some (Inr (a', r)) \<Longrightarrow> json_wf (JSON_ARRAY a) \<Longrightarrow> json_wf (JSON_ARRAY a')"
    by blast+
  have e: "props_wf []" "json_wf (JSON_ARRAY [])" by simp_all
  have "json_wf v" if "parse_value2 (Suc n) p = Some (v, r)" for p v r
    by (rule value_wf [OF IH(2) [OF _ e(1)] IH(3) [OF _ e(2)] that])
  moreover have "props_wf obj'" if "parse_object (Suc n) obj p = Some (Inr (obj', r))" "props_wf obj" for p obj r obj'
    by (rule object_wf [OF IH(1,2) that])
  moreover have "json_wf (JSON_ARRAY a')" if "parse_array (Suc n) a p = Some (Inr (a', r))" "json_wf (JSON_ARRAY a)" for p a r a'
    by (rule array_wf [OF IH(1,3) that])
  ultimately show ?case by blast
qed simp

lemma json_parse_wf: "json_parse_value p = Some v \<Longrightarrow> json_wf v"
  using parse_wf [of "parse_fuel (cstring p)"]
  by (auto simp: json_parse_value_def Let_def bind_Some_conv split: if_split_asm)

text \<open>
  C29. Whatever the text, the value the parser returns is well-typed, at every depth: a string has no NUL and fits its buffer of
  4096 bytes, a number is a non-negative C integer, the names in an object are distinct, non-empty strings, and no value is
  undefined; so a look-up in an object of the result gives the stored value for its names and "undefined" for all others.
\<close>
theorem json_parse_typed:
  assumes "json_parse_value p = Some v"
  shows "json_wf v \<and>
    (\<forall>kvs k w. v = JSON_OBJ kvs \<longrightarrow> json_object_get v k = w \<longrightarrow>
       (if json_is_undefined w then k \<notin> fst ` set kvs else (k, w) \<in> set kvs \<and> json_wf w))"
proof -
  have wf: "json_wf v" by (rule json_parse_wf [OF assms])
  have get: "case json_object_get2 kvs k of None \<Rightarrow> k \<notin> fst ` set kvs | Some w \<Rightarrow> (k, w) \<in> set kvs" for kvs k
    by (induction kvs k rule: json_object_get2.induct) (auto split: option.split_asm)
  have "if json_is_undefined (json_object_get v k) then k \<notin> fst ` set kvs
      else (k, json_object_get v k) \<in> set kvs \<and> json_wf (json_object_get v k)" if "v = JSON_OBJ kvs" for kvs k
  proof (cases "json_object_get2 kvs k")
    case None
    then show ?thesis using get [where kvs = kvs and k = k] that by (simp add: json_object_get_def json_is_undefined_def)
  next
    case (Some w)
    then have w: "(k, w) \<in> set kvs" "json_wf w" using get [where kvs = kvs and k = k] wf that by auto
    moreover have "w \<noteq> JSON_UNDEFINED" using w(2) by auto
    ultimately show ?thesis using Some that
      by (auto simp: json_object_get_def json_is_undefined_def split: json.split)
  qed
  then show ?thesis using wf by blast
qed

theorem json_parse_typed_witness:
  "json_wf (JSON_ARRAY [])"
proof -
  have "skip_spaces ''[]'' = ''[]''" "skip_spaces '']'' = '']''" by (simp_all add: skip_spaces_Cons isspace_def code_def)
  then have "json_parse_value ''[]'' = Some (JSON_ARRAY [])"
    by (simp add: json_parse_value_def parse_fuel_def cstring_def NUL_def peek_def isdigit_def code_def Let_def
        json_is_error_def numeral_eq_Suc)
  from json_parse_typed [OF this] show ?thesis by blast
qed

end
