(* ===== verification/Dynbuf.thy ===== *)
theory Dynbuf
  imports Emu_Prelude
begin

text \<open>
  The growing buffers of \<open>cutils.c\<close>. The allocated block is a list, of which the first \<open>dsize\<close> elements have been
  written; \<open>fresh n\<close> is what a block of \<open>n\<close> elements holds when it is allocated. Sizes stay below \<open>2 ^ 31\<close>.
\<close>

record 'a dyn_buf =
  dbuf :: "'a list"
  dsize :: nat

definition dbuf_init :: "'a dyn_buf" where
  "dbuf_init = \<lparr>dbuf = [], dsize = 0\<rparr>"

definition dbuf_grow :: "(nat \<Rightarrow> 'a list) \<Rightarrow> 'a dyn_buf \<Rightarrow> nat \<Rightarrow> 'a dyn_buf" where
  "dbuf_grow fresh s new_size =
     (if length (dbuf s) < new_size
      then let new_size = max new_size (length (dbuf s) * 3 div 2) in
        s\<lparr>dbuf := dbuf s @ drop (length (dbuf s)) (fresh new_size)\<rparr>
      else s)"

definition dbuf_write :: "(nat \<Rightarrow> 'a list) \<Rightarrow> 'a dyn_buf \<Rightarrow> nat \<Rightarrow> 'a list \<Rightarrow> 'a dyn_buf" where
  "dbuf_write fresh s offset data =
     (let end = offset + length data;
          s = dbuf_grow fresh s end;
          s = s\<lparr>dbuf := take offset (dbuf s) @ data @ drop end (dbuf s)\<rparr>
      in if end > dsize s then s\<lparr>dsize := end\<rparr> else s)"

definition dbuf_putc :: "(nat \<Rightarrow> 'a list) \<Rightarrow> 'a dyn_buf \<Rightarrow> 'a \<Rightarrow> 'a dyn_buf" where
  "dbuf_putc fresh s c = dbuf_write fresh s (dsize s) [c]"

definition dbuf_putstr :: "(nat \<Rightarrow> 'a list) \<Rightarrow> 'a dyn_buf \<Rightarrow> 'a list \<Rightarrow> 'a dyn_buf" where
  "dbuf_putstr fresh s str = dbuf_write fresh s (dsize s) str"

section \<open>The contents of a buffer\<close>

definition contents :: "'a dyn_buf \<Rightarrow> 'a list" where "contents s = take (dsize s) (dbuf s)"

definition dbuf_wf :: "'a dyn_buf \<Rightarrow> bool" where "dbuf_wf s \<longleftrightarrow> dsize s \<le> length (dbuf s)"

lemma init_contents [simp]: "dbuf_wf dbuf_init" "contents dbuf_init = []"
  by (simp_all add: dbuf_wf_def contents_def dbuf_init_def)

lemma grow:
  assumes "\<And>n. length (fresh n) = n"
  shows "\<exists>t. dbuf (dbuf_grow fresh s n) = dbuf s @ t" "n \<le> length (dbuf (dbuf_grow fresh s n))"
    "dsize (dbuf_grow fresh s n) = dsize s"
  using assms by (auto simp: dbuf_grow_def Let_def)

lemma write_contents:
  assumes "\<And>n. length (fresh n) = n" and "dbuf_wf s" and "offset \<le> dsize s"
  shows "dbuf_wf (dbuf_write fresh s offset data)"
    and "contents (dbuf_write fresh s offset data) = take offset (contents s) @ data @ drop (offset + length data) (contents s)"
proof -
  let ?e = "offset + length data"
  define b where "b = dbuf (dbuf_grow fresh s ?e)"
  obtain t where t: "b = dbuf s @ t" using grow(1) [OF assms(1)] unfolding b_def by blast
  have l: "?e \<le> length b" unfolding b_def by (rule grow(2) [OF assms(1)])
  have z: "dsize (dbuf_grow fresh s ?e) = dsize s" by (rule grow(3) [OF assms(1)])
  have s: "dsize s \<le> length b" "take (dsize s) (dbuf s) = take (dsize s) b" using assms(2) t by (simp_all add: dbuf_wf_def)
  have w: "dbuf (dbuf_write fresh s offset data) = take offset b @ data @ drop ?e b"
    "dsize (dbuf_write fresh s offset data) = max (dsize s) ?e"
    using z by (simp_all add: dbuf_write_def Let_def b_def max_def)
  show "dbuf_wf (dbuf_write fresh s offset data)" using l s(1) w by (simp add: dbuf_wf_def)
  show "contents (dbuf_write fresh s offset data) = take offset (contents s) @ data @ drop ?e (contents s)"
    using assms(3) l s w by (auto simp: contents_def take_drop min_def max_def)
qed

lemma append_contents:
  assumes "\<And>n. length (fresh n) = n" and "dbuf_wf s"
  shows "dbuf_wf (dbuf_putc fresh s c)" "contents (dbuf_putc fresh s c) = contents s @ [c]"
    "dbuf_wf (dbuf_putstr fresh s str)" "contents (dbuf_putstr fresh s str) = contents s @ str"
proof -
  have l: "length (contents s) = dsize s" using assms(2) by (simp add: contents_def dbuf_wf_def)
  show "dbuf_wf (dbuf_putc fresh s c)" "dbuf_wf (dbuf_putstr fresh s str)"
    using write_contents(1) [OF assms] by (simp_all add: dbuf_putc_def dbuf_putstr_def)
  show "contents (dbuf_putc fresh s c) = contents s @ [c]" "contents (dbuf_putstr fresh s str) = contents s @ str"
    using write_contents(2) [OF assms order_refl] l by (simp_all add: dbuf_putc_def dbuf_putstr_def)
qed

end
