(* ===== verification/Config.thy ===== *)
theory Config
  imports Json Dynbuf
begin

text \<open>
  The configuration of a virtual machine, \<open>machine.c\<close> and \<open>machine.h\<close>: the JSON configuration file, the files it names
  and the kernel command line. The build is the one of the RISC-V emulator in the browser: one machine class, files
  fetched from a URL. \<open>wget\<close> gives the contents a URL has, or \<open>None\<close> for an error; local time is the offset to UTC in
  seconds. The devices the front end opens for the entries are not part of the record. A failed \<open>exit(1)\<close> or an
  \<open>abort()\<close> is \<open>None\<close>; the messages are the values of the error case.
\<close>

definition MAX_DRIVE_DEVICE :: nat where "MAX_DRIVE_DEVICE = 4"
definition MAX_FS_DEVICE :: nat where "MAX_FS_DEVICE = 4"
definition MAX_ETH_DEVICE :: nat where "MAX_ETH_DEVICE = 1"
definition VM_CONFIG_VERSION :: int where "VM_CONFIG_VERSION = 1"

definition VM_FILE_BIOS :: nat where "VM_FILE_BIOS = 0"
definition VM_FILE_VGA_BIOS :: nat where "VM_FILE_VGA_BIOS = 1"
definition VM_FILE_KERNEL :: nat where "VM_FILE_KERNEL = 2"
definition VM_FILE_INITRD :: nat where "VM_FILE_INITRD = 3"
definition VM_FILE_COUNT :: nat where "VM_FILE_COUNT = 4"

datatype machine_class = riscv_machine_class

text \<open>The contents of a file is a string of bytes.\<close>

record vm_file =
  file_name :: "string option"
  file_buf :: "string option"

record vm_drive =
  drive_device :: "string option"
  drive_filename :: string

record vm_fs =
  fs_tag :: string
  fs_filename :: string

record vm_eth =
  eth_driver :: string
  eth_ifname :: "string option"

text \<open>The tables hold the entries in use: their length is the count.\<close>

record vm_config =
  cfg_filename :: "string option"
  vmc :: "machine_class option"
  machine_name :: "string option"
  vp_ram_size :: u64
  vp_rtc_real_time :: bool
  rtc_local_time :: bool
  display_device :: "string option"
  width :: int
  height :: int
  tab_drive :: "vm_drive list"
  tab_fs :: "vm_fs list"
  tab_eth :: "vm_eth list"
  cmdline :: "string option"
  accel_enable :: bool
  input_device :: "string option"
  files :: "vm_file list"

section \<open>Access to the configuration\<close>

text \<open>The messages are without their final newline.\<close>

definition squoted :: "string \<Rightarrow> string" where "squoted s = CHR 0x27 # s @ [CHR 0x27]"

definition expecting :: "string \<Rightarrow> string" where "expecting name = ''expecting '' @ squoted name @ '' property''"

definition vm_get_int :: "json \<Rightarrow> string \<Rightarrow> string + int" where
  "vm_get_int obj name =
     (case json_object_get obj name of
        JSON_UNDEFINED \<Rightarrow> Inl (expecting name)
      | JSON_INT i \<Rightarrow> Inr i
      | _ \<Rightarrow> Inl (name @ '': integer expected''))"

definition vm_get_int_opt :: "json \<Rightarrow> string \<Rightarrow> int \<Rightarrow> string + int" where
  "vm_get_int_opt obj name def_val =
     (case json_object_get obj name of
        JSON_UNDEFINED \<Rightarrow> Inr def_val
      | JSON_INT i \<Rightarrow> Inr i
      | _ \<Rightarrow> Inl (name @ '': integer expected''))"

definition vm_get_str2 :: "json \<Rightarrow> string \<Rightarrow> bool \<Rightarrow> string + string option" where
  "vm_get_str2 obj name is_opt =
     (case json_object_get obj name of
        JSON_UNDEFINED \<Rightarrow> if is_opt then Inr None else Inl (expecting name)
      | JSON_STR s \<Rightarrow> Inr (Some s)
      | _ \<Rightarrow> Inl (name @ '': string expected''))"

text \<open>A required string is never NULL.\<close>

definition vm_get_str :: "json \<Rightarrow> string \<Rightarrow> string + string" where
  "vm_get_str obj name = map_sum id the (vm_get_str2 obj name False)"

definition vm_get_str_opt :: "json \<Rightarrow> string \<Rightarrow> string + string option" where
  "vm_get_str_opt obj name = vm_get_str2 obj name True"

section \<open>Text\<close>

text \<open>The C format \<open>%02d\<close>, and the offset to UTC of \<open>gmtoff\<close> seconds.\<close>

definition dec2 :: "nat \<Rightarrow> string" where "dec2 n = (if n < 10 then ''0'' else []) @ dec n"

definition utc_offset :: "int \<Rightarrow> string" where
  "utc_offset gmtoff =
     (let n = (if gmtoff < 0 then - (- gmtoff div 60) else gmtoff div 60);
          sg = (if n < 0 then ''+'' else ''-'');
          n = nat \<bar>n\<bar>
      in ''UTC'' @ sg @ dec2 (n div 60) @ '':'' @ dec2 (n mod 60))"

function subst_loop :: "(nat \<Rightarrow> string) \<Rightarrow> int \<Rightarrow> string \<Rightarrow> char dyn_buf \<Rightarrow> char dyn_buf" where
  "subst_loop fresh gmtoff p d =
     (case p of
        [] \<Rightarrow> d
      | c # q \<Rightarrow>
          if c = CHR ''$'' \<and> peek q = CHR ''{''
          then let var_name = take 31 (takeWhile (\<lambda>c. c \<noteq> CHR ''}'') (tl q));
                   d = (if var_name = ''TZ'' then dbuf_putstr fresh d (utc_offset gmtoff) else d)
               in subst_loop fresh gmtoff (tl (dropWhile (\<lambda>c. c \<noteq> CHR ''}'') (tl q))) d
          else subst_loop fresh gmtoff q (dbuf_putc fresh d c))"
  by pat_completeness auto

termination
proof (relation "measure (\<lambda>(f, g, p, d). length p)", goal_cases)
  case (2 fresh gmtoff p d c q)
  have "length (dropWhile (\<lambda>c. c \<noteq> CHR ''}'') (tl q)) \<le> length (tl q)" by (rule length_dropWhile_le)
  then show ?case using 2(1) by simp
qed simp_all

declare subst_loop.simps [simp del]

definition cmdline_subst :: "(nat \<Rightarrow> string) \<Rightarrow> int \<Rightarrow> string \<Rightarrow> string" where
  "cmdline_subst fresh gmtoff str = cstring (dbuf (dbuf_putc fresh (subst_loop fresh gmtoff str dbuf_init) NUL))"

function find_name :: "string \<Rightarrow> string \<Rightarrow> bool" where
  "find_name name p =
     (let seg = takeWhile (\<lambda>c. c \<noteq> CHR '','') p; r = dropWhile (\<lambda>c. c \<noteq> CHR '','') p in
      if r = [] then name = p
      else if seg = name then True
      else find_name name (tl r))"
  by pat_completeness auto

termination
proof (relation "measure (\<lambda>(n, p). length p)", goal_cases)
  case (2 name p seg r)
  have "length r \<le> length p" unfolding 2(2) by (rule length_dropWhile_le)
  then show ?case using 2(3) by (cases r) simp_all
qed simp

declare find_name.simps [simp del]

definition machine_names :: "machine_class \<Rightarrow> string" where
  "machine_names c = (case c of riscv_machine_class \<Rightarrow> ''riscv32,riscv64,riscv128'')"

definition virt_machine_list :: "machine_class list" where
  "virt_machine_list = [riscv_machine_class]"

definition virt_machine_find_class :: "string \<Rightarrow> machine_class option" where
  "virt_machine_find_class name = find (\<lambda>c. find_name name (machine_names c)) virt_machine_list"

section \<open>The configuration file\<close>

text \<open>An error ends the function that meets it: \<open>Inl\<close> holds its message.\<close>

definition bindE :: "'e + 'a \<Rightarrow> ('a \<Rightarrow> 'e + 'b) \<Rightarrow> 'e + 'b" where
  "bindE x f = (case x of Inl e \<Rightarrow> Inl e | Inr a \<Rightarrow> f a)"

function drives_loop :: "json \<Rightarrow> vm_drive list \<Rightarrow> string + vm_drive list" where
  "drives_loop cfg ds =
     (let obj = json_object_get cfg (''drive'' @ dec (length ds)) in
      if json_is_undefined obj then Inr ds
      else if length ds \<ge> MAX_DRIVE_DEVICE then Inl ''Too many drives''
      else bindE (vm_get_str obj ''file'') (\<lambda>file.
           bindE (vm_get_str_opt obj ''device'') (\<lambda>dev.
             drives_loop cfg (ds @ [\<lparr>drive_device = dev, drive_filename = file\<rparr>]))))"
  by pat_completeness auto

termination
  by (relation "measure (\<lambda>(cfg, ds). MAX_DRIVE_DEVICE - length ds)") auto

text \<open>The default tag of a file system.\<close>

definition root_tag :: "nat \<Rightarrow> string" where
  "root_tag n = ''/dev/root'' @ (if n = 0 then [] else dec n)"

function fs_loop :: "json \<Rightarrow> vm_fs list \<Rightarrow> string + vm_fs list" where
  "fs_loop cfg fss =
     (let obj = json_object_get cfg (''fs'' @ dec (length fss)) in
      if json_is_undefined obj then Inr fss
      else if length fss \<ge> MAX_DRIVE_DEVICE then Inl ''Too many filesystems''
      else bindE (vm_get_str obj ''file'') (\<lambda>file.
           bindE (vm_get_str_opt obj ''tag'') (\<lambda>tag.
             fs_loop cfg (fss @ [\<lparr>fs_tag = (case tag of None \<Rightarrow> root_tag (length fss) | Some t \<Rightarrow> t), fs_filename = file\<rparr>]))))"
  by pat_completeness auto

termination
  by (relation "measure (\<lambda>(cfg, fss). MAX_DRIVE_DEVICE - length fss)") auto

function eth_loop :: "json \<Rightarrow> vm_eth list \<Rightarrow> string + vm_eth list" where
  "eth_loop cfg eths =
     (let obj = json_object_get cfg (''eth'' @ dec (length eths)) in
      if json_is_undefined obj then Inr eths
      else if length eths \<ge> MAX_ETH_DEVICE then Inl ''Too many ethernet interfaces''
      else bindE (vm_get_str obj ''driver'') (\<lambda>driver.
           bindE (if driver = ''tap'' then map_sum id Some (vm_get_str obj ''ifname'') else Inr None) (\<lambda>ifname.
             eth_loop cfg (eths @ [\<lparr>eth_driver = driver, eth_ifname = ifname\<rparr>]))))"
  by pat_completeness auto

termination
  by (relation "measure (\<lambda>(cfg, eths). MAX_ETH_DEVICE - length eths)") auto

declare drives_loop.simps [simp del] fs_loop.simps [simp del] eth_loop.simps [simp del]

definition set_file :: "nat \<Rightarrow> string \<Rightarrow> vm_config \<Rightarrow> vm_config" where
  "set_file i name p = p\<lparr>files := (files p)[i := (files p ! i)\<lparr>file_name := Some name\<rparr>]\<rparr>"

definition opt_file :: "json \<Rightarrow> string \<Rightarrow> nat \<Rightarrow> vm_config \<Rightarrow> string + vm_config" where
  "opt_file cfg tag i p =
     bindE (vm_get_str_opt cfg tag) (\<lambda>str. Inr (case str of None \<Rightarrow> p | Some f \<Rightarrow> set_file i f p))"

text \<open>The version, the machine, the memory size, the files and the command line; \<open>riscv_machine_set_defaults\<close> does nothing.\<close>

definition parse_machine :: "(nat \<Rightarrow> string) \<Rightarrow> int \<Rightarrow> json \<Rightarrow> vm_config \<Rightarrow> string + vm_config" where
  "parse_machine fresh gmtoff cfg p =
     bindE (vm_get_int cfg ''version'') (\<lambda>version.
     if version \<noteq> VM_CONFIG_VERSION
     then Inl (if version > VM_CONFIG_VERSION then ''The emulator is too old to run this VM: please upgrade''
               else ''The VM configuration file is too old for this emulator version: please upgrade the VM configuration file'')
     else bindE (vm_get_str cfg ''machine'') (\<lambda>str.
     case virt_machine_find_class str of
       None \<Rightarrow> Inl (''Unknown machine name: '' @ str)
     | Some c \<Rightarrow>
         let p = p\<lparr>machine_name := Some str, vmc := Some c\<rparr> in
         bindE (vm_get_int cfg ''memory_size'') (\<lambda>val.
         let p = p\<lparr>vp_ram_size := push_bit 20 (word_of_int val)\<rparr> in
         bindE (opt_file cfg ''bios'' VM_FILE_BIOS p) (\<lambda>p.
         bindE (opt_file cfg ''kernel'' VM_FILE_KERNEL p) (\<lambda>p.
         bindE (opt_file cfg ''initrd'' VM_FILE_INITRD p) (\<lambda>p.
         bindE (vm_get_str_opt cfg ''cmdline'') (\<lambda>str.
         Inr (case str of None \<Rightarrow> p | Some str \<Rightarrow> p\<lparr>cmdline := Some (cmdline_subst fresh gmtoff str)\<rparr>))))))))"

definition parse_display :: "json \<Rightarrow> vm_config \<Rightarrow> string + vm_config" where
  "parse_display cfg p =
     (let p = p\<lparr>display_device := None\<rparr>;
          obj = json_object_get cfg ''display0'' in
      if json_is_undefined obj then Inr p
      else bindE (vm_get_str obj ''device'') (\<lambda>dev.
           bindE (vm_get_int obj ''width'') (\<lambda>w.
           bindE (vm_get_int obj ''height'') (\<lambda>h.
           opt_file obj ''vga_bios'' VM_FILE_VGA_BIOS (p\<lparr>display_device := Some dev, width := w, height := h\<rparr>)))))"

definition parse_options :: "json \<Rightarrow> vm_config \<Rightarrow> string + vm_config" where
  "parse_options cfg p =
     bindE (vm_get_str_opt cfg ''input_device'') (\<lambda>str.
     let p = p\<lparr>input_device := str\<rparr> in
     bindE (vm_get_str_opt cfg ''accel'') (\<lambda>str.
     bindE (case str of
              None \<Rightarrow> Inr p
            | Some str \<Rightarrow>
                if str = ''none'' then Inr (p\<lparr>accel_enable := False\<rparr>)
                else if str = ''auto'' then Inr (p\<lparr>accel_enable := True\<rparr>)
                else Inl (''unsupported '' @ squoted ''accel'' @ '' config: '' @ str)) (\<lambda>p.
     case json_object_get cfg ''rtc_local_time'' of
       JSON_UNDEFINED \<Rightarrow> Inr p
     | JSON_BOOL b \<Rightarrow> Inr (p\<lparr>rtc_local_time := b\<rparr>)
     | _ \<Rightarrow> Inl ''rtc_local_time: boolean expected'')))"

definition parse_devices :: "json \<Rightarrow> vm_config \<Rightarrow> string + vm_config" where
  "parse_devices cfg p =
     bindE (drives_loop cfg (tab_drive p)) (\<lambda>ds.
     bindE (fs_loop cfg (tab_fs p)) (\<lambda>fss.
     bindE (eth_loop cfg (tab_eth p)) (\<lambda>eths.
     Inr (p\<lparr>tab_drive := ds, tab_fs := fss, tab_eth := eths\<rparr>))))"

definition virt_machine_parse_config ::
    "(nat \<Rightarrow> string) \<Rightarrow> int \<Rightarrow> vm_config \<Rightarrow> string \<Rightarrow> nat \<Rightarrow> (string + vm_config) option" where
  "virt_machine_parse_config fresh gmtoff p config_file_str len =
     do { cfg \<leftarrow> json_parse_value_len config_file_str len;
          Some (case json_get_error cfg of
                  Some e \<Rightarrow> Inl (''error: '' @ e)
                | None \<Rightarrow>
                    bindE (parse_machine fresh gmtoff cfg p) (\<lambda>p.
                    bindE (parse_devices cfg p) (\<lambda>p.
                    bindE (parse_display cfg p) (\<lambda>p.
                    parse_options cfg p)))) }"

section \<open>Loading\<close>

definition get_file_path :: "string option \<Rightarrow> string \<Rightarrow> string" where
  "get_file_path base_filename filename =
     (case base_filename of
        None \<Rightarrow> filename
      | Some base \<Rightarrow>
          if CHR '':'' \<in> set filename \<or> peek filename = CHR ''/'' \<or> CHR ''/'' \<notin> set base then filename
          else rev (dropWhile (\<lambda>c. c \<noteq> CHR ''/'') (rev base)) @ filename)"

text \<open>\<open>load_file\<close> aborts in the browser.\<close>

definition config_load_file :: "(string \<Rightarrow> string option) \<Rightarrow> string \<Rightarrow> string option" where
  "config_load_file wget filename = (if is_url filename then wget filename else None)"

function config_additional_file_load :: "(string \<Rightarrow> string option) \<Rightarrow> nat \<Rightarrow> vm_config \<Rightarrow> vm_config option" where
  "config_additional_file_load wget file_index p =
     (if file_index \<ge> VM_FILE_COUNT then Some p
      else case file_name (files p ! file_index) of
        None \<Rightarrow> config_additional_file_load wget (file_index + 1) p
      | Some f \<Rightarrow>
          do { buf \<leftarrow> config_load_file wget (get_file_path (cfg_filename p) f);
               config_additional_file_load wget (file_index + 1)
                 (p\<lparr>files := (files p)[file_index := (files p ! file_index)\<lparr>file_buf := Some buf\<rparr>]\<rparr>) })"
  by pat_completeness auto

termination
  by (relation "measure (\<lambda>(wget, i, p). VM_FILE_COUNT - i)") auto

declare config_additional_file_load.simps [simp del]

definition config_file_loaded ::
    "(nat \<Rightarrow> string) \<Rightarrow> int \<Rightarrow> (string \<Rightarrow> string option) \<Rightarrow> string \<Rightarrow> vm_config \<Rightarrow> vm_config option" where
  "config_file_loaded fresh gmtoff wget buf p =
     do { r \<leftarrow> virt_machine_parse_config fresh gmtoff p buf (length buf);
          case r of Inl _ \<Rightarrow> None | Inr p \<Rightarrow> config_additional_file_load wget 0 p }"

definition virt_machine_load_config_file ::
    "(nat \<Rightarrow> string) \<Rightarrow> int \<Rightarrow> (string \<Rightarrow> string option) \<Rightarrow> string \<Rightarrow> vm_config \<Rightarrow> vm_config option" where
  "virt_machine_load_config_file fresh gmtoff wget filename p =
     (let p = p\<lparr>cfg_filename := Some filename\<rparr> in
      do { buf \<leftarrow> config_load_file wget filename; config_file_loaded fresh gmtoff wget buf p })"

definition vm_add_cmdline :: "string \<Rightarrow> vm_config \<Rightarrow> vm_config" where
  "vm_add_cmdline str p =
     p\<lparr>cmdline := Some (if peek str = CHR ''!'' then tl str
                        else (case cmdline p of None \<Rightarrow> [] | Some c \<Rightarrow> c) @ '' '' @ str)\<rparr>"

definition virt_machine_set_defaults :: vm_config where
  "virt_machine_set_defaults = \<lparr>cfg_filename = None, vmc = None, machine_name = None, vp_ram_size = 0,
     vp_rtc_real_time = False, rtc_local_time = False, display_device = None, width = 0, height = 0, tab_drive = [],
     tab_fs = [], tab_eth = [], cmdline = None, accel_enable = False, input_device = None,
     files = replicate VM_FILE_COUNT \<lparr>file_name = None, file_buf = None\<rparr>\<rparr>"

end
