(* ===== verification/Config_Props.thy ===== *)
theory Config_Props
  imports Config Json_Types
begin

text \<open>What a configuration that loads looks like, and the command line.\<close>

section \<open>The command line\<close>

text \<open>A command line as a list of pieces: plain text and variables.\<close>

datatype piece = Lit string | Var string

fun piece_text :: "piece \<Rightarrow> string" where
  "piece_text (Lit s) = s"
| "piece_text (Var v) = ''${'' @ v @ ''}''"

fun piece_value :: "int \<Rightarrow> piece \<Rightarrow> string" where
  "piece_value gmtoff (Lit s) = s"
| "piece_value gmtoff (Var v) = (if v = ''TZ'' then utc_offset gmtoff else [])"

fun piece_ok :: "piece \<Rightarrow> bool" where
  "piece_ok (Lit s) \<longleftrightarrow> CHR ''$'' \<notin> set s \<and> NUL \<notin> set s"
| "piece_ok (Var v) \<longleftrightarrow> CHR ''}'' \<notin> set v \<and> NUL \<notin> set v"

lemma subst_text:
  assumes "\<And>n. length (fresh n) = n"
  shows "CHR ''$'' \<notin> set s \<Longrightarrow> dbuf_wf d \<Longrightarrow>
    \<exists>d'. subst_loop fresh g (s @ r) d = subst_loop fresh g r d' \<and> dbuf_wf d' \<and> contents d' = contents d @ s"
proof (induction s arbitrary: d)
  case (Cons c s)
  have "c \<noteq> CHR ''$''" using Cons(2) by auto
  then have "subst_loop fresh g ((c # s) @ r) d = subst_loop fresh g (s @ r) (dbuf_putc fresh d c)"
    by (subst subst_loop.simps) simp
  then show ?case using Cons(1) [of "dbuf_putc fresh d c"] Cons(2,3) append_contents [OF assms Cons(3)] by simp
qed auto

lemma subst_var:
  assumes "CHR ''}'' \<notin> set v"
  shows "subst_loop fresh g (''${'' @ v @ ''}'' @ r) d =
    subst_loop fresh g r (if v = ''TZ'' then dbuf_putstr fresh d (utc_offset g) else d)"
proof -
  have "takeWhile (\<lambda>c. c \<noteq> CHR ''}'') (v @ CHR ''}'' # r) = v" "dropWhile (\<lambda>c. c \<noteq> CHR ''}'') (v @ CHR ''}'' # r) = CHR ''}'' # r"
    using takeWhile_until [OF assms, of r] by simp_all
  moreover have "take 31 v = ''TZ'' \<longleftrightarrow> v = ''TZ''"
  proof
    assume t: "take 31 v = ''TZ''"
    then have "length (take 31 v) = 2" by simp
    then have "length v = 2" by simp
    then show "v = ''TZ''" using t by simp
  qed simp
  ultimately show ?thesis by (subst subst_loop.simps) (simp add: peek_def)
qed

lemma subst_pieces:
  assumes "\<And>n. length (fresh n) = n"
  shows "list_all piece_ok ps \<Longrightarrow> dbuf_wf d \<Longrightarrow>
    dbuf_wf (subst_loop fresh g (concat (map piece_text ps)) d) \<and>
    contents (subst_loop fresh g (concat (map piece_text ps)) d) = contents d @ concat (map (piece_value g) ps)"
proof (induction ps arbitrary: d)
  case Nil
  then show ?case by (simp add: subst_loop.simps)
next
  case (Cons x ps)
  show ?case
  proof (cases x)
    case (Lit s)
    then have "CHR ''$'' \<notin> set s" using Cons(2) by simp
    from subst_text [OF assms this Cons(3)] obtain d' where d': "dbuf_wf d'" "contents d' = contents d @ s"
      "subst_loop fresh g (s @ concat (map piece_text ps)) d = subst_loop fresh g (concat (map piece_text ps)) d'" by blast
    then show ?thesis using Cons(1) [of d'] Cons(2) Lit by simp
  next
    case (Var v)
    then show ?thesis
      using Cons(1) [of "if v = ''TZ'' then dbuf_putstr fresh d (utc_offset g) else d"] Cons(2,3) subst_var [of v fresh g]
        append_contents [OF assms Cons(3)] by simp
  qed
qed

lemma hexd_no_NUL: "d < 16 \<Longrightarrow> hexd d \<noteq> NUL"
  using code_hexd [of d] by (auto simp: NUL_def code_def split: if_split_asm)

lemma dec_no_NUL: "NUL \<notin> set (dec n)"
proof (induction n rule: dec.induct)
  case (1 n)
  have "char_of (48 + n mod 10) = hexd (n mod 10)" by (simp add: hexd_def)
  then show ?case using 1 hexd_no_NUL [of "n mod 10"] by (subst dec.simps) (auto simp: eq_commute [of NUL])
qed

lemma utc_no_NUL: "NUL \<notin> set (utc_offset g)"
  using dec_no_NUL by (auto simp: utc_offset_def dec2_def Let_def NUL_def)



section \<open>Names of machines\<close>

fun join :: "string list \<Rightarrow> string" where
  "join [] = []"
| "join [n] = n"
| "join (n # ns) = n @ CHR '','' # join ns"

lemma find_name_join:
  "ns \<noteq> [] \<Longrightarrow> \<forall>n \<in> set ns. CHR '','' \<notin> set n \<Longrightarrow> find_name name (join ns) \<longleftrightarrow> name \<in> set ns"
proof (induction ns rule: join.induct)
  case (2 n)
  then have "dropWhile (\<lambda>c. c \<noteq> CHR '','') n = []" by (auto simp: dropWhile_eq_Nil_conv)
  then show ?case by (subst find_name.simps) (simp add: Let_def)
next
  case (3 n m ns)
  have "takeWhile (\<lambda>c. c \<noteq> CHR '','') (n @ CHR '','' # join (m # ns)) = n"
    "dropWhile (\<lambda>c. c \<noteq> CHR '','') (n @ CHR '','' # join (m # ns)) = CHR '','' # join (m # ns)"
    using takeWhile_until [of "CHR '',''" n "join (m # ns)"] 3(3) by simp_all
  then show ?case using 3 by (subst find_name.simps) (auto simp: Let_def)
qed simp

lemma find_class: "virt_machine_find_class name = (if name \<in> {''riscv32'', ''riscv64'', ''riscv128''} then Some riscv_machine_class else None)"
  using find_name_join [of "[''riscv32'', ''riscv64'', ''riscv128'']" name]
  by (simp add: virt_machine_find_class_def virt_machine_list_def machine_names_def)

section \<open>The configuration file\<close>

lemma bindE_Inr [simp]: "bindE x f = Inr y \<longleftrightarrow> (\<exists>a. x = Inr a \<and> f a = Inr y)"
  by (cases x) (simp_all add: bindE_def)

lemma get_int: "vm_get_int obj name = Inr i \<longleftrightarrow> json_object_get obj name = JSON_INT i"
  by (auto simp: vm_get_int_def split: json.split)

lemma get_str: "vm_get_str obj name = Inr s \<longleftrightarrow> json_object_get obj name = JSON_STR s"
  by (auto simp: vm_get_str_def vm_get_str2_def split: json.split)

lemma get_str_opt:
  "vm_get_str_opt obj name = Inr so \<longleftrightarrow>
     (case so of None \<Rightarrow> json_object_get obj name = JSON_UNDEFINED | Some s \<Rightarrow> json_object_get obj name = JSON_STR s)"
  by (auto simp: vm_get_str_opt_def vm_get_str2_def split: json.split option.split)

text \<open>
  The entries \<open>prefix0\<close>, \<open>prefix1\<close>, ... of the configuration are those of the table, in order, and the next one is missing;
  \<open>entry obj i x\<close> says that the table entry \<open>x\<close> is what the object asks for.
\<close>

definition listed :: "json \<Rightarrow> string \<Rightarrow> (json \<Rightarrow> nat \<Rightarrow> 'a \<Rightarrow> bool) \<Rightarrow> 'a list \<Rightarrow> bool" where
  "listed cfg pre entry xs \<longleftrightarrow>
     (\<forall>i < length xs. \<not> json_is_undefined (json_object_get cfg (pre @ dec i)) \<and>
        entry (json_object_get cfg (pre @ dec i)) i (xs ! i)) \<and>
     json_is_undefined (json_object_get cfg (pre @ dec (length xs)))"

definition drive_entry :: "json \<Rightarrow> nat \<Rightarrow> vm_drive \<Rightarrow> bool" where
  "drive_entry obj i d \<longleftrightarrow> json_object_get obj ''file'' = JSON_STR (drive_filename d) \<and>
     vm_get_str_opt obj ''device'' = Inr (drive_device d)"

definition fs_entry :: "json \<Rightarrow> nat \<Rightarrow> vm_fs \<Rightarrow> bool" where
  "fs_entry obj i f \<longleftrightarrow> json_object_get obj ''file'' = JSON_STR (fs_filename f) \<and>
     (\<exists>t. vm_get_str_opt obj ''tag'' = Inr t \<and> fs_tag f = (case t of None \<Rightarrow> root_tag i | Some t \<Rightarrow> t))"

definition eth_entry :: "json \<Rightarrow> nat \<Rightarrow> vm_eth \<Rightarrow> bool" where
  "eth_entry obj i e \<longleftrightarrow> json_object_get obj ''driver'' = JSON_STR (eth_driver e) \<and>
     (if eth_driver e = ''tap'' then \<exists>n. eth_ifname e = Some n \<and> json_object_get obj ''ifname'' = JSON_STR n else eth_ifname e = None)"

text \<open>The entries so far.\<close>

definition so_far :: "json \<Rightarrow> string \<Rightarrow> (json \<Rightarrow> nat \<Rightarrow> 'a \<Rightarrow> bool) \<Rightarrow> 'a list \<Rightarrow> bool" where
  "so_far cfg pre entry xs \<longleftrightarrow>
     (\<forall>i < length xs. \<not> json_is_undefined (json_object_get cfg (pre @ dec i)) \<and>
        entry (json_object_get cfg (pre @ dec i)) i (xs ! i))"

lemma so_far_snoc:
  "so_far cfg pre entry (xs @ [x]) \<longleftrightarrow> so_far cfg pre entry xs \<and>
     \<not> json_is_undefined (json_object_get cfg (pre @ dec (length xs))) \<and>
     entry (json_object_get cfg (pre @ dec (length xs))) (length xs) x"
  by (auto simp: so_far_def less_Suc_eq nth_append)

lemma drives_listed:
  "drives_loop cfg ds = Inr ds' \<Longrightarrow> so_far cfg ''drive'' drive_entry ds \<Longrightarrow> length ds \<le> 4 \<Longrightarrow>
     listed cfg ''drive'' drive_entry ds' \<and> length ds' \<le> 4"
proof (induction cfg ds rule: drives_loop.induct)
  case (1 cfg ds)
  let ?o = "json_object_get cfg (''drive'' @ dec (length ds))"
  show ?case
  proof (cases "json_is_undefined ?o")
    case True
    then show ?thesis using 1(2-4) by (auto simp: drives_loop.simps [of cfg ds] listed_def so_far_def)
  next
    case False
    then obtain f d where e: "\<not> MAX_DRIVE_DEVICE \<le> length ds" "vm_get_str ?o ''file'' = Inr f" "vm_get_str_opt ?o ''device'' = Inr d"
      "drives_loop cfg (ds @ [\<lparr>drive_device = d, drive_filename = f\<rparr>]) = Inr ds'"
      using 1(2) unfolding drives_loop.simps [of cfg ds] Let_def by (simp only: if_False bindE_Inr simp_thms sum.distinct split: if_split_asm) blast
    have en: "drive_entry ?o (length ds) \<lparr>drive_device = d, drive_filename = f\<rparr>"
      using e(2,3) by (simp add: drive_entry_def get_str)
    have "so_far cfg ''drive'' drive_entry (ds @ [\<lparr>drive_device = d, drive_filename = f\<rparr>])"
      using 1(3) False en by (simp add: so_far_snoc)
    then show ?thesis using 1(1) [OF refl False e(1) e(4)] e(1) by (simp add: MAX_DRIVE_DEVICE_def)
  qed
qed

lemma fs_listed:
  "fs_loop cfg ds = Inr ds' \<Longrightarrow> so_far cfg ''fs'' fs_entry ds \<Longrightarrow> length ds \<le> 4 \<Longrightarrow>
     listed cfg ''fs'' fs_entry ds' \<and> length ds' \<le> 4"
proof (induction cfg ds rule: fs_loop.induct)
  case (1 cfg ds)
  let ?o = "json_object_get cfg (''fs'' @ dec (length ds))"
  show ?case
  proof (cases "json_is_undefined ?o")
    case True
    then show ?thesis using 1(2-4) by (auto simp: fs_loop.simps [of cfg ds] listed_def so_far_def)
  next
    case False
    then obtain f t where e: "\<not> MAX_DRIVE_DEVICE \<le> length ds" "vm_get_str ?o ''file'' = Inr f" "vm_get_str_opt ?o ''tag'' = Inr t"
      "fs_loop cfg (ds @ [\<lparr>fs_tag = (case t of None \<Rightarrow> root_tag (length ds) | Some t \<Rightarrow> t), fs_filename = f\<rparr>]) = Inr ds'"
      using 1(2) unfolding fs_loop.simps [of cfg ds] Let_def by (simp only: if_False bindE_Inr simp_thms sum.distinct split: if_split_asm) blast
    have en: "fs_entry ?o (length ds) \<lparr>fs_tag = (case t of None \<Rightarrow> root_tag (length ds) | Some t \<Rightarrow> t), fs_filename = f\<rparr>"
      using e(2,3) by (auto simp: fs_entry_def get_str)
    have "so_far cfg ''fs'' fs_entry (ds @ [\<lparr>fs_tag = (case t of None \<Rightarrow> root_tag (length ds) | Some t \<Rightarrow> t), fs_filename = f\<rparr>])"
      using 1(3) False en by (simp add: so_far_snoc)
    then show ?thesis using 1(1) [OF refl False e(1) e(4)] e(1) by (simp add: MAX_DRIVE_DEVICE_def)
  qed
qed

lemma eth_listed:
  "eth_loop cfg ds = Inr ds' \<Longrightarrow> so_far cfg ''eth'' eth_entry ds \<Longrightarrow> length ds \<le> 1 \<Longrightarrow>
     listed cfg ''eth'' eth_entry ds' \<and> length ds' \<le> 1"
proof (induction cfg ds rule: eth_loop.induct)
  case (1 cfg ds)
  let ?o = "json_object_get cfg (''eth'' @ dec (length ds))"
  show ?case
  proof (cases "json_is_undefined ?o")
    case True
    then show ?thesis using 1(2-4) by (auto simp: eth_loop.simps [of cfg ds] listed_def so_far_def)
  next
    case False
    then obtain f n where e: "\<not> MAX_ETH_DEVICE \<le> length ds" "vm_get_str ?o ''driver'' = Inr f"
      "(if f = ''tap'' then map_sum id Some (vm_get_str ?o ''ifname'') else Inr None) = Inr n"
      "eth_loop cfg (ds @ [\<lparr>eth_driver = f, eth_ifname = n\<rparr>]) = Inr ds'"
      using 1(2) unfolding eth_loop.simps [of cfg ds] Let_def
      by (cases "MAX_ETH_DEVICE \<le> length ds") (simp_all only: if_True if_False bindE_Inr simp_thms sum.distinct, blast)
    have en: "eth_entry ?o (length ds) \<lparr>eth_driver = f, eth_ifname = n\<rparr>"
      using e(2,3) by (auto simp: eth_entry_def get_str map_sum_Inr split: if_split_asm)
    have "so_far cfg ''eth'' eth_entry (ds @ [\<lparr>eth_driver = f, eth_ifname = n\<rparr>])"
      using 1(3) False en by (simp add: so_far_snoc)
    then show ?thesis using 1(1) [OF refl False e(1) e(4)] e(1) by (simp add: MAX_ETH_DEVICE_def not_le)
  qed
qed

section \<open>Loading\<close>

lemma opt_file_Inr:
  "opt_file cfg tag i p = Inr p' \<longleftrightarrow>
     (\<exists>n. vm_get_str_opt cfg tag = Inr n \<and> p' = (case n of None \<Rightarrow> p | Some f \<Rightarrow> set_file i f p))"
  by (auto simp: opt_file_def)

definition named :: "string option \<Rightarrow> vm_file" where "named n = \<lparr>file_name = n, file_buf = None\<rparr>"

lemma set_file_case:
  fixes p :: vm_config
  assumes "i < length (files p)" and "files p ! i = named None"
  shows "(case n of None \<Rightarrow> p | Some f \<Rightarrow> set_file i f p) = p\<lparr>files := (files p)[i := named n]\<rparr>"
proof (cases n)
  case None
  have "(files p)[i := named None] = files p" using assms by (simp add: list_update_same_conv)
  then show ?thesis using None by simp
next
  case (Some f)
  then show ?thesis using assms by (simp add: set_file_def named_def)
qed

lemma find_case:
  "(case virt_machine_find_class m of None \<Rightarrow> x | Some c \<Rightarrow> f c) =
     (if m \<in> {''riscv32'', ''riscv64'', ''riscv128''} then f riscv_machine_class else x)"
  by (simp add: find_class)

lemma machine_parsed:
  assumes "parse_machine fresh g cfg p = Inr p'" and "files p = replicate 4 (named None)"
  shows "json_object_get cfg ''version'' = JSON_INT 1 \<and>
    (\<exists>m. json_object_get cfg ''machine'' = JSON_STR m \<and> machine_name p' = Some m \<and> m \<in> {''riscv32'', ''riscv64'', ''riscv128''}) \<and>
    vmc p' = Some riscv_machine_class \<and>
    (\<exists>v. json_object_get cfg ''memory_size'' = JSON_INT v \<and> vp_ram_size p' = push_bit 20 (word_of_int v)) \<and>
    (\<exists>b k i. vm_get_str_opt cfg ''bios'' = Inr b \<and> vm_get_str_opt cfg ''kernel'' = Inr k \<and> vm_get_str_opt cfg ''initrd'' = Inr i \<and>
       files p' = [named b, named None, named k, named i]) \<and>
    (\<exists>c. vm_get_str_opt cfg ''cmdline'' = Inr c \<and> cmdline p' = (case c of None \<Rightarrow> cmdline p | Some c \<Rightarrow> Some (cmdline_subst fresh g c))) \<and>
    cfg_filename p' = cfg_filename p \<and> tab_drive p' = tab_drive p \<and> tab_fs p' = tab_fs p \<and> tab_eth p' = tab_eth p \<and>
    vp_rtc_real_time p' = vp_rtc_real_time p"
proof -
  have f: "files p = [named None, named None, named None, named None]" using assms(2) by (simp add: eval_nat_numeral)
  obtain m v b k i c where
    m: "vm_get_int cfg ''version'' = Inr VM_CONFIG_VERSION" "vm_get_str cfg ''machine'' = Inr m"
    "m \<in> {''riscv32'', ''riscv64'', ''riscv128''}" and v: "vm_get_int cfg ''memory_size'' = Inr v"
    and o: "vm_get_str_opt cfg ''bios'' = Inr b" "vm_get_str_opt cfg ''kernel'' = Inr k" "vm_get_str_opt cfg ''initrd'' = Inr i"
    "vm_get_str_opt cfg ''cmdline'' = Inr c"
    and p': "p' = (let p = p\<lparr>machine_name := Some m, vmc := Some riscv_machine_class, vp_ram_size := push_bit 20 (word_of_int v)\<rparr>;
        p = (case b of None \<Rightarrow> p | Some f \<Rightarrow> set_file VM_FILE_BIOS f p);
        p = (case k of None \<Rightarrow> p | Some f \<Rightarrow> set_file VM_FILE_KERNEL f p);
        p = (case i of None \<Rightarrow> p | Some f \<Rightarrow> set_file VM_FILE_INITRD f p)
      in case c of None \<Rightarrow> p | Some c \<Rightarrow> p\<lparr>cmdline := Some (cmdline_subst fresh g c)\<rparr>)"
    using assms(1) unfolding parse_machine_def find_case Let_def
    by (simp only: bindE_Inr opt_file_Inr Inr_Inl_False sum.distinct sum.inject simp_thms split: if_split_asm) blast
  let ?p = "p\<lparr>machine_name := Some m, vmc := Some riscv_machine_class, vp_ram_size := push_bit 20 (word_of_int v),
      files := [named b, named None, named k, named i]\<rparr>"
  define p0 where "p0 = p\<lparr>machine_name := Some m, vmc := Some riscv_machine_class, vp_ram_size := push_bit 20 (word_of_int v)\<rparr>"
  have f0: "files p0 = [named None, named None, named None, named None]" by (simp add: p0_def f)
  have s1: "(case b of None \<Rightarrow> p0 | Some f \<Rightarrow> set_file VM_FILE_BIOS f p0) = p0\<lparr>files := [named b, named None, named None, named None]\<rparr>"
    by (subst set_file_case) (simp_all add: f0 VM_FILE_BIOS_def)
  have s2: "(case k of None \<Rightarrow> q | Some f \<Rightarrow> set_file VM_FILE_KERNEL f q) = q\<lparr>files := [named b, named None, named k, named None]\<rparr>"
    if "files q = [named b, named None, named None, named None]" for q
    by (subst set_file_case) (simp_all add: that VM_FILE_KERNEL_def numeral_2_eq_2)
  have s3: "(case i of None \<Rightarrow> q | Some f \<Rightarrow> set_file VM_FILE_INITRD f q) = q\<lparr>files := [named b, named None, named k, named i]\<rparr>"
    if "files q = [named b, named None, named k, named None]" for q
    by (subst set_file_case) (simp_all add: that VM_FILE_INITRD_def numeral_3_eq_3)
  have s2': "(case k of None \<Rightarrow> p0\<lparr>files := [named b, named None, named None, named None]\<rparr>
      | Some f \<Rightarrow> set_file VM_FILE_KERNEL f (p0\<lparr>files := [named b, named None, named None, named None]\<rparr>)) =
      p0\<lparr>files := [named b, named None, named k, named None]\<rparr>"
    by (subst s2) simp_all
  have s3': "(case i of None \<Rightarrow> p0\<lparr>files := [named b, named None, named k, named None]\<rparr>
      | Some f \<Rightarrow> set_file VM_FILE_INITRD f (p0\<lparr>files := [named b, named None, named k, named None]\<rparr>)) =
      p0\<lparr>files := [named b, named None, named k, named i]\<rparr>"
    by (subst s3) simp_all
  have "p' = (case c of None \<Rightarrow> ?p | Some c \<Rightarrow> ?p\<lparr>cmdline := Some (cmdline_subst fresh g c)\<rparr>)"
    unfolding p' Let_def p0_def [symmetric] s1 s2' s3' by (simp add: p0_def)
  then show ?thesis using m v o by (simp add: get_int get_str VM_CONFIG_VERSION_def split: option.split)
qed

text \<open>The fields of the machine, which the later parts leave alone.\<close>

definition same_machine :: "vm_config \<Rightarrow> vm_config \<Rightarrow> bool" where
  "same_machine p p' \<longleftrightarrow> cfg_filename p' = cfg_filename p \<and> vmc p' = vmc p \<and> machine_name p' = machine_name p \<and>
     vp_ram_size p' = vp_ram_size p \<and> vp_rtc_real_time p' = vp_rtc_real_time p \<and> cmdline p' = cmdline p"

definition same_tables :: "vm_config \<Rightarrow> vm_config \<Rightarrow> bool" where
  "same_tables p p' \<longleftrightarrow> tab_drive p' = tab_drive p \<and> tab_fs p' = tab_fs p \<and> tab_eth p' = tab_eth p"

lemma devices_parsed:
  assumes "parse_devices cfg p = Inr p'" and "tab_drive p = []" "tab_fs p = []" "tab_eth p = []"
  shows "same_machine p p' \<and> files p' = files p \<and>
    listed cfg ''drive'' drive_entry (tab_drive p') \<and> length (tab_drive p') \<le> 4 \<and>
    listed cfg ''fs'' fs_entry (tab_fs p') \<and> length (tab_fs p') \<le> 4 \<and>
    listed cfg ''eth'' eth_entry (tab_eth p') \<and> length (tab_eth p') \<le> 1"
  using assms drives_listed [of cfg "[]"] fs_listed [of cfg "[]"] eth_listed [of cfg "[]"]
  by (auto simp: parse_devices_def so_far_def same_machine_def)

lemma display_parsed:
  assumes "parse_display cfg p = Inr p'" and "files p = [b, named None, k, i]"
  shows "same_machine p p' \<and> same_tables p p' \<and> (\<exists>v. files p' = [b, named v, k, i])"
proof -
  let ?o = "json_object_get cfg ''display0''"
  show ?thesis
  proof (cases "json_is_undefined ?o")
    case True
    then show ?thesis using assms by (auto simp: parse_display_def Let_def same_machine_def same_tables_def)
  next
    case False
    then obtain dev w h v where "p' = (let p = p\<lparr>display_device := Some dev, width := w, height := h\<rparr>
        in case v of None \<Rightarrow> p | Some f \<Rightarrow> set_file VM_FILE_VGA_BIOS f p)"
      using assms(1) by (auto simp: parse_display_def Let_def opt_file_Inr)
    then show ?thesis
      using assms(2) by (auto simp: set_file_case VM_FILE_VGA_BIOS_def same_machine_def same_tables_def)
  qed
qed

lemma options_parsed:
  assumes "parse_options cfg p = Inr p'"
  shows "same_machine p p' \<and> same_tables p p' \<and> files p' = files p"
  using assms unfolding parse_options_def Let_def bindE_Inr
  by (elim exE conjE) (auto simp: same_machine_def same_tables_def split: option.split_asm if_split_asm json.split_asm)

section \<open>The additional files\<close>

definition loaded :: "(string \<Rightarrow> string option) \<Rightarrow> string option \<Rightarrow> vm_file \<Rightarrow> vm_file" where
  "loaded wget base f = (case file_name f of None \<Rightarrow> f | Some n \<Rightarrow> f\<lparr>file_buf := wget (get_file_path base n)\<rparr>)"

definition loadable :: "(string \<Rightarrow> string option) \<Rightarrow> string option \<Rightarrow> vm_file \<Rightarrow> bool" where
  "loadable wget base f \<longleftrightarrow> (\<forall>n. file_name f = Some n \<longrightarrow> is_url (get_file_path base n) \<and> wget (get_file_path base n) \<noteq> None)"

lemma load_files:
  assumes "length (files p) = 4"
  shows "config_additional_file_load wget i p =
    (if list_all (loadable wget (cfg_filename p)) (drop i (files p))
     then Some (p\<lparr>files := take i (files p) @ map (loaded wget (cfg_filename p)) (drop i (files p))\<rparr>) else None)"
  using assms
proof (induction wget i p rule: config_additional_file_load.induct)
  case (1 wget i p)
  show ?case
  proof (cases "VM_FILE_COUNT \<le> i")
    case True
    then show ?thesis using 1(3) by (subst config_additional_file_load.simps) (simp add: VM_FILE_COUNT_def)
  next
    case False
    then have i: "i < length (files p)" using 1(3) by (simp add: VM_FILE_COUNT_def)
    have d: "drop i (files p) = files p ! i # drop (Suc i) (files p)" by (rule Cons_nth_drop_Suc [symmetric, OF i])
    have t: "take (Suc i) (files p) = take i (files p) @ [files p ! i]" by (rule take_Suc_conv_app_nth [OF i])
    show ?thesis
    proof (cases "file_name (files p ! i)")
      case None
      have "config_additional_file_load wget i p = config_additional_file_load wget (i + 1) p"
        using False None by (subst config_additional_file_load.simps) simp
      then show ?thesis using 1(1) [OF False None 1(3)] None d t by (simp add: loadable_def loaded_def)
    next
      case (Some n)
      let ?n = "get_file_path (cfg_filename p) n"
      show ?thesis
      proof (cases "is_url ?n \<and> wget ?n \<noteq> None")
        case True
        then obtain b where b: "wget ?n = Some b" "config_load_file wget ?n = Some b" by (auto simp: config_load_file_def)
        let ?f = "(files p ! i)\<lparr>file_buf := Some b\<rparr>"
        let ?p = "p\<lparr>files := (files p)[i := ?f]\<rparr>"
        have "config_additional_file_load wget i p = config_additional_file_load wget (i + 1) ?p"
          using False Some b(2) by (subst config_additional_file_load.simps) simp
        moreover have "length (files ?p) = 4" using 1(3) by simp
        moreover have "take (Suc i) ((files p)[i := ?f]) = take i (files p) @ [?f]"
          using i by (simp add: take_Suc_conv_app_nth)
        ultimately show ?thesis using 1(2) [OF False Some b(2)] True d b(1) Some
          by (simp add: loadable_def loaded_def)
      next
        case no: False
        then have "config_load_file wget ?n = None" by (auto simp: config_load_file_def)
        then have "config_additional_file_load wget i p = None"
          using False Some by (subst config_additional_file_load.simps) simp
        then show ?thesis using no Some d by (auto simp: loadable_def)
      qed
    qed
  qed
qed

section \<open>A configuration that loads\<close>

text \<open>
  What the front end gets: the tables, the machine, the memory size and the files the configuration \<open>cfg\<close> read from
  \<open>url\<close> asks for.
\<close>

definition describes :: "(nat \<Rightarrow> string) \<Rightarrow> int \<Rightarrow> (string \<Rightarrow> string option) \<Rightarrow> string \<Rightarrow> json \<Rightarrow> vm_config \<Rightarrow> bool" where
  "describes fresh gmtoff wget url cfg p \<longleftrightarrow>
     json_object_get cfg ''version'' = JSON_INT 1 \<and>
     (\<exists>m. json_object_get cfg ''machine'' = JSON_STR m \<and> machine_name p = Some m \<and> m \<in> {''riscv32'', ''riscv64'', ''riscv128''}) \<and>
     vmc p = Some riscv_machine_class \<and> cfg_filename p = Some url \<and>
     (\<exists>v. json_object_get cfg ''memory_size'' = JSON_INT v \<and> 0 \<le> v \<and> v < 2 ^ 31 \<and> uint (vp_ram_size p) = v * 2 ^ 20) \<and>
     listed cfg ''drive'' drive_entry (tab_drive p) \<and> length (tab_drive p) \<le> 4 \<and>
     listed cfg ''fs'' fs_entry (tab_fs p) \<and> length (tab_fs p) \<le> 4 \<and>
     listed cfg ''eth'' eth_entry (tab_eth p) \<and> length (tab_eth p) \<le> 1 \<and>
     (\<exists>c. vm_get_str_opt cfg ''cmdline'' = Inr c \<and> cmdline p = map_option (cmdline_subst fresh gmtoff) c) \<and>
     (\<exists>b v k i. vm_get_str_opt cfg ''bios'' = Inr b \<and> vm_get_str_opt cfg ''kernel'' = Inr k \<and>
        vm_get_str_opt cfg ''initrd'' = Inr i \<and> map file_name (files p) = [b, v, k, i]) \<and>
     (\<forall>f \<in> set (files p). file_buf f = (case file_name f of None \<Rightarrow> None | Some n \<Rightarrow> wget (get_file_path (Some url) n)) \<and>
        (file_name f \<noteq> None \<longrightarrow> file_buf f \<noteq> None))"

lemma object_get_int_range:
  assumes "json_wf cfg" and "json_object_get cfg name = JSON_INT v"
  shows "0 \<le> v \<and> v < 2 ^ 31"
proof -
  obtain kvs where k: "cfg = JSON_OBJ kvs" "json_object_get2 kvs name = Some (JSON_INT v)"
    using assms(2) by (auto simp: json_object_get_def split: json.split_asm option.split_asm)
  have "(name, JSON_INT v) \<in> set kvs" using k(2) by (induction kvs name rule: json_object_get2.induct) (auto split: if_split_asm)
  then show ?thesis using assms(1) k(1) by auto
qed

lemma load_describes:
  assumes "virt_machine_load_config_file fresh gmtoff wget url virt_machine_set_defaults = Some p"
  shows "\<exists>text cfg. wget url = Some text \<and> json_parse_value text = Some cfg \<and> describes fresh gmtoff wget url cfg p"
proof -
  let ?p0 = "virt_machine_set_defaults\<lparr>cfg_filename := Some url\<rparr>"
  have p0: "files ?p0 = replicate 4 (named None)" "tab_drive ?p0 = []" "tab_fs ?p0 = []" "tab_eth ?p0 = []" "cmdline ?p0 = None"
    "cfg_filename ?p0 = Some url"
    by (simp_all add: virt_machine_set_defaults_def VM_FILE_COUNT_def named_def)
  obtain str r where s: "wget url = Some str" "virt_machine_parse_config fresh gmtoff ?p0 str (length str) = Some r"
    "(case r of Inl _ \<Rightarrow> None | Inr p \<Rightarrow> config_additional_file_load wget 0 p) = Some p"
    using assms by (auto simp: virt_machine_load_config_file_def config_load_file_def config_file_loaded_def bind_Some_conv
        Let_def split: if_split_asm)
  then obtain p4 where p4: "r = Inr p4" "config_additional_file_load wget 0 p4 = Some p" by (cases r) simp_all
  obtain cfg where t: "wget url = Some str" "json_parse_value str = Some cfg" "json_get_error cfg = None"
    and c: "bindE (parse_machine fresh gmtoff cfg ?p0) (\<lambda>p. bindE (parse_devices cfg p) (\<lambda>p.
      bindE (parse_display cfg p) (\<lambda>p. parse_options cfg p))) = Inr p4"
    using s(1,2) p4(1) by (auto simp: virt_machine_parse_config_def json_parse_value_len_def bind_Some_conv simp del: bindE_Inr
        split: option.split_asm)
  then obtain p1 p2 p3 where p: "parse_machine fresh gmtoff cfg ?p0 = Inr p1" "parse_devices cfg p1 = Inr p2"
      "parse_display cfg p2 = Inr p3" "parse_options cfg p3 = Inr p4" "config_additional_file_load wget 0 p4 = Some p"
    using p4(2) by auto
  have wf: "json_wf cfg" using json_parse_wf [OF t(2)] .
  note m = machine_parsed [OF p(1) p0(1)]
  then obtain b k i where f1: "files p1 = [named b, named None, named k, named i]" "vm_get_str_opt cfg ''bios'' = Inr b"
      "vm_get_str_opt cfg ''kernel'' = Inr k" "vm_get_str_opt cfg ''initrd'' = Inr i" by blast
  have d: "same_machine p1 p2 \<and> files p2 = files p1 \<and>
    listed cfg ''drive'' drive_entry (tab_drive p2) \<and> length (tab_drive p2) \<le> 4 \<and>
    listed cfg ''fs'' fs_entry (tab_fs p2) \<and> length (tab_fs p2) \<le> 4 \<and>
    listed cfg ''eth'' eth_entry (tab_eth p2) \<and> length (tab_eth p2) \<le> 1"
    using m p0 by (intro devices_parsed [OF p(2)]) simp_all
  obtain v where y: "same_machine p2 p3" "same_tables p2 p3" "files p3 = [named b, named v, named k, named i]"
    using display_parsed [OF p(3)] d f1(1) by auto
  have o: "same_machine p3 p4" "same_tables p3 p4" "files p4 = [named b, named v, named k, named i]"
    using options_parsed [OF p(4)] y(3) by simp_all
  have cfgn: "cfg_filename p4 = Some url" using m d y(1) o(1) p0(6) by (simp add: same_machine_def)
  have l: "list_all (loadable wget (Some url)) (files p4)" "p = p4\<lparr>files := map (loaded wget (Some url)) (files p4)\<rparr>"
    using p(5) load_files [of p4 wget 0] o(3) cfgn by (simp_all split: if_split_asm)
  obtain w where w: "json_object_get cfg ''memory_size'' = JSON_INT w" "vp_ram_size p1 = push_bit 20 (word_of_int w)"
    using m by blast
  have r: "0 \<le> w" "w < 2 ^ 31" using object_get_int_range [OF wf w(1)] by simp_all
  have ram: "uint (vp_ram_size p1) = w * 2 ^ 20"
  proof -
    have "w * 2 ^ 20 < 2 ^ 64" using r by simp
    moreover have "vp_ram_size p1 = word_of_int (w * 2 ^ 20)" using w(2) by (simp add: push_bit_eq_mult)
    ultimately show ?thesis using r(1) by (simp only: uint_word_of_int) (simp add: mod_pos_pos_trivial)
  qed
  have keep: "same_machine p1 p" "same_tables p2 p"
    using d y o l(2) by (simp_all add: same_machine_def same_tables_def)
  have ln: "file_name (loaded wget base f) = file_name f" for base f by (simp add: loaded_def split: option.split)
  have files: "map file_name (files p) = [b, v, k, i]"
    unfolding l(2) by (simp add: o(3) ln) (simp add: named_def)
  have bufs: "file_buf f = (case file_name f of None \<Rightarrow> None | Some n \<Rightarrow> wget (get_file_path (Some url) n)) \<and>
      (file_name f \<noteq> None \<longrightarrow> file_buf f \<noteq> None)" if mem: "f \<in> set (files p)" for f
  proof -
    have "files p = map (loaded wget (Some url)) (files p4)" by (subst l(2)) simp
    then obtain g where g: "g \<in> set (files p4)" "f = loaded wget (Some url) g" using mem by auto
    then have "file_buf g = None" unfolding o(3) by (auto simp: named_def)
    moreover have "loadable wget (Some url) g" using l(1) g(1) by (simp add: list_all_iff)
    ultimately show ?thesis using g(2) by (auto simp: loaded_def loadable_def split: option.split)
  qed
  have tabs: "tab_drive p = tab_drive p2" "tab_fs p = tab_fs p2" "tab_eth p = tab_eth p2"
    and mach: "cfg_filename p = cfg_filename p1" "vmc p = vmc p1" "machine_name p = machine_name p1" "vp_ram_size p = vp_ram_size p1"
      "cmdline p = cmdline p1"
    using keep by (simp_all add: same_machine_def same_tables_def)
  have cl: "\<exists>c. vm_get_str_opt cfg ''cmdline'' = Inr c \<and> cmdline p = map_option (cmdline_subst fresh gmtoff) c"
    using m p0(5) mach(5) by (auto split: option.split_asm)
  have "describes fresh gmtoff wget url cfg p"
    unfolding describes_def tabs mach(1-4) ram
    using m d w(1) r cl files f1(2-4) bufs p0(6) by (intro conjI) (blast | simp)+
  then show ?thesis using t by blast
qed

text \<open>
  C27. When the configuration file loads, the machine that results is the one it describes: version 1, a known machine, the
  memory size in megabytes without wrap-around, exactly the drives, file systems and network interfaces numbered from 0 up to the first
  missing one, no more than their tables hold, the command line with its variables replaced, and each file it names,
  found relative to the configuration file, with its contents.
\<close>
theorem config_loaded:
  assumes "virt_machine_load_config_file fresh gmtoff wget url virt_machine_set_defaults = Some p"
  shows "\<exists>text cfg. wget url = Some text \<and> json_parse_value text = Some cfg \<and> describes fresh gmtoff wget url cfg p"
  by (rule load_describes [OF assms])

text \<open>A configuration with a BIOS.\<close>

definition sample_wget :: "string \<Rightarrow> string option" where
  "sample_wget url =
     (if url = ''http://h/vm.cfg''
      then Some (''{version:1,machine:'' @ [CHR 0x22] @ ''riscv32'' @ [CHR 0x22] @ '',memory_size:32,bios:'' @ [CHR 0x22] @ ''b'' @ [CHR 0x22] @ ''}'')
      else if url = ''http://h/b'' then Some ''bios''
      else None)"

definition sample_config :: vm_config where
  "sample_config = virt_machine_set_defaults\<lparr>cfg_filename := Some ''http://h/vm.cfg'', machine_name := Some ''riscv32'',
     vmc := Some riscv_machine_class, vp_ram_size := 0x2000000,
     files := [\<lparr>file_name = Some ''b'', file_buf = Some ''bios''\<rparr>, named None, named None, named None]\<rparr>"

lemma sample_config:
  "virt_machine_load_config_file (\<lambda>n. replicate n NUL) 0 sample_wget ''http://h/vm.cfg'' virt_machine_set_defaults = Some sample_config"
  by code_simp

theorem config_loaded_witness:
  "\<exists>cfg. describes (\<lambda>n. replicate n NUL) 0 sample_wget ''http://h/vm.cfg'' cfg sample_config"
  using config_loaded [OF sample_config] by blast

end
