(* ===== verification/Config_Boot.thy ===== *)
theory Config_Boot
  imports Config_Props Riscv_Machine_Props
begin

text \<open>
  From a configuration file to a running machine: the parameters \<open>riscv_machine_init\<close> takes from the configuration, and
  what a machine started from one does.
\<close>

definition file_bytes :: "string option \<Rightarrow> u8 list" where
  "file_bytes b = (case b of None \<Rightarrow> [] | Some s \<Rightarrow> map (\<lambda>c. of_nat (code c)) s)"

definition boot_params :: "vm_config \<Rightarrow> vm_params" where
  "boot_params p =
     \<lparr>p_ram_size = vp_ram_size p, p_rtc_real_time = vp_rtc_real_time p,
      p_bios = file_bytes (file_buf (files p ! VM_FILE_BIOS)), p_kernel = file_bytes (file_buf (files p ! VM_FILE_KERNEL)),
      p_initrd = file_bytes (file_buf (files p ! VM_FILE_INITRD)),
      p_cmdline = map_option (\<lambda>c. file_bytes (Some c)) (cmdline p)\<rparr>"

lemma config_ram:
  assumes "describes fresh gmtoff wget url cfg p" and "json_object_get cfg ''memory_size'' = JSON_INT v"
  shows "unat (vp_ram_size p) = nat v * 2 ^ 20" and "nat v < 2 ^ 31"
proof -
  have "uint (vp_ram_size p) = v * 2 ^ 20" "0 \<le> v" "v < 2 ^ 31" using assms by (auto simp: describes_def)
  then show "unat (vp_ram_size p) = nat v * 2 ^ 20" "nat v < 2 ^ 31" by (simp_all add: unat_eq_nat_uint nat_mult_distrib)
qed

lemma running:
  assumes "riscv_machine_init T q = Some (OK s)" and "0 < n" and "n < 2 ^ 31"
  shows "\<exists>s'. riscv_machine_interp T U n s = Some (Some s') \<and> vm_reach T U s'"
proof -
  have r: "vm_reach T U s" using assms(1) by (rule reach_init)
  then obtain s' where "riscv_machine_interp T U n s = Some (Some s')"
    using machine_interp_ok [OF vm_reach_ok assms(2,3)] by blast
  then show ?thesis using reach_interp [OF r assms(2,3)] by blast
qed



end
