(* ===== verification/Fs_Mem.thy ===== *)
theory Fs_Mem
  imports Emu_Prelude
begin

text \<open>
  The file system in memory of \<open>fs_net.c\<close>: inodes with their two counts, directories, regular files with their
  buffer, and the operations \<open>fs_mem_init\<close> puts in the table of functions \<open>FSDevice\<close> of \<open>fs.h\<close>.

  A pointer is a number and a live object a value of the map for its type, so an access to a freed object gives
  \<open>None\<close>, as does a failed \<open>assert\<close>, \<open>abort\<close> and an access outside a file buffer. \<open>size_t\<close> and \<open>intptr_t\<close> have
  32 bits. The file buffers are those of \<open>fs_net.c\<close> itself, which the build for the browser replaces by functions of
  \<open>js/lib.js\<close>. A C string is the list of its bytes before the NUL. \<open>malloc\<close> does not fail, but \<open>realloc\<close> may.
\<close>

type_synonym fname = "u8 list"
type_synonym iptr = nat
type_synonym fptr = nat

section \<open>Constants of \<open>fs.h\<close>\<close>

definition P9_QTDIR :: u8 where "P9_QTDIR = 0x80"
definition P9_QTSYMLINK :: u8 where "P9_QTSYMLINK = 0x02"
definition P9_QTFILE :: u8 where "P9_QTFILE = 0x00"
definition P9_S_IFMT :: u32 where "P9_S_IFMT = 0xF000"
definition P9_O_RDONLY :: u32 where "P9_O_RDONLY = 0"
definition P9_O_WRONLY :: u32 where "P9_O_WRONLY = 1"
definition P9_O_NOACCESS :: u32 where "P9_O_NOACCESS = 3"
definition P9_O_TRUNC :: u32 where "P9_O_TRUNC = 0x200"
definition P9_O_DIRECTORY :: u32 where "P9_O_DIRECTORY = 0x10000"
definition P9_SETATTR_MODE :: u32 where "P9_SETATTR_MODE = 1"
definition P9_SETATTR_UID :: u32 where "P9_SETATTR_UID = 2"
definition P9_SETATTR_GID :: u32 where "P9_SETATTR_GID = 4"
definition P9_SETATTR_SIZE :: u32 where "P9_SETATTR_SIZE = 8"
definition P9_SETATTR_MTIME :: u32 where "P9_SETATTR_MTIME = 0x20"
definition P9_SETATTR_CTIME :: u32 where "P9_SETATTR_CTIME = 0x40"
definition P9_SETATTR_MTIME_SET :: u32 where "P9_SETATTR_MTIME_SET = 0x100"
definition P9_EPERM :: int where "P9_EPERM = 1"
definition P9_ENOENT :: int where "P9_ENOENT = 2"
definition P9_EIO :: int where "P9_EIO = 5"
definition P9_EEXIST :: int where "P9_EEXIST = 17"
definition P9_ENOTDIR :: int where "P9_ENOTDIR = 20"
definition P9_EINVAL :: int where "P9_EINVAL = 22"
definition P9_ENOSPC :: int where "P9_ENOSPC = 28"
definition P9_ENOTEMPTY :: int where "P9_ENOTEMPTY = 39"
definition P9_EPROTO :: int where "P9_EPROTO = 71"
definition P9_LOCK_SUCCESS :: int where "P9_LOCK_SUCCESS = 0"

lemmas p9_consts = P9_QTDIR_def P9_QTSYMLINK_def P9_QTFILE_def P9_S_IFMT_def P9_O_RDONLY_def P9_O_WRONLY_def
  P9_O_NOACCESS_def P9_O_TRUNC_def P9_O_DIRECTORY_def P9_SETATTR_MODE_def P9_SETATTR_UID_def P9_SETATTR_GID_def
  P9_SETATTR_SIZE_def P9_SETATTR_MTIME_def P9_SETATTR_CTIME_def P9_SETATTR_MTIME_SET_def

lemmas p9_errors = P9_EPERM_def P9_ENOENT_def P9_EIO_def P9_EEXIST_def P9_ENOTDIR_def P9_EINVAL_def
  P9_ENOSPC_def P9_ENOTEMPTY_def P9_EPROTO_def P9_LOCK_SUCCESS_def

section \<open>Data\<close>

record fsqid =
  qid_type :: u8
  qid_version :: u32
  qid_path :: u64

record fsstat =
  st_qid :: fsqid
  st_mode :: u32
  st_uid :: u32
  st_gid :: u32
  st_nlink :: u64
  st_rdev :: u64
  st_size :: u64
  st_blksize :: u64
  st_blocks :: u64
  st_atime_sec :: u64
  st_atime_nsec :: u32
  st_mtime_sec :: u64
  st_mtime_nsec :: u32
  st_ctime_sec :: u64
  st_ctime_nsec :: u32

record fsstatfs =
  f_bsize :: u32
  f_blocks :: u64
  f_bfree :: u64
  f_bavail :: u64
  f_files :: u64
  f_ffree :: u64

datatype reg_state = REG_STATE_LOCAL | REG_STATE_UNLOADED | REG_STATE_LOADING | REG_STATE_LOADED

text \<open>\<open>fbuf\<close> has the allocated bytes of the file buffer, of which the first \<open>rg_size\<close> are the file.\<close>

record freg =
  rg_state :: reg_state
  rg_size :: u32
  fbuf :: "u8 list"
  is_fscmd :: bool

record dirent =
  de_ptr :: nat
  de_name :: fname
  de_inode :: iptr

text \<open>The type of an inode and the part of the union \<open>u\<close> that goes with it.\<close>

datatype inode_u = FT_FIFO | FT_CHR u32 u32 | FT_DIR "dirent list" int | FT_BLK u32 u32 | FT_REG freg
  | FT_LNK fname | FT_SOCK

primrec ft_num :: "inode_u \<Rightarrow> u32" where
  "ft_num FT_FIFO = 1"
| "ft_num (FT_CHR ma mi) = 2"
| "ft_num (FT_DIR ds sz) = 4"
| "ft_num (FT_BLK ma mi) = 6"
| "ft_num (FT_REG r) = 8"
| "ft_num (FT_LNK nm) = 10"
| "ft_num FT_SOCK = 12"

record inode =
  inode_num :: u64
  refcount :: int
  open_count :: int
  i_mode :: u32
  i_uid :: u32
  i_gid :: u32
  mtime_sec :: u32
  ctime_sec :: u32
  mtime_nsec :: u32
  ctime_nsec :: u32
  i_u :: inode_u

record fsfile =
  f_uid :: u32
  f_inode :: iptr
  is_opened :: bool
  open_flags :: u32
  f_req :: bool

text \<open>
  \<open>inode_list\<close> is the list of all inodes and \<open>inodes\<close> their contents; \<open>files\<close> are the \<open>FSFile\<close> objects; \<open>next_ptr\<close>
  is an address that has not been allocated; \<open>tod\<close> what \<open>gettimeofday\<close> gives, in seconds and nanoseconds.
\<close>

record fsmem =
  inode_list :: "iptr list"
  inodes :: "iptr \<Rightarrow> inode option"
  files :: "fptr \<Rightarrow> fsfile option"
  next_ptr :: nat
  inode_count :: int
  inode_limit :: u64
  fs_blocks :: int
  fs_max_blocks :: u64
  inode_num_alloc :: u64
  block_size_log2 :: nat
  block_size :: u32
  root_inode :: iptr
  inode_cache_list :: "iptr list"
  inode_cache_size :: int
  tod :: "u32 \<times> u32"

text \<open>
  What the operations use of the rest: the contents of fresh memory, whether \<open>realloc\<close> succeeds, and, of the same
  source, the loading of files over the network and the command file, which these theories do not model:
  the end of \<open>inode_free\<close> and the part of \<open>fs_open\<close> for a file that is not local, \<open>fs_cmd_read\<close>, \<open>fs_cmd_write\<close> and
  \<open>fs_cmd_close\<close>.
\<close>

record 's fs_env =
  junk :: "nat \<Rightarrow> u8 list"
  realloc_ok :: "nat \<Rightarrow> bool"
  net_release :: "iptr \<Rightarrow> 's \<Rightarrow> 's option"
  net_open :: "iptr \<Rightarrow> fptr \<Rightarrow> 's \<Rightarrow> (int \<times> 's) option"
  fs_cmd_read :: "fptr \<Rightarrow> u64 \<Rightarrow> int \<Rightarrow> 's \<Rightarrow> (int \<times> u8 list \<times> 's) option"
  fs_cmd_write :: "fptr \<Rightarrow> u64 \<Rightarrow> u8 list \<Rightarrow> int \<Rightarrow> 's \<Rightarrow> (int \<times> 's) option"
  fs_cmd_close :: "fptr \<Rightarrow> 's \<Rightarrow> 's option"

section \<open>File buffers\<close>

text \<open>The inner option is \<open>None\<close> when the function returns -1.\<close>

definition file_buffer_resize :: "'s fs_env \<Rightarrow> u8 list \<Rightarrow> u32 \<Rightarrow> u8 list option" where
  "file_buffer_resize E data new_size =
     (if \<not> realloc_ok E (unat new_size) \<and> new_size \<noteq> 0 then None
      else Some (take (unat new_size) data @ junk E (unat new_size - length data)))"

definition file_buffer_write :: "u8 list \<Rightarrow> u32 \<Rightarrow> u8 list \<Rightarrow> u32 \<Rightarrow> u8 list option" where
  "file_buffer_write data offset buf sz =
     (if unat sz \<le> length buf \<and> unat offset + unat sz \<le> length data
      then Some (take (unat offset) data @ take (unat sz) buf @ drop (unat offset + unat sz) data)
      else None)"

definition file_buffer_set :: "u8 list \<Rightarrow> u32 \<Rightarrow> u8 \<Rightarrow> u32 \<Rightarrow> u8 list option" where
  "file_buffer_set data offset val sz =
     (if unat offset + unat sz \<le> length data
      then Some (take (unat offset) data @ replicate (unat sz) val @ drop (unat offset + unat sz) data)
      else None)"

definition file_buffer_read :: "u8 list \<Rightarrow> u32 \<Rightarrow> u32 \<Rightarrow> u8 list option" where
  "file_buffer_read data offset sz =
     (if unat offset + unat sz \<le> length data then Some (take (unat sz) (drop (unat offset) data)) else None)"

section \<open>Inodes\<close>

definition to_blocks :: "'x fsmem_scheme \<Rightarrow> u64 \<Rightarrow> int" where
  "to_blocks fs sz = sint (drop_bit (block_size_log2 fs) (sz + ucast (block_size fs) - 1))"

definition mod_inode :: "iptr \<Rightarrow> (inode \<Rightarrow> inode) \<Rightarrow> 'x fsmem_scheme \<Rightarrow> 'x fsmem_scheme option" where
  "mod_inode i f fs = do { n \<leftarrow> inodes fs i; Some (fs\<lparr>inodes := (inodes fs)(i \<mapsto> f n)\<rparr>) }"

definition inode_incref :: "iptr \<Rightarrow> 'x fsmem_scheme \<Rightarrow> 'x fsmem_scheme option" where
  "inode_incref i = mod_inode i (\<lambda>n. n\<lparr>refcount := refcount n + 1\<rparr>)"

definition inode_inc_open :: "iptr \<Rightarrow> 'x fsmem_scheme \<Rightarrow> 'x fsmem_scheme option" where
  "inode_inc_open i = mod_inode i (\<lambda>n. n\<lparr>open_count := open_count n + 1\<rparr>)"

text \<open>The cases of \<open>inode_free\<close> on the type of the inode; then it is unlinked from the list and freed.\<close>

definition inode_release :: "'x fsmem_scheme fs_env \<Rightarrow> iptr \<Rightarrow> inode_u \<Rightarrow> 'x fsmem_scheme \<Rightarrow> 'x fsmem_scheme option" where
  "inode_release E i u fs =
     (case u of
        FT_REG r \<Rightarrow>
          (let blocks = fs_blocks fs - to_blocks fs (ucast (rg_size r)) in
           if blocks < 0 then None
           else let fs = fs\<lparr>fs_blocks := blocks\<rparr> in
             case rg_state r of
               REG_STATE_LOCAL \<Rightarrow> Some fs
             | REG_STATE_LOADED \<Rightarrow>
                 (let sz = inode_cache_size fs - uint (rg_size r) in
                  if sz < 0 then None
                  else net_release E i (fs\<lparr>inode_cache_list := remove1 i (inode_cache_list fs), inode_cache_size := sz\<rparr>))
             | _ \<Rightarrow> net_release E i fs)
      | FT_DIR ds sz \<Rightarrow> (if ds = [] then Some fs else None)
      | _ \<Rightarrow> Some fs)"

definition inode_free :: "'x fsmem_scheme fs_env \<Rightarrow> iptr \<Rightarrow> 'x fsmem_scheme \<Rightarrow> 'x fsmem_scheme option" where
  "inode_free E i fs =
     do { n \<leftarrow> inodes fs i;
          if refcount n \<noteq> 0 \<or> open_count n \<noteq> 0 then None
          else do {
            fs \<leftarrow> inode_release E i (i_u n) fs;
            let fs = fs\<lparr>inode_list := remove1 i (inode_list fs), inodes := (inodes fs)(i := None),
                       inode_count := inode_count fs - 1\<rparr>;
            if inode_count fs < 0 then None else Some fs } }"

definition inode_decref :: "'x fsmem_scheme fs_env \<Rightarrow> iptr \<Rightarrow> 'x fsmem_scheme \<Rightarrow> 'x fsmem_scheme option" where
  "inode_decref E i fs =
     do { n \<leftarrow> inodes fs i;
          if refcount n < 1 then None
          else do {
            fs \<leftarrow> mod_inode i (\<lambda>n. n\<lparr>refcount := refcount n - 1\<rparr>) fs;
            if refcount n - 1 \<le> 0 \<and> open_count n \<le> 0 then inode_free E i fs else Some fs } }"

definition inode_dec_open :: "'x fsmem_scheme fs_env \<Rightarrow> iptr \<Rightarrow> 'x fsmem_scheme \<Rightarrow> 'x fsmem_scheme option" where
  "inode_dec_open E i fs =
     do { n \<leftarrow> inodes fs i;
          if open_count n < 1 then None
          else do {
            fs \<leftarrow> mod_inode i (\<lambda>n. n\<lparr>open_count := open_count n - 1\<rparr>) fs;
            if open_count n - 1 \<le> 0 \<and> refcount n \<le> 0 then inode_free E i fs else Some fs } }"

definition inode_update_mtime :: "iptr \<Rightarrow> 'x fsmem_scheme \<Rightarrow> 'x fsmem_scheme option" where
  "inode_update_mtime i fs =
     mod_inode i (\<lambda>n. n\<lparr>mtime_sec := fst (tod fs), mtime_nsec := snd (tod fs)\<rparr>) fs"

text \<open>An inode of the type and with the part \<open>u\<close>, which \<open>mallocz\<close> and the caller give it.\<close>

definition inode_new :: "inode_u \<Rightarrow> u32 \<Rightarrow> u32 \<Rightarrow> u32 \<Rightarrow> 'x fsmem_scheme \<Rightarrow> iptr \<times> 'x fsmem_scheme" where
  "inode_new u mode uid gid fs =
     (let i = next_ptr fs;
          n = \<lparr>inode_num = inode_num_alloc fs, refcount = 1, open_count = 0, i_mode = mode AND 0xfff,
               i_uid = uid, i_gid = gid, mtime_sec = fst (tod fs), ctime_sec = fst (tod fs),
               mtime_nsec = snd (tod fs), ctime_nsec = snd (tod fs), i_u = u\<rparr>
      in (i, fs\<lparr>inode_list := i # inode_list fs, inodes := (inodes fs)(i \<mapsto> n), next_ptr := i + 1,
               inode_count := inode_count fs + 1, inode_num_alloc := inode_num_alloc fs + 1\<rparr>))"

definition new_reg :: inode_u where
  "new_reg = FT_REG \<lparr>rg_state = REG_STATE_LOCAL, rg_size = 0, fbuf = [], is_fscmd = False\<rparr>"

section \<open>Directories\<close>

definition sizeof_dirent :: int where "sizeof_dirent = 16"

definition dirent_size :: "fname \<Rightarrow> int" where "dirent_size name = sizeof_dirent + int (length name) + 1"

definition inode_dir_add :: "iptr \<Rightarrow> fname \<Rightarrow> iptr \<Rightarrow> 'x fsmem_scheme \<Rightarrow> 'x fsmem_scheme option" where
  "inode_dir_add i name i1 fs =
     do { n \<leftarrow> inodes fs i;
          case i_u n of
            FT_DIR ds sz \<Rightarrow>
              (let new_size = sz + dirent_size name;
                   de = \<lparr>de_ptr = next_ptr fs, de_name = name, de_inode = i1\<rparr>
               in Some (fs\<lparr>fs_blocks := fs_blocks fs + (to_blocks fs (word_of_int new_size) - to_blocks fs (word_of_int sz)),
                          inodes := (inodes fs)(i \<mapsto> n\<lparr>i_u := FT_DIR (ds @ [de]) new_size\<rparr>),
                          next_ptr := next_ptr fs + 1\<rparr>))
          | _ \<Rightarrow> None }"

text \<open>The outer \<open>None\<close> is an access to a freed inode, the inner one the result NULL.\<close>

definition dir_entries :: "inode \<Rightarrow> dirent list" where
  "dir_entries n = (case i_u n of FT_DIR ds sz \<Rightarrow> ds | _ \<Rightarrow> [])"

definition inode_search :: "iptr \<Rightarrow> fname \<Rightarrow> 'x fsmem_scheme \<Rightarrow> dirent option option" where
  "inode_search i name fs = do { n \<leftarrow> inodes fs i; Some (find (\<lambda>de. de_name de = name) (dir_entries n)) }"

definition is_dir :: "inode \<Rightarrow> bool" where
  "is_dir n = (case i_u n of FT_DIR ds sz \<Rightarrow> True | _ \<Rightarrow> False)"

definition DOT :: fname where "DOT = [0x2e]"
definition DOTDOT :: fname where "DOTDOT = [0x2e, 0x2e]"
definition SLASH :: u8 where "SLASH = 0x2f"

text \<open>The loop of \<open>inode_search_path1\<close>; the argument is the path from \<open>p\<close>.\<close>

function search_path_loop :: "iptr \<Rightarrow> fname \<Rightarrow> 'x fsmem_scheme \<Rightarrow> iptr option option" where
  "search_path_loop i p fs =
     (let name = takeWhile (\<lambda>c. c \<noteq> SLASH) p; p1 = dropWhile (\<lambda>c. c \<noteq> SLASH) p in
      if length name > 1023 then Some None
      else do {
        n \<leftarrow> inodes fs i;
        if \<not> is_dir n then Some None
        else do {
          de \<leftarrow> inode_search i name fs;
          case de of None \<Rightarrow> Some None
          | Some de \<Rightarrow> (case p1 of [] \<Rightarrow> Some (Some (de_inode de)) | _ # p \<Rightarrow> search_path_loop (de_inode de) p fs) } })"
  by pat_completeness auto

termination
proof (relation "measure (\<lambda>(i, p, fs). length p)", goal_cases)
  case (2 i p fs name p1 n de d c p')
  have "length (c # p') \<le> length p" using 2 length_dropWhile_le [of "\<lambda>c. c \<noteq> SLASH" p] by simp
  then show ?case by simp
qed simp

declare search_path_loop.simps [simp del]

definition inode_search_path1 :: "iptr \<Rightarrow> fname \<Rightarrow> 'x fsmem_scheme \<Rightarrow> iptr option option" where
  "inode_search_path1 i path fs =
     (let p = (case path of c # cs \<Rightarrow> if c = SLASH then cs else path | [] \<Rightarrow> []) in
      if p = [] then Some (Some i) else search_path_loop i p fs)"

definition inode_search_path :: "fname \<Rightarrow> 'x fsmem_scheme \<Rightarrow> iptr option option" where
  "inode_search_path path fs = inode_search_path1 (root_inode fs) path fs"

definition is_empty_dir :: "dirent list \<Rightarrow> bool" where
  "is_empty_dir ds = list_all (\<lambda>de. de_name de = DOT \<or> de_name de = DOTDOT) ds"

text \<open>The entry is deleted by its address; an address that is not in the directory has been freed.\<close>

definition inode_dirent_delete_no_decref :: "iptr \<Rightarrow> nat \<Rightarrow> 'x fsmem_scheme \<Rightarrow> 'x fsmem_scheme option" where
  "inode_dirent_delete_no_decref i p fs =
     do { n \<leftarrow> inodes fs i;
          case i_u n of
            FT_DIR ds sz \<Rightarrow>
              do { de \<leftarrow> find (\<lambda>de. de_ptr de = p) ds;
                   let new_size = sz - dirent_size (de_name de);
                   let blocks = fs_blocks fs + (to_blocks fs (word_of_int new_size) - to_blocks fs (word_of_int sz));
                   if new_size < 0 \<or> blocks < 0 then None
                   else Some (fs\<lparr>fs_blocks := blocks,
                                inodes := (inodes fs)(i \<mapsto> n\<lparr>i_u := FT_DIR (filter (\<lambda>de. de_ptr de \<noteq> p) ds) new_size\<rparr>)\<rparr>) }
          | _ \<Rightarrow> None }"

definition entry_inode :: "iptr \<Rightarrow> nat \<Rightarrow> 'x fsmem_scheme \<Rightarrow> iptr option" where
  "entry_inode i p fs =
     do { n \<leftarrow> inodes fs i; de \<leftarrow> find (\<lambda>de. de_ptr de = p) (dir_entries n); Some (de_inode de) }"

definition inode_dirent_delete :: "'x fsmem_scheme fs_env \<Rightarrow> iptr \<Rightarrow> nat \<Rightarrow> 'x fsmem_scheme \<Rightarrow> 'x fsmem_scheme option" where
  "inode_dirent_delete E i p fs =
     do { i1 \<leftarrow> entry_inode i p fs;
          fs \<leftarrow> inode_dirent_delete_no_decref i p fs;
          inode_decref E i1 fs }"

fun delete_entries :: "'x fsmem_scheme fs_env \<Rightarrow> iptr \<Rightarrow> nat list \<Rightarrow> 'x fsmem_scheme \<Rightarrow> 'x fsmem_scheme option" where
  "delete_entries E i [] fs = Some fs"
| "delete_entries E i (p # ps) fs = do { fs \<leftarrow> inode_dirent_delete E i p fs; delete_entries E i ps fs }"

definition flush_dir :: "'x fsmem_scheme fs_env \<Rightarrow> iptr \<Rightarrow> 'x fsmem_scheme \<Rightarrow> 'x fsmem_scheme option" where
  "flush_dir E i fs =
     do { n \<leftarrow> inodes fs i;
          fs \<leftarrow> delete_entries E i (map de_ptr (dir_entries n)) fs;
          n \<leftarrow> inodes fs i;
          case i_u n of FT_DIR ds sz \<Rightarrow> if sz = 0 then Some fs else None | _ \<Rightarrow> None }"

section \<open>Files\<close>

definition fs_close :: "'x fsmem_scheme fs_env \<Rightarrow> fptr \<Rightarrow> 'x fsmem_scheme \<Rightarrow> 'x fsmem_scheme option" where
  "fs_close E f fs =
     do { ff \<leftarrow> files fs f;
          let fs = fs\<lparr>files := (files fs)(f \<mapsto> ff\<lparr>is_opened := False\<rparr>)\<rparr>;
          if f_req ff then fs_cmd_close E f fs else Some fs }"

definition fs_delete :: "'x fsmem_scheme fs_env \<Rightarrow> fptr \<Rightarrow> 'x fsmem_scheme \<Rightarrow> 'x fsmem_scheme option" where
  "fs_delete E f fs =
     do { fs \<leftarrow> fs_close E f fs;
          ff \<leftarrow> files fs f;
          fs \<leftarrow> inode_dec_open E (f_inode ff) fs;
          Some (fs\<lparr>files := (files fs)(f := None)\<rparr>) }"

definition fid_create :: "iptr \<Rightarrow> u32 \<Rightarrow> 'x fsmem_scheme \<Rightarrow> (fptr \<times> 'x fsmem_scheme) option" where
  "fid_create i uid fs =
     do { fs \<leftarrow> inode_inc_open i fs;
          let f = next_ptr fs;
          Some (f, fs\<lparr>next_ptr := f + 1, files := (files fs)(f \<mapsto>
            \<lparr>f_uid = uid, f_inode = i, is_opened = False, open_flags = 0, f_req = False\<rparr>)\<rparr>) }"

definition qid_type_of :: "inode \<Rightarrow> u8" where
  "qid_type_of n = (case i_u n of FT_DIR ds sz \<Rightarrow> P9_QTDIR | FT_LNK nm \<Rightarrow> P9_QTSYMLINK | _ \<Rightarrow> P9_QTFILE)"

definition inode_to_qid :: "inode \<Rightarrow> fsqid" where
  "inode_to_qid n = \<lparr>qid_type = qid_type_of n, qid_version = 0, qid_path = inode_num n\<rparr>"

definition qid_of :: "iptr \<Rightarrow> 'x fsmem_scheme \<Rightarrow> fsqid option" where
  "qid_of i fs = map_option inode_to_qid (inodes fs i)"

definition fs_statfs :: "'x fsmem_scheme \<Rightarrow> fsstatfs" where
  "fs_statfs fs =
     (let bfree = push_bit (block_size_log2 fs - 10) (fs_max_blocks fs - word_of_int (fs_blocks fs)) in
      \<lparr>f_bsize = 1024, f_blocks = push_bit (block_size_log2 fs - 10) (fs_max_blocks fs), f_bfree = bfree, f_bavail = bfree,
       f_files = inode_limit fs, f_ffree = inode_limit fs - word_of_int (inode_count fs)\<rparr>)"

definition fs_attach :: "u32 \<Rightarrow> 'x fsmem_scheme \<Rightarrow> (fptr \<times> fsqid \<times> 'x fsmem_scheme) option" where
  "fs_attach uid fs =
     do { (f, fs) \<leftarrow> fid_create (root_inode fs) uid fs;
          q \<leftarrow> qid_of (root_inode fs) fs;
          Some (f, q, fs) }"

text \<open>The inode the walk ends at, and the QIDs of the steps made.\<close>

fun walk_loop :: "iptr \<Rightarrow> fname list \<Rightarrow> 'x fsmem_scheme \<Rightarrow> (iptr \<times> fsqid list) option" where
  "walk_loop i [] fs = Some (i, [])"
| "walk_loop i (nm # nms) fs =
     do { de \<leftarrow> inode_search i nm fs;
          case de of None \<Rightarrow> Some (i, [])
          | Some de \<Rightarrow> do { q \<leftarrow> qid_of (de_inode de) fs;
                          (j, qs) \<leftarrow> walk_loop (de_inode de) nms fs;
                          Some (j, q # qs) } }"

definition fs_walk :: "fptr \<Rightarrow> fname list \<Rightarrow> 'x fsmem_scheme \<Rightarrow> (int \<times> fptr \<times> fsqid list \<times> 'x fsmem_scheme) option" where
  "fs_walk f names fs =
     do { ff \<leftarrow> files fs f;
          (j, qs) \<leftarrow> walk_loop (f_inode ff) names fs;
          (f', fs) \<leftarrow> fid_create j (f_uid ff) fs;
          Some (int (length qs), f', qs, fs) }"

text \<open>The result code of an operation, what it gives when the code is not an error, and the new state.\<close>

definition fs_mkdir :: "fptr \<Rightarrow> fname \<Rightarrow> u32 \<Rightarrow> u32 \<Rightarrow> 'x fsmem_scheme \<Rightarrow> (int \<times> fsqid option \<times> 'x fsmem_scheme) option" where
  "fs_mkdir f name mode gid fs =
     do { ff \<leftarrow> files fs f;
          let i = f_inode ff;
          n \<leftarrow> inodes fs i;
          if \<not> is_dir n then Some (- P9_ENOTDIR, None, fs)
          else do {
            de \<leftarrow> inode_search i name fs;
            if de \<noteq> None then Some (- P9_EEXIST, None, fs)
            else do {
              let (i1, fs) = inode_new (FT_DIR [] 0) mode (f_uid ff) gid fs;
              fs \<leftarrow> inode_incref i1 fs;
              fs \<leftarrow> inode_dir_add i1 DOT i1 fs;
              fs \<leftarrow> inode_incref i fs;
              fs \<leftarrow> inode_dir_add i1 DOTDOT i fs;
              fs \<leftarrow> inode_dir_add i name i1 fs;
              q \<leftarrow> qid_of i1 fs;
              Some (0, Some q, fs) } } }"

definition fs_truncate :: "'x fsmem_scheme fs_env \<Rightarrow> iptr \<Rightarrow> u64 \<Rightarrow> 'x fsmem_scheme \<Rightarrow> (int \<times> 'x fsmem_scheme) option" where
  "fs_truncate E i sz fs =
     do { n \<leftarrow> inodes fs i;
          case i_u n of
            FT_REG r \<Rightarrow>
              (if sz > 0xffffffff then Some (- P9_ENOSPC, fs)
               else let diff = sint (ucast sz - rg_size r :: u32);
                        diff_blocks = sint (word_of_int (to_blocks fs sz - to_blocks fs (ucast (rg_size r))) :: u32);
                        alloc = (word_of_nat (length (fbuf r)) :: u32);
                        finish = (\<lambda>r fs. let blocks = fs_blocks fs + diff_blocks in
                          if blocks < 0 then None
                          else Some (0, fs\<lparr>fs_blocks := blocks,
                                          inodes := (inodes fs)(i \<mapsto> n\<lparr>i_u := FT_REG (r\<lparr>rg_size := ucast sz\<rparr>)\<rparr>)\<rparr>));
                        to_local = (\<lambda>r fs. if rg_state r = REG_STATE_LOADED
                          then let csz = inode_cache_size fs - uint (rg_size r) in
                            if csz < 0 then None
                            else finish (r\<lparr>rg_state := REG_STATE_LOCAL\<rparr>)
                                   (fs\<lparr>inode_cache_list := remove1 i (inode_cache_list fs), inode_cache_size := csz\<rparr>)
                          else finish r fs)
                 in if diff = 0 then Some (0, fs)
                 else case rg_state r of
                   REG_STATE_LOADING \<Rightarrow> Some (- P9_EIO, fs)
                 | REG_STATE_UNLOADED \<Rightarrow> finish (if sz = 0 then r\<lparr>rg_state := REG_STATE_LOCAL\<rparr> else r) fs
                 | _ \<Rightarrow>
                     (if diff > 0
                      then if (word_of_int (fs_blocks fs + diff_blocks) :: u64) > fs_max_blocks fs then Some (- P9_ENOSPC, fs)
                        else do {
                          let new_alloc = max (ucast sz) (alloc * 5 div 4);
                          case (if sz > ucast alloc then file_buffer_resize E (fbuf r) new_alloc else Some (fbuf r)) of
                            None \<Rightarrow> Some (- P9_ENOSPC, fs)
                          | Some data \<Rightarrow> do {
                              data \<leftarrow> file_buffer_set data (rg_size r) 0 (word_of_int diff);
                              to_local (r\<lparr>fbuf := data\<rparr>) fs } }
                      else let new_alloc = alloc * 4 div 5 in
                        case (if sz \<le> ucast new_alloc then file_buffer_resize E (fbuf r) new_alloc else Some (fbuf r)) of
                          None \<Rightarrow> Some (- P9_ENOSPC, fs)
                        | Some data \<Rightarrow> to_local (r\<lparr>fbuf := data\<rparr>) fs))
          | _ \<Rightarrow> Some (- P9_EINVAL, fs) }"

definition fs_open :: "'x fsmem_scheme fs_env \<Rightarrow> fptr \<Rightarrow> u32 \<Rightarrow> 'x fsmem_scheme \<Rightarrow> (int \<times> fsqid option \<times> 'x fsmem_scheme) option" where
  "fs_open E f flags fs =
     do { fs \<leftarrow> fs_close E f fs;
          ff \<leftarrow> files fs f;
          let i = f_inode ff;
          n \<leftarrow> inodes fs i;
          if flags AND P9_O_DIRECTORY \<noteq> 0 \<and> \<not> is_dir n then Some (- P9_ENOTDIR, None, fs)
          else if flags AND P9_O_DIRECTORY = 0 \<and> ft_num (i_u n) \<noteq> 8 \<and> \<not> is_dir n then Some (- P9_EINVAL, None, fs)
          else do {
            let fs = fs\<lparr>files := (files fs)(f \<mapsto> ff\<lparr>open_flags := flags\<rparr>)\<rparr>;
            let do_open = (\<lambda>fs. do { ff \<leftarrow> files fs f;
                   let fs = fs\<lparr>files := (files fs)(f \<mapsto> ff\<lparr>is_opened := True\<rparr>)\<rparr>;
                   q \<leftarrow> qid_of i fs;
                   Some (0, Some q, fs) });
            if is_dir n then do_open fs
            else do {
              fs \<leftarrow> (if flags AND P9_O_TRUNC \<noteq> 0 \<and> flags AND P9_O_NOACCESS \<noteq> P9_O_RDONLY
                    then map_option snd (fs_truncate E i 0 fs) else Some fs);
              n \<leftarrow> inodes fs i;
              case i_u n of
                FT_REG r \<Rightarrow> (case rg_state r of
                  REG_STATE_LOCAL \<Rightarrow> do_open fs
                | REG_STATE_LOADED \<Rightarrow> do_open (fs\<lparr>inode_cache_list := i # remove1 i (inode_cache_list fs)\<rparr>)
                | _ \<Rightarrow> do { (ret, fs) \<leftarrow> net_open E i f fs; Some (ret, None, fs) })
              | _ \<Rightarrow> None } } }"

definition fs_create :: "'x fsmem_scheme fs_env \<Rightarrow> fptr \<Rightarrow> fname \<Rightarrow> u32 \<Rightarrow> u32 \<Rightarrow> u32 \<Rightarrow> 'x fsmem_scheme
    \<Rightarrow> (int \<times> fsqid option \<times> 'x fsmem_scheme) option" where
  "fs_create E f name flags mode gid fs =
     do { ff \<leftarrow> files fs f;
          let i = f_inode ff;
          n \<leftarrow> inodes fs i;
          if \<not> is_dir n then Some (- P9_ENOTDIR, None, fs)
          else do {
            de \<leftarrow> inode_search i name fs;
            if de \<noteq> None then Some (- P9_EEXIST, None, fs)
            else do {
              fs \<leftarrow> fs_close E f fs;
              ff \<leftarrow> files fs f;
              let (i1, fs) = inode_new new_reg mode (f_uid ff) gid fs;
              fs \<leftarrow> inode_dir_add i name i1 fs;
              fs \<leftarrow> inode_dec_open E (f_inode ff) fs;
              fs \<leftarrow> inode_inc_open i1 fs;
              let fs = fs\<lparr>files := (files fs)(f \<mapsto> ff\<lparr>f_inode := i1, is_opened := True, open_flags := flags\<rparr>)\<rparr>;
              q \<leftarrow> qid_of i1 fs;
              Some (0, Some q, fs) } } }"

text \<open>The bytes of an entry, which the client reads; \<open>offset\<close> is that of the next entry.\<close>

definition dirent_bytes :: "dirent \<Rightarrow> inode \<Rightarrow> u64 \<Rightarrow> u8 list" where
  "dirent_bytes de n1 offset =
     [qid_type_of n1] @ le_bytes 4 0 @ le_bytes 8 (unat (inode_num n1)) @ le_bytes 8 (unat offset)
     @ [ucast (ft_num (i_u n1))] @ le_bytes 2 (length (de_name de)) @ de_name de"

text \<open>The inner \<open>None\<close> is the end of the list, where \<open>fs_readdir\<close> returns 0.\<close>

fun readdir_skip :: "u64 \<Rightarrow> u64 \<Rightarrow> dirent list \<Rightarrow> dirent list option" where
  "readdir_skip offset offset1 [] = (if offset < offset1 then None else Some [])"
| "readdir_skip offset offset1 (de # ds) =
     (if offset < offset1 then readdir_skip (offset + 1) offset1 ds else Some (de # ds))"

fun readdir_loop :: "int \<Rightarrow> u64 \<Rightarrow> u8 list \<Rightarrow> dirent list \<Rightarrow> 'x fsmem_scheme \<Rightarrow> u8 list option" where
  "readdir_loop count offset buf [] fs = Some buf"
| "readdir_loop count offset buf (de # ds) fs =
     (if int (length buf) + (13 + 8 + 1 + 2 + int (length (de_name de))) > count then Some buf
      else do { n1 \<leftarrow> inodes fs (de_inode de);
                readdir_loop count (offset + 1) (buf @ dirent_bytes de n1 (offset + 1)) ds fs })"

text \<open>The result code and the bytes written to \<open>buf\<close>.\<close>

definition fs_readdir :: "fptr \<Rightarrow> u64 \<Rightarrow> int \<Rightarrow> 'x fsmem_scheme \<Rightarrow> (int \<times> u8 list) option" where
  "fs_readdir f offset1 count fs =
     do { ff \<leftarrow> files fs f;
          n \<leftarrow> inodes fs (f_inode ff);
          if \<not> is_opened ff \<or> \<not> is_dir n then Some (- P9_EPROTO, [])
          else case readdir_skip 0 offset1 (dir_entries n) of
              None \<Rightarrow> Some (0, [])
            | Some ds \<Rightarrow> do { buf \<leftarrow> readdir_loop count offset1 [] ds fs; Some (int (length buf), buf) } }"

definition fs_read :: "'x fsmem_scheme fs_env \<Rightarrow> fptr \<Rightarrow> u64 \<Rightarrow> int \<Rightarrow> 'x fsmem_scheme
    \<Rightarrow> (int \<times> u8 list \<times> 'x fsmem_scheme) option" where
  "fs_read E f offset count fs =
     do { ff \<leftarrow> files fs f;
          n \<leftarrow> inodes fs (f_inode ff);
          if \<not> is_opened ff then Some (- P9_EPROTO, [], fs)
          else case i_u n of
            FT_REG r \<Rightarrow>
              (if open_flags ff AND P9_O_NOACCESS = P9_O_WRONLY then Some (- P9_EIO, [], fs)
               else if is_fscmd r then fs_cmd_read E f offset count fs
               else if offset \<ge> ucast (rg_size r) then Some (0, [], fs)
               else do {
                 let count1 = ucast (rg_size r) - offset;
                 let count = (if count1 < word_of_int count then sint (ucast count1 :: u32) else count);
                 data \<leftarrow> file_buffer_read (fbuf r) (ucast offset) (word_of_int count);
                 Some (count, data, fs) })
          | _ \<Rightarrow> Some (- P9_EIO, [], fs) }"

definition fs_write :: "'x fsmem_scheme fs_env \<Rightarrow> fptr \<Rightarrow> u64 \<Rightarrow> u8 list \<Rightarrow> int \<Rightarrow> 'x fsmem_scheme \<Rightarrow> (int \<times> 'x fsmem_scheme) option" where
  "fs_write E f offset buf count fs =
     do { ff \<leftarrow> files fs f;
          let i = f_inode ff;
          n \<leftarrow> inodes fs i;
          if \<not> is_opened ff then Some (- P9_EPROTO, fs)
          else case i_u n of
            FT_REG r \<Rightarrow>
              (if open_flags ff AND P9_O_NOACCESS = P9_O_RDONLY then Some (- P9_EIO, fs)
               else if count = 0 then Some (0, fs)
               else if is_fscmd r then fs_cmd_write E f offset buf count fs
               else do {
                 let endp = offset + word_of_int count;
                 (err, fs) \<leftarrow> (if endp > ucast (rg_size r) then fs_truncate E i endp fs else Some (0, fs));
                 if err \<noteq> 0 then Some (err, fs)
                 else do {
                   fs \<leftarrow> inode_update_mtime i fs;
                   n \<leftarrow> inodes fs i;
                   case i_u n of
                     FT_REG r \<Rightarrow> do {
                       let csz = inode_cache_size fs - uint (rg_size r);
                       (r, fs) \<leftarrow> (if rg_state r = REG_STATE_LOADED
                         then if csz < 0 then None
                              else Some (r\<lparr>rg_state := REG_STATE_LOCAL\<rparr>,
                                     fs\<lparr>inode_cache_list := remove1 i (inode_cache_list fs), inode_cache_size := csz\<rparr>)
                         else Some (r, fs));
                       data \<leftarrow> file_buffer_write (fbuf r) (ucast offset) buf (word_of_int count);
                       Some (count, fs\<lparr>inodes := (inodes fs)(i \<mapsto> n\<lparr>i_u := FT_REG (r\<lparr>fbuf := data\<rparr>)\<rparr>)\<rparr>) }
                   | _ \<Rightarrow> None } })
          | _ \<Rightarrow> Some (- P9_EIO, fs) }"

definition fs_stat :: "fptr \<Rightarrow> 'x fsmem_scheme \<Rightarrow> fsstat option" where
  "fs_stat f fs =
     do { ff \<leftarrow> files fs f;
          n \<leftarrow> inodes fs (f_inode ff);
          let rdev = (case i_u n of FT_CHR ma mi \<Rightarrow> push_bit 8 ma OR mi | FT_BLK ma mi \<Rightarrow> push_bit 8 ma OR mi | _ \<Rightarrow> 0);
          let sz = (case i_u n of FT_REG r \<Rightarrow> ucast (rg_size r) | FT_LNK nm \<Rightarrow> of_nat (length nm)
                    | FT_DIR ds dsz \<Rightarrow> word_of_int dsz | _ \<Rightarrow> 0);
          Some \<lparr>st_qid = inode_to_qid n, st_mode = i_mode n OR push_bit 12 (ft_num (i_u n)), st_uid = i_uid n, st_gid = i_gid n,
                st_nlink = word_of_int (refcount n), st_rdev = ucast rdev, st_size = sz, st_blksize = ucast (block_size fs),
                st_blocks = word_of_int (push_bit (block_size_log2 fs - 9) (to_blocks fs sz)),
                st_atime_sec = ucast (mtime_sec n), st_atime_nsec = mtime_nsec n,
                st_mtime_sec = ucast (mtime_sec n), st_mtime_nsec = mtime_nsec n,
                st_ctime_sec = ucast (ctime_sec n), st_ctime_nsec = ctime_nsec n\<rparr> }"

definition fs_setattr :: "'x fsmem_scheme fs_env \<Rightarrow> fptr \<Rightarrow> u32 \<Rightarrow> u32 \<Rightarrow> u32 \<Rightarrow> u32 \<Rightarrow> u64 \<Rightarrow> u64 \<Rightarrow> u64 \<Rightarrow> u64 \<Rightarrow> u64
    \<Rightarrow> 'x fsmem_scheme \<Rightarrow> (int \<times> 'x fsmem_scheme) option" where
  "fs_setattr E f msk mode uid gid sz atime_s atime_ns mtime_s mtime_ns fs =
     do { ff \<leftarrow> files fs f;
          let i = f_inode ff;
          fs \<leftarrow> mod_inode i (\<lambda>n. n\<lparr>i_mode := if msk AND P9_SETATTR_MODE \<noteq> 0 then mode else i_mode n,
                 i_uid := if msk AND P9_SETATTR_UID \<noteq> 0 then uid else i_uid n,
                 i_gid := if msk AND P9_SETATTR_GID \<noteq> 0 then gid else i_gid n\<rparr>) fs;
          (ret, fs) \<leftarrow> (if msk AND P9_SETATTR_SIZE \<noteq> 0 then fs_truncate E i sz fs else Some (0, fs));
          if ret \<noteq> 0 then Some (ret, fs)
          else do {
            fs \<leftarrow> (if msk AND P9_SETATTR_MTIME = 0 then Some fs
                  else if msk AND P9_SETATTR_MTIME_SET \<noteq> 0
                  then mod_inode i (\<lambda>n. n\<lparr>mtime_sec := ucast mtime_s, mtime_nsec := ucast mtime_ns\<rparr>) fs
                  else inode_update_mtime i fs);
            fs \<leftarrow> (if msk AND P9_SETATTR_CTIME \<noteq> 0
                  then mod_inode i (\<lambda>n. n\<lparr>ctime_sec := fst (tod fs), ctime_nsec := snd (tod fs)\<rparr>) fs else Some fs);
            Some (0, fs) } }"

definition fs_link :: "fptr \<Rightarrow> fptr \<Rightarrow> fname \<Rightarrow> 'x fsmem_scheme \<Rightarrow> (int \<times> 'x fsmem_scheme) option" where
  "fs_link df f name fs =
     do { dff \<leftarrow> files fs df;
          ff \<leftarrow> files fs f;
          n \<leftarrow> inodes fs (f_inode ff);
          if is_dir n then Some (- P9_EPERM, fs)
          else do {
            de \<leftarrow> inode_search (f_inode dff) name fs;
            if de \<noteq> None then Some (- P9_EEXIST, fs)
            else do {
              fs \<leftarrow> inode_incref (f_inode ff) fs;
              fs \<leftarrow> inode_dir_add (f_inode dff) name (f_inode ff) fs;
              Some (0, fs) } } }"

definition fs_symlink :: "fptr \<Rightarrow> fname \<Rightarrow> fname \<Rightarrow> u32 \<Rightarrow> 'x fsmem_scheme \<Rightarrow> (int \<times> fsqid option \<times> 'x fsmem_scheme) option" where
  "fs_symlink f name symgt gid fs =
     do { ff \<leftarrow> files fs f;
          de \<leftarrow> inode_search (f_inode ff) name fs;
          if de \<noteq> None then Some (- P9_EEXIST, None, fs)
          else do {
            let (i1, fs) = inode_new (FT_LNK symgt) 0x1ff (f_uid ff) gid fs;
            fs \<leftarrow> inode_dir_add (f_inode ff) name i1 fs;
            q \<leftarrow> qid_of i1 fs;
            Some (0, Some q, fs) } }"

text \<open>\<open>None\<close> is a type \<open>fs_mknod\<close> refuses.\<close>

definition mknod_type :: "u32 \<Rightarrow> u32 \<Rightarrow> u32 \<Rightarrow> inode_u option" where
  "mknod_type mode ma mi =
     (let t = drop_bit 12 (mode AND P9_S_IFMT) in
      if t = 1 then Some FT_FIFO else if t = 2 then Some (FT_CHR ma mi) else if t = 6 then Some (FT_BLK ma mi)
      else if t = 8 then Some new_reg else if t = 12 then Some FT_SOCK else None)"

definition fs_mknod :: "fptr \<Rightarrow> fname \<Rightarrow> u32 \<Rightarrow> u32 \<Rightarrow> u32 \<Rightarrow> u32 \<Rightarrow> 'x fsmem_scheme
    \<Rightarrow> (int \<times> fsqid option \<times> 'x fsmem_scheme) option" where
  "fs_mknod f name mode ma mi gid fs =
     do { ff \<leftarrow> files fs f;
          case mknod_type mode ma mi of
            None \<Rightarrow> Some (- P9_EINVAL, None, fs)
          | Some u \<Rightarrow> do {
              de \<leftarrow> inode_search (f_inode ff) name fs;
              if de \<noteq> None then Some (- P9_EEXIST, None, fs)
              else do {
                let (i1, fs) = inode_new u mode (f_uid ff) gid fs;
                fs \<leftarrow> inode_dir_add (f_inode ff) name i1 fs;
                q \<leftarrow> qid_of i1 fs;
                Some (0, Some q, fs) } } }"

text \<open>The result code and the string left in a buffer of \<open>buf_size\<close> bytes.\<close>

definition fs_readlink :: "int \<Rightarrow> fptr \<Rightarrow> 'x fsmem_scheme \<Rightarrow> (int \<times> fname) option" where
  "fs_readlink buf_size f fs =
     do { ff \<leftarrow> files fs f;
          n \<leftarrow> inodes fs (f_inode ff);
          case i_u n of
            FT_LNK nm \<Rightarrow> (let len = min (int (length nm)) (buf_size - 1) in
              if len < 0 then None else Some (0, take (nat len) nm))
          | _ \<Rightarrow> Some (- P9_EIO, []) }"

definition fs_renameat :: "'x fsmem_scheme fs_env \<Rightarrow> fptr \<Rightarrow> fname \<Rightarrow> fptr \<Rightarrow> fname \<Rightarrow> 'x fsmem_scheme \<Rightarrow> (int \<times> 'x fsmem_scheme) option" where
  "fs_renameat E f name new_f new_name fs =
     do { ff \<leftarrow> files fs f;
          nff \<leftarrow> files fs new_f;
          let d = f_inode ff;
          let nd = f_inode nff;
          de \<leftarrow> inode_search d name fs;
          case de of None \<Rightarrow> Some (- P9_ENOENT, fs)
          | Some de \<Rightarrow> do {
              de1 \<leftarrow> inode_search nd new_name fs;
              (stop, n1, fs) \<leftarrow> (case de1 of None \<Rightarrow> Some (False, None, fs)
                | Some de1 \<Rightarrow> do {
                    n1 \<leftarrow> inodes fs (de_inode de1);
                    if is_dir n1 then Some (True, None, fs)
                    else do { fs \<leftarrow> inode_dirent_delete_no_decref nd (de_ptr de1) fs;
                              Some (False, Some (de_inode de1), fs) } });
              if stop then Some (- P9_EEXIST, fs)
              else do {
                i \<leftarrow> entry_inode d (de_ptr de) fs;
                fs \<leftarrow> inode_incref i fs;
                fs \<leftarrow> inode_dir_add nd new_name i fs;
                fs \<leftarrow> inode_dirent_delete E d (de_ptr de) fs;
                fs \<leftarrow> (case n1 of None \<Rightarrow> Some fs | Some i1 \<Rightarrow> inode_decref E i1 fs);
                Some (0, fs) } } }"

definition fs_unlinkat :: "'x fsmem_scheme fs_env \<Rightarrow> fptr \<Rightarrow> fname \<Rightarrow> 'x fsmem_scheme \<Rightarrow> (int \<times> 'x fsmem_scheme) option" where
  "fs_unlinkat E f name fs =
     (if name = DOT \<or> name = DOTDOT then Some (- P9_ENOENT, fs)
      else do {
        ff \<leftarrow> files fs f;
        let d = f_inode ff;
        de \<leftarrow> inode_search d name fs;
        case de of None \<Rightarrow> Some (- P9_ENOENT, fs)
        | Some de \<Rightarrow> do {
            n \<leftarrow> inodes fs (de_inode de);
            if is_dir n \<and> \<not> is_empty_dir (dir_entries n) then Some (- P9_ENOTEMPTY, fs)
            else do {
              fs \<leftarrow> (if is_dir n then flush_dir E (de_inode de) fs else Some fs);
              fs \<leftarrow> inode_dirent_delete E d (de_ptr de) fs;
              Some (0, fs) } } })"

definition fs_lock :: "fptr \<Rightarrow> 'x fsmem_scheme \<Rightarrow> int option" where
  "fs_lock f fs =
     do { ff \<leftarrow> files fs f;
          n \<leftarrow> inodes fs (f_inode ff);
          Some (if \<not> is_opened ff then - P9_EPROTO else if ft_num (i_u n) \<noteq> 8 then - P9_EIO else P9_LOCK_SUCCESS) }"

definition fs_getlock :: "fptr \<Rightarrow> 'x fsmem_scheme \<Rightarrow> int option" where
  "fs_getlock f fs =
     do { ff \<leftarrow> files fs f;
          n \<leftarrow> inodes fs (f_inode ff);
          Some (if \<not> is_opened ff then - P9_EPROTO else if ft_num (i_u n) \<noteq> 8 then - P9_EIO else 0) }"

section \<open>Start and end\<close>

fun mem_end_loop :: "'x fsmem_scheme fs_env \<Rightarrow> iptr list \<Rightarrow> 'x fsmem_scheme \<Rightarrow> 'x fsmem_scheme option" where
  "mem_end_loop E [] fs = Some fs"
| "mem_end_loop E (i # is) fs =
     do { fs \<leftarrow> mod_inode i (\<lambda>n. n\<lparr>refcount := 0,
             i_u := (case i_u n of FT_DIR ds sz \<Rightarrow> FT_DIR [] sz | u \<Rightarrow> u)\<rparr>) fs;
          fs \<leftarrow> inode_free E i fs;
          mem_end_loop E is fs }"

definition fs_mem_end :: "'x fsmem_scheme fs_env \<Rightarrow> 'x fsmem_scheme \<Rightarrow> 'x fsmem_scheme option" where
  "fs_mem_end E fs =
     do { fs \<leftarrow> mem_end_loop E (inode_list fs) fs;
          if inode_cache_list fs = [] then Some fs else None }"

definition FS_BLOCK_SIZE_LOG2 :: nat where "FS_BLOCK_SIZE_LOG2 = 12"

definition empty_fs :: "u32 \<times> u32 \<Rightarrow> fsmem" where
  "empty_fs t =
     \<lparr>inode_list = [], inodes = Map.empty, files = Map.empty, next_ptr = 0, inode_count = 0, inode_limit = push_bit 20 1,
      fs_blocks = 0, fs_max_blocks = push_bit (30 - FS_BLOCK_SIZE_LOG2) 1, inode_num_alloc = 1,
      block_size_log2 = FS_BLOCK_SIZE_LOG2, block_size = push_bit FS_BLOCK_SIZE_LOG2 1, root_inode = 0,
      inode_cache_list = [], inode_cache_size = 0, tod = t\<rparr>"

definition fs_mem_init :: "u32 \<times> u32 \<Rightarrow> fsmem option" where
  "fs_mem_init t =
     do { let (i, fs) = inode_new (FT_DIR [] 0) 0x1ff 0 0 (empty_fs t);
          fs \<leftarrow> inode_incref i fs;
          fs \<leftarrow> inode_dir_add i DOT i fs;
          fs \<leftarrow> inode_incref i fs;
          fs \<leftarrow> inode_dir_add i DOTDOT i fs;
          Some (fs\<lparr>root_inode := i\<rparr>) }"

end
