(* ===== verification/Fs_Mem_Inv.thy ===== *)
theory Fs_Mem_Inv
  imports Fs_Mem
begin

text \<open>
  The invariant of the file system in memory and what its building blocks do to it. The count \<open>refcount\<close> of an inode
  is the number of directory entries that name it, \<open>open_count\<close> the number of files on it; \<open>X\<close> and \<open>Y\<close> count in
  addition the references an operation holds while it runs, and \<open>X\<close> that of the root.
\<close>

section \<open>Sums over a finite map\<close>

definition msum :: "('v \<Rightarrow> int) \<Rightarrow> ('k \<Rightarrow> 'v option) \<Rightarrow> int" where
  "msum g m = (\<Sum>k\<in>dom m. g (the (m k)))"

lemma msum_cong_dom: "(\<And>k v. m k = Some v \<Longrightarrow> g v = h v) \<Longrightarrow> msum g m = msum h m"
  unfolding msum_def by (intro sum.cong) auto

lemma msum_remove: "finite (dom m) \<Longrightarrow> m k = Some v \<Longrightarrow> msum g m = g v + msum g (m(k := None))"
proof -
  assume fin: "finite (dom m)" and k: "m k = Some v"
  have "(\<Sum>j\<in>dom m - {k}. g (the (m j))) = (\<Sum>j\<in>dom m - {k}. g (the ((m(k := None)) j)))"
    by (intro sum.cong) auto
  then show ?thesis using sum.remove [OF fin, of k "\<lambda>j. g (the (m j))"] k by (auto simp: msum_def)
qed

lemma msum_insert:
  assumes "finite (dom m)" and "m k = None"
  shows "msum g (m(k \<mapsto> v)) = msum g m + g v"
proof -
  have "msum g (m(k \<mapsto> v)) = g v + msum g ((m(k \<mapsto> v))(k := None))"
    using assms by (intro msum_remove) auto
  moreover have "(m(k \<mapsto> v))(k := None) = m" using assms(2) by auto
  ultimately show ?thesis by simp
qed

lemma msum_update:
  assumes "finite (dom m)" and "m k = Some v"
  shows "msum g (m(k \<mapsto> w)) = msum g m - g v + g w"
proof -
  have "msum g (m(k \<mapsto> w)) = g w + msum g ((m(k \<mapsto> w))(k := None))"
    using assms by (intro msum_remove) auto
  moreover have "(m(k \<mapsto> w))(k := None) = m(k := None)" by auto
  ultimately show ?thesis using msum_remove [OF assms, of g] by simp
qed

lemma msum_nonneg: "(\<And>v. g v \<ge> 0) \<Longrightarrow> msum g m \<ge> 0"
  unfolding msum_def by (intro sum_nonneg) auto

lemma msum_ge: "finite (dom m) \<Longrightarrow> (\<And>v. g v \<ge> 0) \<Longrightarrow> m k = Some v \<Longrightarrow> g v \<le> msum g m"
  using msum_remove [of m k v g] msum_nonneg [of g "m(k := None)"] by fastforce

section \<open>The invariant\<close>

text \<open>The number of entries of a directory that name the inode, and of files on it.\<close>

definition entry_count :: "iptr \<Rightarrow> inode \<Rightarrow> int" where
  "entry_count i n = int (count_list (map de_inode (dir_entries n)) i)"

definition links :: "'x fsmem_scheme \<Rightarrow> iptr \<Rightarrow> int" where "links fs i = msum (entry_count i) (inodes fs)"

definition opens :: "'x fsmem_scheme \<Rightarrow> iptr \<Rightarrow> int" where
  "opens fs i = msum (\<lambda>ff. of_bool (f_inode ff = i)) (files fs)"

definition nblocks :: "inode \<Rightarrow> int" where
  "nblocks n = (case i_u n of FT_REG r \<Rightarrow> uint (drop_bit 12 (ucast (rg_size r) + 0xfff :: u64))
     | FT_DIR ds sz \<Rightarrow> uint (drop_bit 12 (word_of_int sz + 0xfff :: u64)) | _ \<Rightarrow> 0)"

definition dir_ok :: "'x fsmem_scheme \<Rightarrow> dirent list \<Rightarrow> int \<Rightarrow> bool" where
  "dir_ok fs ds sz \<longleftrightarrow> distinct (map de_ptr ds) \<and> distinct (map de_name ds)
     \<and> sz = (\<Sum>de\<leftarrow>ds. dirent_size (de_name de))
     \<and> (\<forall>de\<in>set ds. de_ptr de < next_ptr fs \<and> inodes fs (de_inode de) \<noteq> None)"

definition body_ok :: "'x fsmem_scheme \<Rightarrow> inode_u \<Rightarrow> bool" where
  "body_ok fs u = (case u of FT_DIR ds sz \<Rightarrow> dir_ok fs ds sz
     | FT_REG r \<Rightarrow> rg_state r = REG_STATE_LOCAL \<and> \<not> is_fscmd r | _ \<Rightarrow> True)"

definition lists_ok :: "'x fsmem_scheme \<Rightarrow> bool" where
  "lists_ok fs \<longleftrightarrow> finite (dom (files fs)) \<and> distinct (inode_list fs) \<and> set (inode_list fs) = dom (inodes fs)
     \<and> inode_count fs = int (length (inode_list fs))
     \<and> fs_blocks fs = msum nblocks (inodes fs) \<and> block_size_log2 fs = 12 \<and> block_size fs = 0x1000"

definition counts_ok :: "(iptr \<Rightarrow> int) \<Rightarrow> (iptr \<Rightarrow> int) \<Rightarrow> 'x fsmem_scheme \<Rightarrow> iptr \<Rightarrow> inode \<Rightarrow> bool" where
  "counts_ok X Y fs i n \<longleftrightarrow> i < next_ptr fs \<and> refcount n = links fs i + X i \<and> open_count n = opens fs i + Y i
     \<and> (refcount n > 0 \<or> open_count n > 0)"

definition fs_inv :: "(iptr \<Rightarrow> int) \<Rightarrow> (iptr \<Rightarrow> int) \<Rightarrow> 'x fsmem_scheme \<Rightarrow> bool" where
  "fs_inv X Y fs \<longleftrightarrow> lists_ok fs
     \<and> (\<forall>i n. inodes fs i = Some n \<longrightarrow> counts_ok X Y fs i n \<and> body_ok fs (i_u n))
     \<and> (\<forall>f ff. files fs f = Some ff \<longrightarrow> f < next_ptr fs \<and> inodes fs (f_inode ff) \<noteq> None \<and> \<not> f_req ff)
     \<and> (\<forall>i. 0 \<le> X i \<and> 0 \<le> Y i \<and> (inodes fs i = None \<longrightarrow> X i = 0 \<and> Y i = 0))"

definition root_ref :: "'x fsmem_scheme \<Rightarrow> iptr \<Rightarrow> int" where "root_ref fs i = of_bool (i = root_inode fs)"

definition fs_wf :: "'x fsmem_scheme \<Rightarrow> bool" where "fs_wf fs \<longleftrightarrow> fs_inv (root_ref fs) (\<lambda>_. 0) fs"

lemma fs_invD:
  assumes "fs_inv X Y fs"
  shows "lists_ok fs" and "inodes fs i = Some n \<Longrightarrow> counts_ok X Y fs i n"
    and "inodes fs i = Some n \<Longrightarrow> body_ok fs (i_u n)"
    and "files fs f = Some ff \<Longrightarrow> f < next_ptr fs \<and> inodes fs (f_inode ff) \<noteq> None \<and> \<not> f_req ff"
    and "0 \<le> X i" "0 \<le> Y i" "inodes fs i = None \<Longrightarrow> X i = 0" "inodes fs i = None \<Longrightarrow> Y i = 0"
  using assms unfolding fs_inv_def by blast+

lemma lists_okD:
  assumes "lists_ok fs"
  shows "finite (dom (files fs))" "distinct (inode_list fs)" "set (inode_list fs) = dom (inodes fs)"
    "finite (dom (inodes fs))" "inode_count fs = int (length (inode_list fs))"
    "fs_blocks fs = msum nblocks (inodes fs)" "block_size_log2 fs = 12" "block_size fs = 0x1000"
  using assms unfolding lists_ok_def by (metis finite_set)+

lemma dir_entries_dir [simp]: "dir_entries (n\<lparr>i_u := FT_DIR ds sz\<rparr>) = ds"
  by (simp add: dir_entries_def)

lemma dir_entries_same: "i_u n' = i_u n \<Longrightarrow> dir_entries n' = dir_entries n"
  by (simp add: dir_entries_def)

lemma is_dir_entries: "i_u n = FT_DIR ds sz \<Longrightarrow> dir_entries n = ds \<and> is_dir n"
  by (simp add: dir_entries_def is_dir_def)

lemma entry_count_nonneg [simp]: "0 \<le> entry_count i n"
  by (simp add: entry_count_def)

lemma nblocks_nonneg [simp]: "0 \<le> nblocks n"
  by (simp add: nblocks_def split: inode_u.split)

lemma links_nonneg [simp]: "0 \<le> links fs i"
  by (simp add: links_def msum_nonneg)

lemma opens_nonneg [simp]: "0 \<le> opens fs i"
  by (simp add: opens_def msum_nonneg)

lemma sint_drop12: "sint (drop_bit 12 x :: u64) = uint (drop_bit 12 x :: u64)"
proof -
  have "unat (drop_bit 12 x) = unat x div 2 ^ 12" by (rule unat_drop_bit)
  moreover have "unat x < 2 ^ 64" using unsigned_less [of x] by simp
  ultimately have "unat (drop_bit 12 x) < 2 ^ 52" by (simp add: div_less_iff_less_mult)
  then have "int (unat (drop_bit 12 x)) < int (2 ^ 52)" by (simp only: of_nat_less_iff)
  then have b: "uint (drop_bit 12 x) < 2 ^ 63" by simp
  have "signed_take_bit 63 (uint (drop_bit 12 x)) = uint (drop_bit 12 x)"
    using b by (intro signed_take_bit_int_eq_self) (auto intro: order_trans [of _ 0])
  then show ?thesis by (simp only: sint_uint) simp
qed

lemma to_blocks_eq: "lists_ok fs \<Longrightarrow> to_blocks fs x = uint (drop_bit 12 (x + 0xfff))"
  by (simp add: to_blocks_def lists_okD(7,8) sint_drop12 add_diff_eq [symmetric])

section \<open>Changing one inode\<close>

lemma body_ok_mono:
  "body_ok fs u \<Longrightarrow> next_ptr fs \<le> next_ptr fs' \<Longrightarrow> (\<And>j. inodes fs j \<noteq> None \<Longrightarrow> inodes fs' j \<noteq> None) \<Longrightarrow> body_ok fs' u"
  unfolding body_ok_def dir_ok_def by (cases u) (auto intro: less_le_trans)

text \<open>The counts and the body of an inode may change together.\<close>

lemma inv_upd_node:
  assumes inv: "fs_inv X Y fs" and n: "inodes fs i = Some n" and p: "next_ptr fs \<le> p"
    and body: "body_ok (fs\<lparr>next_ptr := p\<rparr>) (i_u n')"
    and rc: "refcount n' = refcount n + dr" and oc: "open_count n' = open_count n + od"
    and X: "\<And>j. X' j + entry_count j n' = X j + entry_count j n + of_bool (j = i) * dr" "\<And>j. 0 \<le> X' j"
    and Y: "\<And>j. Y' j = Y j + of_bool (j = i) * od" "\<And>j. 0 \<le> Y' j"
    and live: "refcount n' > 0 \<or> open_count n' > 0"
    and dead: "\<And>j. inodes fs j = None \<Longrightarrow> X' j = 0"
  shows "fs_inv X' Y' (fs\<lparr>fs_blocks := fs_blocks fs + (nblocks n' - nblocks n), inodes := (inodes fs)(i \<mapsto> n'), next_ptr := p\<rparr>)" (is "fs_inv _ _ ?fs'")
proof -
  note l = lists_okD [OF fs_invD(1) [OF inv]]
  have links: "links ?fs' j = links fs j - entry_count j n + entry_count j n'" for j
    using msum_update [OF l(4) n] by (simp add: links_def)
  have opens: "opens ?fs' j = opens fs j" for j by (simp add: opens_def)
  have alive: "inodes fs j \<noteq> None \<Longrightarrow> inodes ?fs' j \<noteq> None" for j by auto
  have "lists_ok ?fs'"
    using l n msum_update [OF l(4) n, of nblocks n'] by (auto simp: lists_ok_def)
  moreover have "counts_ok X' Y' ?fs' j m \<and> body_ok ?fs' (i_u m)" if m: "inodes ?fs' j = Some m" for j m
  proof (cases "j = i")
    case True
    then have "m = n'" using m by simp
    moreover have "counts_ok X Y fs i n" using fs_invD(2) [OF inv n] .
    moreover have "body_ok ?fs' (i_u n')" by (rule body_ok_mono [OF body]) auto
    ultimately show ?thesis
      using True links [of i] opens [of i] rc oc X(1) [of i] Y(1) [of i] live p by (auto simp: counts_ok_def)
  next
    case False
    then have m': "inodes fs j = Some m" using m by simp
    have "body_ok ?fs' (i_u m)" by (rule body_ok_mono [OF fs_invD(3) [OF inv m']]) (use p in auto)
    then show ?thesis
      using fs_invD(2) [OF inv m'] links [of j] opens [of j] X(1) [of j] Y(1) [of j] False p
      by (auto simp: counts_ok_def)
  qed
  moreover have "f < next_ptr ?fs' \<and> inodes ?fs' (f_inode ff) \<noteq> None \<and> \<not> f_req ff" if "files ?fs' f = Some ff" for f ff
    using fs_invD(4) [OF inv, of f ff] that p by auto
  moreover have "0 \<le> X' j \<and> 0 \<le> Y' j \<and> (inodes ?fs' j = None \<longrightarrow> X' j = 0 \<and> Y' j = 0)" for j
    using X(2) Y dead fs_invD(8) [OF inv] n by auto
  ultimately show ?thesis unfolding fs_inv_def by blast
qed

lemma inv_same_body:
  assumes inv: "fs_inv X Y fs" and n: "inodes fs i = Some n" and u: "i_u n' = i_u n"
    and rc: "refcount n' = refcount n + dr" and oc: "open_count n' = open_count n + od"
    and nn: "0 \<le> X i + dr" "0 \<le> Y i + od" and live: "refcount n' > 0 \<or> open_count n' > 0"
  shows "fs_inv (X(i := X i + dr)) (Y(i := Y i + od)) (fs\<lparr>inodes := (inodes fs)(i \<mapsto> n')\<rparr>)"
proof -
  have b: "nblocks n' = nblocks n" "\<And>j. entry_count j n' = entry_count j n"
    using u by (simp_all add: nblocks_def entry_count_def dir_entries_def)
  have "fs_inv (X(i := X i + dr)) (Y(i := Y i + od)) (fs\<lparr>fs_blocks := fs_blocks fs + (nblocks n' - nblocks n), inodes := (inodes fs)(i \<mapsto> n'), next_ptr := next_ptr fs\<rparr>)"
    by (rule inv_upd_node [OF inv n _ _ rc oc])
      (use b u nn live fs_invD(3,5-7) [OF inv] n in \<open>auto simp: body_ok_def dir_ok_def split: inode_u.splits\<close>)
  then show ?thesis using b by simp
qed

lemma inv_incref:
  assumes "fs_inv X Y fs" and "inode_incref i fs = Some fs'"
  shows "fs_inv (X(i := X i + 1)) Y fs'"
proof -
  obtain n where n: "inodes fs i = Some n" and e: "fs' = fs\<lparr>inodes := (inodes fs)(i \<mapsto> n\<lparr>refcount := refcount n + 1\<rparr>)\<rparr>"
    using assms(2) by (auto simp: inode_incref_def mod_inode_def bind_Some_conv)
  have "fs_inv (X(i := X i + 1)) (Y(i := Y i + 0)) fs'" unfolding e
    by (rule inv_same_body [OF assms(1) n])
      (use fs_invD(2,5,6) [OF assms(1)] n in \<open>auto simp: counts_ok_def add_nonneg_nonneg\<close>)
  then show ?thesis by simp
qed

lemma inv_inc_open:
  assumes "fs_inv X Y fs" and "inode_inc_open i fs = Some fs'"
  shows "fs_inv X (Y(i := Y i + 1)) fs'"
proof -
  obtain n where n: "inodes fs i = Some n" and e: "fs' = fs\<lparr>inodes := (inodes fs)(i \<mapsto> n\<lparr>open_count := open_count n + 1\<rparr>)\<rparr>"
    using assms(2) by (auto simp: inode_inc_open_def mod_inode_def bind_Some_conv)
  have "fs_inv (X(i := X i + 0)) (Y(i := Y i + 1)) fs'" unfolding e
    by (rule inv_same_body [OF assms(1) n])
      (use fs_invD(2,5,6) [OF assms(1)] n in \<open>auto simp: counts_ok_def add_nonneg_nonneg\<close>)
  then show ?thesis by simp
qed

text \<open>Changes of the other fields of an inode.\<close>

lemma inv_mod_inode:
  assumes "fs_inv X Y fs" and "mod_inode i f fs = Some fs'"
    and "\<And>n. i_u (f n) = i_u n \<and> refcount (f n) = refcount n \<and> open_count (f n) = open_count n"
  shows "fs_inv X Y fs'"
proof -
  obtain n where n: "inodes fs i = Some n" and e: "fs' = fs\<lparr>inodes := (inodes fs)(i \<mapsto> f n)\<rparr>"
    using assms(2) by (auto simp: mod_inode_def bind_Some_conv)
  have "fs_inv (X(i := X i + 0)) (Y(i := Y i + 0)) fs'" unfolding e
    by (rule inv_same_body [OF assms(1) n])
      (use assms(3) [of n] fs_invD(2) [OF assms(1) n] fs_invD(5,6) [OF assms(1)] in \<open>auto simp: counts_ok_def\<close>)
  then show ?thesis by simp
qed

lemma inv_update_mtime: "fs_inv X Y fs \<Longrightarrow> inode_update_mtime i fs = Some fs' \<Longrightarrow> fs_inv X Y fs'"
  unfolding inode_update_mtime_def by (erule (1) inv_mod_inode) simp

section \<open>Directories\<close>

lemma inodes_next_ptr: "fs_inv X Y fs \<Longrightarrow> inodes fs (next_ptr fs) = None"
  using fs_invD(2) [of X Y fs "next_ptr fs"] by (cases "inodes fs (next_ptr fs)") (auto simp: counts_ok_def)

lemma find_by_ptr:
  assumes "distinct (map de_ptr ds)"
  shows "find (\<lambda>de. de_ptr de = p) ds = Some de \<longleftrightarrow> de \<in> set ds \<and> de_ptr de = p"
  using assms by (induction ds) auto

lemma count_list_filter_ptr:
  assumes "distinct (map de_ptr ds)" and "de \<in> set ds"
  shows "int (count_list (map de_inode ds) j)
    = int (count_list (map de_inode (filter (\<lambda>x. de_ptr x \<noteq> de_ptr de) ds)) j) + of_bool (de_inode de = j)"
  using assms
proof (induction ds)
  case (Cons x ds)
  show ?case
  proof (cases "x = de")
    case True
    then have "filter (\<lambda>y. de_ptr y \<noteq> de_ptr de) ds = ds" by (intro filter_True) (use Cons.prems(1) True in \<open>auto simp: image_iff dest: sym\<close>)
    then show ?thesis using True by simp
  next
    case False
    then have "de \<in> set ds" using Cons.prems(2) by simp
    moreover have "de_ptr x \<noteq> de_ptr de" using Cons.prems(1) \<open>de \<in> set ds\<close> by force
    ultimately show ?thesis using Cons.IH Cons.prems(1) by auto
  qed
qed simp

lemma sum_list_filter_ptr:
  fixes g :: "dirent \<Rightarrow> int"
  assumes "distinct (map de_ptr ds)" and "de \<in> set ds"
  shows "sum_list (map g ds) = sum_list (map g (filter (\<lambda>x. de_ptr x \<noteq> de_ptr de) ds)) + g de"
  using assms
proof (induction ds)
  case (Cons x ds)
  show ?case
  proof (cases "x = de")
    case True
    then have "filter (\<lambda>y. de_ptr y \<noteq> de_ptr de) ds = ds" by (intro filter_True) (use Cons.prems(1) True in \<open>auto simp: image_iff dest: sym\<close>)
    then show ?thesis using True by simp
  next
    case False
    then have "de \<in> set ds" using Cons.prems(2) by simp
    moreover have "de_ptr x \<noteq> de_ptr de" using Cons.prems(1) \<open>de \<in> set ds\<close> by force
    ultimately show ?thesis using Cons.IH Cons.prems(1) by auto
  qed
qed simp

lemma nblocks_dir: "i_u n = FT_DIR ds sz \<Longrightarrow> lists_ok fs \<Longrightarrow> nblocks n = to_blocks fs (word_of_int sz)"
  by (simp add: nblocks_def to_blocks_eq)

lemma nblocks_reg: "i_u n = FT_REG r \<Longrightarrow> lists_ok fs \<Longrightarrow> nblocks n = to_blocks fs (ucast (rg_size r))"
  by (simp add: nblocks_def to_blocks_eq)

lemma inv_dir_add:
  assumes inv: "fs_inv X Y fs" and add: "inode_dir_add i name i1 fs = Some fs'"
    and x: "X i1 \<ge> 1" and fresh: "\<And>n. inodes fs i = Some n \<Longrightarrow> name \<notin> set (map de_name (dir_entries n))"
  shows "fs_inv (X(i1 := X i1 - 1)) Y fs'"
proof -
  obtain n where n: "inodes fs i = Some n" using add by (cases "inodes fs i") (auto simp: inode_dir_add_def)
  obtain ds sz where u: "i_u n = FT_DIR ds sz" using add n by (cases "i_u n") (auto simp: inode_dir_add_def)
  let ?de = "\<lparr>de_ptr = next_ptr fs, de_name = name, de_inode = i1\<rparr>"
  let ?n = "n\<lparr>i_u := FT_DIR (ds @ [?de]) (sz + dirent_size name)\<rparr>"
  have e: "fs' = fs\<lparr>fs_blocks := fs_blocks fs + (nblocks ?n - nblocks n), inodes := (inodes fs)(i \<mapsto> ?n), next_ptr := next_ptr fs + 1\<rparr>"
    using add n u nblocks_dir [OF u fs_invD(1) [OF inv]] nblocks_dir [of ?n _ _ fs, OF _ fs_invD(1) [OF inv]]
    by (simp add: inode_dir_add_def)
  have i1: "inodes fs i1 \<noteq> None" using fs_invD(7) [OF inv, of i1] x by auto
  have "body_ok fs (i_u n)" using fs_invD(3) [OF inv n] .
  then have ok: "dir_ok fs ds sz" by (simp add: body_ok_def u)
  have "name \<notin> de_name ` set ds" using fresh [OF n] u by (simp add: dir_entries_def)
  then have "dir_ok (fs\<lparr>next_ptr := next_ptr fs + 1\<rparr>) (ds @ [?de]) (sz + dirent_size name)"
    using ok i1 by (auto simp: dir_ok_def)
  then have body: "body_ok (fs\<lparr>next_ptr := next_ptr fs + 1\<rparr>) (i_u ?n)" by (simp add: body_ok_def)
  have "fs_inv (X(i1 := X i1 - 1)) Y (fs\<lparr>fs_blocks := fs_blocks fs + (nblocks ?n - nblocks n), inodes := (inodes fs)(i \<mapsto> ?n), next_ptr := next_ptr fs + 1\<rparr>)"
  proof (rule inv_upd_node [OF inv n _ body, where dr = 0 and od = 0])
    show "(X(i1 := X i1 - 1)) j + entry_count j ?n = X j + entry_count j n + of_bool (j = i) * 0" for j
      using u by (simp add: entry_count_def dir_entries_def)
    show "inodes fs j = None \<Longrightarrow> (X(i1 := X i1 - 1)) j = 0" for j using fs_invD(7) [OF inv, of j] i1 by auto
    show "0 < refcount ?n \<or> 0 < open_count ?n" using fs_invD(2) [OF inv n] by (auto simp: counts_ok_def)
  qed (use x fs_invD(5,6) [OF inv] in auto)
  then show ?thesis unfolding e .
qed

lemma inv_dirent_delete:
  assumes inv: "fs_inv X Y fs" and del: "inode_dirent_delete_no_decref i p fs = Some fs'"
    and en: "entry_inode i p fs = Some i1"
  shows "fs_inv (X(i1 := X i1 + 1)) Y fs'"
proof -
  obtain n where n: "inodes fs i = Some n"
    using del by (cases "inodes fs i") (auto simp: inode_dirent_delete_no_decref_def)
  obtain ds sz where u: "i_u n = FT_DIR ds sz"
    using del n by (cases "i_u n") (auto simp: inode_dirent_delete_no_decref_def)
  obtain de where f: "find (\<lambda>de. de_ptr de = p) ds = Some de"
    using del n u by (auto simp: inode_dirent_delete_no_decref_def bind_Some_conv)
  let ?n = "n\<lparr>i_u := FT_DIR (filter (\<lambda>de. de_ptr de \<noteq> p) ds) (sz - dirent_size (de_name de))\<rparr>"
  have ok: "dir_ok fs ds sz" using fs_invD(3) [OF inv n] by (simp add: body_ok_def u)
  then have de: "de \<in> set ds" "de_ptr de = p" using f find_by_ptr by (auto simp: dir_ok_def)
  have i1: "i1 = de_inode de" using en n u f by (simp add: entry_inode_def dir_entries_def)
  have e: "fs' = fs\<lparr>fs_blocks := fs_blocks fs + (nblocks ?n - nblocks n), inodes := (inodes fs)(i \<mapsto> ?n), next_ptr := next_ptr fs\<rparr>"
    using del n u f nblocks_dir [OF u fs_invD(1) [OF inv]] nblocks_dir [of ?n _ _ fs, OF _ fs_invD(1) [OF inv]]
    by (auto simp: inode_dirent_delete_no_decref_def Let_def split: if_splits)
  have alive: "inodes fs i1 \<noteq> None" using ok de i1 by (auto simp: dir_ok_def)
  have "dir_ok fs (filter (\<lambda>de. de_ptr de \<noteq> p) ds) (sz - dirent_size (de_name de))"
    using ok de sum_list_filter_ptr [of ds de "\<lambda>de. dirent_size (de_name de)"]
    by (auto simp: dir_ok_def distinct_map_filter)
  then have body: "body_ok (fs\<lparr>next_ptr := next_ptr fs\<rparr>) (i_u ?n)" by (simp add: body_ok_def dir_ok_def)
  have "fs_inv (X(i1 := X i1 + 1)) Y (fs\<lparr>fs_blocks := fs_blocks fs + (nblocks ?n - nblocks n), inodes := (inodes fs)(i \<mapsto> ?n), next_ptr := next_ptr fs\<rparr>)"
  proof (rule inv_upd_node [OF inv n _ body, where dr = 0 and od = 0])
    show "(X(i1 := X i1 + 1)) j + entry_count j ?n = X j + entry_count j n + of_bool (j = i) * 0" for j
      using u de i1 count_list_filter_ptr [of ds de j] ok by (simp add: entry_count_def dir_entries_def dir_ok_def)
    show "inodes fs j = None \<Longrightarrow> (X(i1 := X i1 + 1)) j = 0" for j using fs_invD(7) [OF inv, of j] alive by auto
    show "0 < refcount ?n \<or> 0 < open_count ?n" using fs_invD(2) [OF inv n] by (auto simp: counts_ok_def)
  qed (use fs_invD(5,6) [OF inv] in \<open>auto simp: add_nonneg_nonneg\<close>)
  then show ?thesis unfolding e .
qed

section \<open>Creation and release\<close>

lemma links_zero_no_entry:
  assumes "finite (dom (inodes fs))" and "links fs i = 0" and "inodes fs j = Some m"
  shows "i \<notin> set (map de_inode (dir_entries m))"
proof -
  have "entry_count i m \<le> links fs i" unfolding links_def by (rule msum_ge [OF assms(1) _ assms(3)]) simp
  then have "count_list (map de_inode (dir_entries m)) i = 0" using assms(2) by (simp add: entry_count_def)
  then show ?thesis by (simp only: count_list_0_iff) simp
qed

lemma opens_zero_no_file:
  assumes "finite (dom (files fs))" and "opens fs i = 0" and "files fs f = Some ff"
  shows "f_inode ff \<noteq> i"
  using msum_ge [OF assms(1) _ assms(3), of "\<lambda>ff. of_bool (f_inode ff = i)"] assms(2) by (auto simp: opens_def)

lemma inv_new:
  assumes inv: "fs_inv X Y fs" and new: "inode_new u mode uid gid fs = (i, fs')"
    and u: "u = FT_DIR [] 0 \<or> u = new_reg \<or> \<not> (\<exists>ds sz. u = FT_DIR ds sz) \<and> \<not> (\<exists>r. u = FT_REG r)"
  shows "fs_inv (X(i := 1)) Y fs' \<and> inodes fs i = None"
proof -
  note l = lists_okD [OF fs_invD(1) [OF inv]]
  have i: "i = next_ptr fs" and none: "inodes fs i = None"
    using new inodes_next_ptr [OF inv] by (auto simp: inode_new_def Let_def)
  define n where "n = the (inodes fs' i)"
  have n: "i_u n = u" "refcount n = 1" "open_count n = 0" and
    e: "fs' = fs\<lparr>inode_list := i # inode_list fs, inodes := (inodes fs)(i \<mapsto> n), next_ptr := i + 1,
      inode_count := inode_count fs + 1, inode_num_alloc := inode_num_alloc fs + 1\<rparr>"
    using new by (auto simp: inode_new_def Let_def n_def)
  have ec: "entry_count j n = 0" for j using u n by (auto simp: entry_count_def dir_entries_def new_reg_def split: inode_u.splits)
  have nb: "nblocks n = 0" using u n by (auto simp: nblocks_def new_reg_def split: inode_u.splits)
  have links: "links fs' j = links fs j" for j
    using msum_insert [OF l(4) none, of "entry_count j" n] ec by (simp add: links_def e)
  have opens: "opens fs' j = opens fs j" for j by (simp add: opens_def e)
  have l0: "links fs i = 0"
  proof -
    have "entry_count i m = 0" if m: "inodes fs j = Some m" for j m
    proof -
      have "i \<notin> set (map de_inode (dir_entries m))"
        using fs_invD(3) [OF inv m] none
        by (cases "i_u m") (auto simp: body_ok_def dir_ok_def dir_entries_def)
      then show ?thesis by (simp add: entry_count_def count_list_0_iff)
    qed
    then show ?thesis unfolding links_def msum_def by (intro sum.neutral) auto
  qed
  have o0: "opens fs i = 0"
    unfolding opens_def msum_def using fs_invD(4) [OF inv] none by (intro sum.neutral) fastforce
  have "lists_ok fs'"
    using l none msum_insert [OF l(4) none, of nblocks n] nb by (auto simp: lists_ok_def e domIff)
  moreover have "counts_ok (X(i := 1)) Y fs' j m \<and> body_ok fs' (i_u m)" if m: "inodes fs' j = Some m" for j m
  proof (cases "j = i")
    case True
    then have "m = n" using m by (simp add: e)
    moreover have "body_ok fs' u" using u by (auto simp: body_ok_def dir_ok_def new_reg_def split: inode_u.splits)
    ultimately show ?thesis
      using True n links [of i] opens [of i] l0 o0 fs_invD(8) [OF inv none] by (simp add: counts_ok_def e)
  next
    case False
    then have m': "inodes fs j = Some m" using m by (simp add: e)
    have "body_ok fs' (i_u m)" by (rule body_ok_mono [OF fs_invD(3) [OF inv m']]) (simp_all add: e i)
    then show ?thesis
      using fs_invD(2) [OF inv m'] links [of j] opens [of j] False i by (auto simp: counts_ok_def e)
  qed
  moreover have "f < next_ptr fs' \<and> inodes fs' (f_inode ff) \<noteq> None \<and> \<not> f_req ff" if "files fs' f = Some ff" for f ff
    using fs_invD(4) [OF inv, of f ff] that i by (auto simp: e)
  moreover have "0 \<le> (X(i := 1)) j \<and> 0 \<le> Y j \<and> (inodes fs' j = None \<longrightarrow> (X(i := 1)) j = 0 \<and> Y j = 0)" for j
    using fs_invD(5-8) [OF inv] by (auto simp: e)
  ultimately show ?thesis using none unfolding fs_inv_def by blast
qed

lemma free_result:
  assumes inv: "fs_inv X Y fs" and n: "inodes fs i = Some n" and u: "i_u n' = i_u n"
    and free: "inode_free E i (fs\<lparr>inodes := (inodes fs)(i \<mapsto> n')\<rparr>) = Some fs'"
  shows "fs' = fs\<lparr>fs_blocks := fs_blocks fs - nblocks n, inode_list := remove1 i (inode_list fs),
      inodes := (inodes fs)(i := None), inode_count := inode_count fs - 1\<rparr>"
    and "dir_entries n = []" and "refcount n' = 0 \<and> open_count n' = 0"
proof -
  have b: "body_ok fs (i_u n)" using fs_invD(3) [OF inv n] .
  have l: "lists_ok fs" using fs_invD(1) [OF inv] .
  have "to_blocks (fs\<lparr>inodes := (inodes fs)(i \<mapsto> n')\<rparr>) x = to_blocks fs x" for x by (simp add: to_blocks_def)
  then have "fs' = fs\<lparr>fs_blocks := fs_blocks fs - nblocks n, inode_list := remove1 i (inode_list fs),
      inodes := (inodes fs)(i := None), inode_count := inode_count fs - 1\<rparr> \<and> dir_entries n = [] \<and> refcount n' = 0 \<and> open_count n' = 0"
    using free u b l nblocks_reg [of n _ fs]
    by (cases fs rule: fsmem.cases_scheme; cases "i_u n")
      (auto simp: inode_free_def inode_release_def body_ok_def dir_ok_def nblocks_def dir_entries_def Let_def split: if_splits)
  then show "fs' = fs\<lparr>fs_blocks := fs_blocks fs - nblocks n, inode_list := remove1 i (inode_list fs),
      inodes := (inodes fs)(i := None), inode_count := inode_count fs - 1\<rparr>"
    and "dir_entries n = []" and "refcount n' = 0 \<and> open_count n' = 0" by blast+
qed

lemma inv_remove:
  assumes inv: "fs_inv X Y fs" and n: "inodes fs i = Some n" and none: "dir_entries n = []"
    and l0: "links fs i = 0" and o0: "opens fs i = 0"
  shows "fs_inv (X(i := 0)) (Y(i := 0)) (fs\<lparr>fs_blocks := fs_blocks fs - nblocks n, inode_list := remove1 i (inode_list fs),
      inodes := (inodes fs)(i := None), inode_count := inode_count fs - 1\<rparr>)" (is "fs_inv _ _ ?fs'")
proof -
  note l = lists_okD [OF fs_invD(1) [OF inv]]
  have links: "links ?fs' j = links fs j" for j
    using msum_remove [OF l(4) n, of "entry_count j"] none by (simp add: links_def entry_count_def)
  have opens: "opens ?fs' j = opens fs j" for j by (simp add: opens_def)
  have mem: "i \<in> set (inode_list fs)" using l(3) n by auto
  then have len: "int (length (remove1 i (inode_list fs))) = int (length (inode_list fs)) - 1"
    using of_nat_diff [of 1 "length (inode_list fs)"] length_pos_if_in_set [OF mem] by (simp add: length_remove1 Suc_le_eq)
  have "lists_ok ?fs'"
    using l len msum_remove [OF l(4) n, of nblocks] by (auto simp: lists_ok_def set_remove1_eq)
  moreover have "counts_ok (X(i := 0)) (Y(i := 0)) ?fs' j m \<and> body_ok ?fs' (i_u m)" if m: "inodes ?fs' j = Some m" for j m
  proof -
    have ji: "j \<noteq> i" and m': "inodes fs j = Some m" using m by (auto split: if_splits)
    have "body_ok fs (i_u m)" "i \<notin> set (map de_inode (dir_entries m))"
      using fs_invD(3) [OF inv m'] links_zero_no_entry [OF l(4) l0 m'] by auto
    then have "body_ok ?fs' (i_u m)" by (cases "i_u m") (auto simp: body_ok_def dir_ok_def dir_entries_def)
    then show ?thesis
      using fs_invD(2) [OF inv m'] links [of j] opens [of j] ji by (auto simp: counts_ok_def)
  qed
  moreover have "f < next_ptr ?fs' \<and> inodes ?fs' (f_inode ff) \<noteq> None \<and> \<not> f_req ff" if ff: "files ?fs' f = Some ff" for f ff
    using fs_invD(4) [OF inv, of f ff] opens_zero_no_file [OF l(1) o0, of f ff] ff by auto
  moreover have "0 \<le> (X(i := 0)) j \<and> 0 \<le> (Y(i := 0)) j \<and> (inodes ?fs' j = None \<longrightarrow> (X(i := 0)) j = 0 \<and> (Y(i := 0)) j = 0)" for j
    using fs_invD(5-8) [OF inv] by auto
  ultimately show ?thesis unfolding fs_inv_def by blast
qed

text \<open>What an operation on inodes leaves as it was.\<close>

definition preserves :: "'x fsmem_scheme \<Rightarrow> 'x fsmem_scheme \<Rightarrow> bool" where
  "preserves fs fs' \<longleftrightarrow> files fs' = files fs \<and> root_inode fs' = root_inode fs \<and> next_ptr fs \<le> next_ptr fs'"

lemma preserves_refl [simp]: "preserves fs fs" by (simp add: preserves_def)

lemma preserves_trans: "preserves a b \<Longrightarrow> preserves b c \<Longrightarrow> preserves a c" by (auto simp: preserves_def)

lemma inv_decref:
  assumes inv: "fs_inv X Y fs" and x: "X i \<ge> 1" and d: "inode_decref E i fs = Some fs'"
  shows "fs_inv (X(i := X i - 1)) Y fs' \<and> preserves fs fs'"
proof -
  obtain n where n: "inodes fs i = Some n" using d by (cases "inodes fs i") (auto simp: inode_decref_def)
  let ?n = "n\<lparr>refcount := refcount n - 1\<rparr>"
  have c: "refcount n = links fs i + X i" "open_count n = opens fs i + Y i"
    using fs_invD(2) [OF inv n] by (auto simp: counts_ok_def)
  show ?thesis
  proof (cases "refcount n - 1 \<le> 0 \<and> open_count n \<le> 0")
    case True
    then have free: "inode_free E i (fs\<lparr>inodes := (inodes fs)(i \<mapsto> ?n)\<rparr>) = Some fs'"
      using d n x c by (simp add: inode_decref_def mod_inode_def split: if_splits)
    note r = free_result [OF inv n _ free, simplified]
    have z: "links fs i = 0" "X i = 1" "opens fs i = 0" "Y i = 0"
      using r(3) c x links_nonneg [of fs i] opens_nonneg [of fs i] fs_invD(6) [OF inv, of i] by linarith+
    then have "X(i := X i - 1) = X(i := 0)" "Y(i := 0) = Y" by (simp_all add: fun_upd_idem)
    then show ?thesis using inv_remove [OF inv n r(2) z(1,3)] r(1) by (simp add: preserves_def)
  next
    case False
    then have e: "fs' = fs\<lparr>inodes := (inodes fs)(i \<mapsto> ?n)\<rparr>"
      using d n x c by (auto simp: inode_decref_def mod_inode_def split: if_splits)
    have "fs_inv (X(i := X i + - 1)) (Y(i := Y i + 0)) fs'" unfolding e
      by (rule inv_same_body [OF inv n]) (use False x fs_invD(6) [OF inv, of i] in auto)
    then show ?thesis by (simp add: e preserves_def)
  qed
qed

lemma inv_dec_open:
  assumes inv: "fs_inv X Y fs" and y: "Y i \<ge> 1" and d: "inode_dec_open E i fs = Some fs'"
  shows "fs_inv X (Y(i := Y i - 1)) fs' \<and> preserves fs fs'"
proof -
  obtain n where n: "inodes fs i = Some n" using d by (cases "inodes fs i") (auto simp: inode_dec_open_def)
  let ?n = "n\<lparr>open_count := open_count n - 1\<rparr>"
  have c: "refcount n = links fs i + X i" "open_count n = opens fs i + Y i"
    using fs_invD(2) [OF inv n] by (auto simp: counts_ok_def)
  show ?thesis
  proof (cases "open_count n - 1 \<le> 0 \<and> refcount n \<le> 0")
    case True
    then have free: "inode_free E i (fs\<lparr>inodes := (inodes fs)(i \<mapsto> ?n)\<rparr>) = Some fs'"
      using d n y c by (simp add: inode_dec_open_def mod_inode_def split: if_splits)
    note r = free_result [OF inv n _ free, simplified]
    have z: "links fs i = 0" "Y i = 1" "opens fs i = 0" "X i = 0"
      using r(3) c y links_nonneg [of fs i] opens_nonneg [of fs i] fs_invD(5) [OF inv, of i] by linarith+
    then have "Y(i := Y i - 1) = Y(i := 0)" "X(i := 0) = X" by (simp_all add: fun_upd_idem)
    then show ?thesis using inv_remove [OF inv n r(2) z(1,3)] r(1) by (simp add: preserves_def)
  next
    case False
    then have e: "fs' = fs\<lparr>inodes := (inodes fs)(i \<mapsto> ?n)\<rparr>"
      using d n y c by (auto simp: inode_dec_open_def mod_inode_def split: if_splits)
    have "fs_inv (X(i := X i + 0)) (Y(i := Y i + - 1)) fs'" unfolding e
      by (rule inv_same_body [OF inv n]) (use False y fs_invD(5) [OF inv, of i] in auto)
    then show ?thesis by (simp add: e preserves_def)
  qed
qed

section \<open>Files\<close>

lemma opens_update:
  assumes "finite (dom (files fs))" and "files fs f = Some ff"
  shows "opens (fs\<lparr>files := (files fs)(f \<mapsto> ff')\<rparr>) i = opens fs i - of_bool (f_inode ff = i) + of_bool (f_inode ff' = i)"
    and "opens (fs\<lparr>files := (files fs)(f := None)\<rparr>) i = opens fs i - of_bool (f_inode ff = i)"
  using msum_update [OF assms, of "\<lambda>ff. of_bool (f_inode ff = i)" ff']
    msum_remove [OF assms, of "\<lambda>ff. of_bool (f_inode ff = i)"] by (simp_all add: opens_def)

lemma body_ok_files [simp]: "body_ok (fs\<lparr>files := F\<rparr>) u = body_ok fs u"
  by (simp add: body_ok_def dir_ok_def split: inode_u.split)

text \<open>A change of the files, with the references it takes and gives back.\<close>

lemma inv_files:
  assumes inv: "fs_inv X Y fs" and fin: "finite (dom F)"
    and ok: "\<And>f ff. F f = Some ff \<Longrightarrow> f < next_ptr fs \<and> inodes fs (f_inode ff) \<noteq> None \<and> \<not> f_req ff"
    and Y: "\<And>i. Y' i + opens (fs\<lparr>files := F\<rparr>) i = Y i + opens fs i" "\<And>i. 0 \<le> Y' i"
      "\<And>i. inodes fs i = None \<Longrightarrow> Y' i = 0"
  shows "fs_inv X Y' (fs\<lparr>files := F\<rparr>)"
proof -
  have "lists_ok (fs\<lparr>files := F\<rparr>)" using fs_invD(1) [OF inv] fin by (simp add: lists_ok_def)
  moreover have "counts_ok X Y' (fs\<lparr>files := F\<rparr>) i n" if "inodes fs i = Some n" for i n
    using fs_invD(2) [OF inv that] Y(1) [of i] by (auto simp: counts_ok_def links_def)
  ultimately show ?thesis using ok Y(2,3) fs_invD(3,5,7) [OF inv] by (simp add: fs_inv_def)
qed

lemma inv_file_same:
  assumes inv: "fs_inv X Y fs" and f: "files fs f = Some ff" and s: "f_inode ff' = f_inode ff" "f_req ff' = f_req ff"
  shows "fs_inv X Y (fs\<lparr>files := (files fs)(f \<mapsto> ff')\<rparr>)"
proof (rule inv_files [OF inv])
  note l = lists_okD [OF fs_invD(1) [OF inv]]
  show "finite (dom ((files fs)(f \<mapsto> ff')))" using l(1) by simp
  show "Y i + opens (fs\<lparr>files := (files fs)(f \<mapsto> ff')\<rparr>) i = Y i + opens fs i" for i
    using opens_update(1) [OF l(1) f, of ff' i] s by simp
  show "g < next_ptr fs \<and> inodes fs (f_inode gg) \<noteq> None \<and> \<not> f_req gg" if "((files fs)(f \<mapsto> ff')) g = Some gg" for g gg
    using fs_invD(4) [OF inv, of g gg] fs_invD(4) [OF inv f] s that by (auto split: if_splits)
qed (use fs_invD(6,8) [OF inv] in auto)

text \<open>A file is freed: its reference to the inode is left to the caller.\<close>

lemma inv_file_free:
  assumes inv: "fs_inv X Y fs" and f: "files fs f = Some ff"
  shows "fs_inv X (Y(f_inode ff := Y (f_inode ff) + 1)) (fs\<lparr>files := (files fs)(f := None)\<rparr>)"
proof (rule inv_files [OF inv])
  note l = lists_okD [OF fs_invD(1) [OF inv]]
  show "finite (dom ((files fs)(f := None)))" using l(1) by simp
  show "(Y(f_inode ff := Y (f_inode ff) + 1)) i + opens (fs\<lparr>files := (files fs)(f := None)\<rparr>) i = Y i + opens fs i" for i
    using opens_update(2) [OF l(1) f, of i] by simp
  show "g < next_ptr fs \<and> inodes fs (f_inode gg) \<noteq> None \<and> \<not> f_req gg" if "((files fs)(f := None)) g = Some gg" for g gg
    using fs_invD(4) [OF inv, of g gg] that by (auto split: if_splits)
  show "0 \<le> (Y(f_inode ff := Y (f_inode ff) + 1)) i" for i using fs_invD(6) [OF inv] by (simp add: add_nonneg_nonneg)
  show "inodes fs i = None \<Longrightarrow> (Y(f_inode ff := Y (f_inode ff) + 1)) i = 0" for i
    using fs_invD(8) [OF inv, of i] fs_invD(4) [OF inv f] by auto
qed

lemma inv_file_new:
  assumes inv: "fs_inv X Y fs" and f: "files fs f = None" "f < next_ptr fs" and y: "Y (f_inode ff) \<ge> 1" and r: "\<not> f_req ff"
  shows "fs_inv X (Y(f_inode ff := Y (f_inode ff) - 1)) (fs\<lparr>files := (files fs)(f \<mapsto> ff)\<rparr>)"
proof (rule inv_files [OF inv])
  note l = lists_okD [OF fs_invD(1) [OF inv]]
  have alive: "inodes fs (f_inode ff) \<noteq> None" using fs_invD(8) [OF inv, of "f_inode ff"] y by auto
  show "finite (dom ((files fs)(f \<mapsto> ff)))" using l(1) by simp
  show "(Y(f_inode ff := Y (f_inode ff) - 1)) i + opens (fs\<lparr>files := (files fs)(f \<mapsto> ff)\<rparr>) i = Y i + opens fs i" for i
    using msum_insert [OF l(1) f(1), of "\<lambda>ff. of_bool (f_inode ff = i)" ff] by (simp add: opens_def)
  show "g < next_ptr fs \<and> inodes fs (f_inode gg) \<noteq> None \<and> \<not> f_req gg" if "((files fs)(f \<mapsto> ff)) g = Some gg" for g gg
    using fs_invD(4) [OF inv, of g gg] f r alive that by (auto split: if_splits)
  show "0 \<le> (Y(f_inode ff := Y (f_inode ff) - 1)) i" for i using fs_invD(6) [OF inv] y by simp
  show "inodes fs i = None \<Longrightarrow> (Y(f_inode ff := Y (f_inode ff) - 1)) i = 0" for i
    using fs_invD(8) [OF inv, of i] alive by auto
qed

end
