(* ===== verification/Fs_Mem_Ops.thy ===== *)
theory Fs_Mem_Ops
  imports Fs_Mem_Inv
begin

text \<open>
  What the operations of the file system in memory do. A directory stands for a finite map from names to inodes;
  the operations keep the invariant and change these maps as their names say.
\<close>

section \<open>Directories as maps\<close>

definition entry_map :: "dirent list \<Rightarrow> fname \<Rightarrow> iptr option" where
  "entry_map ds = map_of (map (\<lambda>de. (de_name de, de_inode de)) ds)"

text \<open>The entries of the directory \<open>i\<close>, none when there is no such directory.\<close>

definition dents :: "'x fsmem_scheme \<Rightarrow> iptr \<Rightarrow> dirent list" where
  "dents fs i = (case inodes fs i of None \<Rightarrow> [] | Some n \<Rightarrow> dir_entries n)"

definition dmap :: "'x fsmem_scheme \<Rightarrow> iptr \<Rightarrow> fname \<Rightarrow> iptr option" where
  "dmap fs i = entry_map (dents fs i)"

lemma dmap_cong: "dents fs' = dents fs \<Longrightarrow> dmap fs' = dmap fs"
  by (simp add: dmap_def fun_eq_iff)

lemma dents_files [simp]: "dents (fs\<lparr>files := F\<rparr>) = dents fs"
  by (simp add: dents_def fun_eq_iff)

lemma dents_tod [simp]: "dents (fs\<lparr>tod := t\<rparr>) = dents fs"
  by (simp add: dents_def fun_eq_iff)

lemma dmap_files [simp]: "dmap (fs\<lparr>files := F\<rparr>) = dmap fs"
  by (rule dmap_cong) simp

lemma dmap_tod [simp]: "dmap (fs\<lparr>tod := t\<rparr>) = dmap fs"
  by (rule dmap_cong) simp

lemma dents_same_body:
  assumes "inodes fs i = Some n" and "inodes fs' = (inodes fs)(i \<mapsto> n')" and "dir_entries n' = dir_entries n"
  shows "dents fs' = dents fs"
proof
  fix j
  show "dents fs' j = dents fs j" using assms by (cases "j = i") (simp_all add: dents_def)
qed

lemmas dmap_same_body = dents_same_body [THEN dmap_cong]

lemma dents_removed:
  assumes "inodes fs i = Some n" and "dir_entries n = []" and "inodes fs' = (inodes fs)(i := None)"
  shows "dents fs' = dents fs"
proof
  fix j
  show "dents fs' j = dents fs j" using assms by (cases "j = i") (simp_all add: dents_def)
qed

lemma entry_map_Cons: "entry_map (de # ds) = (entry_map ds)(de_name de \<mapsto> de_inode de)"
  by (simp add: entry_map_def)

lemma find_entry_map: "entry_map ds name = map_option de_inode (find (\<lambda>de. de_name de = name) ds)"
  by (induction ds) (auto simp: entry_map_def)

lemma dom_entry_map: "dom (entry_map ds) = set (map de_name ds)"
  by (simp add: entry_map_def dom_map_of_conv_image_fst image_image)

lemma search_dmap: "inode_search i name fs = Some r \<Longrightarrow> dmap fs i name = map_option de_inode r"
  by (auto simp: inode_search_def dmap_def dents_def find_entry_map bind_Some_conv)

lemma find_SomeD: "find P xs = Some x \<Longrightarrow> x \<in> set xs \<and> P x"
  by (induction xs) (auto split: if_splits)

lemma search_entry:
  assumes inv: "fs_inv X Y fs" and s: "inode_search i name fs = Some (Some de)"
  shows "entry_inode i (de_ptr de) fs = Some (de_inode de)" and "de_name de = name"
    and "\<exists>n ds sz. inodes fs i = Some n \<and> i_u n = FT_DIR ds sz \<and> de \<in> set ds"
proof -
  obtain n where n: "inodes fs i = Some n" and f: "find (\<lambda>de. de_name de = name) (dir_entries n) = Some de"
    using s by (auto simp: inode_search_def bind_Some_conv)
  obtain ds sz where u: "i_u n = FT_DIR ds sz" using f by (cases "i_u n") (auto simp: dir_entries_def)
  have de: "de \<in> set ds" "de_name de = name" using find_SomeD [OF f] u by (auto simp: dir_entries_def)
  have "dir_ok fs ds sz" using fs_invD(3) [OF inv n] u by (simp add: body_ok_def)
  then have "find (\<lambda>x. de_ptr x = de_ptr de) ds = Some de" using find_by_ptr de by (auto simp: dir_ok_def)
  then show "entry_inode i (de_ptr de) fs = Some (de_inode de)" using n u by (simp add: entry_inode_def dir_entries_def)
  show "de_name de = name" by (rule de(2))
  show "\<exists>n ds sz. inodes fs i = Some n \<and> i_u n = FT_DIR ds sz \<and> de \<in> set ds" using n u de by blast
qed

section \<open>The building blocks\<close>

lemma incref_frame:
  assumes "inode_incref i fs = Some fs'"
  shows "preserves fs fs'" and "dmap fs' = dmap fs"
proof -
  obtain n where n: "inodes fs i = Some n" and e: "fs' = fs\<lparr>inodes := (inodes fs)(i \<mapsto> n\<lparr>refcount := refcount n + 1\<rparr>)\<rparr>"
    using assms by (auto simp: inode_incref_def mod_inode_def bind_Some_conv)
  show "preserves fs fs'" by (simp add: e preserves_def)
  show "dmap fs' = dmap fs" by (rule dmap_same_body [OF n, where n' = "the (inodes fs' i)"]) (simp_all add: e dir_entries_def)
qed

lemma inc_open_frame:
  assumes "inode_inc_open i fs = Some fs'"
  shows "preserves fs fs'" and "dmap fs' = dmap fs"
proof -
  obtain n where n: "inodes fs i = Some n" and e: "fs' = fs\<lparr>inodes := (inodes fs)(i \<mapsto> n\<lparr>open_count := open_count n + 1\<rparr>)\<rparr>"
    using assms by (auto simp: inode_inc_open_def mod_inode_def bind_Some_conv)
  show "preserves fs fs'" by (simp add: e preserves_def)
  show "dmap fs' = dmap fs" by (rule dmap_same_body [OF n, where n' = "the (inodes fs' i)"]) (simp_all add: e dir_entries_def)
qed

lemma mod_inode_frame:
  assumes "mod_inode i f fs = Some fs'" and "\<And>n. i_u (f n) = i_u n"
  shows "preserves fs fs'" and "dmap fs' = dmap fs"
proof -
  obtain n where n: "inodes fs i = Some n" and e: "fs' = fs\<lparr>inodes := (inodes fs)(i \<mapsto> f n)\<rparr>"
    using assms by (auto simp: mod_inode_def bind_Some_conv)
  show "preserves fs fs'" by (simp add: e preserves_def)
  show "dmap fs' = dmap fs" by (rule dmap_same_body [OF n, where n' = "f n"]) (use assms(2) in \<open>simp_all add: e dir_entries_def\<close>)
qed

lemma new_frame:
  assumes inv: "fs_inv X Y fs" and new: "inode_new u mode uid gid fs = (i, fs')"
    and u: "\<And>ds sz. u = FT_DIR ds sz \<Longrightarrow> ds = []"
  shows "preserves fs fs'" and "dmap fs' = dmap fs" and "dmap fs' i = Map.empty" and "i = next_ptr fs"
    and "\<exists>n. inodes fs' i = Some n \<and> i_u n = u"
proof -
  show "preserves fs fs'" "i = next_ptr fs" "\<exists>n. inodes fs' i = Some n \<and> i_u n = u"
    using new by (auto simp: inode_new_def Let_def preserves_def)
  have "dmap fs' j = dmap fs j" for j
    using new inodes_next_ptr [OF inv] u
    by (cases "j = next_ptr fs"; cases u) (auto simp: inode_new_def Let_def dmap_def dents_def dir_entries_def entry_map_def)
  then show "dmap fs' = dmap fs" by blast
  then show "dmap fs' i = Map.empty"
    using new inodes_next_ptr [OF inv] by (simp add: inode_new_def Let_def dmap_def dents_def entry_map_def)
qed

lemma dir_add_frame:
  assumes add: "inode_dir_add i name i1 fs = Some fs'" and fresh: "dmap fs i name = None"
  shows "preserves fs fs'" and "dmap fs' = (dmap fs)(i := (dmap fs i)(name \<mapsto> i1))"
proof -
  obtain n where n: "inodes fs i = Some n" using add by (cases "inodes fs i") (auto simp: inode_dir_add_def)
  obtain ds sz where u: "i_u n = FT_DIR ds sz" using add n by (cases "i_u n") (auto simp: inode_dir_add_def)
  show "preserves fs fs'" using add n u by (auto simp: inode_dir_add_def preserves_def)
  have nm: "name \<notin> dom (entry_map ds)" using fresh n u by (auto simp: dmap_def dents_def dir_entries_def)
  have e: "inodes fs' = (inodes fs)(i \<mapsto> n\<lparr>i_u := FT_DIR (ds @ [\<lparr>de_ptr = next_ptr fs, de_name = name, de_inode = i1\<rparr>])
      (sz + dirent_size name)\<rparr>)"
    using add n u by (auto simp: inode_dir_add_def)
  have "entry_map (ds @ [\<lparr>de_ptr = next_ptr fs, de_name = name, de_inode = i1\<rparr>]) = (entry_map ds)(name \<mapsto> i1)"
    using nm by (auto simp: entry_map_def fun_eq_iff map_add_def split: option.splits)
  then show "dmap fs' = (dmap fs)(i := (dmap fs i)(name \<mapsto> i1))"
    using n u by (auto simp: dmap_def dents_def e fun_eq_iff dir_entries_def)
qed

lemma inv_add_entry:
  assumes inv: "fs_inv X Y fs" and add: "inode_dir_add i name i1 fs = Some fs'"
    and x: "X i1 \<ge> 1" and fresh: "dmap fs i name = None"
  shows "fs_inv (X(i1 := X i1 - 1)) Y fs'"
proof (rule inv_dir_add [OF inv add x])
  fix n assume "inodes fs i = Some n"
  then show "name \<notin> set (map de_name (dir_entries n))"
    using fresh dom_entry_map [of "dir_entries n"] by (auto simp: dmap_def dents_def)
qed

lemma entry_map_filter:
  assumes "distinct (map de_ptr ds)" and "distinct (map de_name ds)" and "de \<in> set ds"
  shows "entry_map (filter (\<lambda>x. de_ptr x \<noteq> de_ptr de) ds) = (entry_map ds)(de_name de := None)"
  using assms
proof (induction ds)
  case (Cons x ds)
  show ?case
  proof (cases "x = de")
    case True
    then have f: "filter (\<lambda>y. de_ptr y \<noteq> de_ptr de) ds = ds"
      by (intro filter_True) (use Cons.prems(1) True in \<open>auto simp: image_iff dest: sym\<close>)
    have "de_name de \<notin> dom (entry_map ds)" using Cons.prems(2) True by (simp add: dom_entry_map)
    then have "(entry_map ds)(de_name de := None) = entry_map ds" by (simp add: domIff fun_upd_idem)
    then show ?thesis using True f by (simp add: entry_map_Cons del: fun_upd_apply)
  next
    case False
    then have de: "de \<in> set ds" using Cons.prems(3) by simp
    then have ne: "de_ptr x \<noteq> de_ptr de" "de_name x \<noteq> de_name de" using Cons.prems(1,2) by force+
    have "entry_map (filter (\<lambda>x. de_ptr x \<noteq> de_ptr de) ds) = (entry_map ds)(de_name de := None)"
      by (rule Cons.IH) (use Cons.prems(1,2) de in auto)
    then show ?thesis using ne by (simp add: entry_map_Cons fun_upd_twist del: fun_upd_apply)
  qed
qed simp

lemma delete_frame:
  assumes inv: "fs_inv X Y fs" and del: "inode_dirent_delete_no_decref i (de_ptr de) fs = Some fs'"
    and n: "inodes fs i = Some n" and u: "i_u n = FT_DIR ds sz" and de: "de \<in> set ds"
  shows "preserves fs fs'" and "dmap fs' = (dmap fs)(i := (dmap fs i)(de_name de := None))"
    and "inodes fs' = (inodes fs)(i \<mapsto> n\<lparr>i_u := FT_DIR (filter (\<lambda>x. de_ptr x \<noteq> de_ptr de) ds) (sz - dirent_size (de_name de))\<rparr>)"
proof -
  have ok: "dir_ok fs ds sz" using fs_invD(3) [OF inv n] u by (simp add: body_ok_def)
  then have f: "find (\<lambda>x. de_ptr x = de_ptr de) ds = Some de" using find_by_ptr de by (auto simp: dir_ok_def)
  show "preserves fs fs'" using del n u f by (auto simp: inode_dirent_delete_no_decref_def Let_def preserves_def split: if_splits)
  show e: "inodes fs' = (inodes fs)(i \<mapsto> n\<lparr>i_u := FT_DIR (filter (\<lambda>x. de_ptr x \<noteq> de_ptr de) ds) (sz - dirent_size (de_name de))\<rparr>)"
    using del n u f by (auto simp: inode_dirent_delete_no_decref_def Let_def split: if_splits)
  show "dmap fs' = (dmap fs)(i := (dmap fs i)(de_name de := None))"
    using n u entry_map_filter [of ds de] ok de by (auto simp: dmap_def dents_def e fun_eq_iff dir_entries_def dir_ok_def)
qed

lemma decref_dents:
  assumes inv: "fs_inv X Y fs" and d: "inode_decref E i fs = Some fs'"
  shows "dents fs' = dents fs"
proof -
  obtain n where n: "inodes fs i = Some n" using d by (cases "inodes fs i") (auto simp: inode_decref_def)
  let ?n = "n\<lparr>refcount := refcount n - 1\<rparr>"
  show ?thesis
  proof (cases "refcount n - 1 \<le> 0 \<and> open_count n \<le> 0")
    case True
    then have 1: "inode_free E i (fs\<lparr>inodes := (inodes fs)(i \<mapsto> ?n)\<rparr>) = Some fs'"
      using d n by (simp add: inode_decref_def mod_inode_def split: if_splits)
    note r = free_result [OF inv n _ 1, simplified]
    show ?thesis by (rule dents_removed [OF n r(2)]) (simp add: r(1))
  next
    case False
    then have 2: "fs' = fs\<lparr>inodes := (inodes fs)(i \<mapsto> ?n)\<rparr>"
      using d n by (auto simp: inode_decref_def mod_inode_def split: if_splits)
    show ?thesis by (rule dents_same_body [OF n, of _ ?n]) (simp_all add: 2 dir_entries_def)
  qed
qed

lemmas decref_dmap = decref_dents [THEN dmap_cong]

lemma dec_open_dents:
  assumes inv: "fs_inv X Y fs" and d: "inode_dec_open E i fs = Some fs'"
  shows "dents fs' = dents fs"
proof -
  obtain n where n: "inodes fs i = Some n" using d by (cases "inodes fs i") (auto simp: inode_dec_open_def)
  let ?n = "n\<lparr>open_count := open_count n - 1\<rparr>"
  show ?thesis
  proof (cases "open_count n - 1 \<le> 0 \<and> refcount n \<le> 0")
    case True
    then have 1: "inode_free E i (fs\<lparr>inodes := (inodes fs)(i \<mapsto> ?n)\<rparr>) = Some fs'"
      using d n by (simp add: inode_dec_open_def mod_inode_def split: if_splits)
    note r = free_result [OF inv n _ 1, simplified]
    show ?thesis by (rule dents_removed [OF n r(2)]) (simp add: r(1))
  next
    case False
    then have 2: "fs' = fs\<lparr>inodes := (inodes fs)(i \<mapsto> ?n)\<rparr>"
      using d n by (auto simp: inode_dec_open_def mod_inode_def split: if_splits)
    show ?thesis by (rule dents_same_body [OF n, of _ ?n]) (simp_all add: 2 dir_entries_def)
  qed
qed

lemmas dec_open_dmap = dec_open_dents [THEN dmap_cong]

section \<open>Operations on files\<close>

lemma fs_wfI:
  "fs_inv X Y fs' \<Longrightarrow> root_inode fs' = root_inode fs \<Longrightarrow> (\<And>j. X j = root_ref fs j) \<Longrightarrow> (\<And>j. Y j = 0) \<Longrightarrow> fs_wf fs'"
  by (subgoal_tac "X = root_ref fs' \<and> Y = (\<lambda>_. 0)") (auto simp: fs_wf_def root_ref_def)

lemma fs_wfD: "fs_wf fs \<Longrightarrow> fs_inv (root_ref fs) (\<lambda>_. 0) fs"
  by (simp add: fs_wf_def)

lemma preserves_root: "preserves fs fs' \<Longrightarrow> root_inode fs' = root_inode fs"
  by (simp add: preserves_def)

lemma inv_next_ptr:
  assumes inv: "fs_inv X Y fs" and p: "next_ptr fs \<le> p"
  shows "fs_inv X Y (fs\<lparr>next_ptr := p\<rparr>)"
proof -
  have "body_ok (fs\<lparr>next_ptr := p\<rparr>) (i_u n)" if "inodes fs i = Some n" for i n
    by (rule body_ok_mono [OF fs_invD(3) [OF inv that]]) (use p in auto)
  moreover have "counts_ok X Y (fs\<lparr>next_ptr := p\<rparr>) i n" if "inodes fs i = Some n" for i n
    using fs_invD(2) [OF inv that] p by (auto simp: counts_ok_def links_def opens_def)
  moreover have "lists_ok (fs\<lparr>next_ptr := p\<rparr>)" using fs_invD(1) [OF inv] by (simp add: lists_ok_def)
  moreover have "f < p \<and> inodes fs (f_inode ff) \<noteq> None \<and> \<not> f_req ff" if "files fs f = Some ff" for f ff
    using fs_invD(4) [OF inv that] p by auto
  ultimately show ?thesis using fs_invD(5-8) [OF inv] by (simp add: fs_inv_def)
qed

lemma fid_create_ok:
  assumes wf: "fs_wf fs" and c: "fid_create i uid fs = Some (f, fs')"
  shows "fs_wf fs'" and "dmap fs' = dmap fs" and "root_inode fs' = root_inode fs" and "files fs f = None"
    and "files fs' = (files fs)(f \<mapsto> \<lparr>f_uid = uid, f_inode = i, is_opened = False, open_flags = 0, f_req = False\<rparr>)"
proof -
  let ?ff = "\<lparr>f_uid = uid, f_inode = i, is_opened = False, open_flags = 0, f_req = False\<rparr>"
  obtain fs1 where o: "inode_inc_open i fs = Some fs1" and f: "f = next_ptr fs1"
    and e: "fs' = fs1\<lparr>next_ptr := f + 1\<rparr>\<lparr>files := (files fs1)(f \<mapsto> ?ff)\<rparr>"
    using c by (auto simp: fid_create_def bind_Some_conv Let_def)
  note k = inc_open_frame [OF o]
  have inv1: "fs_inv (root_ref fs) ((\<lambda>_. 0)(i := 1)) fs1" using inv_inc_open [OF fs_wfD [OF wf] o] by simp
  then have inv2: "fs_inv (root_ref fs) ((\<lambda>_. 0)(i := 1)) (fs1\<lparr>next_ptr := f + 1\<rparr>)" by (rule inv_next_ptr) (simp add: f)
  have none: "files fs1 f = None" using fs_invD(4) [OF inv1, of f] by (cases "files fs1 f") (auto simp: f)
  have "fs_inv (root_ref fs) (((\<lambda>_. 0)(i := 1))(f_inode ?ff := ((\<lambda>_. 0)(i := 1)) (f_inode ?ff) - 1)) fs'"
    using inv_file_new [OF inv2, of f ?ff] none by (simp add: e f)
  then show "fs_wf fs'" by (rule fs_wfI [where fs = fs]) (use preserves_root [OF k(1)] in \<open>auto simp: e\<close>)
  show "dmap fs' = dmap fs" using k(2) by (simp add: e dmap_def dents_def fun_eq_iff)
  show "root_inode fs' = root_inode fs" using preserves_root [OF k(1)] by (simp add: e)
  show "files fs f = None" using none k(1) by (simp add: preserves_def)
  show "files fs' = (files fs)(f \<mapsto> ?ff)" using k(1) by (simp add: e preserves_def)
qed

lemma attach_ok:
  "fs_wf fs \<Longrightarrow> fs_attach uid fs = Some (f, q, fs') \<Longrightarrow> fs_wf fs' \<and> dmap fs' = dmap fs"
  using fid_create_ok [of fs "root_inode fs" uid f fs'] by (auto simp: fs_attach_def bind_Some_conv)

lemma walk_ok:
  "fs_wf fs \<Longrightarrow> fs_walk f names fs = Some (r, f', qs, fs') \<Longrightarrow> fs_wf fs' \<and> dmap fs' = dmap fs"
  using fid_create_ok by (fastforce simp: fs_walk_def bind_Some_conv)

lemma close_ok:
  assumes wf: "fs_wf fs" and c: "fs_close E f fs = Some fs'"
  shows "fs_wf fs'" and "\<exists>ff. files fs f = Some ff \<and> fs' = fs\<lparr>files := (files fs)(f \<mapsto> ff\<lparr>is_opened := False\<rparr>)\<rparr>"
proof -
  obtain ff where f: "files fs f = Some ff" using c by (auto simp: fs_close_def bind_Some_conv)
  have "\<not> f_req ff" using fs_invD(4) [OF fs_wfD [OF wf] f] by blast
  then have e: "fs' = fs\<lparr>files := (files fs)(f \<mapsto> ff\<lparr>is_opened := False\<rparr>)\<rparr>" using c f by (simp add: fs_close_def)
  then show "\<exists>ff. files fs f = Some ff \<and> fs' = fs\<lparr>files := (files fs)(f \<mapsto> ff\<lparr>is_opened := False\<rparr>)\<rparr>" using f by blast
  have "fs_inv (root_ref fs) (\<lambda>_. 0) fs'" unfolding e by (rule inv_file_same [OF fs_wfD [OF wf] f]) simp_all
  then show "fs_wf fs'" by (rule fs_wfI [where fs = fs]) (simp_all add: e)
qed

lemma file_update_ok:
  assumes wf: "fs_wf fs" and f: "files fs f = Some ff" and s: "f_inode ff' = f_inode ff" "f_req ff' = f_req ff"
  shows "fs_wf (fs\<lparr>files := (files fs)(f \<mapsto> ff')\<rparr>)"
  by (rule fs_wfI [OF inv_file_same [OF fs_wfD [OF wf] f s], where fs = fs]) simp_all

text \<open>The files play no part in the release of a reference.\<close>

lemma dec_open_files:
  assumes inv: "fs_inv X Y fs" and d: "inode_dec_open E i fs = Some fs'"
  shows "inode_dec_open E i (fs\<lparr>files := F\<rparr>) = Some (fs'\<lparr>files := F\<rparr>)"
proof -
  obtain n where n: "inodes fs i = Some n" using d by (cases "inodes fs i") (auto simp: inode_dec_open_def)
  have b: "body_ok fs (i_u n)" using fs_invD(3) [OF inv n] .
  let ?M = "(inodes fs)(i \<mapsto> n\<lparr>open_count := open_count n - 1\<rparr>)"
  have free: "inode_free E i (fs\<lparr>files := F, inodes := ?M\<rparr>)
      = map_option (\<lambda>fs. fs\<lparr>files := F\<rparr>) (inode_free E i (fs\<lparr>inodes := ?M\<rparr>))"
    using b by (cases fs rule: fsmem.cases_scheme; cases "i_u n")
      (auto simp: inode_free_def inode_release_def body_ok_def Let_def to_blocks_def)
  have "fs\<lparr>files := F, inodes := ?M\<rparr> = fs\<lparr>inodes := ?M, files := F\<rparr>" by (cases fs rule: fsmem.cases_scheme) simp
  then show ?thesis
    using d n free by (cases "open_count n - 1 \<le> 0 \<and> refcount n \<le> 0")
      (auto simp: inode_dec_open_def mod_inode_def split: if_splits)
qed

text \<open>A file gives up its reference: the file is freed or moved to another inode afterwards.\<close>

lemma dec_open_detached:
  assumes inv: "fs_inv X Y fs" and f: "files fs f = Some ff" and o: "inode_dec_open E (f_inode ff) fs = Some fs'"
  shows "fs_inv X Y (fs'\<lparr>files := (files fs)(f := None)\<rparr>)" and "preserves fs fs'" and "dents fs' = dents fs"
proof -
  let ?F = "(files fs)(f := None)" and ?i = "f_inode ff"
  have o': "inode_dec_open E ?i (fs\<lparr>files := ?F\<rparr>) = Some (fs'\<lparr>files := ?F\<rparr>)" by (rule dec_open_files [OF inv o])
  have "fs_inv X (Y(?i := Y ?i + 1, ?i := (Y(?i := Y ?i + 1)) ?i - 1)) (fs'\<lparr>files := ?F\<rparr>)
      \<and> preserves (fs\<lparr>files := ?F\<rparr>) (fs'\<lparr>files := ?F\<rparr>)"
    by (rule inv_dec_open [OF inv_file_free [OF inv f] _ o']) (use fs_invD(6) [OF inv, of ?i] in auto)
  then have r: "fs_inv X Y (fs'\<lparr>files := ?F\<rparr>)" "preserves (fs\<lparr>files := ?F\<rparr>) (fs'\<lparr>files := ?F\<rparr>)" by simp_all
  have same: "fs' = fs'\<lparr>files := files fs\<rparr>" using dec_open_files [OF inv o, of "files fs"] o by simp
  have "files fs' = files fs" by (rule trans [OF arg_cong [OF same, of files]]) simp
  then show "preserves fs fs'" using r(2) by (simp add: preserves_def)
  show "fs_inv X Y (fs'\<lparr>files := ?F\<rparr>)" by (rule r(1))
  show "dents fs' = dents fs" by (rule dec_open_dents [OF inv o])
qed

lemma delete_ok:
  assumes wf: "fs_wf fs" and d: "fs_delete E f fs = Some fs'"
  shows "fs_wf fs'" and "dmap fs' = dmap fs" and "dom (files fs') = dom (files fs) - {f}"
proof -
  obtain fs1 ff fs2 where c: "fs_close E f fs = Some fs1" and f: "files fs1 f = Some ff"
    and o: "inode_dec_open E (f_inode ff) fs1 = Some fs2" and e: "fs' = fs2\<lparr>files := (files fs2)(f := None)\<rparr>"
    using d by (auto simp: fs_delete_def bind_Some_conv)
  note c' = close_ok [OF wf c]
  note r = dec_open_detached [OF fs_wfD [OF c'(1)] f o]
  have "fs_inv (root_ref fs1) (\<lambda>_. 0) fs' \<and> root_inode fs' = root_inode fs1"
    using r(1,2) by (simp add: e preserves_def)
  then show "fs_wf fs'" by (auto intro: fs_wfI [where fs = fs1])
  show "dmap fs' = dmap fs" using dmap_cong [OF r(3)] c'(2) by (auto simp: e)
  show "dom (files fs') = dom (files fs) - {f}" using r(2) c'(2) by (auto simp: e preserves_def)
qed

end
