(* ===== verification/Fs_Mem_Data.thy ===== *)
theory Fs_Mem_Data
  imports Fs_Mem_Ops
begin

text \<open>
  The contents of the regular files of the file system in memory: \<open>fs_truncate\<close>, \<open>fs_read\<close> and \<open>fs_write\<close>.
\<close>

section \<open>Truncation\<close>

lemma unat_up32: "unat (ucast (a :: u32) :: u64) = unat a"
  by transfer simp

lemma blocks_bound: "lists_ok fs \<Longrightarrow> x \<le> 0xffffffff \<Longrightarrow> 0 \<le> to_blocks fs x \<and> to_blocks fs x \<le> 0x100000"
proof -
  assume l: "lists_ok fs" and x: "x \<le> 0xffffffff"
  have "unat x \<le> 0xffffffff" using x by (simp add: word_le_nat_alt)
  then have "unat (x + 0xfff) = unat x + 0xfff" by (simp add: unat_word_ariths)
  then have "unat (drop_bit 12 (x + 0xfff)) \<le> 0x100000"
    using \<open>unat x \<le> 0xffffffff\<close> unat_drop_bit [of 12 "x + 0xfff"] by simp
  then have "uint (drop_bit 12 (x + 0xfff)) \<le> 0x100000" by (simp only: uint_nat)
  then show ?thesis using l by (simp add: to_blocks_eq)
qed

lemma sint_word32_id: "- 0x80000000 \<le> z \<Longrightarrow> z < 0x80000000 \<Longrightarrow> sint (word_of_int z :: u32) = z"
  by (simp add: sint_sbintrunc' signed_take_bit_int_eq_self)

lemma truncate_result:
  assumes inv: "fs_inv X Y fs" and t: "fs_truncate E i sz fs = Some (ret, fs')"
  shows "(fs' = fs \<and> (ret = 0 \<longrightarrow> (\<exists>n r. inodes fs i = Some n \<and> i_u n = FT_REG r \<and> sz = ucast (rg_size r))))
    \<or> ret = 0 \<and> (\<exists>n r data. inodes fs i = Some n \<and> i_u n = FT_REG r \<and> sz \<le> 0xffffffff
      \<and> fs' = fs\<lparr>fs_blocks := fs_blocks fs + (to_blocks fs sz - nblocks n),
                inodes := (inodes fs)(i \<mapsto> n\<lparr>i_u := FT_REG (r\<lparr>fbuf := data, rg_size := ucast sz\<rparr>)\<rparr>)\<rparr>)"
proof -
  note l = fs_invD(1) [OF inv]
  obtain n where n: "inodes fs i = Some n" using t by (cases "inodes fs i") (auto simp: fs_truncate_def)
  show ?thesis
  proof (cases "\<exists>r. i_u n = FT_REG r")
    case False
    then show ?thesis using t n by (cases "i_u n") (auto simp: fs_truncate_def P9_EINVAL_def)
  next
    case True
    then obtain r where u: "i_u n = FT_REG r" by blast
    have loc: "rg_state r = REG_STATE_LOCAL" using fs_invD(3) [OF inv n] u by (simp add: body_ok_def)
    show ?thesis
    proof (cases "\<not> sz \<le> 0xffffffff \<or> (ucast sz :: u32) = rg_size r")
      case True
      have "sz = ucast (rg_size r)" if "sz \<le> 0xffffffff" "(ucast sz :: u32) = rg_size r"
      proof -
        have "unat sz < 2 ^ 32" using that(1) by (simp add: word_le_nat_alt not_less)
        then have "ucast (ucast sz :: u32) = sz" by (simp add: word_unat_eq_iff unsigned_ucast_eq unsigned_take_bit_eq take_bit_nat_eq_self)
        then show ?thesis using that(2) by simp
      qed
      then show ?thesis using t n u True by (auto simp: fs_truncate_def Let_def P9_ENOSPC_def split: if_splits)
    next
      case False
      let ?b = "to_blocks fs sz - nblocks n"
      have nb: "nblocks n = to_blocks fs (ucast (rg_size r))" by (rule nblocks_reg [OF u l])
      have "ucast (rg_size r) \<le> (0xffffffff :: u64)"
        using unsigned_less [of "rg_size r", where 'a = nat] by (simp add: word_le_nat_alt unat_up32)
      then have b: "sint (word_of_int (to_blocks fs sz) - word_of_int (to_blocks fs (ucast (rg_size r))) :: u32) = ?b"
        unfolding nb of_int_diff [symmetric] using blocks_bound [OF l, of sz] blocks_bound [OF l, of "ucast (rg_size r)"] False nb
        by (intro sint_word32_id) (auto simp: not_less)
      have ne: "sint (ucast sz - rg_size r) \<noteq> 0" using False signed_word_eqI [of "ucast sz - rg_size r" 0] by auto
      have "ret \<noteq> 0 \<and> fs' = fs \<or> ret = 0 \<and> (\<exists>data. fs' = fs\<lparr>fs_blocks := fs_blocks fs + ?b,
          inodes := (inodes fs)(i \<mapsto> n\<lparr>i_u := FT_REG (r\<lparr>fbuf := data, rg_size := ucast sz\<rparr>)\<rparr>)\<rparr>)"
        using t False ne unfolding fs_truncate_def Let_def
        by (auto simp: n u b nb loc P9_ENOSPC_def bind_Some_conv split: if_splits option.splits)
          (rule exI [of _ "fbuf r"], simp)
      then show ?thesis using n u False by auto
    qed
  qed
qed

text \<open>A change of the contents of a regular file.\<close>

lemma inv_contents:
  assumes inv: "fs_inv X Y fs" and n: "inodes fs i = Some n" and u: "i_u n = FT_REG r"
    and r': "rg_state r' = REG_STATE_LOCAL" "\<not> is_fscmd r'"
  shows "fs_inv X Y (fs\<lparr>fs_blocks := fs_blocks fs + (to_blocks fs (ucast (rg_size r')) - nblocks n),
    inodes := (inodes fs)(i \<mapsto> n\<lparr>i_u := FT_REG r'\<rparr>)\<rparr>)"
proof -
  let ?n = "n\<lparr>i_u := FT_REG r'\<rparr>"
  have "fs_inv X Y (fs\<lparr>fs_blocks := fs_blocks fs + (nblocks ?n - nblocks n), inodes := (inodes fs)(i \<mapsto> ?n),
      next_ptr := next_ptr fs\<rparr>)"
  proof (rule inv_upd_node [OF inv n, where dr = 0 and od = 0])
    show "body_ok (fs\<lparr>next_ptr := next_ptr fs\<rparr>) (i_u ?n)" using r' by (simp add: body_ok_def)
    show "X j + entry_count j ?n = X j + entry_count j n + of_bool (j = i) * 0" for j
      using u by (simp add: entry_count_def dir_entries_def)
    show "0 < refcount ?n \<or> 0 < open_count ?n" using fs_invD(2) [OF inv n] by (auto simp: counts_ok_def)
  qed (use fs_invD(5-7) [OF inv] in auto)
  then show ?thesis using nblocks_reg [of ?n r' fs] fs_invD(1) [OF inv] by simp
qed

lemma dmap_contents:
  assumes "inodes fs i = Some n" and "i_u n = FT_REG r" and "inodes fs' = (inodes fs)(i \<mapsto> n\<lparr>i_u := FT_REG r'\<rparr>)"
  shows "dmap fs' = dmap fs"
  by (rule dmap_same_body [OF assms(1,3)]) (simp add: dir_entries_def assms(2))

lemma reg_local: "fs_inv X Y fs \<Longrightarrow> inodes fs i = Some n \<Longrightarrow> i_u n = FT_REG r \<Longrightarrow> rg_state r = REG_STATE_LOCAL \<and> \<not> is_fscmd r"
  using fs_invD(3) [of X Y fs i n] by (simp add: body_ok_def)

lemma truncate_ok:
  assumes inv: "fs_inv X Y fs" and t: "fs_truncate E i sz fs = Some (ret, fs')"
  shows "fs_inv X Y fs' \<and> preserves fs fs' \<and> dmap fs' = dmap fs"
  using truncate_result [OF inv t]
proof (elim disjE conjE exE)
  fix n r data
  assume n: "inodes fs i = Some n" and u: "i_u n = FT_REG r" and sz: "sz \<le> 0xffffffff"
    and e: "fs' = fs\<lparr>fs_blocks := fs_blocks fs + (to_blocks fs sz - nblocks n),
      inodes := (inodes fs)(i \<mapsto> n\<lparr>i_u := FT_REG (r\<lparr>fbuf := data, rg_size := ucast sz\<rparr>)\<rparr>)\<rparr>"
  have "unat sz < 2 ^ 32" using sz by (simp add: word_le_nat_alt)
  then have "ucast (ucast sz :: u32) = sz"
    by (simp add: word_unat_eq_iff unsigned_ucast_eq unsigned_take_bit_eq take_bit_nat_eq_self)
  then have "fs_inv X Y fs'"
    using inv_contents [OF inv n u, of "r\<lparr>fbuf := data, rg_size := ucast sz\<rparr>"] reg_local [OF inv n u] by (simp add: e)
  moreover have "dmap fs' = dmap fs" by (rule dmap_contents [OF n u]) (simp add: e)
  ultimately show ?thesis by (simp add: e preserves_def)
qed (use inv in auto)

lemma update_mtime_ok:
  assumes "fs_inv X Y fs" and "inode_update_mtime i fs = Some fs'"
  shows "fs_inv X Y fs' \<and> preserves fs fs' \<and> dmap fs' = dmap fs"
  using inv_update_mtime [OF assms] mod_inode_frame [OF assms(2) [unfolded inode_update_mtime_def]] by simp

lemma write_ok:
  assumes inv: "fs_inv X Y fs" and w: "fs_write E f offset buf count fs = Some (ret, fs')"
  shows "fs_inv X Y fs' \<and> preserves fs fs' \<and> dmap fs' = dmap fs"
proof -
  obtain ff n where f: "files fs f = Some ff" and n: "inodes fs (f_inode ff) = Some n"
    using w by (auto simp: fs_write_def Let_def bind_Some_conv)
  show ?thesis
  proof (cases "\<exists>r. i_u n = FT_REG r \<and> is_opened ff \<and> open_flags ff AND P9_O_NOACCESS \<noteq> P9_O_RDONLY \<and> count \<noteq> 0")
    case False
    then show ?thesis using w f n inv by (cases "i_u n") (auto simp: fs_write_def Let_def split: if_splits)
  next
    case True
    then obtain r where r: "i_u n = FT_REG r" "is_opened ff" "open_flags ff AND P9_O_NOACCESS \<noteq> P9_O_RDONLY" "count \<noteq> 0"
      by blast
    let ?endp = "offset + word_of_int count"
    obtain err fs1 where t: "(if ?endp > ucast (rg_size r) then fs_truncate E (f_inode ff) ?endp fs else Some (0, fs)) = Some (err, fs1)"
      using w f n r reg_local [OF inv n r(1)] by (auto simp: fs_write_def Let_def bind_Some_conv)
    have k1: "fs_inv X Y fs1 \<and> preserves fs fs1 \<and> dmap fs1 = dmap fs"
      using t truncate_ok [OF inv, of E "f_inode ff" ?endp err fs1] inv by (auto split: if_splits)
    show ?thesis
    proof (cases "err = 0")
      case False
      then show ?thesis using w f n r reg_local [OF inv n r(1)] t k1 by (simp add: fs_write_def)
    next
      case True
      obtain fs2 n2 where m: "inode_update_mtime (f_inode ff) fs1 = Some fs2" and n2: "inodes fs2 (f_inode ff) = Some n2"
        using w f n r reg_local [OF inv n r(1)] t True by (auto simp: fs_write_def Let_def bind_Some_conv)
      note k2 = update_mtime_ok [OF conjunct1 [OF k1] m]
      have inv2: "fs_inv X Y fs2" using k2 by blast
      obtain r2 where r2: "i_u n2 = FT_REG r2"
        using w f n r reg_local [OF inv n r(1)] t True m n2 by (cases "i_u n2") (auto simp: fs_write_def Let_def)
      note l2 = reg_local [OF inv2 n2 r2]
      obtain data where e: "fs' = fs2\<lparr>inodes := (inodes fs2)(f_inode ff \<mapsto> n2\<lparr>i_u := FT_REG (r2\<lparr>fbuf := data\<rparr>)\<rparr>)\<rparr>"
        using w f n r reg_local [OF inv n r(1)] t True m n2 r2 l2 by (auto simp: fs_write_def Let_def bind_Some_conv)
      have "fs_inv X Y fs'"
        using inv_contents [OF inv2 n2 r2, of "r2\<lparr>fbuf := data\<rparr>"] l2 nblocks_reg [OF r2 fs_invD(1) [OF inv2]] by (simp add: e)
      moreover have "dmap fs' = dmap fs2" by (rule dmap_contents [OF n2 r2]) (simp add: e)
      moreover have "preserves fs2 fs'" by (simp add: e preserves_def)
      ultimately show ?thesis using k1 k2 preserves_trans by metis
    qed
  qed
qed

lemma read_state:
  assumes inv: "fs_inv X Y fs" and r: "fs_read E f offset count fs = Some (ret, data, fs')"
  shows "fs' = fs"
proof -
  obtain ff n where f: "files fs f = Some ff" and n: "inodes fs (f_inode ff) = Some n"
    using r by (auto simp: fs_read_def bind_Some_conv)
  show ?thesis using r f n reg_local [OF inv n]
    by (cases "i_u n") (auto simp: fs_read_def Let_def bind_Some_conv split: if_splits)
qed

lemma open_ok:
  assumes wf: "fs_wf fs" and o: "fs_open E f flags fs = Some (ret, q, fs')"
  shows "fs_wf fs' \<and> dmap fs' = dmap fs \<and> dom (files fs') = dom (files fs)"
proof -
  obtain fs1 where c: "fs_close E f fs = Some fs1" using o by (auto simp: fs_open_def Let_def bind_Some_conv)
  obtain ff where f: "files fs f = Some ff" and e1: "fs1 = fs\<lparr>files := (files fs)(f \<mapsto> ff\<lparr>is_opened := False\<rparr>)\<rparr>"
    using close_ok(2) [OF wf c] by blast
  have wf1: "fs_wf fs1" by (rule close_ok(1) [OF wf c])
  let ?ff = "ff\<lparr>is_opened := False\<rparr>" and ?i = "f_inode ff"
  have f1: "files fs1 f = Some ?ff" by (simp add: e1)
  obtain n where n: "inodes fs1 ?i = Some n" using o c f1 by (auto simp: fs_open_def Let_def bind_Some_conv)
  have d1: "dmap fs1 = dmap fs" by (simp add: e1)
  let ?fs2 = "fs1\<lparr>files := (files fs1)(f \<mapsto> ?ff\<lparr>open_flags := flags\<rparr>)\<rparr>"
  have wf2: "fs_wf ?fs2" by (rule file_update_ok [OF wf1 f1]) simp_all
  have dom: "dom (files fs1) = dom (files fs)" "dom (files ?fs2) = dom (files fs)" using f by (auto simp: e1)
  have fin: "fs_wf s' \<and> dmap s' = dmap s \<and> dom (files s') = dom (files s)"
    if s1: "fs_wf s" and s2: "(do { ff \<leftarrow> files s f; let fs = s\<lparr>files := (files s)(f \<mapsto> ff\<lparr>is_opened := True\<rparr>)\<rparr>;
        q \<leftarrow> qid_of ?i fs; Some (0, Some q, fs) }) = Some (ret, q, s')" for s s' :: "'a fsmem_scheme"
  proof -
    obtain g where g: "files s f = Some g" and s': "s' = s\<lparr>files := (files s)(f \<mapsto> g\<lparr>is_opened := True\<rparr>)\<rparr>"
      using s2 by (auto simp: Let_def bind_Some_conv)
    show ?thesis unfolding s' using file_update_ok [OF s1 g, of "g\<lparr>is_opened := True\<rparr>"] g by auto
  qed
  show ?thesis
  proof (cases "fs' = fs1")
    case True
    then show ?thesis using wf1 d1 dom by simp
  next
    case False
    show ?thesis
    proof (cases "is_dir n")
      case True
      then show ?thesis
        using fin [OF wf2, of fs'] o c f1 n False d1 dom by (auto simp: fs_open_def Let_def bind_Some_conv split: if_splits)
    next
      case nd: False
      obtain fs3 where t: "(if flags AND P9_O_TRUNC \<noteq> 0 \<and> flags AND P9_O_NOACCESS \<noteq> P9_O_RDONLY
          then map_option snd (fs_truncate E ?i 0 ?fs2) else Some ?fs2) = Some fs3"
        using o c f1 n False nd by (auto simp: fs_open_def Let_def bind_Some_conv split: if_splits)
      have k3: "fs_inv (root_ref ?fs2) (\<lambda>_. 0) fs3 \<and> preserves ?fs2 fs3 \<and> dmap fs3 = dmap ?fs2"
        using t truncate_ok [OF fs_wfD [OF wf2]] fs_wfD [OF wf2] by (auto split: if_splits)
      then have wf3: "fs_wf fs3" by (intro fs_wfI [where fs = ?fs2]) (auto simp: preserves_def)
      obtain n3 where n3i: "inodes fs3 ?i = Some n3"
        using o c f1 n False nd t by (auto simp: fs_open_def Let_def bind_Some_conv split: if_splits)
      obtain r3 where n3u: "i_u n3 = FT_REG r3"
        using o c f1 n False nd t n3i
        by (cases "i_u n3") (auto simp: fs_open_def Let_def bind_Some_conv split: if_splits)
      note n3 = n3i n3u
      have "(do { ff \<leftarrow> files fs3 f; let fs = fs3\<lparr>files := (files fs3)(f \<mapsto> ff\<lparr>is_opened := True\<rparr>)\<rparr>;
          q \<leftarrow> qid_of ?i fs; Some (0, Some q, fs) }) = Some (ret, q, fs')"
        using o c f1 n False nd t n3 reg_local [OF fs_wfD [OF wf3] n3]
        by (auto simp: fs_open_def Let_def bind_Some_conv split: if_splits)
      then show ?thesis using fin [OF wf3] k3 d1 dom by (simp add: preserves_def)
    qed
  qed
qed

lemma mod_inode_ok:
  assumes "fs_inv X Y fs" and "mod_inode i f fs = Some fs'"
    and "\<And>n. i_u (f n) = i_u n \<and> refcount (f n) = refcount n \<and> open_count (f n) = open_count n"
  shows "fs_inv X Y fs' \<and> preserves fs fs' \<and> dmap fs' = dmap fs"
  using inv_mod_inode [OF assms] mod_inode_frame [OF assms(2)] assms(3) by simp

lemma setattr_ok:
  assumes inv: "fs_inv X Y fs"
    and s: "fs_setattr E f msk mode uid gid sz atime_s atime_ns mtime_s mtime_ns fs = Some (ret, fs')"
  shows "fs_inv X Y fs' \<and> preserves fs fs' \<and> dmap fs' = dmap fs"
proof -
  obtain ff fs1 where f: "files fs f = Some ff"
    and m: "mod_inode (f_inode ff) (\<lambda>n. n\<lparr>i_mode := if msk AND P9_SETATTR_MODE \<noteq> 0 then mode else i_mode n,
                 i_uid := if msk AND P9_SETATTR_UID \<noteq> 0 then uid else i_uid n,
                 i_gid := if msk AND P9_SETATTR_GID \<noteq> 0 then gid else i_gid n\<rparr>) fs = Some fs1"
    using s by (auto simp: fs_setattr_def Let_def bind_Some_conv)
  have k1: "fs_inv X Y fs1 \<and> preserves fs fs1 \<and> dmap fs1 = dmap fs" by (rule mod_inode_ok [OF inv m]) simp
  obtain fs2 r where t: "(if msk AND P9_SETATTR_SIZE \<noteq> 0 then fs_truncate E (f_inode ff) sz fs1 else Some (0, fs1)) = Some (r, fs2)"
    using s f m by (auto simp: fs_setattr_def Let_def bind_Some_conv)
  have k2: "fs_inv X Y fs2 \<and> preserves fs1 fs2 \<and> dmap fs2 = dmap fs1"
    using t truncate_ok [of X Y fs1 E "f_inode ff" sz r fs2] k1 by (auto split: if_splits)
  show ?thesis
  proof (cases "r = 0")
    case False
    then have "fs' = fs2" using s f m t by (simp add: fs_setattr_def Let_def)
    then show ?thesis using k1 k2 preserves_trans by metis
  next
    case True
    let ?i = "f_inode ff"
    obtain fs3 where t3: "(if msk AND P9_SETATTR_MTIME = 0 then Some fs2
        else if msk AND P9_SETATTR_MTIME_SET \<noteq> 0
        then mod_inode ?i (\<lambda>n. n\<lparr>mtime_sec := ucast mtime_s, mtime_nsec := ucast mtime_ns\<rparr>) fs2
        else inode_update_mtime ?i fs2) = Some fs3"
      and t4: "(if msk AND P9_SETATTR_CTIME \<noteq> 0
        then mod_inode ?i (\<lambda>n. n\<lparr>ctime_sec := fst (tod fs3), ctime_nsec := snd (tod fs3)\<rparr>) fs3 else Some fs3) = Some fs'"
      using s f m t True by (auto simp: fs_setattr_def Let_def bind_Some_conv)
    have k3: "fs_inv X Y fs3 \<and> preserves fs2 fs3 \<and> dmap fs3 = dmap fs2"
    proof -
      have i2: "fs_inv X Y fs2" using k2 by blast
      show ?thesis using t3 i2 update_mtime_ok [OF i2, of ?i fs3]
          mod_inode_ok [OF i2, of ?i "\<lambda>n. n\<lparr>mtime_sec := ucast mtime_s, mtime_nsec := ucast mtime_ns\<rparr>" fs3]
        by (auto split: if_splits)
    qed
    have k4: "fs_inv X Y fs' \<and> preserves fs3 fs' \<and> dmap fs' = dmap fs3"
      using t4 k3 mod_inode_ok [of X Y fs3 ?i "\<lambda>n. n\<lparr>ctime_sec := fst (tod fs3), ctime_nsec := snd (tod fs3)\<rparr>" fs']
      by (auto split: if_splits)
    show ?thesis using k1 k2 k3 k4 preserves_trans by metis
  qed
qed

end
