(* ===== verification/Fs_Mem_Dirs.thy ===== *)
theory Fs_Mem_Dirs
  imports Fs_Mem_Data
begin

text \<open>
  The operations of the file system in memory that change directories: each keeps the invariant and changes the
  map of its directory as its name says.
\<close>

section \<open>New entries\<close>

lemma inv_cong: "fs_inv X Y fs \<Longrightarrow> (\<And>j. X j = X' j) \<Longrightarrow> (\<And>j. Y j = Y' j) \<Longrightarrow> fs_inv X' Y' fs"
  by (subgoal_tac "X = X' \<and> Y = Y'") auto

text \<open>The reference of a new inode goes to the entry that names it.\<close>

lemma new_entry_ok:
  assumes inv: "fs_inv X Y fs" and new: "inode_new u mode uid gid fs = (i1, fs1)"
    and u: "u = FT_DIR [] 0 \<or> u = new_reg \<or> \<not> (\<exists>ds sz. u = FT_DIR ds sz) \<and> \<not> (\<exists>r. u = FT_REG r)"
    and add: "inode_dir_add i name i1 fs1 = Some fs'" and fresh: "dmap fs i name = None"
  shows "fs_inv X Y fs'" and "preserves fs fs'" and "dmap fs' = (dmap fs)(i := (dmap fs i)(name \<mapsto> i1))"
proof -
  have u': "u = FT_DIR ds sz \<Longrightarrow> ds = []" for ds sz using u by (auto simp: new_reg_def)
  note f = new_frame [OF inv new u']
  have inv1: "fs_inv (X(i1 := 1)) Y fs1" and none: "inodes fs i1 = None" using inv_new [OF inv new u] by auto
  have fresh1: "dmap fs1 i name = None" using fresh f(2) by simp
  have "fs_inv ((X(i1 := 1))(i1 := (X(i1 := 1)) i1 - 1)) Y fs'" by (rule inv_add_entry [OF inv1 add _ fresh1]) simp
  then show "fs_inv X Y fs'" by (rule inv_cong) (use fs_invD(7) [OF inv none] in auto)
  show "preserves fs fs'" using f(1) dir_add_frame(1) [OF add fresh1] by (rule preserves_trans)
  show "dmap fs' = (dmap fs)(i := (dmap fs i)(name \<mapsto> i1))" using dir_add_frame(2) [OF add fresh1] f(2) by simp
qed

lemma mkdir_ok:
  assumes wf: "fs_wf fs" and m: "fs_mkdir f name mode gid fs = Some (ret, q, fs')"
  shows "fs_wf fs' \<and> dom (files fs') = dom (files fs) \<and> (ret = 0 \<longrightarrow> (\<exists>ff. files fs f = Some ff \<and> dmap fs (f_inode ff) name = None \<and>
      dmap fs' = (dmap fs)(next_ptr fs := [DOT \<mapsto> next_ptr fs, DOTDOT \<mapsto> f_inode ff],
        f_inode ff := (dmap fs (f_inode ff))(name \<mapsto> next_ptr fs)))) \<and> (ret \<noteq> 0 \<longrightarrow> fs' = fs)"
proof -
  obtain ff n where f: "files fs f = Some ff" and n: "inodes fs (f_inode ff) = Some n"
    using m by (auto simp: fs_mkdir_def Let_def bind_Some_conv)
  let ?i = "f_inode ff" and ?X = "root_ref fs"
  have inv: "fs_inv ?X (\<lambda>_. 0) fs" by (rule fs_wfD [OF wf])
  show ?thesis
  proof (cases "is_dir n \<and> inode_search ?i name fs = Some None")
    case False
    then show ?thesis using m f n wf
      by (auto simp: fs_mkdir_def Let_def bind_Some_conv inode_search_def P9_ENOTDIR_def P9_EEXIST_def split: if_splits)
  next
    case True
    obtain i1 fs1 where new: "inode_new (FT_DIR [] 0) mode (f_uid ff) gid fs = (i1, fs1)" by fastforce
    obtain fs2 fs3 fs4 fs5 where a2: "inode_incref i1 fs1 = Some fs2" and a3: "inode_dir_add i1 DOT i1 fs2 = Some fs3"
      and a4: "inode_incref ?i fs3 = Some fs4" and a5: "inode_dir_add i1 DOTDOT ?i fs4 = Some fs5"
      and a6: "inode_dir_add ?i name i1 fs5 = Some fs'" and ret: "ret = 0"
      using m f n True new by (auto simp: fs_mkdir_def Let_def bind_Some_conv)
    have fresh: "dmap fs ?i name = None" using True search_dmap by fastforce
    have inv1: "fs_inv (?X(i1 := 1)) (\<lambda>_. 0) fs1" and none: "inodes fs i1 = None"
      using inv_new [OF inv new] by auto
    note f1 = new_frame [OF inv new]
    have i1: "i1 = next_ptr fs" and d1: "dmap fs1 = dmap fs" "dmap fs1 i1 = Map.empty" and k1: "preserves fs fs1"
      using f1 by auto
    have ne: "?i \<noteq> i1" using none n by auto
    have X0: "?X i1 = 0" using fs_invD(7) [OF inv none] .
    note f2 = incref_frame [OF a2]
    have inv2: "fs_inv (?X(i1 := 2)) (\<lambda>_. 0) fs2" using inv_incref [OF inv1 a2] by simp
    have e3: "dmap fs2 i1 DOT = None" using f2(2) d1 by simp
    have inv3: "fs_inv (?X(i1 := 1)) (\<lambda>_. 0) fs3" using inv_add_entry [OF inv2 a3 _ e3] by simp
    note f3 = dir_add_frame [OF a3 e3]
    have inv4: "fs_inv (?X(i1 := 1, ?i := ?X ?i + 1)) (\<lambda>_. 0) fs4" using inv_incref [OF inv3 a4] ne by simp
    note f4 = incref_frame [OF a4]
    have e5: "dmap fs4 i1 DOTDOT = None" using f4(2) f3(2) f2(2) d1 by (simp add: DOT_def DOTDOT_def)
    have inv5: "fs_inv (?X(i1 := 1)) (\<lambda>_. 0) fs5"
      by (rule inv_cong [OF inv_add_entry [OF inv4 a5 _ e5]]) (use ne fs_invD(5) [OF inv, of ?i] in auto)
    note f5 = dir_add_frame [OF a5 e5]
    have e6: "dmap fs5 ?i name = None" using f5(2) f4(2) f3(2) f2(2) d1 fresh ne by simp
    have inv6: "fs_inv ?X (\<lambda>_. 0) fs'"
      by (rule inv_cong [OF inv_add_entry [OF inv5 a6 _ e6]]) (use X0 in auto)
    note f6 = dir_add_frame [OF a6 e6]
    have "root_inode fs' = root_inode fs" using k1 f2(1) f3(1) f4(1) f5(1) f6(1) by (simp add: preserves_def)
    then have "fs_wf fs'" by (intro fs_wfI [OF inv6]) auto
    moreover have "dmap fs' = (dmap fs)(i1 := [DOT \<mapsto> i1, DOTDOT \<mapsto> ?i], ?i := (dmap fs ?i)(name \<mapsto> i1))"
      using f6(2) f5(2) f4(2) f3(2) f2(2) d1 ne by (simp add: fun_upd_twist)
    moreover have "files fs' = files fs"
      using k1 f2(1) f3(1) f4(1) f5(1) f6(1) by (simp add: preserves_def)
    ultimately show ?thesis using f fresh ret i1 by auto
  qed
qed

lemma symlink_ok:
  assumes wf: "fs_wf fs" and m: "fs_symlink f name symgt gid fs = Some (ret, q, fs')"
  shows "fs_wf fs' \<and> dom (files fs') = dom (files fs) \<and> (ret = 0 \<longrightarrow> (\<exists>ff. files fs f = Some ff \<and> dmap fs (f_inode ff) name = None \<and>
      dmap fs' = (dmap fs)(f_inode ff := (dmap fs (f_inode ff))(name \<mapsto> next_ptr fs)))) \<and> (ret \<noteq> 0 \<longrightarrow> fs' = fs)"
proof -
  obtain ff de where f: "files fs f = Some ff" and s: "inode_search (f_inode ff) name fs = Some de"
    using m by (auto simp: fs_symlink_def bind_Some_conv)
  show ?thesis
  proof (cases de)
    case (Some d)
    then show ?thesis using m f s wf by (simp add: fs_symlink_def P9_EEXIST_def)
  next
    case None
    obtain i1 fs1 where new: "inode_new (FT_LNK symgt) 0x1ff (f_uid ff) gid fs = (i1, fs1)" by fastforce
    have add: "inode_dir_add (f_inode ff) name i1 fs1 = Some fs'" and ret: "ret = 0"
      using m f s None new by (auto simp: fs_symlink_def bind_Some_conv)
    have fresh: "dmap fs (f_inode ff) name = None" using search_dmap [OF s] None by simp
    note r = new_entry_ok [OF fs_wfD [OF wf] new _ add fresh, simplified]
    have "i1 = next_ptr fs" using new by (simp add: inode_new_def Let_def)
    then show ?thesis using r f fresh ret fs_wfI [OF r(1) preserves_root [OF r(2)]] by (auto simp: preserves_def)
  qed
qed

lemma mknod_ok:
  assumes wf: "fs_wf fs" and m: "fs_mknod f name mode ma mi gid fs = Some (ret, q, fs')"
  shows "fs_wf fs' \<and> dom (files fs') = dom (files fs) \<and> (ret = 0 \<longrightarrow> (\<exists>ff. files fs f = Some ff \<and> dmap fs (f_inode ff) name = None \<and>
      dmap fs' = (dmap fs)(f_inode ff := (dmap fs (f_inode ff))(name \<mapsto> next_ptr fs)))) \<and> (ret \<noteq> 0 \<longrightarrow> fs' = fs)"
proof -
  obtain ff where f: "files fs f = Some ff" using m by (auto simp: fs_mknod_def bind_Some_conv)
  show ?thesis
  proof (cases "mknod_type mode ma mi")
    case None
    then show ?thesis using m f wf by (simp add: fs_mknod_def P9_EINVAL_def)
  next
    case u: (Some u)
    obtain de where s: "inode_search (f_inode ff) name fs = Some de"
      using m f u by (auto simp: fs_mknod_def bind_Some_conv)
    show ?thesis
    proof (cases de)
      case (Some d)
      then show ?thesis using m f u s wf by (simp add: fs_mknod_def P9_EEXIST_def)
    next
      case None
      obtain i1 fs1 where new: "inode_new u mode (f_uid ff) gid fs = (i1, fs1)" by fastforce
      have add: "inode_dir_add (f_inode ff) name i1 fs1 = Some fs'" and ret: "ret = 0"
        using m f u s None new by (auto simp: fs_mknod_def bind_Some_conv)
      have fresh: "dmap fs (f_inode ff) name = None" using search_dmap [OF s] None by simp
      have "u = FT_DIR [] 0 \<or> u = new_reg \<or> \<not> (\<exists>ds sz. u = FT_DIR ds sz) \<and> \<not> (\<exists>r. u = FT_REG r)"
        using u by (auto simp: mknod_type_def Let_def split: if_splits)
      note r = new_entry_ok [OF fs_wfD [OF wf] new this add fresh]
      have "i1 = next_ptr fs" using new by (simp add: inode_new_def Let_def)
      then show ?thesis using r f fresh ret fs_wfI [OF r(1) preserves_root [OF r(2)]] by (auto simp: preserves_def)
    qed
  qed
qed

lemma link_ok:
  assumes wf: "fs_wf fs" and m: "fs_link df f name fs = Some (ret, fs')"
  shows "fs_wf fs' \<and> dom (files fs') = dom (files fs) \<and> (ret = 0 \<longrightarrow> (\<exists>dff ff. files fs df = Some dff \<and> files fs f = Some ff \<and> dmap fs (f_inode dff) name = None \<and>
      dmap fs' = (dmap fs)(f_inode dff := (dmap fs (f_inode dff))(name \<mapsto> f_inode ff)))) \<and> (ret \<noteq> 0 \<longrightarrow> fs' = fs)"
proof -
  obtain dff ff n where df: "files fs df = Some dff" and f: "files fs f = Some ff" and n: "inodes fs (f_inode ff) = Some n"
    using m by (auto simp: fs_link_def bind_Some_conv)
  have inv: "fs_inv (root_ref fs) (\<lambda>_. 0) fs" by (rule fs_wfD [OF wf])
  show ?thesis
  proof (cases "is_dir n \<or> inode_search (f_inode dff) name fs \<noteq> Some None")
    case True
    then show ?thesis using m df f n wf by (auto simp: fs_link_def bind_Some_conv P9_EEXIST_def P9_EPERM_def split: if_splits)
  next
    case False
    obtain fs1 where a1: "inode_incref (f_inode ff) fs = Some fs1" and a2: "inode_dir_add (f_inode dff) name (f_inode ff) fs1 = Some fs'"
      and ret: "ret = 0"
      using m df f n False by (auto simp: fs_link_def bind_Some_conv)
    have fresh: "dmap fs (f_inode dff) name = None" using False search_dmap by fastforce
    note f1 = incref_frame [OF a1]
    have fresh1: "dmap fs1 (f_inode dff) name = None" using fresh f1(2) by simp
    note f2 = dir_add_frame [OF a2 fresh1]
    have inv1: "fs_inv ((root_ref fs)(f_inode ff := root_ref fs (f_inode ff) + 1)) (\<lambda>_. 0) fs1" by (rule inv_incref [OF inv a1])
    have "fs_inv (root_ref fs) (\<lambda>_. 0) fs'"
      by (rule inv_cong [OF inv_add_entry [OF inv1 a2 _ fresh1]]) (use fs_invD(5) [OF inv, of "f_inode ff"] in auto)
    moreover have "preserves fs fs'" using f1(1) f2(1) by (rule preserves_trans)
    ultimately have "fs_wf fs'" by (intro fs_wfI [of "root_ref fs" "\<lambda>_. 0" fs' fs]) (auto simp: preserves_def)
    moreover have "files fs' = files fs" using f1(1) f2(1) by (simp add: preserves_def)
    ultimately show ?thesis using df f fresh ret f2(2) f1(2) by auto
  qed
qed

lemma inc_open_files:
  "inode_inc_open i fs = Some fs' \<Longrightarrow> inode_inc_open i (fs\<lparr>files := F\<rparr>) = Some (fs'\<lparr>files := F\<rparr>)"
  by (cases fs rule: fsmem.cases_scheme) (auto simp: inode_inc_open_def mod_inode_def bind_Some_conv)

lemma create_ok:
  assumes wf: "fs_wf fs" and m: "fs_create E f name flags mode gid fs = Some (ret, q, fs')"
  shows "fs_wf fs' \<and> dom (files fs') = dom (files fs) \<and> (ret = 0 \<longrightarrow> (\<exists>ff. files fs f = Some ff \<and> dmap fs (f_inode ff) name = None \<and>
      dmap fs' = (dmap fs)(f_inode ff := (dmap fs (f_inode ff))(name \<mapsto> next_ptr fs)))) \<and> (ret \<noteq> 0 \<longrightarrow> fs' = fs)"
proof -
  obtain ff n where f: "files fs f = Some ff" and n: "inodes fs (f_inode ff) = Some n"
    using m by (auto simp: fs_create_def Let_def bind_Some_conv)
  let ?i = "f_inode ff"
  show ?thesis
  proof (cases "is_dir n \<and> inode_search ?i name fs = Some None")
    case False
    then show ?thesis using m f n wf
      by (auto simp: fs_create_def Let_def bind_Some_conv inode_search_def P9_ENOTDIR_def P9_EEXIST_def split: if_splits)
  next
    case True
    obtain fs1 where c: "fs_close E f fs = Some fs1" using m f n True by (auto simp: fs_create_def Let_def bind_Some_conv)
    have e1: "fs1 = fs\<lparr>files := (files fs)(f \<mapsto> ff\<lparr>is_opened := False\<rparr>)\<rparr>" using close_ok(2) [OF wf c] f by simp
    have wf1: "fs_wf fs1" by (rule close_ok(1) [OF wf c])
    obtain i1 fs2 where new: "inode_new new_reg mode (f_uid ff) gid fs1 = (i1, fs2)" by fastforce
    let ?ff = "ff\<lparr>is_opened := False\<rparr>"
    let ?g = "ff\<lparr>f_inode := i1, is_opened := True, open_flags := flags\<rparr>"
    obtain fs3 fs4 fs5 where add: "inode_dir_add ?i name i1 fs2 = Some fs3" and o: "inode_dec_open E ?i fs3 = Some fs4"
      and io: "inode_inc_open i1 fs4 = Some fs5" and e: "fs' = fs5\<lparr>files := (files fs5)(f \<mapsto> ?g)\<rparr>" and ret: "ret = 0"
      using m f n True c new by (auto simp: fs_create_def Let_def bind_Some_conv e1)
    have fresh: "dmap fs ?i name = None" using True search_dmap by fastforce
    have fresh1: "dmap fs1 ?i name = None" using fresh by (simp add: e1)
    note r = new_entry_ok [OF fs_wfD [OF wf1] new _ add fresh1, simplified]
    have f3: "files fs3 f = Some ?ff" using r(2) by (simp add: preserves_def e1)
    let ?F = "(files fs3)(f := None)"
    have o': "inode_dec_open E (f_inode ?ff) fs3 = Some fs4" using o by simp
    note d = dec_open_detached [OF r(1) f3 o']
    note io' = inc_open_files [OF io, of ?F]
    have inv5: "fs_inv (root_ref fs1) ((\<lambda>_. 0)(i1 := 1)) (fs5\<lparr>files := ?F\<rparr>)" using inv_inc_open [OF d(1) io'] by simp
    note k5 = inc_open_frame [OF io]
    have files5: "files fs5 = files fs3" and np: "next_ptr fs3 \<le> next_ptr fs5" and root: "root_inode fs5 = root_inode fs1"
      using k5(1) d(2) r(2) by (auto simp: preserves_def)
    have lt: "f < next_ptr fs5" using fs_invD(4) [OF r(1) f3] np by simp
    have "fs_inv (root_ref fs1) (((\<lambda>_. 0)(i1 := 1))(f_inode ?g := ((\<lambda>_. 0)(i1 := 1)) (f_inode ?g) - 1))
        ((fs5\<lparr>files := ?F\<rparr>)\<lparr>files := (files (fs5\<lparr>files := ?F\<rparr>))(f \<mapsto> ?g)\<rparr>)"
      by (rule inv_file_new [OF inv5]) (use lt fs_invD(4) [OF fs_wfD [OF wf] f] in auto)
    moreover have "(fs5\<lparr>files := ?F\<rparr>)\<lparr>files := (files (fs5\<lparr>files := ?F\<rparr>))(f \<mapsto> ?g)\<rparr> = fs'" by (simp add: e files5)
    ultimately have "fs_inv (root_ref fs1) (\<lambda>_. 0) fs'" by (simp add: fun_upd_idem)
    then have "fs_wf fs'" by (rule fs_wfI [where fs = fs1]) (simp_all add: e root)
    moreover have "dmap fs' = (dmap fs)(?i := (dmap fs ?i)(name \<mapsto> i1))"
      using k5(2) dmap_cong [OF d(3)] r(3) by (simp add: e e1)
    moreover have "i1 = next_ptr fs" using new by (simp add: inode_new_def Let_def e1)
    moreover have "dom (files fs') = dom (files fs)"
      using f files5 r(2) by (auto simp: e e1 preserves_def)
    ultimately show ?thesis using f fresh ret by auto
  qed
qed

section \<open>Entries taken away\<close>

lemma entry_inodeD:
  assumes inv: "fs_inv X Y fs" and e: "entry_inode i p fs = Some i1"
  obtains n ds sz de where "inodes fs i = Some n" "i_u n = FT_DIR ds sz" "de \<in> set ds" "de_ptr de = p" "de_inode de = i1"
proof -
  obtain n de where n: "inodes fs i = Some n" and f: "find (\<lambda>de. de_ptr de = p) (dir_entries n) = Some de"
    and i: "de_inode de = i1" using e by (auto simp: entry_inode_def bind_Some_conv)
  obtain ds sz where u: "i_u n = FT_DIR ds sz" using f by (cases "i_u n") (auto simp: dir_entries_def)
  show ?thesis using that [OF n u, of de] find_SomeD [OF f] i u by (auto simp: dir_entries_def)
qed

lemma entry_unique:
  assumes inv: "fs_inv X Y fs" and "de \<in> set (dents fs i)" "de' \<in> set (dents fs i)" "de_ptr de = de_ptr de'"
  shows "de = de'"
proof -
  obtain n where n: "inodes fs i = Some n" using assms(2) by (cases "inodes fs i") (auto simp: dents_def)
  obtain ds sz where u: "i_u n = FT_DIR ds sz" using assms(2) n by (cases "i_u n") (auto simp: dents_def dir_entries_def)
  have "distinct (map de_ptr ds)" using fs_invD(3) [OF inv n] u by (simp add: body_ok_def dir_ok_def)
  then show ?thesis using assms(2-4) n u by (auto simp: dents_def dir_entries_def distinct_map inj_on_def)
qed

lemma dirent_delete_ok:
  assumes inv: "fs_inv X Y fs" and d: "inode_dirent_delete E i p fs = Some fs'"
  shows "\<exists>de \<in> set (dents fs i). de_ptr de = p \<and> fs_inv X Y fs' \<and> preserves fs fs'
    \<and> dents fs' = (dents fs)(i := filter (\<lambda>x. de_ptr x \<noteq> p) (dents fs i))
    \<and> dmap fs' = (dmap fs)(i := (dmap fs i)(de_name de := None))"
proof -
  obtain i1 fs1 where en: "entry_inode i p fs = Some i1" and del: "inode_dirent_delete_no_decref i p fs = Some fs1"
    and dr: "inode_decref E i1 fs1 = Some fs'"
    using d by (auto simp: inode_dirent_delete_def bind_Some_conv)
  obtain n ds sz de where n: "inodes fs i = Some n" and u: "i_u n = FT_DIR ds sz" and de: "de \<in> set ds" "de_ptr de = p" "de_inode de = i1"
    by (rule entry_inodeD [OF inv en])
  have del': "inode_dirent_delete_no_decref i (de_ptr de) fs = Some fs1" using del de by simp
  note f1 = delete_frame [OF inv del' n u de(1)]
  have inv1: "fs_inv (X(i1 := X i1 + 1)) Y fs1" by (rule inv_dirent_delete [OF inv del en])
  have "fs_inv ((X(i1 := X i1 + 1))(i1 := (X(i1 := X i1 + 1)) i1 - 1)) Y fs' \<and> preserves fs1 fs'"
    by (rule inv_decref [OF inv1 _ dr]) (use fs_invD(5) [OF inv, of i1] in simp)
  then have "fs_inv X Y fs'" "preserves fs1 fs'" by simp_all
  moreover have "dents fs1 = (dents fs)(i := filter (\<lambda>x. de_ptr x \<noteq> p) (dents fs i))"
    using f1(3) n u de(2) by (auto simp: dents_def dir_entries_def fun_eq_iff)
  moreover have "de \<in> set (dents fs i)" using n u de by (simp add: dents_def dir_entries_def)
  ultimately show ?thesis
    using f1(1,2) decref_dents [OF inv1 dr] decref_dmap [OF inv1 dr] de(2) preserves_trans by metis
qed

lemma delete_entries_ok:
  "fs_inv X Y fs \<Longrightarrow> delete_entries E i ps fs = Some fs' \<Longrightarrow>
    fs_inv X Y fs' \<and> preserves fs fs' \<and> (\<forall>j. j \<noteq> i \<longrightarrow> dents fs' j = dents fs j)"
proof (induction E i ps fs rule: delete_entries.induct)
  case (2 E i p ps fs)
  then obtain fs1 where d: "inode_dirent_delete E i p fs = Some fs1" and r: "delete_entries E i ps fs1 = Some fs'"
    by (auto simp: bind_Some_conv)
  have 1: "fs_inv X Y fs1 \<and> preserves fs fs1 \<and> dents fs1 = (dents fs)(i := filter (\<lambda>x. de_ptr x \<noteq> p) (dents fs i))"
    using dirent_delete_ok [OF 2(2) d] by blast
  then have "fs_inv X Y fs' \<and> preserves fs1 fs' \<and> (\<forall>j. j \<noteq> i \<longrightarrow> dents fs' j = dents fs1 j)" using 2(1) [OF d _ r] by blast
  then show ?case using 1 preserves_trans by fastforce
qed simp

lemma dirent_sizes_zero: "(\<Sum>de\<leftarrow>ds. dirent_size (de_name de)) = 0 \<Longrightarrow> ds = []"
proof (cases ds)
  case (Cons de ds')
  have "0 \<le> (\<Sum>de\<leftarrow>ds'. dirent_size (de_name de))" by (intro sum_list_nonneg) (auto simp: dirent_size_def sizeof_dirent_def)
  moreover assume "(\<Sum>de\<leftarrow>ds. dirent_size (de_name de)) = 0"
  ultimately show ?thesis using Cons by (simp add: dirent_size_def sizeof_dirent_def)
qed simp

lemma flush_dir_ok:
  assumes inv: "fs_inv X Y fs" and f: "flush_dir E i fs = Some fs'"
  shows "fs_inv X Y fs' \<and> preserves fs fs' \<and> dents fs' = (dents fs)(i := [])"
proof -
  obtain n fs1 n' where d1: "delete_entries E i (map de_ptr (dir_entries n)) fs = Some fs1" and n1: "inodes fs1 i = Some n'"
    and c: "(case i_u n' of FT_DIR ds sz \<Rightarrow> if sz = 0 then Some fs1 else None | _ \<Rightarrow> None) = Some fs'"
    using f by (auto simp: flush_dir_def bind_Some_conv)
  have "(\<exists>ds. i_u n' = FT_DIR ds 0) \<and> fs1 = fs'" using c by (cases "i_u n'") (auto split: if_splits)
  then obtain ds where u: "i_u n' = FT_DIR ds 0" and e: "fs1 = fs'" by blast
  note d = d1 [unfolded e] and n' = n1 [unfolded e]
  have r: "fs_inv X Y fs'" "preserves fs fs'" "\<And>j. j \<noteq> i \<Longrightarrow> dents fs' j = dents fs j"
    using delete_entries_ok [OF inv d] by blast+
  have "dir_ok fs' ds 0" using fs_invD(3) [OF r(1) n'] u by (simp add: body_ok_def)
  then have "dents fs' i = []" using dirent_sizes_zero [of ds] n' u by (simp add: dir_ok_def dents_def dir_entries_def)
  then show ?thesis using r by auto
qed

lemma dir_add_dents:
  assumes "inode_dir_add i name i1 fs = Some fs'"
  shows "dents fs' = (dents fs)(i := dents fs i @ [\<lparr>de_ptr = next_ptr fs, de_name = name, de_inode = i1\<rparr>])"
proof
  fix j
  obtain n where n: "inodes fs i = Some n" using assms by (cases "inodes fs i") (auto simp: inode_dir_add_def)
  obtain ds sz where u: "i_u n = FT_DIR ds sz" using assms n by (cases "i_u n") (auto simp: inode_dir_add_def)
  show "dents fs' j = ((dents fs)(i := dents fs i @ [\<lparr>de_ptr = next_ptr fs, de_name = name, de_inode = i1\<rparr>])) j"
    using assms n u by (cases "j = i") (auto simp: inode_dir_add_def dents_def dir_entries_def)
qed

lemma search_dents:
  "inode_search i name fs = Some (Some de) \<Longrightarrow> de \<in> set (dents fs i) \<and> de_name de = name"
  by (auto simp: inode_search_def bind_Some_conv dents_def dest: find_SomeD)

lemma unlink_ok:
  assumes wf: "fs_wf fs" and m: "fs_unlinkat E f name fs = Some (ret, fs')"
  shows "fs_wf fs' \<and> dom (files fs') = dom (files fs) \<and> (ret = 0 \<longrightarrow> (\<exists>ff i. files fs f = Some ff \<and> dmap fs (f_inode ff) name = Some i \<and>
      dom (dmap fs i) \<subseteq> {DOT, DOTDOT} \<and> dmap fs' = (dmap fs)(i := if is_dir (the (inodes fs i)) then Map.empty else dmap fs i,
        f_inode ff := (dmap fs (f_inode ff))(name := None)))) \<and> (ret \<noteq> 0 \<longrightarrow> fs' = fs)"
proof (cases "name = DOT \<or> name = DOTDOT")
  case True
  then show ?thesis using m wf by (auto simp: fs_unlinkat_def P9_ENOENT_def)
next
  case dot: False
  obtain ff de where f: "files fs f = Some ff" and s: "inode_search (f_inode ff) name fs = Some de"
    using m dot by (auto simp: fs_unlinkat_def Let_def bind_Some_conv)
  let ?d = "f_inode ff"
  have inv: "fs_inv (root_ref fs) (\<lambda>_. 0) fs" by (rule fs_wfD [OF wf])
  show ?thesis
  proof (cases de)
    case None
    then show ?thesis using m dot f s wf by (simp add: fs_unlinkat_def P9_ENOENT_def)
  next
    case de: (Some de)
    obtain n where n: "inodes fs (de_inode de) = Some n"
      using m dot f s de by (auto simp: fs_unlinkat_def Let_def bind_Some_conv)
    show ?thesis
    proof (cases "is_dir n \<and> \<not> is_empty_dir (dir_entries n)")
      case True
      then show ?thesis using m dot f s de n wf by (simp add: fs_unlinkat_def P9_ENOTEMPTY_def)
    next
      case ne: False
      obtain fs1 where fl: "(if is_dir n then flush_dir E (de_inode de) fs else Some fs) = Some fs1"
        and del: "inode_dirent_delete E ?d (de_ptr de) fs1 = Some fs'" and ret: "ret = 0"
        using m dot f s de n ne by (auto simp: fs_unlinkat_def Let_def bind_Some_conv simp del: if_split)
      let ?i = "de_inode de"
      have mem: "de \<in> set (dents fs ?d)" "de_name de = name" using search_dents s de by blast+
      have r1: "fs_inv (root_ref fs) (\<lambda>_. 0) fs1 \<and> preserves fs fs1
          \<and> dents fs1 = (dents fs)(?i := if is_dir n then [] else dents fs ?i)"
        using fl flush_dir_ok [OF inv, of E ?i fs1] inv by (auto split: if_splits)
      obtain de' where de': "de' \<in> set (dents fs1 ?d)" "de_ptr de' = de_ptr de" and inv': "fs_inv (root_ref fs) (\<lambda>_. 0) fs'"
        and k: "preserves fs1 fs'" and dm: "dmap fs' = (dmap fs1)(?d := (dmap fs1 ?d)(de_name de' := None))"
        using dirent_delete_ok [OF conjunct1 [OF r1] del] by blast
      have "de' \<in> set (dents fs ?d)" using de'(1) r1 by (auto split: if_splits)
      then have "de' = de" using entry_unique [OF inv _ mem(1)] de'(2) by blast
      moreover have "?d = ?i \<longrightarrow> \<not> is_dir n" using de'(1) r1 by auto
      moreover have "dmap fs1 = (dmap fs)(?i := if is_dir n then Map.empty else dmap fs ?i)"
        using r1 by (auto simp: dmap_def fun_eq_iff entry_map_def)
      moreover have "dmap fs ?d name = Some ?i" using search_dmap [OF s] de by simp
      moreover have "files fs' = files fs" using r1 k by (simp add: preserves_def)
      moreover have "fs_wf fs'" using inv' r1 k by (intro fs_wfI [OF inv']) (auto simp: preserves_def)
      moreover have "dom (dmap fs ?i) \<subseteq> {DOT, DOTDOT}"
        using ne n by (cases "i_u n") (auto simp: dmap_def dents_def dom_entry_map is_empty_dir_def is_dir_def dir_entries_def list_all_iff)
      ultimately show ?thesis using f n ret dm mem(2) by (auto intro!: exI [of _ ff])
    qed
  qed
qed

lemma rename_ok:
  assumes wf: "fs_wf fs" and m: "fs_renameat E f name new_f new_name fs = Some (ret, fs')"
  shows "fs_wf fs' \<and> dom (files fs') = dom (files fs) \<and> (ret = 0 \<longrightarrow> (\<exists>ff nff i. files fs f = Some ff \<and> files fs new_f = Some nff \<and> dmap fs (f_inode ff) name = Some i \<and>
      (let m = (dmap fs)(f_inode nff := (dmap fs (f_inode nff))(new_name \<mapsto> i))
       in dmap fs' = m(f_inode ff := (m (f_inode ff))(name := None))))) \<and> (ret \<noteq> 0 \<longrightarrow> fs' = fs)"
proof -
  obtain ff nff de where f: "files fs f = Some ff" and nf: "files fs new_f = Some nff"
    and s: "inode_search (f_inode ff) name fs = Some de"
    using m by (auto simp: fs_renameat_def Let_def bind_Some_conv)
  let ?d = "f_inode ff" and ?nd = "f_inode nff"
  have inv: "fs_inv (root_ref fs) (\<lambda>_. 0) fs" by (rule fs_wfD [OF wf])
  show ?thesis
  proof (cases de)
    case None
    then show ?thesis using m f nf s wf by (simp add: fs_renameat_def P9_ENOENT_def)
  next
    case de: (Some de)
    obtain de1 where s1: "inode_search ?nd new_name fs = Some de1"
      using m f nf s de by (auto simp: fs_renameat_def Let_def bind_Some_conv)
    have mem: "de \<in> set (dents fs ?d)" "de_name de = name" using search_dents s de by blast+
    show ?thesis
    proof (cases "\<exists>d1 n1. de1 = Some d1 \<and> inodes fs (de_inode d1) = Some n1 \<and> is_dir n1")
      case True
      then show ?thesis using m f nf s de s1 wf by (auto simp: fs_renameat_def Let_def bind_Some_conv P9_EEXIST_def)
    next
      case nodir: False
      obtain n1 fs1 i fs2 fs3 fs4 where
        st: "(case de1 of None \<Rightarrow> Some (None, fs) | Some de1 \<Rightarrow>
            do { fs \<leftarrow> inode_dirent_delete_no_decref ?nd (de_ptr de1) fs; Some (Some (de_inode de1), fs) }) = Some (n1, fs1)"
        and en: "entry_inode ?d (de_ptr de) fs1 = Some i" and a2: "inode_incref i fs1 = Some fs2"
        and a3: "inode_dir_add ?nd new_name i fs2 = Some fs3" and a4: "inode_dirent_delete E ?d (de_ptr de) fs3 = Some fs4"
        and a5: "(case n1 of None \<Rightarrow> Some fs4 | Some i1 \<Rightarrow> inode_decref E i1 fs4) = Some fs'" and ret: "ret = 0"
        using m f nf s de s1 nodir
        by (cases de1) (auto simp: fs_renameat_def Let_def bind_Some_conv)
      define T :: "iptr \<Rightarrow> int" where "T = (\<lambda>j. case n1 of None \<Rightarrow> 0 | Some t \<Rightarrow> of_bool (j = t))"
      let ?X = "\<lambda>j. root_ref fs j + T j"
      have T0: "0 \<le> T j" for j by (simp add: T_def split: option.split)
      have r1: "fs_inv ?X (\<lambda>_. 0) fs1 \<and> preserves fs fs1 \<and> dmap fs1 = (dmap fs)(?nd := (dmap fs ?nd)(new_name := None))
          \<and> (\<forall>j. set (dents fs1 j) \<subseteq> set (dents fs j))"
      proof (cases de1)
        case None
        then have "dmap fs ?nd new_name = None" using search_dmap [OF s1] by simp
        then show ?thesis using st None inv by (auto simp: T_def fun_upd_idem intro: inv_cong [OF inv])
      next
        case (Some d1)
        then have del: "inode_dirent_delete_no_decref ?nd (de_ptr d1) fs = Some fs1" and n1: "n1 = Some (de_inode d1)"
          using st by (auto simp: bind_Some_conv)
        have s1': "inode_search ?nd new_name fs = Some (Some d1)" using s1 Some by simp
        note e1 = search_entry [OF inv s1']
        obtain n ds sz where nd: "inodes fs ?nd = Some n" "i_u n = FT_DIR ds sz" "d1 \<in> set ds" using e1(3) by blast
        note f1 = delete_frame [OF inv del nd]
        have "fs_inv ((root_ref fs)(de_inode d1 := root_ref fs (de_inode d1) + 1)) (\<lambda>_. 0) fs1"
          by (rule inv_dirent_delete [OF inv del e1(1)])
        then have "fs_inv ?X (\<lambda>_. 0) fs1" by (rule inv_cong) (auto simp: T_def n1)
        moreover have "set (dents fs1 j) \<subseteq> set (dents fs j)" for j
          using f1(3) nd by (auto simp: dents_def dir_entries_def split: if_splits)
        ultimately show ?thesis using f1(1,2) e1(2) by simp
      qed
      have inv1: "fs_inv ?X (\<lambda>_. 0) fs1" using r1 by blast
      obtain de' where de': "de' \<in> set (dents fs1 ?d)" "de_ptr de' = de_ptr de" "de_inode de' = i"
        by (rule entry_inodeD [OF inv1 en]) (auto simp: dents_def dir_entries_def)
      have "de' \<in> set (dents fs ?d)" using de'(1) r1 by blast
      then have same: "de' = de" using entry_unique [OF inv _ mem(1)] de'(2) by blast
      have i: "i = de_inode de" using de'(3) same by simp
      note f2 = incref_frame [OF a2]
      have inv2: "fs_inv (?X(i := ?X i + 1)) (\<lambda>_. 0) fs2" by (rule inv_incref [OF inv1 a2])
      have fresh: "dmap fs2 ?nd new_name = None" using f2(2) r1 by simp
      note f3 = dir_add_frame [OF a3 fresh]
      have inv3: "fs_inv ?X (\<lambda>_. 0) fs3"
        by (rule inv_cong [OF inv_add_entry [OF inv2 a3 _ fresh]]) (use fs_invD(5) [OF inv1, of i] in auto)
      obtain de3 where de3: "de3 \<in> set (dents fs3 ?d)" "de_ptr de3 = de_ptr de" and inv4: "fs_inv ?X (\<lambda>_. 0) fs4"
        and k4: "preserves fs3 fs4" and d4: "dmap fs4 = (dmap fs3)(?d := (dmap fs3 ?d)(de_name de3 := None))"
        using dirent_delete_ok [OF inv3 a4] by blast
      have sub: "set (dents fs2 ?d) \<subseteq> set (dents fs3 ?d)"
        unfolding dir_add_dents [OF a3] by auto
      have "dents fs2 = dents fs1"
      proof -
        obtain m where mm: "inodes fs1 i = Some m" and e: "fs2 = fs1\<lparr>inodes := (inodes fs1)(i \<mapsto> m\<lparr>refcount := refcount m + 1\<rparr>)\<rparr>"
          using a2 by (auto simp: inode_incref_def mod_inode_def bind_Some_conv)
        show ?thesis by (rule dents_same_body [OF mm, where n' = "m\<lparr>refcount := refcount m + 1\<rparr>"]) (simp_all add: e dir_entries_def)
      qed
      then have "de \<in> set (dents fs3 ?d)" using de'(1) same sub by auto
      then have "de3 = de" using entry_unique [OF inv3 de3(1)] de3(2) by blast
      then have nm: "de_name de3 = name" using mem(2) by simp
      have fin: "fs_inv (root_ref fs) (\<lambda>_. 0) fs' \<and> preserves fs4 fs' \<and> dmap fs' = dmap fs4"
      proof (cases n1)
        case None
        then show ?thesis using a5 inv4 by (auto simp: T_def intro: inv_cong [OF inv4])
      next
        case (Some t)
        then have dr: "inode_decref E t fs4 = Some fs'" using a5 by simp
        have r5: "fs_inv (?X(t := ?X t - 1)) (\<lambda>_. 0) fs' \<and> preserves fs4 fs'"
          by (rule inv_decref [OF inv4 _ dr]) (use fs_invD(5) [OF inv, of t] Some in \<open>simp add: T_def\<close>)
        have "fs_inv (root_ref fs) (\<lambda>_. 0) fs'" by (rule inv_cong [OF conjunct1 [OF r5]]) (auto simp: T_def Some)
        then show ?thesis using r5 decref_dmap [OF inv4 dr] by blast
      qed
      have "root_inode fs' = root_inode fs" using r1 f2(1) f3(1) k4 fin by (simp add: preserves_def)
      then have wf': "fs_wf fs'" using fin by (intro fs_wfI [of "root_ref fs" "\<lambda>_. 0" fs' fs]) auto
      have fls: "files fs' = files fs" using r1 f2(1) f3(1) k4 fin by (simp add: preserves_def)
      have nm': "dmap fs ?d name = Some i" using search_dmap [OF s] de i by simp
      have "dmap fs3 = (dmap fs)(?nd := (dmap fs ?nd)(new_name \<mapsto> i))" using f3(2) f2(2) r1 by simp
      then have dm: "let m = (dmap fs)(?nd := (dmap fs ?nd)(new_name \<mapsto> i)) in dmap fs' = m(?d := (m ?d)(name := None))"
        using fin d4 unfolding nm Let_def by (simp del: fun_upd_apply)
      show ?thesis
        by (intro conjI impI exI [of _ ff] exI [of _ nff] exI [of _ i] wf' f nf nm' dm) (use ret fls in simp_all)
    qed
  qed
qed

end
