(* ===== verification/Fs_Mem_Rw.thy ===== *)
theory Fs_Mem_Rw
  imports Fs_Mem_Data
begin

text \<open>
  What a client sees of a regular file: its contents, the first \<open>rg_size\<close> bytes of the file buffer. The buffer may
  be larger than the file. The results hold for files and requests below \<open>2 ^ 31\<close> bytes, where \<open>intptr_t\<close> does not
  overflow; beyond, \<open>fs_truncate\<close> takes an extension for a reduction.
\<close>

definition reg_contents :: "freg \<Rightarrow> u8 list" where "reg_contents r = take (unat (rg_size r)) (fbuf r)"

definition reg_ok :: "freg \<Rightarrow> bool" where
  "reg_ok r \<longleftrightarrow> unat (rg_size r) < 2 ^ 31 \<and> unat (rg_size r) \<le> length (fbuf r) \<and> length (fbuf r) < 2 ^ 32
     \<and> rg_state r = REG_STATE_LOCAL \<and> \<not> is_fscmd r"

text \<open>The regular file behind an open \<open>FSFile\<close>.\<close>

definition reg_of :: "'x fsmem_scheme \<Rightarrow> iptr \<Rightarrow> freg option" where
  "reg_of fs i = (case inodes fs i of Some n \<Rightarrow> (case i_u n of FT_REG r \<Rightarrow> Some r | _ \<Rightarrow> None) | None \<Rightarrow> None)"

definition write_at :: "u8 list \<Rightarrow> nat \<Rightarrow> u8 list \<Rightarrow> u8 list" where
  "write_at c off b = take off (c @ replicate (off - length c) 0) @ b @ drop (off + length b) c"

definition resized :: "u8 list \<Rightarrow> nat \<Rightarrow> u8 list" where
  "resized c n = take n (c @ replicate (n - length c) 0)"

lemma reg_ofD: "reg_of fs i = Some r \<Longrightarrow> \<exists>n. inodes fs i = Some n \<and> i_u n = FT_REG r"
  by (auto simp: reg_of_def split: option.splits inode_u.splits)

lemma length_contents: "reg_ok r \<Longrightarrow> length (reg_contents r) = unat (rg_size r)"
  by (simp add: reg_contents_def reg_ok_def min_def)

lemma file_buffer_resize_length:
  assumes "\<And>n. length (junk E n) = n" and "file_buffer_resize E data n = Some data'"
  shows "length data' = unat n" and "take (length data) (take (unat n) data') = take (unat n) data"
  using assms by (auto simp: file_buffer_resize_def min_def split: if_splits)

section \<open>Reading\<close>

lemma unat_small: "x < 2 ^ 32 \<Longrightarrow> unat (word_of_int (int x) :: u32) = x"
  by (simp add: unat_of_nat take_bit_nat_eq_self)

lemma read_contents:
  assumes f: "files fs f = Some ff" and o: "is_opened ff" and acc: "open_flags ff AND P9_O_NOACCESS \<noteq> P9_O_WRONLY"
    and r: "reg_of fs (f_inode ff) = Some r" and ok: "reg_ok r" and c: "count < 2 ^ 31"
  shows "fs_read E f offset (int count) fs
    = Some (let d = take count (drop (unat offset) (reg_contents r)) in (int (length d), d, fs))"
proof -
  obtain n where n: "inodes fs (f_inode ff) = Some n" "i_u n = FT_REG r" using reg_ofD [OF r] by blast
  let ?sz = "unat (rg_size r)"
  have sz: "?sz < 2 ^ 31" "?sz \<le> length (fbuf r)" "\<not> is_fscmd r" using ok by (auto simp: reg_ok_def)
  show ?thesis
  proof (cases "?sz \<le> unat offset")
    case True
    then have "ucast (rg_size r) \<le> offset" by (simp add: word_le_nat_alt unat_up32)
    moreover have "drop (unat offset) (reg_contents r) = []" using True length_contents [OF ok] by simp
    ultimately show ?thesis using f o acc n sz(3) by (simp add: fs_read_def)
  next
    case False
    then have lt: "\<not> ucast (rg_size r) \<le> offset" by (simp add: word_le_nat_alt unat_up32)
    let ?c1 = "ucast (rg_size r) - offset"
    have c1: "unat ?c1 = ?sz - unat offset"
      using False by (simp add: unat_sub word_le_nat_alt unat_up32)
    have uc: "unat (word_of_nat count :: u64) = count"
      using c by (simp add: unat_of_nat take_bit_nat_eq_self)
    let ?m = "min count (?sz - unat offset)"
    have m: "(if ?c1 < word_of_int (int count) then sint (ucast ?c1 :: u32) else int count) = int ?m"
    proof (cases "?sz - unat offset < count")
      case True
      then have "?c1 < word_of_int (int count)" by (simp add: word_less_nat_alt c1 uc)
      moreover have "sint (ucast ?c1 :: u32) = int (?sz - unat offset)"
      proof -
        have "(ucast ?c1 :: u32) = word_of_int (int (?sz - unat offset))"
          using c1 sz(1) by (simp add: word_unat_eq_iff unsigned_ucast_eq unsigned_take_bit_eq unat_of_nat take_bit_nat_eq_self)
        then show ?thesis using sz(1) by (simp only:) (intro sint_word32_id, auto)
      qed
      ultimately show ?thesis using True by simp
    next
      case False
      then have "\<not> ?c1 < word_of_int (int count)" by (simp add: word_less_nat_alt c1 uc)
      then show ?thesis using False by simp
    qed
    have "unat (ucast offset :: u32) = unat offset"
      using False sz(1) by (simp add: unsigned_ucast_eq unsigned_take_bit_eq take_bit_nat_eq_self)
    moreover have "unat (word_of_int (int ?m) :: u32) = ?m" by (intro unat_small min.strict_coboundedI2) (use sz(1) in auto)
    ultimately have "file_buffer_read (fbuf r) (ucast offset) (word_of_int (int ?m))
        = Some (take ?m (drop (unat offset) (fbuf r)))"
      using sz(2) False by (simp add: file_buffer_read_def)
    moreover have "take ?m (drop (unat offset) (fbuf r)) = take count (drop (unat offset) (reg_contents r))"
      by (simp add: reg_contents_def drop_take min.commute)
    moreover have "length (take count (drop (unat offset) (reg_contents r))) = ?m" using length_contents [OF ok] by simp
    ultimately show ?thesis using f o acc n sz(3) lt m by (simp add: fs_read_def Let_def)
  qed
qed

section \<open>Truncating and writing\<close>

lemma sint_diff31:
  fixes a b :: u32
  assumes "unat a < 2 ^ 31" and "unat b < 2 ^ 31"
  shows "sint (a - b) = int (unat a) - int (unat b)"
proof -
  have "a - b = word_of_int (int (unat a) - int (unat b))" by simp
  moreover have "sint (word_of_int (int (unat a) - int (unat b)) :: u32) = int (unat a) - int (unat b)"
    by (rule sint_word32_id) (use assms [simplified] in linarith)+
  ultimately show ?thesis by simp
qed

lemma resize_bufferE:
  assumes J: "\<And>n. length (junk E n) = n" and r: "file_buffer_resize E data n = Some data'" and m: "m \<le> unat n" "m \<le> length data"
  shows "length data' = unat n" and "take m data' = take m data"
  using r m J by (auto simp: file_buffer_resize_def min_def split: if_splits)

lemma alloc_shrinks: "unat ((word_of_nat a :: u32) * 4 div 5) \<le> a"
proof -
  have "unat ((word_of_nat a :: u32) * 4) \<le> a * 4"
    by (simp add: unat_word_ariths unat_of_nat take_bit_eq_mod mod_mult_left_eq)
  then show ?thesis by (simp add: unat_div)
qed

lemma truncate_contents:
  assumes inv: "fs_inv X Y fs" and n: "inodes fs i = Some n" and u: "i_u n = FT_REG r" and ok: "reg_ok r"
    and sz: "unat sz < 2 ^ 31" and J: "\<And>n. length (junk E n) = n"
  shows "fs_truncate E i sz fs = Some (- P9_ENOSPC, fs) \<or>
    (\<exists>fs' r'. fs_truncate E i sz fs = Some (0, fs') \<and> inodes fs' = (inodes fs)(i \<mapsto> n\<lparr>i_u := FT_REG r'\<rparr>)
      \<and> reg_ok r' \<and> rg_size r' = ucast sz \<and> reg_contents r' = resized (reg_contents r) (unat sz) \<and> files fs' = files fs)"
proof -
  note l = fs_invD(1) [OF inv]
  let ?s = "unat sz" and ?o = "unat (rg_size r)" and ?a = "length (fbuf r)"
  have k: "?o < 2 ^ 31" "?o \<le> ?a" "?a < 2 ^ 32" "rg_state r = REG_STATE_LOCAL" "\<not> is_fscmd r" using ok by (auto simp: reg_ok_def)
  have us: "unat (ucast sz :: u32) = ?s" using sz by (simp add: unsigned_ucast_eq unsigned_take_bit_eq take_bit_nat_eq_self)
  have le: "\<not> sz > 0xffffffff" using sz by (simp add: word_less_nat_alt)
  have diff: "sint (ucast sz - rg_size r) = int ?s - int ?o" using sint_diff31 [of "ucast sz" "rg_size r"] us sz k(1) by simp
  have ua: "unat (word_of_nat ?a :: u32) = ?a" using k(3) by (simp add: unat_of_nat take_bit_nat_eq_self)
  let ?b = "to_blocks fs sz - nblocks n"
  have nb: "nblocks n = to_blocks fs (ucast (rg_size r))" by (rule nblocks_reg [OF u l])
  have "ucast (rg_size r) \<le> (0xffffffff :: u64)" using k(1) by (simp add: word_le_nat_alt unat_up32)
  then have bb: "0 \<le> to_blocks fs sz" using blocks_bound [OF l, of sz] le by (simp add: not_less)
  have bd: "sint (word_of_int (to_blocks fs sz) - word_of_int (nblocks n) :: u32) = ?b"
    unfolding nb of_int_diff [symmetric] using blocks_bound [OF l, of sz] blocks_bound [OF l, of "ucast (rg_size r)"] le
      \<open>ucast (rg_size r) \<le> 0xffffffff\<close> by (intro sint_word32_id) (auto simp: not_less)
  have pos: "\<not> fs_blocks fs + ?b < 0"
    using msum_ge [OF lists_okD(4) [OF l] _ n, of nblocks] lists_okD(6) [OF l] bb by simp
  have fin: ?thesis
    if t: "fs_truncate E i sz fs = Some (0, fs\<lparr>fs_blocks := fs_blocks fs + ?b,
        inodes := (inodes fs)(i \<mapsto> n\<lparr>i_u := FT_REG (r\<lparr>fbuf := data, rg_size := ucast sz\<rparr>)\<rparr>)\<rparr>)"
      and d: "?s \<le> length data" "length data < 2 ^ 32" "take ?s data = resized (reg_contents r) ?s" for data
  proof -
    let ?r = "r\<lparr>fbuf := data, rg_size := ucast sz\<rparr>"
    have "reg_ok ?r" using d k sz us by (simp add: reg_ok_def)
    moreover have "reg_contents ?r = resized (reg_contents r) ?s" using d us by (simp add: reg_contents_def)
    ultimately show ?thesis using t by auto
  qed
  show ?thesis
  proof (cases "?s = ?o")
    case True
    then have eq: "ucast sz = rg_size r" using us by (simp add: word_unat_eq_iff)
    have "fs_truncate E i sz fs = Some (0, fs)" using n u le eq by (simp add: fs_truncate_def Let_def)
    moreover have "n\<lparr>i_u := FT_REG r\<rparr> = n" using u by (metis inode.surjective inode.update_convs(11))
    ultimately show ?thesis using ok n eq True length_contents [OF ok]
      by (intro disjI2 exI [of _ fs] exI [of _ r]) (simp add: resized_def fun_upd_idem)
  next
    case False
    then have ne: "sint (ucast sz - rg_size r) \<noteq> 0" by (simp only: diff right_minus_eq of_nat_eq_iff not_False_eq_True)
    have d0: "(0 < sint (ucast sz - rg_size r)) = (?o < ?s)" by (simp only: diff diff_gt_0_iff_gt of_nat_less_iff)
    have zne: "ucast sz \<noteq> rg_size r" using False us by auto
    note T = fs_truncate_def Let_def n u le zne k(4) nb [symmetric] bd ne d0
    show ?thesis
    proof (cases "?o < ?s")
      case grow: True
      let ?new = "max (ucast sz) (word_of_nat ?a * 5 div 4) :: u32"
      have un: "?s \<le> unat ?new" using us by (simp add: max_def word_le_nat_alt)
      let ?m = "if sz > ucast (word_of_nat ?a :: u32) then file_buffer_resize E (fbuf r) ?new else Some (fbuf r)"
      have uw: "(sz > ucast (word_of_nat ?a :: u32)) = (?a < ?s)" by (simp add: word_less_nat_alt unat_up32 ua)
      have set: "\<exists>data'. file_buffer_set data (rg_size r) 0 (ucast sz - rg_size r) = Some data' \<and> ?s \<le> length data'
          \<and> length data' = length data \<and> take ?s data' = resized (reg_contents r) ?s"
        if d: "?s \<le> length data" "take ?o data = take ?o (fbuf r)" for data
      proof -
        have ud: "unat (ucast sz - rg_size r :: u32) = ?s - ?o" using us grow by (simp add: unat_sub word_le_nat_alt)
        have "take ?o data @ replicate (?s - ?o) 0 = resized (reg_contents r) ?s"
          using d(2) k(2) grow length_contents [OF ok] by (simp add: resized_def reg_contents_def)
        then show ?thesis using d(1) grow ud by (simp add: file_buffer_set_def)
      qed
      show ?thesis
      proof (cases "(word_of_int (fs_blocks fs + ?b) :: u64) > fs_max_blocks fs \<or> ?m = None")
        case True
        then have "fs_truncate E i sz fs = Some (- P9_ENOSPC, fs)" using grow by (auto simp: T)
        then show ?thesis by blast
      next
        case False
        then obtain data where m: "?m = Some data" by blast
        have d: "?s \<le> length data \<and> length data < 2 ^ 32 \<and> take ?o data = take ?o (fbuf r)"
        proof (cases "?a < ?s")
          case True
          then have r: "file_buffer_resize E (fbuf r) ?new = Some data" using m uw by simp
          show ?thesis using resize_bufferE [OF J r, of ?o] un k(2) grow unsigned_less [of ?new, where 'a = nat] by simp
        next
          case False
          then have "data = fbuf r" using m uw by simp
          then show ?thesis using False k by simp
        qed
        then obtain data' where s: "file_buffer_set data (rg_size r) 0 (ucast sz - rg_size r) = Some data'"
          and d': "?s \<le> length data'" "length data' < 2 ^ 32" "take ?s data' = resized (reg_contents r) ?s" using set by fastforce
        show ?thesis by (rule fin [OF _ d'(1-3)]) (use False m s grow pos in \<open>auto simp: T\<close>)
      qed
    next
      case shrink: False
      let ?new = "word_of_nat ?a * 4 div 5 :: u32"
      let ?m = "if sz \<le> ucast ?new then file_buffer_resize E (fbuf r) ?new else Some (fbuf r)"
      have lt: "?s < ?o" using shrink \<open>?s \<noteq> ?o\<close> by simp
      show ?thesis
      proof (cases ?m)
        case None
        then have "fs_truncate E i sz fs = Some (- P9_ENOSPC, fs)" using shrink by (simp add: T)
        then show ?thesis by blast
      next
        case (Some data)
        have "?s \<le> length data \<and> length data < 2 ^ 32 \<and> take ?s data = take ?s (fbuf r)"
        proof (cases "sz \<le> ucast ?new")
          case True
          then have r: "file_buffer_resize E (fbuf r) ?new = Some data" using Some by simp
          have "?s \<le> unat ?new" using True by (simp add: word_le_nat_alt unat_up32)
          then show ?thesis using resize_bufferE [OF J r, of ?s] lt k(2) unsigned_less [of ?new, where 'a = nat] by simp
        next
          case False
          then show ?thesis using Some lt k(2,3) by simp
        qed
        moreover have "take ?s (fbuf r) = resized (reg_contents r) ?s"
          using lt k(2) length_contents [OF ok] by (simp add: resized_def reg_contents_def)
        ultimately have d: "?s \<le> length data" "length data < 2 ^ 32" "take ?s data = resized (reg_contents r) ?s" by auto
        show ?thesis by (rule fin [OF _ d]) (use Some shrink pos in \<open>auto simp: T\<close>)
      qed
    qed
  qed
qed

lemma contents_write:
  assumes ok: "reg_ok r" and fit: "off + length buf \<le> unat (rg_size r)"
    and w: "data = take off (fbuf r) @ buf @ drop (off + length buf) (fbuf r)"
  shows "reg_contents (r\<lparr>fbuf := data\<rparr>) = write_at (reg_contents r) off buf" and "reg_ok (r\<lparr>fbuf := data\<rparr>)"
proof -
  let ?s = "unat (rg_size r)"
  have k: "?s \<le> length (fbuf r)" using ok by (simp add: reg_ok_def)
  have len: "length data = length (fbuf r)" using fit k w by simp
  have fit': "off \<le> ?s" "length buf \<le> ?s - off" "off \<le> length (fbuf r)" "min (length (fbuf r)) off = off" using fit k by auto
  have "take ?s data = take off (fbuf r) @ buf @ take (?s - (off + length buf)) (drop (off + length buf) (fbuf r))"
    by (simp add: w min_absorb1 min_absorb2 fit' diff_diff_left)
  also have "\<dots> = write_at (reg_contents r) off buf"
    using fit k length_contents [OF ok] by (simp add: write_at_def reg_contents_def drop_take min_def)
  finally show "reg_contents (r\<lparr>fbuf := data\<rparr>) = write_at (reg_contents r) off buf" by (simp add: reg_contents_def)
  show "reg_ok (r\<lparr>fbuf := data\<rparr>)" using ok len by (simp add: reg_ok_def)
qed

lemma write_at_resized:
  assumes "length c < off + length buf"
  shows "write_at (resized c (off + length buf)) off buf = write_at c off buf"
proof -
  have "take off (resized c (off + length buf)) = take off (c @ replicate (off - length c) 0)"
    using assms by (auto simp: resized_def min_def)
  then show ?thesis using assms by (simp add: write_at_def resized_def)
qed

lemma length_resized [simp]: "length (resized c n) = n"
  by (simp add: resized_def)

lemma write_reg_contents:
  assumes inv: "fs_inv X Y fs" and f: "files fs f = Some ff" and o: "is_opened ff"
    and acc: "open_flags ff AND P9_O_NOACCESS \<noteq> P9_O_RDONLY"
    and r: "reg_of fs (f_inode ff) = Some r" and ok: "reg_ok r" and ne: "buf \<noteq> []"
    and fit: "unat offset + length buf < 2 ^ 31" and J: "\<And>n. length (junk E n) = n"
  shows "fs_write E f offset buf (int (length buf)) fs = Some (- P9_ENOSPC, fs) \<or>
    (\<exists>fs' r'. fs_write E f offset buf (int (length buf)) fs = Some (int (length buf), fs') \<and> files fs' = files fs
      \<and> reg_of fs' (f_inode ff) = Some r' \<and> reg_ok r' \<and> reg_contents r' = write_at (reg_contents r) (unat offset) buf
      \<and> (\<forall>j. j \<noteq> f_inode ff \<longrightarrow> inodes fs' j = inodes fs j))"
proof -
  let ?i = "f_inode ff" and ?l = "length buf" and ?o = "unat offset"
  obtain n where n: "inodes fs ?i = Some n" and u: "i_u n = FT_REG r" using reg_ofD [OF r] by blast
  have loc: "rg_state r = REG_STATE_LOCAL" "\<not> is_fscmd r" using ok by (auto simp: reg_ok_def)
  have ul: "unat (word_of_nat ?l :: u64) = ?l" using fit by (simp add: unat_of_nat take_bit_nat_eq_self)
  have ue: "unat (offset + word_of_nat ?l) = ?o + ?l" using fit by (simp add: unat_word_ariths ul)
  have uo: "unat (ucast offset :: u32) = ?o" using fit by (simp add: unsigned_ucast_eq unsigned_take_bit_eq take_bit_nat_eq_self)
  have ul32: "unat (word_of_nat ?l :: u32) = ?l" using fit by (simp add: unat_of_nat take_bit_nat_eq_self)
  have gt: "(ucast (rg_size r) < offset + word_of_nat ?l) = (unat (rg_size r) < ?o + ?l)"
    by (simp add: word_less_nat_alt unat_up32 ue)
  have rest: ?thesis
    if t: "(if offset + word_of_nat ?l > ucast (rg_size r) then fs_truncate E ?i (offset + word_of_nat ?l) fs else Some (0, fs)) = Some (0, fs1)"
      and i1: "inodes fs1 = (inodes fs)(?i \<mapsto> n\<lparr>i_u := FT_REG r1\<rparr>)" and f1: "files fs1 = files fs"
      and ok1: "reg_ok r1" and le: "?o + ?l \<le> unat (rg_size r1)"
      and c1: "write_at (reg_contents r1) ?o buf = write_at (reg_contents r) ?o buf" for fs1 r1
  proof -
    let ?data = "take ?o (fbuf r1) @ buf @ drop (?o + ?l) (fbuf r1)"
    let ?n2 = "n\<lparr>i_u := FT_REG r1, mtime_sec := fst (tod fs1), mtime_nsec := snd (tod fs1)\<rparr>"
    let ?n3 = "?n2\<lparr>i_u := FT_REG (r1\<lparr>fbuf := ?data\<rparr>)\<rparr>"
    let ?fs = "fs1\<lparr>inodes := (inodes fs)(?i \<mapsto> ?n3)\<rparr>"
    have k1: "unat (rg_size r1) \<le> length (fbuf r1)" "rg_state r1 = REG_STATE_LOCAL" using ok1 by (auto simp: reg_ok_def)
    have m: "inode_update_mtime ?i fs1 = Some (fs1\<lparr>inodes := (inodes fs)(?i \<mapsto> ?n2)\<rparr>)"
      by (simp add: inode_update_mtime_def mod_inode_def i1)
    have w: "file_buffer_write (fbuf r1) (ucast offset) buf (word_of_nat ?l) = Some ?data"
      using le k1(1) by (simp add: file_buffer_write_def uo ul32)
    have "fs_write E f offset buf (int ?l) fs = Some (int ?l, ?fs)"
      using f o acc n u loc ne t m w k1(2) by (simp add: fs_write_def Let_def)
    moreover have "reg_of ?fs ?i = Some (r1\<lparr>fbuf := ?data\<rparr>)" by (simp add: reg_of_def)
    ultimately show ?thesis using contents_write [OF ok1 le refl] c1 f1 by auto
  qed
  show ?thesis
  proof (cases "unat (rg_size r) < ?o + ?l")
    case False
    have "n\<lparr>i_u := FT_REG r\<rparr> = n" using u by (metis inode.surjective inode.update_convs(11))
    then show ?thesis by (intro rest [of fs r]) (use False gt ok n in \<open>auto simp: fun_upd_idem\<close>)
  next
    case True
    have sz: "unat (offset + word_of_nat ?l) < 2 ^ 31" using ue fit by simp
    from truncate_contents [OF inv n u ok sz J] show ?thesis
    proof (elim disjE exE conjE)
      assume "fs_truncate E ?i (offset + word_of_nat ?l) fs = Some (- P9_ENOSPC, fs)"
      then show ?thesis using f o acc n u loc ne gt True by (simp add: fs_write_def Let_def P9_ENOSPC_def)
    next
      fix fs1 r1
      assume t: "fs_truncate E ?i (offset + word_of_nat ?l) fs = Some (0, fs1)"
        and i1: "inodes fs1 = (inodes fs)(?i \<mapsto> n\<lparr>i_u := FT_REG r1\<rparr>)" and ok1: "reg_ok r1"
        and s1: "rg_size r1 = ucast (offset + word_of_nat ?l)" and f1: "files fs1 = files fs"
        and c1: "reg_contents r1 = resized (reg_contents r) (unat (offset + word_of_nat ?l))"
      have "unat (rg_size r1) = ?o + ?l" using length_contents [OF ok1] c1 ue by simp
      then show ?thesis
        by (intro rest [of fs1 r1]) (use t i1 f1 ok1 gt True c1 ue length_contents [OF ok] in \<open>auto simp: write_at_resized\<close>)
    qed
  qed
qed

end
