(* ===== verification/Fs_Mem_Props.thy ===== *)
theory Fs_Mem_Props
  imports Fs_Mem_Dirs Fs_Mem_Rw
begin

text \<open>
  The states the file system in memory can reach from \<open>fs_mem_init\<close> with any requests, the invariant they satisfy,
  and the abstract directories its operations refine.
\<close>

section \<open>The initial state\<close>

lemma inv_root_inode: "fs_inv X Y (fs\<lparr>root_inode := r\<rparr>) = fs_inv X Y fs"
proof -
  have "lists_ok (fs\<lparr>root_inode := r\<rparr>) = lists_ok fs" by (simp add: lists_ok_def)
  moreover have "counts_ok X Y (fs\<lparr>root_inode := r\<rparr>) i n = counts_ok X Y fs i n" for i n
    by (simp add: counts_ok_def links_def opens_def)
  moreover have "body_ok (fs\<lparr>root_inode := r\<rparr>) u = body_ok fs u" for u by (cases u) (simp_all add: body_ok_def dir_ok_def)
  ultimately show ?thesis by (simp add: fs_inv_def)
qed

lemma inv_tod: "fs_inv X Y (fs\<lparr>tod := t\<rparr>) = fs_inv X Y fs"
proof -
  have "lists_ok (fs\<lparr>tod := t\<rparr>) = lists_ok fs" by (simp add: lists_ok_def)
  moreover have "counts_ok X Y (fs\<lparr>tod := t\<rparr>) i n = counts_ok X Y fs i n" for i n
    by (simp add: counts_ok_def links_def opens_def)
  moreover have "body_ok (fs\<lparr>tod := t\<rparr>) u = body_ok fs u" for u by (cases u) (simp_all add: body_ok_def dir_ok_def)
  ultimately show ?thesis by (simp add: fs_inv_def)
qed

lemma empty_inv: "fs_inv (\<lambda>_. 0) (\<lambda>_. 0) (empty_fs t)"
  by (simp add: fs_inv_def lists_ok_def empty_fs_def msum_def FS_BLOCK_SIZE_LOG2_def)

lemma init_wf:
  assumes "fs_mem_init t = Some fs"
  shows "fs_wf fs"
proof -
  obtain i fs1 where new: "inode_new (FT_DIR [] 0) 0x1ff 0 0 (empty_fs t) = (i, fs1)" by fastforce
  obtain fs2 fs3 fs4 fs5 where a2: "inode_incref i fs1 = Some fs2" and a3: "inode_dir_add i DOT i fs2 = Some fs3"
    and a4: "inode_incref i fs3 = Some fs4" and a5: "inode_dir_add i DOTDOT i fs4 = Some fs5" and e: "fs = fs5\<lparr>root_inode := i\<rparr>"
    using assms new by (auto simp: fs_mem_init_def Let_def bind_Some_conv)
  have inv1: "fs_inv ((\<lambda>_. 0)(i := 1)) (\<lambda>_. 0) fs1" using inv_new [OF empty_inv new] by simp
  note f1 = new_frame [OF empty_inv new]
  have d1: "dmap fs1 i = Map.empty" using f1(3) by simp
  have inv2: "fs_inv ((\<lambda>_. 0)(i := 2)) (\<lambda>_. 0) fs2" using inv_incref [OF inv1 a2] by simp
  have e3: "dmap fs2 i DOT = None" using incref_frame(2) [OF a2] d1 by simp
  have inv3: "fs_inv ((\<lambda>_. 0)(i := 1)) (\<lambda>_. 0) fs3" using inv_add_entry [OF inv2 a3 _ e3] by simp
  note f3 = dir_add_frame [OF a3 e3]
  have inv4: "fs_inv ((\<lambda>_. 0)(i := 2)) (\<lambda>_. 0) fs4" using inv_incref [OF inv3 a4] by simp
  have e5: "dmap fs4 i DOTDOT = None"
    using incref_frame(2) [OF a4] f3(2) incref_frame(2) [OF a2] d1 by (simp add: DOT_def DOTDOT_def)
  have "fs_inv ((\<lambda>_. 0)(i := 1)) (\<lambda>_. 0) fs" using inv_add_entry [OF inv4 a5 _ e5] by (simp add: e inv_root_inode)
  moreover have "(\<lambda>_. 0)(i := 1) = root_ref fs" by (auto simp: root_ref_def e)
  ultimately show ?thesis by (simp add: fs_wf_def)
qed

section \<open>Reachable states\<close>

text \<open>A request of the client, with any arguments, or the passing of time. A request that stops the program is no step.\<close>

inductive fs_step :: "'x fsmem_scheme fs_env \<Rightarrow> 'x fsmem_scheme \<Rightarrow> 'x fsmem_scheme \<Rightarrow> bool" for E where
  "fs_attach uid fs = Some (f, q, fs') \<Longrightarrow> fs_step E fs fs'"
| "fs_walk f names fs = Some (n, f', qs, fs') \<Longrightarrow> fs_step E fs fs'"
| "fs_mkdir f name mode gid fs = Some (r, q, fs') \<Longrightarrow> fs_step E fs fs'"
| "fs_open E f flags fs = Some (r, q, fs') \<Longrightarrow> fs_step E fs fs'"
| "fs_create E f name flags mode gid fs = Some (r, q, fs') \<Longrightarrow> fs_step E fs fs'"
| "fs_read E f offset count fs = Some (r, data, fs') \<Longrightarrow> fs_step E fs fs'"
| "fs_write E f offset buf count fs = Some (r, fs') \<Longrightarrow> fs_step E fs fs'"
| "fs_setattr E f msk mode uid gid sz as ans ms mns fs = Some (r, fs') \<Longrightarrow> fs_step E fs fs'"
| "fs_link df f name fs = Some (r, fs') \<Longrightarrow> fs_step E fs fs'"
| "fs_symlink f name symgt gid fs = Some (r, q, fs') \<Longrightarrow> fs_step E fs fs'"
| "fs_mknod f name mode ma mi gid fs = Some (r, q, fs') \<Longrightarrow> fs_step E fs fs'"
| "fs_renameat E f name new_f new_name fs = Some (r, fs') \<Longrightarrow> fs_step E fs fs'"
| "fs_unlinkat E f name fs = Some (r, fs') \<Longrightarrow> fs_step E fs fs'"
| "fs_close E f fs = Some fs' \<Longrightarrow> fs_step E fs fs'"
| "fs_delete E f fs = Some fs' \<Longrightarrow> fs_step E fs fs'"
| "fs' = fs\<lparr>tod := t\<rparr> \<Longrightarrow> fs_step E fs fs'"

inductive fs_reach :: "fsmem fs_env \<Rightarrow> fsmem \<Rightarrow> bool" for E where
  "fs_mem_init t = Some fs \<Longrightarrow> fs_reach E fs"
| "fs_reach E fs \<Longrightarrow> fs_step E fs fs' \<Longrightarrow> fs_reach E fs'"

lemma wf_preserves: "fs_inv (root_ref fs) (\<lambda>_. 0) fs' \<and> preserves fs fs' \<and> P \<Longrightarrow> fs_wf fs'"
  by (rule fs_wfI [where fs = fs]) (auto simp: preserves_def)

lemma tod_wf: "fs_wf fs \<Longrightarrow> fs_wf (fs\<lparr>tod := t\<rparr>)"
  by (rule fs_wfI [where fs = fs and X = "root_ref fs" and Y = "\<lambda>_. 0"]) (simp_all add: fs_wf_def inv_tod)

lemma step_wf: "fs_step E fs fs' \<Longrightarrow> fs_wf fs \<Longrightarrow> fs_wf fs'"
proof (induction rule: fs_step.induct)
  case (1 uid fs f q fs') then show ?case using attach_ok by blast
next
  case (2 f names fs n f' qs fs') then show ?case using walk_ok by blast
next
  case (3 f name mode gid fs r q fs') then show ?case using mkdir_ok by blast
next
  case (4 f flags fs r q fs') then show ?case using open_ok by blast
next
  case (5 f name flags mode gid fs r q fs') then show ?case using create_ok by blast
next
  case (6 f offset count fs r data fs') then show ?case using read_state [OF fs_wfD] by blast
next
  case (7 f offset buf count fs r fs') then show ?case by (auto intro: wf_preserves [OF write_ok [OF fs_wfD]])
next
  case (8 f msk mode uid gid sz as ans ms mns fs r fs')
  then show ?case by (auto intro: wf_preserves [OF setattr_ok [OF fs_wfD]])
next
  case (9 df f name fs r fs') then show ?case using link_ok by blast
next
  case (10 f name symgt gid fs r q fs') then show ?case using symlink_ok by blast
next
  case (11 f name mode ma mi gid fs r q fs') then show ?case using mknod_ok by blast
next
  case (12 f name new_f new_name fs r fs') then show ?case using rename_ok by blast
next
  case (13 f name fs r fs') then show ?case using unlink_ok by blast
next
  case (14 f fs fs') then show ?case using close_ok(1) by blast
next
  case (15 f fs fs') then show ?case using delete_ok(1) by blast
next
  case (16 fs' fs t) then show ?case using tod_wf by blast
qed

lemma fs_reach_wf: "fs_reach E fs \<Longrightarrow> fs_wf fs"
  by (induction rule: fs_reach.induct) (auto intro: init_wf step_wf)

lemma wf_meaning:
  assumes wf: "fs_wf fs"
  shows "inodes fs i = Some n \<Longrightarrow> refcount n = links fs i + of_bool (i = root_inode fs) \<and> open_count n = opens fs i
      \<and> (0 < refcount n \<or> 0 < open_count n)"
    and "de \<in> set (dents fs i) \<Longrightarrow> inodes fs (de_inode de) \<noteq> None"
    and "distinct (map de_name (dents fs i))"
    and "files fs f = Some ff \<Longrightarrow> inodes fs (f_inode ff) \<noteq> None"
    and "fs_blocks fs = msum nblocks (inodes fs)" and "inode_count fs = int (card (dom (inodes fs)))"
proof -
  note inv = fs_wfD [OF wf]
  note l = lists_okD [OF fs_invD(1) [OF inv]]
  show "inodes fs i = Some n \<Longrightarrow> refcount n = links fs i + of_bool (i = root_inode fs) \<and> open_count n = opens fs i
      \<and> (0 < refcount n \<or> 0 < open_count n)"
    using fs_invD(2) [OF inv, of i n] by (auto simp: counts_ok_def root_ref_def)
  have d: "dents fs i = [] \<or> (\<exists>sz. dir_ok fs (dents fs i) sz)"
  proof (cases "inodes fs i")
    case (Some n)
    then show ?thesis using fs_invD(3) [OF inv Some] by (cases "i_u n") (auto simp: dents_def dir_entries_def body_ok_def)
  qed (simp add: dents_def)
  then show "de \<in> set (dents fs i) \<Longrightarrow> inodes fs (de_inode de) \<noteq> None" by (auto simp: dir_ok_def)
  show "distinct (map de_name (dents fs i))" using d by (auto simp: dir_ok_def)
  show "files fs f = Some ff \<Longrightarrow> inodes fs (f_inode ff) \<noteq> None" using fs_invD(4) [OF inv] by blast
  show "fs_blocks fs = msum nblocks (inodes fs)" by (rule l(6))
  show "inode_count fs = int (card (dom (inodes fs)))" using l(2,3,5) distinct_card by metis
qed

section \<open>Abstract directories\<close>

datatype dir_op = Bind iptr fname iptr | Make iptr fname iptr | Remove iptr fname | Move iptr fname iptr fname

text \<open>What an operation means for the directories, as maps from names to inodes; \<open>None\<close> where it is not allowed.\<close>

fun dir_spec :: "dir_op \<Rightarrow> (iptr \<Rightarrow> fname \<Rightarrow> iptr option) \<Rightarrow> (iptr \<Rightarrow> fname \<Rightarrow> iptr option) option" where
  "dir_spec (Bind d nm i) m = (if m d nm = None then Some (m(d := (m d)(nm \<mapsto> i))) else None)"
| "dir_spec (Make d nm i) m =
     (if m d nm = None then Some (m(i := [DOT \<mapsto> i, DOTDOT \<mapsto> d], d := (m d)(nm \<mapsto> i))) else None)"
| "dir_spec (Remove d nm) m =
     (case m d nm of None \<Rightarrow> None
      | Some i \<Rightarrow> (if dom (m i) \<subseteq> {DOT, DOTDOT} then Some (m(i := Map.empty, d := (m d)(nm := None))) else None))"
| "dir_spec (Move d nm nd nnm) m =
     (case m d nm of None \<Rightarrow> None
      | Some i \<Rightarrow> (let m' = m(nd := (m nd)(nnm \<mapsto> i)) in Some (m'(d := (m' d)(nm := None)))))"

text \<open>The inode a walk ends at and the number of its steps.\<close>

fun walk_spec :: "(iptr \<Rightarrow> fname \<Rightarrow> iptr option) \<Rightarrow> iptr \<Rightarrow> fname list \<Rightarrow> iptr \<times> nat" where
  "walk_spec m i [] = (i, 0)"
| "walk_spec m i (nm # nms) =
     (case m i nm of None \<Rightarrow> (i, 0) | Some j \<Rightarrow> (let (k, n) = walk_spec m j nms in (k, Suc n)))"

definition refines :: "int \<Rightarrow> dir_op \<Rightarrow> 'x fsmem_scheme \<Rightarrow> 'x fsmem_scheme \<Rightarrow> bool" where
  "refines ret op fs fs' \<longleftrightarrow> (if ret = 0 then dir_spec op (dmap fs) = Some (dmap fs') else dmap fs' = dmap fs)"

lemma walk_loop_spec: "walk_loop i names fs = Some (j, qs) \<Longrightarrow> walk_spec (dmap fs) i names = (j, length qs)"
proof (induction i names fs arbitrary: j qs rule: walk_loop.induct)
  case (2 i nm nms fs)
  obtain r where s: "inode_search i nm fs = Some r" using 2(2) by (auto simp: bind_Some_conv)
  show ?case
  proof (cases r)
    case None
    then show ?thesis using 2(2) s search_dmap [OF s] by simp
  next
    case (Some de)
    obtain q qs' where q: "qs = q # qs'" and w: "walk_loop (de_inode de) nms fs = Some (j, qs')"
      using 2(2) s Some by (auto simp: bind_Some_conv)
    have "qid_of (de_inode de) fs \<noteq> None" using 2(2) s Some by (auto simp: bind_Some_conv)
    then have "walk_spec (dmap fs) (de_inode de) nms = (j, length qs')" using 2(1) [OF s Some _ w] by auto
    then show ?thesis using search_dmap [OF s] Some q by simp
  qed
qed simp

lemma unlink_refines:
  assumes wf: "fs_wf fs" and f: "files fs f = Some ff" and m: "fs_unlinkat E f name fs = Some (ret, fs')"
  shows "refines ret (Remove (f_inode ff) name) fs fs'"
proof (cases "ret = 0")
  case True
  then obtain i where i: "dmap fs (f_inode ff) name = Some i" "dom (dmap fs i) \<subseteq> {DOT, DOTDOT}"
    and dm: "dmap fs' = (dmap fs)(i := if is_dir (the (inodes fs i)) then Map.empty else dmap fs i,
      f_inode ff := (dmap fs (f_inode ff))(name := None))"
    using unlink_ok [OF wf m] f by auto
  have "dmap fs i = Map.empty" if "\<not> is_dir (the (inodes fs i))"
    using that by (cases "inodes fs i") (auto simp: dmap_def dents_def dir_entries_def is_dir_def entry_map_def split: inode_u.splits)
  then have "(if is_dir (the (inodes fs i)) then Map.empty else dmap fs i) = Map.empty" by simp
  then show ?thesis using True i dm by (simp add: refines_def)
next
  case False
  then show ?thesis using unlink_ok [OF wf m] by (simp add: refines_def)
qed

section \<open>A concrete file system\<close>

text \<open>A client has attached to the root, file 3, and has created a regular file \<open>a\<close>, inode 4, which file 3 is open on.\<close>

definition demo_env :: "fsmem fs_env" where
  "demo_env = \<lparr>junk = (\<lambda>n. replicate n 0xAA), realloc_ok = (\<lambda>_. True), net_release = (\<lambda>_ _. None), net_open = (\<lambda>_ _ _. None),
     fs_cmd_read = (\<lambda>_ _ _ _. None), fs_cmd_write = (\<lambda>_ _ _ _ _. None), fs_cmd_close = (\<lambda>_ _. None)\<rparr>"

definition demo_root :: "fsmem option" where
  "demo_root = do { fs \<leftarrow> fs_mem_init (0, 0); (f, q, fs) \<leftarrow> fs_attach 0 fs; Some fs }"

definition demo_fs :: "fsmem option" where
  "demo_fs = do { fs \<leftarrow> demo_root; (r, q, fs) \<leftarrow> fs_create demo_env 3 [0x61] 2 0x1a4 0 fs; Some fs }"

lemma demo_root_reach:
  assumes "demo_root = Some fs"
  shows "fs_reach demo_env fs"
proof -
  obtain fs0 f q where i: "fs_mem_init (0, 0) = Some fs0" and a: "fs_attach 0 fs0 = Some (f, q, fs)"
    using assms unfolding demo_root_def bind_Some_conv by (auto split: prod.splits)
  show ?thesis by (rule fs_reach.intros(2) [OF fs_reach.intros(1) [OF i] fs_step.intros(1) [OF a]])
qed

lemma demo_fs_reach:
  assumes "demo_fs = Some fs"
  shows "fs_reach demo_env fs"
proof -
  obtain fs0 r q where i: "demo_root = Some fs0" and c: "fs_create demo_env 3 [0x61] 2 0x1a4 0 fs0 = Some (r, q, fs)"
    using assms unfolding demo_fs_def bind_Some_conv by (auto split: prod.splits)
  show ?thesis by (rule fs_reach.intros(2) [OF demo_root_reach [OF i] fs_step.intros(5) [OF c]])
qed

lemma demo_root_file: "\<exists>fs ff. demo_root = Some fs \<and> files fs 3 = Some ff \<and> f_inode ff = 0"
proof -
  have "map_option (\<lambda>fs. map_option f_inode (files fs 3)) demo_root = Some (Some 0)" by code_simp
  then show ?thesis by auto
qed

lemma demo_fs_file: "\<exists>fs ff r. demo_fs = Some fs \<and> files fs 3 = Some ff \<and> f_inode ff = 4 \<and> is_opened ff \<and> open_flags ff = 2
    \<and> reg_of fs 4 = Some r \<and> reg_ok r \<and> reg_contents r = []"
proof -
  have "map_option (\<lambda>fs. (map_option (\<lambda>ff. (f_inode ff, is_opened ff, open_flags ff)) (files fs 3),
      reg_of fs 4)) demo_fs
    = Some (Some (4, True, 2), Some \<lparr>rg_state = REG_STATE_LOCAL, rg_size = 0, fbuf = [], is_fscmd = False\<rparr>)"
    by code_simp
  then show ?thesis by (auto simp: reg_ok_def reg_contents_def)
qed

lemma demo_junk: "length (junk demo_env n) = n"
  by (simp add: demo_env_def)

section \<open>Properties\<close>

text \<open>
  C9. In every state of the file system in memory that requests with any arguments lead to, the link count of an
  inode is the number of directory entries that name it (and one for the root), its open count the number of files on
  it, and one of them is positive; no entry and no file names a freed inode; the names in a directory differ; the count of
  blocks is the sum over the inodes, and the count of inodes their number.
\<close>

theorem fs_reach_counts:
  assumes "fs_reach E fs"
  shows "(\<forall>i n. inodes fs i = Some n \<longrightarrow> refcount n = links fs i + of_bool (i = root_inode fs) \<and> open_count n = opens fs i
        \<and> (0 < refcount n \<or> 0 < open_count n))
    \<and> (\<forall>i. distinct (map de_name (dents fs i)) \<and> (\<forall>de \<in> set (dents fs i). inodes fs (de_inode de) \<noteq> None))
    \<and> (\<forall>f ff. files fs f = Some ff \<longrightarrow> inodes fs (f_inode ff) \<noteq> None)
    \<and> fs_blocks fs = msum nblocks (inodes fs) \<and> inode_count fs = int (card (dom (inodes fs)))"
  using wf_meaning [OF fs_reach_wf [OF assms]] by blast

theorem fs_reach_counts_witness:
  "\<exists>fs. demo_fs = Some fs \<and> inodes fs 4 \<noteq> None \<and> fs_blocks fs = msum nblocks (inodes fs)
     \<and> (\<forall>n. inodes fs 4 = Some n \<longrightarrow> refcount n = links fs 4 + of_bool (4 = root_inode fs))"
proof -
  obtain fs ff where fs: "demo_fs = Some fs" "files fs 3 = Some ff" "f_inode ff = 4" using demo_fs_file by blast
  note r = fs_reach_counts [OF demo_fs_reach [OF fs(1)]]
  have "inodes fs 4 \<noteq> None" using r fs by metis
  then show ?thesis using r fs(1) by blast
qed

text \<open>
  C10. Read as maps from names to inodes, the directories change as an operation says: \<open>mkdir\<close>, \<open>create\<close>, \<open>symlink\<close>,
  \<open>mknod\<close> and \<open>link\<close> bind a name that was free, \<open>unlinkat\<close> takes a name away, and the entries of an emptied directory with
  it, \<open>renameat\<close> moves one; an operation that returns an error changes no directory. A walk follows the maps.
\<close>

theorem fs_dirs_refine:
  assumes "fs_wf fs" and "files fs f = Some ff"
  shows "(fs_mkdir f nm mode gid fs = Some (r, q, fs') \<longrightarrow> refines r (Make (f_inode ff) nm (next_ptr fs)) fs fs')
    \<and> (fs_create E f nm flags mode gid fs = Some (r, q, fs') \<longrightarrow> refines r (Bind (f_inode ff) nm (next_ptr fs)) fs fs')
    \<and> (fs_symlink f nm tgt gid fs = Some (r, q, fs') \<longrightarrow> refines r (Bind (f_inode ff) nm (next_ptr fs)) fs fs')
    \<and> (fs_mknod f nm mode ma mi gid fs = Some (r, q, fs') \<longrightarrow> refines r (Bind (f_inode ff) nm (next_ptr fs)) fs fs')
    \<and> (fs_link f g nm fs = Some (r, fs') \<longrightarrow> (\<exists>gg. files fs g = Some gg \<and> refines r (Bind (f_inode ff) nm (f_inode gg)) fs fs'))
    \<and> (fs_unlinkat E f nm fs = Some (r, fs') \<longrightarrow> refines r (Remove (f_inode ff) nm) fs fs')
    \<and> (fs_renameat E f nm g nm' fs = Some (r, fs') \<longrightarrow>
         (\<exists>gg. files fs g = Some gg \<and> refines r (Move (f_inode ff) nm (f_inode gg) nm') fs fs'))
    \<and> (fs_walk f nms fs = Some (r, g, qs, fs') \<longrightarrow> dmap fs' = dmap fs \<and>
         (\<exists>gg. files fs' g = Some gg \<and> walk_spec (dmap fs) (f_inode ff) nms = (f_inode gg, nat r)))"
proof (intro conjI impI)
  note wf = assms(1) and f = assms(2)
  show "refines r (Make (f_inode ff) nm (next_ptr fs)) fs fs'" if "fs_mkdir f nm mode gid fs = Some (r, q, fs')"
    using mkdir_ok [OF wf that] f by (auto simp: refines_def)
  show "refines r (Bind (f_inode ff) nm (next_ptr fs)) fs fs'" if "fs_create E f nm flags mode gid fs = Some (r, q, fs')"
    using create_ok [OF wf that] f by (auto simp: refines_def)
  show "refines r (Bind (f_inode ff) nm (next_ptr fs)) fs fs'" if "fs_symlink f nm tgt gid fs = Some (r, q, fs')"
    using symlink_ok [OF wf that] f by (auto simp: refines_def)
  show "refines r (Bind (f_inode ff) nm (next_ptr fs)) fs fs'" if "fs_mknod f nm mode ma mi gid fs = Some (r, q, fs')"
    using mknod_ok [OF wf that] f by (auto simp: refines_def)
  show "\<exists>gg. files fs g = Some gg \<and> refines r (Bind (f_inode ff) nm (f_inode gg)) fs fs'" if m: "fs_link f g nm fs = Some (r, fs')"
  proof -
    obtain gg where "files fs g = Some gg" using m by (auto simp: fs_link_def bind_Some_conv)
    then show ?thesis using link_ok [OF wf m] f by (auto simp: refines_def)
  qed
  show "refines r (Remove (f_inode ff) nm) fs fs'" if "fs_unlinkat E f nm fs = Some (r, fs')"
    by (rule unlink_refines [OF wf f that])
  show "\<exists>gg. files fs g = Some gg \<and> refines r (Move (f_inode ff) nm (f_inode gg) nm') fs fs'"
    if m: "fs_renameat E f nm g nm' fs = Some (r, fs')"
  proof -
    obtain gg where g: "files fs g = Some gg" using m by (auto simp: fs_renameat_def bind_Some_conv)
    show ?thesis
    proof (cases "r = 0")
      case True
      then obtain i where "dmap fs (f_inode ff) nm = Some i"
        and "let m = (dmap fs)(f_inode gg := (dmap fs (f_inode gg))(nm' \<mapsto> i)) in dmap fs' = m(f_inode ff := (m (f_inode ff))(nm := None))"
        using rename_ok [OF wf m] f g by auto
      then show ?thesis using g True by (simp add: refines_def Let_def del: fun_upd_apply)
    next
      case False
      then show ?thesis using rename_ok [OF wf m] g by (simp add: refines_def)
    qed
  qed
  assume w: "fs_walk f nms fs = Some (r, g, qs, fs')"
  show "dmap fs' = dmap fs" using walk_ok [OF wf w] by blast
  obtain j fs1 where l: "walk_loop (f_inode ff) nms fs = Some (j, qs)" and c: "fid_create j (f_uid ff) fs = Some (g, fs')"
    and r: "r = int (length qs)" using w f by (auto simp: fs_walk_def bind_Some_conv)
  show "\<exists>gg. files fs' g = Some gg \<and> walk_spec (dmap fs) (f_inode ff) nms = (f_inode gg, nat r)"
    using fid_create_ok(5) [OF wf c] walk_loop_spec [OF l] r by simp
qed

theorem fs_dirs_refine_witness:
  "\<exists>fs fs' q. demo_root = Some fs \<and> fs_mkdir 3 [0x64] 0x1ff 0 fs = Some (0, q, fs') \<and> refines 0 (Make 0 [0x64] (next_ptr fs)) fs fs'"
proof -
  obtain fs ff where fs: "demo_root = Some fs" "files fs 3 = Some ff" "f_inode ff = 0" using demo_root_file by blast
  have "map_option fst (demo_root \<bind> fs_mkdir 3 [0x64] 0x1ff 0) = Some 0" by code_simp
  then have "map_option fst (fs_mkdir 3 [0x64] 0x1ff 0 fs) = Some 0" by (simp only: fs(1) Option.bind.bind_lunit)
  then obtain q fs' where m: "fs_mkdir 3 [0x64] 0x1ff 0 fs = Some (0, q, fs')" by auto
  have "refines 0 (Make (f_inode ff) [0x64] (next_ptr fs)) fs fs'"
    using fs_dirs_refine [OF fs_reach_wf [OF demo_root_reach [OF fs(1)]] fs(2), where nm = "[0x64]" and mode = "0x1ff" and gid = 0] m by blast
  then show ?thesis using fs m by auto
qed



section \<open>Requests that stop the program\<close>

lemma neg_of_nat:
  assumes "0 < k" "k < 2 ^ 31"
  shows "unat (- of_nat k :: u32) = 2 ^ 32 - k" and "(ucast (- of_nat k :: u64) :: u32) = - of_nat k"
proof -
  have "(of_nat (2 ^ 32 - k) :: u32) = of_nat (2 ^ 32) - of_nat k" using assms by (subst of_nat_diff) auto
  then have e: "(- of_nat k :: u32) = of_nat (2 ^ 32 - k)" by simp
  show "unat (- of_nat k :: u32) = 2 ^ 32 - k"
    unfolding e unsigned_of_nat using assms by (simp add: take_bit_nat_eq_self del: of_nat_diff)
  have "(of_nat (2 ^ 64 - k) :: u64) = of_nat (2 ^ 64) - of_nat k" using assms by (subst of_nat_diff) auto
  then have e2: "(- of_nat k :: u64) = of_nat (2 ^ 64 - k)" by simp
  have u: "unat (of_nat (2 ^ 64 - k) :: u64) = 2 ^ 64 - k"
    unfolding unsigned_of_nat using assms by (simp add: take_bit_nat_eq_self del: of_nat_diff)
  have c: "(ucast x :: u32) = of_nat (unat x)" for x :: u64 by simp
  have "(ucast (of_nat (2 ^ 64 - k) :: u64) :: u32) = of_nat (2 ^ 64) - of_nat k"
    unfolding c u using assms by (subst of_nat_diff) auto
  then show "(ucast (- of_nat k :: u64) :: u32) = - of_nat k" unfolding e2 by simp
qed

lemma write_wraps:
  assumes f: "files fs f = Some ff" and o: "is_opened ff" and acc: "open_flags ff AND P9_O_NOACCESS \<noteq> P9_O_RDONLY"
    and r: "reg_of fs (f_inode ff) = Some r" and ok: "reg_ok r"
    and k: "0 < k" "k \<le> length buf" "length buf < 2 ^ 31" "length buf - k \<le> unat (rg_size r)"
  shows "fs_write E f (- of_nat k) buf (int (length buf)) fs = None"
proof -
  obtain n where n: "inodes fs (f_inode ff) = Some n" and u: "i_u n = FT_REG r" using reg_ofD [OF r] by blast
  let ?l = "length buf"
  have loc: "rg_state r = REG_STATE_LOCAL" "\<not> is_fscmd r" "length (fbuf r) < 2 ^ 32" using ok by (auto simp: reg_ok_def)
  have e: "- of_nat k + of_nat ?l = (of_nat (?l - k) :: u64)" using k(2) by (simp add: of_nat_diff)
  have "unat (of_nat (?l - k) :: u64) = ?l - k" using k(3) by (simp add: unat_of_nat take_bit_nat_eq_self)
  then have le: "\<not> ucast (rg_size r) < - of_nat k + (of_nat ?l :: u64)"
    unfolding e using k(4) by (simp add: word_less_nat_alt unat_up32 del: of_nat_diff)
  have nat: "unat (- of_nat k :: u32) = 2 ^ 32 - k" "(ucast (- of_nat k :: u64) :: u32) = - of_nat k"
    using neg_of_nat [of k] k by linarith+
  have l: "unat (of_nat ?l :: u32) = ?l" using k(3) by (simp add: unat_of_nat take_bit_nat_eq_self)
  have w: "file_buffer_write (fbuf r) (ucast (- of_nat k :: u64)) buf (of_nat ?l) = None"
    unfolding nat(2) using k loc(3) by (simp add: file_buffer_write_def nat(1) l)
  have ne: "buf \<noteq> []" using k by auto
  show ?thesis using f o acc n u loc ne le w
    by (simp add: fs_write_def Let_def inode_update_mtime_def mod_inode_def)
qed

lemma add_needs_dir:
  assumes "inodes fs i = Some n" "\<not> is_dir n"
  shows "inode_dir_add i nm j fs = None"
  using assms by (cases "i_u n") (simp_all add: inode_dir_add_def is_dir_def)

lemma search_no_dir: "\<lbrakk> inodes fs i = Some n; \<not> is_dir n \<rbrakk> \<Longrightarrow> inode_search i nm fs = Some None"
  by (cases "i_u n") (simp_all add: inode_search_def dir_entries_def is_dir_def)

lemma entry_gone:
  assumes "inode_dirent_delete_no_decref i p fs = Some fs'"
  shows "entry_inode i p fs' = None"
proof -
  obtain n where n: "inodes fs i = Some n" using assms by (auto simp: inode_dirent_delete_no_decref_def bind_Some_conv)
  show ?thesis
  proof (cases "i_u n")
    case (FT_DIR ds sz)
    then obtain sz' where "inodes fs' i = Some (n\<lparr>i_u := FT_DIR (filter (\<lambda>de. de_ptr de \<noteq> p) ds) sz'\<rparr>)"
      using assms n by (auto simp: inode_dirent_delete_no_decref_def bind_Some_conv Let_def split: if_splits)
    then show ?thesis by (simp add: entry_inode_def dir_entries_def bind_eq_None_conv find_None_iff)
  qed (use assms n in \<open>simp_all add: inode_dirent_delete_no_decref_def\<close>)
qed

lemma new_no_dir:
  assumes "inode_new u mode uid gid fs = (i1, fs')" and "inodes fs d = Some n" "\<not> is_dir n" and "\<forall>ds sz. u \<noteq> FT_DIR ds sz"
  shows "inode_dir_add d nm i1 fs' = None"
proof (cases "d = i1")
  case True
  then obtain m where "inodes fs' d = Some m" "i_u m = u" using assms(1) by (auto simp: inode_new_def Let_def)
  then show ?thesis using assms(4) by (intro add_needs_dir) (auto simp: is_dir_def split: inode_u.splits)
next
  case False
  then have "inodes fs' d = Some n" using assms(1,2) by (auto simp: inode_new_def Let_def)
  then show ?thesis using assms(3) by (rule add_needs_dir)
qed

lemma mknod_type_no_dir: "mknod_type mode ma mi = Some u \<Longrightarrow> \<forall>ds sz. u \<noteq> FT_DIR ds sz"
  by (auto simp: mknod_type_def new_reg_def Let_def split: if_splits)

lemma make_needs_dir:
  assumes f: "files fs f = Some ff" and n: "inodes fs (f_inode ff) = Some n" "\<not> is_dir n"
  shows "fs_symlink f nm tgt gid fs = None"
    and "mknod_type mode ma mi \<noteq> None \<Longrightarrow> fs_mknod f nm mode ma mi gid fs = None"
    and "\<lbrakk> files fs g = Some gg; inodes fs (f_inode gg) = Some m; \<not> is_dir m \<rbrakk> \<Longrightarrow> fs_link f g nm fs = None"
proof -
  note s = search_no_dir [OF n, of nm]
  show "fs_symlink f nm tgt gid fs = None"
    using f s new_no_dir [OF _ n] by (auto simp: fs_symlink_def split: prod.split)
  show "fs_mknod f nm mode ma mi gid fs = None" if t: "mknod_type mode ma mi \<noteq> None"
    using f s t new_no_dir [OF _ n mknod_type_no_dir] by (auto simp: fs_mknod_def split: prod.split option.split)
  assume g: "files fs g = Some gg" "inodes fs (f_inode gg) = Some m" "\<not> is_dir m"
  have "inode_dir_add (f_inode ff) nm j fs' = None" if i: "inode_incref (f_inode gg) fs = Some fs'" for fs' j
  proof -
    obtain n' where "inodes fs' (f_inode ff) = Some n'" "i_u n' = i_u n"
      using i n(1) by (cases "f_inode ff = f_inode gg") (auto simp: inode_incref_def mod_inode_def bind_Some_conv)
    then show ?thesis using n(2) by (intro add_needs_dir [of _ _ n']) (simp_all add: is_dir_def)
  qed
  then show "fs_link f g nm fs = None"
    using f g s by (cases "inode_incref (f_inode gg) fs") (simp_all add: fs_link_def)
qed

lemma rename_self:
  assumes "files fs f = Some ff" "inode_search (f_inode ff) nm fs = Some (Some de)" "inodes fs (de_inode de) = Some m" "\<not> is_dir m"
  shows "fs_renameat E f nm f nm fs = None"
  using assms entry_gone [of "f_inode ff" "de_ptr de" fs]
  by (cases "inode_dirent_delete_no_decref (f_inode ff) (de_ptr de) fs") (simp_all add: fs_renameat_def)

text \<open>
  C36. Requests that stop the program. A symbolic link, a node or a hard link made in a file that is not a directory fails an
  assertion; renaming an entry that is not a directory to its own name in its own directory reads the entry after it is freed; a write
  at an offset of \<open>2 ^ 64 - k\<close> whose end wraps to a position inside the file does not grow the file and writes in front of its buffer.
\<close>

theorem fs_unsafe_requests:
  assumes "files fs f = Some ff" and "inodes fs (f_inode ff) = Some n"
  shows "(\<not> is_dir n \<longrightarrow> fs_symlink f nm tgt gid fs = None
        \<and> (mknod_type mode ma mi \<noteq> None \<longrightarrow> fs_mknod f nm mode ma mi gid fs = None)
        \<and> (\<forall>g gg m. files fs g = Some gg \<and> inodes fs (f_inode gg) = Some m \<and> \<not> is_dir m \<longrightarrow> fs_link f g nm fs = None))
    \<and> (\<forall>de m. inode_search (f_inode ff) nm fs = Some (Some de) \<and> inodes fs (de_inode de) = Some m \<and> \<not> is_dir m \<longrightarrow>
        fs_renameat E f nm f nm fs = None)
    \<and> (\<forall>r k buf. is_opened ff \<and> open_flags ff AND P9_O_NOACCESS \<noteq> P9_O_RDONLY \<and> reg_of fs (f_inode ff) = Some r \<and> reg_ok r
        \<and> 0 < k \<and> k \<le> length buf \<and> length buf < 2 ^ 31 \<and> length buf - k \<le> unat (rg_size r) \<longrightarrow>
        fs_write E f (- of_nat k) buf (int (length buf)) fs = None)"
  by (intro conjI impI allI; (elim conjE)?)
    (simp_all add: make_needs_dir [OF assms] rename_self [OF assms(1)] write_wraps [OF assms(1)])

theorem fs_unsafe_requests_witness:
  "\<exists>fs. demo_fs = Some fs \<and> fs_symlink 3 [0x62] [0x63] 0 fs = None \<and> fs_write demo_env 3 (- 1) [7] 1 fs = None"
proof -
  obtain fs ff r where fs: "demo_fs = Some fs" "files fs 3 = Some ff" "f_inode ff = 4" "is_opened ff" "open_flags ff = 2"
    and r: "reg_of fs 4 = Some r" "reg_ok r" using demo_fs_file by blast
  obtain n where n: "inodes fs 4 = Some n" "i_u n = FT_REG r" using reg_ofD [OF r(1)] by blast
  have "inodes fs (f_inode ff) = Some n" using fs n by simp
  note p = fs_unsafe_requests [OF fs(2) this, where E = demo_env]
  have "fs_symlink 3 [0x62] [0x63] 0 fs = None" using p n by (simp add: is_dir_def)
  moreover have "open_flags ff AND P9_O_NOACCESS \<noteq> P9_O_RDONLY" using fs by (simp add: p9_consts)
  then have "fs_write demo_env 3 (- of_nat 1) [7] (int (length [7 :: u8])) fs = None"
    using p [THEN conjunct2, THEN conjunct2, THEN spec, of r, THEN spec, of 1, THEN spec, of "[7]"] fs r by simp
  then have "fs_write demo_env 3 (- 1) [7] 1 fs = None" by simp
  ultimately show ?thesis using fs by blast
qed

end
