(* ===== verification/Fs_Device.thy ===== *)
theory Fs_Device
  imports Fs_Mem_Props
begin

text \<open>
  The interface of a file system for the 9P device: the table of functions \<open>FSDevice\<close> of \<open>fs.h\<close>, as far as the device
  calls it, the contract the device relies on as the locale \<open>file_server\<close>, and the file system in memory as an instance.
\<close>

section \<open>The table of functions\<close>

text \<open>
  \<open>'h\<close> is the state of the file system. An operation returns its result code, what it gives when the code is not an
  error, and the new state; a positive code of \<open>op_open\<close> announces a call of its callback.
\<close>

record 'h fs_device =
  op_delete :: "fptr \<Rightarrow> 'h \<Rightarrow> 'h option"
  op_statfs :: "'h \<Rightarrow> fsstatfs"
  op_attach :: "u32 \<Rightarrow> fname \<Rightarrow> fname \<Rightarrow> 'h \<Rightarrow> (int \<times> fptr \<times> fsqid \<times> 'h) option"
  op_walk :: "fptr \<Rightarrow> fname list \<Rightarrow> 'h \<Rightarrow> (int \<times> fptr \<times> fsqid list \<times> 'h) option"
  op_mkdir :: "fptr \<Rightarrow> fname \<Rightarrow> u32 \<Rightarrow> u32 \<Rightarrow> 'h \<Rightarrow> (int \<times> fsqid option \<times> 'h) option"
  op_open :: "fptr \<Rightarrow> u32 \<Rightarrow> 'h \<Rightarrow> (int \<times> fsqid option \<times> 'h) option"
  op_create :: "fptr \<Rightarrow> fname \<Rightarrow> u32 \<Rightarrow> u32 \<Rightarrow> u32 \<Rightarrow> 'h \<Rightarrow> (int \<times> fsqid option \<times> 'h) option"
  op_stat :: "fptr \<Rightarrow> 'h \<Rightarrow> (int \<times> fsstat) option"
  op_setattr :: "fptr \<Rightarrow> u32 \<Rightarrow> u32 \<Rightarrow> u32 \<Rightarrow> u32 \<Rightarrow> u64 \<Rightarrow> u64 \<Rightarrow> u64 \<Rightarrow> u64 \<Rightarrow> u64 \<Rightarrow> 'h \<Rightarrow> (int \<times> 'h) option"
  op_readdir :: "fptr \<Rightarrow> u64 \<Rightarrow> int \<Rightarrow> 'h \<Rightarrow> (int \<times> u8 list) option"
  op_read :: "fptr \<Rightarrow> u64 \<Rightarrow> int \<Rightarrow> 'h \<Rightarrow> (int \<times> u8 list \<times> 'h) option"
  op_write :: "fptr \<Rightarrow> u64 \<Rightarrow> u8 list \<Rightarrow> int \<Rightarrow> 'h \<Rightarrow> (int \<times> 'h) option"
  op_link :: "fptr \<Rightarrow> fptr \<Rightarrow> fname \<Rightarrow> 'h \<Rightarrow> (int \<times> 'h) option"
  op_symlink :: "fptr \<Rightarrow> fname \<Rightarrow> fname \<Rightarrow> u32 \<Rightarrow> 'h \<Rightarrow> (int \<times> fsqid option \<times> 'h) option"
  op_mknod :: "fptr \<Rightarrow> fname \<Rightarrow> u32 \<Rightarrow> u32 \<Rightarrow> u32 \<Rightarrow> u32 \<Rightarrow> 'h \<Rightarrow> (int \<times> fsqid option \<times> 'h) option"
  op_readlink :: "int \<Rightarrow> fptr \<Rightarrow> 'h \<Rightarrow> (int \<times> fname) option"
  op_renameat :: "fptr \<Rightarrow> fname \<Rightarrow> fptr \<Rightarrow> fname \<Rightarrow> 'h \<Rightarrow> (int \<times> 'h) option"
  op_unlinkat :: "fptr \<Rightarrow> fname \<Rightarrow> 'h \<Rightarrow> (int \<times> 'h) option"
  op_lock :: "fptr \<Rightarrow> 'h \<Rightarrow> int option"
  op_getlock :: "fptr \<Rightarrow> 'h \<Rightarrow> int option"

text \<open>The table \<open>fs_mem_init\<close> makes.\<close>

definition mem_device :: "fsmem fs_env \<Rightarrow> fsmem fs_device" where
  "mem_device E = \<lparr>op_delete = fs_delete E, op_statfs = fs_statfs,
     op_attach = (\<lambda>uid uname aname fs. map_option (\<lambda>(f, q, fs). (0, f, q, fs)) (fs_attach uid fs)),
     op_walk = fs_walk, op_mkdir = fs_mkdir, op_open = fs_open E, op_create = fs_create E,
     op_stat = (\<lambda>f fs. map_option (\<lambda>st. (0, st)) (fs_stat f fs)), op_setattr = fs_setattr E,
     op_readdir = fs_readdir, op_read = fs_read E, op_write = fs_write E, op_link = fs_link, op_symlink = fs_symlink,
     op_mknod = fs_mknod, op_readlink = fs_readlink, op_renameat = fs_renameat E, op_unlinkat = fs_unlinkat E,
     op_lock = fs_lock, op_getlock = fs_getlock\<rparr>"

section \<open>The contract\<close>

text \<open>
  \<open>ok\<close> is an invariant of the file system and \<open>live\<close> its \<open>FSFile\<close> objects: \<open>attach\<close> and \<open>walk\<close> make a new one
  unless they return an error, \<open>delete\<close> frees one, and the other operations do neither.
\<close>

definition same_files :: "('h \<Rightarrow> bool) \<Rightarrow> ('h \<Rightarrow> fptr set) \<Rightarrow> 'h \<Rightarrow> 'h \<Rightarrow> bool" where
  "same_files ok live h h' \<longleftrightarrow> ok h' \<and> live h' = live h"

definition new_file :: "('h \<Rightarrow> bool) \<Rightarrow> ('h \<Rightarrow> fptr set) \<Rightarrow> fptr \<Rightarrow> 'h \<Rightarrow> 'h \<Rightarrow> bool" where
  "new_file ok live f h h' \<longleftrightarrow> ok h' \<and> f \<notin> live h \<and> live h' = insert f (live h)"

locale file_server =
  fixes D :: "'h fs_device" and ok :: "'h \<Rightarrow> bool" and live :: "'h \<Rightarrow> fptr set"
  assumes fdelete: "ok h \<Longrightarrow> op_delete D f h = Some h' \<Longrightarrow> ok h' \<and> live h' = live h - {f}"
    and attach: "ok h \<Longrightarrow> op_attach D uid unm anm h = Some (err, f, q, h') \<Longrightarrow>
      if err = 0 then new_file ok live f h h' else same_files ok live h h'"
    and walk: "ok h \<Longrightarrow> op_walk D g nms h = Some (err, f, qs, h') \<Longrightarrow>
      if err \<ge> 0 then new_file ok live f h h' else same_files ok live h h'"
    and mkdir: "ok h \<Longrightarrow> op_mkdir D f nm m gid h = Some (err, qo, h') \<Longrightarrow> same_files ok live h h'"
    and lopen: "ok h \<Longrightarrow> op_open D f fl h = Some (err, qo, h') \<Longrightarrow> same_files ok live h h'"
    and lcreate: "ok h \<Longrightarrow> op_create D f nm fl m gid h = Some (err, qo, h') \<Longrightarrow> same_files ok live h h'"
    and setattr: "ok h \<Longrightarrow> op_setattr D f msk m uid gid sz a an mt mn h = Some (err, h') \<Longrightarrow> same_files ok live h h'"
    and fread: "ok h \<Longrightarrow> op_read D f off count h = Some (err, bs, h') \<Longrightarrow> same_files ok live h h'"
    and fwrite: "ok h \<Longrightarrow> op_write D f off buf count h = Some (err, h') \<Longrightarrow> same_files ok live h h'"
    and flink: "ok h \<Longrightarrow> op_link D df f nm h = Some (err, h') \<Longrightarrow> same_files ok live h h'"
    and symlink: "ok h \<Longrightarrow> op_symlink D f nm tgt gid h = Some (err, qo, h') \<Longrightarrow> same_files ok live h h'"
    and mknod: "ok h \<Longrightarrow> op_mknod D f nm m ma mi gid h = Some (err, qo, h') \<Longrightarrow> same_files ok live h h'"
    and renameat: "ok h \<Longrightarrow> op_renameat D f nm g nm' h = Some (err, h') \<Longrightarrow> same_files ok live h h'"
    and unlinkat: "ok h \<Longrightarrow> op_unlinkat D f nm h = Some (err, h') \<Longrightarrow> same_files ok live h h'"

section \<open>The file system in memory keeps it\<close>

lemma fid_new:
  assumes "fs_wf fs" and "fid_create i uid fs = Some (f, fs')"
  shows "new_file fs_wf (\<lambda>fs. dom (files fs)) f fs fs'"
  using fid_create_ok [OF assms] by (auto simp: new_file_def)

lemma walk_result: "fs_walk g nms fs = Some (r, f, qs, fs') \<Longrightarrow> r = int (length qs) \<and> (\<exists>i uid. fid_create i uid fs = Some (f, fs'))"
  by (auto simp: fs_walk_def bind_Some_conv)

lemma preserves_files:
  "fs_inv (root_ref fs) (\<lambda>_. 0) fs' \<and> preserves fs fs' \<and> P \<Longrightarrow> same_files fs_wf (\<lambda>fs. dom (files fs)) fs fs'"
  using wf_preserves by (auto simp: same_files_def preserves_def)

interpretation mem: file_server "mem_device E" fs_wf "\<lambda>fs. dom (files fs)" for E
proof (unfold_locales, goal_cases)
  case (1 h f h') then show ?case using delete_ok [of h E f h'] by (simp add: mem_device_def)
next
  case (2 h uid un an err f q h')
  then show ?case using fid_new by (auto simp: mem_device_def fs_attach_def bind_Some_conv)
next
  case (3 h g nms err f qs h') then show ?case using fid_new walk_result by (fastforce simp: mem_device_def)
next
  case (4 h f nm m gid err qo h') then show ?case using mkdir_ok by (fastforce simp: mem_device_def same_files_def)
next
  case (5 h f fl err qo h') then show ?case using open_ok by (fastforce simp: mem_device_def same_files_def)
next
  case (6 h f nm fl m gid err qo h') then show ?case using create_ok by (fastforce simp: mem_device_def same_files_def)
next
  case (7 h) then show ?case by (intro preserves_files [OF setattr_ok [OF fs_wfD]]) (auto simp: mem_device_def)
next
  case (8 h f off count err bs h')
  then show ?case using read_state [OF fs_wfD] by (fastforce simp: mem_device_def same_files_def)
next
  case (9 h) then show ?case by (intro preserves_files [OF write_ok [OF fs_wfD]]) (auto simp: mem_device_def)
next
  case (10 h df f nm err h') then show ?case using link_ok by (fastforce simp: mem_device_def same_files_def)
next
  case (11 h f nm tgt gid err qo h') then show ?case using symlink_ok by (fastforce simp: mem_device_def same_files_def)
next
  case (12 h f nm m ma mi gid err qo h') then show ?case using mknod_ok by (fastforce simp: mem_device_def same_files_def)
next
  case (13 h f nm g nm' err h') then show ?case using rename_ok by (fastforce simp: mem_device_def same_files_def)
next
  case (14 h f nm err h') then show ?case using unlink_ok by (fastforce simp: mem_device_def same_files_def)
qed

end
