(* ===== verification/Virtio_9p.thy ===== *)
theory Virtio_9p
  imports Virtio_Devices Fs_Device "HOL-Library.AList"
begin

text \<open>
  The 9P file system device of \<open>virtio.c\<close>: the table of fids, the messages, and the handler of requests, over any file
  system with the functions of \<open>Fs_Device\<close>. The guest's message is read from the queue and the reply written to it.
\<close>

section \<open>State\<close>

definition P9_ENOTSUP :: int where "P9_ENOTSUP = 524"

text \<open>
  \<open>open_info\<close> is the \<open>P9OpenInfo\<close> an unfinished open keeps for its callback: the queue, the descriptor and the tag.
\<close>

record 'h v9p = virtio +
  p9_fs :: 'h
  msize :: u32
  fid_list :: "(u32 \<times> fptr) list"
  p9_in_progress :: bool
  open_info :: "(nat \<times> u16 \<times> u16) option"

definition fid_find :: "'h v9p \<Rightarrow> u32 \<Rightarrow> fptr option" where
  "fid_find s fid = map_of (fid_list s) fid"

definition fid_delete :: "'h fs_device \<Rightarrow> u32 \<Rightarrow> 'h v9p \<Rightarrow> 'h v9p option" where
  "fid_delete D fid s =
     (case fid_find s fid of None \<Rightarrow> Some s
      | Some f \<Rightarrow> do { h \<leftarrow> op_delete D f (p9_fs s);
                     Some (s\<lparr>p9_fs := h, fid_list := remove1 (fid, f) (fid_list s)\<rparr>) })"

definition fid_set :: "'h fs_device \<Rightarrow> u32 \<Rightarrow> fptr \<Rightarrow> 'h v9p \<Rightarrow> 'h v9p option" where
  "fid_set D fid fd s =
     (case fid_find s fid of
        None \<Rightarrow> Some (s\<lparr>fid_list := (fid, fd) # fid_list s\<rparr>)
      | Some f \<Rightarrow> do { h \<leftarrow> op_delete D f (p9_fs s);
                     Some (s\<lparr>p9_fs := h, fid_list := AList.update fid fd (fid_list s)\<rparr>) })"

section \<open>Messages\<close>

text \<open>A value of a message, by the letter that stands for it in the format of \<open>marshall\<close> and \<open>unmarshall\<close>.\<close>

datatype p9val = P9b u8 | P9h u16 | P9w u32 | P9d u64 | P9s fname | P9Q fsqid

fun val_bytes :: "p9val \<Rightarrow> u8 list option" where
  "val_bytes (P9b v) = Some [v]"
| "val_bytes (P9h v) = Some (le_bytes 2 (unat v))"
| "val_bytes (P9w v) = Some (le_bytes 4 (unat v))"
| "val_bytes (P9d v) = Some (le_bytes 8 (unat v))"
| "val_bytes (P9s str) = (if length str \<le> 65535 then Some (le_bytes 2 (length str) @ str) else None)"
| "val_bytes (P9Q q) = Some (qid_type q # le_bytes 4 (unat (qid_version q)) @ le_bytes 8 (unat (qid_path q)))"

text \<open>The bytes written to a buffer of \<open>max_len\<close> bytes; a failed assertion is \<open>None\<close>.\<close>

fun marshall :: "nat \<Rightarrow> p9val list \<Rightarrow> u8 list option" where
  "marshall max_len [] = Some []"
| "marshall max_len (v # vs) =
     do { bs \<leftarrow> val_bytes v;
          if length bs > max_len then None
          else do { r \<leftarrow> marshall (max_len - length bs) vs; Some (bs @ r) } }"

text \<open>
  One value, read at \<open>offset\<close>: \<open>Some None\<close> is the return of -1. \<open>buf\<close> is the local buffer of 16 bytes, which
  keeps its old bytes where the copy leaves them. A C string ends at its first NUL.
\<close>

definition unmarshall_num :: "'a virtio_scheme \<Rightarrow> nat \<Rightarrow> u16 \<Rightarrow> int \<Rightarrow> u8 list \<Rightarrow> nat \<Rightarrow> (nat \<times> u8 list) option option" where
  "unmarshall_num s q d offset buf n =
     do { (r, buf) \<leftarrow> memcpy_from_queue s buf q d (word_of_int offset) (int n);
          Some (if r \<noteq> 0 then None else Some (le_val (take n buf), buf)) }"

definition unmarshall_str :: "malloc \<Rightarrow> 'a virtio_scheme \<Rightarrow> nat \<Rightarrow> u16 \<Rightarrow> int \<Rightarrow> u8 list \<Rightarrow> (fname \<times> int \<times> u8 list) option option" where
  "unmarshall_str fresh s q d offset buf =
     do { r \<leftarrow> unmarshall_num s q d offset buf 2;
          case r of None \<Rightarrow> Some None
          | Some (len, buf) \<Rightarrow> do {
              (r, str) \<leftarrow> memcpy_from_queue s (fresh (len + 1)) q d (word_of_int (offset + 2)) (int len);
              if r \<noteq> 0 then Some None
              else Some (Some (takeWhile (\<lambda>c. c \<noteq> 0) (take len str), offset + 2 + int len, buf)) } }"

definition unmarshall1 :: "malloc \<Rightarrow> 'a virtio_scheme \<Rightarrow> nat \<Rightarrow> u16 \<Rightarrow> char \<Rightarrow> int \<Rightarrow> u8 list \<Rightarrow> (p9val \<times> int \<times> u8 list) option option" where
  "unmarshall1 fresh s q d c offset buf =
     (if c = CHR ''b'' then map_option (map_option (\<lambda>(v, buf). (P9b (of_nat v), offset + 1, buf))) (unmarshall_num s q d offset buf 1)
      else if c = CHR ''h'' then map_option (map_option (\<lambda>(v, buf). (P9h (of_nat v), offset + 2, buf))) (unmarshall_num s q d offset buf 2)
      else if c = CHR ''w'' then map_option (map_option (\<lambda>(v, buf). (P9w (of_nat v), offset + 4, buf))) (unmarshall_num s q d offset buf 4)
      else if c = CHR ''d'' then map_option (map_option (\<lambda>(v, buf). (P9d (of_nat v), offset + 8, buf))) (unmarshall_num s q d offset buf 8)
      else if c = CHR ''s'' then map_option (map_option (\<lambda>(v, offset, buf). (P9s v, offset, buf))) (unmarshall_str fresh s q d offset buf)
      else None)"

fun unmarshall_loop :: "malloc \<Rightarrow> 'a virtio_scheme \<Rightarrow> nat \<Rightarrow> u16 \<Rightarrow> string \<Rightarrow> int \<Rightarrow> u8 list \<Rightarrow> (p9val list \<times> int) option option" where
  "unmarshall_loop fresh s q d [] offset buf = Some (Some ([], offset))"
| "unmarshall_loop fresh s q d (c # fmt) offset buf =
     do { r \<leftarrow> unmarshall1 fresh s q d c offset buf;
          case r of None \<Rightarrow> Some None
          | Some (v, offset, buf) \<Rightarrow>
              if \<not> int32_range offset then None
              else do { r \<leftarrow> unmarshall_loop fresh s q d fmt offset buf;
                        Some (map_option (\<lambda>(vs, offset). (v # vs, offset)) r) } }"

definition unmarshall :: "malloc \<Rightarrow> 'a virtio_scheme \<Rightarrow> nat \<Rightarrow> u16 \<Rightarrow> int \<Rightarrow> string \<Rightarrow> (p9val list \<times> int) option option" where
  "unmarshall fresh s q d offset fmt = unmarshall_loop fresh s q d fmt offset (fresh 16)"

definition virtio_9p_send_reply :: "nat \<Rightarrow> u16 \<Rightarrow> u8 \<Rightarrow> u16 \<Rightarrow> u8 list \<Rightarrow> 'a virtio_scheme \<Rightarrow> 'a virtio_scheme option" where
  "virtio_9p_send_reply q d op tag buf s =
     (let len = length buf + 7 in
      do { (_, s) \<leftarrow> memcpy_to_queue s q d 0 (le_bytes 4 len @ [op + 1] @ le_bytes 2 (unat tag) @ buf) (int len);
           virtio_consume_desc s q d (of_nat len) })"

definition virtio_9p_send_error :: "nat \<Rightarrow> u16 \<Rightarrow> u16 \<Rightarrow> int \<Rightarrow> 'a virtio_scheme \<Rightarrow> 'a virtio_scheme option" where
  "virtio_9p_send_error q d tag err s =
     do { buf \<leftarrow> marshall 4 [P9w (- word_of_int err)]; virtio_9p_send_reply q d 6 tag buf s }"

section \<open>Requests\<close>

text \<open>
  What a request ends with: a reply, an error code, or an open that has not finished. \<open>p9_args\<close> and \<open>p9_fid\<close> are
  the jumps to \<open>protocol_error\<close> and \<open>fid_not_found\<close>.
\<close>

datatype p9_reply = P9_reply "u8 list" | P9_error int | P9_pending

definition p9_args :: "malloc \<Rightarrow> 'h v9p \<Rightarrow> nat \<Rightarrow> u16 \<Rightarrow> int \<Rightarrow> string \<Rightarrow>
    (p9val list \<Rightarrow> int \<Rightarrow> (p9_reply \<times> 'h v9p) option) \<Rightarrow> (p9_reply \<times> 'h v9p) option" where
  "p9_args fresh s q d offset fmt k =
     do { r \<leftarrow> unmarshall fresh s q d offset fmt;
          case r of None \<Rightarrow> Some (P9_error (- P9_EPROTO), s) | Some (vs, offset) \<Rightarrow> k vs offset }"

definition p9_fid :: "'h v9p \<Rightarrow> u32 \<Rightarrow> (fptr \<Rightarrow> (p9_reply \<times> 'h v9p) option) \<Rightarrow> (p9_reply \<times> 'h v9p) option" where
  "p9_fid s fid k = (case fid_find s fid of None \<Rightarrow> Some (P9_error (- P9_EPROTO), s) | Some f \<Rightarrow> k f)"

definition p9_vals :: "p9val list \<Rightarrow> 'h v9p \<Rightarrow> (p9_reply \<times> 'h v9p) option" where
  "p9_vals vs s = do { buf \<leftarrow> marshall 1024 vs; Some (P9_reply buf, s) }"

text \<open>The end of an operation that gives nothing but its result code, and of one that gives a QID.\<close>

definition p9_end :: "int \<times> 'h \<Rightarrow> 'h v9p \<Rightarrow> (p9_reply \<times> 'h v9p) option" where
  "p9_end r s = (case r of (err, h) \<Rightarrow>
     Some (if err \<noteq> 0 then P9_error err else P9_reply [], s\<lparr>p9_fs := h\<rparr>))"

definition p9_end_qid :: "p9val list \<Rightarrow> int \<times> fsqid option \<times> 'h \<Rightarrow> 'h v9p \<Rightarrow> (p9_reply \<times> 'h v9p) option" where
  "p9_end_qid vs r s = (case r of (err, qid, h) \<Rightarrow>
     if err \<noteq> 0 then Some (P9_error err, s\<lparr>p9_fs := h\<rparr>)
     else do { qid \<leftarrow> qid; p9_vals (P9Q qid # vs) (s\<lparr>p9_fs := h\<rparr>) })"

text \<open>
  \<open>f_ffree\<close> is followed by two arguments of type \<open>int\<close>, the first of which the format reads as 64 bits: the last
  12 bytes are not determined where \<open>int\<close> has 32 bits.
\<close>

definition p9_statfs :: "malloc \<Rightarrow> 'h fs_device \<Rightarrow> 'h v9p \<Rightarrow> (p9_reply \<times> 'h v9p) option" where
  "p9_statfs fresh D s =
     (let st = op_statfs D (p9_fs s) in
      do { buf \<leftarrow> marshall 1024 [P9w 0, P9w (f_bsize st), P9d (f_blocks st), P9d (f_bfree st), P9d (f_bavail st),
                    P9d (f_files st), P9d (f_ffree st)];
           Some (P9_reply (buf @ fresh 12), s) })"

definition p9_open_result :: "int \<Rightarrow> fsqid option \<Rightarrow> 'h v9p \<Rightarrow> p9_reply option" where
  "p9_open_result err qid s =
     (if err < 0 then Some (P9_error err)
      else do { qid \<leftarrow> qid; buf \<leftarrow> marshall 32 [P9Q qid, P9w (msize s - 24)]; Some (P9_reply buf) })"

definition p9_lopen :: "'h fs_device \<Rightarrow> nat \<Rightarrow> u16 \<Rightarrow> u16 \<Rightarrow> u32 \<Rightarrow> u32 \<Rightarrow> 'h v9p \<Rightarrow> (p9_reply \<times> 'h v9p) option" where
  "p9_lopen D q d tag fid flags s =
     p9_fid s fid (\<lambda>f. do {
       (err, qid, h) \<leftarrow> op_open D f flags (p9_fs s);
       let s = s\<lparr>p9_fs := h\<rparr>;
       if err \<le> 0 then do { r \<leftarrow> p9_open_result err qid s; Some (r, s) }
       else Some (P9_pending, s\<lparr>p9_in_progress := True, open_info := Some (q, d, tag)\<rparr>) })"

definition p9_lcreate :: "'h fs_device \<Rightarrow> u32 \<Rightarrow> fname \<Rightarrow> u32 \<Rightarrow> u32 \<Rightarrow> u32 \<Rightarrow> 'h v9p \<Rightarrow> (p9_reply \<times> 'h v9p) option" where
  "p9_lcreate D fid name flags mode gid s =
     p9_fid s fid (\<lambda>f. do { r \<leftarrow> op_create D f name flags mode gid (p9_fs s); p9_end_qid [P9w (msize s - 24)] r s })"

definition p9_symlink :: "'h fs_device \<Rightarrow> u32 \<Rightarrow> fname \<Rightarrow> fname \<Rightarrow> u32 \<Rightarrow> 'h v9p \<Rightarrow> (p9_reply \<times> 'h v9p) option" where
  "p9_symlink D fid name symgt gid s =
     p9_fid s fid (\<lambda>f. do { r \<leftarrow> op_symlink D f name symgt gid (p9_fs s); p9_end_qid [] r s })"

definition p9_mknod :: "'h fs_device \<Rightarrow> u32 \<Rightarrow> fname \<Rightarrow> u32 \<Rightarrow> u32 \<Rightarrow> u32 \<Rightarrow> u32 \<Rightarrow> 'h v9p \<Rightarrow> (p9_reply \<times> 'h v9p) option" where
  "p9_mknod D fid name mode ma mi gid s =
     p9_fid s fid (\<lambda>f. do { r \<leftarrow> op_mknod D f name mode ma mi gid (p9_fs s); p9_end_qid [] r s })"

definition p9_readlink :: "'h fs_device \<Rightarrow> u32 \<Rightarrow> 'h v9p \<Rightarrow> (p9_reply \<times> 'h v9p) option" where
  "p9_readlink D fid s =
     p9_fid s fid (\<lambda>f. do {
       (err, str) \<leftarrow> op_readlink D 1024 f (p9_fs s);
       if err \<noteq> 0 then Some (P9_error err, s) else p9_vals [P9s str] s })"

definition p9_getattr :: "'h fs_device \<Rightarrow> u32 \<Rightarrow> u64 \<Rightarrow> 'h v9p \<Rightarrow> (p9_reply \<times> 'h v9p) option" where
  "p9_getattr D fid msk s =
     p9_fid s fid (\<lambda>f. do {
       (err, st) \<leftarrow> op_stat D f (p9_fs s);
       if err \<noteq> 0 then Some (P9_error err, s)
       else p9_vals [P9d msk, P9Q (st_qid st), P9w (st_mode st), P9w (st_uid st), P9w (st_gid st),
              P9d (st_nlink st), P9d (st_rdev st), P9d (st_size st), P9d (st_blksize st), P9d (st_blocks st),
              P9d (st_atime_sec st), P9d (ucast (st_atime_nsec st)), P9d (st_mtime_sec st), P9d (ucast (st_mtime_nsec st)),
              P9d (st_ctime_sec st), P9d (ucast (st_ctime_nsec st)), P9d 0, P9d 0, P9d 0, P9d 0] s })"

definition p9_setattr :: "'h fs_device \<Rightarrow> u32 \<Rightarrow> u32 \<Rightarrow> u32 \<Rightarrow> u32 \<Rightarrow> u32 \<Rightarrow> u64 \<Rightarrow> u64 \<Rightarrow> u64 \<Rightarrow> u64 \<Rightarrow> u64 \<Rightarrow> 'h v9p
    \<Rightarrow> (p9_reply \<times> 'h v9p) option" where
  "p9_setattr D fid msk mode uid gid sz a an mt mn s =
     p9_fid s fid (\<lambda>f. do { r \<leftarrow> op_setattr D f msk mode uid gid sz a an mt mn (p9_fs s); p9_end r s })"

text \<open>
  The reply of \<open>read\<close> and \<open>readdir\<close>: \<open>data\<close> is written behind the first 4 bytes of a buffer of \<open>count + 4\<close> bytes,
  a sum of 32 bits.
\<close>

definition p9_data_reply :: "malloc \<Rightarrow> u32 \<Rightarrow> int \<Rightarrow> u8 list \<Rightarrow> 'h v9p \<Rightarrow> (p9_reply \<times> 'h v9p) option" where
  "p9_data_reply fresh count n data s =
     (let room = unat (count + 4) in
      if data \<noteq> [] \<and> room < 4 + length data then None
      else if n < 0 then Some (P9_error n, s)
      else if room < 4 + nat n then None
      else Some (P9_reply (le_bytes 4 (nat n) @ take (nat n) (data @ drop (length data) (fresh (room - 4)))), s))"

definition p9_readdir :: "malloc \<Rightarrow> 'h fs_device \<Rightarrow> u32 \<Rightarrow> u64 \<Rightarrow> u32 \<Rightarrow> 'h v9p \<Rightarrow> (p9_reply \<times> 'h v9p) option" where
  "p9_readdir fresh D fid offs count s =
     p9_fid s fid (\<lambda>f. do {
       (n, data) \<leftarrow> op_readdir D f offs (sint count) (p9_fs s);
       p9_data_reply fresh count n data s })"

definition p9_read :: "malloc \<Rightarrow> 'h fs_device \<Rightarrow> u32 \<Rightarrow> u64 \<Rightarrow> u32 \<Rightarrow> 'h v9p \<Rightarrow> (p9_reply \<times> 'h v9p) option" where
  "p9_read fresh D fid offs count s =
     p9_fid s fid (\<lambda>f. do {
       (n, data, h) \<leftarrow> op_read D f offs (sint count) (p9_fs s);
       p9_data_reply fresh count n data (s\<lparr>p9_fs := h\<rparr>) })"

definition p9_write :: "malloc \<Rightarrow> 'h fs_device \<Rightarrow> nat \<Rightarrow> u16 \<Rightarrow> int \<Rightarrow> u32 \<Rightarrow> u64 \<Rightarrow> u32 \<Rightarrow> 'h v9p \<Rightarrow> (p9_reply \<times> 'h v9p) option" where
  "p9_write fresh D q d offset fid offs count s =
     p9_fid s fid (\<lambda>f. do {
       (r, buf1) \<leftarrow> memcpy_from_queue s (fresh (unat count)) q d (word_of_int offset) (sint count);
       if r \<noteq> 0 then Some (P9_error (- P9_EPROTO), s)
       else do {
         (n, h) \<leftarrow> op_write D f offs buf1 (sint count) (p9_fs s);
         let s = s\<lparr>p9_fs := h\<rparr>;
         if n < 0 then Some (P9_error n, s) else p9_vals [P9w (word_of_int n)] s } })"

definition p9_lock :: "'h fs_device \<Rightarrow> u32 \<Rightarrow> 'h v9p \<Rightarrow> (p9_reply \<times> 'h v9p) option" where
  "p9_lock D fid s =
     p9_fid s fid (\<lambda>f. do {
       err \<leftarrow> op_lock D f (p9_fs s);
       if err < 0 then Some (P9_error err, s) else p9_vals [P9b (word_of_int err)] s })"

text \<open>The reply of \<open>getlock\<close> is made of the addresses of the fields, the last of which \<open>marshall\<close> takes for a string.\<close>

definition p9_getlock :: "'h fs_device \<Rightarrow> u32 \<Rightarrow> 'h v9p \<Rightarrow> (p9_reply \<times> 'h v9p) option" where
  "p9_getlock D fid s =
     p9_fid s fid (\<lambda>f. do {
       err \<leftarrow> op_getlock D f (p9_fs s);
       if err < 0 then Some (P9_error err, s) else None })"

definition p9_link :: "'h fs_device \<Rightarrow> u32 \<Rightarrow> u32 \<Rightarrow> fname \<Rightarrow> 'h v9p \<Rightarrow> (p9_reply \<times> 'h v9p) option" where
  "p9_link D dfid fid name s =
     p9_fid s dfid (\<lambda>df. p9_fid s fid (\<lambda>f. do { r \<leftarrow> op_link D df f name (p9_fs s); p9_end r s }))"

definition p9_mkdir :: "'h fs_device \<Rightarrow> u32 \<Rightarrow> fname \<Rightarrow> u32 \<Rightarrow> u32 \<Rightarrow> 'h v9p \<Rightarrow> (p9_reply \<times> 'h v9p) option" where
  "p9_mkdir D fid name mode gid s =
     p9_fid s fid (\<lambda>f. do { r \<leftarrow> op_mkdir D f name mode gid (p9_fs s); p9_end_qid [] r s })"

definition p9_renameat :: "'h fs_device \<Rightarrow> u32 \<Rightarrow> fname \<Rightarrow> u32 \<Rightarrow> fname \<Rightarrow> 'h v9p \<Rightarrow> (p9_reply \<times> 'h v9p) option" where
  "p9_renameat D fid name new_fid new_name s =
     p9_fid s fid (\<lambda>f. p9_fid s new_fid (\<lambda>new_f. do {
       r \<leftarrow> op_renameat D f name new_f new_name (p9_fs s); p9_end r s }))"

definition p9_unlinkat :: "'h fs_device \<Rightarrow> u32 \<Rightarrow> fname \<Rightarrow> 'h v9p \<Rightarrow> (p9_reply \<times> 'h v9p) option" where
  "p9_unlinkat D fid name s =
     p9_fid s fid (\<lambda>f. do { r \<leftarrow> op_unlinkat D f name (p9_fs s); p9_end r s })"

definition p9_version :: "u32 \<Rightarrow> 'h v9p \<Rightarrow> (p9_reply \<times> 'h v9p) option" where
  "p9_version m s =
     (let s = s\<lparr>msize := m\<rparr> in p9_vals [P9w (msize s), P9s (map of_char ''9P2000.L'')] s)"

definition p9_attach :: "'h fs_device \<Rightarrow> u32 \<Rightarrow> fname \<Rightarrow> fname \<Rightarrow> u32 \<Rightarrow> 'h v9p \<Rightarrow> (p9_reply \<times> 'h v9p) option" where
  "p9_attach D fid uname aname uid s =
     do { (err, f, qid, h) \<leftarrow> op_attach D uid uname aname (p9_fs s);
          let s = s\<lparr>p9_fs := h\<rparr>;
          if err \<noteq> 0 then Some (P9_error err, s)
          else do { s \<leftarrow> fid_set D fid f s; p9_vals [P9Q qid] s } }"

fun unmarshall_names :: "malloc \<Rightarrow> 'a virtio_scheme \<Rightarrow> nat \<Rightarrow> u16 \<Rightarrow> int \<Rightarrow> nat \<Rightarrow> fname list option option" where
  "unmarshall_names fresh s q d offset 0 = Some (Some [])"
| "unmarshall_names fresh s q d offset (Suc n) =
     do { r \<leftarrow> unmarshall fresh s q d offset ''s'';
          case r of
            Some ([P9s name], offset) \<Rightarrow>
              do { r \<leftarrow> unmarshall_names fresh s q d offset n; Some (map_option (\<lambda>names. name # names) r) }
          | _ \<Rightarrow> Some None }"

definition p9_walk :: "malloc \<Rightarrow> 'h fs_device \<Rightarrow> nat \<Rightarrow> u16 \<Rightarrow> int \<Rightarrow> u32 \<Rightarrow> u32 \<Rightarrow> u16 \<Rightarrow> 'h v9p \<Rightarrow> (p9_reply \<times> 'h v9p) option" where
  "p9_walk fresh D q d offset fid newfid nwname s =
     p9_fid s fid (\<lambda>f. do {
       names \<leftarrow> unmarshall_names fresh s q d offset (unat nwname);
       case names of None \<Rightarrow> Some (P9_error (- P9_EPROTO), s)
       | Some names \<Rightarrow> do {
           (err, f, qids, h) \<leftarrow> op_walk D f names (p9_fs s);
           let s = s\<lparr>p9_fs := h\<rparr>;
           if err < 0 then Some (P9_error err, s)
           else if length qids < nat err then None
           else do {
             buf \<leftarrow> marshall 1024 (P9h (word_of_int err) # map P9Q (take (nat err) qids));
             s \<leftarrow> fid_set D newfid f s;
             Some (P9_reply buf, s) } } })"

definition p9_clunk :: "'h fs_device \<Rightarrow> u32 \<Rightarrow> 'h v9p \<Rightarrow> (p9_reply \<times> 'h v9p) option" where
  "p9_clunk D fid s = do { s \<leftarrow> fid_delete D fid s; Some (P9_reply [], s) }"

section \<open>The handler\<close>

text \<open>The request \<open>op\<close>, with its arguments from \<open>offset\<close> on.\<close>

definition p9_dispatch :: "malloc \<Rightarrow> 'h fs_device \<Rightarrow> nat \<Rightarrow> u16 \<Rightarrow> u16 \<Rightarrow> u8 \<Rightarrow> int \<Rightarrow> 'h v9p \<Rightarrow> (p9_reply \<times> 'h v9p) option" where
  "p9_dispatch fresh D q d tag op offset s =
     (let args = p9_args fresh s q d offset in
      if op = 8 then p9_statfs fresh D s
      else if op = 12 then args ''ww'' (\<lambda>vs offset. case vs of
          [P9w fid, P9w flags] \<Rightarrow> p9_lopen D q d tag fid flags s | _ \<Rightarrow> None)
      else if op = 14 then args ''wswww'' (\<lambda>vs offset. case vs of
          [P9w fid, P9s name, P9w flags, P9w mode, P9w gid] \<Rightarrow> p9_lcreate D fid name flags mode gid s | _ \<Rightarrow> None)
      else if op = 16 then args ''wssw'' (\<lambda>vs offset. case vs of
          [P9w fid, P9s name, P9s symgt, P9w gid] \<Rightarrow> p9_symlink D fid name symgt gid s | _ \<Rightarrow> None)
      else if op = 18 then args ''wswwww'' (\<lambda>vs offset. case vs of
          [P9w fid, P9s name, P9w mode, P9w ma, P9w mi, P9w gid] \<Rightarrow> p9_mknod D fid name mode ma mi gid s | _ \<Rightarrow> None)
      else if op = 22 then args ''w'' (\<lambda>vs offset. case vs of
          [P9w fid] \<Rightarrow> p9_readlink D fid s | _ \<Rightarrow> None)
      else if op = 24 then args ''wd'' (\<lambda>vs offset. case vs of
          [P9w fid, P9d msk] \<Rightarrow> p9_getattr D fid msk s | _ \<Rightarrow> None)
      else if op = 26 then args ''wwwwwddddd'' (\<lambda>vs offset. case vs of
          [P9w fid, P9w msk, P9w mode, P9w uid, P9w gid, P9d sz, P9d a, P9d an, P9d mt, P9d mn] \<Rightarrow> p9_setattr D fid msk mode uid gid sz a an mt mn s | _ \<Rightarrow> None)
      else if op = 30 then Some (P9_error (- P9_ENOTSUP), s)
      else if op = 40 then args ''wdw'' (\<lambda>vs offset. case vs of
          [P9w fid, P9d offs, P9w count] \<Rightarrow> p9_readdir fresh D fid offs count s | _ \<Rightarrow> None)
      else if op = 50 then args ''w'' (\<lambda>vs offset. case vs of
          [P9w fid] \<Rightarrow> Some (P9_reply [], s) | _ \<Rightarrow> None)
      else if op = 52 then args ''wbwddws'' (\<lambda>vs offset. case vs of
          [P9w fid, P9b ty, P9w flags, P9d start, P9d len, P9w pid, P9s client] \<Rightarrow> p9_lock D fid s | _ \<Rightarrow> None)
      else if op = 54 then args ''wbddws'' (\<lambda>vs offset. case vs of
          [P9w fid, P9b ty, P9d start, P9d len, P9w pid, P9s client] \<Rightarrow> p9_getlock D fid s | _ \<Rightarrow> None)
      else if op = 70 then args ''wws'' (\<lambda>vs offset. case vs of
          [P9w dfid, P9w fid, P9s name] \<Rightarrow> p9_link D dfid fid name s | _ \<Rightarrow> None)
      else if op = 72 then args ''wsww'' (\<lambda>vs offset. case vs of
          [P9w fid, P9s name, P9w mode, P9w gid] \<Rightarrow> p9_mkdir D fid name mode gid s | _ \<Rightarrow> None)
      else if op = 74 then args ''wsws'' (\<lambda>vs offset. case vs of
          [P9w fid, P9s name, P9w new_fid, P9s new_name] \<Rightarrow> p9_renameat D fid name new_fid new_name s | _ \<Rightarrow> None)
      else if op = 76 then args ''wsw'' (\<lambda>vs offset. case vs of
          [P9w fid, P9s name, P9w flags] \<Rightarrow> p9_unlinkat D fid name s | _ \<Rightarrow> None)
      else if op = 100 then args ''ws'' (\<lambda>vs offset. case vs of
          [P9w m, P9s ver] \<Rightarrow> p9_version m s | _ \<Rightarrow> None)
      else if op = 104 then args ''wwssw'' (\<lambda>vs offset. case vs of
          [P9w fid, P9w afid, P9s uname, P9s aname, P9w uid] \<Rightarrow> p9_attach D fid uname aname uid s | _ \<Rightarrow> None)
      else if op = 108 then args ''h'' (\<lambda>vs offset. case vs of
          [P9h oldtag] \<Rightarrow> Some (P9_reply [], s) | _ \<Rightarrow> None)
      else if op = 110 then args ''wwh'' (\<lambda>vs offset. case vs of
          [P9w fid, P9w newfid, P9h nwname] \<Rightarrow> p9_walk fresh D q d offset fid newfid nwname s | _ \<Rightarrow> None)
      else if op = 116 then args ''wdw'' (\<lambda>vs offset. case vs of
          [P9w fid, P9d offs, P9w count] \<Rightarrow> p9_read fresh D fid offs count s | _ \<Rightarrow> None)
      else if op = 118 then args ''wdw'' (\<lambda>vs offset. case vs of
          [P9w fid, P9d offs, P9w count] \<Rightarrow> p9_write fresh D q d offset fid offs count s | _ \<Rightarrow> None)
      else if op = 120 then args ''w'' (\<lambda>vs offset. case vs of
          [P9w fid] \<Rightarrow> p9_clunk D fid s | _ \<Rightarrow> None)
      else Some (P9_error (- P9_EPROTO), s))"

definition p9_send :: "nat \<Rightarrow> u16 \<Rightarrow> u8 \<Rightarrow> u16 \<Rightarrow> p9_reply \<Rightarrow> 'h v9p \<Rightarrow> 'h v9p option" where
  "p9_send q d op tag r s =
     (case r of P9_reply buf \<Rightarrow> virtio_9p_send_reply q d op tag buf s
      | P9_error err \<Rightarrow> virtio_9p_send_error q d tag err s
      | P9_pending \<Rightarrow> Some s)"

definition virtio_9p_recv_request :: "malloc \<Rightarrow> 'h fs_device \<Rightarrow> ('h, unit) v9p_ext recv_fn" where
  "virtio_9p_recv_request fresh D queue_idx desc_idx read_size write_size s =
     (if queue_idx \<noteq> 0 then Some (0, s)
      else if p9_in_progress s then Some (- 1, s)
      else do {
        (r, buf) \<leftarrow> memcpy_from_queue s (fresh 1024) queue_idx desc_idx 0 7;
        if r \<noteq> 0 then do { s \<leftarrow> virtio_9p_send_error queue_idx desc_idx 0 (- P9_EPROTO) s; Some (0, s) }
        else do {
          let op = buf ! 4;
          let tag = (of_nat (le_val (take 2 (drop 5 buf))) :: u16);
          (r, s) \<leftarrow> p9_dispatch fresh D queue_idx desc_idx tag op 7 s;
          s \<leftarrow> p9_send queue_idx desc_idx op tag r s;
          Some (0, s) } })"

text \<open>The callback of an open that the file system has finished.\<close>

definition virtio_9p_open_reply :: "nat \<Rightarrow> u16 \<Rightarrow> u16 \<Rightarrow> int \<Rightarrow> fsqid option \<Rightarrow> 'h v9p \<Rightarrow> 'h v9p option" where
  "virtio_9p_open_reply q d tag err qid s = do { r \<leftarrow> p9_open_result err qid s; p9_send q d 12 tag r s }"

definition virtio_9p_open_cb :: "malloc \<Rightarrow> 'h fs_device \<Rightarrow> fsqid option \<Rightarrow> int \<Rightarrow> 'h v9p \<Rightarrow> 'h v9p option" where
  "virtio_9p_open_cb fresh D qid err s =
     do { (q, d, tag) \<leftarrow> open_info s;
          s \<leftarrow> virtio_9p_open_reply q d tag err qid s;
          queue_notify (virtio_9p_recv_request fresh D) q (s\<lparr>p9_in_progress := False, open_info := None\<rparr>) }"

definition virtio_9p_init :: "mem_map_t \<Rightarrow> u64 \<Rightarrow> nat \<Rightarrow> u8 list \<Rightarrow> 'h \<Rightarrow> 'h v9p option" where
  "virtio_9p_init mm bus_addr dev_num mount_tag h =
     do { let len = length mount_tag;
          v \<leftarrow> virtio_init mm bus_addr dev_num 9 (of_nat (2 + len));
          if 2 + len > MAX_CONFIG_SPACE_SIZE then None
          else do {
            let v = set_config (v\<lparr>device_features := 1\<rparr>)
              ([of_nat len, of_nat (len div 256)] @ mount_tag @ drop (2 + len) (config_space v));
            Some (virtio.extend v (v9p.fields h 8192 [] False None)) } }"

end
