(* ===== verification/Virtio_9p_Props.thy ===== *)
theory Virtio_9p_Props
  imports Virtio_9p Virtio_Reach Virtio_Chain
begin

text \<open>
  The 9P device: the table of fids owns the files of the file system, in every state the device can reach, and what
  the guest marshals in a message is what the device reads.
\<close>

section \<open>The rest of the device\<close>

lemma truncate_upd [simp]:
  "virtio.truncate (s\<lparr>p9_fs := h\<rparr>) = virtio.truncate s" "virtio.truncate (s\<lparr>msize := m\<rparr>) = virtio.truncate s"
  "virtio.truncate (s\<lparr>fid_list := l\<rparr>) = virtio.truncate s" "virtio.truncate (s\<lparr>p9_in_progress := b\<rparr>) = virtio.truncate s"
  "virtio.truncate (s\<lparr>open_info := oi\<rparr>) = virtio.truncate s"
  by (simp_all add: virtio.truncate_def)

text \<open>A handler before it answers: nothing but the part of the 9P device changes.\<close>

definition own_only :: "'h v9p \<Rightarrow> (p9_reply \<times> 'h v9p) option \<Rightarrow> bool" where
  "own_only s m \<longleftrightarrow> (\<forall>r s'. m = Some (r, s') \<longrightarrow> virtio.truncate s' = virtio.truncate s)"

lemma fid_truncate:
  "fid_set D fid f s = Some s' \<Longrightarrow> virtio.truncate s' = virtio.truncate s"
  "fid_delete D fid s = Some s' \<Longrightarrow> virtio.truncate s' = virtio.truncate s"
  by (auto simp: fid_set_def fid_delete_def bind_Some_conv split: option.splits)

lemma lopen_result:
  assumes "p9_lopen D q d tag fid fl s = Some (r, s')"
  shows "s' = s \<or> (\<exists>f err qid h. op_open D f fl (p9_fs s) = Some (err, qid, h) \<and>
    (s' = s\<lparr>p9_fs := h\<rparr> \<or> s' = s\<lparr>p9_fs := h, p9_in_progress := True, open_info := Some (q, d, tag)\<rparr>))"
proof (cases "fid_find s fid")
  case None
  then show ?thesis using assms by (simp add: p9_lopen_def p9_fid_def)
next
  case (Some f)
  then obtain err qid h where h: "op_open D f fl (p9_fs s) = Some (err, qid, h)"
    using assms by (auto simp: p9_lopen_def p9_fid_def bind_Some_conv)
  then have "s' = s\<lparr>p9_fs := h\<rparr> \<or> s' = s\<lparr>p9_fs := h, p9_in_progress := True, open_info := Some (q, d, tag)\<rparr>"
    using assms Some by (cases "err \<le> 0") (auto simp: p9_lopen_def p9_fid_def Let_def bind_Some_conv)
  then show ?thesis using h by blast
qed

lemma lopen_own: "own_only s (p9_lopen D q d tag fid fl s)"
  using lopen_result by (fastforce simp: own_only_def)

lemma op_own:
  "own_only s (p9_lcreate D fid nm fl m gid s)"
  "own_only s (p9_symlink D fid nm tgt gid s)" "own_only s (p9_mknod D fid nm m ma mi gid s)"
  "own_only s (p9_readlink D fid s)" "own_only s (p9_getattr D fid gm s)"
  "own_only s (p9_setattr D fid msk m uid gid sz a an mt mn s)" "own_only s (p9_readdir fresh D fid offs count s)"
  "own_only s (p9_lock D fid s)" "own_only s (p9_getlock D fid s)" "own_only s (p9_mkdir D fid nm m gid s)"
  "own_only s (p9_unlinkat D fid nm s)" "own_only s (p9_link D dfid fid nm s)" "own_only s (p9_renameat D fid nm fid' nm' s)"
  "own_only s (p9_read fresh D fid offs count s)" "own_only s (p9_write fresh D q d offset fid offs count s)"
  "own_only s (p9_version ms s)" "own_only s (p9_attach D fid unm anm uid s)" "own_only s (p9_clunk D fid s)"
  "own_only s (p9_statfs fresh D s)" "own_only s (p9_walk fresh D q d offset fid newfid nw s)"
  by (auto simp: p9_lcreate_def p9_symlink_def p9_mknod_def p9_readlink_def p9_getattr_def p9_setattr_def
    p9_readdir_def p9_lock_def p9_getlock_def p9_mkdir_def p9_unlinkat_def p9_link_def p9_renameat_def p9_read_def p9_write_def
    p9_version_def p9_attach_def p9_clunk_def p9_statfs_def p9_walk_def
    own_only_def p9_fid_def p9_vals_def p9_end_def p9_end_qid_def p9_data_reply_def Let_def bind_Some_conv
    dest!: fid_truncate split: if_splits option.splits)

lemma dispatch_own: "own_only s (p9_dispatch fresh D q d tag op offset s)"
proof -
  have ifs: "own_only s (if c then a else b)" if "own_only s a" "own_only s b" for c and a b :: "(p9_reply \<times> 'a v9p) option"
    using that by simp
  have args: "own_only s (p9_args fresh s q d offset fmt k)" if "\<And>vs off. own_only s (k vs off)" for fmt k
    using that by (auto simp: own_only_def p9_args_def bind_Some_conv split: option.splits)
  have base: "own_only s None" "own_only s (Some (r, s))" for r by (simp_all add: own_only_def)
  show ?thesis
    unfolding p9_dispatch_def Let_def
    by (intro ifs args) (auto intro: lopen_own op_own base split: list.split p9val.split)
qed

lemma own_only_step:
  assumes "own_only s m" and "m = Some (r, s')" and "v_wf s"
  shows "v_step s s'"
proof -
  have "virtio.truncate s' = virtio.truncate s" using assms(1,2) by (simp add: own_only_def)
  then have "mem_map s' = mem_map s" "queue s' = queue s" "queue_sel s' = queue_sel s" "config_space s' = config_space s"
    "config_space_size s' = config_space_size s" "irq s' = irq s" "int_status s' = int_status s"
    by (simp_all add: virtio.truncate_def)
  then show ?thesis using assms(3) by (simp add: v_step_def v_wf_def)
qed

section \<open>The table of fids\<close>

definition fids_ok :: "('h \<Rightarrow> bool) \<Rightarrow> ('h \<Rightarrow> fptr set) \<Rightarrow> 'h v9p \<Rightarrow> bool" where
  "fids_ok ok live s \<longleftrightarrow> ok (p9_fs s) \<and> distinct (map fst (fid_list s)) \<and> distinct (map snd (fid_list s)) \<and>
     snd ` set (fid_list s) = live (p9_fs s)"

lemma update_file:
  assumes "map_of xs k = Some g" and "distinct (map fst xs)" and "distinct (map snd xs)" and "f \<notin> snd ` set xs"
  shows "distinct (map snd (AList.update k f xs)) \<and> snd ` set (AList.update k f xs) = insert f (snd ` set xs - {g})"
  using assms
proof (induction xs)
  case (Cons x xs)
  show ?case
  proof (cases "fst x = k")
    case True
    then have "AList.update k f (x # xs) = (k, f) # xs" by (cases x) simp
    then show ?thesis using Cons(2-5) True by (cases x) auto
  next
    case False
    then have u: "AList.update k f (x # xs) = x # AList.update k f xs" by (cases x) simp
    have m: "map_of xs k = Some g" using Cons(2) False by (cases x) auto
    then have g: "g \<in> snd ` set xs" by (auto simp: image_iff dest!: map_of_SomeD intro: bexI [of _ "(k, g)"])
    have ih: "distinct (map snd (AList.update k f xs)) \<and> snd ` set (AList.update k f xs) = insert f (snd ` set xs - {g})"
      by (rule Cons(1)) (use m Cons(3-5) in auto)
    moreover have "snd x \<noteq> f" "snd x \<notin> snd ` set xs" using Cons(4,5) by auto
    ultimately show ?thesis using u g by auto
  qed
qed simp

lemma remove_file:
  assumes "map_of xs k = Some g" and "distinct (map snd xs)"
  shows "snd ` set (remove1 (k, g) xs) = snd ` set xs - {g}"
proof -
  have m: "(k, g) \<in> set xs" using assms(1) by (rule map_of_SomeD)
  have d: "distinct xs" using assms(2) by (simp add: distinct_map)
  have "snd y \<noteq> g" if "y \<in> set xs" "y \<noteq> (k, g)" for y
    using assms(2) m that by (auto simp: distinct_map inj_on_def)
  then show ?thesis using m by (auto simp: set_remove1_eq [OF d] image_iff)
qed

lemma distinct_map_remove1: "distinct (map h xs) \<Longrightarrow> distinct (map h (remove1 x xs))"
  by (meson distinct_map distinct_remove1 inj_on_subset set_remove1_subset)

context file_server
begin

abbreviation "kept s \<equiv> fids_ok ok live s"

lemma step_same:
  assumes "fids_ok ok live s" and "same_files ok live (p9_fs s) h"
  shows "kept (s\<lparr>p9_fs := h\<rparr>)" "kept (s\<lparr>p9_fs := h, p9_in_progress := b, open_info := oi\<rparr>)"
  using assms by (simp_all add: fids_ok_def same_files_def)

lemma delete_step:
  assumes "fids_ok ok live s" and "fid_delete D fid s = Some s'"
  shows "kept s'"
proof (cases "fid_find s fid")
  case None
  then show ?thesis using assms by (simp add: fid_delete_def)
next
  case (Some f)
  obtain h where h: "op_delete D f (p9_fs s) = Some h"
    and s': "s' = s\<lparr>p9_fs := h, fid_list := remove1 (fid, f) (fid_list s)\<rparr>"
    using assms(2) Some by (auto simp: fid_delete_def bind_Some_conv)
  have "map_of (fid_list s) fid = Some f" using Some by (simp add: fid_find_def)
  then show ?thesis using assms(1) fdelete [OF _ h] remove_file [of "fid_list s" fid f]
    by (simp add: fids_ok_def s' distinct_map_remove1)
qed

lemma set_step:
  assumes "fids_ok ok live s" and "new_file ok live f (p9_fs s) h" and "fid_set D fid f (s\<lparr>p9_fs := h\<rparr>) = Some s'"
  shows "kept s'"
proof (cases "fid_find s fid")
  case None
  then have "fid \<notin> fst ` set (fid_list s)" by (simp add: fid_find_def map_of_eq_None_iff)
  moreover have "s' = s\<lparr>p9_fs := h, fid_list := (fid, f) # fid_list s\<rparr>"
    using assms(3) None by (simp add: fid_set_def fid_find_def)
  ultimately show ?thesis using assms(1,2) by (simp add: fids_ok_def new_file_def)
next
  case (Some g)
  then have g: "map_of (fid_list s) fid = Some g" by (simp add: fid_find_def)
  obtain h' where h': "op_delete D g h = Some h'"
    and s': "s' = s\<lparr>p9_fs := h', fid_list := AList.update fid f (fid_list s)\<rparr>"
    using assms(3) Some by (auto simp: fid_set_def fid_find_def bind_Some_conv)
  have "f \<notin> snd ` set (fid_list s)" using assms(1,2) by (simp add: fids_ok_def new_file_def)
  moreover have "g \<in> live (p9_fs s)" using assms(1) map_of_SomeD [OF g] by (force simp: fids_ok_def)
  ultimately show ?thesis
    using assms(1,2) fdelete [OF _ h'] update_file [OF g, of f] distinct_update [of "fid_list s" fid f]
    by (auto simp: fids_ok_def s' new_file_def)
qed

lemma fid_step:
  assumes "p9_fid s fid k = Some (r, s')" and "fids_ok ok live s" and "\<And>f. k f = Some (r, s') \<Longrightarrow> kept s'"
  shows "kept s'"
  using assms by (auto simp: p9_fid_def split: option.splits)

lemma end_step:
  assumes "fids_ok ok live s"
  shows "p9_end (err, h) s = Some (r, s') \<Longrightarrow> same_files ok live (p9_fs s) h \<Longrightarrow> kept s'"
    and "p9_end_qid vs (err, qo, h) s = Some (r, s') \<Longrightarrow> same_files ok live (p9_fs s) h \<Longrightarrow> kept s'"
  using step_same(1) [OF assms] by (auto simp: p9_end_def p9_end_qid_def p9_vals_def bind_Some_conv split: if_splits)

lemma data_step: "fids_ok ok live s \<Longrightarrow> p9_data_reply fresh count n data s = Some (r, s') \<Longrightarrow> s' = s"
  by (auto simp: p9_data_reply_def Let_def split: if_splits)

lemma op_steps:
  assumes ok: "fids_ok ok live s"
  shows "p9_lopen D q d tag fid fl s = Some (r, s') \<Longrightarrow> kept s'"
    and "p9_lcreate D fid nm fl m gid s = Some (r, s') \<Longrightarrow> kept s'"
    and "p9_symlink D fid nm tgt gid s = Some (r, s') \<Longrightarrow> kept s'"
    and "p9_mknod D fid nm m ma mi gid s = Some (r, s') \<Longrightarrow> kept s'"
    and "p9_readlink D fid s = Some (r, s') \<Longrightarrow> kept s'"
    and "p9_getattr D fid gm s = Some (r, s') \<Longrightarrow> kept s'"
    and "p9_setattr D fid msk m uid gid sz a an mt mn s = Some (r, s') \<Longrightarrow> kept s'"
    and "p9_readdir fresh D fid off count s = Some (r, s') \<Longrightarrow> kept s'"
    and "p9_lock D fid s = Some (r, s') \<Longrightarrow> kept s'"
    and "p9_getlock D fid s = Some (r, s') \<Longrightarrow> kept s'"
    and "p9_mkdir D fid nm m gid s = Some (r, s') \<Longrightarrow> kept s'"
    and "p9_unlinkat D fid nm s = Some (r, s') \<Longrightarrow> kept s'"
proof -
  note o = conjunct1 [OF ok [unfolded fids_ok_def]]
  show "kept s'" if "p9_lopen D q d tag fid fl s = Some (r, s')"
    using lopen_result [OF that] lopen [OF o] step_same [OF ok] ok by blast
  show "kept s'" if "p9_lcreate D fid nm fl m gid s = Some (r, s')"
    by (rule fid_step [OF that [unfolded p9_lcreate_def] ok]) (use lcreate [OF o] end_step [OF ok] in \<open>auto simp: bind_Some_conv\<close>)
  show "kept s'" if "p9_symlink D fid nm tgt gid s = Some (r, s')"
    by (rule fid_step [OF that [unfolded p9_symlink_def] ok]) (use symlink [OF o] end_step [OF ok] in \<open>auto simp: bind_Some_conv\<close>)
  show "kept s'" if "p9_mknod D fid nm m ma mi gid s = Some (r, s')"
    by (rule fid_step [OF that [unfolded p9_mknod_def] ok]) (use mknod [OF o] end_step [OF ok] in \<open>auto simp: bind_Some_conv\<close>)
  show "kept s'" if "p9_readlink D fid s = Some (r, s')"
    by (rule fid_step [OF that [unfolded p9_readlink_def] ok])
      (use ok in \<open>auto simp: p9_vals_def bind_Some_conv split: if_splits\<close>)
  show "kept s'" if "p9_getattr D fid gm s = Some (r, s')"
    by (rule fid_step [OF that [unfolded p9_getattr_def] ok])
      (use ok in \<open>auto simp: p9_vals_def bind_Some_conv split: if_splits\<close>)
  show "kept s'" if "p9_setattr D fid msk m uid gid sz a an mt mn s = Some (r, s')"
    by (rule fid_step [OF that [unfolded p9_setattr_def] ok]) (use setattr [OF o] end_step [OF ok] in \<open>auto simp: bind_Some_conv\<close>)
  show "kept s'" if "p9_readdir fresh D fid off count s = Some (r, s')"
    by (rule fid_step [OF that [unfolded p9_readdir_def] ok])
      (use ok in \<open>auto simp: bind_Some_conv dest!: data_step [OF ok]\<close>)
  show "kept s'" if "p9_lock D fid s = Some (r, s')"
    by (rule fid_step [OF that [unfolded p9_lock_def] ok])
      (use ok in \<open>auto simp: p9_vals_def bind_Some_conv split: if_splits\<close>)
  show "kept s'" if "p9_getlock D fid s = Some (r, s')"
    by (rule fid_step [OF that [unfolded p9_getlock_def] ok])
      (use ok in \<open>auto simp: bind_Some_conv split: if_splits\<close>)
  show "kept s'" if "p9_mkdir D fid nm m gid s = Some (r, s')"
    by (rule fid_step [OF that [unfolded p9_mkdir_def] ok]) (use mkdir [OF o] end_step [OF ok] in \<open>auto simp: bind_Some_conv\<close>)
  show "kept s'" if "p9_unlinkat D fid nm s = Some (r, s')"
    by (rule fid_step [OF that [unfolded p9_unlinkat_def] ok]) (use unlinkat [OF o] end_step [OF ok] in \<open>auto simp: bind_Some_conv\<close>)
qed

lemma op_steps2:
  assumes ok: "fids_ok ok live s"
  shows "p9_link D dfid fid nm s = Some (r, s') \<Longrightarrow> kept s'"
    and "p9_renameat D fid nm fid' nm' s = Some (r, s') \<Longrightarrow> kept s'"
    and "p9_read fresh D fid off count s = Some (r, s') \<Longrightarrow> kept s'"
    and "p9_write fresh D q d offset fid off count s = Some (r, s') \<Longrightarrow> kept s'"
    and "p9_version m s = Some (r, s') \<Longrightarrow> kept s'"
    and "p9_attach D fid unm anm uid s = Some (r, s') \<Longrightarrow> kept s'"
    and "p9_walk fresh D q d offset fid newfid nw s = Some (r, s') \<Longrightarrow> kept s'"
    and "p9_clunk D fid s = Some (r, s') \<Longrightarrow> kept s'"
    and "p9_statfs fresh D s = Some (r, s') \<Longrightarrow> kept s'"
proof -
  note o = conjunct1 [OF ok [unfolded fids_ok_def]]
  show "kept s'" if "p9_link D dfid fid nm s = Some (r, s')"
    by (rule fid_step [OF that [unfolded p9_link_def] ok], erule fid_step [OF _ ok])
      (use flink [OF o] end_step [OF ok] in \<open>auto simp: bind_Some_conv\<close>)
  show "kept s'" if "p9_renameat D fid nm fid' nm' s = Some (r, s')"
    by (rule fid_step [OF that [unfolded p9_renameat_def] ok], erule fid_step [OF _ ok])
      (use renameat [OF o] end_step [OF ok] in \<open>auto simp: bind_Some_conv\<close>)
  show "kept s'" if "p9_read fresh D fid off count s = Some (r, s')"
  proof (rule fid_step [OF that [unfolded p9_read_def] ok])
    fix f assume "do { (n, data, h) \<leftarrow> op_read D f off (sint count) (p9_fs s);
        p9_data_reply fresh count n data (s\<lparr>p9_fs := h\<rparr>) } = Some (r, s')"
    then obtain n data h where h: "op_read D f off (sint count) (p9_fs s) = Some (n, data, h)"
      and p: "p9_data_reply fresh count n data (s\<lparr>p9_fs := h\<rparr>) = Some (r, s')" by (auto simp: bind_Some_conv)
    have st: "kept (s\<lparr>p9_fs := h\<rparr>)" by (rule step_same(1) [OF ok fread [OF o h]])
    then have "s' = s\<lparr>p9_fs := h\<rparr>" by (intro data_step [OF _ p])
    then show "kept s'" using st by simp
  qed
  show "kept s'" if "p9_write fresh D q d offset fid off count s = Some (r, s')"
    by (rule fid_step [OF that [unfolded p9_write_def] ok])
      (use fwrite [OF o] step_same(1) [OF ok] ok in
        \<open>auto simp: Let_def p9_vals_def bind_Some_conv split: if_splits\<close>)
  show "kept s'" if "p9_version m s = Some (r, s')"
  proof -
    have "s' = s\<lparr>msize := m\<rparr>" using that by (auto simp: p9_version_def p9_vals_def Let_def bind_Some_conv)
    then show ?thesis using ok by (simp add: fids_ok_def)
  qed
  show "kept s'" if a: "p9_attach D fid unm anm uid s = Some (r, s')"
  proof -
    obtain err f q h where h: "op_attach D uid unm anm (p9_fs s) = Some (err, f, q, h)"
      using a by (auto simp: p9_attach_def bind_Some_conv)
    show ?thesis using attach [OF o h] a h step_same(1) [OF ok] set_step [OF ok]
      by (auto simp: p9_attach_def p9_vals_def bind_Some_conv Let_def split: if_splits)
  qed
  show "kept s'" if "p9_walk fresh D q d offset fid newfid nw s = Some (r, s')"
  proof (rule fid_step [OF that [unfolded p9_walk_def] ok])
    fix f assume w: "do { names \<leftarrow> unmarshall_names fresh s q d offset (unat nw);
       case names of None \<Rightarrow> Some (P9_error (- P9_EPROTO), s)
       | Some names \<Rightarrow> do {
           (err, f, qids, h) \<leftarrow> op_walk D f names (p9_fs s);
           let s = s\<lparr>p9_fs := h\<rparr>;
           if err < 0 then Some (P9_error err, s)
           else if length qids < nat err then None
           else do {
             buf \<leftarrow> marshall 1024 (P9h (word_of_int err) # map P9Q (take (nat err) qids));
             s \<leftarrow> fid_set D newfid f s;
             Some (P9_reply buf, s) } } } = Some (r, s')"
    show "kept s'"
    proof (cases "unmarshall_names fresh s q d offset (unat nw) = Some None")
      case True
      then show ?thesis using w ok by simp
    next
      case False
      then obtain names err f' qids h where n: "unmarshall_names fresh s q d offset (unat nw) = Some (Some names)"
        and h: "op_walk D f names (p9_fs s) = Some (err, f', qids, h)"
        using w by (auto simp: bind_Some_conv split: option.splits)
      show ?thesis using walk [OF o h] w n h step_same(1) [OF ok] set_step [OF ok]
        by (auto simp: bind_Some_conv Let_def split: if_splits)
    qed
  qed
  show "kept s'" if "p9_clunk D fid s = Some (r, s')"
    using that delete_step [OF ok] by (auto simp: p9_clunk_def bind_Some_conv)
  show "kept s'" if "p9_statfs fresh D s = Some (r, s')"
    using that ok by (auto simp: p9_statfs_def Let_def bind_Some_conv)
qed

lemma args_step:
  assumes "p9_args fresh s q d offset fmt k = Some (r, s')" and "fids_ok ok live s"
    and "\<And>vs off. k vs off = Some (r, s') \<Longrightarrow> kept s'"
  shows "kept s'"
  using assms by (auto simp: p9_args_def bind_Some_conv split: option.splits)

lemma dispatch_step:
  assumes ok: "fids_ok ok live s" and p: "p9_dispatch fresh D q d tag op offset s = Some (r, s')"
  shows "kept s'"
proof -
  note st = op_steps [OF ok] op_steps2 [OF ok]
  have ifs: "(if c then a else b) = Some (r, s') \<longrightarrow> kept s'"
    if "c \<Longrightarrow> a = Some (r, s') \<longrightarrow> kept s'" "\<not> c \<Longrightarrow> b = Some (r, s') \<longrightarrow> kept s'"
    for c and a b :: "(p9_reply \<times> 'h v9p) option"
    using that by simp
  have args: "p9_args fresh s q d offset fmt k = Some (r, s') \<longrightarrow> kept s'"
    if "\<And>vs off. k vs off = Some (r, s') \<Longrightarrow> kept s'" for fmt k
    using args_step [OF _ ok] that by blast
  have "p9_dispatch fresh D q d tag op offset s = Some (r, s') \<longrightarrow> kept s'"
    unfolding p9_dispatch_def Let_def
    by (intro ifs args) (use ok in \<open>auto split: list.split_asm p9val.split_asm intro: st\<close>)
  then show ?thesis using p by blast
qed

end

text \<open>A request changes the 9P device as its operation does; the answer changes nothing of it.\<close>

lemma reply_more:
  assumes "v_wf s" and "virtio_9p_send_reply q d op tag buf s = Some s'"
  shows "v_step s s'" and "virtio.more s' = virtio.more s"
proof -
  let ?b = "le_bytes 4 (length buf + 7) @ [op + 1] @ le_bytes 2 (unat tag) @ buf"
  obtain r t where m: "memcpy_to_queue s q d 0 ?b (int (length buf + 7)) = Some (r, t)"
    and c: "virtio_consume_desc t q d (of_nat (length buf + 7)) = Some s'"
    using assms(2) by (auto simp: virtio_9p_send_reply_def Let_def bind_Some_conv)
  have st: "v_step s t" by (rule memcpy_step [OF assms(1) m])
  show "v_step s s'" using st consume_step [OF v_stepD [OF st] c] v_step_trans by blast
  have "q < length (queue t)" using c by (auto simp: virtio_consume_desc_def get_queue_def split: if_splits)
  then obtain mm where "s' = t\<lparr>mem_map := mm, int_status := int_status t OR 1, irq := True\<rparr>"
    using consume_desc [OF v_wf_map [OF v_stepD [OF st]], of q d "of_nat (length buf + 7)"] c by auto
  then have "virtio.more s' = virtio.more t" by simp
  moreover have "virtio.more t = virtio.more s"
    using mem_only_fields(7) [OF memcpy_to_queue_mem [OF m v_wf_map [OF assms(1)]]] .
  ultimately show "virtio.more s' = virtio.more s" by simp
qed

lemma send_more:
  assumes "v_wf s" and "p9_send q d op tag r s = Some s'"
  shows "v_step s s' \<and> virtio.more s' = virtio.more s"
  using assms reply_more v_step_refl
  by (auto simp: p9_send_def virtio_9p_send_error_def bind_Some_conv split: p9_reply.splits)

text \<open>Equality of the part of the 9P device.\<close>

lemma more_fields:
  assumes "virtio.more s' = virtio.more (s :: 'h v9p)"
  shows "p9_fs s' = p9_fs s" "fid_list s' = fid_list s" "p9_in_progress s' = p9_in_progress s" "open_info s' = open_info s"
    "msize s' = msize s"
  using assms by (cases s; cases s'; simp)+

lemma fids_more: "virtio.more s' = virtio.more s \<Longrightarrow> fids_ok ok live s' = fids_ok ok live s"
  using more_fields [of s' s] by (simp add: fids_ok_def)

lemma p9_recv_step:
  assumes w: "v_wf s" and r: "virtio_9p_recv_request fresh D q d rs ws s = Some (ret, s')"
  shows "v_step s s' \<and> (virtio.more s' = virtio.more s \<or>
    (\<exists>tag op rp t. p9_dispatch fresh D q d tag op 7 s = Some (rp, t) \<and> virtio.more s' = virtio.more t))"
proof (cases "q \<noteq> 0 \<or> p9_in_progress s")
  case True
  then show ?thesis using r v_step_refl [OF w] by (auto simp: virtio_9p_recv_request_def split: if_splits)
next
  case False
  obtain e buf where b: "memcpy_from_queue s (fresh 1024) q d 0 7 = Some (e, buf)"
    using r False by (auto simp: virtio_9p_recv_request_def bind_Some_conv)
  show ?thesis
  proof (cases "e = 0")
    case True
    obtain rp t op tag where d: "p9_dispatch fresh D q d tag op 7 s = Some (rp, t)" and sd: "p9_send q d op tag rp t = Some s'"
      using r False b True by (auto simp: virtio_9p_recv_request_def bind_Some_conv Let_def)
    have v: "v_step s t" by (rule own_only_step [OF dispatch_own d w])
    show ?thesis using send_more [OF v_stepD [OF v] sd] v v_step_trans d by blast
  next
    case e: False
    then have "p9_send q d 6 0 (P9_error (- P9_EPROTO)) s = Some s'"
      using r False b by (auto simp: virtio_9p_recv_request_def bind_Some_conv p9_send_def)
    then show ?thesis using send_more [OF w] by blast
  qed
qed

context file_server
begin

lemma recv_kept:
  assumes "v_wf s" and "fids_ok ok live s" and "virtio_9p_recv_request fresh D q d rs ws s = Some (ret, s')"
  shows "fids_ok ok live s'"
  using p9_recv_step [OF assms(1,3)] dispatch_step [OF assms(2)] fids_more assms(2) by blast

end

section \<open>Reachable states\<close>

text \<open>Registers other than the notification leave the part of a device that is its own alone.\<close>

definition same_own :: "'a virtio_scheme \<Rightarrow> 'a virtio_scheme option \<Rightarrow> bool" where
  "same_own s r \<longleftrightarrow> (\<forall>s'. r = Some s' \<longrightarrow> virtio.more s' = virtio.more s)"

lemma same_own_if: "(c \<Longrightarrow> same_own s a) \<Longrightarrow> (\<not> c \<Longrightarrow> same_own s b) \<Longrightarrow> same_own s (if c then a else b)"
  by simp

lemma same_own_simps:
  "same_own s (Some s)" "same_own s (Some (s\<lparr>device_features_sel := v\<rparr>))" "same_own s (upd_sel g s)"
  "same_own s (Some (if c then s\<lparr>queue_sel := v\<rparr> else s))" "same_own s (Some (set_status v s))"
  "same_own s (Some (interrupt_ack v s))" "same_own s (set_num v s)" "same_own s (virtio_config_write None off v n s)"
  by (auto simp: same_own_def upd_sel_def upd_queue_def set_status_def interrupt_ack_def set_num_def virtio_reset_def set_irq_def
      virtio_config_write_def set_config_def Let_def bind_Some_conv)

lemma pci_read_own:
  assumes "virtio_pci_read off n s = Some (v, s')"
  shows "virtio.more s' = virtio.more s"
  using assms by (auto simp: virtio_pci_read_def Let_def set_irq_def split: if_splits)

lemma pci_cfg_own: "same_own s (pci_cfg_write off v n s)"
  unfolding pci_cfg_write_def by (intro same_own_if same_own_simps)

text \<open>A property of that part which the receive function keeps.\<close>

locale own_invariant = virtio_device V for V :: "'a virtio_ops" +
  fixes Q :: "'a virtio_scheme \<Rightarrow> bool"
  assumes own: "virtio.more s = virtio.more t \<Longrightarrow> Q s = Q t"
    and recv_keeps: "v_wf s \<Longrightarrow> Q s \<Longrightarrow> v_recv V q d rs ws s = Some (ret, s') \<Longrightarrow> Q s'"
    and no_config: "v_config V = None"
begin

lemma upd_queue_Q: "Q (upd_queue q g s) = Q s"
  by (rule own) (simp add: upd_queue_def)

lemma notify_loop_Q:
  assumes "notify_loop (v_recv V) q i s = Some s'"
  shows "v_wf s \<and> Q s \<longrightarrow> Q s'"
proof -
  have "r = v_recv V \<longrightarrow> v_wf s \<and> Q s \<longrightarrow> Q s'" if "notify_loop r q i s = Some s'" for r q i s s'
    using _ that
  proof (rule notify_loop.raw_induct, goal_cases)
    case (1 f recv q i s r)
    show ?case
    proof (intro impI)
      assume rc: "recv = v_recv V" and w: "v_wf s \<and> Q s"
      have ih: "Q r" if "v_wf t" "Q t" "f recv q i (upd_queue q inc_avail t) = Some r" for t
        using 1(1) [OF that(3)] rc that v_stepD [OF inc_avail_step] upd_queue_Q by blast
      have rv: "v_wf t \<and> Q t" if "recv q d rs ws s = Some (ret, t)" for d rs ws ret t
        using rc w that recv_keeps v_stepD [OF recv_step] by blast
      show "Q r" using 1(2) w ih rv
        by (auto simp: Let_def bind_Some_conv split: if_splits option.splits prod.splits) blast+
    qed
  qed
  then show ?thesis using assms by blast
qed

lemma notify_Q: "v_wf s \<Longrightarrow> Q s \<Longrightarrow> queue_notify (v_recv V) q s = Some s' \<Longrightarrow> Q s'"
  using notify_loop_Q by (auto simp: queue_notify_def bind_Some_conv split: if_splits)

lemma mmio_write_Q:
  assumes "v_wf s" and "Q s" and "virtio_mmio_write V off v n s = Some s'"
  shows "Q s'"
proof (cases "off \<noteq> VIRTIO_MMIO_QUEUE_NOTIFY \<or> n \<noteq> 2")
  case True
  have "same_own s (virtio_mmio_write V off v n s)"
    unfolding virtio_mmio_write_def no_config by (intro same_own_if same_own_simps) (use True in auto)
  then show ?thesis using assms(2,3) own [of s' s] by (simp add: same_own_def)
next
  case False
  then have "virtio_mmio_write V off v n s =
      (if unat v < MAX_QUEUE then queue_notify (v_recv V) (unat v) s else Some s)"
    by (simp add: virtio_mmio_write_def virtio_mmio_consts)
  then show ?thesis using assms notify_Q by (auto split: if_splits)
qed

lemma pci_write_Q:
  assumes "v_wf s" and "Q s" and "virtio_pci_write V off v n s = Some s'"
  shows "Q s'"
proof -
  define o1 where "o1 = off AND 0xfff"
  define pg where "pg = drop_bit 12 off"
  have "virtio_pci_write V off v n s \<in> {pci_cfg_write o1 v n s, virtio_config_write None o1 v n s,
      queue_notify (v_recv V) (unat v) s, Some s}"
    unfolding virtio_pci_write_def Let_def o1_def [symmetric] pg_def [symmetric] no_config
    by (simp only: insert_iff split: if_split) blast
  moreover have "Q s'" if "same_own s (Some s')" using that assms(2) own [of s' s] by (simp add: same_own_def)
  ultimately show ?thesis
    using assms pci_cfg_own [of s o1 v n] same_own_simps(8) [of s o1 v n] notify_Q by auto
qed

lemma reach_Q:
  assumes "v_reach V H s0 s" and "v_wf s0" and "Q s0"
    and "\<And>s s'. v_wf s \<Longrightarrow> Q s \<Longrightarrow> H s s' \<Longrightarrow> v_step s s' \<and> Q s'"
  shows "v_wf s \<and> Q s"
  using assms(1)
proof induction
  case reach_init
  then show ?case using assms(2,3) by simp
next
  case (reach_mmio s off v n s')
  then show ?case using mmio_write_Q mmio_write_step v_stepD by blast
next
  case (reach_pci_read s off n v s')
  then show ?case using pci_read_total [of s n off] pci_read_own [of off n s v s'] own [of s' s] v_stepD by auto
next
  case (reach_pci s off v n s')
  then show ?case using pci_write_Q pci_write_step v_stepD by blast
next
  case (reach_ram s mm)
  then show ?case using v_step_ram v_stepD own [of "s\<lparr>mem_map := mm\<rparr>" s] by auto
next
  case (reach_host s s')
  then show ?case using assms(4) v_stepD by blast
qed

end

section \<open>The device over the file system in memory\<close>

definition p9_ops :: "malloc \<Rightarrow> 'h fs_device \<Rightarrow> ('h, unit) v9p_ext virtio_ops" where
  "p9_ops fresh D = \<lparr>v_recv = virtio_9p_recv_request fresh D, v_config = None\<rparr>"

text \<open>The host: the file system's own steps, and the end of an open.\<close>

definition p9_host :: "malloc \<Rightarrow> 'h fs_device \<Rightarrow> ('h \<Rightarrow> 'h \<Rightarrow> bool) \<Rightarrow> 'h v9p \<Rightarrow> 'h v9p \<Rightarrow> bool" where
  "p9_host fresh D T s s' \<longleftrightarrow> (\<exists>h. T (p9_fs s) h \<and> s' = s\<lparr>p9_fs := h\<rparr>) \<or>
     (\<exists>qid err. virtio_9p_open_cb fresh D qid err s = Some s')"

text \<open>Time passes.\<close>

definition mem_time :: "fsmem \<Rightarrow> fsmem \<Rightarrow> bool" where
  "mem_time fs fs' \<longleftrightarrow> (\<exists>t. fs' = fs\<lparr>tod := t\<rparr>)"

definition mem_fids_ok :: "fsmem v9p \<Rightarrow> bool" where
  "mem_fids_ok = fids_ok fs_wf (\<lambda>fs. dom (files fs))"

interpretation p9: virtio_device "p9_ops fresh D" for fresh D
  by unfold_locales (auto simp: p9_ops_def dest: p9_recv_step)

interpretation mem9: own_invariant "p9_ops fresh (mem_device E)" mem_fids_ok for fresh E
proof (unfold_locales, goal_cases)
  case (1 s t)
  then show ?case unfolding mem_fids_ok_def by (rule fids_more)
next
  case (2 s q d rs ws ret s')
  then have "virtio_9p_recv_request fresh (mem_device E) q d rs ws s = Some (ret, s')" by (simp add: p9_ops_def)
  then show ?case using 2(2) unfolding mem_fids_ok_def by (rule mem.recv_kept [OF 2(1) _, rotated])
next
  case 3
  then show ?case by (simp add: p9_ops_def)
qed

lemma open_reply_more:
  assumes "v_wf s" and "virtio_9p_open_reply q d tag err qid s = Some s'"
  shows "v_step s s' \<and> virtio.more s' = virtio.more s"
  using assms(2) send_more [OF assms(1)] by (auto simp: virtio_9p_open_reply_def bind_Some_conv)

lemma p9_host_step:
  assumes w: "v_wf s" and ok: "mem_fids_ok s" and h: "p9_host fresh (mem_device E) mem_time s s'"
  shows "v_step s s' \<and> mem_fids_ok s'"
proof (cases "\<exists>fs. mem_time (p9_fs s) fs \<and> s' = s\<lparr>p9_fs := fs\<rparr>")
  case True
  then obtain t where s': "s' = s\<lparr>p9_fs := (p9_fs s)\<lparr>tod := t\<rparr>\<rparr>" by (auto simp: mem_time_def)
  have "v_step s s'" using w by (simp add: s' v_step_def v_wf_def)
  moreover have "mem_fids_ok s'" using ok tod_wf [of "p9_fs s" t] by (simp add: s' mem_fids_ok_def fids_ok_def)
  ultimately show ?thesis by blast
next
  case False
  then obtain q d tag err qid t where r: "virtio_9p_open_reply q d tag err qid s = Some t"
    and n: "queue_notify (virtio_9p_recv_request fresh (mem_device E)) q (t\<lparr>p9_in_progress := False, open_info := None\<rparr>) = Some s'"
    using h by (auto simp: p9_host_def virtio_9p_open_cb_def bind_Some_conv)
  let ?t = "t\<lparr>p9_in_progress := False, open_info := None\<rparr>"
  note m = open_reply_more [OF w r]
  have v: "v_step s ?t" using m by (simp add: v_step_def v_wf_def)
  have "mem_fids_ok t" using ok m fids_more by (auto simp: mem_fids_ok_def)
  then have q: "mem_fids_ok ?t" by (simp add: mem_fids_ok_def fids_ok_def)
  have n': "queue_notify (v_recv (p9_ops fresh (mem_device E))) q ?t = Some s'" using n by (simp add: p9_ops_def)
  show ?thesis
    using v_step_trans [OF v p9.notify_step [OF v_stepD [OF v] n']] mem9.notify_Q [OF v_stepD [OF v] q n'] by blast
qed

lemma p9_init_wf:
  assumes i: "virtio_9p_init mm a n tag h = Some s" and "map_wf mm" and "tag \<noteq> []"
  shows "v_wf s" and "p9_fs s = h" and "fid_list s = []"
proof -
  have len: "length tag \<le> 254" using i by (auto simp: virtio_9p_init_def Let_def bind_Some_conv MAX_CONFIG_SPACE_SIZE_def split: if_splits)
  have u: "unat (of_nat (2 + length tag) :: u32) = 2 + length tag"
    by (subst unsigned_of_nat) (use len in \<open>simp add: take_bit_nat_eq_self\<close>)
  obtain v where v: "virtio_init mm a n 9 (of_nat (2 + length tag)) = Some v"
    and s: "s = virtio.extend (set_config (v\<lparr>device_features := 1\<rparr>)
        ([of_nat (length tag), of_nat (length tag div 256)] @ tag @ drop (2 + length tag) (config_space v))) (v9p.fields h 8192 [] False None)"
    using i by (auto simp: virtio_9p_init_def Let_def bind_Some_conv split: if_splits)
  have w: "v_wf v" by (rule virtio_init_wf [OF v assms(2)]) (use len u assms(3) in \<open>cases tag; simp\<close>)+
  have "length (config_space v) = 256" using w by (simp add: v_wf_def MAX_CONFIG_SPACE_SIZE_def)
  then show "v_wf s" using w len unfolding s v_wf_extend by (simp add: v_wf_def set_config_def MAX_CONFIG_SPACE_SIZE_def)
  show "p9_fs s = h" "fid_list s = []" by (simp_all add: s virtio.extend_def v9p.fields_def)
qed

lemma init_files: "fs_mem_init t = Some fs \<Longrightarrow> files fs = Map.empty"
  by (auto simp: fs_mem_init_def Let_def empty_fs_def inode_new_def inode_incref_def mod_inode_def inode_dir_add_def
      bind_Some_conv split: inode_u.splits)

section \<open>Messages\<close>

text \<open>The letter of a value in a format, and the values \<open>unmarshall\<close> can read: strings without NUL, and no QID.\<close>

primrec fmt_of :: "p9val \<Rightarrow> char" where
  "fmt_of (P9b v) = CHR ''b''"
| "fmt_of (P9h v) = CHR ''h''"
| "fmt_of (P9w v) = CHR ''w''"
| "fmt_of (P9d v) = CHR ''d''"
| "fmt_of (P9s str) = CHR ''s''"
| "fmt_of (P9Q q) = CHR ''Q''"

primrec readable :: "p9val \<Rightarrow> bool" where
  "readable (P9b v) = True"
| "readable (P9h v) = True"
| "readable (P9w v) = True"
| "readable (P9d v) = True"
| "readable (P9s str) = (0 \<notin> set str)"
| "readable (P9Q q) = False"

text \<open>The bytes \<open>c\<close> are in the chain of descriptor \<open>i\<close>, all in RAM.\<close>

definition holds_message :: "'a virtio_scheme \<Rightarrow> nat \<Rightarrow> u16 \<Rightarrow> u8 list \<Rightarrow> bool" where
  "holds_message s q i c \<longleftrightarrow> map_wf (mem_map s) \<and> whole_pages (mem_map s) \<and> length c < 2 ^ 31 \<and>
     (\<exists>d. get_desc s None q i = Some d \<and> read_chain s q d c)"

lemma message_copy:
  assumes "holds_message s q i c" and "off + n \<le> length c" and "n \<le> length buf"
  shows "memcpy_from_queue s buf q i (word_of_int (int off)) (int n) = Some (0, take n (drop off c) @ drop n buf)"
  using assms memcpy_from_chain [of s q i _ c off n buf] by (auto simp: holds_message_def)

lemma message_num:
  assumes "holds_message s q i c" and "drop off c = le_bytes n v @ r" and "v < 256 ^ n" and "length buf = 16" "n \<le> 16" "0 < n"
  shows "\<exists>buf'. unmarshall_num s q i (int off) buf n = Some (Some (v, buf')) \<and> length buf' = 16"
proof -
  have "length (drop off c) = n + length r" using assms(2) by (simp add: length_le_bytes)
  then have l: "off + n \<le> length c" using assms(6) by simp
  have t: "take n (drop off c) = le_bytes n v" using assms(2) by (simp add: length_le_bytes)
  show ?thesis using message_copy [OF assms(1) l] assms(3-5) t
    by (simp add: unmarshall_num_def length_le_bytes le_val_le_bytes)
qed

lemma message_str:
  assumes m: "holds_message s q i c" and d: "drop off c = le_bytes 2 (length str) @ str @ r" and l: "length str \<le> 65535"
    and z: "0 \<notin> set str" and b: "length buf = 16" and f: "\<And>n. length (fresh n) = n"
  shows "\<exists>buf'. unmarshall_str fresh s q i (int off) buf = Some (Some (str, int (off + 2 + length str), buf')) \<and> length buf' = 16"
proof -
  obtain buf' where n: "unmarshall_num s q i (int off) buf 2 = Some (Some (length str, buf'))" and b': "length buf' = 16"
    using message_num [OF m d _ b, of] l by auto
  have "length (drop off c) = 2 + length str + length r" using d by (simp add: length_le_bytes)
  then have len: "off + 2 + length str \<le> length c" by simp
  have "drop (off + 2) c = drop 2 (drop off c)" by (simp add: add.commute)
  then have t: "take (length str) (drop (off + 2) c) = str" unfolding d by (simp add: length_le_bytes)
  have "memcpy_from_queue s (fresh (length str + 1)) q i (word_of_int (int (off + 2))) (int (length str)) =
      Some (0, str @ drop (length str) (fresh (length str + 1)))"
    using message_copy [OF m len, of "fresh (length str + 1)"] t by (simp add: f)
  then have "memcpy_from_queue s (fresh (Suc (length str))) q i (word_of_nat off + 2) (int (length str)) =
      Some (0, str @ drop (length str) (fresh (Suc (length str))))" by (simp add: add.commute)
  moreover have "takeWhile (\<lambda>c. c \<noteq> 0) str = str" using z by (simp add: takeWhile_eq_all_conv) (metis)
  ultimately show ?thesis using n b' by (simp add: unmarshall_str_def)
qed

lemma marshall_head:
  assumes "marshall mx (v # vs) = Some msg"
  obtains bs r mx' where "val_bytes v = Some bs" "marshall mx' vs = Some r" "msg = bs @ r"
  using assms by (auto simp: bind_Some_conv split: if_splits)

lemma unat_bounds: "unat (a :: u8) < 256" "unat (b :: u16) < 65536" "unat (c :: u32) < 4294967296"
    "unat (d :: u64) < 18446744073709551616"
  using unsigned_less [of a, where ?'a = nat] unsigned_less [of b, where ?'a = nat]
    unsigned_less [of c, where ?'a = nat] unsigned_less [of d, where ?'a = nat] by simp_all

lemma message_value:
  assumes m: "holds_message s q i c" and v: "val_bytes v = Some bs" and r: "readable v" and d: "drop off c = bs @ r'"
    and b: "length buf = 16" and f: "\<And>n. length (fresh n) = n"
  shows "\<exists>buf'. unmarshall1 fresh s q i (fmt_of v) (int off) buf = Some (Some (v, int (off + length bs), buf')) \<and> length buf' = 16"
proof (cases v)
  case (P9b x)
  have "bs = le_bytes 1 (unat x)" using v P9b by simp
  then show ?thesis using message_num [OF m, of off 1 "unat x" r' buf] d b P9b unat_bounds
    by (auto simp: unmarshall1_def)
next
  case (P9h x)
  then show ?thesis using message_num [OF m, of off 2 "unat x" r' buf] d b v unat_bounds
    by (auto simp: unmarshall1_def length_le_bytes)
next
  case (P9w x)
  then show ?thesis using message_num [OF m, of off 4 "unat x" r' buf] d b v unat_bounds
    by (auto simp: unmarshall1_def length_le_bytes)
next
  case (P9d x)
  then show ?thesis using message_num [OF m, of off 8 "unat x" r' buf] d b v unat_bounds
    by (auto simp: unmarshall1_def length_le_bytes)
next
  case (P9s str)
  then have "bs = le_bytes 2 (length str) @ str" "length str \<le> 65535" using v by (auto split: if_splits)
  then show ?thesis using message_str [OF m, of off str r' buf fresh] d b f r P9s
    by (auto simp: unmarshall1_def length_le_bytes add.assoc)
qed (use r in simp)

lemma message_values:
  assumes m: "holds_message s q i c" and f: "\<And>n. length (fresh n) = n"
  shows "marshall mx vs = Some msg \<Longrightarrow> \<forall>v \<in> set vs. readable v \<Longrightarrow> drop off c = msg @ r \<Longrightarrow> length buf = 16 \<Longrightarrow>
    off + length msg \<le> length c \<Longrightarrow>
    unmarshall_loop fresh s q i (map fmt_of vs) (int off) buf = Some (Some (vs, int (off + length msg)))"
proof (induction vs arbitrary: mx msg off buf)
  case (Cons v vs)
  obtain bs rest mx' where v: "val_bytes v = Some bs" and vs: "marshall mx' vs = Some rest" and msg: "msg = bs @ rest"
    using marshall_head [OF Cons(2)] .
  obtain buf' where u: "unmarshall1 fresh s q i (fmt_of v) (int off) buf = Some (Some (v, int (off + length bs), buf'))"
    and b: "length buf' = 16"
    using message_value [OF m v _ _ Cons(5) f, of off "rest @ r"] Cons(3,4) msg by auto
  have "drop (off + length bs) c = drop (length bs) (drop off c)" by (simp add: add.commute)
  then have d: "drop (off + length bs) c = rest @ r" using Cons(4) msg by simp
  have "length c < 2 ^ 31" using m by (simp add: holds_message_def)
  then have "int32_range (int (off + length bs))" using Cons(6) msg by (simp add: int32_range_def)
  then show ?case using u Cons(1) [OF vs _ d b] Cons(3,6) msg by (simp add: add.assoc)
qed simp

section \<open>Properties\<close>



text \<open>
  C32. What a client marshals is what the device reads: if the values of a message, of any number, without NUL in the
  strings, fit into the client's buffer, and the chain holds their bytes at some offset, then \<open>unmarshall\<close> with the
  letters of the values gives exactly these values and the offset after them.
\<close>

theorem p9_message_roundtrip:
  assumes "holds_message s q i (pre @ msg @ post)" and "marshall mx vs = Some msg" and "\<forall>v \<in> set vs. readable v"
    and "\<forall>n. length (fresh n) = n"
  shows "unmarshall fresh s q i (int (length pre)) (map fmt_of vs) = Some (Some (vs, int (length pre + length msg)))"
  unfolding unmarshall_def
  by (rule message_values [OF assms(1) _ assms(2,3), of fresh "length pre" post "fresh 16"]) (use assms(4) in simp_all)

theorem p9_message_roundtrip_witness:
  "unmarshall (\<lambda>n. replicate n 0) sample_console 1 1 1 ''hb'' = Some (Some ([P9h 0x6362, P9b 0x64], 4))"
proof -
  have "holds_message sample_console 1 1 ([97] @ [98, 99, 100] @ [101])"
    using sample_wf sample_pages sample_desc sample_chain by (auto simp: holds_message_def sample_mem)
  moreover have "le_bytes 2 v = [of_nat v, of_nat (v div 256)]" for v by (simp add: numeral_2_eq_2)
  then have "marshall 1024 [P9h 0x6362, P9b 0x64] = Some [98, 99, 100]" by simp
  ultimately have "unmarshall (\<lambda>n. replicate n 0) sample_console 1 1 (int (length [97 :: u8])) (map fmt_of [P9h 0x6362, P9b 0x64]) =
      Some (Some ([P9h 0x6362, P9b 0x64], int (length [97 :: u8] + length [98, 99, 100 :: u8])))"
    by (rule p9_message_roundtrip) simp_all
  then show ?thesis by simp
qed

end
