(* ===== verification/Spec2Isabelle.thy ===== *)
theory Spec2Isabelle
  imports Riscv_Start Riscv_Devices_Props Virtio_Reach Virtio_Chain Fs_Utils_Props Sha256_Props
    Json_Grammar Json_Types Config_Boot Virtio_9p_Props
begin

text \<open>
  \<^bold>\<open>A verification library for TinyEMU, the RISC-V emulator of this repository (\<open>src/tinyemu/\<close>).\<close>

  The program reads a JSON configuration, loads a BIOS, a kernel and an initial RAM disk, builds a machine (RAM,
  boot code, device tree, timer, interrupt controllers, host interface, virtio devices) and interprets RISC-V
  instructions, delivering device interrupts, until the guest powers it off. The repository runs it inside a PDF file.

  \<^bold>\<open>Configuration.\<close> The model is of the 32-bit build of the browser (\<open>MAX_XLEN\<close> 32, \<open>FLEN\<close> 64, no 128-bit integers, 32-bit
  \<open>long\<close>, \<open>VIRTIO_ADDR_BITS\<close> 32, files from URLs). Where a theory departs from it, its own text says so.

  \<^bold>\<open>Conventions.\<close> A w-bit C integer is a \<open>w word\<close>, or an \<open>int\<close> where the code cannot overflow; a struct is a record, and a
  function that changes it returns the new record. \<open>None\<close> is an outcome that leaves the defined behaviour of C or stops
  the program: an access outside a buffer, a failed \<open>assert\<close>, \<open>abort\<close>. An error code is part of the result. A definition
  has the name of the C function it translates, up to a suffix where the name exists in HOL.

  \<^bold>\<open>Parts.\<close>

  \<^descr>[Shared] \<open>Emu_Prelude\<close>: types, little-endian bytes, facts on words and on the option monad. \<open>Cutils\<close>: the helpers of
    \<open>cutils.c\<close>; \<open>Dynbuf\<close>: its growing buffers.

  \<^descr>[Memory] \<open>Iomem\<close>: the physical memory map of \<open>iomem.c\<close>, RAM and device ranges, look-up, dirty bits, remapping.

  \<^descr>[CPU] \<open>Riscv_State\<close>: the record of \<open>RISCVCPUState\<close>. \<open>Riscv_Mmu\<close>: page walk, TLBs, loads, stores and fetches of
    \<open>riscv_cpu.c\<close>. \<open>Riscv_Csr\<close>: CSRs, traps and interrupts. \<open>Riscv_Alu\<close>, \<open>Riscv_Insn\<close>, \<open>Riscv_Fp\<close>: the instructions of
    \<open>riscv_cpu_template.h\<close> and \<open>riscv_cpu_fp_template.h\<close>. \<open>Softfp\<close>: the arithmetic of \<open>softfp_template.h\<close>.
    \<open>Riscv_Interp\<close>: the loop of the interpreter. The lemmas are in \<open>Riscv_Mmu_Lemmas\<close> (accesses stay inside the RAM, TLB
    invariant), \<open>Riscv_Csr_Lemmas\<close> (WARL invariant, trap and return), \<open>Softfp_Lemmas\<close> and \<open>Softfp_Total\<close> (exact integer
    steps, no assertion fails), \<open>Riscv_Safety\<close> and \<open>Riscv_Run\<close> (every instruction, then every call, returns).

  \<^descr>[Bus] \<open>Riscv_Bus\<close>: the locale \<open>device_bus\<close> states what the CPU relies on when it reaches a device. \<open>Riscv_Machine\<close>
    models the devices of \<open>riscv_machine.c\<close> and interprets the locale on them, so that the results on the CPU hold for
    the machine.

  \<^descr>[Machine] \<open>Riscv_Machine\<close>: CLINT, PLIC, HTIF, the locale \<open>plat\<close> of the platform, \<open>riscv_machine_init\<close>, the
    execution loop. \<open>Fdt\<close>: the device tree writer, with a reader. \<open>Riscv_Boot\<close>: \<open>riscv_build_fdt\<close> and \<open>copy_bios\<close>. The
    lemmas are in \<open>Riscv_Boot_Props\<close>, \<open>Riscv_Machine_Props\<close>, \<open>Riscv_Devices_Props\<close>; \<open>Riscv_Start\<close> follows the CPU from reset
    into the BIOS.

  \<^descr>[virtio] \<open>Virtio\<close>: queues, MMIO and PCI registers, configuration space of \<open>virtio.c\<close>. \<open>Virtio_Devices\<close>: block, network,
    console and input. \<open>Virtio_Mem\<close>, \<open>Virtio_Props\<close>, \<open>Virtio_Reach\<close>, \<open>Virtio_Chain\<close>: guest memory as devices see it, the
    locale \<open>virtio_device\<close> and its interpretations, reachable states, descriptor chains. \<open>Virtio_9p\<close>: the 9P device, its
    fids, messages and requests; \<open>Virtio_9p_Props\<close> proves in the locales \<open>file_server\<close> and \<open>own_invariant\<close> that the fids own
    the files, and that messages are read as they were marshalled.

  \<^descr>[Configuration] \<open>Json\<close>: the parser of \<open>json.c\<close>, its grammar in \<open>Json_Grammar\<close>, typing in \<open>Json_Types\<close>. \<open>Config\<close>: \<open>machine.c\<close>;
    \<open>Config_Props\<close> relates the parameters to the JSON text, \<open>Config_Boot\<close> the text to a machine that runs.

  \<^descr>[Files] \<open>Fs_Utils\<close>: the text formats of \<open>fs_utils.c\<close>. \<open>Sha256\<close>: \<open>sha256.c\<close>, which \<open>Sha256_Props\<close> shows to be the hash
    of the standard. \<open>Fs_Mem\<close>: the file system in memory of \<open>fs_net.c\<close>, which the 9P device serves: inodes, directories,
    file buffers and every operation of \<open>fs_mem_init\<close>. \<open>Fs_Mem_Inv\<close>, \<open>Fs_Mem_Ops\<close>, \<open>Fs_Mem_Dirs\<close>, \<open>Fs_Mem_Data\<close>,
    \<open>Fs_Mem_Rw\<close>, \<open>Fs_Mem_Props\<close>: the counts of links, open files and blocks, directories as maps, file contents.
    \<open>Fs_Device\<close>: the table of functions \<open>FSDevice\<close>, the locale \<open>file_server\<close> of what the 9P device relies on, and its
    interpretation on the file system in memory.

  \<^bold>\<open>Bounds and fuel.\<close> The guest controls the number of iterations of some loops. \<open>interp_fuel n = nat n + 2050\<close> iterations
  are enough for a call of the interpreter with \<open>n\<close> cycles: each iteration takes a cycle, and the last block at
  most 2049 more. The outer loop takes \<open>nat n + 1\<close> calls. The parser of JSON takes \<open>2 * length + 3\<close> calls for a text, two
  for each character consumed. The theorems on these functions say that the fuel is enough. The walk over a descriptor
  chain is a \<open>partial_function\<close>, as the guest can make it endless; \<open>cyclic_chain_hangs\<close> is that case.

  \<^bold>\<open>Not modelled.\<close> The files on the host (\<open>fs_disk.c\<close>), the loading of files over the
  network and the command file of \<open>fs_net.c\<close>, parameters of \<open>Fs_Mem\<close> that no file made by requests reaches, and AES; the
  frame buffer, keyboard and mouse of \<open>vga.c\<close>, \<open>simplefb.c\<close>, \<open>ps2.c\<close>, \<open>pckbd.c\<close>, \<open>vmmouse.c\<close>, and the PCI bus and IDE, which only the
  x86 machine uses; \<open>x86_machine.c\<close>, which runs on a KVM host and not in this build; \<open>slirp\<close>, which is third-party code;
  the front ends. The virtio devices are proved over the memory map but are not attached to the modelled
  machine, whose bus has the devices of \<open>riscv_machine.c\<close>.
\<close>

end
